(* ===== verification/FsPrelude.thy ===== *)
theory FsPrelude
  imports Main "HOL-Library.Word" "HOL-Library.Monad_Syntax"
begin

text \<open>
  Shared ground of the development: the machine types the code uses, the slice operations of
  Rust's byte buffers with their panics, and the lemmas on list positions that the component
  theories rely on.

  A computation that panics (a slice or an index out of range, a division by zero) is a value of
  the option type, with None for the panic; the do-notation of Monad\_Syntax chains such
  computations. Quantities of type u64 and usize are natural numbers: the code adds and subtracts
  file offsets far below 2 ^ 63, and every subtraction the code does not guard is a None branch of
  the model. Bytes are 8-bit words, because the pattern bytes of the programs wrap around.
\<close>

type_synonym u8 = "8 word"
type_synonym u32 = "32 word"
type_synonym i32 = "32 word"
type_synonym u64 = "64 word"

text \<open>A path is the list of its components.\<close>

type_synonym path = "string list"

named_theorems buf_simps \<open>positions and lengths of updated byte buffers\<close>

section \<open>Buffers: slices, fills and copies as Rust does them\<close>

text \<open>\<open>overlay xs a ys\<close> is \<open>xs\<close> with \<open>ys\<close> stored from position \<open>a\<close> on.\<close>

definition overlay :: "'a list \<Rightarrow> nat \<Rightarrow> 'a list \<Rightarrow> 'a list" where
  "overlay xs a ys = take a xs @ ys @ drop (a + length ys) xs"

lemma length_overlay [simp]:
  "a + length ys \<le> length xs \<Longrightarrow> length (overlay xs a ys) = length xs"
  by (simp add: overlay_def)

lemma nth_overlay [buf_simps]:
  assumes "a + length ys \<le> length xs" and "i < length xs"
  shows "overlay xs a ys ! i = (if a \<le> i \<and> i < a + length ys then ys ! (i - a) else xs ! i)"
  using assms by (auto simp: overlay_def nth_append min_def)

lemma overlay_Nil [simp]: "overlay xs a [] = xs"
  by (simp add: overlay_def)

text \<open>\<open>&xs[a..b]\<close>: panics unless \<open>a \<le> b \<le> xs.len()\<close>.\<close>

definition rslice :: "'a list \<Rightarrow> nat \<Rightarrow> nat \<Rightarrow> 'a list option" where
  "rslice xs a b = (if a \<le> b \<and> b \<le> length xs then Some (take (b - a) (drop a xs)) else None)"

text \<open>\<open>xs[a..b].fill(v)\<close>.\<close>

definition rfill :: "'a list \<Rightarrow> nat \<Rightarrow> nat \<Rightarrow> 'a \<Rightarrow> 'a list option" where
  "rfill xs a b v =
     (if a \<le> b \<and> b \<le> length xs then Some (overlay xs a (replicate (b - a) v)) else None)"

text \<open>\<open>xs.copy_within(a..b, d)\<close>: panics unless the source range is in range and the
  destination range fits.\<close>

definition rcopy_within :: "'a list \<Rightarrow> nat \<Rightarrow> nat \<Rightarrow> nat \<Rightarrow> 'a list option" where
  "rcopy_within xs a b d =
     (if a \<le> b \<and> b \<le> length xs \<and> d + (b - a) \<le> length xs
      then Some (overlay xs d (take (b - a) (drop a xs))) else None)"

text \<open>\<open>xs[i]\<close>, read and written.\<close>

definition rget :: "'a list \<Rightarrow> nat \<Rightarrow> 'a option" where
  "rget xs i = (if i < length xs then Some (xs ! i) else None)"

definition rset :: "'a list \<Rightarrow> nat \<Rightarrow> 'a \<Rightarrow> 'a list option" where
  "rset xs i v = (if i < length xs then Some (xs[i := v]) else None)"

text \<open>\<open>a - b\<close> on u64 where the code has no guard: an underflow is a panic.\<close>

definition rsub :: "nat \<Rightarrow> nat \<Rightarrow> nat option" where
  "rsub a b = (if b \<le> a then Some (a - b) else None)"

text \<open>\<open>a % b\<close> on u64: a zero divisor is a panic.\<close>

definition rmod :: "nat \<Rightarrow> nat \<Rightarrow> nat option" where
  "rmod a b = (if b = 0 then None else Some (a mod b))"

lemma rslice_Some [simp]:
  "a \<le> b \<Longrightarrow> b \<le> length xs \<Longrightarrow> rslice xs a b = Some (take (b - a) (drop a xs))"
  by (simp add: rslice_def)

lemma rfill_Some [simp]:
  "a \<le> b \<Longrightarrow> b \<le> length xs \<Longrightarrow> rfill xs a b v = Some (overlay xs a (replicate (b - a) v))"
  by (simp add: rfill_def)

lemma rcopy_within_Some [simp]:
  "a \<le> b \<Longrightarrow> b \<le> length xs \<Longrightarrow> d + (b - a) \<le> length xs \<Longrightarrow>
   rcopy_within xs a b d = Some (overlay xs d (take (b - a) (drop a xs)))"
  by (simp add: rcopy_within_def)

lemma rget_Some [simp]: "i < length xs \<Longrightarrow> rget xs i = Some (xs ! i)"
  by (simp add: rget_def)

lemma rset_Some [simp]: "i < length xs \<Longrightarrow> rset xs i v = Some (xs[i := v])"
  by (simp add: rset_def)

lemma rsub_Some [simp]: "b \<le> a \<Longrightarrow> rsub a b = Some (a - b)"
  by (simp add: rsub_def)

lemma rmod_Some [simp]: "0 < b \<Longrightarrow> rmod a b = Some (a mod b)"
  by (simp add: rmod_def)

section \<open>File images\<close>

text \<open>
  The image of a regular file is its list of bytes. \<open>pad n c\<close> extends an image with zero bytes to
  at least \<open>n\<close> bytes; the operations of POSIX files are stated with it.
\<close>

definition pad :: "nat \<Rightarrow> u8 list \<Rightarrow> u8 list" where
  "pad n c = c @ replicate (n - length c) 0"

lemma length_pad [simp]: "length (pad n c) = max n (length c)"
  by (simp add: pad_def)

lemma pad_id [simp]: "n \<le> length c \<Longrightarrow> pad n c = c"
  by (simp add: pad_def)

lemma nth_pad [buf_simps]:
  "i < max n (length c) \<Longrightarrow> pad n c ! i = (if i < length c then c ! i else 0)"
  by (auto simp: pad_def nth_append)

lemma take_drop_nth [buf_simps]: "i < n \<Longrightarrow> a + i < length xs \<Longrightarrow> take n (drop a xs) ! i = xs ! (a + i)"
  by simp

section \<open>Positions of lists, counted\<close>

definition count_diff :: "'a list \<Rightarrow> 'a list \<Rightarrow> nat" where
  "count_diff xs ys = length (filter (\<lambda>(x, y). x \<noteq> y) (zip xs ys))"

lemma count_diff_0_iff: "length xs = length ys \<Longrightarrow> count_diff xs ys = 0 \<longleftrightarrow> xs = ys"
  by (induction xs ys rule: list_induct2) (auto simp: count_diff_def)

end
