(* ===== verification/Rust_Text.thy ===== *)
theory Rust_Text
  imports FsPrelude "HOL-Library.Char_ord"
begin

text \<open>
  The string operations of Rust's standard library that the parsers of the program use, on
  Isabelle strings (lists of 8-bit characters, that is, the bytes of the text). Whitespace is the
  ASCII whitespace of \<open>char::is_whitespace\<close>; the Unicode spaces outside ASCII do not occur in the
  formats parsed here and count as ordinary characters.
\<close>

named_theorems text_simps \<open>equations of the text operations\<close>

section \<open>Characters\<close>

abbreviation LF :: char where "LF \<equiv> CHR 0x0A"
abbreviation CR :: char where "CR \<equiv> CHR 0x0D"
abbreviation TAB :: char where "TAB \<equiv> CHR 0x09"

definition ord :: "char \<Rightarrow> nat" where
  "ord c = of_char c"

definition is_ws :: "char \<Rightarrow> bool" where
  "is_ws c \<longleftrightarrow> c \<in> {CHR '' '', CHR 0x09, CHR 0x0A, CHR 0x0B, CHR 0x0C, CHR 0x0D}"

definition is_digit :: "char \<Rightarrow> bool" where
  "is_digit c \<longleftrightarrow> 48 \<le> ord c \<and> ord c \<le> 57"

definition is_alpha :: "char \<Rightarrow> bool" where
  "is_alpha c \<longleftrightarrow> (65 \<le> ord c \<and> ord c \<le> 90) \<or> (97 \<le> ord c \<and> ord c \<le> 122)"

definition to_lower :: "char \<Rightarrow> char" where
  "to_lower c = (if 65 \<le> ord c \<and> ord c \<le> 90 then char_of (ord c + 32) else c)"

section \<open>Trimming, prefixes, searching\<close>

definition trim_start :: "string \<Rightarrow> string" where
  "trim_start s = dropWhile is_ws s"

definition trim_end :: "string \<Rightarrow> string" where
  "trim_end s = rev (dropWhile is_ws (rev s))"

definition trim :: "string \<Rightarrow> string" where
  "trim s = trim_end (trim_start s)"

definition starts_with :: "string \<Rightarrow> string \<Rightarrow> bool" where
  "starts_with p s \<longleftrightarrow> take (length p) s = p"

definition ends_with :: "string \<Rightarrow> string \<Rightarrow> bool" where
  "ends_with p s \<longleftrightarrow> starts_with (rev p) (rev s)"

definition strip_prefix :: "string \<Rightarrow> string \<Rightarrow> string option" where
  "strip_prefix p s = (if starts_with p s then Some (drop (length p) s) else None)"

definition strip_suffix :: "string \<Rightarrow> string \<Rightarrow> string option" where
  "strip_suffix p s = (if ends_with p s then Some (take (length s - length p) s) else None)"

text \<open>\<open>str::find\<close>: the position of the first occurrence.\<close>

fun find_sub :: "string \<Rightarrow> string \<Rightarrow> nat option" where
  "find_sub p [] = (if p = [] then Some 0 else None)"
| "find_sub p (c # s) = (if starts_with p (c # s) then Some 0 else map_option Suc (find_sub p s))"

definition contains :: "string \<Rightarrow> string \<Rightarrow> bool" where
  "contains s p \<longleftrightarrow> find_sub p s \<noteq> None"

text \<open>\<open>str::split_once\<close> at a string.\<close>

definition split_once :: "string \<Rightarrow> string \<Rightarrow> (string \<times> string) option" where
  "split_once p s = map_option (\<lambda>i. (take i s, drop (i + length p) s)) (find_sub p s)"

text \<open>\<open>trim_start_matches\<close> with a string pattern: strips it as often as it is there.\<close>

function trim_start_matches :: "string \<Rightarrow> string \<Rightarrow> string" where
  "trim_start_matches p s =
     (if p \<noteq> [] \<and> starts_with p s then trim_start_matches p (drop (length p) s) else s)"
  by pat_completeness auto
termination
proof (relation "measure (\<lambda>(p, s). length s)")
  fix p s :: string assume "p \<noteq> [] \<and> starts_with p s"
  then show "((p, drop (length p) s), p, s) \<in> measure (\<lambda>(p, s). length s)"
    by (cases p; cases s) (auto simp: starts_with_def)
qed simp

declare trim_start_matches.simps [simp del]

definition trim_end_matches :: "string \<Rightarrow> string \<Rightarrow> string" where
  "trim_end_matches p s = rev (trim_start_matches (rev p) (rev s))"

section \<open>Splitting\<close>

text \<open>\<open>str::split\<close> at a character: one piece more than there are separators.\<close>

fun split_on :: "char \<Rightarrow> string \<Rightarrow> string list" where
  "split_on c [] = [[]]"
| "split_on c (x # xs) =
     (if x = c then [] # split_on c xs
      else case split_on c xs of [] \<Rightarrow> [[x]] | y # ys \<Rightarrow> (x # y) # ys)"

lemma split_on_nonempty [simp]: "split_on c s \<noteq> []"
  by (induction s) (auto split: list.splits)

definition strip_cr :: "string \<Rightarrow> string" where
  "strip_cr s = (if s \<noteq> [] \<and> last s = CR then butlast s else s)"

text \<open>\<open>str::lines\<close>: a line ends with a line feed, or a carriage return and a line feed; the last
  line needs no ending.\<close>

definition lines :: "string \<Rightarrow> string list" where
  "lines s =
     (let ps = split_on LF s
      in map strip_cr (butlast ps) @ (if last ps = [] then [] else [last ps]))"

function split_ws :: "string \<Rightarrow> string list" where
  "split_ws s =
     (let t = dropWhile is_ws s
      in if t = [] then []
         else takeWhile (\<lambda>c. \<not> is_ws c) t # split_ws (dropWhile (\<lambda>c. \<not> is_ws c) t))"
  by pat_completeness auto
termination
proof (relation "measure length")
  show "wf (measure (length :: string \<Rightarrow> nat))" by simp
next
  fix s t assume t: "t = dropWhile is_ws s" and ne: "t \<noteq> []"
  then have "\<not> is_ws (hd t)" using hd_dropWhile by blast
  then have "length (dropWhile (\<lambda>c. \<not> is_ws c) t) < length t"
    using ne by (cases t) (auto simp: le_imp_less_Suc length_dropWhile_le)
  also have "length t \<le> length s" by (simp add: t length_dropWhile_le)
  finally show "(dropWhile (\<lambda>c. \<not> is_ws c) t, s) \<in> measure length" by simp
qed

declare split_ws.simps [simp del]

section \<open>Numbers\<close>

definition digit_char :: "nat \<Rightarrow> char" where
  "digit_char d = char_of (if d < 10 then 48 + d else 87 + d)"

text \<open>The digits of a number in a base, as \<open>{}\<close> and \<open>{:x}\<close> print them.\<close>

fun digits_of :: "nat \<Rightarrow> nat \<Rightarrow> string" where
  "digits_of b n =
     (if b < 2 then [] else if n < b then [digit_char n] else digits_of b (n div b) @ [digit_char (n mod b)])"

declare digits_of.simps [simp del]

definition dec_str :: "nat \<Rightarrow> string" where
  "dec_str n = digits_of 10 n"

definition hex_str :: "nat \<Rightarrow> string" where
  "hex_str n = digits_of 16 n"

definition int_str :: "int \<Rightarrow> string" where
  "int_str z = (if z < 0 then CHR ''-'' # dec_str (nat (- z)) else dec_str (nat z))"

definition digit_val :: "nat \<Rightarrow> char \<Rightarrow> nat option" where
  "digit_val b c =
     (let n = ord c;
          d = (if 48 \<le> n \<and> n \<le> 57 then n - 48
               else if 97 \<le> n \<and> n \<le> 122 then n - 87
               else if 65 \<le> n \<and> n \<le> 90 then n - 55 else 99)
      in if d < b then Some d else None)"

fun parse_digits :: "nat \<Rightarrow> nat \<Rightarrow> string \<Rightarrow> nat option" where
  "parse_digits b acc [] = Some acc"
| "parse_digits b acc (c # cs) =
     (case digit_val b c of None \<Rightarrow> None | Some d \<Rightarrow> parse_digits b (acc * b + d) cs)"

text \<open>\<open>u64::from_str_radix\<close> and \<open>str::parse\<close> for unsigned types below \<open>lim\<close>: an optional plus sign,
  at least one digit, no overflow.\<close>

definition parse_uint :: "nat \<Rightarrow> nat \<Rightarrow> string \<Rightarrow> nat option" where
  "parse_uint lim b s =
     (let t = (if s \<noteq> [] \<and> hd s = CHR ''+'' then tl s else s)
      in if t = [] then None
         else case parse_digits b 0 t of None \<Rightarrow> None | Some n \<Rightarrow> if n < lim then Some n else None)"

definition parse_u64 :: "string \<Rightarrow> nat option" where
  "parse_u64 s = parse_uint (2 ^ 64) 10 s"

definition parse_hex64 :: "string \<Rightarrow> nat option" where
  "parse_hex64 s = parse_uint (2 ^ 64) 16 s"

text \<open>\<open>str::parse\<close> for i64: one optional sign.\<close>

definition parse_i64 :: "string \<Rightarrow> int option" where
  "parse_i64 s =
     (case s of
        [] \<Rightarrow> None
      | c # t \<Rightarrow>
          if c = CHR ''-'' then
            (if t = [] then None
             else case parse_digits 10 0 t of None \<Rightarrow> None
                  | Some n \<Rightarrow> if n \<le> 2 ^ 63 then Some (- int n) else None)
          else map_option int (parse_uint (2 ^ 63) 10 s))"

lemma ord_digit_char: "d < 16 \<Longrightarrow> ord (digit_char d) = (if d < 10 then 48 + d else 87 + d)"
  by (simp add: ord_def digit_char_def)

lemma digit_val_char: "d < b \<Longrightarrow> b \<le> 16 \<Longrightarrow> digit_val b (digit_char d) = Some d"
  by (auto simp: digit_val_def Let_def ord_digit_char)

lemma parse_digits_append:
  "parse_digits b acc (xs @ ys) =
     (case parse_digits b acc xs of None \<Rightarrow> None | Some a \<Rightarrow> parse_digits b a ys)"
  by (induction xs arbitrary: acc) (auto split: option.splits)

lemma digits_of_nonempty: "2 \<le> b \<Longrightarrow> digits_of b n \<noteq> []"
  by (subst digits_of.simps) simp

lemma parse_digits_of:
  assumes "2 \<le> b" "b \<le> 16"
  shows "parse_digits b 0 (digits_of b n) = Some n"
  using assms
proof (induction b n rule: digits_of.induct)
  case (1 b n)
  show ?case
  proof (cases "n < b")
    case True
    with 1 show ?thesis by (subst digits_of.simps) (simp add: digit_val_char)
  next
    case False
    with 1 have "parse_digits b 0 (digits_of b (n div b)) = Some (n div b)" by simp
    with False 1 show ?thesis
      by (subst digits_of.simps) (simp add: parse_digits_append digit_val_char)
  qed
qed

lemma hd_digits_of_not_plus: "2 \<le> b \<Longrightarrow> b \<le> 16 \<Longrightarrow> hd (digits_of b n) \<noteq> CHR ''+''"
proof (induction b n rule: digits_of.induct)
  case (1 b n)
  have plus: "digit_char d \<noteq> CHR ''+''" if "d < 16" for d
    using ord_digit_char[OF that] by (auto simp: ord_def split: if_splits)
  show ?case
  proof (cases "n < b")
    case True
    with 1 show ?thesis by (subst digits_of.simps) (simp add: plus)
  next
    case False
    with 1 show ?thesis
      by (subst digits_of.simps) (simp add: digits_of_nonempty)
  qed
qed

lemma parse_uint_digits_of:
  "2 \<le> b \<Longrightarrow> b \<le> 16 \<Longrightarrow> n < lim \<Longrightarrow> parse_uint lim b (digits_of b n) = Some n"
  by (simp add: parse_uint_def digits_of_nonempty hd_digits_of_not_plus parse_digits_of)

lemma parse_hex64_hex_str: "n < 2 ^ 64 \<Longrightarrow> parse_hex64 (hex_str n) = Some n"
  by (simp add: parse_hex64_def hex_str_def parse_uint_digits_of)

lemma parse_u64_dec_str: "n < 2 ^ 64 \<Longrightarrow> parse_u64 (dec_str n) = Some n"
  by (simp add: parse_u64_def dec_str_def parse_uint_digits_of)

text \<open>The digits as literals, for concrete examples.\<close>

lemma char_of_lit: "of_char c = (n::nat) \<Longrightarrow> char_of n = c"
  by (metis char_of_char)

lemma digit_char_lits:
  "char_of (48::nat) = CHR ''0''"
  "char_of (49::nat) = CHR ''1''"
  "char_of (50::nat) = CHR ''2''"
  "char_of (51::nat) = CHR ''3''"
  "char_of (52::nat) = CHR ''4''"
  "char_of (53::nat) = CHR ''5''"
  "char_of (54::nat) = CHR ''6''"
  "char_of (55::nat) = CHR ''7''"
  "char_of (56::nat) = CHR ''8''"
  "char_of (57::nat) = CHR ''9''"
  by (rule char_of_lit; simp)+

section \<open>Lemmas on splitting and searching\<close>

lemma starts_with_append [simp]: "starts_with p (p @ s)"
  by (simp add: starts_with_def)

lemma starts_with_iff: "starts_with p s \<longleftrightarrow> (\<exists>t. s = p @ t)"
  by (metis append_take_drop_id starts_with_append starts_with_def)

lemma strip_prefix_Some_iff: "strip_prefix p s = Some t \<longleftrightarrow> s = p @ t"
  by (auto simp: strip_prefix_def starts_with_iff)

lemma concat_split_on: "c \<notin> set p \<Longrightarrow> p \<in> set (split_on c s) \<Longrightarrow> set p \<subseteq> set s"
proof (induction s arbitrary: p)
  case (Cons x xs)
  then show ?case
    by (cases "split_on c xs") (fastforce split: if_splits)+
qed simp

lemma split_on_no_sep: "p \<in> set (split_on c s) \<Longrightarrow> c \<notin> set p"
proof (induction s arbitrary: p)
  case (Cons x xs)
  then show ?case
    by (cases "split_on c xs") (auto split: if_splits)
qed simp

lemma split_ws_Nil [simp]: "split_ws [] = []"
  by (subst split_ws.simps) simp

lemma split_ws_tokens: "t \<in> set (split_ws s) \<Longrightarrow> t \<noteq> [] \<and> (\<forall>c \<in> set t. \<not> is_ws c)"
proof (induction s rule: split_ws.induct)
  case (1 s)
  let ?t = "dropWhile is_ws s"
  show ?case
  proof (cases "?t = []")
    case True
    with 1(2) show ?thesis by (subst (asm) split_ws.simps) simp
  next
    case False
    then have hd: "\<not> is_ws (hd ?t)" using hd_dropWhile by blast
    have "t = takeWhile (\<lambda>c. \<not> is_ws c) ?t \<or> t \<in> set (split_ws (dropWhile (\<lambda>c. \<not> is_ws c) ?t))"
      using 1(2) False by (subst (asm) split_ws.simps) (simp add: Let_def split: if_splits)
    then show ?thesis
    proof
      assume t: "t = takeWhile (\<lambda>c. \<not> is_ws c) ?t"
      with False hd have "t \<noteq> []" by (cases ?t) auto
      with t show ?thesis by (auto dest: set_takeWhileD)
    qed (use 1(1)[OF refl False] in blast)
  qed
qed

lemma find_sub_sound: "find_sub p s = Some i \<Longrightarrow> s = take i s @ p @ drop (i + length p) s"
proof (induction s arbitrary: i)
  case Nil
  then show ?case by (auto split: if_splits)
next
  case (Cons c s)
  show ?case
  proof (cases "starts_with p (c # s)")
    case True
    with Cons.prems have "i = 0" by simp
    with True show ?thesis by (auto simp: starts_with_iff)
  next
    case False
    with Cons.prems obtain j where "find_sub p s = Some j" "i = Suc j" by auto
    with Cons.IH[of j] show ?thesis by simp
  qed
qed

lemma starts_with_length: "starts_with p s \<Longrightarrow> length p \<le> length s"
  by (auto simp: starts_with_iff)

lemma find_sub_bound: "find_sub p s = Some i \<Longrightarrow> i + length p \<le> length s"
proof (induction s arbitrary: i)
  case Nil
  then show ?case by (auto split: if_splits)
next
  case (Cons c s)
  show ?case
  proof (cases "starts_with p (c # s)")
    case True
    with Cons.prems show ?thesis by (auto dest: starts_with_length)
  next
    case False
    with Cons.prems obtain j where "find_sub p s = Some j" "i = Suc j" by auto
    with Cons.IH[of j] show ?thesis by simp
  qed
qed

text \<open>Decimal numbers consist of digits and determine the number.\<close>

lemma digit_char_digit: "d < 10 \<Longrightarrow> is_digit (digit_char d)"
  by (simp add: is_digit_def ord_digit_char)

lemma dec_str_digit: "c \<in> set (dec_str n) \<Longrightarrow> is_digit c"
proof -
  have "c \<in> set (digits_of 10 n) \<Longrightarrow> is_digit c"
  proof (induction n rule: less_induct)
    case (less n)
    show ?case
    proof (cases "n < 10")
      case True
      with less.prems show ?thesis by (subst (asm) digits_of.simps) (simp add: digit_char_digit)
    next
      case False
      with less.prems less.IH[of "n div 10"] show ?thesis
        by (subst (asm) digits_of.simps) (auto simp: digit_char_digit)
    qed
  qed
  then show "c \<in> set (dec_str n) \<Longrightarrow> is_digit c" by (simp add: dec_str_def)
qed

lemma parse_dec_str: "parse_digits 10 0 (dec_str n) = Some n"
  unfolding dec_str_def by (rule parse_digits_of) simp_all

lemma dec_str_inj: "dec_str m = dec_str n \<Longrightarrow> m = n"
  by (metis parse_dec_str option.inject)

lemma dec_str_no: "\<not> is_digit c \<Longrightarrow> c \<notin> set (dec_str n)"
  using dec_str_digit by blast

text \<open>A number followed by a byte that is no digit ends there.\<close>

lemma dec_str_split:
  assumes "dec_str m @ c # r = dec_str n @ c # r'" "\<not> is_digit c"
  shows "m = n \<and> r = r'"
proof -
  have "takeWhile is_digit (dec_str k @ c # x) = dec_str k" for k x
    using dec_str_digit assms(2) by (subst takeWhile_append2) auto
  then have "dec_str m = dec_str n" using assms(1) by metis
  with assms(1) dec_str_inj show ?thesis by auto
qed

section \<open>Lines of tokens\<close>

abbreviation token :: "string \<Rightarrow> bool" where
  "token t \<equiv> t \<noteq> [] \<and> (\<forall>c \<in> set t. \<not> is_ws c)"

lemma split_ws_single: "token t \<Longrightarrow> split_ws t = [t]"
proof -
  assume t: "token t"
  have d: "dropWhile is_ws t = t" using t by (cases t) auto
  have e: "takeWhile (\<lambda>c. \<not> is_ws c) t = t" "dropWhile (\<lambda>c. \<not> is_ws c) t = []"
    using t by (simp_all add: takeWhile_eq_all_conv dropWhile_eq_Nil_conv)
  show ?thesis by (subst split_ws.simps) (simp add: d e t)
qed

lemma split_ws_cons:
  assumes "token t"
  shows "split_ws (t @ CHR '' '' # r) = t # split_ws r"
proof -
  have sp: "is_ws (CHR '' '')" by (simp add: is_ws_def)
  obtain a b where t: "t = a # b" using assms by (auto simp: neq_Nil_conv)
  have "split_ws (t @ CHR '' '' # r) = t # split_ws (CHR '' '' # r)"
    using assms sp by (subst split_ws.simps) (auto simp: t takeWhile_append2 dropWhile_append2)
  also have "split_ws (CHR '' '' # r) = split_ws r"
    using sp by (subst (1 2) split_ws.simps) simp
  finally show ?thesis .
qed

text \<open>A line that begins and ends with a non-blank character is its own trimmed form.\<close>

lemma trim_id: "s \<noteq> [] \<Longrightarrow> \<not> is_ws (hd s) \<Longrightarrow> \<not> is_ws (last s) \<Longrightarrow> trim s = s"
proof -
  assume s: "s \<noteq> []" "\<not> is_ws (hd s)" "\<not> is_ws (last s)"
  have "trim_start s = s" using s(1,2) by (cases s) (auto simp: trim_start_def)
  moreover have "trim_end s = s" using s(1,3) by (cases s rule: rev_cases) (auto simp: trim_end_def)
  ultimately show ?thesis by (simp add: trim_def)
qed

lemma split_on_first: "c \<notin> set p \<Longrightarrow> split_on c (p @ c # r) = p # split_on c r"
  by (induction p) auto

lemma split_on_none: "c \<notin> set p \<Longrightarrow> split_on c p = [p]"
  by (induction p) auto

text \<open>A text in which every line is ended, and its lines.\<close>

definition text_of :: "string list \<Rightarrow> string" where
  "text_of ls = concat (map (\<lambda>l. l @ [LF]) ls)"

lemma split_on_ended:
  "(\<And>l. l \<in> set ls \<Longrightarrow> c \<notin> set l) \<Longrightarrow> split_on c (concat (map (\<lambda>l. l @ [c]) ls)) = ls @ [[]]"
  by (induction ls) (simp_all add: split_on_first)

lemma lines_text_of:
  "(\<And>l. l \<in> set ls \<Longrightarrow> LF \<notin> set l \<and> (l \<noteq> [] \<longrightarrow> last l \<noteq> CR)) \<Longrightarrow> lines (text_of ls) = ls"
  using split_on_ended [of ls LF] by (auto simp: lines_def text_of_def strip_cr_def intro!: map_idI)

text \<open>Digits are no blanks, signs or separators.\<close>

lemma digit_of_class:
  "c \<in> set (digits_of b n) \<Longrightarrow> 2 \<le> b \<Longrightarrow> b \<le> 16 \<Longrightarrow> \<exists>d < 16. c = digit_char d"
proof (induction b n rule: digits_of.induct)
  case (1 b n)
  have "n mod b < 16" using "1.prems"(2,3) mod_less_divisor[of b n] by linarith
  moreover have "n < b \<Longrightarrow> \<exists>d<16. digit_char n = digit_char d"
    using "1.prems"(3) by (intro exI[of _ n]) simp
  ultimately show ?case using 1 by (cases "n < b") (auto simp: digits_of.simps[of b n])
qed

lemma digit_char_plain: "d < 16 \<Longrightarrow> \<not> is_ws (digit_char d) \<and> digit_char d \<notin> set ''x:#sk,X+-''"
  by (auto simp: is_ws_def dest!: arg_cong[where f = ord] simp: ord_digit_char split: if_splits)
     (simp_all add: ord_def)

lemma digits_plain:
  assumes "2 \<le> b" "b \<le> 16" "c \<in> set (digits_of b n)"
  shows "\<not> is_ws c \<and> c \<notin> set ''x:#sk,X+-''"
  using digit_of_class[OF assms(3,1,2)] digit_char_plain by auto

end
