(* ===== verification/Fsx_Log.thy ===== *)
theory Fsx_Log
  imports Rust_Text
begin

text \<open>
  The operation log of the fsx suite (src/src/fsx.rs): the operations and their names, the ring of
  the last LOGSIZE log entries, its dump as text, and the parser of recorded operations. The
  locale \<open>bounded_log\<close> is the interface the suite relies on: every logged operation is kept until
  LOGSIZE further ones are logged.
\<close>

section \<open>Operations and their names\<close>

datatype fsx_op =
    Read | Write | MapRead | MapWrite | Truncate | Fallocate | PunchHole | ZeroRange
  | WriteZeroes | CollapseRange | InsertRange | CloneRange | CopyRange | Fsync

definition OP_NAMES :: "(fsx_op \<times> string) list" where
  "OP_NAMES =
     [(Read, ''read''), (Write, ''write''), (MapRead, ''mapread''), (MapWrite, ''mapwrite''),
      (Truncate, ''truncate''), (Fallocate, ''fallocate''), (PunchHole, ''punch_hole''),
      (ZeroRange, ''zero_range''), (WriteZeroes, ''write_zeroes''),
      (CollapseRange, ''collapse_range''), (InsertRange, ''insert_range''),
      (CloneRange, ''clone_range''), (CopyRange, ''copy_range''), (Fsync, ''fsync'')]"

definition op_name :: "fsx_op \<Rightarrow> string" where
  "op_name o1 = (case List.find (\<lambda>(x, n). x = o1) OP_NAMES of
     Some (x, n) \<Rightarrow> n | None \<Rightarrow> ''bogus'')"

definition op_of_name :: "string \<Rightarrow> fsx_op option" where
  "op_of_name s = map_option fst (List.find (\<lambda>(x, n). n = s) OP_NAMES)"

lemma op_of_name_op_name: "op_of_name (op_name o1) = Some o1"
  by (cases o1) (simp_all add: op_name_def op_of_name_def OP_NAMES_def)

lemma op_name_no_ws: "op_name o1 \<noteq> [] \<and> (\<forall>c \<in> set (op_name o1). \<not> is_ws c)"
  by (cases o1) (simp_all add: op_name_def OP_NAMES_def is_ws_def)

section \<open>The ring of log entries\<close>

definition LOGSIZE :: nat where
  "LOGSIZE = 10000"

lemma LOGSIZE_pos [simp]: "0 < LOGSIZE"
  by (simp add: LOGSIZE_def)

record log_entry =
  le_op :: fsx_op
  le_args :: "nat \<times> nat \<times> nat"
  le_skipped :: bool
  le_keep_size :: bool
  le_unshare :: bool
  le_close_open :: bool

text \<open>The fields of the fsx state that logging uses; the full state extends this record.\<close>

record fsx_log =
  file_size :: nat
  closeopen :: bool
  log_ring :: "log_entry list"
  logptr :: nat
  logcount :: nat

definition log5 :: "fsx_op \<Rightarrow> nat \<Rightarrow> nat \<Rightarrow> nat \<Rightarrow> bool \<Rightarrow> 'a fsx_log_scheme \<Rightarrow> 'a fsx_log_scheme option" where
  "log5 op1 a0 a1 a2 skipped s = do {
     l \<leftarrow> rset (log_ring s) (logptr s)
       \<lparr>le_op = op1, le_args = (a0, a1, a2), le_skipped = skipped, le_keep_size = False,
        le_unshare = False, le_close_open = closeopen s\<rparr>;
     Some (s\<lparr>log_ring := l, logptr := (logptr s + 1) mod LOGSIZE, logcount := logcount s + 1\<rparr>)
   }"

definition log4 :: "fsx_op \<Rightarrow> nat \<Rightarrow> nat \<Rightarrow> bool \<Rightarrow> 'a fsx_log_scheme \<Rightarrow> 'a fsx_log_scheme option" where
  "log4 op1 a0 a1 skipped s = do {
     l \<leftarrow> rset (log_ring s) (logptr s)
       \<lparr>le_op = op1, le_args = (a0, a1, file_size s), le_skipped = skipped, le_keep_size = False,
        le_unshare = False, le_close_open = closeopen s\<rparr>;
     Some (s\<lparr>log_ring := l, logptr := (logptr s + 1) mod LOGSIZE, logcount := logcount s + 1\<rparr>)
   }"

text \<open>The log as the run starts it.\<close>

definition blank_entry :: log_entry where
  "blank_entry = \<lparr>le_op = Read, le_args = (0, 0, 0), le_skipped = False, le_keep_size = False,
     le_unshare = False, le_close_open = False\<rparr>"

definition log_ok :: "'a fsx_log_scheme \<Rightarrow> bool" where
  "log_ok s \<longleftrightarrow> length (log_ring s) = LOGSIZE \<and> logptr s = logcount s mod LOGSIZE"

text \<open>The entries in the order in which they were logged, the oldest kept one first.\<close>

definition log_start :: "'a fsx_log_scheme \<Rightarrow> nat" where
  "log_start s = (if logcount s < LOGSIZE then 0 else logptr s)"

definition log_view :: "'a fsx_log_scheme \<Rightarrow> log_entry list" where
  "log_view s =
     map (\<lambda>c. log_ring s ! ((log_start s + c) mod LOGSIZE)) [0..<min (logcount s) LOGSIZE]"

definition log_push :: "log_entry \<Rightarrow> 'a fsx_log_scheme \<Rightarrow> 'a fsx_log_scheme option" where
  "log_push e s = do {
     l \<leftarrow> rset (log_ring s) (logptr s) e;
     Some (s\<lparr>log_ring := l, logptr := (logptr s + 1) mod LOGSIZE, logcount := logcount s + 1\<rparr>)
   }"

lemma log4_push:
  "log4 op1 a0 a1 sk s = log_push \<lparr>le_op = op1, le_args = (a0, a1, file_size s), le_skipped = sk,
     le_keep_size = False, le_unshare = False, le_close_open = closeopen s\<rparr> s"
  by (simp add: log4_def log_push_def)

lemma log5_push:
  "log5 op1 a0 a1 a2 sk s = log_push \<lparr>le_op = op1, le_args = (a0, a1, a2), le_skipped = sk,
     le_keep_size = False, le_unshare = False, le_close_open = closeopen s\<rparr> s"
  by (simp add: log5_def log_push_def)

subsection \<open>The interface: a bounded log\<close>

text \<open>The calls that log an operation, each with the size of the file and the mark of a reopened file at that time:
  between two calls the program changes both.\<close>

datatype log_call = Log4 fsx_op nat nat bool | Log5 fsx_op nat nat nat bool

fun log_one :: "nat \<times> bool \<times> log_call \<Rightarrow> 'a fsx_log_scheme \<Rightarrow> 'a fsx_log_scheme option" where
  "log_one (n, co, Log4 op1 a0 a1 sk) s = log4 op1 a0 a1 sk (s\<lparr>file_size := n, closeopen := co\<rparr>)"
| "log_one (n, co, Log5 op1 a0 a1 a2 sk) s = log5 op1 a0 a1 a2 sk (s\<lparr>file_size := n, closeopen := co\<rparr>)"

fun log_calls :: "(nat \<times> bool \<times> log_call) list \<Rightarrow> 'a fsx_log_scheme \<Rightarrow> 'a fsx_log_scheme option" where
  "log_calls [] s = Some s"
| "log_calls (c # cs) s = Option.bind (log_one c s) (log_calls cs)"

text \<open>What such a call has to leave in the log.\<close>

fun logged_entry :: "nat \<times> bool \<times> log_call \<Rightarrow> log_entry" where
  "logged_entry (n, co, Log4 op1 a0 a1 sk) =
     \<lparr>le_op = op1, le_args = (a0, a1, n), le_skipped = sk, le_keep_size = False, le_unshare = False, le_close_open = co\<rparr>"
| "logged_entry (n, co, Log5 op1 a0 a1 a2 sk) =
     \<lparr>le_op = op1, le_args = (a0, a1, a2), le_skipped = sk, le_keep_size = False, le_unshare = False, le_close_open = co\<rparr>"

lemma log_one_push: "log_one c s = log_push (logged_entry c) (s\<lparr>file_size := fst c, closeopen := fst (snd c)\<rparr>)"
  by (cases "(c, s)" rule: log_one.cases) (simp_all add: log4_push log5_push)

lemma log_fields [simp]:
  "log_ok (s\<lparr>file_size := n, closeopen := b\<rparr>) = log_ok s" "log_view (s\<lparr>file_size := n, closeopen := b\<rparr>) = log_view s"
  by (simp_all add: log_ok_def log_view_def log_start_def)

text \<open>The last \<open>n\<close> elements of a list.\<close>

definition last_n :: "nat \<Rightarrow> 'a list \<Rightarrow> 'a list" where
  "last_n n xs = drop (length xs - n) xs"

lemma last_n_snoc: "last_n n (last_n n xs @ ys) = last_n n (xs @ ys)"
  by (cases "n \<le> length xs") (auto simp: last_n_def add.commute)

text \<open>A call may do more than to add an entry; \<open>entry\<close> is the entry that it adds.\<close>

locale bounded_log =
  fixes push :: "'c \<Rightarrow> 's \<Rightarrow> 's option"
    and entry :: "'c \<Rightarrow> 'e"
    and view :: "'s \<Rightarrow> 'e list"
    and total :: "'s \<Rightarrow> nat"
    and ok :: "'s \<Rightarrow> bool"
    and cap :: nat
  assumes push_Some: "ok s \<Longrightarrow> \<exists>s'. push c s = Some s'"
    and push_ok: "ok s \<Longrightarrow> push c s = Some s' \<Longrightarrow> ok s'"
    and push_view: "ok s \<Longrightarrow> push c s = Some s' \<Longrightarrow> view s' = last_n cap (view s @ [entry c])"
    and push_total: "ok s \<Longrightarrow> push c s = Some s' \<Longrightarrow> total s' = Suc (total s)"
    and view_short: "last_n cap (view s) = view s"
begin

fun push_all :: "'c list \<Rightarrow> 's \<Rightarrow> 's option" where
  "push_all [] s = Some s"
| "push_all (c # cs) s = Option.bind (push c s) (push_all cs)"

lemma push_all_keeps:
  "ok s \<Longrightarrow> \<exists>s'. push_all cs s = Some s' \<and> ok s' \<and> total s' = total s + length cs \<and>
     view s' = last_n cap (view s @ map entry cs)"
proof (induction cs arbitrary: s)
  case (Cons c cs)
  obtain s1 where s1: "push c s = Some s1" using push_Some[OF Cons.prems] by blast
  have "ok s1" "total s1 = Suc (total s)" "view s1 = last_n cap (view s @ [entry c])"
    using push_ok[OF Cons.prems s1] push_total[OF Cons.prems s1] push_view[OF Cons.prems s1] by simp_all
  with Cons.IH[of s1] s1 show ?case by (auto simp: last_n_snoc)
qed (simp add: view_short)

end

lemma log_push_Some: "log_ok s \<Longrightarrow> \<exists>s'. log_push e s = Some s'"
  by (simp add: log_push_def log_ok_def)

lemma log_push_ok: "log_ok s \<Longrightarrow> log_push e s = Some s' \<Longrightarrow> log_ok s'"
  by (auto simp: log_push_def log_ok_def mod_Suc_eq)

lemma log_push_total: "log_ok s \<Longrightarrow> log_push e s = Some s' \<Longrightarrow> logcount s' = Suc (logcount s)"
  by (auto simp: log_push_def log_ok_def)

lemma log_push_view:
  assumes ok: "log_ok s" and push: "log_push e s = Some s'"
  shows "log_view s' = last_n LOGSIZE (log_view s @ [e])"
proof (rule nth_equalityI)
  let ?n = "logcount s" and ?L = LOGSIZE
  have s': "log_ring s' = (log_ring s)[?n mod ?L := e]" "logptr s' = Suc ?n mod ?L" "logcount s' = Suc ?n"
    using ok push by (auto simp: log_push_def log_ok_def mod_Suc_eq)
  have len: "length (log_ring s) = ?L" and ptr: "logptr s = ?n mod ?L" using ok by (simp_all add: log_ok_def)
  show "length (log_view s') = length (last_n ?L (log_view s @ [e]))"
    by (auto simp: log_view_def last_n_def s')
  fix c assume "c < length (log_view s')"
  then have c: "c < Suc ?n" "c < ?L" by (auto simp: log_view_def s')
  have in_ring: "x mod ?L < ?L" for x by simp
  show "log_view s' ! c = last_n ?L (log_view s @ [e]) ! c"
  proof (cases "?n < ?L")
    case True
    then have "(log_start s' + c) mod ?L = c"
      using c by (auto simp: log_start_def s' mod_Suc)
    then have "log_view s' ! c = ((log_ring s)[?n := e]) ! c"
      using c True by (simp add: log_view_def s' del: upt_Suc)
    moreover have "last_n ?L (log_view s @ [e]) ! c = (if c < ?n then log_ring s ! c else e)"
      using c True by (auto simp: last_n_def log_view_def log_start_def nth_append)
    ultimately show ?thesis using c True len by (cases "c = ?n") auto
  next
    case False
    have new: "log_view s' ! c = ((log_ring s)[?n mod ?L := e]) ! ((Suc ?n + c) mod ?L)"
      using c False by (simp add: log_view_def log_start_def s' mod_simps del: upt_Suc)
    have old: "last_n ?L (log_view s @ [e]) ! c =
        (if Suc c < ?L then log_ring s ! ((?n + Suc c) mod ?L) else e)"
      using c False by (auto simp: last_n_def log_view_def log_start_def ptr mod_simps nth_append)
    show ?thesis
    proof (cases "Suc c < ?L")
      case True
      then have "(?n + Suc c) mod ?L \<noteq> ?n mod ?L"
        using mod_eq_dvd_iff_nat[of ?n "?n + Suc c" ?L] by (auto dest: dvd_imp_le)
      with True show ?thesis by (simp add: new old)
    next
      case False
      then have "Suc ?n + c = ?n + ?L" using c by simp
      then have "(Suc ?n + c) mod ?L = ?n mod ?L" by (simp only: mod_add_self2)
      with False show ?thesis by (simp add: new old len)
    qed
  qed
qed

interpretation oplog: bounded_log log_one logged_entry log_view logcount log_ok LOGSIZE
proof
  fix c :: "nat \<times> bool \<times> log_call" and s s' :: "'a fsx_log_scheme"
  let ?s = "s\<lparr>file_size := fst c, closeopen := fst (snd c)\<rparr>"
  show "last_n LOGSIZE (log_view s) = log_view s" by (simp add: last_n_def log_view_def)
  assume ok: "log_ok s"
  then have ok': "log_ok ?s" by simp
  show "\<exists>s'. log_one c s = Some s'" unfolding log_one_push using log_push_Some[OF ok'] .
  assume "log_one c s = Some s'"
  then have p: "log_push (logged_entry c) ?s = Some s'" by (simp only: log_one_push)
  show "log_ok s'" "logcount s' = Suc (logcount s)" "log_view s' = last_n LOGSIZE (log_view s @ [logged_entry c])"
    using log_push_ok[OF ok' p] log_push_total[OF ok' p] log_push_view[OF ok' p] by simp_all
qed

lemma log_calls_push_all: "log_calls cs s = oplog.push_all cs s"
proof (induction cs arbitrary: s)
  case (Cons c cs)
  then show ?case by (cases "log_one c s") simp_all
qed simp


section \<open>The dump of the log\<close>

definition flag_str :: "bool \<Rightarrow> string \<Rightarrow> string" where
  "flag_str b s = (if b then CHR '' '' # s else [])"

definition entry_line :: "nat \<Rightarrow> log_entry \<Rightarrow> string" where
  "entry_line opnum le =
     (if le_skipped le then dec_str opnum @ '': SKIPPED '' @ op_name (le_op le)
      else (case le_args le of (a0, a1, a2) \<Rightarrow>
        dec_str opnum @ '': '' @ op_name (le_op le)
          @ '' 0x'' @ hex_str a0 @ '' 0x'' @ hex_str a1 @ '' 0x'' @ hex_str a2
          @ flag_str (le_keep_size le) ''keep_size'' @ flag_str (le_unshare le) ''unshare''
          @ flag_str (le_close_open le) ''close_open''))"

definition dump_header :: "nat \<Rightarrow> string" where
  "dump_header n = ''LOG DUMP ('' @ dec_str n @ '' total operations):''"

definition dump_opnum :: "'a fsx_log_scheme \<Rightarrow> nat \<Rightarrow> nat" where
  "dump_opnum s c = c + 1 + (logcount s div LOGSIZE) * LOGSIZE"

definition logdump :: "'a fsx_log_scheme \<Rightarrow> string list" where
  "logdump s =
     dump_header (logcount s)
     # map (\<lambda>c. entry_line (dump_opnum s c) (log_ring s ! ((log_start s + c) mod LOGSIZE)))
         [0..<min (logcount s) LOGSIZE]"

lemma logdump_view:
  "logdump s = dump_header (logcount s)
     # map (\<lambda>c. entry_line (dump_opnum s c) (log_view s ! c)) [0..<length (log_view s)]"
  by (simp add: logdump_def log_view_def)

section \<open>Recorded operations\<close>

text \<open>
  One line of a recorded operations file: ignored, an error, or an operation with its three
  arguments, its skip mark and its keep-size mark. The first token of the line is consumed whatever
  it is: only \<open>skip\<close> is looked for in it.
\<close>

datatype replay_line = Ignored | UnknownOp string | Replay fsx_op "nat \<times> nat \<times> nat" bool bool

definition replay_arg :: "string \<Rightarrow> nat" where
  "replay_arg t =
     (case parse_hex64 (trim_start_matches ''0x'' t) of
        Some n \<Rightarrow> n
      | None \<Rightarrow> (case parse_u64 t of Some n \<Rightarrow> n | None \<Rightarrow> 0))"

definition next_tok :: "string list \<Rightarrow> string \<Rightarrow> string \<times> string list" where
  "next_tok ts dflt = (case ts of [] \<Rightarrow> (dflt, []) | t # ts' \<Rightarrow> (t, ts'))"

definition replay_tokens :: "string list \<Rightarrow> replay_line" where
  "replay_tokens toks =
     (let skipped = (toks \<noteq> [] \<and> hd toks = ''skip'')
      in case tl toks of
           [] \<Rightarrow> Ignored
         | opname # r0 \<Rightarrow>
             (case op_of_name opname of
                None \<Rightarrow> UnknownOp opname
              | Some op1 \<Rightarrow>
                  (let (t0, r1) = next_tok r0 '':'';
                       (t1, r2) = next_tok r1 '':'';
                       (t2, r3) = next_tok r2 '':''
                   in Replay op1 (replay_arg t0, replay_arg t1, replay_arg t2) skipped
                        (\<exists>t \<in> set r3. t = ''keep_size''))))"

definition replay_line_of :: "string \<Rightarrow> replay_line" where
  "replay_line_of line =
     (let l = trim line
      in if l = [] \<or> hd l = CHR ''#'' then Ignored else replay_tokens (split_ws l))"

fun load_replay_lines :: "string list \<Rightarrow> string + (fsx_op \<times> (nat \<times> nat \<times> nat) \<times> bool \<times> bool) list" where
  "load_replay_lines [] = Inr []"
| "load_replay_lines (l # ls) =
     (case replay_line_of l of
        Ignored \<Rightarrow> load_replay_lines ls
      | UnknownOp n \<Rightarrow> Inl n
      | Replay op1 args skipped keep \<Rightarrow>
          (case load_replay_lines ls of Inl e \<Rightarrow> Inl e | Inr es \<Rightarrow> Inr ((op1, args, skipped, keep) # es)))"

definition load_replay :: "string \<Rightarrow> string + (fsx_op \<times> (nat \<times> nat \<times> nat) \<times> bool \<times> bool) list" where
  "load_replay text = load_replay_lines (lines text)"

text \<open>\<open>logdump.join("\n")\<close>, what the run writes to the .fsxops file.\<close>

fun join_lines :: "string list \<Rightarrow> string" where
  "join_lines [] = []"
| "join_lines [l] = l"
| "join_lines (l # ls) = l @ LF # join_lines ls"

end
