(* ===== verification/Glibc_Random.thy ===== *)
theory Glibc_Random
  imports FsPrelude "HOL-Library.Signed_Division"
begin

text \<open>
  The random number generator of src/src/fsx.rs, shared by the fsx and fsstress suites: an additive
  feedback generator over a ring of 34 signed 32-bit words. The words are \<open>32 word\<close> values, read
  as signed through \<open>sint\<close>; the i64 arithmetic of the seeding loop is on integers with Rust's
  truncating division. The lemmas show that the seeding loop is the Lehmer generator modulo
  2 ^ 31 - 1, that every draw is below 2 ^ 31, and which recurrence the ring computes.
\<close>

section \<open>The generator\<close>

record glibc =
  st :: "i32 list"
  fp :: nat
  rp :: nat

text \<open>One step of the seeding loop: the new word of the table from the one before it.\<close>

definition lcg_step :: "i32 \<Rightarrow> i32" where
  "lcg_step s =
     (let hi = sint s sdiv 127773;
          lo = sint s smod 127773;
          word = 16807 * lo - 2836 * hi;
          word' = (if word \<le> 0 then word + 2147483647 else word)
      in word_of_int word')"

definition seed_table :: "i32 \<Rightarrow> i32 list" where
  "seed_table seed =
     (let s0 = (replicate 34 0)[0 := seed];
          s1 = foldl (\<lambda>s i. s[i := lcg_step (s ! (i - 1))]) s0 [1..<31]
      in foldl (\<lambda>s i. s[i := s ! (i - 31)]) s1 [31..<34])"

definition rand_next :: "glibc \<Rightarrow> glibc \<times> u32" where
  "rand_next g =
     (let f = fp g; r = rp g;
          v = st g ! f + st g ! r
      in (g\<lparr>st := (st g)[f := v],
            fp := (if f + 1 = 34 then 0 else f + 1),
            rp := (if r + 1 = 34 then 0 else r + 1)\<rparr>,
          drop_bit 1 v))"

definition rand_skip :: "nat \<Rightarrow> glibc \<Rightarrow> glibc" where
  "rand_skip n = (\<lambda>g. fst (rand_next g)) ^^ n"

definition rand_new :: "i32 \<Rightarrow> glibc" where
  "rand_new seed = rand_skip 310 \<lparr>st = seed_table seed, fp = 3, rp = 0\<rparr>"

text \<open>The first draws of a generator, for concrete seeds.\<close>

fun rand_draws :: "nat \<Rightarrow> glibc \<Rightarrow> u32 list" where
  "rand_draws 0 g = []"
| "rand_draws (Suc n) g = (let (g', v) = rand_next g in v # rand_draws n g')"

section \<open>The seeding loop\<close>

text \<open>
  For a table word strictly between 0 and 2 ^ 31 - 1 the seeding step multiplies by 16807 modulo
  2 ^ 31 - 1 without leaving the 32-bit range (Schrage's decomposition).
\<close>

lemma schrage:
  fixes x :: int
  assumes x: "0 < x" "x < 2147483647"
  defines "w \<equiv> 16807 * (x mod 127773) - 2836 * (x div 127773)"
  shows "(if w \<le> 0 then w + 2147483647 else w) = (16807 * x) mod 2147483647"
proof -
  define l y where "l = x mod 127773" and "y = x div 127773"
  have xly: "x = 127773 * y + l" and l: "0 \<le> l" "l < 127773"
    by (simp_all add: l_def y_def)
  have y: "0 \<le> y" "y \<le> 16807"
    using x by (auto simp: y_def)
  have w: "w = 16807 * l - 2836 * y" by (simp add: w_def l_def y_def)
  have "w \<noteq> 0"
  proof
    assume "w = 0"
    then have eq: "16807 * l = 2836 * y" by (simp add: w)
    have "coprime (16807::int) 2836" by (simp add: coprime_iff_gcd_eq_1 gcd_non_0_int)
    with eq have "16807 dvd y"
      by (metis coprime_dvd_mult_right_iff dvd_triv_left)
    with y have "y = 0 \<or> y = 16807" by auto
    with eq x xly show False by auto
  qed
  moreover have "16807 * x = w + 2147483647 * y" by (simp add: w xly)
  then have "(16807 * x) mod 2147483647 = w mod 2147483647" by simp
  moreover have "- 2147483647 < w" "w < 2147483647" using l y by (auto simp: w)
  ultimately show ?thesis
    by (auto simp: mod_pos_pos_trivial intro!: int_mod_pos_eq[where q="-1", symmetric])
qed

lemma lcg_step_lehmer:
  assumes "0 < sint s" "sint s < 2147483647"
  shows "sint (lcg_step s) = (16807 * sint s) mod 2147483647"
proof -
  have div: "sint s sdiv 127773 = sint s div 127773" "sint s smod 127773 = sint s mod 127773"
    using assms by (simp_all add: signed_divide_int_def signed_modulo_int_def)
  have "lcg_step s = word_of_int ((16807 * sint s) mod 2147483647)"
    using schrage[OF assms] by (simp add: lcg_step_def Let_def div)
  moreover have "0 \<le> (16807 * sint s) mod 2147483647" "(16807 * sint s) mod 2147483647 < 2147483647"
    by simp_all
  ultimately show ?thesis
    by (simp add: sint_sbintrunc' signed_take_bit_int_eq_self)
qed

section \<open>The ring invariant\<close>

definition ring_ok :: "glibc \<Rightarrow> bool" where
  "ring_ok g \<longleftrightarrow> length (st g) = 34 \<and> fp g < 34 \<and> rp g < 34 \<and> fp g = (rp g + 3) mod 34"

lemma length_seed_table [simp]: "length (seed_table seed) = 34"
proof -
  have "length (foldl (\<lambda>s i. s[i := f s i]) xs is) = length xs" for f and xs :: "i32 list" and "is"
    by (induction "is" arbitrary: xs) auto
  then show ?thesis
    by (simp add: seed_table_def Let_def)
qed

lemma ring_distance: "(r::nat) < 34 \<Longrightarrow> (r + 3) mod 34 = (if r < 31 then r + 3 else r - 31)"
  by (simp add: mod_if)

lemma ring_next: "ring_ok g \<Longrightarrow> ring_ok (fst (rand_next g))"
proof -
  assume g: "ring_ok g"
  then have "rp g < 34" and "fp g = (if rp g < 31 then rp g + 3 else rp g - 31)"
    by (auto simp: ring_ok_def ring_distance)
  then have "(if fp g + 1 = 34 then 0 else fp g + 1) =
      ((if rp g + 1 = 34 then 0 else rp g + 1) + 3) mod 34"
    by (subst ring_distance) auto
  with g show ?thesis
    by (auto simp: ring_ok_def rand_next_def Let_def)
qed

lemma ring_skip: "ring_ok g \<Longrightarrow> ring_ok (rand_skip n g)"
  by (induction n) (auto simp: rand_skip_def intro: ring_next)

lemma ring_seeded: "ring_ok \<lparr>st = seed_table seed, fp = 3, rp = 0\<rparr>"
  by (simp add: ring_ok_def)

lemma ring_new: "ring_ok (rand_new seed)"
  unfolding rand_new_def by (intro ring_skip ring_seeded)

lemma draw_bound: "unat (snd (rand_next g)) < 2 ^ 31"
proof -
  have "unat (drop_bit 1 v) < 2 ^ 31" for v :: "32 word"
  proof -
    have "unat v < 2 ^ 32" using unsigned_less[of v, where ?'a = nat] by simp
    then have "unat v div 2 < 2 ^ 31" by simp
    then show ?thesis by (simp add: unat_drop_bit_eq drop_bit_eq_div unat_div_distrib)
  qed
  then show ?thesis
    by (simp add: rand_next_def Let_def)
qed

section \<open>The recurrence of the ring\<close>

text \<open>
  \<open>raw_word g k\<close> is the word the \<open>k\<close>-th call of \<open>next\<close> from state \<open>g\<close> stores, of which it
  returns the upper 31 bits.
\<close>

definition raw_word :: "glibc \<Rightarrow> nat \<Rightarrow> i32" where
  "raw_word g k = (let h = rand_skip k g in st h ! fp h + st h ! rp h)"

lemma rand_skip_Suc [simp]: "rand_skip (Suc k) g = fst (rand_next (rand_skip k g))"
  by (simp add: rand_skip_def)

lemma rand_skip_0 [simp]: "rand_skip 0 g = g"
  by (simp add: rand_skip_def)

lemma draw_raw: "snd (rand_next (rand_skip k g)) = drop_bit 1 (raw_word g k)"
  by (simp add: raw_word_def rand_next_def Let_def)

lemma fp_skip: "ring_ok g \<Longrightarrow> fp (rand_skip k g) = (fp g + k) mod 34"
proof (induction k)
  case 0
  then show ?case by (simp add: ring_ok_def)
next
  case (Suc k)
  then show ?case by (simp add: rand_next_def Let_def mod_Suc)
qed

lemma st_next_other:
  "ring_ok g \<Longrightarrow> i \<noteq> fp g \<Longrightarrow> st (fst (rand_next g)) ! i = st g ! i"
  by (simp add: rand_next_def Let_def)

lemma st_next_fp: "ring_ok g \<Longrightarrow> st (fst (rand_next g)) ! fp g = st g ! fp g + st g ! rp g"
  by (simp add: rand_next_def Let_def ring_ok_def)

text \<open>A stored word stays in its cell for the next 33 calls.\<close>

lemma stored_word:
  assumes g: "ring_ok g" and j: "j \<le> 33"
  shows "st (rand_skip (k + Suc j) g) ! ((fp g + k) mod 34) = raw_word g k"
  using j
proof (induction j)
  case 0
  show ?case
    using st_next_fp[OF ring_skip[OF g, of k]] by (simp add: raw_word_def Let_def fp_skip[OF g])
next
  case (Suc j)
  have "(fp g + k) mod 34 \<noteq> (fp g + (k + Suc j)) mod 34"
    using Suc.prems mod_eq_dvd_iff_nat[of "fp g + k" "fp g + (k + Suc j)" 34]
    by (auto dest: dvd_imp_le)
  then have "(fp g + k) mod 34 \<noteq> fp (rand_skip (k + Suc j) g)"
    unfolding fp_skip[OF g] .
  then have "st (rand_skip (Suc (k + Suc j)) g) ! ((fp g + k) mod 34) =
      st (rand_skip (k + Suc j) g) ! ((fp g + k) mod 34)"
    unfolding rand_skip_Suc[of "k + Suc j"] by (rule st_next_other[OF ring_skip[OF g]])
  with Suc have "st (rand_skip (Suc (k + Suc j)) g) ! ((fp g + k) mod 34) = raw_word g k"
    by simp
  then show ?case by simp
qed

lemma ring_words:
  assumes g: "ring_ok g" and k: "34 \<le> k"
  shows "raw_word g k = raw_word g (k - 34) + raw_word g (k - 3)"
proof -
  have ok: "ring_ok (rand_skip k g)" by (rule ring_skip[OF g])
  have f: "fp (rand_skip k g) = (fp g + (k - 34)) mod 34"
  proof -
    from k have "fp g + k = fp g + (k - 34) + 34" by simp
    then show ?thesis unfolding fp_skip[OF g] by (metis mod_add_self2)
  qed
  have "rp (rand_skip k g) = (fp (rand_skip k g) + 31) mod 34"
    using ok unfolding ring_ok_def by (simp add: mod_add_left_eq)
  also have "\<dots> = (fp g + (k - 34) + 31) mod 34"
    by (simp add: f mod_add_left_eq)
  also have "fp g + (k - 34) + 31 = fp g + (k - 3)"
    using k by simp
  finally have r: "rp (rand_skip k g) = (fp g + (k - 3)) mod 34" .
  have "k - 34 + Suc 33 = k" and "k - 3 + Suc 2 = k" using k by auto
  then have "st (rand_skip k g) ! ((fp g + (k - 34)) mod 34) = raw_word g (k - 34)"
    and "st (rand_skip k g) ! ((fp g + (k - 3)) mod 34) = raw_word g (k - 3)"
    using stored_word[OF g, of 33 "k - 34"] stored_word[OF g, of 2 "k - 3"] by simp_all
  then show ?thesis
    by (simp add: raw_word_def[of g k] Let_def f r)
qed

section \<open>Properties\<close>

lemma seed_loop:
  assumes "length s0 = 34" "m \<le> 33"
  shows "length (foldl (\<lambda>s i. s[i := lcg_step (s ! (i - 1))]) s0 [1..<Suc m]) = 34 \<and>
    (\<forall>i \<le> m. foldl (\<lambda>s i. s[i := lcg_step (s ! (i - 1))]) s0 [1..<Suc m] ! i = (lcg_step ^^ i) (s0 ! 0))"
  using assms(2)
proof (induction m)
  case (Suc m)
  define t where "t = foldl (\<lambda>s i. s[i := lcg_step (s ! (i - 1))]) s0 [1..<Suc m]"
  have t: "length t = 34" "\<And>i. i \<le> m \<Longrightarrow> t ! i = (lcg_step ^^ i) (s0 ! 0)"
    using Suc by (simp_all add: t_def del: upt_Suc)
  have "foldl (\<lambda>s i. s[i := lcg_step (s ! (i - 1))]) s0 [1..<Suc (Suc m)] = t[Suc m := lcg_step (t ! m)]"
    by (subst upt_Suc) (simp add: t_def del: upt_Suc)
  with t Suc.prems show ?case by (auto simp: nth_list_update le_Suc_eq)
qed (simp add: assms(1))

lemma seed_table_words:
  assumes "i < 31"
  shows "seed_table seed ! i = (lcg_step ^^ i) seed"
proof -
  define s1 where "s1 = foldl (\<lambda>s i. s[i := lcg_step (s ! (i - 1))]) ((replicate 34 0)[0 := seed]) [1..<Suc 30]"
  have s1: "length s1 = 34" "\<forall>i \<le> 30. s1 ! i = (lcg_step ^^ i) seed"
    using seed_loop[of "(replicate 34 0)[0 := seed]" 30] by (simp_all add: s1_def)
  have "seed_table seed = s1[31 := s1 ! 0, 32 := s1 ! 1, 33 := s1 ! 2]"
    using s1(1) by (simp add: seed_table_def s1_def Let_def upt_rec[of _ 34] upt_rec[of _ 33])
  with s1 assms show ?thesis by simp
qed

text \<open>
  C6: Seeding is the Lehmer generator of C's random(): for a seed strictly between 0 and 2 ^ 31 - 1,
  each of the first 31 words of the table is the seed times a power of 16807 modulo 2 ^ 31 - 1, so the
  decomposed multiplication in 64-bit integers never overflows or needs its sign fix twice.
\<close>

theorem seeding_is_lehmer:
  assumes "0 < sint seed" "sint seed < 2147483647" "i < 31"
  shows "sint (seed_table seed ! i) = (16807 ^ i * sint seed) mod 2147483647"
proof -
  have "sint ((lcg_step ^^ i) seed) = (16807 ^ i * sint seed) mod 2147483647 \<and> 0 < sint ((lcg_step ^^ i) seed)"
  proof (induction i)
    case (Suc i)
    let ?w = "sint ((lcg_step ^^ i) seed)"
    have r: "0 < ?w" "?w < 2147483647" using Suc by (auto simp: pos_mod_bound)
    have st: "sint ((lcg_step ^^ Suc i) seed) = (16807 * ?w) mod 2147483647" using lcg_step_lehmer[OF r] by simp
    have "\<not> 2147483647 dvd 16807 * ?w"
    proof
      assume "2147483647 dvd 16807 * ?w"
      moreover have "coprime (2147483647::int) 16807" by (simp add: coprime_iff_gcd_eq_1 gcd_non_0_int)
      ultimately have "2147483647 dvd ?w" by (simp add: coprime_dvd_mult_right_iff)
      with r show False by (auto dest: zdvd_imp_le)
    qed
    then have "0 < (16807 * ?w) mod 2147483647"
      by (simp add: dvd_eq_mod_eq_0 order.strict_iff_order)
    moreover have "(16807 * ?w) mod 2147483647 = (16807 ^ Suc i * sint seed) mod 2147483647"
      using Suc by (simp add: mod_mult_right_eq mult.assoc)
    ultimately show ?case using st by simp
  qed (use assms in simp)
  then show ?thesis using seed_table_words[OF assms(3)] by simp
qed

theorem seeding_is_lehmer_witness: "sint (seed_table 1 ! 3) = 1622650073"
  using seeding_is_lehmer[of 1 3] by simp

text \<open>
  The generator is an additive feedback generator of lags 34 and 3: from the 35th draw on, the
  stored word is the sum modulo 2 ^ 32 of the words stored 34 and 3 draws before, and a draw returns
  its upper 31 bits. (The comment on the type says degree 31, which is what C's random() has:
  for equal seeds the sequences differ.)
\<close>

theorem draws_recurrence:
  assumes "34 \<le> k"
  shows "raw_word (rand_new seed) k = raw_word (rand_new seed) (k - 34) + raw_word (rand_new seed) (k - 3) \<and>
    snd (rand_next (rand_skip k (rand_new seed))) = drop_bit 1 (raw_word (rand_new seed) k)"
  using ring_words[OF ring_new assms] by (simp add: draw_raw)

theorem draws_recurrence_witness:
  "raw_word (rand_new 1) 40 = raw_word (rand_new 1) 6 + raw_word (rand_new 1) 37"
  using draws_recurrence[of 40 1] by simp

end
