(* ===== verification/Fsx_Shadow.thy ===== *)
theory Fsx_Shadow
  imports Fsx_Log Glibc_Random
begin

unbundle bit_operations_syntax

text \<open>
  The file operations of the fsx suite (src/src/fsx.rs, struct Fsx): each one is applied to the
  shadow buffer \<open>good_buf\<close> and to the file behind the descriptor. The kernel is not part of the
  program: its system calls on the descriptor are the fields of a record \<open>sysops\<close> over an
  arbitrary kernel state, and every operation takes that record. An operation returns the new state,
  or None when it panics (a slice out of range, an underflow) or loops for ever.
\<close>

section \<open>System calls on the test file\<close>

type_synonym errno = int

datatype platform = Linux | MacOS | OtherOS

record 'k sysops =
  sys_pread :: "'k \<Rightarrow> nat \<Rightarrow> nat \<Rightarrow> 'k \<times> (errno + u8 list)"
  sys_pwrite :: "'k \<Rightarrow> u8 list \<Rightarrow> nat \<Rightarrow> 'k \<times> (errno + nat)"
  sys_fsync :: "'k \<Rightarrow> 'k"
  sys_ftruncate :: "'k \<Rightarrow> nat \<Rightarrow> 'k \<times> errno option"
  sys_fallocate :: "'k \<Rightarrow> nat \<Rightarrow> nat \<Rightarrow> nat \<Rightarrow> 'k \<times> errno option"
  sys_punchhole :: "'k \<Rightarrow> nat \<Rightarrow> nat \<Rightarrow> 'k \<times> errno option"
  sys_mmap :: "'k \<Rightarrow> bool \<Rightarrow> nat \<Rightarrow> nat \<Rightarrow> errno option"
  sys_load :: "'k \<Rightarrow> nat \<Rightarrow> nat \<Rightarrow> u8 list"
  sys_store :: "'k \<Rightarrow> nat \<Rightarrow> u8 list \<Rightarrow> 'k"
  sys_msync :: "'k \<Rightarrow> nat \<Rightarrow> nat \<Rightarrow> 'k \<times> errno option"
  sys_clone :: "'k \<Rightarrow> nat \<Rightarrow> nat \<Rightarrow> nat \<Rightarrow> 'k \<times> errno option"
  sys_copy :: "'k \<Rightarrow> nat \<Rightarrow> nat \<Rightarrow> nat \<Rightarrow> 'k \<times> (errno + nat)"
  sys_fstat :: "'k \<Rightarrow> nat option"
  sys_seek_end :: "'k \<Rightarrow> int"

section \<open>State\<close>

definition FALLOC_FL_KEEP_SIZE :: nat where "FALLOC_FL_KEEP_SIZE = 0x01"
definition FALLOC_FL_PUNCH_HOLE :: nat where "FALLOC_FL_PUNCH_HOLE = 0x02"
definition FALLOC_FL_COLLAPSE_RANGE :: nat where "FALLOC_FL_COLLAPSE_RANGE = 0x08"
definition FALLOC_FL_ZERO_RANGE :: nat where "FALLOC_FL_ZERO_RANGE = 0x10"
definition FALLOC_FL_INSERT_RANGE :: nat where "FALLOC_FL_INSERT_RANGE = 0x20"
definition FALLOC_FL_UNSHARE_RANGE :: nat where "FALLOC_FL_UNSHARE_RANGE = 0x40"
definition FALLOC_FL_WRITE_ZEROES :: nat where "FALLOC_FL_WRITE_ZEROES = 0x80"

lemmas falloc_flags =
  FALLOC_FL_KEEP_SIZE_def FALLOC_FL_PUNCH_HOLE_def FALLOC_FL_COLLAPSE_RANGE_def
  FALLOC_FL_ZERO_RANGE_def FALLOC_FL_INSERT_RANGE_def FALLOC_FL_UNSHARE_RANGE_def
  FALLOC_FL_WRITE_ZEROES_def

record cfg =
  readbdy :: nat
  writebdy :: nat
  truncbdy :: nat
  pollute_eof :: bool
  do_fsync :: bool
  simulatedopcount :: nat
  inject_failure_at :: "nat option"

text \<open>The failures a run can report; for a failed system call the place, without the error text.\<close>

datatype fsx_failure =
    ReadBad nat nat nat
  | SizeError nat nat int
  | NonZeroPastEof nat u8
  | SysFail string

record 'k fsx = fsx_log +
  kern :: 'k
  cfg :: cfg
  os :: platform
  good_buf :: "u8 list"
  original_buf :: "u8 list"
  biggest :: nat
  maxfilelen :: nat
  page_size :: nat
  page_mask :: nat
  testcalls :: nat
  rng :: glibc
  badoff :: int
  enabled :: "bool list"
  failure :: "fsx_failure option"

definition rounddown :: "nat \<Rightarrow> nat \<Rightarrow> nat" where
  "rounddown v bdy = (if bdy = 0 then v else v - v mod bdy)"

text \<open>\<open>offset -= offset % bdy.max(1)\<close>.\<close>

definition align_down :: "nat \<Rightarrow> nat \<Rightarrow> nat" where
  "align_down off bdy = off - off mod max bdy 1"

lemma align_down_le: "align_down off bdy \<le> off"
  by (simp add: align_down_def)

definition rnd :: "'k fsx \<Rightarrow> 'k fsx \<times> nat" where
  "rnd s = (let (g, v) = rand_next (rng s) in (s\<lparr>rng := g\<rparr>, unat v))"

definition fail :: "fsx_failure \<Rightarrow> 'k fsx \<Rightarrow> 'k fsx" where
  "fail msg s = (if failure s = None then s\<lparr>failure := Some msg, badoff := - 1\<rparr> else s)"

section \<open>The shadow buffer\<close>

fun gen_loop :: "u8 \<Rightarrow> u8 list \<Rightarrow> nat list \<Rightarrow> u8 list \<Rightarrow> u8 list option" where
  "gen_loop tc orig [] buf = Some buf"
| "gen_loop tc orig (i # is) buf = do {
     b \<leftarrow> (if i mod 2 = 1 then do { x \<leftarrow> rget orig i; Some (tc + x) } else Some tc);
     buf' \<leftarrow> rset buf i b;
     gen_loop tc orig is buf'
   }"

definition gendata :: "nat \<Rightarrow> nat \<Rightarrow> 'k fsx \<Rightarrow> 'k fsx option" where
  "gendata offset size1 s = do {
     b \<leftarrow> gen_loop (of_nat (testcalls s mod 256)) (original_buf s) [offset..<offset + size1] (good_buf s);
     Some (s\<lparr>good_buf := b\<rparr>)
   }"

definition update_file_size :: "nat \<Rightarrow> nat \<Rightarrow> 'k fsx \<Rightarrow> 'k fsx option" where
  "update_file_size offset size1 s = do {
     s \<leftarrow> (if file_size s < offset then do {
             b \<leftarrow> rfill (good_buf s) (file_size s) offset 0;
             Some (s\<lparr>good_buf := b\<rparr>) }
           else Some s);
     Some (s\<lparr>file_size := offset + size1\<rparr>)
   }"

text \<open>The pattern goes to the shadow first, then the size grows: both kinds of write start so.\<close>

definition shadow_write :: "nat \<Rightarrow> nat \<Rightarrow> 'k fsx \<Rightarrow> 'k fsx option" where
  "shadow_write offset size1 s = do {
     s \<leftarrow> gendata offset size1 s;
     (if file_size s < offset + size1 then update_file_size offset size1 s else Some s)
   }"

definition last_diff :: "u8 list \<Rightarrow> u8 list \<Rightarrow> nat" where
  "last_diff xs ys = last (filter (\<lambda>i. xs ! i \<noteq> ys ! i) [0..<length xs])"

definition check_buffers :: "u8 list \<Rightarrow> nat \<Rightarrow> nat \<Rightarrow> 'k fsx \<Rightarrow> 'k fsx option" where
  "check_buffers buf offset size1 s = do {
     b \<leftarrow> rslice buf 0 size1;
     g \<leftarrow> rslice (good_buf s) offset (offset + size1);
     (if b \<noteq> g then
        (let s' = s\<lparr>badoff := int (offset + last_diff b g)\<rparr>
         in Some (fail (ReadBad offset size1 (count_diff b g)) s'))
      else Some s)
   }"

section \<open>Whole reads and writes\<close>

function pread_all :: "'k sysops \<Rightarrow> 'k \<Rightarrow> nat \<Rightarrow> nat \<Rightarrow> u8 list \<Rightarrow> 'k \<times> u8 list option" where
  "pread_all S k n off acc =
     (if n = 0 then (k, Some acc)
      else case sys_pread S k n off of
             (k', Inl e) \<Rightarrow> (k', None)
           | (k', Inr bs) \<Rightarrow>
               if bs = [] then (k', None)
               else pread_all S k' (n - length bs) (off + length bs) (acc @ bs))"
  by pat_completeness auto
termination
  by (relation "measure (\<lambda>(S, k, n, off, acc). n)") auto

declare pread_all.simps [simp del]

partial_function (option) pwrite_all :: "'k sysops \<Rightarrow> 'k \<Rightarrow> u8 list \<Rightarrow> nat \<Rightarrow> ('k \<times> bool) option" where
  "pwrite_all S k data off =
     (if data = [] then Some (k, True)
      else case sys_pwrite S k data off of
             (k', Inl e) \<Rightarrow> Some (k', False)
           | (k', Inr n) \<Rightarrow> pwrite_all S k' (drop n data) (off + n))"

section \<open>Size checks and the polluted EOF page\<close>

definition check_size :: "'k sysops \<Rightarrow> 'k fsx \<Rightarrow> 'k fsx" where
  "check_size S s =
     (case sys_fstat S (kern s) of
        None \<Rightarrow> fail (SysFail ''check_size: fstat failed'') s
      | Some n \<Rightarrow>
          (if file_size s \<noteq> n \<or> int (file_size s) \<noteq> sys_seek_end S (kern s)
           then fail (SizeError (file_size s) n (sys_seek_end S (kern s))) s
           else s))"

fun pollute_bytes :: "u8 \<Rightarrow> u8 list \<Rightarrow> nat list \<Rightarrow> u8 list option" where
  "pollute_bytes tc orig [] = Some []"
| "pollute_bytes tc orig (i # is) = do {
     b \<leftarrow> (if i mod 2 = 1 then do { x \<leftarrow> rget orig i; Some (tc + x) } else Some tc);
     bs \<leftarrow> pollute_bytes tc orig is;
     Some (b # bs)
   }"

definition pollute_eofpage :: "'k sysops \<Rightarrow> nat \<Rightarrow> 'k fsx \<Rightarrow> 'k fsx option" where
  "pollute_eofpage S maxoff s =
     (if \<not> pollute_eof (cfg s) \<or> testcalls s \<le> simulatedopcount (cfg s) then Some s
      else
        (let offset = file_size s;
             pg_offset = offset AND page_mask s
         in if pg_offset = 0 then Some s
            else
              (let write_size = min (page_size s - pg_offset) (maxoff - offset)
               in if write_size = 0 then Some s
                  else if sys_mmap S (kern s) True (page_size s) (offset - pg_offset) \<noteq> None then Some s
                  else do {
                    bs \<leftarrow> pollute_bytes (of_nat (testcalls s mod 256)) (original_buf s)
                            [pg_offset..<pg_offset + write_size];
                    Some (s\<lparr>kern := fst (sys_msync S (sys_store S (kern s) offset bs)
                                        (offset - pg_offset) (page_size s))\<rparr>)
                  })))"

section \<open>Reads and writes\<close>

definition flip8 :: "u8 list \<Rightarrow> u8 list" where
  "flip8 t = t[7 := (t ! 7) XOR 0xff]"

definition doread :: "'k sysops \<Rightarrow> nat \<Rightarrow> nat \<Rightarrow> 'k fsx \<Rightarrow> 'k fsx option" where
  "doread S offset0 size1 s =
     (let offset = align_down offset0 (readbdy (cfg s))
      in if size1 = 0 \<or> file_size s < offset + size1 then log4 Read offset size1 True s
         else do {
           s \<leftarrow> log4 Read offset size1 False s;
           let (k, r) = pread_all S (kern s) size1 offset [];
           let s = s\<lparr>kern := k\<rparr>;
           case r of
             None \<Rightarrow> Some (fail (SysFail ''doread'') s)
           | Some tmp \<Rightarrow>
               check_buffers (if inject_failure_at (cfg s) = Some (testcalls s) \<and> 8 < size1
                              then flip8 tmp else tmp) offset size1 s
         })"

definition dowrite :: "'k sysops \<Rightarrow> nat \<Rightarrow> nat \<Rightarrow> 'k fsx \<Rightarrow> 'k fsx option" where
  "dowrite S offset0 size1 s =
     (let offset = align_down offset0 (writebdy (cfg s))
      in if size1 = 0 then log4 Write offset size1 True s
         else do {
           s \<leftarrow> log4 Write offset size1 False s;
           s \<leftarrow> shadow_write offset size1 s;
           data \<leftarrow> rslice (good_buf s) offset (offset + size1);
           (k, ok) \<leftarrow> pwrite_all S (kern s) data offset;
           let s = s\<lparr>kern := k\<rparr>;
           (if \<not> ok then Some (fail (SysFail ''dowrite'') s)
            else if do_fsync (cfg s) then Some (s\<lparr>kern := sys_fsync S (kern s)\<rparr>)
            else Some s)
         })"

text \<open>The bytes past EOF of the last mapped page that the mapped read looks at.\<close>

definition past_eof_byte :: "'k fsx \<Rightarrow> nat \<Rightarrow> nat \<Rightarrow> nat \<Rightarrow> u8 list \<Rightarrow> (nat \<times> u8) option" where
  "past_eof_byte s base map_size size1 m =
     (let eof_page_start = (file_size s - base) - ((file_size s - base) AND page_mask s)
      in if eof_page_start < base + size1
         then map_option (\<lambda>i. (i, m ! i))
                (List.find (\<lambda>i. file_size s - base \<le> i \<and> m ! i \<noteq> 0)
                  [(file_size s AND page_mask s)..<map_size])
         else None)"

definition domapread :: "'k sysops \<Rightarrow> nat \<Rightarrow> nat \<Rightarrow> 'k fsx \<Rightarrow> 'k fsx option" where
  "domapread S offset0 size1 s =
     (let offset = align_down offset0 (readbdy (cfg s))
      in if size1 = 0 \<or> file_size s < offset + size1 then log4 MapRead offset size1 True s
         else do {
           s \<leftarrow> log4 MapRead offset size1 False s;
           let pg_offset = offset AND page_mask s;
           let map_size = pg_offset + size1;
           let base = offset - pg_offset;
           (if sys_mmap S (kern s) False map_size base \<noteq> None
            then Some (fail (SysFail ''domapread: mmap'') s)
            else
              (let m = sys_load S (kern s) base map_size;
                   tmp = take size1 (drop pg_offset m);
                   s' = (case past_eof_byte s base map_size size1 m of
                           None \<Rightarrow> s
                         | Some (i, b) \<Rightarrow> fail (NonZeroPastEof i b) s)
               in check_buffers tmp offset size1 s'))
         })"

definition domapwrite :: "'k sysops \<Rightarrow> nat \<Rightarrow> nat \<Rightarrow> 'k fsx \<Rightarrow> 'k fsx option" where
  "domapwrite S offset0 size1 s =
     (let offset = align_down offset0 (writebdy (cfg s))
      in if size1 = 0 then log4 MapWrite offset size1 True s
         else do {
           let cur = file_size s;
           s \<leftarrow> log4 MapWrite offset size1 False s;
           s \<leftarrow> shadow_write offset size1 s;
           let (k, e) = (if cur < file_size s then sys_ftruncate S (kern s) (file_size s) else (kern s, None));
           let s = s\<lparr>kern := k\<rparr>;
           (if e \<noteq> None then Some (fail (SysFail ''domapwrite: ftruncate'') s)
            else do {
              let pg_offset = offset AND page_mask s;
              let map_size = pg_offset + size1;
              let base = offset - pg_offset;
              (if sys_mmap S (kern s) True map_size base \<noteq> None
               then Some (fail (SysFail ''domapwrite: mmap'') s)
               else do {
                 data \<leftarrow> rslice (good_buf s) offset (offset + size1);
                 let (k, e) = sys_msync S (sys_store S (kern s) offset data) base map_size;
                 let s = s\<lparr>kern := k\<rparr>;
                 Some (if e \<noteq> None then fail (SysFail ''domapwrite: msync'') s else s)
               })
            })
         })"

definition dotruncate :: "'k sysops \<Rightarrow> nat \<Rightarrow> 'k fsx \<Rightarrow> 'k fsx option" where
  "dotruncate S size0 s =
     (let size1 = align_down size0 (truncbdy (cfg s));
          s = (if biggest s < size1 then s\<lparr>biggest := size1\<rparr> else s)
      in do {
           s \<leftarrow> log4 Truncate 0 size1 False s;
           s \<leftarrow> (if size1 < file_size s then pollute_eofpage S (maxfilelen s) s else Some s);
           s \<leftarrow> update_file_size size1 0 s;
           let (k, e) = sys_ftruncate S (kern s) size1;
           let s = s\<lparr>kern := k\<rparr>;
           Some (if e \<noteq> None then fail (SysFail ''dotruncate'') s else s)
         })"

end
