(* ===== verification/Fsx_Ranges.thy ===== *)
theory Fsx_Ranges
  imports Fsx_Shadow
begin

text \<open>
  The range operations of the fsx suite (src/src/fsx.rs): preallocation, hole punching, zeroing,
  collapsing, inserting, cloning and copying of ranges, the check of the whole contents, the probes
  that find out which operations the file system has, and the choice of offsets and lengths.
\<close>

section \<open>Operations on ranges\<close>

text \<open>\<open>fallocate_call\<close>: the new kernel state and whether the call succeeded.\<close>

definition fallocate_call :: "'k sysops \<Rightarrow> nat \<Rightarrow> nat \<Rightarrow> nat \<Rightarrow> 'k fsx \<Rightarrow> 'k \<times> bool" where
  "fallocate_call S mode offset len s =
     (case os s of
        Linux \<Rightarrow> (let (k, e) = sys_fallocate S (kern s) mode offset len in (k, e = None))
      | MacOS \<Rightarrow>
          (if mode AND FALLOC_FL_PUNCH_HOLE \<noteq> 0
           then (let (k, e) = sys_punchhole S (kern s) offset len in (k, e = None))
           else (kern s, False))
      | OtherOS \<Rightarrow> (kern s, False))"

definition raise_biggest :: "nat \<Rightarrow> 'k fsx \<Rightarrow> 'k fsx" where
  "raise_biggest end1 s = (if biggest s < end1 then s\<lparr>biggest := end1\<rparr> else s)"

definition do_preallocate ::
  "'k sysops \<Rightarrow> nat \<Rightarrow> nat \<Rightarrow> bool \<Rightarrow> bool \<Rightarrow> 'k fsx \<Rightarrow> 'k fsx option" where
  "do_preallocate S offset0 size0 keep_size unshare s =
     (let offset = min offset0 (maxfilelen s);
          size1 = min size0 (maxfilelen s - offset)
      in if size1 = 0 then log4 Fallocate offset 0 True s
         else
           (let end1 = (if keep_size then 0 else offset + size1);
                s = raise_biggest end1 s;
                mode = (if keep_size then FALLOC_FL_KEEP_SIZE else 0)
                       OR (if unshare then FALLOC_FL_UNSHARE_RANGE else 0)
            in do {
                 s \<leftarrow> log4 Fallocate offset size1 False s;
                 s \<leftarrow> (if file_size s < offset + size1 then do {
                         b \<leftarrow> rfill (good_buf s) (file_size s) (offset + size1) 0;
                         update_file_size offset size1 (s\<lparr>good_buf := b\<rparr>) }
                       else Some s);
                 (if testcalls s \<le> simulatedopcount (cfg s) then Some s
                  else
                    (let (k, ok) = fallocate_call S mode offset size1 s;
                         s = s\<lparr>kern := k\<rparr>
                     in Some (if ok then s else fail (SysFail ''do_preallocate'') s)))
               }))"

definition do_punch_hole :: "'k sysops \<Rightarrow> nat \<Rightarrow> nat \<Rightarrow> 'k fsx \<Rightarrow> 'k fsx option" where
  "do_punch_hole S offset0 length0 s =
     (if length0 = 0 \<or> file_size s \<le> offset0 then log4 PunchHole offset0 length0 True s
      else do {
        s \<leftarrow> log4 PunchHole offset0 length0 False s;
        let length1 = min length0 (file_size s - offset0);
        let (offset, len) =
          (if os s = MacOS then (rounddown offset0 (page_size s), rounddown length1 (page_size s))
           else (offset0, length1));
        (if len = 0 \<or> file_size s \<le> offset then Some s
         else
           (let (k, ok) = fallocate_call S (FALLOC_FL_PUNCH_HOLE OR FALLOC_FL_KEEP_SIZE) offset len s;
                s = s\<lparr>kern := k\<rparr>
            in if \<not> ok then Some (fail (SysFail ''do_punch_hole'') s)
               else do {
                 let max_offset = min offset (file_size s);
                 let max_len = (if max_offset + len \<le> file_size s then len else file_size s - max_offset);
                 b \<leftarrow> rfill (good_buf s) max_offset (max_offset + max_len) 0;
                 Some (s\<lparr>good_buf := b\<rparr>)
               }))
      })"

definition do_zero_range :: "'k sysops \<Rightarrow> nat \<Rightarrow> nat \<Rightarrow> bool \<Rightarrow> 'k fsx \<Rightarrow> 'k fsx option" where
  "do_zero_range S offset len keep_size s =
     (if len = 0 then log4 ZeroRange offset len True s
      else
        (let end1 = (if keep_size then 0 else offset + len);
             s = raise_biggest end1 s
         in do {
              s \<leftarrow> log4 ZeroRange offset len False s;
              s \<leftarrow> (if \<not> keep_size \<and> file_size s < offset + len
                    then update_file_size offset len s else Some s);
              let mode = (if keep_size then FALLOC_FL_ZERO_RANGE OR FALLOC_FL_KEEP_SIZE
                          else FALLOC_FL_ZERO_RANGE);
              let (k, ok) = fallocate_call S mode offset len s;
              let s = s\<lparr>kern := k\<rparr>;
              (if \<not> ok then Some (fail (SysFail ''do_zero_range'') s)
               else do {
                 b \<leftarrow> rfill (good_buf s) offset (offset + len) 0;
                 Some (s\<lparr>good_buf := b\<rparr>)
               })
            }))"

definition do_write_zeroes :: "'k sysops \<Rightarrow> nat \<Rightarrow> nat \<Rightarrow> 'k fsx \<Rightarrow> 'k fsx option" where
  "do_write_zeroes S offset len s =
     (if len = 0 then log4 WriteZeroes offset len True s
      else
        (let s = raise_biggest (offset + len) s
         in do {
              s \<leftarrow> log4 WriteZeroes offset len False s;
              s \<leftarrow> (if file_size s < offset + len then update_file_size offset len s else Some s);
              let (k, ok) = fallocate_call S FALLOC_FL_WRITE_ZEROES offset len s;
              let s = s\<lparr>kern := k\<rparr>;
              (if \<not> ok then Some (fail (SysFail ''do_write_zeroes'') s)
               else do {
                 b \<leftarrow> rfill (good_buf s) offset (offset + len) 0;
                 Some (s\<lparr>good_buf := b\<rparr>)
               })
            }))"

definition do_collapse_range :: "'k sysops \<Rightarrow> nat \<Rightarrow> nat \<Rightarrow> 'k fsx \<Rightarrow> 'k fsx option" where
  "do_collapse_range S offset len s =
     (if len = 0 \<or> file_size s \<le> offset + len then log4 CollapseRange offset len True s
      else do {
        s \<leftarrow> log4 CollapseRange offset len False s;
        s \<leftarrow> pollute_eofpage S (maxfilelen s) s;
        let (k, ok) = fallocate_call S FALLOC_FL_COLLAPSE_RANGE offset len s;
        let s = s\<lparr>kern := k\<rparr>;
        (if \<not> ok then Some (fail (SysFail ''do_collapse_range'') s)
         else do {
           b \<leftarrow> rcopy_within (good_buf s) (offset + len) (file_size s) offset;
           n \<leftarrow> rsub (file_size s) len;
           Some (s\<lparr>good_buf := b, file_size := n\<rparr>)
         })
      })"

definition do_insert_range :: "'k sysops \<Rightarrow> nat \<Rightarrow> nat \<Rightarrow> 'k fsx \<Rightarrow> 'k fsx option" where
  "do_insert_range S offset len s =
     (if len = 0 \<or> file_size s \<le> offset then log4 InsertRange offset len True s
      else do {
        s \<leftarrow> log4 InsertRange offset len False s;
        s \<leftarrow> pollute_eofpage S (maxfilelen s) s;
        let (k, ok) = fallocate_call S FALLOC_FL_INSERT_RANGE offset len s;
        let s = s\<lparr>kern := k\<rparr>;
        (if \<not> ok then Some (fail (SysFail ''do_insert_range'') s)
         else do {
           b \<leftarrow> rsub (file_size s) len;
           buf \<leftarrow> rcopy_within (good_buf s) offset b (offset + len);
           buf \<leftarrow> rfill buf offset (offset + len) 0;
           Some (s\<lparr>good_buf := buf, file_size := file_size s + len\<rparr>)
         })
      })"

definition do_clone_range :: "'k sysops \<Rightarrow> nat \<Rightarrow> nat \<Rightarrow> nat \<Rightarrow> 'k fsx \<Rightarrow> 'k fsx option" where
  "do_clone_range S offset len dest s =
     (if os s \<noteq> Linux then Some s
      else if len = 0 \<or> file_size s \<le> offset then log5 CloneRange offset len dest True s
      else
        (let s = raise_biggest (dest + len) s
         in do {
              s \<leftarrow> log5 CloneRange offset len dest False s;
              s \<leftarrow> (if file_size s < dest + len then update_file_size dest len s else Some s);
              let (k, e) = sys_clone S (kern s) offset len dest;
              let s = s\<lparr>kern := k\<rparr>;
              (if e \<noteq> None then Some (fail (SysFail ''do_clone_range: FICLONERANGE'') s)
               else do {
                 b \<leftarrow> rcopy_within (good_buf s) offset (offset + len) dest;
                 Some (s\<lparr>good_buf := b\<rparr>)
               })
            }))"

text \<open>The loop of \<open>do_copy_range\<close>: copies until nothing is left or a call copies nothing.\<close>

function copy_loop :: "'k sysops \<Rightarrow> 'k \<Rightarrow> nat \<Rightarrow> nat \<Rightarrow> nat \<Rightarrow> 'k \<times> bool" where
  "copy_loop S k o1 o2 left =
     (if left = 0 then (k, True)
      else case sys_copy S k o1 o2 left of
             (k', Inl e) \<Rightarrow> (k', False)
           | (k', Inr n) \<Rightarrow>
               if n = 0 then (k', False) else copy_loop S k' (o1 + n) (o2 + n) (left - n))"
  by pat_completeness auto
termination
  by (relation "measure (\<lambda>(S, k, o1, o2, left). left)") auto

declare copy_loop.simps [simp del]

definition do_copy_range :: "'k sysops \<Rightarrow> nat \<Rightarrow> nat \<Rightarrow> nat \<Rightarrow> 'k fsx \<Rightarrow> 'k fsx option" where
  "do_copy_range S offset len dest s =
     (if os s \<noteq> Linux then Some s
      else if len = 0 \<or> file_size s \<le> offset then log5 CopyRange offset len dest True s
      else
        (let s = raise_biggest (dest + len) s
         in do {
              s \<leftarrow> log5 CopyRange offset len dest False s;
              s \<leftarrow> (if file_size s < dest + len then update_file_size dest len s else Some s);
              let (k, ok) = copy_loop S (kern s) offset dest len;
              let s = s\<lparr>kern := k\<rparr>;
              (if \<not> ok then Some (fail (SysFail ''do_copy_range: copy_file_range'') s)
               else do {
                 b \<leftarrow> rcopy_within (good_buf s) offset (offset + len) dest;
                 Some (s\<lparr>good_buf := b\<rparr>)
               })
            }))"

definition check_contents :: "'k sysops \<Rightarrow> 'k fsx \<Rightarrow> 'k fsx option" where
  "check_contents S s =
     (if file_size s = 0 then Some s
      else
        (let (k, r) = pread_all S (kern s) (file_size s) 0 [];
             s = s\<lparr>kern := k\<rparr>
         in case r of
              None \<Rightarrow> Some (fail (SysFail ''check_contents'') s)
            | Some buf \<Rightarrow> check_buffers buf 0 (length buf) s))"

section \<open>Choosing offsets and lengths\<close>

definition trim_off :: "nat \<Rightarrow> nat \<Rightarrow> nat" where
  "trim_off off size1 = (if size1 = 0 then 0 else off mod size1)"

definition trim_off_len :: "nat \<Rightarrow> nat \<Rightarrow> nat \<Rightarrow> nat \<times> nat" where
  "trim_off_len off len size1 =
     (let off = trim_off off size1
      in (off, if size1 < off + len then size1 - off else len))"

text \<open>The destination of a copy: at most 29 draws, the first one that neither overlaps the source
  nor passes the end is taken; otherwise the length becomes 0.\<close>

fun dest_loop :: "nat \<Rightarrow> nat \<Rightarrow> nat \<Rightarrow> nat \<Rightarrow> nat \<Rightarrow> 'k fsx \<Rightarrow> 'k fsx \<times> nat \<times> nat option" where
  "dest_loop 0 wbdy max_range_end src size1 s = (s, 0, None)"
| "dest_loop (Suc tries) wbdy max_range_end src size1 s =
     (let (s, r) = rnd s;
          d = rounddown (if max_range_end = 0 then 0 else r mod max_range_end) wbdy;
          overlap = (nat \<bar>int d - int src\<bar> < size1)
      in if \<not> overlap \<and> d + size1 \<le> max_range_end then (s, size1, Some d)
         else dest_loop tries wbdy max_range_end src size1 s)"

definition gen_dest_range ::
  "bool \<Rightarrow> nat \<Rightarrow> nat \<Rightarrow> nat \<Rightarrow> nat \<Rightarrow> 'k fsx \<Rightarrow> 'k fsx \<times> nat \<times> nat \<times> nat" where
  "gen_dest_range bdy_align max_range_end src0 size0 dst s =
     (let (src1, size1) = trim_off_len src0 size0 (file_size s);
          bdy = (if bdy_align then max (readbdy (cfg s)) 1 else 4096);
          src2 = rounddown src1 bdy;
          size2 = rounddown size1 bdy;
          wbdy = (if bdy_align then max (writebdy (cfg s)) 1 else 4096);
          (s', size3, d) = dest_loop 29 wbdy max_range_end src2 size2 s
      in (s', src2, size3, case d of Some x \<Rightarrow> x | None \<Rightarrow> dst))"

end
