(* ===== verification/Fsx_Run.thy ===== *)
theory Fsx_Run
  imports Fsx_Ranges
begin

text \<open>
  The run of the fsx suite (src/src/fsx.rs, \<open>run\<close> and \<open>FsxProbe\<close>): which operations are enabled
  (by option, by platform, by probing the file system), the initial state with its pre-filled file,
  one iteration (draws, choice of the operation, dispatch, checks), and the loop over iterations.
\<close>

section \<open>Options\<close>

record fsx_args =
  a_flen :: nat
  a_oplen :: nat
  a_numops :: int
  a_seed :: "32 word"
  a_readbdy :: nat
  a_writebdy :: nat
  a_truncbdy :: nat
  a_style :: int
  a_closeprob :: int
  a_lite :: bool
  a_fixed_oplen :: bool
  a_no_mapped_reads :: bool
  a_no_mapped_writes :: bool
  a_no_fallocate :: bool
  a_no_keep_size :: bool
  a_no_punch :: bool
  a_no_zero :: bool
  a_no_collapse :: bool
  a_no_insert :: bool
  a_no_clone :: bool
  a_no_copy :: bool
  a_no_size_checks :: bool
  a_check_contents :: bool
  a_fsync_writes :: bool
  a_pollute_eof :: bool
  a_begin_op :: nat
  a_duration :: int
  a_inject_failure_at :: "nat option"

section \<open>Probing the file system\<close>

definition ENOTTY :: errno where "ENOTTY = 25"
definition ENOSYS :: errno where "ENOSYS = 38"
definition EOPNOTSUPP :: errno where "EOPNOTSUPP = 95"

definition probe_fa :: "'k sysops \<Rightarrow> platform \<Rightarrow> nat \<Rightarrow> nat \<Rightarrow> 'k \<Rightarrow> ('k \<times> bool) option" where
  "probe_fa S plat size1 mode k =
     (if plat = Linux then
        (case sys_fallocate S k mode size1 1 of
           (k1, None) \<Rightarrow>
             (case sys_ftruncate S k1 size1 of
                (k2, None) \<Rightarrow> Some (k2, True)
              | (k2, Some e) \<Rightarrow> None)
         | (k1, Some e) \<Rightarrow> Some (k1, e \<noteq> ENOSYS \<and> e \<noteq> EOPNOTSUPP \<and> e \<noteq> ENOTTY))
      else Some (k, False))"

definition probe_clone_range :: "'k sysops \<Rightarrow> platform \<Rightarrow> 'k \<Rightarrow> ('k \<times> bool) option" where
  "probe_clone_range S plat k =
     (if plat = Linux then
        (case sys_clone S k 0 0 0 of
           (k1, None) \<Rightarrow> Some (k1, True)
         | (k1, Some e) \<Rightarrow> Some (k1, e \<noteq> EOPNOTSUPP \<and> e \<noteq> ENOTTY))
      else Some (k, False))"

definition probe_copy_range :: "'k sysops \<Rightarrow> platform \<Rightarrow> 'k \<Rightarrow> ('k \<times> bool) option" where
  "probe_copy_range S plat k =
     (if plat = Linux then
        (case sys_copy S k 0 1 1 of
           (k1, Inr n) \<Rightarrow> Some (k1, True)
         | (k1, Inl e) \<Rightarrow> Some (k1, e \<noteq> ENOSYS \<and> e \<noteq> EOPNOTSUPP \<and> e \<noteq> ENOTTY))
      else Some (k, False))"

definition op_idx :: "fsx_op \<Rightarrow> nat" where
  "op_idx o1 =
     (case o1 of Read \<Rightarrow> 0 | Write \<Rightarrow> 1 | MapRead \<Rightarrow> 2 | MapWrite \<Rightarrow> 3 | Truncate \<Rightarrow> 4 | Fallocate \<Rightarrow> 5
      | PunchHole \<Rightarrow> 6 | ZeroRange \<Rightarrow> 7 | WriteZeroes \<Rightarrow> 8 | CollapseRange \<Rightarrow> 9 | InsertRange \<Rightarrow> 10
      | CloneRange \<Rightarrow> 11 | CopyRange \<Rightarrow> 12 | Fsync \<Rightarrow> 13)"

definition op_at :: "nat \<Rightarrow> fsx_op" where
  "op_at i =
     (if i = 0 then Read else if i = 1 then Write else if i = 2 then MapRead
      else if i = 3 then MapWrite else if i = 4 then Truncate else if i = 5 then Fallocate
      else if i = 6 then PunchHole else if i = 7 then ZeroRange else if i = 8 then WriteZeroes
      else if i = 9 then CollapseRange else if i = 10 then InsertRange else if i = 11 then CloneRange
      else if i = 12 then CopyRange else Fsync)"

definition disable_if :: "bool \<Rightarrow> fsx_op \<Rightarrow> bool list \<Rightarrow> bool list" where
  "disable_if c o1 en = (if c then en[op_idx o1 := False] else en)"

definition enabled_static :: "fsx_args \<Rightarrow> platform \<Rightarrow> bool list" where
  "enabled_static a plat =
     (let linux = (plat = Linux);
          en = disable_if (a_no_fallocate a \<or> \<not> linux) Fallocate (replicate 14 True);
          en = disable_if (a_no_punch a \<or> \<not> linux \<and> plat \<noteq> MacOS) PunchHole en;
          en = disable_if (a_no_zero a \<or> \<not> linux) ZeroRange en;
          en = disable_if (a_no_collapse a \<or> \<not> linux) CollapseRange en;
          en = disable_if (a_no_insert a \<or> \<not> linux) InsertRange en;
          en = en[op_idx WriteZeroes := (linux \<and> \<not> a_no_zero a)];
          en = disable_if (a_no_clone a \<or> \<not> linux) CloneRange en
      in disable_if (a_no_copy a \<or> \<not> linux) CopyRange en)"

definition probe_one ::
  "platform \<Rightarrow> fsx_op \<Rightarrow> ('k \<Rightarrow> ('k \<times> bool) option) \<Rightarrow> 'k \<times> bool list \<Rightarrow> ('k \<times> bool list) option" where
  "probe_one plat o1 p ke =
     (case ke of (k, en) \<Rightarrow>
        if plat = Linux \<and> en ! op_idx o1
        then do { (k', ok) \<leftarrow> p k; Some (k', disable_if (\<not> ok) o1 en) }
        else Some (k, en))"

definition probe_all :: "'k sysops \<Rightarrow> platform \<Rightarrow> nat \<Rightarrow> 'k \<times> bool list \<Rightarrow> ('k \<times> bool list) option" where
  "probe_all S plat size1 ke = do {
     ke \<leftarrow> probe_one plat Fallocate (probe_fa S plat size1 0) ke;
     ke \<leftarrow> probe_one plat PunchHole
             (probe_fa S plat size1 (FALLOC_FL_PUNCH_HOLE OR FALLOC_FL_KEEP_SIZE)) ke;
     ke \<leftarrow> probe_one plat ZeroRange (probe_fa S plat size1 FALLOC_FL_ZERO_RANGE) ke;
     ke \<leftarrow> probe_one plat CollapseRange (probe_fa S plat size1 FALLOC_FL_COLLAPSE_RANGE) ke;
     ke \<leftarrow> probe_one plat InsertRange (probe_fa S plat size1 FALLOC_FL_INSERT_RANGE) ke;
     ke \<leftarrow> probe_one plat WriteZeroes (probe_fa S plat size1 FALLOC_FL_WRITE_ZEROES) ke;
     ke \<leftarrow> probe_one plat CloneRange (probe_clone_range S plat) ke;
     probe_one plat CopyRange (probe_copy_range S plat) ke
   }"

section \<open>The initial state\<close>

fun draw_bytes :: "nat \<Rightarrow> glibc \<Rightarrow> u8 list" where
  "draw_bytes 0 g = []"
| "draw_bytes (Suc n) g = (let (g', v) = rand_next g in of_nat (unat v mod 256) # draw_bytes n g')"

definition fsx_initial :: "fsx_args \<Rightarrow> platform \<Rightarrow> nat \<Rightarrow> nat \<Rightarrow> nat \<Rightarrow> 'k \<Rightarrow> bool list \<Rightarrow> 'k fsx" where
  "fsx_initial a plat psize fsize maxlen k en =
     \<lparr>file_size = fsize, closeopen = False, log_ring = replicate LOGSIZE blank_entry, logptr = 0,
      logcount = 0, kern = k,
      cfg = \<lparr>readbdy = a_readbdy a, writebdy = a_writebdy a, truncbdy = a_truncbdy a,
             pollute_eof = a_pollute_eof a, do_fsync = a_fsync_writes a,
             simulatedopcount = a_begin_op a, inject_failure_at = a_inject_failure_at a\<rparr>,
      os = plat,
      good_buf = replicate (maxlen + a_writebdy a + 8) 0,
      original_buf = draw_bytes maxlen (rand_new (a_seed a)),
      biggest = fsize, maxfilelen = maxlen, page_size = psize, page_mask = psize - 1,
      testcalls = 0, rng = rand_new (a_seed a), badoff = - 1, enabled = en, failure = None\<rparr>"

text \<open>The set-up of a run on an opened file of \<open>st_size\<close> bytes: probing, buffers, and the pre-filled
  file of a lite run. The error is the one of a file that cannot be read back or extended.\<close>

definition fsx_setup ::
  "'k sysops \<Rightarrow> fsx_args \<Rightarrow> platform \<Rightarrow> nat \<Rightarrow> nat \<Rightarrow> 'k \<Rightarrow> (string + 'k fsx) option" where
  "fsx_setup S a plat psize st_size k = do {
     let fsize = (if a_lite a then st_size else 0);
     let maxlen = (if a_lite a then max (a_flen a) fsize else a_flen a);
     (k, en) \<leftarrow> probe_all S plat fsize (k, enabled_static a plat);
     let s = fsx_initial a plat psize fsize maxlen k en;
     (if a_lite a then do {
        data \<leftarrow> rslice (good_buf s) 0 maxlen;
        (k, ok) \<leftarrow> pwrite_all S (kern s) data 0;
        Some (Inr (s\<lparr>kern := k\<rparr>)) }
      else if 0 < fsize then
        (let (k, r) = pread_all S (kern s) fsize 0 []
         in case r of
              None \<Rightarrow> Some (Inl ''read'')
            | Some img \<Rightarrow>
                (let s = s\<lparr>good_buf := overlay (good_buf s) 0 img\<rparr>;
                     (k1, e1) = sys_ftruncate S k fsize;
                     (k2, e2) = (if e1 \<noteq> None then (k1, e1) else sys_ftruncate S k1 (fsize + 100000))
                 in if e2 \<noteq> None then Some (Inl ''no extend on truncate! not posix!'')
                    else Some (Inr (s\<lparr>kern := fst (sys_ftruncate S k2 fsize)\<rparr>))))
      else Some (Inr s))
   }"

section \<open>One iteration\<close>

definition op_max :: "bool \<Rightarrow> bool \<Rightarrow> nat" where
  "op_max lite integrity_fsync = (if lite then 4 else if integrity_fsync then 14 else 13)"

definition draw_closeopen :: "fsx_args \<Rightarrow> 'k fsx \<Rightarrow> 'k fsx" where
  "draw_closeopen a s =
     (if 0 < a_closeprob a
      then (let (s, rv) = rnd s in s\<lparr>closeopen := (rv div 8 < 2 ^ 28 div nat (a_closeprob a))\<rparr>)
      else s\<lparr>closeopen := False\<rparr>)"

definition draw_size :: "fsx_args \<Rightarrow> 'k fsx \<Rightarrow> 'k fsx \<times> nat" where
  "draw_size a s =
     (if a_fixed_oplen a then (s, a_oplen a)
      else (let (s, r) = rnd s in (s, r mod (a_oplen a + 1))))"

definition draw_flag :: "bool \<Rightarrow> 'k fsx \<Rightarrow> 'k fsx \<times> bool" where
  "draw_flag c s = (if c then (let (s, r) = rnd s in (s, r mod 2 = 0)) else (s, False))"

text \<open>The draws an operation makes for itself: (state, offset, size, offset2, keep-size, unshare).\<close>

definition draw_params ::
  "fsx_args \<Rightarrow> fsx_op \<Rightarrow> nat \<Rightarrow> nat \<Rightarrow> 'k fsx \<Rightarrow>
   ('k fsx \<times> nat \<times> nat \<times> nat \<times> bool \<times> bool) option" where
  "draw_params a op1 offset size1 s =
     (case op1 of
        Truncate \<Rightarrow>
          (if a_style a = 0 then do {
             let (s, r) = rnd s;
             n \<leftarrow> rmod r (maxfilelen s);
             Some (s, offset, n, 0, False, False) }
           else Some (s, offset, size1, 0, False, False))
      | Fallocate \<Rightarrow>
          (let (s, keep) = draw_flag (size1 \<noteq> 0 \<and> \<not> a_no_keep_size a) s;
               (s, unshare) = draw_flag (size1 \<noteq> 0) s
           in Some (s, offset, size1, 0, keep, unshare))
      | ZeroRange \<Rightarrow>
          (let (s, keep) = draw_flag (size1 \<noteq> 0 \<and> \<not> a_no_keep_size a) s
           in Some (s, offset, size1, 0, keep, False))
      | CloneRange \<Rightarrow>
          (let (s, src, n, d) = gen_dest_range (os s \<noteq> Linux) (maxfilelen s) offset size1 0 s
           in Some (s, src, n, d, False, False))
      | CopyRange \<Rightarrow>
          (let (s, src, n, d) = gen_dest_range (os s \<noteq> Linux) (maxfilelen s) offset size1 0 s
           in Some (s, src, n, d, False, False))
      | _ \<Rightarrow> Some (s, offset, size1, 0, False, False))"

text \<open>The dispatch. \<open>fsize0\<close> is the size of the file before the run, which the insert-range guard
  compares with.\<close>

definition run_fsx_op ::
  "'k sysops \<Rightarrow> fsx_args \<Rightarrow> nat \<Rightarrow> fsx_op \<Rightarrow> nat \<Rightarrow> nat \<Rightarrow> nat \<Rightarrow> bool \<Rightarrow> bool \<Rightarrow> 'k fsx \<Rightarrow> 'k fsx option" where
  "run_fsx_op S a fsize0 op1 offset size1 offset2 keep unshare s =
     (let rd = trim_off_len offset size1 (file_size s);
          wr = trim_off_len offset size1 (maxfilelen s)
      in case op1 of
        Read \<Rightarrow> doread S (fst rd) (snd rd) s
      | Write \<Rightarrow> dowrite S (fst wr) (snd wr) s
      | MapRead \<Rightarrow> (if a_no_mapped_reads a then doread S (fst rd) (snd rd) s
                    else domapread S (fst rd) (snd rd) s)
      | MapWrite \<Rightarrow> (if a_no_mapped_writes a then dowrite S (fst wr) (snd wr) s
                     else domapwrite S (fst wr) (snd wr) s)
      | Truncate \<Rightarrow> dotruncate S size1 s
      | Fallocate \<Rightarrow> do_preallocate S (fst wr) (snd wr) keep unshare s
      | PunchHole \<Rightarrow> do_punch_hole S (fst rd) (snd rd) s
      | ZeroRange \<Rightarrow> do_zero_range S (fst wr) (snd wr) keep s
      | WriteZeroes \<Rightarrow> do_write_zeroes S (fst wr) (snd wr) s
      | CollapseRange \<Rightarrow>
          (let (o1, n1) = trim_off_len offset size1 (file_size s - 1);
               off = rounddown o1 4096;
               n = rounddown n1 4096
           in if n = 0 then log4 CollapseRange off n True s else do_collapse_range S off n s)
      | InsertRange \<Rightarrow> do {
          let o1 = trim_off offset (file_size s);
          n1 \<leftarrow> (if maxfilelen s < o1 + size1 then rsub (maxfilelen s) o1 else Some size1);
          let off = rounddown o1 4096;
          let n = rounddown n1 4096;
          (if n = 0 \<or> maxfilelen s < fsize0 + n then log4 InsertRange off n True s
           else do_insert_range S off n s) }
      | CloneRange \<Rightarrow>
          (if size1 = 0 \<or> maxfilelen s < offset2 + size1 then log5 CloneRange offset size1 offset2 True s
           else do_clone_range S offset size1 offset2 s)
      | CopyRange \<Rightarrow>
          (if size1 = 0 \<or> maxfilelen s < offset2 + size1 then log5 CopyRange offset size1 offset2 True s
           else do_copy_range S offset size1 offset2 s)
      | Fsync \<Rightarrow> Some s)"

definition always_enabled :: "fsx_op \<Rightarrow> bool" where
  "always_enabled op1 \<longleftrightarrow> op1 \<in> {Read, Write, MapRead, MapWrite, Truncate}"

definition after_checks :: "'k sysops \<Rightarrow> fsx_args \<Rightarrow> 'k fsx \<Rightarrow> 'k fsx option" where
  "after_checks S a s =
     (if failure s \<noteq> None then Some s
      else do {
        s \<leftarrow> (if a_check_contents a then check_contents S s else Some s);
        Some (if \<not> a_no_size_checks a \<and> failure s = None then check_size S s else s)
      })"

definition fsx_iteration :: "'k sysops \<Rightarrow> fsx_args \<Rightarrow> nat \<Rightarrow> 'k fsx \<Rightarrow> 'k fsx option" where
  "fsx_iteration S a fsize0 s = do {
     let s = draw_closeopen a (s\<lparr>testcalls := testcalls s + 1\<rparr>);
     let (s, offset) = rnd s;
     let (s, size1) = draw_size a s;
     let (s, rv) = rnd s;
     let op1 = op_at (rv mod op_max (a_lite a) False);
     (s, offset, size1, offset2, keep, unshare) \<leftarrow> draw_params a op1 offset size1 s;
     (if \<not> enabled s ! op_idx op1 \<and> \<not> always_enabled op1
      then log5 op1 offset size1 offset2 True s
      else do {
        s \<leftarrow> run_fsx_op S a fsize0 op1 offset size1 offset2 keep unshare s;
        after_checks S a s
      })
   }"

section \<open>The loop\<close>

text \<open>\<open>elapsed n\<close> is the time in seconds that the clock shows before the iteration that follows \<open>n\<close>
  operations.\<close>

definition fsx_stop :: "fsx_args \<Rightarrow> (nat \<Rightarrow> nat) \<Rightarrow> 'k fsx \<Rightarrow> bool" where
  "fsx_stop a elapsed s \<longleftrightarrow>
     failure s \<noteq> None \<or> (0 \<le> a_numops a \<and> a_numops a \<le> int (testcalls s))
     \<or> (0 < a_duration a \<and> a_duration a \<le> int (elapsed (testcalls s)))"

partial_function (option) fsx_loop ::
  "'k sysops \<Rightarrow> fsx_args \<Rightarrow> nat \<Rightarrow> (nat \<Rightarrow> nat) \<Rightarrow> 'k fsx \<Rightarrow> 'k fsx option" where
  "fsx_loop S a fsize0 elapsed s =
     (if fsx_stop a elapsed s then Some s
      else Option.bind (fsx_iteration S a fsize0 s) (fsx_loop S a fsize0 elapsed))"

definition fsx_status :: "'k fsx \<Rightarrow> string" where
  "fsx_status s = (if failure s \<noteq> None then ''failed'' else ''ok'')"

end
