(* ===== verification/Fsx_Laws.thy ===== *)
theory Fsx_Laws
  imports Fsx_Run
begin

text \<open>
  What the fsx suite relies on and what it keeps. \<open>posix_file\<close> states the documented behaviour of
  the system calls on a regular file whose image the kernel state holds (calls may always fail).
  \<open>shadow_ok\<close> says that the shadow buffer holds that image. The lemmas show that each operation
  keeps it on a conforming file, or stops with the report of a failed system call.
\<close>

section \<open>Images of files\<close>

definition file_write :: "u8 list \<Rightarrow> nat \<Rightarrow> u8 list \<Rightarrow> u8 list" where
  "file_write c off d = overlay (pad (off + length d) c) off d"

definition file_trunc :: "u8 list \<Rightarrow> nat \<Rightarrow> u8 list" where
  "file_trunc c n = take n (pad n c)"

definition file_zero :: "u8 list \<Rightarrow> nat \<Rightarrow> nat \<Rightarrow> u8 list" where
  "file_zero c off len = file_write c off (replicate len 0)"

lemma length_file_write [simp]: "length (file_write c off d) = max (off + length d) (length c)"
  by (simp add: file_write_def)

lemma nth_file_write [buf_simps]:
  "i < max (off + length d) (length c) \<Longrightarrow>
   file_write c off d ! i =
     (if off \<le> i \<and> i < off + length d then d ! (i - off) else if i < length c then c ! i else 0)"
  by (simp add: file_write_def nth_overlay nth_pad)

lemma length_file_trunc [simp]: "length (file_trunc c n) = n"
  by (simp add: file_trunc_def)

lemma nth_file_trunc [buf_simps]: "i < n \<Longrightarrow> file_trunc c n ! i = (if i < length c then c ! i else 0)"
  by (simp add: file_trunc_def nth_pad)

lemma file_write_append:
  "file_write (file_write c off d) (off + length d) e = file_write c off (d @ e)"
  by (rule nth_equalityI) (auto simp: nth_file_write nth_append)

text \<open>The image after a successful fallocate(2), for the modes the program uses.\<close>

definition file_fallocate :: "nat \<Rightarrow> u8 list \<Rightarrow> nat \<Rightarrow> nat \<Rightarrow> u8 list" where
  "file_fallocate mode c off len =
     (if mode = FALLOC_FL_ZERO_RANGE \<or> mode = FALLOC_FL_WRITE_ZEROES then file_zero c off len
      else if mode = FALLOC_FL_PUNCH_HOLE OR FALLOC_FL_KEEP_SIZE
           \<or> mode = FALLOC_FL_ZERO_RANGE OR FALLOC_FL_KEEP_SIZE
      then take (length c) (file_zero c off len)
      else if mode = FALLOC_FL_COLLAPSE_RANGE then take off c @ drop (off + len) c
      else if mode = FALLOC_FL_INSERT_RANGE then take off c @ replicate len 0 @ drop off c
      else if mode = 0 \<or> mode = FALLOC_FL_UNSHARE_RANGE then pad (off + len) c
      else c)"

section \<open>The laws of the system calls\<close>

definition law_pread :: "'k sysops \<Rightarrow> ('k \<Rightarrow> u8 list) \<Rightarrow> bool" where
  "law_pread S c \<longleftrightarrow> (\<forall>k n off k' r. 0 < n \<longrightarrow> sys_pread S k n off = (k', r) \<longrightarrow>
     c k' = c k \<and>
     (\<forall>bs. r = Inr bs \<longrightarrow>
        length bs \<le> n \<and> bs = take (length bs) (drop off (c k)) \<and> (off < length (c k) \<longrightarrow> bs \<noteq> [])))"

definition law_pwrite :: "'k sysops \<Rightarrow> ('k \<Rightarrow> u8 list) \<Rightarrow> bool" where
  "law_pwrite S c \<longleftrightarrow> (\<forall>k d off k' m. d \<noteq> [] \<longrightarrow> sys_pwrite S k d off = (k', Inr m) \<longrightarrow>
     0 < m \<and> m \<le> length d \<and> c k' = file_write (c k) off (take m d))"

definition law_ftruncate :: "'k sysops \<Rightarrow> ('k \<Rightarrow> u8 list) \<Rightarrow> bool" where
  "law_ftruncate S c \<longleftrightarrow> (\<forall>k n k'. sys_ftruncate S k n = (k', None) \<longrightarrow> c k' = file_trunc (c k) n)"

definition law_fallocate :: "'k sysops \<Rightarrow> ('k \<Rightarrow> u8 list) \<Rightarrow> bool" where
  "law_fallocate S c \<longleftrightarrow>
     (\<forall>k mode off len k'. sys_fallocate S k mode off len = (k', None) \<longrightarrow>
        c k' = file_fallocate mode (c k) off len) \<and>
     (\<forall>k mode off len k' e. sys_fallocate S k mode off len = (k', Some e) \<longrightarrow> c k' = c k)"

text \<open>Shared mappings show the file within EOF; stores past EOF do not reach the file.\<close>

definition law_mmap :: "'k sysops \<Rightarrow> ('k \<Rightarrow> u8 list) \<Rightarrow> bool" where
  "law_mmap S c \<longleftrightarrow>
     (\<forall>k pos n. pos + n \<le> length (c k) \<longrightarrow> sys_load S k pos n = take n (drop pos (c k))) \<and>
     (\<forall>k pos d. c (sys_store S k pos d) = take (length (c k)) (file_write (c k) pos d)) \<and>
     (\<forall>k pos n. c (fst (sys_msync S k pos n)) = c k)"

definition law_clone :: "'k sysops \<Rightarrow> ('k \<Rightarrow> u8 list) \<Rightarrow> bool" where
  "law_clone S c \<longleftrightarrow>
     (\<forall>k src len dst k'. sys_clone S k src len dst = (k', None) \<longrightarrow>
        src + len \<le> length (c k) \<longrightarrow> c k' = file_write (c k) dst (take len (drop src (c k)))) \<and>
     (\<forall>k src len dst k' e. sys_clone S k src len dst = (k', Some e) \<longrightarrow> c k' = c k)"

definition law_copy :: "'k sysops \<Rightarrow> ('k \<Rightarrow> u8 list) \<Rightarrow> bool" where
  "law_copy S c \<longleftrightarrow>
     (\<forall>k src dst len k' n. sys_copy S k src dst len = (k', Inr n) \<longrightarrow> 0 < n \<longrightarrow>
        n \<le> len \<and> src + n \<le> length (c k) \<and> c k' = file_write (c k) dst (take n (drop src (c k)))) \<and>
     (\<forall>k src dst len k' r. sys_copy S k src dst len = (k', r) \<longrightarrow> (\<forall>n. r = Inr n \<longrightarrow> n = 0) \<longrightarrow> c k' = c k)"

definition law_stat :: "'k sysops \<Rightarrow> ('k \<Rightarrow> u8 list) \<Rightarrow> bool" where
  "law_stat S c \<longleftrightarrow>
     (\<forall>k n. sys_fstat S k = Some n \<longrightarrow> n = length (c k)) \<and>
     (\<forall>k. sys_seek_end S k = int (length (c k))) \<and> (\<forall>k. c (sys_fsync S k) = c k)"

definition posix_file :: "'k sysops \<Rightarrow> ('k \<Rightarrow> u8 list) \<Rightarrow> bool" where
  "posix_file S c \<longleftrightarrow>
     law_pread S c \<and> law_pwrite S c \<and> law_ftruncate S c \<and> law_fallocate S c \<and> law_mmap S c \<and>
     law_clone S c \<and> law_copy S c \<and> law_stat S c"

lemma posix_laws:
  assumes "posix_file S c"
  shows "law_pread S c" "law_pwrite S c" "law_ftruncate S c" "law_fallocate S c" "law_mmap S c"
    "law_clone S c" "law_copy S c" "law_stat S c"
  using assms by (simp_all add: posix_file_def)

lemma posix_pread:
  assumes "posix_file S c" "0 < n" "sys_pread S k n off = (k', r)"
  shows "c k' = c k"
    and "r = Inr bs \<Longrightarrow> length bs \<le> n \<and> bs = take (length bs) (drop off (c k)) \<and> (off < length (c k) \<longrightarrow> bs \<noteq> [])"
  using posix_laws(1)[OF assms(1), unfolded law_pread_def] assms(2,3) by blast+

lemma posix_pwrite:
  assumes "posix_file S c" "d \<noteq> []" "sys_pwrite S k d off = (k', Inr m)"
  shows "0 < m" "m \<le> length d" "c k' = file_write (c k) off (take m d)"
  using posix_laws(2)[OF assms(1), unfolded law_pwrite_def] assms(2,3) by blast+

lemma posix_ftruncate:
  "posix_file S c \<Longrightarrow> sys_ftruncate S k n = (k', None) \<Longrightarrow> c k' = file_trunc (c k) n"
  using posix_laws(3)[of S c] unfolding law_ftruncate_def by blast

lemma posix_fallocate:
  "posix_file S c \<Longrightarrow> sys_fallocate S k mode off len = (k', None) \<Longrightarrow>
   c k' = file_fallocate mode (c k) off len"
  using posix_laws(4)[of S c] unfolding law_fallocate_def by blast

lemma posix_fallocate_error:
  "posix_file S c \<Longrightarrow> sys_fallocate S k mode off len = (k', Some e) \<Longrightarrow> c k' = c k"
  using posix_laws(4)[of S c] unfolding law_fallocate_def by blast

lemma posix_clone_error:
  "posix_file S c \<Longrightarrow> sys_clone S k src len dst = (k', Some e) \<Longrightarrow> c k' = c k"
  using posix_laws(6)[of S c] unfolding law_clone_def by blast

lemma posix_copy_nothing:
  assumes "posix_file S c" "sys_copy S k src dst len = (k', r)" "\<forall>n. r = Inr n \<longrightarrow> n = 0"
  shows "c k' = c k"
  by (rule posix_laws(7)[OF assms(1), unfolded law_copy_def, THEN conjunct2, rule_format, OF assms(2)])
     (use assms(3) in blast)

lemma posix_load:
  "posix_file S c \<Longrightarrow> pos + n \<le> length (c k) \<Longrightarrow> sys_load S k pos n = take n (drop pos (c k))"
  using posix_laws(5)[of S c] unfolding law_mmap_def by blast

lemma posix_store:
  "posix_file S c \<Longrightarrow> c (sys_store S k pos d) = take (length (c k)) (file_write (c k) pos d)"
  using posix_laws(5)[of S c] unfolding law_mmap_def by blast

lemma posix_msync: "posix_file S c \<Longrightarrow> c (fst (sys_msync S k pos n)) = c k"
  using posix_laws(5)[of S c] unfolding law_mmap_def by blast

lemma posix_clone:
  "posix_file S c \<Longrightarrow> sys_clone S k src len dst = (k', None) \<Longrightarrow> src + len \<le> length (c k) \<Longrightarrow>
   c k' = file_write (c k) dst (take len (drop src (c k)))"
  using posix_laws(6)[of S c] unfolding law_clone_def by blast

lemma posix_copy:
  assumes "posix_file S c" "sys_copy S k src dst len = (k', Inr n)" "0 < n"
  shows "n \<le> len" "src + n \<le> length (c k)" "c k' = file_write (c k) dst (take n (drop src (c k)))"
  using posix_laws(7)[OF assms(1), unfolded law_copy_def, THEN conjunct1, rule_format, OF assms(2,3)] by simp_all

lemma posix_fstat: "posix_file S c \<Longrightarrow> sys_fstat S k = Some n \<Longrightarrow> n = length (c k)"
  using posix_laws(8)[of S c] unfolding law_stat_def by blast

lemma posix_seek_end: "posix_file S c \<Longrightarrow> sys_seek_end S k = int (length (c k))"
  using posix_laws(8)[of S c] unfolding law_stat_def by blast

lemma posix_fsync: "posix_file S c \<Longrightarrow> c (sys_fsync S k) = c k"
  using posix_laws(8)[of S c] unfolding law_stat_def by blast

section \<open>The shadow invariant\<close>

definition shadow :: "'k fsx \<Rightarrow> u8 list" where
  "shadow s = take (file_size s) (good_buf s)"

definition shape_ok :: "'k fsx \<Rightarrow> bool" where
  "shape_ok s \<longleftrightarrow>
     log_ok s \<and> length (good_buf s) = maxfilelen s + writebdy (cfg s) + 8 \<and>
     length (original_buf s) = maxfilelen s \<and> file_size s \<le> maxfilelen s \<and>
     (\<exists>p. page_size s = 2 ^ p) \<and> page_mask s = page_size s - 1 \<and> ring_ok (rng s) \<and> os s = Linux"

definition shadow_ok :: "('k \<Rightarrow> u8 list) \<Rightarrow> 'k fsx \<Rightarrow> bool" where
  "shadow_ok c s \<longleftrightarrow> shape_ok s \<and> c (kern s) = shadow s"

text \<open>The outcome of an operation on a conforming file: the invariant holds and nothing was
  reported, or a system call failed and was reported.\<close>

definition op_outcome :: "('k \<Rightarrow> u8 list) \<Rightarrow> 'k fsx \<Rightarrow> bool" where
  "op_outcome c s \<longleftrightarrow> (failure s = None \<and> shadow_ok c s) \<or> (\<exists>m. failure s = Some (SysFail m))"

lemma and_page_mask:
  assumes "page_size s = 2 ^ p" "page_mask s = page_size s - 1"
  shows "x AND page_mask s = x mod page_size s"
proof -
  have "x AND mask p = x mod 2 ^ p" by (simp add: take_bit_eq_mod flip: take_bit_eq_mask)
  then show ?thesis using assms by (simp add: mask_eq_exp_minus_1)
qed

lemma page_offset_le: "x AND m \<le> (x::nat)"
  by (metis and_nat_def le0 nat_le_iff of_nat_0_le_iff of_nat_le_iff AND_upper1 nat_int)

lemma log4_frame:
  assumes "log_ok s"
  shows "\<exists>r p n. log4 o1 a b sk s = Some (s\<lparr>log_ring := r, logptr := p, logcount := n\<rparr>)
     \<and> length r = LOGSIZE \<and> p = n mod LOGSIZE"
  using assms by (auto simp: log4_def log_ok_def mod_Suc_eq)

lemma log5_frame:
  assumes "log_ok s"
  shows "\<exists>r p n. log5 o1 a b d sk s = Some (s\<lparr>log_ring := r, logptr := p, logcount := n\<rparr>)
     \<and> length r = LOGSIZE \<and> p = n mod LOGSIZE"
  using assms by (auto simp: log5_def log_ok_def mod_Suc_eq)

definition gen_byte :: "'k fsx \<Rightarrow> nat \<Rightarrow> u8" where
  "gen_byte s i =
     (if i mod 2 = 1 then of_nat (testcalls s mod 256) + original_buf s ! i
      else of_nat (testcalls s mod 256))"

definition gen_pattern :: "'k fsx \<Rightarrow> nat \<Rightarrow> nat \<Rightarrow> u8 list" where
  "gen_pattern s off n = map (gen_byte s) [off..<off + n]"

lemma length_gen_pattern [simp]: "length (gen_pattern s off n) = n"
  by (simp add: gen_pattern_def)

lemma gen_loop_overlay:
  "off + n \<le> length buf \<Longrightarrow> off + n \<le> length orig \<Longrightarrow>
   gen_loop tc orig [off..<off + n] buf =
     Some (overlay buf off (map (\<lambda>i. if i mod 2 = 1 then tc + orig ! i else tc) [off..<off + n]))"
proof (induction n arbitrary: off buf)
  case (Suc n)
  let ?f = "\<lambda>i. if i mod 2 = 1 then tc + orig ! i else tc"
  have up: "[off..<off + Suc n] = off # [Suc off..<Suc off + n]"
    by (simp add: upt_conv_Cons)
  have "gen_loop tc orig [off..<off + Suc n] buf = gen_loop tc orig [Suc off..<Suc off + n] (buf[off := ?f off])"
    unfolding up using Suc.prems by simp
  also have "\<dots> = Some (overlay (buf[off := ?f off]) (Suc off) (map ?f [Suc off..<Suc off + n]))"
    using Suc.prems by (intro Suc.IH) auto
  also have "overlay (buf[off := ?f off]) (Suc off) (map ?f [Suc off..<Suc off + n]) =
      overlay buf off (map ?f [off..<off + Suc n])"
    using Suc.prems unfolding up
    by (intro nth_equalityI) (auto simp: nth_overlay nth_list_update nth_Cons' less_Suc_eq_le)
  finally show ?case .
qed simp

lemma gendata_overlay:
  "off + n \<le> length (good_buf s) \<Longrightarrow> off + n \<le> length (original_buf s) \<Longrightarrow>
   gendata off n s = Some (s\<lparr>good_buf := overlay (good_buf s) off (gen_pattern s off n)\<rparr>)"
  by (simp add: gendata_def gen_loop_overlay gen_pattern_def gen_byte_def[abs_def] cong: if_cong)

end
