(* ===== verification/Fsx_Correct.thy ===== *)
theory Fsx_Correct
  imports Fsx_Laws
begin

text \<open>
  Every operation of the fsx suite against a conforming file: it returns, and it either keeps the
  shadow buffer equal to the file or reports a failed system call.
\<close>

section \<open>Whole reads and writes\<close>

lemma pread_all_posix:
  assumes p: "posix_file S c" and r: "pread_all S k n off acc = (k', r)"
  shows "c k' = c k \<and> (\<forall>bs. r = Some bs \<longrightarrow> bs = acc @ take n (drop off (c k)) \<and> length bs = length acc + n)"
  using r
proof (induction n arbitrary: k off acc rule: less_induct)
  case (less n)
  show ?case
  proof (cases "n = 0")
    case True
    with less.prems show ?thesis by (auto simp: pread_all.simps)
  next
    case False
    obtain k1 r1 where rd: "sys_pread S k n off = (k1, r1)" by fastforce
    have ck: "c k1 = c k" using posix_pread(1)[OF p _ rd] False by simp
    show ?thesis
    proof (cases r1)
      case (Inl e)
      with less.prems False rd ck show ?thesis by (auto simp: pread_all.simps)
    next
      case (Inr bs)
      show ?thesis
      proof (cases "bs = []")
        case True
        with less.prems False rd Inr ck show ?thesis by (auto simp: pread_all.simps)
      next
        case ne: False
        have bs: "length bs \<le> n" "bs = take (length bs) (drop off (c k))"
          using posix_pread(2)[OF p _ rd Inr] False by auto
        have "pread_all S k1 (n - length bs) (off + length bs) (acc @ bs) = (k', r)"
          using less.prems False rd Inr ne by (subst (asm) pread_all.simps) simp
        moreover have "n - length bs < n" using ne False by simp
        ultimately have IH: "c k' = c k1 \<and> (\<forall>bs'. r = Some bs' \<longrightarrow>
            bs' = (acc @ bs) @ take (n - length bs) (drop (off + length bs) (c k1)) \<and>
            length bs' = length (acc @ bs) + (n - length bs))"
          by (intro less.IH)
        have "bs @ take (n - length bs) (drop (off + length bs) (c k)) = take n (drop off (c k))"
          using bs by (metis add.commute append_take_drop_id drop_drop le_add_diff_inverse take_add)
        with IH bs(1) ck show ?thesis by auto
      qed
    qed
  qed
qed

lemma pwrite_all_posix:
  assumes p: "posix_file S c"
  shows "\<exists>k' ok. pwrite_all S k d off = Some (k', ok) \<and>
     (ok \<longrightarrow> c k' = (if d = [] then c k else file_write (c k) off d))"
proof (induction "length d" arbitrary: k d off rule: less_induct)
  case less
  show ?case
  proof (cases "d = []")
    case True
    then have "pwrite_all S k d off = Some (k, True)" by (simp add: pwrite_all.simps)
    with True show ?thesis by auto
  next
    case False
    obtain k1 r1 where wr: "sys_pwrite S k d off = (k1, r1)" by fastforce
    show ?thesis
    proof (cases r1)
      case (Inl e)
      with wr False have "pwrite_all S k d off = Some (k1, False)" by (simp add: pwrite_all.simps)
      then show ?thesis by auto
    next
      case (Inr m)
      have m: "0 < m" "m \<le> length d" "c k1 = file_write (c k) off (take m d)"
        using posix_pwrite[OF p False wr[unfolded Inr]] by auto
      have "length (drop m d) < length d" using m by simp
      from less.hyps[OF this, of k1 "off + m"] obtain k' ok where
        rec: "pwrite_all S k1 (drop m d) (off + m) = Some (k', ok)" and
        img: "ok \<longrightarrow> c k' = (if drop m d = [] then c k1 else file_write (c k1) (off + m) (drop m d))"
        by blast
      have "c k' = file_write (c k) off d" if ok
      proof (cases "drop m d = []")
        case True
        with that img m show ?thesis by simp
      next
        case False
        with that img m have "c k' = file_write (file_write (c k) off (take m d)) (off + length (take m d)) (drop m d)"
          by simp
        then show ?thesis by (simp only: file_write_append append_take_drop_id)
      qed
      with rec wr Inr False show ?thesis by (simp add: pwrite_all.simps)
    qed
  qed
qed

section \<open>The shadow buffer under writes\<close>

lemma update_file_size_eq:
  "off \<le> length (good_buf s) \<Longrightarrow> update_file_size off n s =
     Some (s\<lparr>good_buf := (if file_size s < off
                          then overlay (good_buf s) (file_size s) (replicate (off - file_size s) 0)
                          else good_buf s), file_size := off + n\<rparr>)"
  by (simp add: update_file_size_def)

lemma view_write_inside:
  "off + length d \<le> fs \<Longrightarrow> fs \<le> length b \<Longrightarrow> take fs (overlay b off d) = file_write (take fs b) off d"
  by (rule nth_equalityI) (auto simp: buf_simps)

lemma view_write_extend:
  "off \<le> fs \<Longrightarrow> fs \<le> off + length d \<Longrightarrow> off + length d \<le> length b \<Longrightarrow>
   take (off + length d) (overlay b off d) = file_write (take fs b) off d"
  by (rule nth_equalityI) (auto simp: buf_simps)

lemma view_write_gap:
  "fs < off \<Longrightarrow> off + length d \<le> length b \<Longrightarrow>
   take (off + length d) (overlay (overlay b off d) fs (replicate (off - fs) 0)) = file_write (take fs b) off d"
  by (rule nth_equalityI) (auto simp: buf_simps)

lemma view_gap_write:
  "fs < off \<Longrightarrow> off + length d \<le> length b \<Longrightarrow>
   take (off + length d) (overlay (overlay b fs (replicate (off - fs) 0)) off d) = file_write (take fs b) off d"
  by (rule nth_equalityI) (auto simp: buf_simps)

lemma view_grow:
  "fs \<le> n \<Longrightarrow> n \<le> length b \<Longrightarrow> take n (overlay b fs (replicate (n - fs) 0)) = pad n (take fs b)"
  by (rule nth_equalityI) (auto simp: buf_simps)

lemma view_shrink: "n \<le> fs \<Longrightarrow> fs \<le> length b \<Longrightarrow> take n b = file_trunc (take fs b) n"
  by (rule nth_equalityI) (auto simp: buf_simps)

lemma pad_trunc: "length c \<le> n \<Longrightarrow> file_trunc c n = pad n c"
  by (simp add: file_trunc_def)

section \<open>The outcome of one operation\<close>

text \<open>What an operation leaves alone.\<close>

definition same_run :: "'k fsx \<Rightarrow> 'k fsx \<Rightarrow> bool" where
  "same_run s s' \<longleftrightarrow> cfg s' = cfg s \<and> maxfilelen s' = maxfilelen s \<and> testcalls s' = testcalls s \<and>
     enabled s' = enabled s \<and> rng s' = rng s \<and> os s' = os s"

definition op_step :: "('k \<Rightarrow> u8 list) \<Rightarrow> 'k fsx \<Rightarrow> 'k fsx \<Rightarrow> bool" where
  "op_step c s s' \<longleftrightarrow> op_outcome c s' \<and> same_run s s'"

lemmas step_defs = op_step_def op_outcome_def same_run_def fail_def

lemma log4_step:
  assumes "shadow_ok c s" "failure s = None"
  shows "\<exists>s'. log4 o1 a b sk s = Some s' \<and> op_step c s s'"
proof -
  have "log_ok s" using assms by (simp add: shadow_ok_def shape_ok_def)
  from log4_frame[OF this, of o1 a b sk] assms show ?thesis
    by (auto simp: step_defs shadow_ok_def shape_ok_def log_ok_def shadow_def)
qed

lemma log5_step:
  assumes "shadow_ok c s" "failure s = None"
  shows "\<exists>s'. log5 o1 a b d sk s = Some s' \<and> op_step c s s'"
proof -
  have "log_ok s" using assms by (simp add: shadow_ok_def shape_ok_def)
  from log5_frame[OF this, of o1 a b d sk] assms show ?thesis
    by (auto simp: step_defs shadow_ok_def shape_ok_def log_ok_def shadow_def)
qed

text \<open>After logging, the proofs continue with a state that satisfies the same invariant.\<close>

lemma log4_obtain:
  assumes "shadow_ok c s"
  obtains s1 where "log4 o1 a b sk s = Some s1" "shadow_ok c s1" "same_run s s1"
    "file_size s1 = file_size s" "good_buf s1 = good_buf s" "original_buf s1 = original_buf s"
    "kern s1 = kern s" "failure s1 = failure s" "page_mask s1 = page_mask s" "page_size s1 = page_size s"
    "biggest s1 = biggest s"
proof -
  have "log_ok s" using assms by (simp add: shadow_ok_def shape_ok_def)
  from log4_frame[OF this, of o1 a b sk] obtain r p n where
    l: "log4 o1 a b sk s = Some (s\<lparr>log_ring := r, logptr := p, logcount := n\<rparr>)"
      "length r = LOGSIZE" "p = n mod LOGSIZE" by blast
  show thesis
    by (rule that[OF l(1)])
      (use assms l in \<open>auto simp: shadow_ok_def shape_ok_def log_ok_def shadow_def same_run_def\<close>)
qed

lemma log5_obtain:
  assumes "shadow_ok c s"
  obtains s1 where "log5 o1 a b d sk s = Some s1" "shadow_ok c s1" "same_run s s1"
    "file_size s1 = file_size s" "good_buf s1 = good_buf s" "original_buf s1 = original_buf s"
    "kern s1 = kern s" "failure s1 = failure s" "page_mask s1 = page_mask s" "page_size s1 = page_size s"
    "biggest s1 = biggest s"
proof -
  have "log_ok s" using assms by (simp add: shadow_ok_def shape_ok_def)
  from log5_frame[OF this, of o1 a b d sk] obtain r p n where
    l: "log5 o1 a b d sk s = Some (s\<lparr>log_ring := r, logptr := p, logcount := n\<rparr>)"
      "length r = LOGSIZE" "p = n mod LOGSIZE" by blast
  show thesis
    by (rule that[OF l(1)])
      (use assms l in \<open>auto simp: shadow_ok_def shape_ok_def log_ok_def shadow_def same_run_def\<close>)
qed

lemma shadow_kern: "shadow_ok c s \<Longrightarrow> c (kern s) = take (file_size s) (good_buf s)"
  by (simp add: shadow_ok_def shadow_def)

lemma shadow_sizes:
  assumes "shadow_ok c s"
  shows "file_size s \<le> maxfilelen s" "length (good_buf s) = maxfilelen s + writebdy (cfg s) + 8"
    "length (original_buf s) = maxfilelen s" "length (c (kern s)) = file_size s"
  using assms by (auto simp: shadow_ok_def shape_ok_def shadow_def)

section \<open>Reads\<close>

lemma check_buffers_same:
  assumes "shadow_ok c s" "off + n \<le> file_size s" "buf = take n (drop off (c (kern s)))"
  shows "check_buffers buf off n s = Some s"
proof -
  have sz: "file_size s \<le> length (good_buf s)" using shadow_sizes[OF assms(1)] by simp
  have "buf = take n (drop off (good_buf s))"
    using assms(2,3) by (simp add: shadow_kern[OF assms(1)] drop_take min_def)
  moreover from this have "length buf = n" using assms(2) sz by simp
  ultimately show ?thesis
    using assms(2) sz by (simp add: check_buffers_def)
qed

lemma doread_step:
  assumes p: "posix_file S c" and ok: "shadow_ok c s" and f: "failure s = None"
    and inj: "inject_failure_at (cfg s) = None"
  shows "\<exists>s'. doread S off0 n s = Some s' \<and> op_step c s s'"
proof -
  define off where "off = align_down off0 (readbdy (cfg s))"
  show ?thesis
  proof (cases "n = 0 \<or> file_size s < off + n")
    case True
    then show ?thesis
      using log4_step[OF ok f] by (simp add: doread_def off_def[symmetric] Let_def)
  next
    case False
    obtain s1 where l: "log4 Read off n False s = Some s1" "shadow_ok c s1" "same_run s s1"
      "file_size s1 = file_size s" "kern s1 = kern s" "failure s1 = failure s"
      using log4_obtain[OF ok] by metis
    obtain k r where rd: "pread_all S (kern s1) n off [] = (k, r)" by fastforce
    have ck: "c k = c (kern s1)" and
      bs: "\<And>bs. r = Some bs \<Longrightarrow> bs = take n (drop off (c (kern s1)))"
      using pread_all_posix[OF p rd] by auto
    have ok2: "shadow_ok c (s1\<lparr>kern := k\<rparr>)"
      using l(2) ck by (auto simp: shadow_ok_def shape_ok_def log_ok_def shadow_def)
    show ?thesis
    proof (cases r)
      case None
      with False l rd f show ?thesis
        by (auto simp: doread_def off_def[symmetric] Let_def step_defs)
    next
      case (Some bs1)
      have "check_buffers bs1 off n (s1\<lparr>kern := k\<rparr>) = Some (s1\<lparr>kern := k\<rparr>)"
        using False l bs[OF Some] ck by (intro check_buffers_same[OF ok2]) auto
      moreover have "inject_failure_at (cfg s1) = None" using l(3) inj by (simp add: same_run_def)
      ultimately show ?thesis
        using False l rd f Some ok2
        by (auto simp: doread_def off_def[symmetric] Let_def step_defs)
    qed
  qed
qed

text \<open>The look at the bytes past EOF in the mapped read inspects no byte: the range it scans ends
  before EOF.\<close>

lemma past_eof_byte_None:
  assumes "off + n \<le> fs" "fs = file_size s"
  shows "past_eof_byte s (off - (off AND page_mask s)) ((off AND page_mask s) + n) n m = None"
proof -
  have "(off AND page_mask s) \<le> off" by (rule page_offset_le)
  then have "List.find (\<lambda>i. file_size s - (off - (off AND page_mask s)) \<le> i \<and> m ! i \<noteq> 0)
      [(file_size s AND page_mask s)..<(off AND page_mask s) + n] = None"
    using assms by (auto simp: find_None_iff)
  then show ?thesis by (simp add: past_eof_byte_def Let_def)
qed

lemma domapread_step:
  assumes p: "posix_file S c" and ok: "shadow_ok c s" and f: "failure s = None"
  shows "\<exists>s'. domapread S off0 n s = Some s' \<and> op_step c s s'"
proof -
  define off where "off = align_down off0 (readbdy (cfg s))"
  show ?thesis
  proof (cases "n = 0 \<or> file_size s < off + n")
    case True
    then show ?thesis
      using log4_step[OF ok f] by (simp add: domapread_def off_def[symmetric] Let_def)
  next
    case False
    obtain s1 where l: "log4 MapRead off n False s = Some s1" "shadow_ok c s1" "same_run s s1"
      "file_size s1 = file_size s" "kern s1 = kern s" "failure s1 = failure s" "page_mask s1 = page_mask s"
      using log4_obtain[OF ok] by metis
    define pg where "pg = off AND page_mask s"
    have pg: "pg \<le> off" by (simp add: pg_def page_offset_le)
    have len: "length (c (kern s1)) = file_size s" using shadow_sizes(4)[OF l(2)] l(4) by simp
    have "sys_load S (kern s1) (off - pg) (pg + n) = take (pg + n) (drop (off - pg) (c (kern s1)))"
      using False pg len by (intro posix_load[OF p]) simp
    then have "take n (drop pg (sys_load S (kern s1) (off - pg) (pg + n))) = take n (drop off (c (kern s1)))"
      using pg by (simp add: drop_take)
    then have "check_buffers (take n (drop pg (sys_load S (kern s1) (off - pg) (pg + n)))) off n s1 = Some s1"
      using False l by (intro check_buffers_same[OF l(2)]) auto
    moreover have "past_eof_byte s1 (off - pg) (pg + n) n m = None" for m
      unfolding pg_def l(7)[symmetric] using False l(4) by (intro past_eof_byte_None) auto
    ultimately show ?thesis
      using False l f
      by (auto simp: domapread_def off_def[symmetric] pg_def[symmetric] Let_def step_defs)
  qed
qed

section \<open>Writes\<close>

text \<open>The state after the pattern is generated and the size updated: the shadow is the written
  image, and the written range holds the pattern.\<close>

lemma shadow_write_state:
  assumes ok: "shadow_ok c s" and n: "0 < n" and r: "off + n \<le> maxfilelen s"
  obtains s2 where
    "shadow_write off n s = Some s2"
    "shape_ok s2" "same_run s s2" "kern s2 = kern s" "failure s2 = failure s"
    "page_mask s2 = page_mask s" "file_size s2 = max (file_size s) (off + n)"
    "shadow s2 = file_write (shadow s) off (gen_pattern s off n)"
    "take n (drop off (good_buf s2)) = gen_pattern s off n"
proof -
  let ?d = "gen_pattern s off n" and ?b = "good_buf s" and ?fs = "file_size s"
  have sz: "?fs \<le> maxfilelen s" "length ?b = maxfilelen s + writebdy (cfg s) + 8"
    "length (original_buf s) = maxfilelen s"
    using shadow_sizes[OF ok] by simp_all
  have g: "gendata off n s = Some (s\<lparr>good_buf := overlay ?b off ?d\<rparr>)"
    using r sz by (intro gendata_overlay) auto
  show thesis
  proof (cases "?fs < off + n")
    case False
    have view: "take ?fs (overlay ?b off ?d) = file_write (take ?fs ?b) off ?d"
      using False sz by (intro view_write_inside) auto
    have pat: "take n (drop off (overlay ?b off ?d)) = ?d"
      using r sz by (intro nth_equalityI) (auto simp: buf_simps)
    show thesis
      by (rule that[of "s\<lparr>good_buf := overlay ?b off ?d\<rparr>"])
        (use g False ok r sz view pat in \<open>auto simp: shadow_write_def shadow_ok_def shape_ok_def log_ok_def
           same_run_def shadow_def max_def\<close>)
  next
    case grow: True
    let ?b1 = "overlay ?b off ?d"
    let ?b2 = "if ?fs < off then overlay ?b1 ?fs (replicate (off - ?fs) 0) else ?b1"
    have len: "length ?b2 = length ?b" using r sz by simp
    have view: "take (off + n) ?b2 = file_write (take ?fs ?b) off ?d"
      using view_write_gap[of ?fs off ?d ?b] view_write_extend[of off ?fs ?d ?b] r sz grow by auto
    have pat: "take n (drop off ?b2) = ?d"
      using r sz by (intro nth_equalityI) (auto simp: buf_simps)
    show thesis
      by (rule that[of "s\<lparr>good_buf := ?b2, file_size := off + n\<rparr>"])
        (use g grow ok r sz len view pat in \<open>auto simp: shadow_write_def update_file_size_eq shadow_ok_def shape_ok_def
           log_ok_def same_run_def shadow_def max_def\<close>)
  qed
qed

lemma dowrite_step:
  assumes p: "posix_file S c" and ok: "shadow_ok c s" and f: "failure s = None"
    and r: "off0 + n \<le> maxfilelen s"
  shows "\<exists>s'. dowrite S off0 n s = Some s' \<and> op_step c s s'"
proof -
  define off where "off = align_down off0 (writebdy (cfg s))"
  have off: "off + n \<le> maxfilelen s" using r align_down_le[of off0 "writebdy (cfg s)"] by (simp add: off_def)
  show ?thesis
  proof (cases "n = 0")
    case True
    then show ?thesis using log4_step[OF ok f] by (simp add: dowrite_def off_def[symmetric] Let_def)
  next
    case False
    obtain s1 where l: "log4 Write off n False s = Some s1" "shadow_ok c s1" "same_run s s1"
      "failure s1 = failure s" using log4_obtain[OF ok] by metis
    have off1: "off + n \<le> maxfilelen s1" using l(3) off by (simp add: same_run_def)
    obtain s2 where w: "shadow_write off n s1 = Some s2"
      "shape_ok s2" "same_run s1 s2" "kern s2 = kern s1" "failure s2 = failure s1"
      "shadow s2 = file_write (shadow s1) off (gen_pattern s1 off n)"
      "take n (drop off (good_buf s2)) = gen_pattern s1 off n"
      using shadow_write_state[OF l(2) _ off1] False by (metis neq0_conv)
    have len: "off + n \<le> length (good_buf s2)"
      using off1 w(2,3) by (simp add: shape_ok_def same_run_def)
    obtain k okw where pw: "pwrite_all S (kern s2) (gen_pattern s1 off n) off = Some (k, okw)"
      and img: "okw \<Longrightarrow> c k = file_write (c (kern s2)) off (gen_pattern s1 off n)"
      using pwrite_all_posix[OF p, of "kern s2" "gen_pattern s1 off n" off] False
      by (metis length_gen_pattern list.size(3))
    have ok3: "okw \<Longrightarrow> shadow_ok c (s2\<lparr>kern := k\<rparr>)"
      using img w(2,4,6) l(2) by (simp add: shadow_ok_def shape_ok_def log_ok_def shadow_def)
    have fs: "okw \<Longrightarrow> shadow_ok c (s2\<lparr>kern := sys_fsync S k\<rparr>)"
      using ok3 posix_fsync[OF p] by (simp add: shadow_ok_def shape_ok_def log_ok_def shadow_def)
    have "dowrite S off0 n s =
        Some (if \<not> okw then fail (SysFail ''dowrite'') (s2\<lparr>kern := k\<rparr>)
              else if do_fsync (cfg s2) then s2\<lparr>kern := sys_fsync S k\<rparr> else s2\<lparr>kern := k\<rparr>)"
      using False l(1) w(1,7) len pw by (simp add: dowrite_def off_def[symmetric] Let_def)
    then show ?thesis
      using ok3 fs f l(3,4) w(3,5) by (auto simp: step_defs)
  qed
qed

end
