(* ===== verification/Fsx_Range_Correct.thy ===== *)
theory Fsx_Range_Correct
  imports Fsx_Correct
begin

text \<open>
  The operations of the fsx suite that change the size of the file or work on ranges, against a
  conforming file: mapped writes, truncation, preallocation, hole punching, zeroing, collapsing,
  cloning and copying.
\<close>

section \<open>Pollution past EOF\<close>

lemma pollute_bytes_Some:
  "\<forall>i \<in> set is. i < length orig \<Longrightarrow> \<exists>bs. pollute_bytes tc orig is = Some bs"
  by (induction "is") auto

lemma pollute_eofpage_step:
  assumes p: "posix_file S c" and ok: "shadow_ok c s"
  obtains k where "pollute_eofpage S (maxfilelen s) s = Some (s\<lparr>kern := k\<rparr>)" "c k = c (kern s)"
proof -
  let ?pg = "file_size s AND page_mask s"
  have sz: "length (original_buf s) = maxfilelen s" "length (c (kern s)) = file_size s"
    using shadow_sizes[OF ok] by simp_all
  have pg: "?pg \<le> file_size s" by (rule page_offset_le)
  have same: "s\<lparr>kern := kern s\<rparr> = s" by simp
  have "i < maxfilelen s" if "?pg \<le> i" "i < ?pg + min (page_size s - ?pg) (maxfilelen s - file_size s)" for i
    using that pg by (auto simp: min_def split: if_splits)
  then have "\<forall>i \<in> set [?pg..<?pg + min (page_size s - ?pg) (maxfilelen s - file_size s)]. i < length (original_buf s)"
    by (simp add: sz)
  then obtain bs where bs: "pollute_bytes (of_nat (testcalls s mod 256)) (original_buf s)
      [?pg..<?pg + min (page_size s - ?pg) (maxfilelen s - file_size s)] = Some bs"
    using pollute_bytes_Some by blast
  define k where "k = fst (sys_msync S (sys_store S (kern s) (file_size s) bs) (file_size s - ?pg) (page_size s))"
  have "take (length (c (kern s))) (file_write (c (kern s)) (file_size s) bs) = c (kern s)"
    using sz by (intro nth_equalityI) (auto simp: buf_simps)
  then have ck: "c k = c (kern s)"
    by (simp add: k_def posix_msync[OF p] posix_store[OF p])
  have "pollute_eofpage S (maxfilelen s) s = Some s \<or>
      pollute_eofpage S (maxfilelen s) s = Some (s\<lparr>kern := k\<rparr>)"
    using bs by (simp add: pollute_eofpage_def Let_def k_def)
  then show thesis
    using that[of "kern s"] that[of k] ck same by auto
qed

lemma shadow_ok_kern:
  "shadow_ok c s \<Longrightarrow> c k = c (kern s) \<Longrightarrow> shadow_ok c (s\<lparr>kern := k\<rparr>)"
  by (auto simp: shadow_ok_def shape_ok_def log_ok_def shadow_def)

lemma shadow_ok_biggest [simp]: "shadow_ok c (s\<lparr>biggest := b\<rparr>) = shadow_ok c s"
  by (auto simp: shadow_ok_def shape_ok_def log_ok_def shadow_def)

lemma shadow_ok_raise: "shadow_ok c (raise_biggest e s) = shadow_ok c s"
  by (simp add: raise_biggest_def)

lemma raise_fields [simp]:
  "failure (raise_biggest e s) = failure s" "file_size (raise_biggest e s) = file_size s"
  "good_buf (raise_biggest e s) = good_buf s" "kern (raise_biggest e s) = kern s"
  "maxfilelen (raise_biggest e s) = maxfilelen s" "cfg (raise_biggest e s) = cfg s"
  "testcalls (raise_biggest e s) = testcalls s" "enabled (raise_biggest e s) = enabled s"
  "rng (raise_biggest e s) = rng s" "os (raise_biggest e s) = os s"
  by (simp_all add: raise_biggest_def)

lemma same_run_raise: "same_run (raise_biggest e s) s' = same_run s s'"
  by (simp add: same_run_def raise_biggest_def)

section \<open>Mapped writes and truncation\<close>

lemma mapped_store_image:
  "L = max (length c0) (off + length d) \<Longrightarrow>
   take L (file_write (file_trunc c0 L) off d) = file_write c0 off d"
  by (rule nth_equalityI) (auto simp: buf_simps)

lemma domapwrite_step:
  assumes p: "posix_file S c" and ok: "shadow_ok c s" and f: "failure s = None"
    and r: "off0 + n \<le> maxfilelen s"
  shows "\<exists>s'. domapwrite S off0 n s = Some s' \<and> op_step c s s'"
proof -
  define off where "off = align_down off0 (writebdy (cfg s))"
  have off: "off + n \<le> maxfilelen s" using r align_down_le[of off0 "writebdy (cfg s)"] by (simp add: off_def)
  show ?thesis
  proof (cases "n = 0")
    case True
    then show ?thesis using log4_step[OF ok f] by (simp add: domapwrite_def off_def[symmetric] Let_def)
  next
    case False
    obtain s1 where l: "log4 MapWrite off n False s = Some s1" "shadow_ok c s1" "same_run s s1"
      "failure s1 = failure s" "file_size s1 = file_size s" using log4_obtain[OF ok] by metis
    have off1: "off + n \<le> maxfilelen s1" using l(3) off by (simp add: same_run_def)
    let ?d = "gen_pattern s1 off n"
    obtain s2 where w: "shadow_write off n s1 = Some s2"
      "shape_ok s2" "same_run s1 s2" "kern s2 = kern s1" "failure s2 = failure s1"
      "file_size s2 = max (file_size s1) (off + n)" "shadow s2 = file_write (shadow s1) off ?d"
      "take n (drop off (good_buf s2)) = ?d"
      using shadow_write_state[OF l(2) _ off1] False by (metis neq0_conv)
    have c1: "c (kern s1) = shadow s1" using l(2) by (simp add: shadow_ok_def)
    have len1: "length (shadow s1) = file_size s1" using shadow_sizes(4)[OF l(2)] c1 by simp
    have len: "off + n \<le> length (good_buf s2)"
      using off1 w(2,3) by (simp add: shape_ok_def same_run_def)
    obtain k e where tr: "(if file_size s < file_size s2 then sys_ftruncate S (kern s2) (file_size s2)
        else (kern s2, None)) = (k, e)" by fastforce
    have ck: "c k = file_trunc (shadow s1) (file_size s2)" if "e = None"
    proof (cases "file_size s < file_size s2")
      case True
      then show ?thesis using tr that posix_ftruncate[OF p, of "kern s2" "file_size s2" k] w(4) c1 by simp
    next
      case False
      then have "file_size s2 = length (shadow s1)" using w(6) l(5) len1 by auto
      then show ?thesis using False tr w(4) c1 by (auto simp: pad_trunc)
    qed
    obtain k2 e2 where ms: "sys_msync S (sys_store S k off ?d) (off - (off AND page_mask s2))
        ((off AND page_mask s2) + n) = (k2, e2)" by fastforce
    have img: "c k2 = shadow s2" if "e = None"
    proof -
      have "c k2 = c (sys_store S k off ?d)" using ms posix_msync[OF p] by (metis fst_conv)
      also have "\<dots> = take (file_size s2) (file_write (file_trunc (shadow s1) (file_size s2)) off ?d)"
        by (simp add: posix_store[OF p] ck[OF that])
      also have "\<dots> = file_write (shadow s1) off ?d"
        by (rule mapped_store_image) (simp add: w(6) len1)
      finally show ?thesis by (simp add: w(7))
    qed
    have ok2: "e = None \<Longrightarrow> shadow_ok c (s2\<lparr>kern := k2\<rparr>)"
      using img w(2) by (auto simp: shadow_ok_def shape_ok_def log_ok_def shadow_def)
    have slice: "rslice (good_buf s2) off (off + n) = Some ?d" using len w(8) by simp
    have dom: "domapwrite S off0 n s =
        Some (if e \<noteq> None then fail (SysFail ''domapwrite: ftruncate'') (s2\<lparr>kern := k\<rparr>)
         else if sys_mmap S k True ((off AND page_mask s2) + n) (off - (off AND page_mask s2)) \<noteq> None
         then fail (SysFail ''domapwrite: mmap'') (s2\<lparr>kern := k\<rparr>)
         else if e2 \<noteq> None then fail (SysFail ''domapwrite: msync'') (s2\<lparr>kern := k2\<rparr>)
         else s2\<lparr>kern := k2\<rparr>)"
      using False l(1,5) w(1) tr ms slice by (simp add: domapwrite_def off_def[symmetric] Let_def)
    show ?thesis
      unfolding dom using ok2 f l(3,4) w(3,5) by (auto simp: step_defs)
  qed
qed

lemma resize_step:
  assumes "n \<le> maxfilelen s" "shape_ok s"
  obtains s2 where "update_file_size n 0 s = Some s2" "shape_ok s2" "same_run s s2" "kern s2 = kern s"
    "failure s2 = failure s" "shadow s2 = file_trunc (shadow s) n"
proof -
  let ?b = "good_buf s" and ?fs = "file_size s"
  let ?b2 = "if ?fs < n then overlay ?b ?fs (replicate (n - ?fs) 0) else ?b"
  have sz: "?fs \<le> maxfilelen s" "length ?b = maxfilelen s + writebdy (cfg s) + 8"
    using assms(2) by (simp_all add: shape_ok_def)
  have u: "update_file_size n 0 s = Some (s\<lparr>good_buf := ?b2, file_size := n\<rparr>)"
    using assms(1) sz by (subst update_file_size_eq) auto
  have len: "length ?b2 = length ?b" using assms sz by simp
  have view: "take n ?b2 = file_trunc (take ?fs ?b) n"
    using view_grow[of ?fs n ?b] view_shrink[of n ?fs ?b] assms sz by (auto simp: pad_trunc)
  show thesis
    by (rule that[OF u]) (use assms sz len view in
      \<open>auto simp: shape_ok_def log_ok_def same_run_def shadow_def\<close>)
qed

lemma dotruncate_step:
  assumes p: "posix_file S c" and ok: "shadow_ok c s" and f: "failure s = None"
    and r: "n0 \<le> maxfilelen s"
  shows "\<exists>s'. dotruncate S n0 s = Some s' \<and> op_step c s s'"
proof -
  define n where "n = align_down n0 (truncbdy (cfg s))"
  have n: "n \<le> maxfilelen s" using r align_down_le[of n0 "truncbdy (cfg s)"] by (simp add: n_def)
  define s0 where "s0 = raise_biggest n s"
  have ok0: "shadow_ok c s0" using ok by (simp add: s0_def shadow_ok_raise)
  obtain s1 where l: "log4 Truncate 0 n False s0 = Some s1" "shadow_ok c s1" "same_run s0 s1"
    "failure s1 = failure s0" using log4_obtain[OF ok0] by metis
  obtain k0 where po: "pollute_eofpage S (maxfilelen s1) s1 = Some (s1\<lparr>kern := k0\<rparr>)" "c k0 = c (kern s1)"
    using pollute_eofpage_step[OF p l(2)] .
  define s2 where "s2 = (if n < file_size s1 then s1\<lparr>kern := k0\<rparr> else s1)"
  have ok2: "shadow_ok c s2" "same_run s1 s2" "failure s2 = failure s1"
    using l(2) po(2) by (auto simp: s2_def shadow_ok_kern same_run_def)
  have "n \<le> maxfilelen s2" using n l(3) ok2(2) by (simp add: same_run_def s0_def)
  then obtain s3 where u: "update_file_size n 0 s2 = Some s3" "shape_ok s3" "same_run s2 s3"
    "kern s3 = kern s2" "failure s3 = failure s2" "shadow s3 = file_trunc (shadow s2) n"
    using resize_step ok2(1) by (metis shadow_ok_def)
  obtain k e where tr: "sys_ftruncate S (kern s3) n = (k, e)" by fastforce
  have "e = None \<Longrightarrow> c k = shadow s3"
    using posix_ftruncate[OF p] tr u(4,6) ok2(1) by (auto simp: shadow_ok_def)
  then have ok3: "e = None \<Longrightarrow> shadow_ok c (s3\<lparr>kern := k\<rparr>)"
    using u(2) by (auto simp: shadow_ok_def shape_ok_def log_ok_def shadow_def)
  have "dotruncate S n0 s = Some (if e \<noteq> None then fail (SysFail ''dotruncate'') (s3\<lparr>kern := k\<rparr>)
      else s3\<lparr>kern := k\<rparr>)"
    using l(1) po(1) u(1) tr
    by (simp add: dotruncate_def n_def[symmetric] s0_def raise_biggest_def s2_def Let_def split: if_splits)
  moreover have "same_run s s3" using l(3) ok2(2) u(3) by (simp add: same_run_def s0_def)
  ultimately show ?thesis
    using ok3 f l(4) ok2(3) u(5) by (auto simp: step_defs s0_def)
qed

section \<open>Calls of fallocate(2)\<close>

lemma fallocate_call_ok:
  assumes "posix_file S c" "os s = Linux" "fallocate_call S mode off len s = (k, True)"
  shows "c k = file_fallocate mode (c (kern s)) off len"
proof -
  obtain k1 e where r: "sys_fallocate S (kern s) mode off len = (k1, e)" by fastforce
  with assms(2,3) have "k1 = k" "e = None" by (simp_all add: fallocate_call_def)
  then show ?thesis using posix_fallocate[OF assms(1)] r by simp
qed

lemma mode_bits:
  "FALLOC_FL_PUNCH_HOLE OR FALLOC_FL_KEEP_SIZE = 3" "FALLOC_FL_ZERO_RANGE OR FALLOC_FL_KEEP_SIZE = 17"
  "FALLOC_FL_KEEP_SIZE OR FALLOC_FL_UNSHARE_RANGE = 65" "FALLOC_FL_KEEP_SIZE OR 0 = 1"
  "0 OR FALLOC_FL_UNSHARE_RANGE = 64" "(0::nat) OR 0 = 0"
  by (simp_all add: falloc_flags)

lemma fallocate_images:
  "file_fallocate (FALLOC_FL_PUNCH_HOLE OR FALLOC_FL_KEEP_SIZE) c off len = take (length c) (file_zero c off len)"
  "file_fallocate (FALLOC_FL_ZERO_RANGE OR FALLOC_FL_KEEP_SIZE) c off len = take (length c) (file_zero c off len)"
  "file_fallocate FALLOC_FL_ZERO_RANGE c off len = file_zero c off len"
  "file_fallocate FALLOC_FL_WRITE_ZEROES c off len = file_zero c off len"
  "file_fallocate FALLOC_FL_COLLAPSE_RANGE c off len = take off c @ drop (off + len) c"
  "file_fallocate FALLOC_FL_INSERT_RANGE c off len = take off c @ replicate len 0 @ drop off c"
  unfolding file_fallocate_def mode_bits by (simp_all only: falloc_flags) simp_all

lemma preallocate_image:
  "file_fallocate ((if keep then FALLOC_FL_KEEP_SIZE else 0) OR (if un then FALLOC_FL_UNSHARE_RANGE else 0)) c off len =
     (if keep then c else pad (off + len) c)"
proof -
  have "file_fallocate 65 c off len = c" "file_fallocate 1 c off len = c"
    "file_fallocate 64 c off len = pad (off + len) c" "file_fallocate 0 c off len = pad (off + len) c"
    unfolding file_fallocate_def mode_bits by (simp_all only: falloc_flags) simp_all
  then show ?thesis
    by (cases keep; cases un) (simp_all only: if_True if_False mode_bits)
qed

lemma view_write_clip:
  "off + length d \<le> length b \<Longrightarrow> fs \<le> length b \<Longrightarrow>
   take fs (overlay b off d) = take fs (file_write (take fs b) off d)"
  by (rule nth_equalityI) (auto simp: buf_simps)

lemma view_collapse:
  "off + len \<le> fs \<Longrightarrow> fs \<le> length b \<Longrightarrow>
   take (fs - len) (overlay b off (take (fs - (off + len)) (drop (off + len) b))) =
   take off (take fs b) @ drop (off + len) (take fs b)"
  by (rule nth_equalityI) (auto simp: buf_simps nth_append)

section \<open>Holes, zeros, collapsing\<close>

lemma do_punch_hole_step:
  assumes p: "posix_file S c" and ok: "shadow_ok c s" and f: "failure s = None"
  shows "\<exists>s'. do_punch_hole S off n s = Some s' \<and> op_step c s s'"
proof (cases "n = 0 \<or> file_size s \<le> off")
  case True
  then show ?thesis using log4_step[OF ok f] by (simp add: do_punch_hole_def)
next
  case False
  obtain s1 where l: "log4 PunchHole off n False s = Some s1" "shadow_ok c s1" "same_run s s1"
    "file_size s1 = file_size s" "failure s1 = failure s" using log4_obtain[OF ok] by metis
  define len where "len = min n (file_size s - off)"
  have len: "0 < len" "off + len \<le> file_size s1" using False l(4) by (auto simp: len_def)
  have sz: "file_size s1 \<le> length (good_buf s1)" using shadow_sizes[OF l(2)] by simp
  have os1: "os s1 = Linux" using l(2) by (simp add: shadow_ok_def shape_ok_def)
  obtain k r where fc: "fallocate_call S (FALLOC_FL_PUNCH_HOLE OR FALLOC_FL_KEEP_SIZE) off len s1 = (k, r)"
    by fastforce
  let ?b = "overlay (good_buf s1) off (replicate len 0)"
  have "c k = shadow (s1\<lparr>good_buf := ?b\<rparr>)" if "r"
  proof -
    have "c k = take (file_size s1) (file_zero (shadow s1) off len)"
      using fallocate_call_ok[OF p os1, of _ off len k] fc that l(2) shadow_sizes(4)[OF l(2)]
      by (simp add: fallocate_images shadow_ok_def)
    then show ?thesis
      using view_write_clip[of off "replicate len 0" "good_buf s1" "file_size s1"] len sz
      by (simp add: shadow_def file_zero_def)
  qed
  then have ok2: "r \<Longrightarrow> shadow_ok c (s1\<lparr>kern := k, good_buf := ?b\<rparr>)"
    using l(2) len sz by (auto simp: shadow_ok_def shape_ok_def log_ok_def shadow_def)
  have "do_punch_hole S off n s = Some (if r then s1\<lparr>kern := k, good_buf := ?b\<rparr>
      else fail (SysFail ''do_punch_hole'') (s1\<lparr>kern := k\<rparr>))"
    using False l(1,4) len fc sz os1
    by (simp add: do_punch_hole_def len_def[symmetric] Let_def)
  then show ?thesis using ok2 f l(3,5) by (auto simp: step_defs)
qed

text \<open>Zeroing beyond EOF, common to zero-range and write-zeroes: the size grows first, then the
  zeros go in.\<close>

lemma grow_step:
  assumes ok: "shadow_ok c s" and r: "off + n \<le> maxfilelen s"
  obtains s2 where
    "(if file_size s < off + n then update_file_size off n s else Some s) = Some s2"
    "shape_ok s2" "same_run s s2" "kern s2 = kern s" "failure s2 = failure s"
    "file_size s2 = max (file_size s) (off + n)"
    "\<And>d. length d = n \<Longrightarrow> take (file_size s2) (overlay (good_buf s2) off d) = file_write (shadow s) off d"
    "\<And>i. i < file_size s \<Longrightarrow> good_buf s2 ! i = good_buf s ! i"
proof -
  let ?b = "good_buf s" and ?fs = "file_size s"
  have sz: "?fs \<le> maxfilelen s" "length ?b = maxfilelen s + writebdy (cfg s) + 8"
    using shadow_sizes[OF ok] by simp_all
  show thesis
  proof (cases "?fs < off + n")
    case False
    then have v: "take ?fs (overlay ?b off d) = file_write (shadow s) off d" if "length d = n" for d
      unfolding shadow_def using sz that by (intro view_write_inside) auto
    show thesis by (rule that[of s]) (use False ok v in \<open>auto simp: shadow_ok_def same_run_def\<close>)
  next
    case True
    let ?b2 = "if ?fs < off then overlay ?b ?fs (replicate (off - ?fs) 0) else ?b"
    have u: "update_file_size off n s = Some (s\<lparr>good_buf := ?b2, file_size := off + n\<rparr>)"
      using r sz by (subst update_file_size_eq) auto
    have len: "length ?b2 = length ?b" using r sz by simp
    have v: "take (off + n) (overlay ?b2 off d) = file_write (shadow s) off d" if "length d = n" for d
      unfolding shadow_def
      using view_gap_write[of ?fs off d ?b] view_write_extend[of off ?fs d ?b] r sz True that by auto
    have same: "?b2 ! i = ?b ! i" if "i < ?fs" for i
      using that r sz by (auto simp: buf_simps)
    show thesis
      by (rule that[of "s\<lparr>good_buf := ?b2, file_size := off + n\<rparr>"])
        (use True u ok r sz len v same in
          \<open>auto simp: shadow_ok_def shape_ok_def log_ok_def same_run_def max_def\<close>)
  qed
qed

lemma zero_state:
  assumes "shape_ok s2" "off + n \<le> maxfilelen s2" "c k = take (file_size s2) (overlay (good_buf s2) off (replicate n 0))"
  shows "shadow_ok c (s2\<lparr>kern := k, good_buf := overlay (good_buf s2) off (replicate n 0)\<rparr>)"
  using assms by (auto simp: shadow_ok_def shape_ok_def log_ok_def shadow_def)

lemma do_zero_range_step:
  assumes p: "posix_file S c" and ok: "shadow_ok c s" and f: "failure s = None"
    and r: "off + n \<le> maxfilelen s"
  shows "\<exists>s'. do_zero_range S off n keep s = Some s' \<and> op_step c s s'"
proof (cases "n = 0")
  case True
  then show ?thesis using log4_step[OF ok f] by (simp add: do_zero_range_def)
next
  case False
  define s0 where "s0 = raise_biggest (if keep then 0 else off + n) s"
  have ok0: "shadow_ok c s0" using ok by (simp add: s0_def shadow_ok_raise)
  obtain s1 where l: "log4 ZeroRange off n False s0 = Some s1" "shadow_ok c s1" "same_run s0 s1"
    "failure s1 = failure s0" using log4_obtain[OF ok0] by metis
  have r1: "off + n \<le> maxfilelen s1" using r l(3) by (simp add: same_run_def s0_def)
  obtain s2 where g: "(if file_size s1 < off + n then update_file_size off n s1 else Some s1) = Some s2"
    "shape_ok s2" "same_run s1 s2" "kern s2 = kern s1" "failure s2 = failure s1"
    "\<And>d. length d = n \<Longrightarrow> take (file_size s2) (overlay (good_buf s2) off d) = file_write (shadow s1) off d"
    using grow_step[OF l(2) r1] by metis
  define s3 where "s3 = (if keep then s1 else s2)"
  have s3: "shape_ok s3" "same_run s1 s3" "kern s3 = kern s1" "failure s3 = failure s1" "maxfilelen s3 = maxfilelen s1"
    using g l(2) by (auto simp: s3_def shadow_ok_def same_run_def)
  let ?mode = "if keep then FALLOC_FL_ZERO_RANGE OR FALLOC_FL_KEEP_SIZE else FALLOC_FL_ZERO_RANGE"
  obtain k ro where fc: "fallocate_call S ?mode off n s3 = (k, ro)" by fastforce
  let ?b = "overlay (good_buf s3) off (replicate n 0)"
  have sz: "file_size s1 \<le> length (good_buf s1)" "off + n \<le> length (good_buf s1)"
    using shadow_sizes[OF l(2)] r1 by simp_all
  have "c k = take (file_size s3) ?b" if "ro"
  proof -
    have "os s3 = Linux" using s3(1) by (simp add: shape_ok_def)
    then have ck: "c k = file_fallocate ?mode (shadow s1) off n"
      using fallocate_call_ok[OF p, of s3 ?mode off n k] fc that s3(3) l(2) by (simp add: shadow_ok_def)
    show ?thesis
    proof (cases keep)
      case True
      then show ?thesis
        using ck view_write_clip[of off "replicate n 0" "good_buf s1" "file_size s1"] sz shadow_sizes(4)[OF l(2)] l(2)
        by (simp add: fallocate_images s3_def file_zero_def shadow_def shadow_ok_def)
    next
      case False
      then show ?thesis using ck g(6)[of "replicate n 0"] by (simp add: fallocate_images s3_def file_zero_def)
    qed
  qed
  then have ok2: "ro \<Longrightarrow> shadow_ok c (s3\<lparr>kern := k, good_buf := ?b\<rparr>)"
    using s3 r1 by (intro zero_state) auto
  have len: "off + n \<le> length (good_buf s3)" using s3(1,5) r1 by (simp add: shape_ok_def)
  have "(if \<not> keep \<and> file_size s1 < off + n then update_file_size off n s1 else Some s1) = Some s3"
    using g(1) by (auto simp: s3_def split: if_splits)
  then have "do_zero_range S off n keep s = Some (if ro then s3\<lparr>kern := k, good_buf := ?b\<rparr>
      else fail (SysFail ''do_zero_range'') (s3\<lparr>kern := k\<rparr>))"
    using False l(1) fc len by (simp add: do_zero_range_def s0_def Let_def)
  then show ?thesis using ok2 f l(3,4) s3(2,4) by (auto simp: step_defs s0_def)
qed

lemma do_write_zeroes_step:
  assumes p: "posix_file S c" and ok: "shadow_ok c s" and f: "failure s = None"
    and r: "off + n \<le> maxfilelen s"
  shows "\<exists>s'. do_write_zeroes S off n s = Some s' \<and> op_step c s s'"
proof (cases "n = 0")
  case True
  then show ?thesis using log4_step[OF ok f] by (simp add: do_write_zeroes_def)
next
  case False
  define s0 where "s0 = raise_biggest (off + n) s"
  have ok0: "shadow_ok c s0" using ok by (simp add: s0_def shadow_ok_raise)
  obtain s1 where l: "log4 WriteZeroes off n False s0 = Some s1" "shadow_ok c s1" "same_run s0 s1"
    "failure s1 = failure s0" using log4_obtain[OF ok0] by metis
  have r1: "off + n \<le> maxfilelen s1" using r l(3) by (simp add: same_run_def s0_def)
  obtain s2 where g: "(if file_size s1 < off + n then update_file_size off n s1 else Some s1) = Some s2"
    "shape_ok s2" "same_run s1 s2" "kern s2 = kern s1" "failure s2 = failure s1"
    "\<And>d. length d = n \<Longrightarrow> take (file_size s2) (overlay (good_buf s2) off d) = file_write (shadow s1) off d"
    using grow_step[OF l(2) r1] by metis
  obtain k ro where fc: "fallocate_call S FALLOC_FL_WRITE_ZEROES off n s2 = (k, ro)" by fastforce
  let ?b = "overlay (good_buf s2) off (replicate n 0)"
  have r2: "off + n \<le> maxfilelen s2" using g(3) r1 by (simp add: same_run_def)
  have "c k = take (file_size s2) ?b" if "ro"
  proof -
    have "os s2 = Linux" using g(2) by (simp add: shape_ok_def)
    then have "c k = file_zero (shadow s1) off n"
      using fallocate_call_ok[OF p, of s2 _ off n k] fc that g(4) l(2)
      by (simp add: shadow_ok_def fallocate_images)
    then show ?thesis using g(6)[of "replicate n 0"] by (simp add: file_zero_def)
  qed
  then have ok2: "ro \<Longrightarrow> shadow_ok c (s2\<lparr>kern := k, good_buf := ?b\<rparr>)"
    using g(2) r2 by (intro zero_state) auto
  have len: "off + n \<le> length (good_buf s2)" using g(2) r2 by (simp add: shape_ok_def)
  have "do_write_zeroes S off n s = Some (if ro then s2\<lparr>kern := k, good_buf := ?b\<rparr>
      else fail (SysFail ''do_write_zeroes'') (s2\<lparr>kern := k\<rparr>))"
    using False l(1) fc len g(1) by (simp add: do_write_zeroes_def s0_def Let_def)
  then show ?thesis using ok2 f l(3,4) g(3,5) by (auto simp: step_defs s0_def)
qed

lemma do_collapse_range_step:
  assumes p: "posix_file S c" and ok: "shadow_ok c s" and f: "failure s = None"
  shows "\<exists>s'. do_collapse_range S off n s = Some s' \<and> op_step c s s'"
proof (cases "n = 0 \<or> file_size s \<le> off + n")
  case True
  then show ?thesis using log4_step[OF ok f] by (simp add: do_collapse_range_def)
next
  case False
  obtain s1 where l: "log4 CollapseRange off n False s = Some s1" "shadow_ok c s1" "same_run s s1"
    "failure s1 = failure s" "file_size s1 = file_size s" using log4_obtain[OF ok] by metis
  obtain k0 where po: "pollute_eofpage S (maxfilelen s1) s1 = Some (s1\<lparr>kern := k0\<rparr>)" "c k0 = c (kern s1)"
    using pollute_eofpage_step[OF p l(2)] .
  have r: "off + n \<le> file_size s1" using False l(5) by simp
  have sz: "file_size s1 \<le> length (good_buf s1)" "file_size s1 \<le> maxfilelen s1"
    using shadow_sizes[OF l(2)] by simp_all
  have os1: "os (s1\<lparr>kern := k0\<rparr>) = Linux" using l(2) by (simp add: shadow_ok_def shape_ok_def)
  obtain k ro where fc: "fallocate_call S FALLOC_FL_COLLAPSE_RANGE off n (s1\<lparr>kern := k0\<rparr>) = (k, ro)"
    by fastforce
  let ?b = "overlay (good_buf s1) off (take (file_size s1 - (off + n)) (drop (off + n) (good_buf s1)))"
  have "c k = take (file_size s1 - n) ?b" if "ro"
    using fallocate_call_ok[OF p os1, of _ off n k] fc that po(2) shadow_kern[OF l(2)]
      view_collapse[OF r sz(1)] by (simp add: fallocate_images)
  then have ok2: "ro \<Longrightarrow> shadow_ok c (s1\<lparr>kern := k, good_buf := ?b, file_size := file_size s1 - n\<rparr>)"
    using l(2) r sz by (auto simp: shadow_ok_def shape_ok_def log_ok_def shadow_def)
  have "do_collapse_range S off n s =
      Some (if ro then s1\<lparr>kern := k, good_buf := ?b, file_size := file_size s1 - n\<rparr>
            else fail (SysFail ''do_collapse_range'') (s1\<lparr>kern := k\<rparr>))"
    using False l(1) po(1) fc r sz by (simp add: do_collapse_range_def Let_def)
  then show ?thesis using ok2 f l(3,4) by (auto simp: step_defs)
qed

end
