(* ===== verification/Fsx_Copy_Correct.thy ===== *)
theory Fsx_Copy_Correct
  imports Fsx_Range_Correct
begin

text \<open>
  Cloning, copying and preallocating ranges against a conforming file, and the choice of the
  destination of a copy: it never overlaps its source.
\<close>

section \<open>Cloning and copying\<close>

lemma copy_image:
  assumes b: "off + n \<le> length b" "d + n \<le> length b"
  shows "rcopy_within b off (off + n) d = Some (overlay b d (take n (drop off b)))"
  using assms by simp

lemma copied_view:
  assumes same: "\<And>i. i < fs \<Longrightarrow> b2 ! i = b ! i" and r: "off + n \<le> fs" "fs \<le> length b" "length b2 = length b"
  shows "take n (drop off b2) = take n (drop off (take fs b))"
  using assms by (intro nth_equalityI) auto

lemma do_clone_range_step:
  assumes p: "posix_file S c" and ok: "shadow_ok c s" and f: "failure s = None"
    and r: "off + n \<le> file_size s" "dest + n \<le> maxfilelen s"
  shows "\<exists>s'. do_clone_range S off n dest s = Some s' \<and> op_step c s s'"
proof (cases "n = 0 \<or> file_size s \<le> off")
  case True
  have "os s = Linux" using ok by (simp add: shadow_ok_def shape_ok_def)
  with True show ?thesis using log5_step[OF ok f] by (simp add: do_clone_range_def)
next
  case False
  define s0 where "s0 = raise_biggest (dest + n) s"
  have ok0: "shadow_ok c s0" using ok by (simp add: s0_def shadow_ok_raise)
  obtain s1 where l: "log5 CloneRange off n dest False s0 = Some s1" "shadow_ok c s1" "same_run s0 s1"
    "failure s1 = failure s0" "file_size s1 = file_size s0" using log5_obtain[OF ok0] by metis
  have r1: "dest + n \<le> maxfilelen s1" "off + n \<le> file_size s1"
    using r l(3,5) by (simp_all add: same_run_def s0_def)
  obtain s2 where g: "(if file_size s1 < dest + n then update_file_size dest n s1 else Some s1) = Some s2"
    "shape_ok s2" "same_run s1 s2" "kern s2 = kern s1" "failure s2 = failure s1"
    "\<And>d. length d = n \<Longrightarrow> take (file_size s2) (overlay (good_buf s2) dest d) = file_write (shadow s1) dest d"
    "\<And>i. i < file_size s1 \<Longrightarrow> good_buf s2 ! i = good_buf s1 ! i"
    using grow_step[OF l(2) r1(1)] by metis
  have sz: "file_size s1 \<le> length (good_buf s1)" "length (good_buf s2) = length (good_buf s1)"
    "off + n \<le> length (good_buf s2)" "dest + n \<le> length (good_buf s2)"
    using shadow_sizes[OF l(2)] g(2,3) r1 by (auto simp: shape_ok_def same_run_def)
  let ?data = "take n (drop off (good_buf s2))"
  have data: "?data = take n (drop off (shadow s1))"
    unfolding shadow_def by (rule copied_view[OF g(7) r1(2) sz(1,2)])
  obtain k e where cl: "sys_clone S (kern s2) off n dest = (k, e)" by fastforce
  let ?b = "overlay (good_buf s2) dest ?data"
  have "c k = take (file_size s2) ?b" if "e = None"
  proof -
    have "off + n \<le> length (c (kern s2))" using r1(2) g(4) shadow_sizes(4)[OF l(2)] by simp
    then have "c k = file_write (shadow s1) dest ?data"
      using posix_clone[OF p cl[unfolded that]] g(4) l(2) data by (simp add: shadow_ok_def)
    then show ?thesis using g(6)[of ?data] sz by simp
  qed
  then have ok2: "e = None \<Longrightarrow> shadow_ok c (s2\<lparr>kern := k, good_buf := ?b\<rparr>)"
    using g(2) sz by (auto simp: shadow_ok_def shape_ok_def log_ok_def shadow_def)
  have "os s = Linux" using ok by (simp add: shadow_ok_def shape_ok_def)
  then have "do_clone_range S off n dest s =
      Some (if e \<noteq> None then fail (SysFail ''do_clone_range: FICLONERANGE'') (s2\<lparr>kern := k\<rparr>)
            else s2\<lparr>kern := k, good_buf := ?b\<rparr>)"
    using False l(1) g(1) cl sz by (simp add: do_clone_range_def s0_def Let_def)
  then show ?thesis using ok2 f l(3,4) g(3,5) by (auto simp: step_defs s0_def)
qed

lemma copy_loop_posix:
  assumes p: "posix_file S c"
  shows "copy_loop S k src dst left = (k', True) \<Longrightarrow> dst + left \<le> src \<or> src + left \<le> dst \<Longrightarrow>
    src + left \<le> length (c k) \<Longrightarrow>
    c k' = (if left = 0 then c k else file_write (c k) dst (take left (drop src (c k))))"
proof (induction left arbitrary: k src dst rule: less_induct)
  case (less left)
  show ?case
  proof (cases "left = 0")
    case True
    with less.prems show ?thesis by (simp add: copy_loop.simps)
  next
    case False
    obtain k1 r1 where cp: "sys_copy S k src dst left = (k1, r1)" by fastforce
    have "\<exists>n. r1 = Inr n \<and> 0 < n \<and> copy_loop S k1 (src + n) (dst + n) (left - n) = (k', True)"
      using less.prems(1) False cp
      by (subst (asm) copy_loop.simps) (auto split: sum.splits if_splits)
    then obtain n where n: "r1 = Inr n" "0 < n"
      "copy_loop S k1 (src + n) (dst + n) (left - n) = (k', True)" by blast
    have law: "n \<le> left" "src + n \<le> length (c k)" "c k1 = file_write (c k) dst (take n (drop src (c k)))"
      using posix_copy[OF p cp[unfolded n(1)] n(2)] by auto
    have len1: "length (c k1) = max (dst + n) (length (c k))" using law(2) by (simp add: law(3))
    have "c k' = (if left - n = 0 then c k1
        else file_write (c k1) (dst + n) (take (left - n) (drop (src + n) (c k1))))"
      using n less.prems(2,3) law(1) len1 by (intro less.IH) auto
    then have ck': "c k' = (if left = n then c k1
        else file_write (c k1) (dst + n) (take (left - n) (drop (src + n) (c k1))))"
      using law(1) by simp
    show ?thesis
    proof (cases "left = n")
      case True
      with ck' law False show ?thesis by simp
    next
      case ne: False
      have rest: "take (left - n) (drop (src + n) (c k1)) = take (left - n) (drop (src + n) (c k))"
        using less.prems(2,3) law n(2) by (intro nth_equalityI) (auto simp: buf_simps)
      have "c k' = file_write (file_write (c k) dst (take n (drop src (c k))))
          (dst + length (take n (drop src (c k)))) (take (left - n) (drop (src + n) (c k)))"
        using ck' ne rest law by simp
      also have "\<dots> = file_write (c k) dst (take n (drop src (c k)) @ take (left - n) (drop (src + n) (c k)))"
        by (rule file_write_append)
      also have "take n (drop src (c k)) @ take (left - n) (drop (src + n) (c k)) = take left (drop src (c k))"
        using law(1) by (metis add.commute drop_drop le_add_diff_inverse take_add)
      finally show ?thesis using False by simp
    qed
  qed
qed

lemma do_copy_range_step:
  assumes p: "posix_file S c" and ok: "shadow_ok c s" and f: "failure s = None"
    and r: "off + n \<le> file_size s" "dest + n \<le> maxfilelen s"
    and apart: "dest + n \<le> off \<or> off + n \<le> dest"
  shows "\<exists>s'. do_copy_range S off n dest s = Some s' \<and> op_step c s s'"
proof (cases "n = 0 \<or> file_size s \<le> off")
  case True
  have "os s = Linux" using ok by (simp add: shadow_ok_def shape_ok_def)
  with True show ?thesis using log5_step[OF ok f] by (simp add: do_copy_range_def)
next
  case False
  define s0 where "s0 = raise_biggest (dest + n) s"
  have ok0: "shadow_ok c s0" using ok by (simp add: s0_def shadow_ok_raise)
  obtain s1 where l: "log5 CopyRange off n dest False s0 = Some s1" "shadow_ok c s1" "same_run s0 s1"
    "failure s1 = failure s0" "file_size s1 = file_size s0" using log5_obtain[OF ok0] by metis
  have r1: "dest + n \<le> maxfilelen s1" "off + n \<le> file_size s1"
    using r l(3,5) by (simp_all add: same_run_def s0_def)
  obtain s2 where g: "(if file_size s1 < dest + n then update_file_size dest n s1 else Some s1) = Some s2"
    "shape_ok s2" "same_run s1 s2" "kern s2 = kern s1" "failure s2 = failure s1"
    "\<And>d. length d = n \<Longrightarrow> take (file_size s2) (overlay (good_buf s2) dest d) = file_write (shadow s1) dest d"
    "\<And>i. i < file_size s1 \<Longrightarrow> good_buf s2 ! i = good_buf s1 ! i"
    using grow_step[OF l(2) r1(1)] by metis
  have sz: "file_size s1 \<le> length (good_buf s1)" "length (good_buf s2) = length (good_buf s1)"
    "off + n \<le> length (good_buf s2)" "dest + n \<le> length (good_buf s2)"
    using shadow_sizes[OF l(2)] g(2,3) r1 by (auto simp: shape_ok_def same_run_def)
  let ?data = "take n (drop off (good_buf s2))"
  have data: "?data = take n (drop off (shadow s1))"
    unfolding shadow_def by (rule copied_view[OF g(7) r1(2) sz(1,2)])
  obtain k ro where cl: "copy_loop S (kern s2) off dest n = (k, ro)" by fastforce
  let ?b = "overlay (good_buf s2) dest ?data"
  have "c k = take (file_size s2) ?b" if "ro"
  proof -
    have "c k = file_write (shadow s1) dest ?data"
      using copy_loop_posix[OF p, of "kern s2" off dest n k] cl that apart False g(4) l(2) data
        r1(2) shadow_sizes(4)[OF l(2)]
      by (simp add: shadow_ok_def)
    then show ?thesis using g(6)[of ?data] sz by simp
  qed
  then have ok2: "ro \<Longrightarrow> shadow_ok c (s2\<lparr>kern := k, good_buf := ?b\<rparr>)"
    using g(2) sz by (auto simp: shadow_ok_def shape_ok_def log_ok_def shadow_def)
  have "os s = Linux" using ok by (simp add: shadow_ok_def shape_ok_def)
  then have "do_copy_range S off n dest s =
      Some (if ro then s2\<lparr>kern := k, good_buf := ?b\<rparr>
            else fail (SysFail ''do_copy_range: copy_file_range'') (s2\<lparr>kern := k\<rparr>))"
    using False l(1) g(1) cl sz by (simp add: do_copy_range_def s0_def Let_def)
  then show ?thesis using ok2 f l(3,4) g(3,5) by (auto simp: step_defs s0_def)
qed

section \<open>Preallocation\<close>

text \<open>Preallocation agrees with the file as long as it does not combine the keep-size flag with a
  range past EOF, and outside the simulated operations.\<close>

lemma do_preallocate_step:
  assumes p: "posix_file S c" and ok: "shadow_ok c s" and f: "failure s = None"
    and r: "off + n \<le> maxfilelen s" and keep: "keep \<Longrightarrow> off + n \<le> file_size s"
    and sim: "simulatedopcount (cfg s) < testcalls s"
  shows "\<exists>s'. do_preallocate S off n keep un s = Some s' \<and> op_step c s s'"
proof (cases "n = 0")
  case True
  then show ?thesis using log4_step[OF ok f] by (simp add: do_preallocate_def Let_def)
next
  case False
  have mn: "min off (maxfilelen s) = off" "min n (maxfilelen s - off) = n" using r by simp_all
  define s0 where "s0 = raise_biggest (if keep then 0 else off + n) s"
  have ok0: "shadow_ok c s0" using ok by (simp add: s0_def shadow_ok_raise)
  obtain s1 where l: "log4 Fallocate off n False s0 = Some s1" "shadow_ok c s1" "same_run s0 s1"
    "failure s1 = failure s0" "file_size s1 = file_size s0" using log4_obtain[OF ok0] by metis
  let ?b = "good_buf s1" and ?fs = "file_size s1"
  let ?b1 = "overlay ?b ?fs (replicate (off + n - ?fs) 0)"
  let ?b2 = "if ?fs < off then overlay ?b1 ?fs (replicate (off - ?fs) 0) else ?b1"
  define s2 where "s2 = (if ?fs < off + n then s1\<lparr>good_buf := ?b2, file_size := off + n\<rparr> else s1)"
  have sz: "?fs \<le> maxfilelen s1" "length ?b = maxfilelen s1 + writebdy (cfg s1) + 8" "off + n \<le> maxfilelen s1"
    using shadow_sizes[OF l(2)] r l(3) by (simp_all add: same_run_def s0_def)
  have grow: "(if ?fs < off + n then do {
         b \<leftarrow> rfill ?b ?fs (off + n) 0;
         update_file_size off n (s1\<lparr>good_buf := b\<rparr>) } else Some s1) = Some s2"
    using sz by (simp add: s2_def update_file_size_eq)
  have len: "length ?b2 = length ?b" using sz by simp
  have "?b2 = ?b1"
    using sz by (auto intro!: nth_equalityI simp: buf_simps)
  then have view: "?fs < off + n \<Longrightarrow> take (off + n) ?b2 = pad (off + n) (take ?fs ?b)"
    using view_grow[of ?fs "off + n" ?b] sz by simp
  have sh2: "shadow s2 = (if keep then shadow s1 else pad (off + n) (shadow s1))"
  proof (cases "?fs < off + n")
    case True
    then have "\<not> keep" using keep l(5) by (auto simp: s0_def)
    then show ?thesis using True view by (simp add: s2_def shadow_def)
  next
    case False
    then show ?thesis using sz by (auto simp: s2_def shadow_def)
  qed
  have s2: "shape_ok s2" "same_run s1 s2" "kern s2 = kern s1" "failure s2 = failure s1"
    using l(2) sz len by (auto simp: s2_def shadow_ok_def shape_ok_def log_ok_def same_run_def)
  obtain k ro where fc: "fallocate_call S ((if keep then FALLOC_FL_KEEP_SIZE else 0)
      OR (if un then FALLOC_FL_UNSHARE_RANGE else 0)) off n s2 = (k, ro)" by fastforce
  have "os s2 = Linux" using s2(1) by (simp add: shape_ok_def)
  then have "ro \<Longrightarrow> c k = shadow s2"
    using fallocate_call_ok[OF p, of s2 _ off n k] fc s2(3) l(2) sh2
    by (simp add: preallocate_image shadow_ok_def)
  then have ok2: "ro \<Longrightarrow> shadow_ok c (s2\<lparr>kern := k\<rparr>)"
    using s2(1) by (auto simp: shadow_ok_def shape_ok_def log_ok_def shadow_def)
  have sim2: "\<not> testcalls s2 \<le> simulatedopcount (cfg s2)"
    using sim l(3) s2(2) by (simp add: same_run_def s0_def)
  have "do_preallocate S off n keep un s =
      Some (if ro then s2\<lparr>kern := k\<rparr> else fail (SysFail ''do_preallocate'') (s2\<lparr>kern := k\<rparr>))"
    using False by (simp only: do_preallocate_def Let_def mn s0_def[symmetric] if_False)
      (simp add: l(1) grow fc sim2)
  then show ?thesis using ok2 f l(3,4) s2(2,4) by (auto simp: step_defs s0_def)
qed

section \<open>Checks after an operation\<close>

lemma check_size_same:
  assumes p: "posix_file S c" and ok: "shadow_ok c s" and f: "failure s = None"
  shows "op_step c s (check_size S s)"
proof -
  have "length (c (kern s)) = file_size s" using shadow_sizes[OF ok] by simp
  then show ?thesis
    using posix_fstat[OF p, of "kern s"] posix_seek_end[OF p, of "kern s"] ok f
    by (auto simp: check_size_def step_defs split: option.splits)
qed

lemma check_contents_step:
  assumes p: "posix_file S c" and ok: "shadow_ok c s" and f: "failure s = None"
  shows "\<exists>s'. check_contents S s = Some s' \<and> op_step c s s'"
proof (cases "file_size s = 0")
  case True
  then show ?thesis using ok f by (simp add: check_contents_def step_defs)
next
  case False
  obtain k r where rd: "pread_all S (kern s) (file_size s) 0 [] = (k, r)" by fastforce
  have ck: "c k = c (kern s)"
    and bs: "\<And>bs. r = Some bs \<Longrightarrow> bs = take (file_size s) (c (kern s)) \<and> length bs = file_size s"
    using pread_all_posix[OF p rd] by auto
  have ok2: "shadow_ok c (s\<lparr>kern := k\<rparr>)" by (rule shadow_ok_kern[OF ok ck])
  show ?thesis
  proof (cases r)
    case None
    with False rd f show ?thesis by (auto simp: check_contents_def step_defs)
  next
    case (Some b)
    have "check_buffers b 0 (length b) (s\<lparr>kern := k\<rparr>) = Some (s\<lparr>kern := k\<rparr>)"
      using bs[OF Some] ck by (intro check_buffers_same[OF ok2]) auto
    with False rd f ok2 Some show ?thesis by (auto simp: check_contents_def step_defs)
  qed
qed

end
