(* ===== verification/Fsx_Run_Correct.thy ===== *)
theory Fsx_Run_Correct
  imports Fsx_Copy_Correct
begin

text \<open>
  The iteration and the loop of the fsx suite against a conforming file: what the draws can give,
  that one iteration keeps the shadow invariant or reports a failed system call, and that a run over
  a number of operations ends with one of these two outcomes.
\<close>

section \<open>Draws\<close>

definition same_state :: "'k fsx \<Rightarrow> 'k fsx \<Rightarrow> bool" where
  "same_state s s' \<longleftrightarrow> (\<exists>g. s' = s\<lparr>rng := g\<rparr> \<and> (ring_ok (rng s) \<longrightarrow> ring_ok g))"

lemma same_state_refl: "same_state s s"
  by (auto simp: same_state_def intro: exI[of _ "rng s"])

lemma same_state_trans: "same_state s t \<Longrightarrow> same_state t u \<Longrightarrow> same_state s u"
  by (auto simp: same_state_def)

lemma same_state_rnd: "same_state s (fst (rnd s))"
  by (auto simp: same_state_def rnd_def ring_next split: prod.splits intro!: exI[of _ "fst (rand_next (rng s))"])
     (metis fst_conv ring_next)+

lemma same_state_fields:
  assumes "same_state s s'"
  shows "file_size s' = file_size s" "maxfilelen s' = maxfilelen s" "cfg s' = cfg s" "os s' = os s"
    "enabled s' = enabled s" "testcalls s' = testcalls s" "failure s' = failure s"
  using assms by (auto simp: same_state_def)

lemma same_state_ok: "same_state s s' \<Longrightarrow> shadow_ok c s \<Longrightarrow> shadow_ok c s'"
  by (auto simp: same_state_def shadow_ok_def shape_ok_def log_ok_def shadow_def)

lemma rounddown_le: "rounddown v b \<le> v"
  by (simp add: rounddown_def)

lemma trim_off_len_bound:
  assumes "trim_off_len off len size1 = (o1, n1)"
  shows "o1 + n1 \<le> size1" "n1 \<le> len"
proof -
  have "trim_off off size1 \<le> size1"
    by (simp add: trim_off_def)
  with assms show "o1 + n1 \<le> size1" "n1 \<le> len"
    by (auto simp: trim_off_len_def Let_def split: if_splits)
qed

lemma dest_loop_result:
  "dest_loop tries wbdy m src n s = (s', n', d) \<Longrightarrow>
   same_state s s' \<and> (n' = 0 \<or> n' = n \<and>
     (\<exists>x. d = Some x \<and> x + n \<le> m \<and> (x + n \<le> src \<or> src + n \<le> x)))"
proof (induction tries arbitrary: s)
  case 0
  then show ?case by (simp add: same_state_refl)
next
  case (Suc t)
  obtain s1 r where rn: "rnd s = (s1, r)" by fastforce
  then have st: "same_state s s1" using same_state_rnd[of s] by simp
  let ?d = "rounddown (if m = 0 then 0 else r mod m) wbdy"
  show ?case
  proof (cases "\<not> nat \<bar>int ?d - int src\<bar> < n \<and> ?d + n \<le> m")
    case True
    then have "s' = s1" "n' = n" "d = Some ?d" using Suc.prems rn by (simp_all add: Let_def)
    moreover have "?d + n \<le> src \<or> src + n \<le> ?d" using True by linarith
    ultimately show ?thesis using st True by auto
  next
    case False
    then have "dest_loop t wbdy m src n s1 = (s', n', d)" using Suc.prems rn by (auto simp: Let_def)
    from Suc.IH[OF this] st show ?thesis by (auto intro: same_state_trans)
  qed
qed

lemma gen_dest_range_result:
  assumes "gen_dest_range al m src0 n0 dst s = (s', src, n, d)"
  shows "same_state s s'" "src + n \<le> file_size s"
    "n = 0 \<or> (d + n \<le> m \<and> (d + n \<le> src \<or> src + n \<le> d))"
proof -
  obtain o1 n1 where t: "trim_off_len src0 n0 (file_size s) = (o1, n1)" by fastforce
  let ?bdy = "if al then max (readbdy (cfg s)) 1 else 4096"
  let ?w = "if al then max (writebdy (cfg s)) 1 else 4096"
  obtain s2 n2 d2 where l: "dest_loop 29 ?w m (rounddown o1 ?bdy) (rounddown n1 ?bdy) s = (s2, n2, d2)"
    by (metis prod_cases3)
  have r: "s' = s2" "src = rounddown o1 ?bdy" "n = n2" "d = (case d2 of Some x \<Rightarrow> x | None \<Rightarrow> dst)"
    using assms t l by (simp_all add: gen_dest_range_def Let_def)
  note res = dest_loop_result[OF l]
  have "rounddown o1 ?bdy + rounddown n1 ?bdy \<le> file_size s"
    using trim_off_len_bound(1)[OF t] rounddown_le[of o1 ?bdy] rounddown_le[of n1 ?bdy] by linarith
  then show "src + n \<le> file_size s"
    using res rounddown_le[of o1 ?bdy] trim_off_len_bound(1)[OF t] unfolding r by auto
  show "same_state s s'" using res r by simp
  show "n = 0 \<or> (d + n \<le> m \<and> (d + n \<le> src \<or> src + n \<le> d))" using res r by auto
qed

section \<open>One iteration\<close>

text \<open>
  The runs for which the suite and a conforming file agree: no injected failure, no simulated
  operations, keep-size preallocation and insertion of ranges switched off, a file of at least one
  byte, and, for the other truncation style, operations no longer than the file.
\<close>

definition sound_args :: "fsx_args \<Rightarrow> 'k fsx \<Rightarrow> bool" where
  "sound_args a s \<longleftrightarrow>
     inject_failure_at (cfg s) = None \<and> simulatedopcount (cfg s) = 0 \<and> a_no_keep_size a \<and>
     \<not> enabled s ! op_idx InsertRange \<and> 0 < maxfilelen s \<and> (a_style a \<noteq> 0 \<longrightarrow> a_oplen a \<le> maxfilelen s)"

definition params_ok :: "fsx_args \<Rightarrow> fsx_op \<Rightarrow> nat \<Rightarrow> nat \<Rightarrow> nat \<Rightarrow> bool \<Rightarrow> 'k fsx \<Rightarrow> bool" where
  "params_ok a op1 off n off2 keep s \<longleftrightarrow>
     (op1 = Truncate \<longrightarrow> n \<le> maxfilelen s) \<and> (op1 = Fallocate \<longrightarrow> \<not> keep) \<and>
     (op1 \<in> {CloneRange, CopyRange} \<longrightarrow> off + n \<le> file_size s \<and>
        (n = 0 \<or> off2 + n \<le> off \<or> off + n \<le> off2))"

lemma draw_flag_state: "draw_flag b s = (s', v) \<Longrightarrow> same_state s s' \<and> (v \<longrightarrow> b)"
  using same_state_rnd[of s] by (auto simp: draw_flag_def same_state_refl split: if_splits prod.splits)

lemma draw_params_result:
  assumes snd1: "sound_args a s" and n: "n0 \<le> a_oplen a"
  shows "\<exists>s' off n off2 keep un. draw_params a op1 off0 n0 s = Some (s', off, n, off2, keep, un) \<and>
     same_state s s' \<and> params_ok a op1 off n off2 keep s'"
proof -
  have dest: "\<exists>s' src n d. gen_dest_range (os s \<noteq> Linux) (maxfilelen s) off0 n0 0 s = (s', src, n, d) \<and>
      same_state s s' \<and> src + n \<le> file_size s' \<and> (n = 0 \<or> d + n \<le> src \<or> src + n \<le> d)"
  proof -
    obtain s1 src n d where g: "gen_dest_range (os s \<noteq> Linux) (maxfilelen s) off0 n0 0 s = (s1, src, n, d)"
      by (rule prod_cases4)
    from gen_dest_range_result[OF g] same_state_fields(1)[OF gen_dest_range_result(1)[OF g]] g
    show ?thesis by auto
  qed
  show ?thesis
  proof (cases op1)
    case Truncate
    obtain s1 r where rn: "rnd s = (s1, r)" by fastforce
    have "same_state s s1" using same_state_rnd[of s] rn by simp
    with Truncate rn snd1 n same_state_fields(2)[OF this] show ?thesis
      by (cases "a_style a = 0") (auto simp: draw_params_def params_ok_def sound_args_def same_state_refl
          intro: less_imp_le)
  next
    case Fallocate
    obtain s1 v1 where f1: "draw_flag (n0 \<noteq> 0 \<and> \<not> a_no_keep_size a) s = (s1, v1)" by fastforce
    obtain s2 v2 where f2: "draw_flag (n0 \<noteq> 0) s1 = (s2, v2)" by fastforce
    from draw_flag_state[OF f1] draw_flag_state[OF f2] snd1 f1 f2 Fallocate show ?thesis
      by (auto simp: draw_params_def params_ok_def sound_args_def intro: same_state_trans)
  next
    case ZeroRange
    obtain s1 v1 where f1: "draw_flag (n0 \<noteq> 0 \<and> \<not> a_no_keep_size a) s = (s1, v1)" by fastforce
    from draw_flag_state[OF f1] f1 ZeroRange show ?thesis
      by (auto simp: draw_params_def params_ok_def)
  next
    case CloneRange
    with dest show ?thesis by (auto simp: draw_params_def params_ok_def)
  next
    case CopyRange
    with dest show ?thesis by (auto simp: draw_params_def params_ok_def)
  qed (auto simp: draw_params_def params_ok_def same_state_refl)
qed

lemma run_fsx_op_step:
  assumes p: "posix_file S c" and ok: "shadow_ok c s" and f: "failure s = None"
    and a: "sound_args a s" and tc: "0 < testcalls s" and op: "op1 \<noteq> InsertRange"
    and pr: "params_ok a op1 off n off2 keep s"
  shows "\<exists>s'. run_fsx_op S a fs0 op1 off n off2 keep un s = Some s' \<and> op_step c s s'"
proof -
  obtain ro rn where rd: "trim_off_len off n (file_size s) = (ro, rn)" by fastforce
  obtain wo wn where wr: "trim_off_len off n (maxfilelen s) = (wo, wn)" by fastforce
  have w: "wo + wn \<le> maxfilelen s" by (rule trim_off_len_bound(1)[OF wr])
  have inj: "inject_failure_at (cfg s) = None" and sim: "simulatedopcount (cfg s) < testcalls s"
    using a tc by (simp_all add: sound_args_def)
  have refl: "op_step c s s" using ok f by (simp add: step_defs)
  note steps = doread_step[OF p ok f inj] dowrite_step[OF p ok f w] domapread_step[OF p ok f]
    domapwrite_step[OF p ok f w] dotruncate_step[OF p ok f, of n] do_punch_hole_step[OF p ok f]
    do_preallocate_step[OF p ok f w _ sim, of False] do_zero_range_step[OF p ok f w]
    do_write_zeroes_step[OF p ok f w] do_collapse_range_step[OF p ok f] log4_step[OF ok f] log5_step[OF ok f]
    do_clone_range_step[OF p ok f, of off n off2] do_copy_range_step[OF p ok f, of off n off2]
  show ?thesis
  proof (cases op1)
    case Truncate with pr show ?thesis by (simp add: run_fsx_op_def params_ok_def steps)
  next
    case Fallocate with pr show ?thesis by (simp add: run_fsx_op_def params_ok_def wr steps)
  next
    case CollapseRange then show ?thesis
      by (cases "trim_off_len off n (file_size s - 1)") (simp add: run_fsx_op_def steps Let_def)
  next
    case CloneRange with pr show ?thesis
      by (cases "n = 0 \<or> maxfilelen s < off2 + n") (simp_all add: run_fsx_op_def params_ok_def steps)
  next
    case CopyRange with pr show ?thesis
      by (cases "n = 0 \<or> maxfilelen s < off2 + n") (simp_all add: run_fsx_op_def params_ok_def steps)
  qed (use op refl in \<open>simp_all add: run_fsx_op_def rd wr steps Let_def\<close>)
qed

text \<open>What an iteration leaves alone.\<close>

definition run_frame :: "'k fsx \<Rightarrow> 'k fsx \<Rightarrow> bool" where
  "run_frame s s' \<longleftrightarrow> cfg s' = cfg s \<and> maxfilelen s' = maxfilelen s \<and> enabled s' = enabled s"

lemma sound_frame: "sound_args a s \<Longrightarrow> run_frame s s' \<Longrightarrow> sound_args a s'"
  by (simp add: sound_args_def run_frame_def)

lemma same_state_frame: "same_state s s' \<Longrightarrow> run_frame s s'"
  by (auto simp: same_state_def run_frame_def)

lemma op_step_frame: "op_step c s s' \<Longrightarrow> run_frame s s'"
  by (simp add: op_step_def same_run_def run_frame_def)

lemma run_frame_trans: "run_frame s t \<Longrightarrow> run_frame t u \<Longrightarrow> run_frame s u"
  by (simp add: run_frame_def)

lemma draw_size_state: "draw_size a s = (s', n) \<Longrightarrow> same_state s s' \<and> n \<le> a_oplen a"
  using same_state_rnd[of s]
  by (auto simp: draw_size_def same_state_refl less_Suc_eq_le[symmetric] split: if_splits prod.splits)

lemma draw_closeopen_state:
  assumes "shadow_ok c s"
  shows "shadow_ok c (draw_closeopen a s)" "failure (draw_closeopen a s) = failure s"
    "run_frame s (draw_closeopen a s)" "testcalls (draw_closeopen a s) = testcalls s"
proof -
  obtain s1 r where rn: "rnd s = (s1, r)" by fastforce
  then have st: "same_state s s1" using same_state_rnd[of s] by simp
  note ok1 = same_state_ok[OF st assms]
  show "shadow_ok c (draw_closeopen a s)"
    using ok1 assms rn by (auto simp: draw_closeopen_def shadow_ok_def shape_ok_def log_ok_def shadow_def)
  show "failure (draw_closeopen a s) = failure s" "run_frame s (draw_closeopen a s)"
    "testcalls (draw_closeopen a s) = testcalls s"
    using same_state_fields[OF st] rn by (simp_all add: draw_closeopen_def run_frame_def)
qed

lemma after_checks_step:
  assumes p: "posix_file S c" and st: "op_step c s0 s"
  shows "\<exists>s'. after_checks S a s = Some s' \<and> op_outcome c s' \<and> run_frame s s' \<and> testcalls s' = testcalls s"
proof (cases "failure s = None")
  case False
  with st show ?thesis by (auto simp: after_checks_def op_step_def run_frame_def)
next
  case True
  then have ok: "shadow_ok c s" using st by (auto simp: op_step_def op_outcome_def)
  obtain s1 where s1: "(if a_check_contents a then check_contents S s else Some s) = Some s1" "op_step c s s1"
  proof (cases "a_check_contents a")
    case True
    with check_contents_step[OF p ok \<open>failure s = None\<close>] that show thesis by auto
  next
    case False
    have "op_step c s s" using ok \<open>failure s = None\<close> by (simp add: step_defs)
    with False that show thesis by simp
  qed
  let ?s2 = "if \<not> a_no_size_checks a \<and> failure s1 = None then check_size S s1 else s1"
  have "op_step c s1 ?s2"
  proof (cases "failure s1 = None")
    case True
    then have "shadow_ok c s1" using s1(2) by (auto simp: op_step_def op_outcome_def)
    with True check_size_same[OF p this True] show ?thesis by (auto simp: step_defs)
  next
    case False
    with s1(2) show ?thesis by (auto simp: op_step_def same_run_def)
  qed
  then show ?thesis
    using True s1 by (auto simp: after_checks_def op_step_def same_run_def run_frame_def)
qed

lemma fsx_iteration_step:
  assumes p: "posix_file S c" and ok: "shadow_ok c s" and f: "failure s = None" and a: "sound_args a s"
  shows "\<exists>s'. fsx_iteration S a fs0 s = Some s' \<and> op_outcome c s' \<and> run_frame s s' \<and>
    testcalls s' = Suc (testcalls s)"
proof -
  define s1 where "s1 = draw_closeopen a (s\<lparr>testcalls := testcalls s + 1\<rparr>)"
  have ok0: "shadow_ok c (s\<lparr>testcalls := testcalls s + 1\<rparr>)"
    using ok by (auto simp: shadow_ok_def shape_ok_def log_ok_def shadow_def)
  note s1 = draw_closeopen_state[OF ok0, of a, folded s1_def]
  have fr1: "run_frame s s1" using s1(3) by (simp add: run_frame_def)
  obtain s2 off where d2: "rnd s1 = (s2, off)" by fastforce
  obtain s3 n where d3: "draw_size a s2 = (s3, n)" by fastforce
  obtain s4 rv where d4: "rnd s3 = (s4, rv)" by fastforce
  have st: "same_state s1 s4" and n: "n \<le> a_oplen a"
    using same_state_rnd[of s1] same_state_rnd[of s3] draw_size_state[OF d3] d2 d4
    by (auto intro: same_state_trans)
  have fr4: "run_frame s s4" by (rule run_frame_trans[OF fr1 same_state_frame[OF st]])
  define op1 where "op1 = op_at (rv mod op_max (a_lite a) False)"
  obtain s5 off5 n5 off2 keep un where d5:
    "draw_params a op1 off n s4 = Some (s5, off5, n5, off2, keep, un)" "same_state s4 s5"
    "params_ok a op1 off5 n5 off2 keep s5"
    using draw_params_result[OF sound_frame[OF a fr4] n] by blast
  have st5: "same_state s1 s5" by (rule same_state_trans[OF st d5(2)])
  have fr5: "run_frame s s5" by (rule run_frame_trans[OF fr4 same_state_frame[OF d5(2)]])
  have ok5: "shadow_ok c s5" by (rule same_state_ok[OF st5 s1(1)])
  have f5: "failure s5 = None" and tc5: "testcalls s5 = Suc (testcalls s)"
    using same_state_fields[OF st5] s1(2,4) f by simp_all
  show ?thesis
  proof (cases "\<not> enabled s5 ! op_idx op1 \<and> \<not> always_enabled op1")
    case True
    then have "fsx_iteration S a fs0 s = log5 op1 off5 n5 off2 True s5"
      using d2 d3 d4 d5(1) by (simp add: fsx_iteration_def s1_def[simplified] op1_def Let_def)
    then show ?thesis
      using log5_step[OF ok5 f5, of op1 off5 n5 off2 True] fr5 tc5
      by (auto simp: op_step_def same_run_def run_frame_def)
  next
    case False
    have "op1 \<noteq> InsertRange"
      using False sound_frame[OF a fr5] by (auto simp: sound_args_def always_enabled_def)
    then obtain s6 where r: "run_fsx_op S a fs0 op1 off5 n5 off2 keep un s5 = Some s6" "op_step c s5 s6"
      using run_fsx_op_step[OF p ok5 f5 sound_frame[OF a fr5] _ _ d5(3)] tc5 by auto
    have "fsx_iteration S a fs0 s = after_checks S a s6"
      using d2 d3 d4 d5(1) r(1) False by (auto simp: fsx_iteration_def s1_def[simplified] op1_def Let_def)
    then show ?thesis
      using after_checks_step[OF p r(2), of a] fr5 tc5 op_step_frame[OF r(2)] r(2)
      by (auto simp: run_frame_def op_step_def same_run_def)
  qed
qed

section \<open>The loop\<close>

text \<open>A bounded run on a conforming file ends, and the only failure it can report is the one of a
  system call.\<close>

lemma fsx_loop_sound:
  assumes p: "posix_file S c" and num: "0 \<le> a_numops a"
  shows "op_outcome c s \<Longrightarrow> sound_args a s \<Longrightarrow>
    \<exists>s'. fsx_loop S a fs0 elapsed s = Some s' \<and> op_outcome c s'"
proof (induction "nat (a_numops a - int (testcalls s))" arbitrary: s rule: less_induct)
  case less
  show ?case
  proof (cases "fsx_stop a elapsed s")
    case True
    with less.prems show ?thesis by (simp add: fsx_loop.simps)
  next
    case False
    then have f: "failure s = None" and tc: "int (testcalls s) < a_numops a"
      using num by (auto simp: fsx_stop_def)
    have ok: "shadow_ok c s" using less.prems(1) f by (simp add: op_outcome_def)
    obtain s1 where it: "fsx_iteration S a fs0 s = Some s1" "op_outcome c s1" "run_frame s s1"
      "testcalls s1 = Suc (testcalls s)"
      using fsx_iteration_step[OF p ok f less.prems(2)] by blast
    have "nat (a_numops a - int (testcalls s1)) < nat (a_numops a - int (testcalls s))"
      using it(4) tc by simp
    from less.hyps[OF this it(2) sound_frame[OF less.prems(2) it(3)]]
    show ?thesis using it(1) False by (simp add: fsx_loop.simps[of S a fs0 elapsed s])
  qed
qed

end
