(* ===== verification/Fsx_Reference.thy ===== *)
theory Fsx_Reference
  imports Fsx_Run_Correct
begin

text \<open>
  A regular file kept in memory: the kernel state is the image itself and no call fails. It shows
  that the laws of \<open>posix_file\<close> can hold together, and it is the file on which the closed examples
  of the fsx suite run.
\<close>

definition mem_ops :: "u8 list sysops" where
  "mem_ops = \<lparr>
     sys_pread = (\<lambda>k n off. (k, Inr (take n (drop off k)))),
     sys_pwrite = (\<lambda>k d off. (file_write k off d, Inr (length d))),
     sys_fsync = (\<lambda>k. k),
     sys_ftruncate = (\<lambda>k n. (file_trunc k n, None)),
     sys_fallocate = (\<lambda>k mode off len. (file_fallocate mode k off len, None)),
     sys_punchhole = (\<lambda>k off len. (take (length k) (file_zero k off len), None)),
     sys_mmap = (\<lambda>k w n off. None),
     sys_load = (\<lambda>k pos n. take n (drop pos k)),
     sys_store = (\<lambda>k pos d. take (length k) (file_write k pos d)),
     sys_msync = (\<lambda>k pos n. (k, None)),
     sys_clone = (\<lambda>k src len dst.
        if src + len \<le> length k then (file_write k dst (take len (drop src k)), None) else (k, Some 22)),
     sys_copy = (\<lambda>k src dst len.
        let n = min len (length k - src)
        in if n = 0 then (k, Inr 0) else (file_write k dst (take n (drop src k)), Inr n)),
     sys_fstat = (\<lambda>k. Some (length k)),
     sys_seek_end = (\<lambda>k. int (length k))\<rparr>"

lemma mem_fallocate [simp]: "sys_fallocate mem_ops k mode off len = (file_fallocate mode k off len, None)"
  by (simp add: mem_ops_def)

lemma mem_ftruncate [simp]: "sys_ftruncate mem_ops k n = (file_trunc k n, None)"
  by (simp add: mem_ops_def)

lemma posix_mem: "posix_file mem_ops (\<lambda>k. k)"
  unfolding posix_file_def
proof (intro conjI)
  show "law_pread mem_ops (\<lambda>k. k)"
    by (auto simp: law_pread_def mem_ops_def) (simp add: min_def not_le)?
  show "law_pwrite mem_ops (\<lambda>k. k)" by (auto simp: law_pwrite_def mem_ops_def)
  show "law_ftruncate mem_ops (\<lambda>k. k)" by (auto simp: law_ftruncate_def mem_ops_def)
  show "law_fallocate mem_ops (\<lambda>k. k)" by (auto simp: law_fallocate_def mem_ops_def)
  show "law_mmap mem_ops (\<lambda>k. k)" by (auto simp: law_mmap_def mem_ops_def)
  show "law_clone mem_ops (\<lambda>k. k)" by (auto simp: law_clone_def mem_ops_def split: if_splits)
  show "law_copy mem_ops (\<lambda>k. k)" by (auto simp: law_copy_def mem_ops_def Let_def split: if_splits)
  show "law_stat mem_ops (\<lambda>k. k)" by (auto simp: law_stat_def mem_ops_def)
qed

section \<open>Setting up a run\<close>

lemma probe_fa_empty:
  assumes p: "posix_file S c" and e: "c k = []" and pr: "probe_fa S Linux 0 mode k = Some (k', b)"
  shows "c k' = []"
proof -
  obtain k1 r where fa: "sys_fallocate S k mode 0 1 = (k1, r)" by fastforce
  show ?thesis
  proof (cases r)
    case None
    then obtain k2 where "sys_ftruncate S k1 0 = (k2, None)" "k' = k2"
      using pr fa by (auto simp: probe_fa_def split: prod.splits option.splits)
    then show ?thesis using posix_ftruncate[OF p, of k1 0 k2] by (simp add: file_trunc_def)
  next
    case (Some x)
    then show ?thesis
      using pr fa e posix_fallocate_error[OF p, of k mode 0 1 k1 x] by (auto simp: probe_fa_def)
  qed
qed

lemma probe_clone_empty:
  assumes p: "posix_file S c" and e: "c k = []" and pr: "probe_clone_range S Linux k = Some (k', b)"
  shows "c k' = []"
proof -
  obtain k1 r where cl: "sys_clone S k 0 0 0 = (k1, r)" by fastforce
  have "c k1 = []"
    using e cl posix_clone[OF p, of k 0 0 0 k1] posix_clone_error[OF p, of k 0 0 0 k1]
    by (cases r) (auto simp: file_write_def)
  then show ?thesis using pr cl by (auto simp: probe_clone_range_def split: option.splits)
qed

lemma probe_copy_empty:
  assumes p: "posix_file S c" and e: "c k = []" and pr: "probe_copy_range S Linux k = Some (k', b)"
  shows "c k' = []"
proof -
  obtain k1 r where cp: "sys_copy S k 0 1 1 = (k1, r)" by fastforce
  have "\<forall>n. r = Inr n \<longrightarrow> n = 0"
    using posix_copy(2)[OF p, of k 0 1 1 k1] cp e by fastforce
  then have "c k1 = []" using posix_copy_nothing[OF p cp] e by simp
  then show ?thesis using pr cp by (auto simp: probe_copy_range_def split: sum.splits)
qed

text \<open>Probing keeps the empty file empty, and no probe enables an operation.\<close>

definition probed :: "('k \<Rightarrow> u8 list) \<Rightarrow> 'k \<times> bool list \<Rightarrow> bool" where
  "probed c ke \<longleftrightarrow> c (fst ke) = [] \<and> \<not> snd ke ! op_idx InsertRange"

lemma disable_keeps: "\<not> en ! op_idx o2 \<Longrightarrow> \<not> disable_if b o1 en ! op_idx o2"
  by (cases "op_idx o1 = op_idx o2"; cases "op_idx o2 < length en")
    (auto simp: disable_if_def list_update_beyond)

lemma probe_one_probed:
  assumes "probed c ke" "probe_one Linux o1 p ke = Some ke'"
    and "\<And>k k' b. c k = [] \<Longrightarrow> p k = Some (k', b) \<Longrightarrow> c k' = []"
  shows "probed c ke'"
  using assms
  by (cases ke) (auto simp: probed_def probe_one_def disable_keeps split: if_splits bind_splits)

lemma probe_all_probed:
  assumes p: "posix_file S c" and pr: "probed c ke" and all: "probe_all S Linux 0 ke = Some ke'"
  shows "probed c ke'"
proof -
  note one = probe_one_probed
  note fa = probe_fa_empty[OF p]
  from all obtain k1 k2 k3 k4 k5 k6 k7 where ks:
    "probe_one Linux Fallocate (probe_fa S Linux 0 0) ke = Some k1"
    "probe_one Linux PunchHole (probe_fa S Linux 0 (FALLOC_FL_PUNCH_HOLE OR FALLOC_FL_KEEP_SIZE)) k1 = Some k2"
    "probe_one Linux ZeroRange (probe_fa S Linux 0 FALLOC_FL_ZERO_RANGE) k2 = Some k3"
    "probe_one Linux CollapseRange (probe_fa S Linux 0 FALLOC_FL_COLLAPSE_RANGE) k3 = Some k4"
    "probe_one Linux InsertRange (probe_fa S Linux 0 FALLOC_FL_INSERT_RANGE) k4 = Some k5"
    "probe_one Linux WriteZeroes (probe_fa S Linux 0 FALLOC_FL_WRITE_ZEROES) k5 = Some k6"
    "probe_one Linux CloneRange (probe_clone_range S Linux) k6 = Some k7"
    "probe_one Linux CopyRange (probe_copy_range S Linux) k7 = Some ke'"
    by (auto simp: probe_all_def bind_eq_Some_conv)
  have "probed c k1" by (rule one[OF pr ks(1)]) (rule fa)
  then have "probed c k2" by (rule one[OF _ ks(2)]) (rule fa)
  then have "probed c k3" by (rule one[OF _ ks(3)]) (rule fa)
  then have "probed c k4" by (rule one[OF _ ks(4)]) (rule fa)
  then have "probed c k5" by (rule one[OF _ ks(5)]) (rule fa)
  then have "probed c k6" by (rule one[OF _ ks(6)]) (rule fa)
  then have "probed c k7" by (rule one[OF _ ks(7)]) (rule probe_clone_empty[OF p])
  then show ?thesis by (rule one[OF _ ks(8)]) (rule probe_copy_empty[OF p])
qed

lemma length_draw_bytes [simp]: "length (draw_bytes n g) = n"
  by (induction n arbitrary: g) (auto split: prod.splits)

lemma static_no_insert: "a_no_insert a \<Longrightarrow> \<not> enabled_static a Linux ! op_idx InsertRange"
  by (auto simp: enabled_static_def Let_def intro!: disable_keeps)
     (simp add: disable_if_def op_idx_def numeral_eq_Suc nth_list_update)

lemma fsx_setup_ok:
  assumes p: "posix_file S c" and e: "c k = []" and a: "\<not> a_lite a" "a_no_insert a" and ps: "psize = 2 ^ q"
    and su: "fsx_setup S a Linux psize n k = Some (Inr s)"
  shows "shadow_ok c s \<and> failure s = None \<and> \<not> enabled s ! op_idx InsertRange \<and>
    maxfilelen s = a_flen a \<and> inject_failure_at (cfg s) = a_inject_failure_at a \<and>
    simulatedopcount (cfg s) = a_begin_op a \<and> testcalls s = 0"
proof -
  from su a(1) obtain k' en where
    "probe_all S Linux 0 (k, enabled_static a Linux) = Some (k', en)"
    "s = fsx_initial a Linux psize 0 (a_flen a) k' en"
    by (auto simp: fsx_setup_def bind_eq_Some_conv Let_def)
  moreover from this(1) have "probed c (k', en)"
    by (rule probe_all_probed[OF p, rotated]) (simp add: probed_def e static_no_insert[OF a(2)])
  ultimately show ?thesis
    using ps by (auto simp: probed_def fsx_initial_def shadow_ok_def shape_ok_def log_ok_def shadow_def ring_new)
qed

end
