(* ===== verification/Fsx_Properties.thy ===== *)
theory Fsx_Properties
  imports Fsx_Reference
begin

text \<open>
  The properties of the fsx suite: what a run may report on a conforming file, what a read reports
  on any file, where the shadow buffer departs from a conforming file, and what the operation log
  and the recorded operations hold. Each property has, where it has hypotheses, a witness on a
  concrete state over the in-memory file of Fsx\_Reference.
\<close>

section \<open>A state for the examples\<close>

definition demo_args :: fsx_args where
  "demo_args = \<lparr>a_flen = 64, a_oplen = 16, a_numops = 20, a_seed = 1, a_readbdy = 1, a_writebdy = 1,
     a_truncbdy = 1, a_style = 0, a_closeprob = 0, a_lite = False, a_fixed_oplen = False,
     a_no_mapped_reads = False, a_no_mapped_writes = False, a_no_fallocate = False,
     a_no_keep_size = True, a_no_punch = False, a_no_zero = False, a_no_collapse = False,
     a_no_insert = True, a_no_clone = False, a_no_copy = False, a_no_size_checks = False,
     a_check_contents = True, a_fsync_writes = False, a_pollute_eof = False, a_begin_op = 0,
     a_duration = 0, a_inject_failure_at = None\<rparr>"

text \<open>A state after some operations: a file of \<open>length img\<close> bytes whose shadow holds \<open>img\<close>.\<close>

definition demo_state :: "nat option \<Rightarrow> u8 list \<Rightarrow> u8 list \<Rightarrow> u8 list fsx" where
  "demo_state ij img rest =
     (fsx_initial (demo_args\<lparr>a_inject_failure_at := ij\<rparr>) Linux 4096 (length img) 64 img
        (replicate 14 True))
       \<lparr>good_buf := img @ rest @ replicate (73 - length img - length rest) 0, testcalls := 5\<rparr>"

lemma page_4096: "\<exists>p. (4096::nat) = 2 ^ p"
  by (rule exI[of _ 12]) simp

lemma demo_shape: "length img + length rest \<le> 64 \<Longrightarrow> shape_ok (demo_state ij img rest)"
  using page_4096
  by (simp add: shape_ok_def demo_state_def fsx_initial_def demo_args_def log_ok_def ring_new)

lemma demo_ok: "length img + length rest \<le> 64 \<Longrightarrow> shadow_ok (\<lambda>k. k) (demo_state ij img rest)"
  by (simp add: shadow_ok_def demo_shape) (simp add: demo_state_def fsx_initial_def shadow_def)

lemma demo_fields [simp]:
  "failure (demo_state ij img rest) = None" "file_size (demo_state ij img rest) = length img"
  "testcalls (demo_state ij img rest) = 5" "kern (demo_state ij img rest) = img"
  "maxfilelen (demo_state ij img rest) = 64" "os (demo_state ij img rest) = Linux"
  "cfg (demo_state ij img rest) = \<lparr>readbdy = 1, writebdy = 1, truncbdy = 1, pollute_eof = False,
     do_fsync = False, simulatedopcount = 0, inject_failure_at = ij\<rparr>"
  "good_buf (demo_state ij img rest) = img @ rest @ replicate (73 - length img - length rest) 0"
  by (simp_all add: demo_state_def fsx_initial_def demo_args_def)

lemma align_down_1 [simp]: "align_down off (Suc 0) = off" "align_down off 0 = off"
  by (simp_all add: align_down_def)

section \<open>Runs on a conforming file\<close>

text \<open>When the loop returns, its stopping condition holds: a failure, all operations, or the time.\<close>

lemma fsx_loop_stop:
  assumes "fsx_loop S a fs0 elapsed s = Some s'"
  shows "fsx_stop a elapsed s'"
  by (rule fsx_loop.raw_induct[where P = "\<lambda>S a fs0 elapsed s s'. fsx_stop a elapsed s'", OF _ assms])
     (auto split: if_splits bind_splits)

text \<open>
  C1: A run of the suite on an empty file that behaves as POSIX and fallocate(2) document never gives
  a false alarm. For every seed, boundary and probability option, and for any kernel state type, the
  run ends when the failure is set, the operations are used up or the time is over, and at its end
  either no failure was reported and the shadow buffer equals the file byte for byte and in length,
  or the report is that of a failed system call. The excluded options (keep-size preallocation,
  insert range, lite runs, injected failures, skipped operations) are those where the properties
  below show that the suite itself departs from the file.
\<close>

theorem run_on_conforming_file:
  assumes "posix_file S c" "c k = []"
    and "\<not> a_lite a" "a_no_insert a" "a_no_keep_size a" "a_inject_failure_at a = None" "a_begin_op a = 0"
    and "0 < a_flen a" "a_style a = 0 \<or> a_oplen a \<le> a_flen a" "0 \<le> a_numops a" "psize = 2 ^ q"
    and "fsx_setup S a Linux psize n k = Some (Inr s)"
  shows "\<exists>s'. fsx_loop S a fs0 elapsed s = Some s' \<and> fsx_stop a elapsed s' \<and>
    (failure s' = None \<and> c (kern s') = shadow s' \<or> (\<exists>m. failure s' = Some (SysFail m)))"
proof -
  note s = fsx_setup_ok[OF assms(1,2,3,4,11,12)]
  have "op_outcome c s" using s by (simp add: op_outcome_def)
  moreover have "sound_args a s" using s assms(5-9) by (auto simp: sound_args_def)
  ultimately obtain s' where "fsx_loop S a fs0 elapsed s = Some s'" "op_outcome c s'"
    using fsx_loop_sound[OF assms(1,10)] by blast
  then show ?thesis using fsx_loop_stop by (auto simp: op_outcome_def shadow_ok_def)
qed

lemma bind_total: "\<exists>x. m = Some x \<Longrightarrow> (\<And>x. \<exists>y. f x = Some y) \<Longrightarrow> \<exists>y. Option.bind m f = Some y"
  by auto

lemma probe_one_total: "(\<And>k. \<exists>r. p k = Some r) \<Longrightarrow> \<exists>ke'. probe_one plat o1 p ke = Some ke'"
  by (cases ke; drule meta_spec[where x = "fst ke"]) (auto simp: probe_one_def)

lemma probe_mem:
  "\<exists>r. probe_fa mem_ops plat n m k = Some r" "\<exists>r. probe_clone_range mem_ops plat k = Some r"
  "\<exists>r. probe_copy_range mem_ops plat k = Some r"
  by (auto simp: probe_fa_def probe_clone_range_def probe_copy_range_def split: prod.splits option.splits sum.splits)

lemma demo_setup: "\<exists>s. fsx_setup mem_ops demo_args Linux 4096 0 [] = Some (Inr s)"
proof -
  have "\<exists>ke. probe_all mem_ops Linux 0 ([], enabled_static demo_args Linux) = Some ke"
    unfolding probe_all_def by (intro bind_total probe_one_total probe_mem)
  then show ?thesis by (auto simp: fsx_setup_def demo_args_def)
qed

theorem run_on_conforming_file_witness:
  "\<exists>s s'. fsx_setup mem_ops demo_args Linux 4096 0 [] = Some (Inr s) \<and>
     fsx_loop mem_ops demo_args 0 (\<lambda>n. n) s = Some s' \<and>
     (failure s' = None \<and> kern s' = shadow s' \<or> (\<exists>m. failure s' = Some (SysFail m)))"
proof -
  obtain s where s: "fsx_setup mem_ops demo_args Linux 4096 0 [] = Some (Inr s)" using demo_setup by blast
  have q: "(4096::nat) = 2 ^ 12" by simp
  show ?thesis
    using run_on_conforming_file[OF posix_mem _ _ _ _ _ _ _ _ _ q s, of 0 "\<lambda>n. n"] s
    by (auto simp: demo_args_def)
qed

section \<open>What a read reports on any file\<close>

lemma log4_obtain_frame:
  assumes "log_ok s"
  obtains r p n where "log4 o1 a b sk s = Some (s\<lparr>log_ring := r, logptr := p, logcount := n\<rparr>)"
  using log4_frame[OF assms] by blast

lemma flip8_take: "length xs = n \<Longrightarrow> take n (flip8 xs) = flip8 xs"
  by (simp add: flip8_def)

lemma doread_outcome:
  assumes sh: "shape_ok s" and f: "failure s = None" and off: "off = align_down off0 (readbdy (cfg s))"
    and n: "0 < n" "off + n \<le> file_size s"
    and rd: "pread_all S (kern s) n off [] = (k', Some tmp)" "length tmp = n"
    and seen: "seen = (if inject_failure_at (cfg s) = Some (testcalls s) \<and> 8 < n then flip8 tmp else tmp)"
    and want: "want = take n (drop off (good_buf s))"
  shows "\<exists>s'. doread S off0 n s = Some s' \<and> kern s' = k' \<and> good_buf s' = good_buf s \<and>
     failure s' = (if seen = want then None else Some (ReadBad off n (count_diff seen want)))"
proof -
  obtain r p m where l: "log4 Read off n False s = Some (s\<lparr>log_ring := r, logptr := p, logcount := m\<rparr>)"
    using log4_obtain_frame sh unfolding shape_ok_def by metis
  have "off + n \<le> length (good_buf s)" using sh n by (simp add: shape_ok_def)
  moreover have "length seen = n" using rd seen by (simp add: flip8_def)
  ultimately show ?thesis
    using n rd f l seen want
    by (cases "seen = want") (auto simp: doread_def off[symmetric] check_buffers_def fail_def Let_def)
qed

text \<open>
  C2: A read finds every corruption of the range it reads. On any file, conforming or not, and for
  any bytes the kernel returns, a read of \<open>n > 0\<close> bytes within the file reports ReadBad exactly when
  the bytes differ from the shadow buffer, and the count in the report is the number of positions
  that differ; the shadow buffer is left as it was.
\<close>

theorem read_reports_difference:
  assumes "shape_ok s" "failure s = None" "inject_failure_at (cfg s) = None"
    and "off = align_down off0 (readbdy (cfg s))" "0 < n" "off + n \<le> file_size s"
    and "pread_all S (kern s) n off [] = (k', Some tmp)" "length tmp = n"
    and "want = take n (drop off (good_buf s))"
  shows "\<exists>s'. doread S off0 n s = Some s' \<and> kern s' = k' \<and> good_buf s' = good_buf s \<and>
     failure s' = (if tmp = want then None else Some (ReadBad off n (count_diff tmp want)))"
  using doread_outcome[OF assms(1,2,4-8) _ assms(9), of tmp] assms(3) by simp

theorem read_reports_difference_witness:
  "\<exists>s'. doread mem_ops 1 3 ((demo_state None [1, 2, 3, 4] [])\<lparr>kern := [1, 2, 9, 7]\<rparr>) = Some s' \<and>
     failure s' = Some (ReadBad 1 3 2)"
proof -
  let ?s = "(demo_state None [1, 2, 3, 4] [])\<lparr>kern := [1, 2, 9, 7]\<rparr>"
  have sh: "shape_ok ?s" using demo_shape[of "[1, 2, 3, 4]" "[]" None] by (simp add: shape_ok_def log_ok_def)
  have rd: "pread_all mem_ops (kern ?s) 3 1 [] = ([1, 2, 9, 7], Some [2, 9, 7])"
    by (simp add: pread_all.simps mem_ops_def)
  show ?thesis
    using read_reports_difference[OF sh _ _ _ _ _ rd _ refl, of 1]
    by (auto simp: align_down_def count_diff_def)
qed

lemma flip8_byte: "(x::u8) XOR 0xff \<noteq> x"
proof
  assume "x XOR 0xff = x"
  then have "(x XOR x) XOR 0xff = x XOR x" by (metis xor.assoc)
  then show False by simp
qed

lemma count_diff_update:
  "i < length xs \<Longrightarrow> v \<noteq> xs ! i \<Longrightarrow> count_diff (xs[i := v]) xs = 1"
proof (induction xs arbitrary: i)
  case (Cons x xs)
  have "count_diff xs xs = 0" by (simp add: count_diff_0_iff)
  with Cons show ?case by (cases i) (auto simp: count_diff_def)
qed simp

text \<open>
  The injected failure works: on a conforming file, the read whose operation number is the one
  asked for with inject-failure-at reports exactly one differing byte, when it reads more than eight
  bytes within the file and succeeds. So the detection path of the suite can be tested.
\<close>

theorem injected_failure_reported:
  assumes "posix_file S c" "shadow_ok c s" "failure s = None"
    and "inject_failure_at (cfg s) = Some (testcalls s)" "8 < n"
    and "off = align_down off0 (readbdy (cfg s))" "off + n \<le> file_size s"
    and "pread_all S (kern s) n off [] = (k', Some tmp)"
  shows "\<exists>s'. doread S off0 n s = Some s' \<and> failure s' = Some (ReadBad off n 1)"
proof -
  have sh: "shape_ok s" using assms(2) by (simp add: shadow_ok_def)
  have tmp: "tmp = take n (drop off (good_buf s))" "length tmp = n"
    using pread_all_posix[OF assms(1,8)] shadow_kern[OF assms(2)] assms(7) by (auto simp: drop_take min_def)
  have d: "count_diff (flip8 tmp) tmp = 1"
    unfolding flip8_def using assms(5) tmp(2) by (intro count_diff_update flip8_byte) simp
  then have "flip8 tmp \<noteq> tmp" using count_diff_0_iff[of "flip8 tmp" tmp] by (auto simp: flip8_def)
  with doread_outcome[OF sh assms(3,6) _ assms(7,8) tmp(2) refl tmp(1)] d assms(4,5) show ?thesis by auto
qed

theorem injected_failure_reported_witness:
  "\<exists>s'. doread mem_ops 0 9 (demo_state (Some 5) [1, 2, 3, 4, 5, 6, 7, 8, 9] []) = Some s' \<and>
     failure s' = Some (ReadBad 0 9 1)"
proof -
  let ?s = "demo_state (Some 5) [1, 2, 3, 4, 5, 6, 7, 8, 9] []"
  have rd: "pread_all mem_ops (kern ?s) 9 0 [] = ([1, 2, 3, 4, 5, 6, 7, 8, 9], Some [1, 2, 3, 4, 5, 6, 7, 8, 9])"
    by (simp add: pread_all.simps mem_ops_def)
  show ?thesis
    using injected_failure_reported[OF posix_mem demo_ok _ _ _ _ _ rd, of 0] by simp
qed

lemma check_buffers_failure:
  assumes "check_buffers buf off n s = Some s'" "failure s = None"
  shows "failure s' = None \<or> (\<exists>c. failure s' = Some (ReadBad off n c))"
proof -
  obtain b g where "rslice buf 0 n = Some b" "rslice (good_buf s) off (off + n) = Some g"
    using assms(1) by (auto simp: check_buffers_def split: bind_splits)
  with assms show ?thesis by (cases "b = g") (auto simp: check_buffers_def fail_def Let_def)
qed

text \<open>
  The mapped read never reports non-zero data past EOF, whatever the mapping shows: the range it
  scans ends at the end of the requested bytes, which the guard keeps within the file, so no byte
  past EOF is ever looked at.
\<close>

theorem mapped_read_past_eof_check_dead:
  assumes "log_ok s" "failure s = None" "domapread S off0 n s = Some s'"
  shows "failure s' \<noteq> Some (NonZeroPastEof i b)"
proof -
  define off where "off = align_down off0 (readbdy (cfg s))"
  show ?thesis
  proof (cases "n = 0 \<or> file_size s < off + n")
    case True
    obtain r p m where "log4 MapRead off n True s = Some (s\<lparr>log_ring := r, logptr := p, logcount := m\<rparr>)"
      by (rule log4_obtain_frame[OF assms(1)])
    with True assms(2,3) show ?thesis by (auto simp: domapread_def off_def[symmetric] Let_def)
  next
    case False
    obtain r p m where l: "log4 MapRead off n False s = Some (s\<lparr>log_ring := r, logptr := p, logcount := m\<rparr>)"
      by (rule log4_obtain_frame[OF assms(1)])
    define s1 where "s1 = s\<lparr>log_ring := r, logptr := p, logcount := m\<rparr>"
    have dead: "past_eof_byte s1 (off - (off AND page_mask s1)) ((off AND page_mask s1) + n) n w = None" for w
      by (rule past_eof_byte_None[where fs = "file_size s"]) (use False in \<open>simp_all add: s1_def\<close>)
    have f: "failure s1 = None" using assms(2) by (simp add: s1_def)
    let ?mm = "sys_mmap S (kern s1) False ((off AND page_mask s1) + n) (off - (off AND page_mask s1))"
    let ?m = "sys_load S (kern s1) (off - (off AND page_mask s1)) ((off AND page_mask s1) + n)"
    have "domapread S off0 n s =
        (if ?mm \<noteq> None then Some (fail (SysFail ''domapread: mmap'') s1)
         else check_buffers (take n (drop (off AND page_mask s1) ?m)) off n s1)"
      using False l by (simp add: domapread_def off_def[symmetric] s1_def[symmetric] Let_def dead)
    then have "s' = fail (SysFail ''domapread: mmap'') s1 \<or>
        check_buffers (take n (drop (off AND page_mask s1) ?m)) off n s1 = Some s'"
      using assms(3) by (cases "?mm = None") simp_all
    then show ?thesis
    proof (elim disjE)
      assume "s' = fail (SysFail ''domapread: mmap'') s1"
      then show ?thesis by (simp add: fail_def f)
    next
      assume "check_buffers (take n (drop (off AND page_mask s1) ?m)) off n s1 = Some s'"
      from check_buffers_failure[OF this f] show ?thesis by (elim disjE exE) simp_all
    qed
  qed
qed

theorem mapped_read_past_eof_check_dead_witness:
  "\<exists>s'. domapread mem_ops 1 2 (demo_state None [1, 2, 3] [7]) = Some s' \<and>
     failure s' \<noteq> Some (NonZeroPastEof 3 7)"
proof -
  have ok: "shadow_ok (\<lambda>k. k) (demo_state None [1, 2, 3] [7])" by (rule demo_ok) simp
  then obtain s' where "domapread mem_ops 1 2 (demo_state None [1, 2, 3] [7]) = Some s'"
    using domapread_step[OF posix_mem ok] by auto
  moreover have "log_ok (demo_state None [1, 2, 3] [7])" using ok by (simp add: shadow_ok_def shape_ok_def)
  ultimately show ?thesis using mapped_read_past_eof_check_dead by fastforce
qed

section \<open>Where the suite departs from a conforming file\<close>

text \<open>
  A keep-size preallocation beyond EOF makes the suite report a size error against a correct file
  system. The file keeps its size, as fallocate(2) documents, but the model size of the suite grows to
  the end of the preallocated range, so the size check that follows the operation fails.
\<close>

theorem keep_size_preallocation_size_error:
  assumes "posix_file S c" "shadow_ok c s" "failure s = None" "simulatedopcount (cfg s) < testcalls s"
    and "0 < n" "file_size s < off + n" "off + n \<le> maxfilelen s"
    and "sys_fallocate S (kern s)
           (FALLOC_FL_KEEP_SIZE OR (if un then FALLOC_FL_UNSHARE_RANGE else 0)) off n = (k', None)"
    and "sys_fstat S k' = Some m"
  shows "\<exists>s'. do_preallocate S off n True un s = Some s' \<and> failure s' = None \<and>
     length (c (kern s')) = file_size s \<and>
     failure (check_size S s') = Some (SizeError (off + n) (file_size s) (int (file_size s)))"
proof -
  have "shadow_ok c (raise_biggest 0 s)" using assms(2) by (simp add: shadow_ok_raise)
  then obtain s1 where l: "log4 Fallocate off n False (raise_biggest 0 s) = Some s1" "shadow_ok c s1"
    "same_run (raise_biggest 0 s) s1" "file_size s1 = file_size s" "kern s1 = kern s" "failure s1 = None"
    using log4_obtain[of c "raise_biggest 0 s" Fallocate off n False] assms(3) by (metis raise_fields)
  have run: "os s1 = Linux" "testcalls s1 = testcalls s" "cfg s1 = cfg s" "maxfilelen s1 = maxfilelen s"
    using l(2,3) by (simp_all add: shadow_ok_def shape_ok_def same_run_def)
  have sz: "off + n \<le> length (good_buf s1)" using shadow_sizes(2)[OF l(2)] run(4) assms(7) by simp
  have mn: "min off (maxfilelen s) = off" "min n (maxfilelen s - off) = n" using assms(7) by simp_all
  have k': "c k' = c (kern s)" "length (c (kern s)) = file_size s"
    using posix_fallocate[OF assms(1,8)] preallocate_image[of True un] shadow_sizes(4)[OF assms(2)] by simp_all
  have m: "m = file_size s" "sys_seek_end S k' = int (file_size s)"
    using posix_fstat[OF assms(1,9)] posix_seek_end[OF assms(1), of k'] k' by simp_all
  obtain b where "do_preallocate S off n True un s = Some (s1\<lparr>good_buf := b, file_size := off + n, kern := k'\<rparr>)"
    using assms(4-6,8) sz l run by (auto simp: do_preallocate_def mn update_file_size_eq fallocate_call_def Let_def)
  with l(6) k' m assms(6,9) show ?thesis by (auto simp: check_size_def fail_def)
qed

theorem keep_size_preallocation_size_error_witness:
  "\<exists>s'. do_preallocate mem_ops 8 8 True False (demo_state None [1, 2, 3] []) = Some s' \<and>
     failure (check_size mem_ops s') = Some (SizeError 16 3 3)"
  using keep_size_preallocation_size_error[OF posix_mem demo_ok, of "[1, 2, 3]" "[]" None 8 8 False "[1, 2, 3]" 3]
  by (auto simp: mem_ops_def mode_bits file_fallocate_def falloc_flags)

text \<open>The shadow buffer after \<open>do_insert_range\<close>.\<close>

lemma insert_shadow:
  assumes "off + len \<le> fs" "fs + len \<le> length g"
  shows "take (fs + len) (overlay (overlay g (off + len) (take (fs - len - off) (drop off g))) off (replicate len 0))
    = take off g @ replicate len 0 @ take (fs - len - off) (drop off g) @ take len (drop fs g)"
  using assms by (intro nth_equalityI) (auto simp: buf_simps nth_append)

text \<open>
  After a successful insert-range on a conforming file the shadow buffer has lost the last
  \<open>len\<close> bytes of the file. The file is the old one with \<open>len\<close> zero bytes inserted at the offset; the
  shadow has the same length but moves only the bytes up to \<open>file_size - len\<close>, so its last \<open>len\<close>
  bytes are what the buffer held past the old EOF. The two agree exactly when those stale bytes
  happen to be the old end of the file.
\<close>

theorem insert_range_loses_tail:
  assumes "posix_file S c" "shadow_ok c s" "failure s = None" "\<not> pollute_eof (cfg s)"
    and "0 < len" "off + len \<le> file_size s" "file_size s + len \<le> maxfilelen s"
    and "sys_fallocate S (kern s) FALLOC_FL_INSERT_RANGE off len = (k', None)"
  shows "\<exists>s'. do_insert_range S off len s = Some s' \<and> failure s' = None \<and>
     c (kern s') = take off (shadow s) @ replicate len 0 @ drop off (shadow s) \<and>
     shadow s' = take off (shadow s) @ replicate len 0 @ drop off (take (file_size s - len) (shadow s))
       @ take len (drop (file_size s) (good_buf s)) \<and>
     (c (kern s') = shadow s' \<longleftrightarrow>
        drop (file_size s - len) (shadow s) = take len (drop (file_size s) (good_buf s)))"
proof -
  let ?fs = "file_size s" and ?g = "good_buf s"
  obtain s1 where l: "log4 InsertRange off len False s = Some s1" "shadow_ok c s1" "same_run s s1"
    "file_size s1 = ?fs" "good_buf s1 = ?g" "kern s1 = kern s" "failure s1 = failure s"
    using log4_obtain[OF assms(2)] by metis
  have sz: "?fs + len \<le> length ?g" using shadow_sizes(2)[OF assms(2)] assms(7) by simp
  have pol: "pollute_eofpage S (maxfilelen s1) s1 = Some s1"
    using assms(4) l(3) by (simp add: pollute_eofpage_def same_run_def)
  have os: "os s1 = Linux" using l(2) by (simp add: shadow_ok_def shape_ok_def)
  let ?b = "overlay (overlay ?g (off + len) (take (?fs - len - off) (drop off ?g))) off (replicate len 0)"
  have "\<not> (len = 0 \<or> ?fs \<le> off)" using assms(5,6) by simp
  then have run: "do_insert_range S off len s = Some (s1\<lparr>kern := k', good_buf := ?b, file_size := ?fs + len\<rparr>)"
    using l pol os assms(6,8) sz by (simp add: do_insert_range_def fallocate_call_def Let_def)
  have img: "c k' = take off (shadow s) @ replicate len 0 @ drop off (shadow s)"
    using posix_fallocate[OF assms(1,8)] shadow_kern[OF assms(2)] by (simp add: fallocate_images shadow_def)
  have sh: "take (?fs + len) ?b = take off (shadow s) @ replicate len 0 @ drop off (take (?fs - len) (shadow s))
       @ take len (drop ?fs ?g)"
    using insert_shadow[OF assms(6) sz] assms(6) by (simp add: shadow_def drop_take min_def)
  have "drop off (shadow s) = drop off (take (?fs - len) (shadow s)) @ drop (?fs - len) (shadow s)"
    using assms(6) by (metis append_take_drop_id drop_append diff_is_0_eq drop_0 length_take sz
        add_leD1 add_le_imp_le_diff length_drop min.absorb2 shadow_def diff_le_self)
  then have "c k' = take (?fs + len) ?b \<longleftrightarrow> drop (?fs - len) (shadow s) = take len (drop ?fs ?g)"
    unfolding img sh by simp
  with run img sh l(7) assms(3) show ?thesis by (simp add: shadow_def)
qed

theorem insert_range_loses_tail_witness:
  "\<exists>s'. do_insert_range mem_ops 0 1 (demo_state None [1, 2, 3] []) = Some s' \<and>
     kern s' = [0, 1, 2, 3] \<and> shadow s' = [0, 1, 2, 0]"
  using insert_range_loses_tail[OF posix_mem demo_ok, of "[1, 2, 3]" "[]" None 1 0 "[0, 1, 2, 3]"]
  by (auto simp: shadow_def fallocate_images)

text \<open>
  C3: The source and the destination of a copy or clone are in range and never overlap: the source
  range lies within the file, and whenever a length is left, the destination lies within the
  maximal length and is disjoint from the source. At most 29 destinations are tried; if none fits the length is 0.
\<close>

theorem copy_ranges_disjoint:
  assumes "gen_dest_range al m src0 n0 dst s = (s', src, n, d)"
  shows "src + n \<le> file_size s \<and> (n = 0 \<or> (d + n \<le> m \<and> (d + n \<le> src \<or> src + n \<le> d))) \<and>
    file_size s' = file_size s \<and> good_buf s' = good_buf s"
  using gen_dest_range_result[OF assms] by (auto simp: same_state_def)

theorem copy_ranges_disjoint_witness:
  "\<exists>s' src n d. gen_dest_range True 64 3 9 0 (demo_state None [1, 2, 3, 4] []) = (s', src, n, d) \<and>
     (n = 0 \<or> (d + n \<le> 64 \<and> (d + n \<le> src \<or> src + n \<le> d)))"
proof -
  obtain s' src n d where g: "gen_dest_range True 64 3 9 0 (demo_state None [1, 2, 3, 4] []) = (s', src, n, d)"
    by (rule prod_cases4)
  with copy_ranges_disjoint[OF g] show ?thesis by blast
qed

end
