(* ===== verification/Fsx_Log_Properties.thy ===== *)
theory Fsx_Log_Properties
  imports Fsx_Log
begin

text \<open>
  What the operation log of the fsx suite keeps, and how its dump reads back as a list of recorded
  operations: the entries of operations that ran round-trip, the dump as a whole is rejected.
\<close>

section \<open>Tokens of a line\<close>

lemma replay_arg_hex:
  assumes "n < 2 ^ 64"
  shows "replay_arg (''0x'' @ hex_str n) = n"
proof -
  have "\<not> starts_with ''0x'' (hex_str n)"
    using digits_plain[of 16 "CHR ''x''" n] by (auto simp: starts_with_iff hex_str_def)
  then have "trim_start_matches ''0x'' (hex_str n) = hex_str n"
    by (simp add: trim_start_matches.simps)
  then have "trim_start_matches ''0x'' (''0x'' @ hex_str n) = hex_str n"
    by (simp add: trim_start_matches.simps[of "''0x''" "CHR ''0'' # CHR ''x'' # hex_str n"] starts_with_def)
  with assms show ?thesis by (simp add: replay_arg_def parse_hex64_hex_str)
qed

lemma dec_plain: "c \<in> set (dec_str n) \<Longrightarrow> \<not> is_ws c \<and> c \<notin> set ''x:#sk,X+-''"
  by (rule digits_plain[of 10]) (simp_all add: dec_str_def)

lemma hex_plain: "c \<in> set (hex_str n) \<Longrightarrow> \<not> is_ws c \<and> c \<notin> set ''x:#sk,X+-''"
  by (rule digits_plain[of 16]) (simp_all add: hex_str_def)

lemma dec_str_nonempty [simp]: "dec_str n \<noteq> []" and hex_str_nonempty [simp]: "hex_str n \<noteq> []"
  by (simp_all add: dec_str_def hex_str_def digits_of_nonempty)

lemma not_ws_literals:
  "\<not> is_ws (CHR '':'')" "\<not> is_ws (CHR ''0'')" "\<not> is_ws (CHR ''x'')" "\<not> is_ws (CHR ''e'')"
  "\<not> is_ws (CHR ''n'')" "\<not> is_ws (CHR ''L'')" "is_ws (CHR '' '')"
  by (simp_all add: is_ws_def)

lemma entry_tokens:
  "token (dec_str n @ '':'')" "token (op_name o1)" "token (''0x'' @ hex_str a)"
  using dec_plain hex_plain op_name_no_ws by (auto simp: not_ws_literals)

lemma flag_tokens: "token ''keep_size''" "token ''unshare''" "token ''close_open''"
  by (simp_all add: is_ws_def)

section \<open>Entries read back\<close>

definition flag_toks :: "log_entry \<Rightarrow> string list" where
  "flag_toks le = (if le_keep_size le then [''keep_size''] else []) @
     (if le_unshare le then [''unshare''] else []) @ (if le_close_open le then [''close_open''] else [])"

definition flag_text :: "log_entry \<Rightarrow> string" where
  "flag_text le = flag_str (le_keep_size le) ''keep_size'' @ flag_str (le_unshare le) ''unshare''
     @ flag_str (le_close_open le) ''close_open''"

lemma split_flags:
  assumes "token t"
  shows "split_ws (t @ flag_text le) = t # flag_toks le"
proof -
  note one = split_ws_single[OF assms] and cons = split_ws_cons[OF assms]
  note k = split_ws_cons[OF flag_tokens(1), unfolded append.simps] split_ws_single[OF flag_tokens(1)]
  note u = split_ws_cons[OF flag_tokens(2), unfolded append.simps] split_ws_single[OF flag_tokens(2)]
  note c = split_ws_single[OF flag_tokens(3)]
  show ?thesis
    by (cases "le_keep_size le"; cases "le_unshare le"; cases "le_close_open le")
       (simp_all add: flag_text_def flag_toks_def flag_str_def one cons k u c)
qed

lemma entry_line_tokens:
  assumes "\<not> le_skipped le" "le_args le = (a0, a1, a2)"
  shows "split_ws (entry_line n le) =
    [dec_str n @ '':'', op_name (le_op le), ''0x'' @ hex_str a0, ''0x'' @ hex_str a1, ''0x'' @ hex_str a2]
      @ flag_toks le"
proof -
  have l: "entry_line n le = (dec_str n @ '':'') @ CHR '' '' # op_name (le_op le) @ CHR '' '' #
      (''0x'' @ hex_str a0) @ CHR '' '' # (''0x'' @ hex_str a1) @ CHR '' '' # (''0x'' @ hex_str a2) @ flag_text le"
    using assms by (simp add: entry_line_def flag_text_def)
  show ?thesis
    unfolding l split_ws_cons[OF entry_tokens(1)] split_ws_cons[OF entry_tokens(2)]
      split_ws_cons[OF entry_tokens(3)] split_flags[OF entry_tokens(3)] by simp
qed

lemma last_flag_text:
  "t \<noteq> [] \<Longrightarrow> \<not> is_ws (last t) \<Longrightarrow> \<not> is_ws (last (t @ flag_text le))"
  by (auto simp: flag_text_def flag_str_def not_ws_literals)

lemma entry_line_trim:
  assumes "\<not> le_skipped le"
  shows "trim (entry_line n le) = entry_line n le" "entry_line n le \<noteq> []" "hd (entry_line n le) \<noteq> CHR ''#''"
proof -
  obtain a0 a1 a2 where a: "le_args le = (a0, a1, a2)" by (rule prod_cases3)
  have l: "entry_line n le = dec_str n @ ('': '' @ op_name (le_op le) @ '' 0x'' @ hex_str a0 @ '' 0x''
      @ hex_str a1 @ '' 0x'') @ hex_str a2 @ flag_text le"
    using assms a by (simp add: entry_line_def flag_text_def)
  have h: "hd (entry_line n le) = hd (dec_str n)" unfolding l by simp
  have hd: "hd (dec_str n) \<in> set (dec_str n)" by (rule hd_in_set) simp
  from dec_plain[OF hd] show "hd (entry_line n le) \<noteq> CHR ''#''" unfolding h by auto
  show ne: "entry_line n le \<noteq> []" unfolding l by simp
  have "last (entry_line n le) = last (hex_str a2 @ flag_text le)" unfolding l by simp
  moreover have "\<not> is_ws (last (hex_str a2))" using hex_plain[OF last_in_set[OF hex_str_nonempty]] by simp
  ultimately have "\<not> is_ws (last (entry_line n le))" using last_flag_text[of "hex_str a2"] by simp
  moreover have "\<not> is_ws (hd (entry_line n le))" using dec_plain[OF hd] h by simp
  ultimately show "trim (entry_line n le) = entry_line n le" by (intro trim_id ne)
qed

text \<open>
  C5: Every logged operation that ran reads back as itself: the line that the dump prints for it parses as a
  recorded operation with the same operation, the same three arguments and the same keep-size mark,
  not skipped, for arguments below 2 ^ 64.
\<close>

theorem logged_operation_reads_back:
  assumes "\<not> le_skipped le" "le_args le = (a0, a1, a2)" "a0 < 2 ^ 64" "a1 < 2 ^ 64" "a2 < 2 ^ 64"
  shows "replay_line_of (entry_line n le) = Replay (le_op le) (a0, a1, a2) False (le_keep_size le)"
proof -
  have "dec_str n @ '':'' \<noteq> ''skip''"
    using dec_plain[of "CHR ''s''" n] by (cases "dec_str n") auto
  moreover have "(\<exists>t \<in> set (flag_toks le). t = ''keep_size'') \<longleftrightarrow> le_keep_size le"
    by (auto simp: flag_toks_def)
  moreover have "replay_arg (''0x'' @ hex_str x) = x" if "x \<in> {a0, a1, a2}" for x
    using that assms(3-5) by (auto intro: replay_arg_hex[simplified])
  ultimately have "replay_tokens (split_ws (entry_line n le)) =
      Replay (le_op le) (a0, a1, a2) False (le_keep_size le)"
    unfolding entry_line_tokens[OF assms(1,2)]
    by (simp add: replay_tokens_def op_of_name_op_name next_tok_def Let_def)
  with entry_line_trim[OF assms(1)] show ?thesis by (simp add: replay_line_of_def Let_def)
qed

theorem logged_operation_reads_back_witness:
  "replay_line_of (entry_line 7 \<lparr>le_op = Truncate, le_args = (0, 4096, 16), le_skipped = False,
     le_keep_size = False, le_unshare = True, le_close_open = False\<rparr>) = Replay Truncate (0, 4096, 16) False False"
  using logged_operation_reads_back[of "\<lparr>le_op = Truncate, le_args = (0, 4096, 16), le_skipped = False,
     le_keep_size = False, le_unshare = True, le_close_open = False\<rparr>" 0 4096 16 7] by simp

text \<open>
  A recorded line in the form that the comment of \<open>load_replay\<close> shows, an operation name followed
  by its arguments, is rejected: the name is consumed as the first token and the first argument is
  looked up as an operation name.
\<close>

theorem documented_format_rejected:
  "replay_line_of (op_name o1 @ '' 0x'' @ hex_str a @ '' 0x'' @ hex_str b) = UnknownOp (''0x'' @ hex_str a)"
proof -
  let ?l = "op_name o1 @ '' 0x'' @ hex_str a @ '' 0x'' @ hex_str b"
  have l: "?l = op_name o1 @ CHR '' '' # (''0x'' @ hex_str a) @ CHR '' '' # (''0x'' @ hex_str b)" by simp
  have t: "split_ws ?l = [op_name o1, ''0x'' @ hex_str a, ''0x'' @ hex_str b]"
    unfolding l split_ws_cons[OF entry_tokens(2)] split_ws_cons[OF entry_tokens(3)]
      split_ws_single[OF entry_tokens(3)] by simp
  have h: "hd (op_name o1) \<in> set (op_name o1)" using op_name_no_ws[of o1] by simp
  have "\<not> is_ws (hd ?l)" "?l \<noteq> []" using op_name_no_ws[of o1] h by simp_all
  moreover have "\<not> is_ws (last ?l)" using hex_plain[OF last_in_set[OF hex_str_nonempty]] by simp
  ultimately have "trim ?l = ?l" by (intro trim_id)
  moreover have "hd ?l \<noteq> CHR ''#''" by (cases o1) (simp_all add: op_name_def OP_NAMES_def)
  moreover have "op_of_name (''0x'' @ hex_str a) = None" by (simp add: op_of_name_def OP_NAMES_def)
  ultimately show ?thesis using \<open>?l \<noteq> []\<close> t by (simp add: replay_line_of_def replay_tokens_def Let_def)
qed

section \<open>The whole dump\<close>

lemma dump_header_tokens:
  "\<exists>r. split_ws (dump_header n) = ''LOG'' # ''DUMP'' # r"
proof -
  have t: "token ''LOG''" "token ''DUMP''" by (simp_all add: is_ws_def)
  have l: "dump_header n = ''LOG'' @ CHR '' '' # ''DUMP'' @ CHR '' '' #
      (''('' @ dec_str n @ '' total operations):'')"
    by (simp add: dump_header_def)
  show ?thesis unfolding l split_ws_cons[OF t(1)] split_ws_cons[OF t(2)] by blast
qed

lemma dump_header_unknown: "replay_line_of (dump_header n) = UnknownOp ''DUMP''"
proof -
  have "trim (dump_header n) = dump_header n"
    by (rule trim_id) (simp_all add: dump_header_def is_ws_def)
  moreover have "op_of_name ''DUMP'' = None" by (simp add: op_of_name_def OP_NAMES_def)
  ultimately show ?thesis
    using dump_header_tokens[of n] by (auto simp: replay_line_of_def replay_tokens_def dump_header_def)
qed

lemma lines_first:
  assumes "LF \<notin> set p" "p \<noteq> []" "last p \<noteq> CR"
  shows "\<exists>ls. lines (join_lines (p # qs)) = p # ls"
  using assms by (cases qs) (simp_all add: lines_def split_on_first split_on_none strip_cr_def)

text \<open>
  The file of recorded operations that a failed run writes can never be loaded again: whatever
  the log holds, loading the dump stops at its first line, the heading, with the report of the
  unknown operation DUMP.
\<close>

theorem dump_is_not_loadable: "load_replay (join_lines (logdump s)) = Inl ''DUMP''"
proof -
  have "LF \<notin> set (dump_header (logcount s))"
    using dec_plain[of LF] by (auto simp: dump_header_def is_ws_def)
  moreover have "dump_header n \<noteq> []" "last (dump_header n) \<noteq> CR" for n
    by (simp_all add: dump_header_def)
  ultimately obtain ls where "lines (join_lines (logdump s)) = dump_header (logcount s) # ls"
    using lines_first unfolding logdump_def by metis
  then show ?thesis by (simp add: load_replay_def dump_header_unknown)
qed

section \<open>The ring\<close>

text \<open>
  C4: The log keeps exactly the last LOGSIZE operations, in order: starting from a log in any reachable state, any
  sequence of calls of log4 and log5, with any changes of the size of the file between them, succeeds, is counted,
  and leaves the ring with the last LOGSIZE entries of the old contents followed by those of the calls, oldest first.
\<close>

theorem log_keeps_last_entries:
  assumes "log_ok s"
  shows "\<exists>s'. log_calls cs s = Some s' \<and> log_ok s' \<and> logcount s' = logcount s + length cs \<and>
    log_view s' = last_n LOGSIZE (log_view s @ map logged_entry cs)"
  unfolding log_calls_push_all by (rule oplog.push_all_keeps[OF assms])

definition empty_log :: fsx_log where
  "empty_log = \<lparr>file_size = 0, closeopen = False, log_ring = replicate LOGSIZE blank_entry, logptr = 0,
     logcount = 0\<rparr>"

theorem log_keeps_last_entries_witness:
  "\<exists>s'. log_calls ((8, False, Log5 CopyRange 0 4 4 False) # replicate 10000 (9, True, Log4 Write 1 8 False)) empty_log = Some s' \<and>
     length (log_view s') = 10000 \<and> le_args (log_view s' ! 0) = (1, 8, 9)"
proof -
  have "log_ok empty_log" by (simp add: log_ok_def empty_log_def)
  moreover have "log_view empty_log = []" by (simp add: log_view_def empty_log_def)
  ultimately show ?thesis
    using log_keeps_last_entries[of empty_log "(8, False, Log5 CopyRange 0 4 4 False) # replicate 10000 (9, True, Log4 Write 1 8 False)"]
    by (auto simp: last_n_def LOGSIZE_def)
qed

end
