(* ===== verification/Fsstress.thy ===== *)
theory Fsstress
  imports Glibc_Random Rust_Text
begin

unbundle bit_operations_syntax

text \<open>
  The fsstress suite (src/src/fsstress.rs): random operations on a directory tree. Every thread keeps
  lists of the entries it created, draws an operation and a random number, picks an entry and calls
  the file system. The file system is a parameter: its calls are the fields of \<open>fsys\<close> over an
  arbitrary state. An operation returns None when it would not return (a cycle of parents) or panic.
  A path is its list of components; a path always converts to a C string, because no component holds
  a zero byte.
\<close>

section \<open>Entry types and operations\<close>

datatype ft = Dir | Reg | Sym | Chr | Blk | Sock

definition FT_TYPES :: "(ft \<times> char) list" where
  "FT_TYPES = [(Dir, CHR ''d''), (Reg, CHR ''f''), (Sym, CHR ''l''), (Chr, CHR ''c''),
     (Blk, CHR ''r''), (Sock, CHR ''s'')]"

definition ft_tag :: "ft \<Rightarrow> char" where
  "ft_tag t = (case List.find (\<lambda>(x, c). x = t) FT_TYPES of Some (x, c) \<Rightarrow> c | None \<Rightarrow> CHR ''?'')"

datatype stress_op =
    Creat | Write | WriteV | Read | ReadV | MRead | MWrite | Mkdir | Mknod | Symlink | Rename | Truncate
  | SetFattr | Link | Unlink | RmDir | ReadLink | Stat | GetDents | GetFattr | RemoveFattr | GetAttr
  | Fsync | Fdatasync | Sync | Fallocate | Punch | Zero | Collapse | Insert | CloneRange | CopyRange

text \<open>Operation, name, default frequency, whether it writes.\<close>

definition OP_TABLE :: "(stress_op \<times> string \<times> nat \<times> bool) list" where
  "OP_TABLE =
     [(Creat, ''creat'', 4, True), (Write, ''write'', 4, True), (WriteV, ''writev'', 4, True),
      (Read, ''read'', 1, False), (ReadV, ''readv'', 1, False), (MRead, ''mread'', 2, False),
      (MWrite, ''mwrite'', 2, True), (Mkdir, ''mkdir'', 2, True), (Mknod, ''mknod'', 2, True),
      (Symlink, ''symlink'', 2, True), (Rename, ''rename'', 2, True), (Truncate, ''truncate'', 2, True),
      (SetFattr, ''setfattr'', 2, True), (Link, ''link'', 1, True), (Unlink, ''unlink'', 1, True),
      (RmDir, ''rmdir'', 1, True), (ReadLink, ''readlink'', 1, False), (Stat, ''stat'', 1, False),
      (GetDents, ''getdents'', 1, False), (GetFattr, ''getfattr'', 1, False),
      (RemoveFattr, ''removefattr'', 1, True), (GetAttr, ''getattr'', 1, False),
      (Fsync, ''fsync'', 1, True), (Fdatasync, ''fdatasync'', 1, True), (Sync, ''sync'', 1, True),
      (Fallocate, ''fallocate'', 1, True), (Punch, ''punch'', 1, True), (Zero, ''zero'', 1, True),
      (Collapse, ''collapse'', 1, True), (Insert, ''insert'', 1, True),
      (CloneRange, ''clonerange'', 4, True), (CopyRange, ''copyrange'', 4, True)]"

definition op_by_name :: "string \<Rightarrow> stress_op option" where
  "op_by_name n = map_option fst (List.find (\<lambda>(x, name, f, w). name = n) OP_TABLE)"

definition stress_op_name :: "stress_op \<Rightarrow> string" where
  "stress_op_name p = (case List.find (\<lambda>(x, name, f, w). x = p) OP_TABLE of
     Some (x, name, f, w) \<Rightarrow> name | None \<Rightarrow> [])"

section \<open>The file system\<close>

datatype omode = ORead | OWrite | OReadWrite

record 'k fsys =
  fs_creat :: "'k \<Rightarrow> path \<Rightarrow> 'k \<times> bool"
  fs_mkdir :: "'k \<Rightarrow> path \<Rightarrow> 'k \<times> bool"
  fs_mknod :: "'k \<Rightarrow> path \<Rightarrow> nat \<Rightarrow> nat \<Rightarrow> 'k \<times> bool"
  fs_symlink :: "'k \<Rightarrow> string \<Rightarrow> path \<Rightarrow> 'k \<times> bool"
  fs_link :: "'k \<Rightarrow> path \<Rightarrow> path \<Rightarrow> 'k \<times> bool"
  fs_unlink :: "'k \<Rightarrow> path \<Rightarrow> 'k \<times> bool"
  fs_rmdir :: "'k \<Rightarrow> path \<Rightarrow> 'k \<times> bool"
  fs_rename :: "'k \<Rightarrow> path \<Rightarrow> path \<Rightarrow> 'k \<times> bool"
  fs_open :: "'k \<Rightarrow> path \<Rightarrow> omode \<Rightarrow> 'k \<times> nat option"
  fs_close :: "'k \<Rightarrow> nat \<Rightarrow> 'k"
  fs_fstat :: "'k \<Rightarrow> nat \<Rightarrow> nat option"
  fs_lseek :: "'k \<Rightarrow> nat \<Rightarrow> nat \<Rightarrow> 'k \<times> bool"
  fs_write :: "'k \<Rightarrow> nat \<Rightarrow> u8 list \<Rightarrow> 'k \<times> int"
  fs_writev :: "'k \<Rightarrow> nat \<Rightarrow> u8 list list \<Rightarrow> 'k \<times> int"
  fs_pread :: "'k \<Rightarrow> nat \<Rightarrow> nat \<Rightarrow> nat \<Rightarrow> 'k"
  fs_readv :: "'k \<Rightarrow> nat \<Rightarrow> nat list \<Rightarrow> 'k"
  fs_mmap :: "'k \<Rightarrow> nat \<Rightarrow> bool \<Rightarrow> bool \<Rightarrow> nat \<Rightarrow> nat \<Rightarrow> 'k \<times> bool"
  fs_mstore :: "'k \<Rightarrow> nat \<Rightarrow> nat \<Rightarrow> u8 list \<Rightarrow> 'k"
  fs_fsync :: "'k \<Rightarrow> nat \<Rightarrow> bool \<Rightarrow> 'k \<times> bool"
  fs_fallocate :: "'k \<Rightarrow> nat \<Rightarrow> nat \<Rightarrow> nat \<Rightarrow> nat \<Rightarrow> 'k \<times> bool"
  fs_getflags :: "'k \<Rightarrow> nat \<Rightarrow> 'k"
  fs_sync :: "'k \<Rightarrow> 'k"
  fs_stat :: "'k \<Rightarrow> path \<Rightarrow> nat option"
  fs_truncate :: "'k \<Rightarrow> path \<Rightarrow> nat \<Rightarrow> 'k \<times> bool"
  fs_readlink :: "'k \<Rightarrow> path \<Rightarrow> bool"
  fs_lstat :: "'k \<Rightarrow> path \<Rightarrow> bool"
  fs_readdir :: "'k \<Rightarrow> path \<Rightarrow> bool"
  fs_setxattr :: "'k \<Rightarrow> path \<Rightarrow> string \<Rightarrow> u8 list \<Rightarrow> 'k \<times> bool"
  fs_getxattr :: "'k \<Rightarrow> path \<Rightarrow> string \<Rightarrow> bool"
  fs_removexattr :: "'k \<Rightarrow> path \<Rightarrow> string \<Rightarrow> 'k \<times> bool"

section \<open>The state of a thread\<close>

record fent =
  fe_id :: nat
  fe_parent :: int
  xattr_counter :: nat

text \<open>\<open>stress_shared\<close> is what the threads share: the file system, the set of created paths and the
  counters that the SIGBUS handler reads.\<close>

record 'k stress_shared =
  skern :: 'k
  created :: "path set"
  sigbus_ops :: nat
  sigbus_errors :: nat

record 'k stress = "'k stress_shared" +
  tid :: nat
  srng :: glibc
  nameseq :: nat
  flists :: "ft \<Rightarrow> fent list"
  errors :: nat
  hist :: "stress_op \<Rightarrow> nat"
  sbase :: path
  linux :: bool

definition thread_new :: "'k stress_shared \<Rightarrow> path \<Rightarrow> bool \<Rightarrow> nat \<Rightarrow> i32 \<Rightarrow> 'k stress" where
  "thread_new g base lx t seed =
     \<lparr>skern = skern g, created = created g, sigbus_ops = sigbus_ops g, sigbus_errors = sigbus_errors g,
      tid = t, srng = rand_new (seed + of_nat t), nameseq = 0, flists = (\<lambda>_. []), errors = 0,
      hist = (\<lambda>_. 0), sbase = base, linux = lx\<rparr>"

definition srnd :: "'k stress \<Rightarrow> 'k stress \<times> nat" where
  "srnd s = (let (g, v) = rand_next (srng s) in (s\<lparr>srng := g\<rparr>, unat v))"

definition dir_by_id :: "(ft \<Rightarrow> fent list) \<Rightarrow> nat \<Rightarrow> fent option" where
  "dir_by_id L i = List.find (\<lambda>f. fe_id f = i) (L Dir)"

definition ent_name :: "ft \<Rightarrow> nat \<Rightarrow> string" where
  "ent_name t i = ft_tag t # hex_str i"

partial_function (option) fent_to_name ::
  "(ft \<Rightarrow> fent list) \<Rightarrow> path \<Rightarrow> ft \<Rightarrow> fent \<Rightarrow> path option" where
  "fent_to_name L base t f =
     (case (if 0 \<le> fe_parent f then dir_by_id L (nat (fe_parent f)) else None) of
        Some d \<Rightarrow> Option.bind (fent_to_name L base Dir d) (\<lambda>p. Some (p @ [ent_name t (fe_id f)]))
      | None \<Rightarrow> Some (base @ [ent_name t (fe_id f)]))"

fun pick_in :: "(ft \<Rightarrow> fent list) \<Rightarrow> ft list \<Rightarrow> nat \<Rightarrow> (ft \<times> fent) option" where
  "pick_in L [] x = None"
| "pick_in L (t # ts) x =
     (if x < length (L t) then Some (t, L t ! x) else pick_in L ts (x - length (L t)))"

definition get_fent :: "(ft \<Rightarrow> fent list) \<Rightarrow> ft list \<Rightarrow> nat \<Rightarrow> (ft \<times> fent) option" where
  "get_fent L types r =
     (let total = (\<Sum>t \<leftarrow> types. length (L t))
      in if total = 0 then None else pick_in L types (r mod total))"

definition generate_name ::
  "(ft \<times> fent) option \<Rightarrow> ft \<Rightarrow> 'k stress \<Rightarrow> ('k stress \<times> path \<times> nat \<times> int) option" where
  "generate_name parent t s =
     (let id1 = nameseq s;
          parid = (case parent of Some (pt, fep) \<Rightarrow> int (fe_id fep) | None \<Rightarrow> - 1)
      in do {
           p \<leftarrow> (case parent of Some (Dir, fep) \<Rightarrow> fent_to_name (flists s) (sbase s) Dir fep
                   | _ \<Rightarrow> Some (sbase s));
           Some (s\<lparr>nameseq := id1 + 1\<rparr>, p @ [ent_name t id1], id1, parid)
         })"

definition add_fent :: "ft \<Rightarrow> nat \<Rightarrow> int \<Rightarrow> 'k stress \<Rightarrow> 'k stress" where
  "add_fent t id1 par s =
     s\<lparr>flists := (flists s)(t := flists s t @ [\<lparr>fe_id = id1, fe_parent = par, xattr_counter = 0\<rparr>])\<rparr>"

definition drop_fent :: "ft \<Rightarrow> nat \<Rightarrow> 'k stress \<Rightarrow> 'k stress" where
  "drop_fent t id1 s = s\<lparr>flists := (flists s)(t := filter (\<lambda>f. fe_id f \<noteq> id1) (flists s t))\<rparr>"

definition report_err :: "'k stress \<Rightarrow> 'k stress" where
  "report_err s = s\<lparr>errors := errors s + 1, sigbus_errors := sigbus_errors s + 1\<rparr>"

definition note_created :: "path \<Rightarrow> 'k stress \<Rightarrow> 'k stress" where
  "note_created p s = s\<lparr>created := insert p (created s)\<rparr>"

text \<open>\<open>pick_path\<close>: no entry to pick is the inner None.\<close>

definition pick_path :: "ft list \<Rightarrow> nat \<Rightarrow> 'k stress \<Rightarrow> path option option" where
  "pick_path types r s =
     (case get_fent (flists s) types r of
        None \<Rightarrow> Some None
      | Some (t, f) \<Rightarrow> map_option Some (fent_to_name (flists s) (sbase s) t f))"

definition rand_file_offset :: "nat \<Rightarrow> 'k stress \<Rightarrow> 'k stress \<times> nat" where
  "rand_file_offset size1 s =
     (let (s, hi) = srnd s;
          (s, lo) = srnd s;
          lr = (hi * 2 ^ 32) OR lo;
          lim = min (size1 + 1024 * 1024) (2 ^ 32 - 1)
      in (s, if lim = 0 then 0 else lr mod lim))"

text \<open>A call that may fail: its new file system, and an error counted when it failed.\<close>

definition called :: "'k \<times> bool \<Rightarrow> 'k stress \<Rightarrow> 'k stress" where
  "called r s = (let s = s\<lparr>skern := fst r\<rparr> in if snd r then s else report_err s)"

end
