(* ===== verification/Fsstress_Ops.thy ===== *)
theory Fsstress_Ops
  imports Fsstress
begin

text \<open>
  The operations of the fsstress suite (src/src/fsstress.rs, impl Proc), one definition per method,
  and the dispatch on the drawn operation.
\<close>

section \<open>Creating entries\<close>

text \<open>The common tail of the creating operations: the entry is listed and noted if the call succeeded.\<close>

definition created_or_err :: "'k \<times> bool \<Rightarrow> ft \<Rightarrow> nat \<Rightarrow> int \<Rightarrow> path \<Rightarrow> 'k stress \<Rightarrow> 'k stress" where
  "created_or_err r t id1 par p s =
     (let s = s\<lparr>skern := fst r\<rparr>
      in if snd r then note_created p (add_fent t id1 par s) else report_err s)"

definition creat :: "'k fsys \<Rightarrow> nat \<Rightarrow> 'k stress \<Rightarrow> 'k stress option" where
  "creat F r s = do {
     (s, p, id1, par) \<leftarrow> generate_name (get_fent (flists s) [Dir] r) Reg s;
     Some (created_or_err (fs_creat F (skern s) p) Reg id1 par p s)
   }"

definition mkdir :: "'k fsys \<Rightarrow> nat \<Rightarrow> 'k stress \<Rightarrow> 'k stress option" where
  "mkdir F r s = do {
     (s, p, id1, par) \<leftarrow> generate_name (get_fent (flists s) [Dir] r) Dir s;
     Some (created_or_err (fs_mkdir F (skern s) p) Dir id1 par p s)
   }"

definition S_IFCHR :: nat where "S_IFCHR = 0x2000"

text \<open>The mode is that of a character device for both entry types, with permissions 0o644.\<close>

definition mknod :: "'k fsys \<Rightarrow> nat \<Rightarrow> 'k stress \<Rightarrow> 'k stress option" where
  "mknod F r s =
     (let t = (if r mod 2 = 0 then Chr else Blk)
      in do {
           (s, p, id1, par) \<leftarrow> generate_name (get_fent (flists s) [Dir] r) t s;
           Some (created_or_err (fs_mknod F (skern s) p (S_IFCHR OR 420) (r mod 8)) t id1 par p s)
         })"

definition symlink_target :: "nat \<Rightarrow> string" where
  "symlink_target r =
     (let len = r mod 1024
      in map (\<lambda>i. if 10 \<le> i \<and> i < len - 1 \<and> (i - 10) mod 10 = 0 then CHR ''/'' else CHR ''x'') [0..<len])"

definition symlink :: "'k fsys \<Rightarrow> nat \<Rightarrow> 'k stress \<Rightarrow> 'k stress option" where
  "symlink F r s = do {
     (s, p, id1, par) \<leftarrow> generate_name (get_fent (flists s) [Dir] r) Sym s;
     Some (created_or_err (fs_symlink F (skern s) (symlink_target r) p) Sym id1 par p s)
   }"

section \<open>Data\<close>

definition FILELEN_MAX :: nat where "FILELEN_MAX = 32 * 4096"

definition fill_byte :: "'k stress \<Rightarrow> u8" where
  "fill_byte s = of_nat (nameseq s mod 256)"

definition open_fd :: "'k fsys \<Rightarrow> path \<Rightarrow> omode \<Rightarrow> 'k stress \<Rightarrow> 'k stress \<times> nat option" where
  "open_fd F p mode s =
     (case fs_open F (skern s) p mode of
        (k, None) \<Rightarrow> (report_err (s\<lparr>skern := k\<rparr>), None)
      | (k, Some fd) \<Rightarrow> (s\<lparr>skern := k\<rparr>, Some fd))"

definition close_fd :: "'k fsys \<Rightarrow> nat \<Rightarrow> 'k stress \<Rightarrow> 'k stress" where
  "close_fd F fd s = s\<lparr>skern := fs_close F (skern s) fd\<rparr>"

text \<open>The loop of \<open>write_pattern\<close> over the bytes that are left.\<close>

function write_loop :: "'k fsys \<Rightarrow> nat \<Rightarrow> u8 list \<Rightarrow> 'k \<Rightarrow> 'k \<times> bool" where
  "write_loop F fd buf k =
     (if buf = [] then (k, True)
      else (case fs_write F k fd buf of
              (k', n) \<Rightarrow> if n \<le> 0 then (k', False) else write_loop F fd (drop (nat n) buf) k'))"
  by pat_completeness auto
termination
  by (relation "measure (\<lambda>(F, fd, buf, k). length buf)") auto

declare write_loop.simps [simp del]

definition write_pattern :: "'k fsys \<Rightarrow> nat \<Rightarrow> nat \<Rightarrow> nat \<Rightarrow> 'k stress \<Rightarrow> 'k stress" where
  "write_pattern F fd off len s =
     (case fs_lseek F (skern s) fd off of
        (k, False) \<Rightarrow> report_err (s\<lparr>skern := k\<rparr>)
      | (k, True) \<Rightarrow> called (write_loop F fd (replicate len (fill_byte s)) k) s)"

definition rw :: "'k fsys \<Rightarrow> nat \<Rightarrow> bool \<Rightarrow> bool \<Rightarrow> 'k stress \<Rightarrow> 'k stress option" where
  "rw F r write vectored s = do {
     po \<leftarrow> pick_path (if write then [Reg] else [Reg, Sym]) r s;
     (case po of
        None \<Rightarrow> Some s
      | Some p \<Rightarrow>
          (case open_fd F p (if write then OWrite else ORead) s of
             (s, None) \<Rightarrow> Some s
           | (s, Some fd) \<Rightarrow>
               (case fs_fstat F (skern s) fd of
                  None \<Rightarrow> Some (close_fd F fd s)
                | Some size1 \<Rightarrow>
                    if \<not> write \<and> size1 = 0 then Some (close_fd F fd s)
                    else
                      (let (s, off) = rand_file_offset size1 s;
                           (s, r2) = srnd s;
                           len = r2 mod FILELEN_MAX + 1;
                           half = len div 2;
                           s = (if write then
                                  (let s = s\<lparr>skern := fst (fs_lseek F (skern s) fd off)\<rparr>
                                   in if vectored then
                                        (let (k, n) = fs_writev F (skern s) fd
                                               [replicate half (fill_byte s), replicate (len - half) (fill_byte s)]
                                         in called (k, 0 \<le> n) s)
                                      else write_pattern F fd off len s)
                                else if vectored then s\<lparr>skern := fs_readv F (skern s) fd [half, len - half]\<rparr>
                                else s\<lparr>skern := fs_pread F (skern s) fd len off\<rparr>)
                       in Some (close_fd F fd s)))))
   }"

text \<open>The range that \<open>mrw\<close> maps, from two random numbers: (offset, length). A zero size divides by 0.\<close>

definition map_range :: "nat \<Rightarrow> nat \<Rightarrow> nat \<Rightarrow> (nat \<times> nat) option" where
  "map_range size1 r1 r2 = do {
     off0 \<leftarrow> rmod r1 size1;
     let off = off0 - off0 mod 4096;
     len0 \<leftarrow> rmod r2 (min (size1 - off) FILELEN_MAX);
     let len = len0 + 1;
     Some (off, if size1 < off + len then size1 - off else len)
   }"

definition mrw :: "'k fsys \<Rightarrow> nat \<Rightarrow> bool \<Rightarrow> 'k stress \<Rightarrow> 'k stress option" where
  "mrw F r write s = do {
     po \<leftarrow> pick_path (if write then [Reg] else [Reg, Sym]) r s;
     (case po of
        None \<Rightarrow> Some s
      | Some p \<Rightarrow>
          (case open_fd F p (if write then OReadWrite else ORead) s of
             (s, None) \<Rightarrow> Some s
           | (s, Some fd) \<Rightarrow>
               (case fs_fstat F (skern s) fd of
                  None \<Rightarrow> Some (close_fd F fd s)
                | Some size1 \<Rightarrow>
                    if size1 = 0 then Some (close_fd F fd s)
                    else do {
                      let (s, r1) = srnd s;
                      let (s, r2) = srnd s;
                      (off, len) \<leftarrow> map_range size1 r1 r2;
                      let pg = off AND 4095;
                      let (s, r3) = srnd s;
                      let (k, ok) = fs_mmap F (skern s) fd write (r3 mod 2 = 0) (off - pg) (pg + len);
                      let s = s\<lparr>skern := k\<rparr>;
                      (if \<not> ok then Some (close_fd F fd (report_err s))
                       else
                         (let s = (if write
                                   then s\<lparr>skern := fs_mstore F (skern s) fd (off - pg) (replicate len (fill_byte s))\<rparr>
                                   else s)
                          in Some (close_fd F fd s)))
                    })))
   }"

definition truncate :: "'k fsys \<Rightarrow> nat \<Rightarrow> 'k stress \<Rightarrow> 'k stress option" where
  "truncate F r s = do {
     po \<leftarrow> pick_path [Reg, Sym] r s;
     (case po of
        None \<Rightarrow> Some s
      | Some p \<Rightarrow>
          (case fs_stat F (skern s) p of
             None \<Rightarrow> Some (report_err s)
           | Some size1 \<Rightarrow>
               (let (s, off) = rand_file_offset size1 s
                in Some (called (fs_truncate F (skern s) p off) s))))
   }"

section \<open>Names\<close>

definition file_types :: "ft list" where
  "file_types = [Reg, Sym, Chr, Blk, Sock]"

definition link :: "'k fsys \<Rightarrow> nat \<Rightarrow> 'k stress \<Rightarrow> 'k stress option" where
  "link F r s = do {
     po \<leftarrow> pick_path file_types r s;
     (case (po, get_fent (flists s) file_types r) of
        (Some src, Some (t, f)) \<Rightarrow> do {
          let (s, rr) = srnd s;
          (s, p, id1, par) \<leftarrow> generate_name (get_fent (flists s) [Dir] rr) t s;
          Some (created_or_err (fs_link F (skern s) src p) t id1 par p s) }
      | _ \<Rightarrow> Some s)
   }"

definition unlink :: "'k fsys \<Rightarrow> nat \<Rightarrow> 'k stress \<Rightarrow> 'k stress option" where
  "unlink F r s =
     (case get_fent (flists s) file_types r of
        None \<Rightarrow> Some s
      | Some (t, f) \<Rightarrow> do {
          p \<leftarrow> fent_to_name (flists s) (sbase s) t f;
          let (k, ok) = fs_unlink F (skern s) p;
          let s = s\<lparr>skern := k\<rparr>;
          Some (if ok then drop_fent t (fe_id f) s else report_err s) })"

definition rmdir :: "'k fsys \<Rightarrow> nat \<Rightarrow> 'k stress \<Rightarrow> 'k stress option" where
  "rmdir F r s =
     (case get_fent (flists s) [Dir] r of
        None \<Rightarrow> Some s
      | Some (t, f) \<Rightarrow> do {
          p \<leftarrow> fent_to_name (flists s) (sbase s) Dir f;
          let (k, ok) = fs_rmdir F (skern s) p;
          let s = s\<lparr>skern := k\<rparr>;
          Some (if ok then drop_fent Dir (fe_id f) s else report_err s) })"

definition rename :: "'k fsys \<Rightarrow> nat \<Rightarrow> 'k stress \<Rightarrow> 'k stress option" where
  "rename F r s =
     (case get_fent (flists s) file_types r of
        None \<Rightarrow> Some s
      | Some (t, f) \<Rightarrow> do {
          src \<leftarrow> fent_to_name (flists s) (sbase s) t f;
          let (s, rr) = srnd s;
          (s, dest, newid, par) \<leftarrow> generate_name (get_fent (flists s) [Dir] rr) t s;
          let (k, ok) = fs_rename F (skern s) src dest;
          let s = s\<lparr>skern := k\<rparr>;
          Some (if ok then note_created dest (add_fent t newid par (drop_fent t (fe_id f) s))
                else report_err s) })"

section \<open>Reading names and attributes\<close>

definition probe_path :: "('k \<Rightarrow> path \<Rightarrow> bool) \<Rightarrow> ft list \<Rightarrow> nat \<Rightarrow> 'k stress \<Rightarrow> 'k stress option" where
  "probe_path call types r s = do {
     po \<leftarrow> pick_path types r s;
     Some (case po of None \<Rightarrow> s | Some p \<Rightarrow> if call (skern s) p then s else report_err s)
   }"

definition all_types :: "ft list" where
  "all_types = [Dir, Reg, Sym, Chr, Blk, Sock]"

definition readlink :: "'k fsys \<Rightarrow> nat \<Rightarrow> 'k stress \<Rightarrow> 'k stress option" where
  "readlink F r s = probe_path (fs_readlink F) [Sym] r s"

definition stat :: "'k fsys \<Rightarrow> nat \<Rightarrow> 'k stress \<Rightarrow> 'k stress option" where
  "stat F r s = probe_path (fs_lstat F) all_types r s"

definition getdents :: "'k fsys \<Rightarrow> nat \<Rightarrow> 'k stress \<Rightarrow> 'k stress option" where
  "getdents F r s = probe_path (fs_readdir F) [Dir] r s"

definition xattr_target :: "nat \<Rightarrow> 'k stress \<Rightarrow> (path \<times> nat) option option" where
  "xattr_target r s =
     (case get_fent (flists s) [Reg, Dir] r of
        None \<Rightarrow> Some None
      | Some (t, f) \<Rightarrow>
          map_option (\<lambda>p. Some (p, fe_id f)) (fent_to_name (flists s) (sbase s) t f))"

definition xattr_name :: "nat \<Rightarrow> string" where
  "xattr_name r = ''user.x'' @ dec_str (r mod 8)"

fun raise_counter :: "nat \<Rightarrow> nat \<Rightarrow> fent list \<Rightarrow> fent list" where
  "raise_counter id1 n [] = []"
| "raise_counter id1 n (f # fs) =
     (if fe_id f = id1 then f\<lparr>xattr_counter := max (xattr_counter f) n\<rparr> # fs
      else f # raise_counter id1 n fs)"

definition count_xattr :: "nat \<Rightarrow> nat \<Rightarrow> 'k stress \<Rightarrow> 'k stress" where
  "count_xattr id1 n s =
     (let t = (if \<exists>f \<in> set (flists s Dir). fe_id f = id1 then Dir else Reg)
      in s\<lparr>flists := (flists s)(t := raise_counter id1 n (flists s t))\<rparr>)"

definition setfattr :: "'k fsys \<Rightarrow> nat \<Rightarrow> 'k stress \<Rightarrow> 'k stress option" where
  "setfattr F r s = do {
     po \<leftarrow> xattr_target r s;
     (case po of
        None \<Rightarrow> Some s
      | Some (p, id1) \<Rightarrow>
          (let val = map (\<lambda>i. of_nat r + of_nat i) [0..<r mod 101];
               (k, ok) = fs_setxattr F (skern s) p (xattr_name r) val;
               s = s\<lparr>skern := k\<rparr>
           in Some (if ok then count_xattr id1 (r mod 8 + 1) s else report_err s)))
   }"

definition getfattr :: "'k fsys \<Rightarrow> nat \<Rightarrow> 'k stress \<Rightarrow> 'k stress option" where
  "getfattr F r s = do {
     po \<leftarrow> xattr_target r s;
     Some (case po of None \<Rightarrow> s
           | Some (p, id1) \<Rightarrow> if fs_getxattr F (skern s) p (xattr_name r) then s else report_err s)
   }"

definition removefattr :: "'k fsys \<Rightarrow> nat \<Rightarrow> 'k stress \<Rightarrow> 'k stress option" where
  "removefattr F r s = do {
     po \<leftarrow> xattr_target r s;
     Some (case po of None \<Rightarrow> s
           | Some (p, id1) \<Rightarrow> called (fs_removexattr F (skern s) p (xattr_name r)) s)
   }"

definition getattr :: "'k fsys \<Rightarrow> nat \<Rightarrow> 'k stress \<Rightarrow> 'k stress option" where
  "getattr F r s = do {
     po \<leftarrow> pick_path all_types r s;
     Some (case po of
             None \<Rightarrow> s
           | Some p \<Rightarrow>
               (case open_fd F p ORead s of
                  (s, None) \<Rightarrow> s
                | (s, Some fd) \<Rightarrow> close_fd F fd (s\<lparr>skern := fs_getflags F (skern s) fd\<rparr>)))
   }"

section \<open>Synchronisation and ranges\<close>

definition fdatasync_like :: "'k fsys \<Rightarrow> bool \<Rightarrow> 'k stress \<Rightarrow> 'k stress option" where
  "fdatasync_like F full s =
     (let (s, rr) = srnd s
      in do {
           po \<leftarrow> pick_path [Reg] rr s;
           Some (case po of
                   None \<Rightarrow> s
                 | Some p \<Rightarrow>
                     (case open_fd F p OWrite s of
                        (s, None) \<Rightarrow> s
                      | (s, Some fd) \<Rightarrow>
                          close_fd F fd (called (fs_fsync F (skern s) fd (full \<or> \<not> linux s)) s)))
         })"

definition falloc_range :: "'k fsys \<Rightarrow> nat \<Rightarrow> nat \<Rightarrow> bool \<Rightarrow> 'k stress \<Rightarrow> 'k stress option" where
  "falloc_range F r mode clip_eof s =
     (if \<not> linux s then Some s
      else do {
        po \<leftarrow> pick_path [Reg] r s;
        (case po of
           None \<Rightarrow> Some s
         | Some p \<Rightarrow>
             (case open_fd F p OWrite s of
                (s, None) \<Rightarrow> Some s
              | (s, Some fd) \<Rightarrow>
                  (case fs_fstat F (skern s) fd of
                     None \<Rightarrow> Some (close_fd F fd s)
                   | Some size1 \<Rightarrow>
                       (let (s, off) = rand_file_offset size1 s;
                            (s, r2) = srnd s;
                            len0 = r2 mod FILELEN_MAX + 1;
                            len = (if clip_eof then max (min len0 (size1 - off)) 1 else len0)
                        in Some (close_fd F fd (called (fs_fallocate F (skern s) fd mode off len) s))))))
      })"

definition range_shift :: "'k fsys \<Rightarrow> nat \<Rightarrow> bool \<Rightarrow> 'k stress \<Rightarrow> 'k stress option" where
  "range_shift F r collapse s =
     (if \<not> linux s then Some s else falloc_range F r (if collapse then 0x08 else 0x20) collapse s)"

definition clonerange :: "nat \<Rightarrow> 'k stress \<Rightarrow> 'k stress option" where
  "clonerange r s = Some s"

definition copyrange :: "nat \<Rightarrow> 'k stress \<Rightarrow> 'k stress option" where
  "copyrange r s = Some s"

section \<open>Dispatch\<close>

definition run_op :: "'k fsys \<Rightarrow> stress_op \<Rightarrow> nat \<Rightarrow> 'k stress \<Rightarrow> 'k stress option" where
  "run_op F op1 r s0 =
     (let s = s0\<lparr>hist := (hist s0)(op1 := hist s0 op1 + 1)\<rparr>
      in case op1 of
        Creat \<Rightarrow> creat F r s
      | Write \<Rightarrow> rw F r True False s
      | WriteV \<Rightarrow> rw F r True True s
      | Read \<Rightarrow> rw F r False False s
      | ReadV \<Rightarrow> rw F r False True s
      | MRead \<Rightarrow> mrw F r False s
      | MWrite \<Rightarrow> mrw F r True s
      | Mkdir \<Rightarrow> mkdir F r s
      | Mknod \<Rightarrow> mknod F r s
      | Symlink \<Rightarrow> symlink F r s
      | Rename \<Rightarrow> rename F r s
      | Truncate \<Rightarrow> truncate F r s
      | SetFattr \<Rightarrow> setfattr F r s
      | Link \<Rightarrow> link F r s
      | Unlink \<Rightarrow> unlink F r s
      | RmDir \<Rightarrow> rmdir F r s
      | ReadLink \<Rightarrow> readlink F r s
      | Stat \<Rightarrow> stat F r s
      | GetDents \<Rightarrow> getdents F r s
      | GetFattr \<Rightarrow> getfattr F r s
      | RemoveFattr \<Rightarrow> removefattr F r s
      | GetAttr \<Rightarrow> getattr F r s
      | Fsync \<Rightarrow> fdatasync_like F True s
      | Fdatasync \<Rightarrow> fdatasync_like F False s
      | Sync \<Rightarrow> Some (s\<lparr>skern := fs_sync F (skern s)\<rparr>)
      | Fallocate \<Rightarrow> falloc_range F r 0 False s
      | Punch \<Rightarrow> falloc_range F r (0x02 OR 0x01) True s
      | Zero \<Rightarrow> falloc_range F r 0x10 False s
      | Collapse \<Rightarrow> range_shift F r True s
      | Insert \<Rightarrow> range_shift F r False s
      | CloneRange \<Rightarrow> clonerange r s
      | CopyRange \<Rightarrow> copyrange r s)"

end
