(* ===== verification/Fsstress_Run.thy ===== *)
theory Fsstress_Run
  imports Fsstress_Ops
begin

text \<open>
  The run of the fsstress suite (src/src/fsstress.rs, \<open>run\<close>, and the SIGBUS report): the frequency
  table, the loop of one thread, the threads interleaved operation by operation over the shared file
  system, the removal of what they created, and the report that the signal handler writes into its
  fixed buffer.
\<close>

section \<open>The frequency table\<close>

datatype stress_error = BadSpec string | UnknownOp string | BadFreq string | NeedsLinux string | AllZero

definition linux_only :: "stress_op \<Rightarrow> bool" where
  "linux_only p \<longleftrightarrow> p \<in> {Fallocate, Punch, Zero, Collapse, Insert, CloneRange, CopyRange}"

fun default_freqs_of :: "(stress_op \<times> string \<times> nat \<times> bool) list \<Rightarrow> bool \<Rightarrow> stress_op \<Rightarrow> nat" where
  "default_freqs_of [] lx p = 0"
| "default_freqs_of ((x, n, f, w) # es) lx p =
     (if x = p then (if (lx \<or> \<not> linux_only p) \<and> p \<noteq> MRead \<and> p \<noteq> MWrite then f else 0)
      else default_freqs_of es lx p)"

definition default_freqs :: "bool \<Rightarrow> stress_op \<Rightarrow> nat" where
  "default_freqs lx p = default_freqs_of OP_TABLE lx p"

definition apply_spec :: "bool \<Rightarrow> string \<Rightarrow> (stress_op \<Rightarrow> nat) \<Rightarrow> stress_error + (stress_op \<Rightarrow> nat)" where
  "apply_spec lx spec fr =
     (case split_once ''='' spec of
        None \<Rightarrow> Inl (BadSpec spec)
      | Some (name, freq) \<Rightarrow>
          (case op_by_name name of
             None \<Rightarrow> Inl (UnknownOp name)
           | Some p \<Rightarrow>
               (case parse_uint (2 ^ 32) 10 freq of
                  None \<Rightarrow> Inl (BadFreq freq)
                | Some v \<Rightarrow>
                    if \<not> lx \<and> 0 < v \<and> linux_only p then Inl (NeedsLinux name) else Inr (fr(p := v)))))"

fun apply_specs :: "bool \<Rightarrow> string list \<Rightarrow> (stress_op \<Rightarrow> nat) \<Rightarrow> stress_error + (stress_op \<Rightarrow> nat)" where
  "apply_specs lx [] fr = Inr fr"
| "apply_specs lx (x # xs) fr =
     (case apply_spec lx x fr of Inl e \<Rightarrow> Inl e | Inr fr' \<Rightarrow> apply_specs lx xs fr')"

fun zero_where :: "(bool \<Rightarrow> bool) \<Rightarrow> (stress_op \<times> string \<times> nat \<times> bool) list \<Rightarrow> (stress_op \<Rightarrow> nat) \<Rightarrow> stress_op \<Rightarrow> nat" where
  "zero_where sel [] fr = fr"
| "zero_where sel ((x, n, f, w) # es) fr = zero_where sel es (if sel w then fr(x := 0) else fr)"

definition op_list :: "(stress_op \<Rightarrow> nat) \<Rightarrow> stress_op list" where
  "op_list fr = concat (map (\<lambda>(x, n, f, w). replicate (fr x) x) OP_TABLE)"

definition build_table :: "bool \<Rightarrow> string list \<Rightarrow> bool \<Rightarrow> bool \<Rightarrow> stress_error + stress_op list" where
  "build_table lx specs read_only write_only =
     (case apply_specs lx specs (default_freqs lx) of
        Inl e \<Rightarrow> Inl e
      | Inr fr \<Rightarrow>
          (let fr = (if read_only then zero_where (\<lambda>w. w) OP_TABLE fr else fr);
               fr = (if write_only then zero_where Not OP_TABLE fr else fr);
               table = op_list fr
           in if table = [] then Inl AllZero else Inr table))"

section \<open>One thread\<close>

definition stress_step :: "'k fsys \<Rightarrow> stress_op list \<Rightarrow> 'k stress \<Rightarrow> 'k stress option" where
  "stress_step F table s = do {
     let (s, r1) = srnd s;
     i \<leftarrow> rmod r1 (length table);
     let op1 = table ! i;
     let (s, r) = srnd s;
     s \<leftarrow> run_op F op1 r s;
     Some (s\<lparr>sigbus_ops := sigbus_ops s + 1\<rparr>)
   }"

text \<open>\<open>elapsed c\<close> is the time that the \<open>c\<close>-th look at the clock shows; a duration of 0 sets no limit.
  The loops return the state, the number of operations done and the looks at the clock.\<close>

definition expired :: "nat \<Rightarrow> (nat \<Rightarrow> nat) \<Rightarrow> nat \<Rightarrow> bool" where
  "expired duration elapsed c \<longleftrightarrow> 0 < duration \<and> duration \<le> elapsed c"

fun ops_loop :: "'k fsys \<Rightarrow> stress_op list \<Rightarrow> nat \<Rightarrow> (nat \<Rightarrow> nat) \<Rightarrow> nat \<Rightarrow> 'k stress \<Rightarrow> nat \<Rightarrow> nat \<Rightarrow>
    ('k stress \<times> nat \<times> nat) option" where
  "ops_loop F table duration elapsed 0 s done1 c = Some (s, done1, c)"
| "ops_loop F table duration elapsed (Suc n) s done1 c =
     (if expired duration elapsed c then Some (s, done1, c + 1)
      else do {
        s \<leftarrow> stress_step F table s;
        ops_loop F table duration elapsed n s (done1 + 1) (c + 1)
      })"

fun rounds_loop :: "'k fsys \<Rightarrow> stress_op list \<Rightarrow> nat \<Rightarrow> (nat \<Rightarrow> nat) \<Rightarrow> nat \<Rightarrow> nat \<Rightarrow> 'k stress \<Rightarrow> nat \<Rightarrow> nat \<Rightarrow>
    ('k stress \<times> nat \<times> nat) option" where
  "rounds_loop F table duration elapsed nops 0 s done1 c = Some (s, done1, c)"
| "rounds_loop F table duration elapsed nops (Suc n) s done1 c =
     (if expired duration elapsed c then Some (s, done1, c + 1)
      else do {
        (s, done1, c) \<leftarrow> ops_loop F table duration elapsed nops s done1 (c + 1);
        rounds_loop F table duration elapsed nops n s done1 c
      })"

text \<open>What a thread reports: its state and the number of operations it did.\<close>

definition thread_run :: "'k fsys \<Rightarrow> stress_op list \<Rightarrow> nat \<Rightarrow> (nat \<Rightarrow> nat) \<Rightarrow> nat \<Rightarrow> nat \<Rightarrow> 'k stress \<Rightarrow>
    ('k stress \<times> nat) option" where
  "thread_run F table duration elapsed nops rounds s = do {
     (s, done1, c) \<leftarrow> rounds_loop F table duration elapsed nops (max rounds 1) s 0 0;
     Some (s, done1)
   }"

section \<open>Interleaved threads\<close>

text \<open>The threads share the file system, the set of created paths and the two counters: the scheduled
  thread reads them, runs one operation and leaves them changed.\<close>

definition take_shared :: "'k stress_shared \<Rightarrow> 'k stress \<Rightarrow> 'k stress" where
  "take_shared g s = s\<lparr>skern := skern g, created := created g, sigbus_ops := sigbus_ops g,
     sigbus_errors := sigbus_errors g\<rparr>"

definition give_shared :: "'k stress \<Rightarrow> 'k stress_shared" where
  "give_shared s = \<lparr>skern = skern s, created = created s, sigbus_ops = sigbus_ops s,
     sigbus_errors = sigbus_errors s\<rparr>"

fun run_schedule :: "'k fsys \<Rightarrow> stress_op list \<Rightarrow> nat list \<Rightarrow> 'k stress_shared \<Rightarrow> 'k stress list \<Rightarrow>
    ('k stress_shared \<times> 'k stress list) option" where
  "run_schedule F table [] g ts = Some (g, ts)"
| "run_schedule F table (i # is) g ts = do {
     t \<leftarrow> rget ts i;
     t' \<leftarrow> stress_step F table (take_shared g t);
     run_schedule F table is (give_shared t') (ts[i := t'])
   }"

section \<open>Cleaning up\<close>

definition path_len :: "path \<Rightarrow> nat" where
  "path_len p = (\<Sum>c \<leftarrow> p. length c + 1)"

definition cleanup_order :: "path list \<Rightarrow> path list" where
  "cleanup_order paths = sort_key (\<lambda>p. - int (path_len p)) paths"

fun remove_each :: "'k fsys \<Rightarrow> path list \<Rightarrow> 'k \<Rightarrow> 'k" where
  "remove_each F [] k = k"
| "remove_each F (p # ps) k =
     (case fs_unlink F k p of
        (k, True) \<Rightarrow> remove_each F ps k
      | (k, False) \<Rightarrow> remove_each F ps (fst (fs_rmdir F k p)))"

fun rmdir_pass :: "'k fsys \<Rightarrow> path list \<Rightarrow> 'k \<Rightarrow> bool \<Rightarrow> 'k \<times> bool" where
  "rmdir_pass F [] k any = (k, any)"
| "rmdir_pass F (p # ps) k any = (let (k, ok) = fs_rmdir F k p in rmdir_pass F ps k (any \<or> ok))"

fun rmdir_passes :: "'k fsys \<Rightarrow> nat \<Rightarrow> path list \<Rightarrow> 'k \<Rightarrow> 'k" where
  "rmdir_passes F 0 ps k = k"
| "rmdir_passes F (Suc n) ps k =
     (let (k, any) = rmdir_pass F ps k False in if any then rmdir_passes F n ps k else k)"

definition cleanup :: "'k fsys \<Rightarrow> path list \<Rightarrow> 'k \<Rightarrow> 'k" where
  "cleanup F paths k =
     (let ps = cleanup_order paths
      in rmdir_passes F 4 (rev ps) (remove_each F ps k))"

section \<open>The report of the signal handler\<close>

text \<open>Copies what fits into the buffer at position \<open>w\<close> and returns the new position.\<close>

definition push_bytes :: "string \<times> nat \<Rightarrow> string \<Rightarrow> string \<times> nat" where
  "push_bytes bw b =
     (case bw of (buf, w) \<Rightarrow>
        (let n = min (length buf - w) (length b)
         in (overlay buf w (take n b), w + n)))"

text \<open>The digits of a number, from the last one on, into the 20 bytes of \<open>tmp\<close>.\<close>

function u64_digits :: "string \<Rightarrow> nat \<Rightarrow> nat \<Rightarrow> string \<times> nat" where
  "u64_digits tmp i v =
     (let i = i - 1;
          tmp = tmp[i := char_of (48 + v mod 10)];
          v' = v div 10
      in if v' = 0 then (tmp, i) else u64_digits tmp i v')"
  by pat_completeness auto
termination
  by (relation "measure (\<lambda>(tmp, i, v). v)") auto

declare u64_digits.simps [simp del]

definition push_u64 :: "string \<times> nat \<Rightarrow> nat \<Rightarrow> string \<times> nat" where
  "push_u64 bw v =
     (let (tmp, i) = u64_digits (replicate 20 (CHR 0x00)) 20 v
      in push_bytes bw (drop i tmp))"

definition SIGBUS_CAUSE :: string where
  "SIGBUS_CAUSE = ''SIGBUS: concurrent truncate vs mmap race aborted the run '' @
     ''(upstream fsstress recovers per forked child; the threaded port cannot)''"

definition QUOTE :: char where "QUOTE = CHR 0x22"

text \<open>A JSON key or string of the report, in its quotes.\<close>

definition quoted :: "string \<Rightarrow> string" where
  "quoted s = QUOTE # s @ [QUOTE]"

definition report_head :: string where
  "report_head = ''{'' @ quoted ''suite'' @ '':'' @ quoted ''fsstress'' @ '','' @ quoted ''status'' @ '':''
     @ quoted ''failed'' @ '','' @ quoted ''failure'' @ '':'' @ [QUOTE]"

definition sigbus_report :: "nat \<Rightarrow> nat \<Rightarrow> string" where
  "sigbus_report ops errs =
     (let bw = (replicate 512 (CHR 0x00), 0);
          bw = push_bytes bw report_head;
          bw = push_bytes bw SIGBUS_CAUSE;
          bw = push_bytes bw (QUOTE # '','' @ quoted ''totalOps'' @ '':'');
          bw = push_u64 bw ops;
          bw = push_bytes bw ('','' @ quoted ''totalErrors'' @ '':'');
          bw = push_u64 bw errs;
          (buf, w) = push_bytes bw (''}'' @ [LF])
      in take w buf)"

end
