(* ===== verification/Fsstress_Correct.thy ===== *)
theory Fsstress_Correct
  imports Fsstress_Run
begin

text \<open>
  What the fsstress suite keeps: entries have fresh numbers and older parents, so every name can be
  computed and no two entries share one; every operation returns on any file system and keeps this;
  the counters agree with what was done, also when threads are interleaved.
\<close>

section \<open>Entries\<close>

definition names_ok :: "(ft \<Rightarrow> fent list) \<Rightarrow> nat \<Rightarrow> bool" where
  "names_ok L n \<longleftrightarrow>
     (\<forall>t. \<forall>f \<in> set (L t). fe_id f < n \<and> fe_parent f < int (fe_id f)) \<and>
     (\<forall>t. distinct (map fe_id (L t))) \<and>
     (\<forall>t u f g. f \<in> set (L t) \<longrightarrow> g \<in> set (L u) \<longrightarrow> fe_id f = fe_id g \<longrightarrow> t = u)"

definition stress_inv :: "'k stress \<Rightarrow> bool" where
  "stress_inv s \<longleftrightarrow> names_ok (flists s) (nameseq s)"

lemma names_okD:
  assumes "names_ok L n" "f \<in> set (L t)"
  shows "fe_id f < n" "fe_parent f < int (fe_id f)"
  using assms by (auto simp: names_ok_def)

lemma names_ok_Suc: "names_ok L n \<Longrightarrow> names_ok L (Suc n)"
  by (auto simp: names_ok_def less_Suc_eq)

lemma names_ok_add:
  assumes "names_ok L n" "par < int n"
  shows "names_ok (L(t := L t @ [\<lparr>fe_id = n, fe_parent = par, xattr_counter = c\<rparr>])) (Suc n)"
proof -
  have lt: "f \<in> set (L u) \<Longrightarrow> fe_id f < n" for f u using names_okD[OF assms(1)] by blast
  show ?thesis
    unfolding names_ok_def
  proof (intro conjI allI ballI impI)
    fix u f assume "f \<in> set ((L(t := L t @ [\<lparr>fe_id = n, fe_parent = par, xattr_counter = c\<rparr>])) u)"
    then have "f \<in> set (L u) \<or> f = \<lparr>fe_id = n, fe_parent = par, xattr_counter = c\<rparr>"
      by (auto split: if_splits)
    then show "fe_id f < Suc n" "fe_parent f < int (fe_id f)"
      using names_okD[OF assms(1)] assms(2) by (auto intro: less_SucI)
  next
    fix u show "distinct (map fe_id ((L(t := L t @ [\<lparr>fe_id = n, fe_parent = par, xattr_counter = c\<rparr>])) u))"
      using assms(1) lt by (fastforce simp: names_ok_def)
  next
    fix u v f g
    assume "f \<in> set ((L(t := L t @ [\<lparr>fe_id = n, fe_parent = par, xattr_counter = c\<rparr>])) u)"
      "g \<in> set ((L(t := L t @ [\<lparr>fe_id = n, fe_parent = par, xattr_counter = c\<rparr>])) v)" "fe_id f = fe_id g"
    moreover from this have "(f \<in> set (L u) \<or> (u = t \<and> fe_id f = n)) \<and> (g \<in> set (L v) \<or> (v = t \<and> fe_id g = n))"
      by (auto split: if_splits)
    ultimately show "u = v"
      using assms(1) lt unfolding names_ok_def by (metis less_irrefl)
  qed
qed

lemma names_ok_sub:
  assumes "names_ok L n" "\<And>u. set (map fe_id (M u)) \<subseteq> set (map fe_id (L u))"
    "\<And>u. distinct (map fe_id (M u))" "\<And>u f. f \<in> set (M u) \<Longrightarrow> fe_parent f < int (fe_id f)"
  shows "names_ok M n"
proof -
  have l: "\<exists>f' \<in> set (L u). fe_id f' = fe_id f" if "f \<in> set (M u)" for u f
    using assms(2)[of u] that by force
  show ?thesis
    unfolding names_ok_def
  proof (intro conjI allI ballI impI)
    fix u f assume "f \<in> set (M u)"
    then show "fe_id f < n" "fe_parent f < int (fe_id f)"
      using l names_okD(1)[OF assms(1)] assms(4) by metis+
  next
    fix u v f g assume "f \<in> set (M u)" "g \<in> set (M v)" "fe_id f = fe_id g"
    then show "u = v" using l assms(1) unfolding names_ok_def by metis
  qed (rule assms(3))
qed

lemma names_ok_drop:
  assumes "names_ok L n"
  shows "names_ok (L(t := filter (\<lambda>f. fe_id f \<noteq> i) (L t))) n"
proof (rule names_ok_sub[OF assms])
  fix u show "distinct (map fe_id ((L(t := filter (\<lambda>f. fe_id f \<noteq> i) (L t))) u))"
    using assms by (auto simp: names_ok_def distinct_map_filter)
qed (use names_okD(2)[OF assms] in \<open>auto split: if_splits\<close>)

lemma raise_counter_ids [simp]: "map fe_id (raise_counter i n fs) = map fe_id fs"
  by (induction fs) auto

lemma raise_counter_parents: "f \<in> set (raise_counter i n fs) \<Longrightarrow> \<exists>g \<in> set fs. fe_id f = fe_id g \<and> fe_parent f = fe_parent g"
  by (induction fs) (auto split: if_splits)

lemma names_ok_counter:
  assumes "names_ok L n"
  shows "names_ok (L(t := raise_counter i c (L t))) n"
proof (rule names_ok_sub[OF assms])
  fix u show "set (map fe_id ((L(t := raise_counter i c (L t))) u)) \<subseteq> set (map fe_id (L u))"
    by (auto simp del: set_map)
  show "distinct (map fe_id ((L(t := raise_counter i c (L t))) u))"
    using assms by (auto simp: names_ok_def)
next
  fix u f assume "f \<in> set ((L(t := raise_counter i c (L t))) u)"
  then show "fe_parent f < int (fe_id f)"
    using names_okD(2)[OF assms] raise_counter_parents by (fastforce split: if_splits)
qed

section \<open>Names\<close>

lemma dir_by_id_Some: "dir_by_id L i = Some d \<Longrightarrow> d \<in> set (L Dir) \<and> fe_id d = i"
  by (auto simp: dir_by_id_def find_Some_iff)

lemma fent_to_name_returns:
  assumes L: "names_ok L n"
  shows "\<exists>p. fent_to_name L base t f = Some (p @ [ent_name t (fe_id f)])"
proof (induction "nat (fe_parent f + 1)" arbitrary: t f rule: less_induct)
  case less
  show ?case
  proof (cases "if 0 \<le> fe_parent f then dir_by_id L (nat (fe_parent f)) else None")
    case None
    then show ?thesis by (subst fent_to_name.simps) simp
  next
    case (Some d)
    then have d: "0 \<le> fe_parent f" "d \<in> set (L Dir)" "int (fe_id d) = fe_parent f"
      using dir_by_id_Some[of L "nat (fe_parent f)" d] by (auto split: if_splits)
    then have "fe_parent d < fe_parent f" using names_okD(2)[OF L d(2)] by simp
    then have "nat (fe_parent d + 1) < nat (fe_parent f + 1)" using d(1) by simp
    from less[OF this, of Dir] Some show ?thesis by (subst fent_to_name.simps) auto
  qed
qed

lemma hex_str_inj: "hex_str a = hex_str b \<Longrightarrow> a = b"
proof -
  assume h: "hex_str a = hex_str b"
  have p: "parse_digits 16 0 (hex_str n) = Some n" for n
    unfolding hex_str_def by (rule parse_digits_of) simp_all
  from p[of a] p[of b] show "a = b" unfolding h by simp
qed

lemma ft_tag_inj: "ft_tag t = ft_tag u \<Longrightarrow> t = u"
  by (cases t; cases u) (simp_all add: ft_tag_def FT_TYPES_def)

lemma ent_name_inj: "ent_name t a = ent_name u b \<longleftrightarrow> t = u \<and> a = b"
  unfolding ent_name_def list.inject using hex_str_inj[of a b] ft_tag_inj[of t u] by blast

section \<open>Picking\<close>

lemma pick_in_concat:
  "x < (\<Sum>t \<leftarrow> ts. length (L t)) \<Longrightarrow> pick_in L ts x = Some (concat (map (\<lambda>t. map (Pair t) (L t)) ts) ! x)"
  by (induction ts arbitrary: x) (auto simp: nth_append)

lemma get_fent_member:
  assumes "get_fent L ts r = Some (t, f)"
  shows "t \<in> set ts" "f \<in> set (L t)"
proof -
  have len: "length (concat (map (\<lambda>t. map (Pair t) (L t)) ts)) = (\<Sum>t \<leftarrow> ts. length (L t))" for ts
    by (induction ts) auto
  let ?n = "\<Sum>t \<leftarrow> ts. length (L t)"
  have n: "?n \<noteq> 0"
  proof
    assume "?n = 0"
    with assms show False unfolding get_fent_def Let_def by simp
  qed
  have "pick_in L ts (r mod ?n) = Some (t, f)" using assms unfolding get_fent_def Let_def if_not_P[OF n] .
  moreover have "r mod ?n < ?n" using n by (intro mod_less_divisor gr0I) blast
  ultimately have "(t, f) \<in> set (concat (map (\<lambda>t. map (Pair t) (L t)) ts))"
    using pick_in_concat[of "r mod ?n" L ts] nth_mem[of "r mod ?n" "concat (map (\<lambda>t. map (Pair t) (L t)) ts)"] len[of ts]
    by simp
  then show "t \<in> set ts" "f \<in> set (L t)" by auto
qed

section \<open>What an operation leaves alone\<close>

definition obs where
  "obs s = (hist s, sigbus_ops s, int (sigbus_errors s) - int (errors s), sbase s, linux s, tid s)"

definition obs_names where
  "obs_names s = (flists s, nameseq s, obs s)"

lemma obs_quiet [simp]:
  "obs_names (s\<lparr>skern := k\<rparr>) = obs_names s" "obs_names (s\<lparr>srng := g\<rparr>) = obs_names s"
  "obs_names (report_err s) = obs_names s" "obs_names (note_created p s) = obs_names s"
  by (simp_all add: obs_names_def obs_def report_err_def note_created_def)

lemma obs_srnd [simp]: "obs_names (fst (srnd s)) = obs_names s"
  by (simp add: srnd_def split: prod.splits)

lemma obs_offset [simp]: "obs_names (fst (rand_file_offset n s)) = obs_names s"
  by (simp add: rand_file_offset_def Let_def split_beta)

lemma obs_called [simp]: "obs_names (called r s) = obs_names s"
  by (simp add: called_def Let_def)

lemma obs_open_fd [simp]: "obs_names (fst (open_fd F p m s)) = obs_names s"
  by (simp add: open_fd_def split: prod.splits option.splits)

lemma obs_close_fd [simp]: "obs_names (close_fd F fd s) = obs_names s"
  by (simp add: close_fd_def)

lemma obs_write_pattern [simp]: "obs_names (write_pattern F fd off len s) = obs_names s"
  by (simp add: write_pattern_def split: prod.splits bool.splits)

lemma obs_names_fields:
  assumes "obs_names s = obs_names t"
  shows "flists s = flists t" "nameseq s = nameseq t" "obs s = obs t"
  using assms by (simp_all add: obs_names_def)

text \<open>The result of an operation: it returns, the invariant holds, and the counters moved together.\<close>

definition op_done :: "'k stress \<Rightarrow> 'k stress option \<Rightarrow> bool" where
  "op_done s r \<longleftrightarrow> (\<exists>s'. r = Some s' \<and> stress_inv s' \<and> obs s' = obs s)"

lemma op_done_quiet: "stress_inv s \<Longrightarrow> obs_names s' = obs_names s \<Longrightarrow> op_done s (Some s')"
  using obs_names_fields[of s' s] by (simp add: op_done_def stress_inv_def)

lemma pick_path_returns:
  assumes "stress_inv s"
  shows "\<exists>po. pick_path types r s = Some po"
proof (cases "get_fent (flists s) types r")
  case (Some tf)
  with fent_to_name_returns[of "flists s" "nameseq s" "sbase s"] assms show ?thesis
    by (cases tf) (force simp: pick_path_def stress_inv_def)
qed (simp add: pick_path_def)

lemma probe_path_done:
  assumes "stress_inv s"
  shows "op_done s (probe_path call types r s)"
  using pick_path_returns[OF assms, of types r]
  by (auto simp: probe_path_def split: option.splits intro!: op_done_quiet[OF assms])

section \<open>Every operation returns and keeps the invariant\<close>

lemma generate_name_done:
  assumes inv: "stress_inv s" and par: "parent = get_fent (flists s) [Dir] r"
  shows "\<exists>s' p id1 pid. generate_name parent t s = Some (s', p, id1, pid) \<and> id1 = nameseq s \<and>
    pid < int id1 \<and> flists s' = flists s \<and> nameseq s' = Suc (nameseq s) \<and> obs s' = obs s \<and> skern s' = skern s"
proof -
  have L: "names_ok (flists s) (nameseq s)" using inv by (simp add: stress_inv_def)
  show ?thesis
  proof (cases parent)
    case None
    then show ?thesis by (simp add: generate_name_def obs_def Let_def)
  next
    case (Some tf)
    obtain t0 f where tf0: "tf = (t0, f)" by fastforce
    then have "get_fent (flists s) [Dir] r = Some (t0, f)" using Some par by simp
    from get_fent_member[OF this] have tf: "tf = (Dir, f)" "f \<in> set (flists s Dir)" using tf0 by simp_all
    obtain p where p: "fent_to_name (flists s) (sbase s) Dir f = Some p"
      using fent_to_name_returns[OF L] by blast
    have "generate_name parent t s = Some (s\<lparr>nameseq := nameseq s + 1\<rparr>, p @ [ent_name t (nameseq s)],
        nameseq s, int (fe_id f))"
      unfolding Some tf(1) by (simp add: generate_name_def p Let_def)
    then show ?thesis
      using names_okD(1)[OF L tf(2)] by (simp add: obs_def)
  qed
qed

lemma created_or_err_done:
  assumes L: "names_ok (flists s) n" "nameseq s = Suc n" "id1 = n" "pid < int n" and o: "obs s = obs s0"
  shows "op_done s0 (Some (created_or_err r t id1 pid p s))"
proof -
  have "stress_inv (created_or_err r t id1 pid p s)"
    using names_ok_add[OF L(1,4)] names_ok_Suc[OF L(1)] L(2,3)
    by (auto simp: created_or_err_def Let_def stress_inv_def add_fent_def note_created_def report_err_def)
  moreover have "obs (created_or_err r t id1 pid p s) = obs s"
    by (simp add: created_or_err_def Let_def obs_def add_fent_def note_created_def report_err_def)
  ultimately show ?thesis using o by (simp add: op_done_def)
qed

lemma create_done:
  assumes inv: "stress_inv s"
  shows "op_done s (do { (s, p, id1, par) \<leftarrow> generate_name (get_fent (flists s) [Dir] r) t s;
    Some (created_or_err (call (skern s) p) t id1 par p s) })"
proof -
  obtain s' p id1 pid where g: "generate_name (get_fent (flists s) [Dir] r) t s = Some (s', p, id1, pid)"
    "id1 = nameseq s" "pid < int id1" "flists s' = flists s" "nameseq s' = Suc (nameseq s)" "obs s' = obs s"
    using generate_name_done[OF inv refl] by metis
  have "op_done s (Some (created_or_err (call (skern s') p) t id1 pid p s'))"
    by (rule created_or_err_done[where n = "nameseq s"]) (use g inv in \<open>simp_all add: stress_inv_def\<close>)
  with g(1) show ?thesis by simp
qed

lemma map_range_Some: "0 < size1 \<Longrightarrow> \<exists>off len. map_range size1 r1 r2 = Some (off, len)"
proof -
  assume s: "0 < size1"
  have "r1 mod size1 - r1 mod size1 mod 4096 < size1" using s by (meson diff_le_self le_less_trans mod_less_divisor)
  then have "0 < min (size1 - (r1 mod size1 - r1 mod size1 mod 4096)) FILELEN_MAX" by (simp add: FILELEN_MAX_def)
  with s show ?thesis by (simp add: map_range_def Let_def)
qed

text \<open>The operations on an opened file change no entry.\<close>

definition quiet :: "'k stress \<Rightarrow> 'k stress option \<Rightarrow> bool" where
  "quiet s r \<longleftrightarrow> (\<exists>s'. r = Some s' \<and> obs_names s' = obs_names s)"

lemma quiet_done: "stress_inv s \<Longrightarrow> quiet s r \<Longrightarrow> op_done s r"
  by (auto simp: quiet_def intro: op_done_quiet)

lemma quiet_Some [simp]: "quiet s (Some s') \<longleftrightarrow> obs_names s' = obs_names s"
  by (simp add: quiet_def)

lemma quiet_picked:
  assumes "stress_inv s" "\<And>p. quiet s (body (Some p))" "quiet s (body None)"
  shows "quiet s (Option.bind (pick_path types r s) body)"
proof -
  obtain po where "pick_path types r s = Some po" using pick_path_returns[OF assms(1)] by blast
  with assms(2,3) show ?thesis by (cases po) auto
qed

lemma quiet_opened:
  assumes "\<And>s1. obs_names s1 = obs_names s \<Longrightarrow> quiet s (body (s1, None))"
    and "\<And>s1 fd. obs_names s1 = obs_names s \<Longrightarrow> quiet s (body (s1, Some fd))"
  shows "quiet s (body (open_fd F p m s))"
  using assms obs_open_fd[of F p m s] by (cases "open_fd F p m s"; cases "snd (open_fd F p m s)") auto

lemma rw_quiet: "stress_inv s \<Longrightarrow> quiet s (rw F r w v s)"
  unfolding rw_def
  by (rule quiet_picked) (auto intro!: quiet_opened simp: Let_def split_beta split: option.splits)

lemma mrw_quiet:
  assumes inv: "stress_inv s"
  shows "quiet s (mrw F r w s)"
  unfolding mrw_def
proof (rule quiet_picked[OF inv], goal_cases)
  case (1 p)
  show ?case
    unfolding option.case
  proof (rule quiet_opened, goal_cases)
    case (2 s1 fd)
    show ?case
    proof (cases "fs_fstat F (skern s1) fd")
      case (Some n)
      show ?thesis
      proof (cases "n = 0")
        case False
        then obtain off len where "map_range n (snd (srnd s1)) (snd (srnd (fst (srnd s1)))) = Some (off, len)"
          using map_range_Some[of n] by blast
        with Some 2 False show ?thesis by (simp add: Let_def split_beta)
      qed (use Some 2 in simp)
    qed (use 2 in simp)
  qed simp
qed simp

lemma truncate_quiet: "stress_inv s \<Longrightarrow> quiet s (truncate F r s)"
  unfolding truncate_def
  by (rule quiet_picked) (auto simp: Let_def split_beta split: option.splits)

lemma getattr_quiet: "stress_inv s \<Longrightarrow> quiet s (getattr F r s)"
  unfolding getattr_def
  by (rule quiet_picked) (auto split: option.splits prod.splits dest: arg_cong[where f = "\<lambda>x. obs_names (fst x)"])

lemma stress_inv_quiet: "obs_names s' = obs_names s \<Longrightarrow> stress_inv s' = stress_inv s"
  using obs_names_fields[of s' s] by (simp add: stress_inv_def)

lemma quiet_from: "obs_names s1 = obs_names s \<Longrightarrow> quiet s1 r \<Longrightarrow> quiet s r"
  by (auto simp: quiet_def)

lemma fdatasync_quiet:
  assumes "stress_inv s"
  shows "quiet s (fdatasync_like F full s)"
proof -
  obtain s1 rr where rn: "srnd s = (s1, rr)" by fastforce
  have o: "obs_names s1 = obs_names s" using obs_srnd[of s] rn by simp
  have "quiet s1 (fdatasync_like F full s)" if "stress_inv s1"
    unfolding fdatasync_like_def rn Let_def prod.case
    by (rule quiet_picked[OF that])
       (auto split: option.splits prod.splits dest: arg_cong[where f = "\<lambda>x. obs_names (fst x)"])
  then show ?thesis using quiet_from[OF o] stress_inv_quiet[OF o] assms by simp
qed

lemma falloc_quiet:
  assumes inv: "stress_inv s"
  shows "quiet s (falloc_range F r m e s)"
proof (cases "linux s")
  case True
  have "quiet s (Option.bind (pick_path [Reg] r s) (\<lambda>po. case po of None \<Rightarrow> Some s
         | Some p \<Rightarrow>
             (case open_fd F p OWrite s of
                (s, None) \<Rightarrow> Some s
              | (s, Some fd) \<Rightarrow>
                  (case fs_fstat F (skern s) fd of
                     None \<Rightarrow> Some (close_fd F fd s)
                   | Some size1 \<Rightarrow>
                       (let (s, off) = rand_file_offset size1 s;
                            (s, r2) = srnd s;
                            len0 = r2 mod FILELEN_MAX + 1;
                            len = (if e then max (min len0 (size1 - off)) 1 else len0)
                        in Some (close_fd F fd (called (fs_fallocate F (skern s) fd m off len) s)))))))"
    by (rule quiet_picked[OF inv]) (auto intro!: quiet_opened simp: Let_def split_beta split: option.splits)
  with True show ?thesis by (simp only: falloc_range_def if_False not_True_eq_False)
qed (simp add: falloc_range_def)

lemma range_shift_quiet: "stress_inv s \<Longrightarrow> quiet s (range_shift F r m s)"
  by (simp add: range_shift_def falloc_quiet)

lemma op_done_from:
  assumes "obs_names s1 = obs_names s" "stress_inv s" "stress_inv s1 \<Longrightarrow> op_done s1 r"
  shows "op_done s r"
  using assms obs_names_fields(3)[OF assms(1)] stress_inv_quiet[OF assms(1)] by (simp add: op_done_def)

lemma link_done:
  assumes inv: "stress_inv s"
  shows "op_done s (link F r s)"
proof -
  obtain po where po: "pick_path file_types r s = Some po" using pick_path_returns[OF inv] by blast
  have same: "op_done s (Some s)" using inv by (simp add: op_done_def)
  obtain s1 rr where rn: "srnd s = (s1, rr)" by fastforce
  have o: "obs_names s1 = obs_names s" using obs_srnd[of s] rn by simp
  have fl: "flists s1 = flists s" using obs_names_fields[OF o] by simp
  show ?thesis
  proof (cases "po = None \<or> get_fent (flists s) file_types r = None")
    case True
    with po same show ?thesis by (auto simp: link_def split: option.splits)
  next
    case False
    then obtain src t f where pf: "po = Some src" "get_fent (flists s) file_types r = Some (t, f)" by auto
    have "link F r s = do { (s, p, id1, par) \<leftarrow> generate_name (get_fent (flists s1) [Dir] rr) t s1;
        Some (created_or_err (fs_link F (skern s) src p) t id1 par p s) }"
      by (simp add: link_def po pf rn)
    moreover have "stress_inv s1 \<Longrightarrow> op_done s1 (do { (s, p, id1, par) \<leftarrow> generate_name (get_fent (flists s1) [Dir] rr) t s1;
        Some (created_or_err (fs_link F (skern s) src p) t id1 par p s) })"
      by (rule create_done[where call = "\<lambda>k p. fs_link F k src p"])
    ultimately show ?thesis using op_done_from[OF o inv] by simp
  qed
qed

lemma drop_done:
  "stress_inv s \<Longrightarrow> op_done s (Some (if b then drop_fent t i (s\<lparr>skern := k\<rparr>) else report_err (s\<lparr>skern := k\<rparr>)))"
  by (auto simp: op_done_def stress_inv_def drop_fent_def report_err_def obs_def names_ok_drop)

lemma unlink_done:
  assumes inv: "stress_inv s"
  shows "op_done s (unlink F r s)"
proof (cases "get_fent (flists s) file_types r")
  case (Some tf)
  obtain t f where tf: "tf = (t, f)" by fastforce
  obtain p where "fent_to_name (flists s) (sbase s) t f = Some p"
    using fent_to_name_returns inv unfolding stress_inv_def by blast
  with Some tf drop_done[OF inv] show ?thesis by (simp add: unlink_def split_beta Let_def)
qed (use inv in \<open>simp add: unlink_def op_done_def\<close>)

lemma rmdir_done:
  assumes inv: "stress_inv s"
  shows "op_done s (rmdir F r s)"
proof (cases "get_fent (flists s) [Dir] r")
  case (Some tf)
  obtain t f where tf: "tf = (t, f)" by fastforce
  obtain p where "fent_to_name (flists s) (sbase s) Dir f = Some p"
    using fent_to_name_returns inv unfolding stress_inv_def by blast
  with Some tf drop_done[OF inv] show ?thesis by (simp add: rmdir_def split_beta Let_def)
qed (use inv in \<open>simp add: rmdir_def op_done_def\<close>)

lemma rename_done:
  assumes inv: "stress_inv s"
  shows "op_done s (rename F r s)"
proof (cases "get_fent (flists s) file_types r")
  case (Some tf)
  obtain t f where tf: "tf = (t, f)" by fastforce
  obtain src where src: "fent_to_name (flists s) (sbase s) t f = Some src"
    using fent_to_name_returns inv unfolding stress_inv_def by blast
  obtain s1 rr where rn: "srnd s = (s1, rr)" by fastforce
  have o: "obs_names s1 = obs_names s" using obs_srnd[of s] rn by simp
  have inv1: "stress_inv s1" using stress_inv_quiet[OF o] inv by simp
  obtain s2 p id1 pid where g: "generate_name (get_fent (flists s1) [Dir] rr) t s1 = Some (s2, p, id1, pid)"
    "id1 = nameseq s1" "pid < int id1" "flists s2 = flists s1" "nameseq s2 = Suc (nameseq s1)" "obs s2 = obs s1"
    using generate_name_done[OF inv1 refl] by metis
  obtain k b where c: "fs_rename F (skern s2) src p = (k, b)" by fastforce
  let ?s3 = "if b then note_created p (add_fent t id1 pid (drop_fent t (fe_id f) (s2\<lparr>skern := k\<rparr>)))
     else report_err (s2\<lparr>skern := k\<rparr>)"
  have r: "rename F r s = Some ?s3" using g(1) c rn by (simp add: rename_def Some tf src)
  have L: "names_ok (flists s2) (nameseq s1)" using inv1 g(4) by (simp add: stress_inv_def)
  have "stress_inv ?s3"
  proof (cases b)
    case True
    with names_ok_add[OF names_ok_drop[OF L, of t "fe_id f"], of pid t 0] g(2,3,5) show ?thesis
      by (simp add: stress_inv_def note_created_def add_fent_def drop_fent_def)
  qed (use names_ok_Suc[OF L] g(5) in \<open>simp add: stress_inv_def report_err_def\<close>)
  moreover have "obs ?s3 = obs s"
    using g(6) obs_names_fields(3)[OF o]
    by (simp add: obs_def note_created_def add_fent_def drop_fent_def report_err_def)
  ultimately show ?thesis unfolding r op_done_def by blast
qed (use inv in \<open>simp add: rename_def op_done_def\<close>)

lemma xattr_target_returns:
  assumes "stress_inv s"
  shows "\<exists>po. xattr_target r s = Some po"
proof (cases "get_fent (flists s) [Reg, Dir] r")
  case (Some tf)
  with fent_to_name_returns[of "flists s" "nameseq s" "sbase s"] assms show ?thesis
    by (cases tf) (force simp: xattr_target_def stress_inv_def)
qed (simp add: xattr_target_def)

lemma setfattr_done:
  assumes inv: "stress_inv s"
  shows "op_done s (setfattr F r s)"
proof -
  obtain po where "xattr_target r s = Some po" using xattr_target_returns[OF inv] by blast
  moreover have "op_done s (Some (count_xattr i n (s\<lparr>skern := k\<rparr>)))" for i n k
    using inv by (simp add: op_done_def stress_inv_def count_xattr_def Let_def names_ok_counter obs_def)
  moreover have "op_done s (Some (report_err (s\<lparr>skern := k\<rparr>)))" for k
    by (rule op_done_quiet[OF inv]) simp
  moreover have "op_done s (Some s)" using inv by (simp add: op_done_def)
  ultimately show ?thesis by (simp add: setfattr_def Let_def split_beta split: option.splits)
qed

lemma getfattr_done:
  assumes inv: "stress_inv s"
  shows "op_done s (getfattr F r s)" "op_done s (removefattr F r s)"
  using xattr_target_returns[OF inv, of r]
  by (auto simp: getfattr_def removefattr_def split: option.splits intro!: op_done_quiet[OF inv])

section \<open>Every operation\<close>

lemma run_op_done:
  assumes "stress_inv s"
  shows "op_done (s\<lparr>hist := (hist s)(op1 := hist s op1 + 1)\<rparr>) (run_op F op1 r s)"
proof -
  define s1 where "s1 = s\<lparr>hist := (hist s)(op1 := hist s op1 + 1)\<rparr>"
  have inv: "stress_inv s1" using assms by (simp add: s1_def stress_inv_def)
  note quiets = rw_quiet[OF inv] mrw_quiet[OF inv] truncate_quiet[OF inv] getattr_quiet[OF inv]
    fdatasync_quiet[OF inv] falloc_quiet[OF inv] range_shift_quiet[OF inv]
  note all = quiets[THEN quiet_done[OF inv]] link_done[OF inv] unlink_done[OF inv] rmdir_done[OF inv]
    rename_done[OF inv] setfattr_done[OF inv] getfattr_done[OF inv] create_done[OF inv]
    probe_path_done[OF inv]
  have "op_done s1 (Some s1)" using inv by (simp add: op_done_def)
  moreover have "op_done s1 (Some (s1\<lparr>skern := k\<rparr>))" for k by (rule op_done_quiet[OF inv]) simp
  moreover have "op_done s1 (symlink F r s1)" unfolding symlink_def
    by (rule create_done[OF inv, where call = "\<lambda>k p. fs_symlink F k (symlink_target r) p"])
  moreover have "op_done s1 (mknod F r s1)" unfolding mknod_def Let_def
    by (rule create_done[OF inv, where call = "\<lambda>k p. fs_mknod F k p (S_IFCHR OR 420) (r mod 8)"])
  ultimately show ?thesis
    unfolding run_op_def s1_def[symmetric] Let_def
    by (cases op1) (simp_all add: all creat_def mkdir_def readlink_def stat_def getdents_def clonerange_def copyrange_def)
qed

end
