(* ===== verification/Fsstress_Properties.thy ===== *)
theory Fsstress_Properties
  imports Fsstress_Correct
begin

text \<open>
  The properties of the fsstress suite: whole runs of a thread and of interleaved threads over any
  file system, names of entries, the frequency table, the mapped ranges and the report of the signal
  handler.
\<close>

section \<open>Steps and loops\<close>

definition all_ops :: "stress_op set" where
  "all_ops = fst ` set OP_TABLE"

lemma all_ops: "finite all_ops" "p \<in> all_ops"
  by (simp add: all_ops_def) (cases p; simp add: all_ops_def OP_TABLE_def)

definition ops_run :: "'k stress \<Rightarrow> nat" where
  "ops_run s = sum (hist s) all_ops"

lemma sum_hist_Suc: "(\<Sum>x\<in>all_ops. if x = p then Suc (h p) else h x) = Suc (sum h all_ops)"
proof -
  have rest: "(\<Sum>x\<in>all_ops - {p}. if x = p then Suc (h p) else h x) = sum h (all_ops - {p})"
    by (rule sum.cong) auto
  have "(\<Sum>x\<in>all_ops. if x = p then Suc (h p) else h x) = Suc (h p) + sum h (all_ops - {p})"
    unfolding rest[symmetric] using sum.remove[OF all_ops, of "\<lambda>x. if x = p then Suc (h p) else h x" p] by simp
  then show ?thesis using sum.remove[OF all_ops, of h p] by simp
qed

text \<open>What a step changes: one operation more, and as many errors in both counters.\<close>

definition advanced :: "nat \<Rightarrow> 'k stress \<Rightarrow> 'k stress \<Rightarrow> bool" where
  "advanced n s s' \<longleftrightarrow> stress_inv s' \<and> ops_run s' = ops_run s + n \<and> sigbus_ops s' = sigbus_ops s + n \<and>
     int (sigbus_errors s') - int (errors s') = int (sigbus_errors s) - int (errors s)"

lemma advanced_trans: "advanced n s t \<Longrightarrow> advanced m t u \<Longrightarrow> advanced (n + m) s u"
  by (simp add: advanced_def)

lemma stress_step_done:
  assumes inv: "stress_inv s" and t: "table \<noteq> []"
  shows "\<exists>s'. stress_step F table s = Some s' \<and> advanced 1 s s'"
proof -
  obtain s1 r1 where r1: "srnd s = (s1, r1)" by fastforce
  obtain s2 r2 where r2: "srnd s1 = (s2, r2)" by fastforce
  have o: "obs_names s2 = obs_names s" using obs_srnd[of s] obs_srnd[of s1] r1 r2 by simp
  have inv2: "stress_inv s2" using stress_inv_quiet[OF o] inv by simp
  define p where "p = table ! (r1 mod length table)"
  obtain s' where s': "run_op F p r2 s2 = Some s'" "stress_inv s'" "obs s' = obs (s2\<lparr>hist := (hist s2)(p := hist s2 p + 1)\<rparr>)"
    using run_op_done[OF inv2, of p F r2] unfolding op_done_def by blast
  have "stress_step F table s = Some (s'\<lparr>sigbus_ops := sigbus_ops s' + 1\<rparr>)"
    using r1 r2 s'(1) t by (simp add: stress_step_def p_def)
  moreover have "advanced 1 s (s'\<lparr>sigbus_ops := sigbus_ops s' + 1\<rparr>)"
    using s'(2,3) obs_names_fields(3)[OF o]
    by (simp add: advanced_def obs_def ops_run_def stress_inv_def sum_hist_Suc)
  ultimately show ?thesis by blast
qed

lemma ops_loop_done:
  "stress_inv s \<Longrightarrow> table \<noteq> [] \<Longrightarrow>
   \<exists>s' m c'. ops_loop F table dur el n s d c = Some (s', d + m, c') \<and> advanced m s s' \<and> (dur = 0 \<longrightarrow> m = n)"
proof (induction n arbitrary: s d c)
  case 0
  then show ?case by (auto simp: advanced_def)
next
  case (Suc n)
  show ?case
  proof (cases "expired dur el c")
    case True
    with Suc.prems show ?thesis by (auto simp: advanced_def expired_def intro!: exI[of _ 0])
  next
    case False
    obtain s1 where s1: "stress_step F table s = Some s1" "advanced 1 s s1"
      using stress_step_done[OF Suc.prems] by blast
    then have "stress_inv s1" by (simp add: advanced_def)
    from Suc.IH[OF this Suc.prems(2), of "d + 1" "c + 1"] obtain s' m c' where
      "ops_loop F table dur el n s1 (d + 1) (c + 1) = Some (s', d + 1 + m, c')" "advanced m s1 s'" "dur = 0 \<longrightarrow> m = n"
      by blast
    with s1 False advanced_trans[OF s1(2)] show ?thesis
      by (intro exI[of _ s'] exI[of _ "Suc m"] exI[of _ c']) simp
  qed
qed

lemma rounds_loop_done:
  "stress_inv s \<Longrightarrow> table \<noteq> [] \<Longrightarrow>
   \<exists>s' m c'. rounds_loop F table dur el nops n s d c = Some (s', d + m, c') \<and> advanced m s s' \<and>
     (dur = 0 \<longrightarrow> m = nops * n)"
proof (induction n arbitrary: s d c)
  case 0
  then show ?case by (auto simp: advanced_def)
next
  case (Suc n)
  show ?case
  proof (cases "expired dur el c")
    case True
    with Suc.prems show ?thesis by (auto simp: advanced_def expired_def intro!: exI[of _ 0])
  next
    case False
    obtain s1 m1 c1 where s1: "ops_loop F table dur el nops s d (c + 1) = Some (s1, d + m1, c1)"
      "advanced m1 s s1" "dur = 0 \<longrightarrow> m1 = nops"
      using ops_loop_done[OF Suc.prems] by blast
    then have "stress_inv s1" by (simp add: advanced_def)
    from Suc.IH[OF this Suc.prems(2), of "d + m1" c1] obtain s' m c' where
      "rounds_loop F table dur el nops n s1 (d + m1) c1 = Some (s', d + m1 + m, c')" "advanced m s1 s'"
      "dur = 0 \<longrightarrow> m = nops * n" by blast
    with s1 False advanced_trans[OF s1(2)] show ?thesis
      by (intro exI[of _ s'] exI[of _ "m1 + m"] exI[of _ c']) (simp add: add.assoc)
  qed
qed

lemma thread_new_ok: "stress_inv (thread_new g base lx t seed)" "ops_run (thread_new g base lx t seed) = 0"
  by (simp_all add: stress_inv_def thread_new_def names_ok_def ops_run_def)


text \<open>A file system for the examples: names are created and removed, data calls fail.\<close>

definition null_fs :: "unit fsys" where
  "null_fs = \<lparr>fs_creat = (\<lambda>k p. (k, True)), fs_mkdir = (\<lambda>k p. (k, True)), fs_mknod = (\<lambda>k p m d. (k, False)),
     fs_symlink = (\<lambda>k t p. (k, True)), fs_link = (\<lambda>k p q. (k, False)), fs_unlink = (\<lambda>k p. (k, True)),
     fs_rmdir = (\<lambda>k p. (k, False)), fs_rename = (\<lambda>k p q. (k, True)), fs_open = (\<lambda>k p m. (k, None)),
     fs_close = (\<lambda>k fd. k), fs_fstat = (\<lambda>k fd. None), fs_lseek = (\<lambda>k fd o1. (k, False)),
     fs_write = (\<lambda>k fd b. (k, - 1)), fs_writev = (\<lambda>k fd b. (k, - 1)), fs_pread = (\<lambda>k fd n o1. k),
     fs_readv = (\<lambda>k fd n. k), fs_mmap = (\<lambda>k fd w sh o1 n. (k, False)), fs_mstore = (\<lambda>k fd o1 b. k),
     fs_fsync = (\<lambda>k fd f. (k, False)), fs_fallocate = (\<lambda>k fd m o1 n. (k, False)), fs_getflags = (\<lambda>k fd. k),
     fs_sync = (\<lambda>k. k), fs_stat = (\<lambda>k p. None), fs_truncate = (\<lambda>k p n. (k, False)),
     fs_readlink = (\<lambda>k p. False), fs_lstat = (\<lambda>k p. False), fs_readdir = (\<lambda>k p. False),
     fs_setxattr = (\<lambda>k p n v. (k, False)), fs_getxattr = (\<lambda>k p n. False),
     fs_removexattr = (\<lambda>k p n. (k, False))\<rparr>"

definition no_shared :: "unit stress_shared" where
  "no_shared = \<lparr>skern = (), created = {}, sigbus_ops = 0, sigbus_errors = 0\<rparr>"


section \<open>Names\<close>

text \<open>
  C8: After any run, every entry a thread lists has a path, and the entries at two different places of its lists never
  share one: the path is computed without running into a cycle of parents, and it ends with the entry's own tag and
  number, which no other entry has. So no entry is listed twice, and an operation never works on another entry's name.
\<close>

theorem entries_have_distinct_paths:
  assumes "table \<noteq> []"
    and "thread_run F table dur el nops rounds (thread_new g base lx t seed) = Some (s, d)"
    and "i < length (flists s ft1)" "j < length (flists s ft2)" "(ft1, i) \<noteq> (ft2, j)"
  shows "\<exists>p q. fent_to_name (flists s) (sbase s) ft1 (flists s ft1 ! i) = Some p \<and>
    fent_to_name (flists s) (sbase s) ft2 (flists s ft2 ! j) = Some q \<and> p \<noteq> q"
proof -
  obtain s' m c' where r: "rounds_loop F table dur el nops (max rounds 1) (thread_new g base lx t seed) 0 0 = Some (s', 0 + m, c')"
    "advanced m (thread_new g base lx t seed) s'"
    using rounds_loop_done[OF thread_new_ok(1) assms(1)] by blast
  then have "s = s'" using assms(2) by (simp add: thread_run_def)
  then have L: "names_ok (flists s) (nameseq s)" using r(2) by (simp add: advanced_def stress_inv_def)
  have "(ft1, fe_id (flists s ft1 ! i)) \<noteq> (ft2, fe_id (flists s ft2 ! j))"
  proof (cases "ft1 = ft2")
    case True
    have "distinct (map fe_id (flists s ft1))" using L by (simp add: names_ok_def)
    from nth_eq_iff_index_eq[OF this, of i j] show ?thesis using True assms(3-5) by auto
  qed simp
  moreover obtain p q where
    "fent_to_name (flists s) (sbase s) ft1 (flists s ft1 ! i) = Some (p @ [ent_name ft1 (fe_id (flists s ft1 ! i))])"
    "fent_to_name (flists s) (sbase s) ft2 (flists s ft2 ! j) = Some (q @ [ent_name ft2 (fe_id (flists s ft2 ! j))])"
    using fent_to_name_returns[OF L] assms(3,4) nth_mem by metis
  ultimately show ?thesis by (simp add: ent_name_inj)
qed

text \<open>A run of two creations lists two files whose numbers are 0 and 1.\<close>

lemma creat_step:
  assumes "flists s Dir = []"
  shows "\<exists>s'. stress_step null_fs [Creat] s = Some s' \<and> flists s' Dir = [] \<and> nameseq s' = Suc (nameseq s) \<and>
    flists s' Reg = flists s Reg @ [\<lparr>fe_id = nameseq s, fe_parent = - 1, xattr_counter = 0\<rparr>]"
proof -
  obtain s1 r1 where r1: "srnd s = (s1, r1)" by fastforce
  obtain s2 r2 where r2: "srnd s1 = (s2, r2)" by fastforce
  have o: "obs_names s2 = obs_names s" using obs_srnd[of s] obs_srnd[of s1] r1 r2 by simp
  from obs_names_fields(1,2)[OF o] assms show ?thesis
    by (simp add: stress_step_def r1 r2 run_op_def creat_def generate_name_def get_fent_def
        created_or_err_def null_fs_def note_created_def add_fent_def Let_def)
qed

lemma two_creats:
  "\<exists>s. thread_run null_fs [Creat] 0 (\<lambda>c. c) 2 1 (thread_new no_shared [''mnt''] True 0 7) = Some (s, 2) \<and>
     flists s Reg = [\<lparr>fe_id = 0, fe_parent = - 1, xattr_counter = 0\<rparr>, \<lparr>fe_id = 1, fe_parent = - 1, xattr_counter = 0\<rparr>]"
proof -
  let ?s = "thread_new no_shared [''mnt''] True 0 7"
  have z: "flists ?s Dir = []" "flists ?s Reg = []" "nameseq ?s = 0" by (simp_all add: thread_new_def)
  obtain s1 where s1: "stress_step null_fs [Creat] ?s = Some s1" "flists s1 Dir = []" "nameseq s1 = 1"
    "flists s1 Reg = [\<lparr>fe_id = 0, fe_parent = - 1, xattr_counter = 0\<rparr>]"
    using creat_step[of ?s] z by auto
  obtain s2 where s2: "stress_step null_fs [Creat] s1 = Some s2"
    "flists s2 Reg = [\<lparr>fe_id = 0, fe_parent = - 1, xattr_counter = 0\<rparr>, \<lparr>fe_id = 1, fe_parent = - 1, xattr_counter = 0\<rparr>]"
    using creat_step[of s1] s1 by auto
  show ?thesis
    using s1(1) s2 by (simp add: thread_run_def expired_def eval_nat_numeral)
qed

theorem entries_have_distinct_paths_witness:
  "\<exists>s p q. thread_run null_fs [Creat] 0 (\<lambda>c. c) 2 1 (thread_new no_shared [''mnt''] True 0 7) = Some (s, 2) \<and>
     fent_to_name (flists s) (sbase s) Reg (flists s Reg ! 0) = Some p \<and>
     fent_to_name (flists s) (sbase s) Reg (flists s Reg ! 1) = Some q \<and> p \<noteq> q"
proof -
  obtain s where s: "thread_run null_fs [Creat] 0 (\<lambda>c. c) 2 1 (thread_new no_shared [''mnt''] True 0 7) = Some (s, 2)"
    "flists s Reg = [\<lparr>fe_id = 0, fe_parent = - 1, xattr_counter = 0\<rparr>, \<lparr>fe_id = 1, fe_parent = - 1, xattr_counter = 0\<rparr>]"
    using two_creats by blast
  from entries_have_distinct_paths[OF _ s(1), of 0 Reg 1 Reg] s show ?thesis by simp
qed

section \<open>Interleaved threads\<close>

lemma take_shared_ok:
  "stress_inv (take_shared g t) = stress_inv t" "ops_run (take_shared g t) = ops_run t"
  "sigbus_ops (take_shared g t) = sigbus_ops g" "sigbus_errors (take_shared g t) = sigbus_errors g"
  "errors (take_shared g t) = errors t"
  by (simp_all add: take_shared_def stress_inv_def ops_run_def)

lemma sum_list_set_one:
  fixes f :: "'a \<Rightarrow> int"
  shows "i < length xs \<Longrightarrow> (\<Sum>x \<leftarrow> xs[i := y]. f x) = (\<Sum>x \<leftarrow> xs. f x) - f (xs ! i) + f y"
  by (induction xs arbitrary: i) (auto split: nat.splits)

text \<open>
  C9: Interleaved threads keep the totals. For any schedule of operations among the threads and any
  file system they share, the run returns, every thread keeps its invariant, the operations run by
  all threads grow by the length of the schedule, as does the shared operation counter, and the
  shared error counter grows by the sum of the threads' new errors.
\<close>

theorem schedule_keeps_totals:
  assumes "table \<noteq> []" "list_all stress_inv ts" "list_all (\<lambda>i. i < length ts) sch"
  shows "\<exists>g' ts'. run_schedule F table sch g ts = Some (g', ts') \<and> list_all stress_inv ts' \<and>
    length ts' = length ts \<and>
    (\<Sum>t \<leftarrow> ts'. int (ops_run t)) = (\<Sum>t \<leftarrow> ts. int (ops_run t)) + int (length sch) \<and>
    sigbus_ops g' = sigbus_ops g + length sch \<and>
    int (sigbus_errors g') - (\<Sum>t \<leftarrow> ts'. int (errors t)) = int (sigbus_errors g) - (\<Sum>t \<leftarrow> ts. int (errors t))"
  using assms(2,3)
proof (induction sch arbitrary: g ts)
  case (Cons i sch)
  have i: "i < length ts" using Cons.prems by simp
  have "stress_inv (take_shared g (ts ! i))" using Cons.prems i by (simp add: take_shared_ok list_all_length)
  then obtain t' where t': "stress_step F table (take_shared g (ts ! i)) = Some t'" "advanced 1 (take_shared g (ts ! i)) t'"
    using stress_step_done[OF _ assms(1)] by blast
  let ?ts = "ts[i := t']"
  have gs: "sigbus_ops (give_shared t') = sigbus_ops g + 1" "int (sigbus_errors (give_shared t')) = int (sigbus_errors g) + int (errors t') - int (errors (ts ! i))"
    using t'(2) by (simp_all add: advanced_def give_shared_def take_shared_ok)
  have "list_all stress_inv ?ts" using Cons.prems(1) t'(2) i
    by (auto simp: list_all_length nth_list_update advanced_def)
  moreover have "list_all (\<lambda>i. i < length ?ts) sch" using Cons.prems(2) by simp
  ultimately obtain g' ts' where r: "run_schedule F table sch (give_shared t') ?ts = Some (g', ts')" "list_all stress_inv ts'"
    "length ts' = length ?ts" "(\<Sum>t \<leftarrow> ts'. int (ops_run t)) = (\<Sum>t \<leftarrow> ?ts. int (ops_run t)) + int (length sch)"
    "sigbus_ops g' = sigbus_ops (give_shared t') + length sch"
    "int (sigbus_errors g') - (\<Sum>t \<leftarrow> ts'. int (errors t)) = int (sigbus_errors (give_shared t')) - (\<Sum>t \<leftarrow> ?ts. int (errors t))"
    using Cons.IH[of ?ts "give_shared t'"] by blast
  have sums: "(\<Sum>t \<leftarrow> ?ts. int (ops_run t)) = (\<Sum>t \<leftarrow> ts. int (ops_run t)) + 1"
    "(\<Sum>t \<leftarrow> ?ts. int (errors t)) = (\<Sum>t \<leftarrow> ts. int (errors t)) - int (errors (ts ! i)) + int (errors t')"
    using t'(2) sum_list_set_one[OF i, of "\<lambda>t. int (ops_run t)" t'] sum_list_set_one[OF i, of "\<lambda>t. int (errors t)" t']
    by (simp_all add: advanced_def take_shared_ok)
  show ?case using r t'(1) i gs sums by simp
qed simp

theorem schedule_keeps_totals_witness:
  "\<exists>g' ts'. run_schedule null_fs [Mkdir, RmDir] [0, 1, 1, 0] no_shared
      [thread_new no_shared [''mnt''] True 0 7, thread_new no_shared [''mnt''] True 1 7] = Some (g', ts') \<and>
    (\<Sum>t \<leftarrow> ts'. int (ops_run t)) = 4 \<and> int (sigbus_errors g') = (\<Sum>t \<leftarrow> ts'. int (errors t))"
proof -
  let ?ts = "[thread_new no_shared [''mnt''] True 0 7, thread_new no_shared [''mnt''] True 1 7]"
  have "list_all stress_inv ?ts" "(\<Sum>t \<leftarrow> ?ts. int (ops_run t)) = 0" "(\<Sum>t \<leftarrow> ?ts. int (errors t)) = 0"
    "sigbus_errors no_shared = 0"
    by (simp_all add: thread_new_ok) (simp_all add: thread_new_def no_shared_def)
  with schedule_keeps_totals[of "[Mkdir, RmDir]" ?ts "[0, 1, 1, 0]" null_fs no_shared] show ?thesis by fastforce
qed

section \<open>The frequency table\<close>

lemma op_list_set: "p \<in> set (op_list fr) \<longleftrightarrow> 0 < fr p"
proof
  assume "0 < fr p"
  then show "p \<in> set (op_list fr)" by (cases p) (simp_all add: op_list_def OP_TABLE_def)
next
  assume "p \<in> set (op_list fr)"
  then show "0 < fr p" by (auto simp: op_list_def gr0_conv_Suc dest: gr0_implies_Suc)
qed

definition is_write :: "stress_op \<Rightarrow> bool" where
  "is_write p = (case List.find (\<lambda>(x, n, f, w). x = p) OP_TABLE of Some (x, n, f, w) \<Rightarrow> w | None \<Rightarrow> False)"

lemma zero_where_zero:
  "0 < zero_where sel es fr p \<Longrightarrow> 0 < fr p \<and> (\<forall>n f w. (p, n, f, w) \<in> set es \<longrightarrow> \<not> sel w)"
  by (induction sel es fr rule: zero_where.induct) (fastforce split: if_splits)+

lemma in_table: "\<exists>n f. (p, n, f, is_write p) \<in> set OP_TABLE"
  by (cases p) (simp_all add: is_write_def OP_TABLE_def)

lemma default_linux: "\<not> lx \<Longrightarrow> linux_only p \<Longrightarrow> default_freqs lx p = 0"
proof -
  assume "\<not> lx" "linux_only p"
  then have "default_freqs_of es lx p = 0" for es by (induction es lx p rule: default_freqs_of.induct) auto
  then show ?thesis by (simp add: default_freqs_def)
qed

lemma apply_specs_linux:
  "apply_specs lx specs fr = Inr fr' \<Longrightarrow> \<not> lx \<Longrightarrow> linux_only p \<Longrightarrow> fr p = 0 \<Longrightarrow> fr' p = 0"
proof (induction lx specs fr rule: apply_specs.induct)
  case (2 lx x xs fr)
  then obtain fr1 where s: "apply_spec lx x fr = Inr fr1" by (auto split: sum.splits)
  then have "fr1 p = 0" using "2.prems" by (auto simp: apply_spec_def split: option.splits prod.splits if_splits)
  with 2 s show ?case by simp
qed simp

text \<open>
  The operation table obeys the options: it is never empty, a read-only run can draw no writing
  operation, a write-only run only writing ones, and off Linux no operation that needs Linux can be
  drawn, whatever frequencies are given.
\<close>

theorem table_obeys_options:
  assumes "build_table lx specs ro wo = Inr table"
  shows "table \<noteq> [] \<and> (\<forall>p. p \<in> set table \<longrightarrow> (ro \<longrightarrow> \<not> is_write p) \<and> (wo \<longrightarrow> is_write p) \<and>
    (\<not> lx \<longrightarrow> \<not> linux_only p))"
proof -
  obtain fr where fr: "apply_specs lx specs (default_freqs lx) = Inr fr"
    using assms by (auto simp: build_table_def split: sum.splits)
  define fr1 where "fr1 = (if ro then zero_where (\<lambda>w. w) OP_TABLE fr else fr)"
  define fr2 where "fr2 = (if wo then zero_where Not OP_TABLE fr1 else fr1)"
  have t: "table = op_list fr2" "table \<noteq> []"
    using assms fr by (auto simp: build_table_def fr1_def fr2_def Let_def split: if_splits)
  have "(ro \<longrightarrow> \<not> is_write p) \<and> (wo \<longrightarrow> is_write p) \<and> (\<not> lx \<longrightarrow> \<not> linux_only p)" if "p \<in> set table" for p
  proof -
    have p2: "0 < fr2 p" using that t(1) op_list_set by blast
    then have p1: "0 < fr1 p" using zero_where_zero[of Not OP_TABLE fr1 p] by (auto simp: fr2_def split: if_splits)
    then have p0: "0 < fr p" using zero_where_zero[of "\<lambda>w. w" OP_TABLE fr p] by (auto simp: fr1_def split: if_splits)
    obtain n f where tab: "(p, n, f, is_write p) \<in> set OP_TABLE" using in_table by blast
    have "ro \<Longrightarrow> \<not> is_write p" using zero_where_zero[of "\<lambda>w. w" OP_TABLE fr p] p1 tab by (auto simp: fr1_def)
    moreover have "wo \<Longrightarrow> is_write p" using zero_where_zero[of Not OP_TABLE fr1 p] p2 tab by (auto simp: fr2_def)
    moreover have "\<not> lx \<Longrightarrow> \<not> linux_only p" using apply_specs_linux[OF fr] default_linux p0 by fastforce
    ultimately show ?thesis by blast
  qed
  with t show ?thesis by blast
qed

theorem table_obeys_options_witness:
  "\<exists>table. build_table False [''stat=3''] True False = Inr table \<and> Stat \<in> set table \<and> Write \<notin> set table"
proof -
  have "op_by_name ''stat'' = Some Stat" by (simp add: op_by_name_def OP_TABLE_def)
  moreover have "split_once ''='' ''stat=3'' = Some (''stat'', ''3'')" by (simp add: split_once_def starts_with_def)
  moreover have "digits_of 10 3 = ''3''" by (simp add: digits_of.simps digit_char_def digit_char_lits)
  with parse_uint_digits_of[of 10 3 "2 ^ 32"] have "parse_uint (2 ^ 32) 10 ''3'' = Some 3" by simp
  ultimately have sp: "apply_specs False [''stat=3''] (default_freqs False) = Inr ((default_freqs False)(Stat := 3))"
    by (simp add: apply_spec_def linux_only_def)
  let ?t = "op_list (zero_where (\<lambda>w. w) OP_TABLE ((default_freqs False)(Stat := 3)))"
  have st: "Stat \<in> set ?t" by (simp add: op_list_set OP_TABLE_def)
  then have "?t \<noteq> []" by auto
  then have b: "build_table False [''stat=3''] True False = Inr ?t"
    using sp by (simp add: build_table_def Let_def)
  moreover have "is_write Write" by (simp add: is_write_def OP_TABLE_def)
  ultimately show ?thesis using table_obeys_options[OF b] st by auto
qed

section \<open>Mapped ranges\<close>

text \<open>
  The mapped reads and writes stay within the file: for a file of at least one byte and any two
  random numbers, the mapped range starts at a page, is not empty, ends at or before EOF, and is no
  longer than FILELEN\_MAX.
\<close>

theorem mapped_range_within_file:
  assumes "0 < size1"
  shows "\<exists>off len. map_range size1 r1 r2 = Some (off, len) \<and> 4096 dvd off \<and> 0 < len \<and> off + len \<le> size1 \<and>
    len \<le> FILELEN_MAX"
proof -
  define off where "off = r1 mod size1 - r1 mod size1 mod 4096"
  define m where "m = min (size1 - off) FILELEN_MAX"
  have off: "off < size1" "4096 dvd off"
    using assms by (auto simp: off_def dvd_minus_mod intro: le_less_trans[OF diff_le_self])
  then have m: "0 < m" "m \<le> size1 - off" "m \<le> FILELEN_MAX" by (simp_all add: m_def FILELEN_MAX_def)
  have "r2 mod m < m" using m(1) by simp
  then have len: "off + (r2 mod m + 1) \<le> size1" "r2 mod m + 1 \<le> FILELEN_MAX" using m off(1) by linarith+
  have "map_range size1 r1 r2 = Some (off, r2 mod m + 1)"
    unfolding map_range_def rmod_Some[OF assms] Option.bind_lunit Let_def off_def[symmetric] m_def[symmetric]
      rmod_Some[OF m(1)] using len(1) by simp
  with off len show ?thesis by simp
qed

theorem mapped_range_within_file_witness:
  "\<exists>off len. map_range 5000 9999 123456 = Some (off, len) \<and> 4096 dvd off \<and> off + len \<le> 5000"
  using mapped_range_within_file[of 5000 9999 123456] by auto

section \<open>The report of the signal handler\<close>

lemma u64_digits_prefix:
  assumes "0 < i" "i \<le> length tmp" "v < 10 ^ i"
  shows "\<exists>tmp' j. u64_digits tmp i v = (tmp', j) \<and> drop j tmp' = digits_of 10 v @ drop i tmp \<and> length tmp' = length tmp"
  using assms
proof (induction tmp i v rule: u64_digits.induct)
  case (1 tmp i v)
  let ?c = "char_of (48 + v mod 10) :: char"
  let ?t = "tmp[i - 1 := ?c]"
  have d: "drop (i - 1) ?t = ?c # drop i tmp"
    using "1.prems" by (cases i) (simp_all add: drop_update_swap Cons_nth_drop_Suc[symmetric])
  have c: "?c = digit_char (v mod 10)" by (simp add: digit_char_def)
  show ?case
  proof (cases "v div 10 = 0")
    case True
    then have "v < 10" by (simp add: div_eq_0_iff)
    then show ?thesis using d c by (subst u64_digits.simps) (simp add: digits_of.simps[of 10 v] Let_def True)
  next
    case False
    have v: "v div 10 < 10 ^ (i - 1)" using "1.prems" by (cases i) (simp_all add: div_less_iff_less_mult mult.commute)
    with False have "0 < i - 1" by (cases "i - 1") auto
    with v "1.prems" have "\<exists>tmp' j. u64_digits ?t (i - 1) (v div 10) = (tmp', j) \<and>
        drop j tmp' = digits_of 10 (v div 10) @ drop (i - 1) ?t \<and> length tmp' = length ?t"
      by (intro "1.IH"[OF refl refl refl False]) simp_all
    then obtain tmp' j where
      "u64_digits ?t (i - 1) (v div 10) = (tmp', j)" "drop j tmp' = digits_of 10 (v div 10) @ drop (i - 1) ?t"
      "length tmp' = length tmp"
      by auto
    moreover have "digits_of 10 v = digits_of 10 (v div 10) @ [?c]"
      using False c by (subst digits_of.simps) (auto simp: div_eq_0_iff)
    ultimately show ?thesis using d False by (subst u64_digits.simps) (simp add: Let_def)
  qed
qed

lemma push_u64_dec: "v < 2 ^ 64 \<Longrightarrow> push_u64 bw v = push_bytes bw (dec_str v)"
proof -
  assume "v < 2 ^ 64"
  then have "v < 10 ^ 20" by simp
  from u64_digits_prefix[of 20 "replicate 20 (CHR 0x00)" v] this show ?thesis
    by (auto simp: push_u64_def dec_str_def)
qed

lemma length_digits: "v < 10 ^ i \<Longrightarrow> 0 < i \<Longrightarrow> length (digits_of 10 v) \<le> i"
proof (induction i arbitrary: v)
  case (Suc i)
  show ?case
  proof (cases "v < 10")
    case False
    then have "i \<noteq> 0" using Suc.prems by (cases i) auto
    moreover have "v div 10 < 10 ^ i" using Suc.prems by (simp add: div_less_iff_less_mult mult.commute)
    ultimately have "length (digits_of 10 (v div 10)) \<le> i" using Suc.IH by simp
    with False show ?thesis by (simp add: digits_of.simps[of 10 v])
  qed (simp add: digits_of.simps[of 10 v])
qed simp

lemma push_fits:
  assumes "take w buf = xs" "length xs = w" "w + length b \<le> length buf"
  shows "\<exists>buf'. push_bytes (buf, w) b = (buf', w + length b) \<and> take (w + length b) buf' = xs @ b \<and> length buf' = length buf"
  using assms by (auto simp: push_bytes_def overlay_def min_def Let_def)

lemma push_list_fits:
  "take w buf = xs \<Longrightarrow> length xs = w \<Longrightarrow> w + length (concat bs) \<le> length buf \<Longrightarrow>
   \<exists>buf'. foldl push_bytes (buf, w) bs = (buf', w + length (concat bs)) \<and>
     take (w + length (concat bs)) buf' = xs @ concat bs"
proof (induction bs arbitrary: buf w xs)
  case (Cons b bs)
  obtain buf1 where b1: "push_bytes (buf, w) b = (buf1, w + length b)" "take (w + length b) buf1 = xs @ b" "length buf1 = length buf"
    using push_fits[OF Cons.prems(1,2), of b] Cons.prems(3) by auto
  have "\<exists>buf'. foldl push_bytes (buf1, w + length b) bs = (buf', w + length b + length (concat bs)) \<and>
     take (w + length b + length (concat bs)) buf' = (xs @ b) @ concat bs"
    using b1 Cons.prems by (intro Cons.IH) auto
  then show ?case using b1(1) by (simp add: add.assoc)
qed simp

text \<open>
  The report that the SIGBUS handler writes from its fixed buffer is complete: for any counter
  values of 64 bits the 512 bytes hold the whole JSON line, with both counters in decimal, and
  nothing is cut off.
\<close>

theorem sigbus_report_complete:
  assumes "ops < 2 ^ 64" "errs < 2 ^ 64"
  shows "sigbus_report ops errs = report_head @ SIGBUS_CAUSE @ QUOTE # '','' @ quoted ''totalOps'' @ '':'' @ dec_str ops
    @ '','' @ quoted ''totalErrors'' @ '':'' @ dec_str errs @ ''}'' @ [LF]"
proof -
  let ?bs = "[report_head, SIGBUS_CAUSE, QUOTE # '','' @ quoted ''totalOps'' @ '':'', dec_str ops,
    '','' @ quoted ''totalErrors'' @ '':'', dec_str errs, ''}'' @ [LF]]"
  have "length (dec_str ops) \<le> 20" "length (dec_str errs) \<le> 20"
    using length_digits[of ops 20] length_digits[of errs 20] assms by (simp_all add: dec_str_def)
  then have "0 + length (concat ?bs) \<le> length (replicate 512 (CHR 0x00))"
    by (simp add: report_head_def SIGBUS_CAUSE_def quoted_def)
  from push_list_fits[OF _ _ this, of "[]"] obtain buf where
    "foldl push_bytes (replicate 512 (CHR 0x00), 0) ?bs = (buf, length (concat ?bs))" "take (length (concat ?bs)) buf = concat ?bs"
    by auto
  then show ?thesis
    unfolding sigbus_report_def push_u64_dec[OF assms(1)] push_u64_dec[OF assms(2)] by (simp add: Let_def)
qed

theorem sigbus_report_complete_witness:
  "\<exists>t. sigbus_report 12 3 = t @ dec_str 3 @ ''}'' @ [LF]"
  using sigbus_report_complete[of 12 3] by auto

end
