(* ===== verification/Mptest_Text.thy ===== *)
theory Mptest_Text
  imports Rust_Text
begin

text \<open>
  The text routines of the mptest coordinator (src/src/sqlite.rs): the glob matcher, the accumulation
  of query results as terms, the tokenizer of scripts with its searches for the end of a task and of a
  conditional, and the conversions of arguments. Byte strings are lists of characters; a position in a
  slice is the suffix that begins there.
\<close>

abbreviation NUL :: char where "NUL \<equiv> CHR 0x00"
abbreviation TICK :: char where "TICK \<equiv> CHR 0x27"
abbreviation DQUOTE :: char where "DQUOTE \<equiv> CHR 0x22"

definition is_space :: "char \<Rightarrow> bool" where
  "is_space b \<longleftrightarrow> b \<in> {CHR '' '', TAB, LF, CHR 0x0B, CHR 0x0C, CR}"

section \<open>Glob matching\<close>

text \<open>The next byte of a pattern, 0 at its end.\<close>

definition nxt :: "string \<Rightarrow> char \<times> string" where
  "nxt g = (case g of [] \<Rightarrow> (NUL, []) | c # g' \<Rightarrow> (c, g'))"

text \<open>The members of a bracket expression, from the byte \<open>c2\<close> on: the byte that ended it, whether
  \<open>ch\<close> was seen, and the pattern behind it.\<close>

function class_loop :: "char \<Rightarrow> string \<Rightarrow> char \<Rightarrow> nat \<Rightarrow> bool \<Rightarrow> char \<times> bool \<times> string" where
  "class_loop c2 g ch prior seen =
     (if c2 = NUL \<or> c2 = CHR '']'' then (c2, seen, g)
      else if c2 = CHR ''-'' \<and> g \<noteq> [] \<and> hd g \<noteq> CHR '']'' \<and> 0 < prior
      then (let (c3, g1) = nxt g;
                seen = (seen \<or> prior \<le> ord ch \<and> ord ch \<le> ord c3);
                (c4, g2) = nxt g1
            in class_loop c4 g2 ch 0 seen)
      else (let (c4, g1) = nxt g in class_loop c4 g1 ch (ord c2) (seen \<or> ch = c2)))"
  by pat_completeness auto
termination
  by (relation "measure (\<lambda>(c2, g, ch, prior, seen). length g + (if c2 = NUL then 0 else 1))")
     (auto simp: nxt_def split: list.splits if_splits)

declare class_loop.simps [simp del]

text \<open>\<open>[...]\<close> against one byte: the pattern behind the bracket if it matches.\<close>

definition glob_class :: "string \<Rightarrow> char \<Rightarrow> string option" where
  "glob_class g ch =
     (let (c2, g) = nxt g;
          invert = (c2 = CHR ''^'');
          (c2, g) = (if invert then nxt g else (c2, g));
          seen = (c2 = CHR '']'' \<and> ch = CHR '']'');
          (c2, g) = (if c2 = CHR '']'' then nxt g else (c2, g));
          (c2, seen, g) = class_loop c2 g ch 0 seen
      in if c2 = NUL \<or> seen = invert then None else Some g)"

text \<open>\<open>#\<close>: an optional sign and all digits that follow, at least one.\<close>

definition glob_number :: "string \<Rightarrow> string option" where
  "glob_number z =
     (let z1 = (if z \<noteq> [] \<and> (hd z = CHR ''-'' \<or> hd z = CHR ''+'') \<and> tl z \<noteq> [] \<and> is_digit (hd (tl z))
                then tl z else z)
      in if z1 = [] \<or> \<not> is_digit (hd z1) then None else Some (dropWhile is_digit (tl z1)))"

text \<open>The run of \<open>*\<close> and \<open>?\<close> behind a \<open>*\<close>: None when the subject is too short for it.\<close>

fun star_skip :: "string \<Rightarrow> string \<Rightarrow> (string \<times> string) option" where
  "star_skip [] z = Some ([], z)"
| "star_skip (c # g) z =
     (if c = CHR ''*'' then star_skip g z
      else if c = CHR ''?'' then (if z = [] then None else star_skip g (tl z))
      else Some (c # g, z))"

lemma star_skip_length: "star_skip g z = Some (g1, z1) \<Longrightarrow> length g1 \<le> length g"
  by (induction g z rule: star_skip.induct) (auto split: if_splits)

lemma class_loop_length: "class_loop c2 g ch prior seen = (c, s, g1) \<Longrightarrow> length g1 \<le> length g"
proof (induction c2 g ch prior seen rule: class_loop.induct)
  case (1 c2 g ch prior seen)
  from "1.prems" show ?case
    by (subst (asm) class_loop.simps)
       (auto simp: Let_def nxt_def split: if_splits prod.splits list.splits dest!: "1.IH"[rotated -1])
qed

lemma nxt_length: "nxt g = (c, g1) \<Longrightarrow> length g1 \<le> length g"
  by (auto simp: nxt_def split: list.splits)

lemma glob_class_length: "glob_class g ch = Some g1 \<Longrightarrow> length g1 \<le> length g"
  by (auto simp: glob_class_def Let_def split: prod.splits if_splits
      dest!: class_loop_length nxt_length)

function strglob :: "string \<Rightarrow> string \<Rightarrow> bool" where
  "strglob [] z = (z = [])"
| "strglob (c # g) z =
     (if c = NUL then z = []
      else if c = CHR ''*'' then
        (case star_skip g z of
           None \<Rightarrow> False
         | Some ([], z1) \<Rightarrow> True
         | Some (d # g2, z1) \<Rightarrow>
             if d = NUL then True
             else if d = CHR ''['' then list_ex (\<lambda>i. \<not> strglob g2 (drop i z1)) [0..<length z1]
             else list_ex (\<lambda>i. z1 ! i = d \<and> strglob g2 (drop (Suc i) z1)) [0..<length z1])
      else if c = CHR ''?'' then z \<noteq> [] \<and> strglob g (tl z)
      else if c = CHR ''['' then
        (case z of
           [] \<Rightarrow> False
         | ch # z1 \<Rightarrow> (case glob_class g ch of None \<Rightarrow> False | Some g2 \<Rightarrow> strglob g2 z1))
      else if c = CHR ''#'' then
        (case glob_number z of None \<Rightarrow> False | Some z1 \<Rightarrow> strglob g z1)
      else z \<noteq> [] \<and> hd z = c \<and> strglob g (tl z))"
  by pat_completeness auto
termination
  by (relation "measure (\<lambda>(g, z). length g)")
     (auto dest!: star_skip_length glob_class_length)

declare strglob.simps [simp del]

section \<open>Terms\<close>

text \<open>The text between the quotes of a term: every quote is doubled.\<close>

fun double_ticks :: "string \<Rightarrow> string" where
  "double_ticks [] = []"
| "double_ticks (c # s) = (if c = TICK then TICK # TICK # double_ticks s else c # double_ticks s)"

definition term_text :: "string option \<Rightarrow> string" where
  "term_text t =
     (case t of
        None \<Rightarrow> ''nil''
      | Some z \<Rightarrow>
          if z \<noteq> [] \<and> list_all (\<lambda>c. \<not> is_space c) z then z else TICK # double_ticks z @ [TICK])"

definition append_term :: "string \<Rightarrow> string option \<Rightarrow> string" where
  "append_term buf t = (if buf = [] then [] else buf @ '' '') @ term_text t"

section \<open>The tokenizer\<close>

text \<open>White space and comments: the number of bytes up to and including the byte that ended the
  loop, and the new line number. \<open>inc\<close> says that the position is within a comment.\<close>

fun blank_loop :: "string \<Rightarrow> bool \<Rightarrow> nat \<Rightarrow> nat \<Rightarrow> nat \<times> nat" where
  "blank_loop [] inc n ln = (n + 1, ln)"
| "blank_loop (c # z) inc n ln =
     (let ln = (if c = LF then ln + 1 else ln)
      in if is_space c then blank_loop z inc (n + 1) ln
         else if inc \<and> c = CHR ''*'' \<and> z \<noteq> [] \<and> hd z = CHR ''/'' then blank_loop (tl z) False (n + 2) ln
         else if \<not> inc \<and> c = CHR ''/'' \<and> z \<noteq> [] \<and> hd z = CHR ''*'' then blank_loop (tl z) True (n + 2) ln
         else if \<not> inc then (n + 1, ln)
         else blank_loop z inc (n + 1) ln)"

text \<open>A quoted string, behind its opening delimiter.\<close>

function quote_loop :: "char \<Rightarrow> string \<Rightarrow> nat \<Rightarrow> nat \<Rightarrow> nat \<times> nat" where
  "quote_loop delim z n ln =
     (if length z \<le> n then (n, ln)
      else
        (let ln = (if z ! n = LF then ln + 1 else ln)
         in if z ! n = delim then
              (if length z \<le> n + 1 \<or> (if n + 2 < length z then z ! (n + 2) else NUL) \<noteq> delim then (n + 1, ln)
               else quote_loop delim z (n + 2) ln)
            else quote_loop delim z (n + 1) ln))"
  by pat_completeness auto
termination
  by (relation "measure (\<lambda>(delim, z, n, ln). length z - n)") auto

declare quote_loop.simps [simp del]

definition word_end :: "char \<Rightarrow> bool" where
  "word_end c \<longleftrightarrow> is_space c \<or> c = DQUOTE \<or> c = TICK \<or> c = CHR '';''"

definition token_length :: "string \<Rightarrow> nat \<Rightarrow> nat \<times> nat" where
  "token_length z ln =
     (case z of
        [] \<Rightarrow> (1, ln)
      | c # zs \<Rightarrow>
          if is_space c \<or> (c = CHR ''/'' \<and> zs \<noteq> [] \<and> hd zs = CHR ''*'') then
            (let inc = (c = CHR ''/'');
                 (n, ln) = (if inc then blank_loop (tl zs) True 2 ln else blank_loop z False 0 ln)
             in (n - 1, ln))
          else if c = CHR ''-'' \<and> zs \<noteq> [] \<and> hd zs = CHR ''-'' then
            (let n = 2 + length (takeWhile (\<lambda>c. c \<noteq> LF) (tl zs))
             in if n < length z then (n + 1, ln + 1) else (n, ln))
          else if c = DQUOTE \<or> c = TICK then quote_loop c z 1 ln
          else (1 + length (takeWhile (\<lambda>c. \<not> word_end c) zs), ln))"

definition extract_token :: "string \<Rightarrow> nat \<Rightarrow> nat \<Rightarrow> string" where
  "extract_token z n_in cap = takeWhile (\<lambda>c. \<not> is_space c) (take (min n_in cap) z)"

text \<open>A command word at the start of a slice, followed by white space.\<close>

definition at_word :: "string \<Rightarrow> string \<Rightarrow> bool" where
  "at_word w z \<longleftrightarrow> starts_with w z \<and> length w < length z \<and> is_space (z ! length w)"

lemma blank_loop_bounds: "blank_loop z inc n ln = (m, l) \<Longrightarrow> n < m \<and> m \<le> n + length z + 1"
  by (induction z inc n ln rule: blank_loop.induct)
     (auto simp: Let_def neq_Nil_conv split: if_splits)

lemma quote_loop_bounds: "quote_loop d z n ln = (m, l) \<Longrightarrow> n \<le> length z \<Longrightarrow> n \<le> m \<and> m \<le> length z"
proof (induction "length z - n" arbitrary: n ln rule: less_induct)
  case less
  show ?case
  proof (cases "length z \<le> n")
    case True
    with less.prems show ?thesis by (simp add: quote_loop.simps)
  next
    case False
    define ln1 where "ln1 = (if z ! n = LF then ln + 1 else ln)"
    have q: "quote_loop d z n ln =
        (if z ! n = d then
           (if length z \<le> n + 1 \<or> (if n + 2 < length z then z ! (n + 2) else NUL) \<noteq> d then (n + 1, ln1)
            else quote_loop d z (n + 2) ln1)
         else quote_loop d z (n + 1) ln1)"
      using False by (subst quote_loop.simps) (simp add: ln1_def Let_def)
    have IH: "quote_loop d z k ln1 = (m, l) \<Longrightarrow> n < k \<Longrightarrow> k \<le> length z \<Longrightarrow> k \<le> m \<and> m \<le> length z" for k
      using less.hyps[of k ln1] False by simp
    from less.prems(1) show ?thesis
      unfolding q using False IH[of "n + 1"] IH[of "n + 2"] by (auto split: if_splits)
  qed
qed

lemma token_length_bounds:
  assumes "z \<noteq> []" "token_length z ln = (n, l)"
  shows "0 < n" "n \<le> length z"
proof -
  obtain c zs where z: "z = c # zs" using assms(1) by (cases z) auto
  let ?cm = "c = CHR ''/'' \<and> zs \<noteq> [] \<and> hd zs = CHR ''*''"
  have "0 < n \<and> n \<le> length z"
  proof (cases "is_space c \<or> ?cm")
    case blank: True
    show ?thesis
    proof (cases "is_space c")
      case True
      obtain m k where b: "blank_loop zs False 1 (if c = LF then ln + 1 else ln) = (m, k)" by fastforce
      have "c \<noteq> CHR ''/''" using True by (auto simp: is_space_def)
      then have "(n, l) = (m - 1, k)" using assms(2) True b by (simp add: z token_length_def)
      with blank_loop_bounds[OF b] show ?thesis by (auto simp: z)
    next
      case False
      with blank have cm: ?cm by simp
      obtain m k where b: "blank_loop (tl zs) True 2 ln = (m, k)" by fastforce
      have "(n, l) = (m - 1, k)" using assms(2) cm False b by (simp add: z token_length_def)
      with blank_loop_bounds[OF b] cm show ?thesis by (cases zs) (auto simp: z)
    qed
  next
    case nb: False
    show ?thesis
    proof (cases "c = CHR ''-'' \<and> zs \<noteq> [] \<and> hd zs = CHR ''-''")
      case True
      then have "length (takeWhile (\<lambda>c. c \<noteq> LF) (tl zs)) \<le> length zs - 1"
        by (metis length_takeWhile_le length_tl)
      with nb True assms(2) show ?thesis
        by (cases zs) (auto simp: z token_length_def Let_def split: if_splits)
    next
      case False
      show ?thesis
      proof (cases "c = DQUOTE \<or> c = TICK")
        case True
        with nb False assms(2) have "quote_loop c z 1 ln = (n, l)"
          unfolding z token_length_def list.case if_not_P[OF nb] if_not_P[OF False] by simp
        from quote_loop_bounds[OF this] show ?thesis by (simp add: z)
      next
        case word: False
        with nb False assms(2) have "n = 1 + length (takeWhile (\<lambda>c. \<not> word_end c) zs)"
          unfolding z token_length_def list.case if_not_P[OF nb] if_not_P[OF False] if_not_P[OF word] by simp
        then show ?thesis by (simp add: z length_takeWhile_le)
      qed
    qed
  qed
  then show "0 < n" "n \<le> length z" by simp_all
qed

text \<open>\<open>&z[a..]\<close>: panics past the end.\<close>

definition rfrom :: "'a list \<Rightarrow> nat \<Rightarrow> 'a list option" where
  "rfrom xs a = (if a \<le> length xs then Some (drop a xs) else None)"

lemma rfrom_Some [simp]: "a \<le> length xs \<Longrightarrow> rfrom xs a = Some (drop a xs)"
  by (simp add: rfrom_def)

lemma token_step: "n < length z \<Longrightarrow> token_length (drop n z) ln = (k, l) \<Longrightarrow> 0 < k \<and> n + k \<le> length z"
  using token_length_bounds[of "drop n z" ln k l] by simp

text \<open>The bytes up to the next \<open>--end\<close>, from the position \<open>n\<close> on; None is a slice out of range.\<close>

function find_end_loop :: "string \<Rightarrow> nat \<Rightarrow> nat \<Rightarrow> (nat \<times> nat) option" where
  "find_end_loop z n ln =
     (if n < length z then
        (case rfrom z n of
           None \<Rightarrow> None
         | Some r \<Rightarrow>
             if at_word ''--end'' r then Some (n, ln)
             else (let (k, ln1) = token_length r ln in find_end_loop z (n + k) ln1))
      else Some (n, ln))"
  by pat_completeness auto
termination
proof (relation "measure (\<lambda>(z, n, ln). length z - n)", goal_cases)
  case (2 z n ln r x k ln1)
  then have "0 < k" using token_step[of n z ln k ln1] by (auto simp: rfrom_def)
  with 2 show ?case by simp
qed simp

declare find_end_loop.simps [simp del]

definition find_end :: "string \<Rightarrow> nat \<Rightarrow> (nat \<times> nat) option" where
  "find_end z ln = find_end_loop z 0 ln"

text \<open>The bytes past the next \<open>--endif\<close>, or past \<open>--else\<close> when stopping there; nested conditionals
  are skipped as a whole.\<close>

function find_endif_loop :: "string \<Rightarrow> bool \<Rightarrow> nat \<Rightarrow> nat \<Rightarrow> (nat \<times> nat) option" where
  "find_endif_loop z stop_at_else n ln =
     (if n < length z then
        (case rfrom z n of
           None \<Rightarrow> None
         | Some r \<Rightarrow>
             (let (k, ln1) = token_length r ln
              in if at_word ''--endif'' r \<or> (stop_at_else \<and> at_word ''--else'' r) then Some (n + k, ln1)
                 else if at_word ''--if'' r then
                   (case rfrom z (n + k) of
                      None \<Rightarrow> None
                    | Some q \<Rightarrow>
                        (case find_endif_loop q False 0 ln1 of
                           None \<Rightarrow> None
                         | Some (skip, ln2) \<Rightarrow> find_endif_loop z stop_at_else (n + (skip + k)) ln2))
                 else find_endif_loop z stop_at_else (n + k) ln1))
      else Some (n, ln))"
  by pat_completeness auto
termination
proof (relation "measure (\<lambda>(z, s, n, ln). length z - n)", goal_cases)
  case (2 z stop n ln r x k ln1 q)
  then have "0 < k" "q = drop (n + k) z" using token_step[of n z ln k ln1] by (auto simp: rfrom_def split: if_splits)
  with 2 show ?case by simp
next
  case (3 z stop n ln r x k ln1 q y skip ln2)
  then have "0 < k" using token_step[of n z ln k ln1] by (auto simp: rfrom_def split: if_splits)
  with 3 show ?case by simp
next
  case (4 z stop n ln r x k ln1)
  then have "0 < k" using token_step[of n z ln k ln1] by (auto simp: rfrom_def split: if_splits)
  with 4 show ?case by simp
qed simp

declare find_endif_loop.simps [simp del]

definition find_endif :: "string \<Rightarrow> bool \<Rightarrow> nat \<Rightarrow> (nat \<times> nat) option" where
  "find_endif z stop_at_else ln = find_endif_loop z stop_at_else 0 ln"

text \<open>Neither search leaves the text.\<close>

lemma find_end_loop_within: "n \<le> length z \<Longrightarrow> \<exists>m l. find_end_loop z n ln = Some (m, l) \<and> n \<le> m \<and> m \<le> length z"
proof (induction z n ln rule: find_end_loop.induct)
  case (1 z n ln)
  show ?case
  proof (cases "n < length z \<and> \<not> at_word ''--end'' (drop n z)")
    case False
    then show ?thesis using 1(2) by (subst find_end_loop.simps) auto
  next
    case True
    obtain k ln1 where k: "token_length (drop n z) ln = (k, ln1)" by fastforce
    have b: "0 < k" "n + k \<le> length z" using token_step[OF _ k] True by auto
    have "\<exists>m l. find_end_loop z (n + k) ln1 = Some (m, l) \<and> n + k \<le> m \<and> m \<le> length z"
      by (rule 1(1)[OF _ _ _ k[symmetric] refl b(2)]) (use True in simp_all)
    then show ?thesis using True k by (subst find_end_loop.simps) auto
  qed
qed

lemma find_end_within: obtains m l where "find_end z ln = Some (m, l)" "m \<le> length z"
  using find_end_loop_within[of 0 z ln] unfolding find_end_def by auto

lemma find_endif_loop_within:
  "n \<le> length z \<Longrightarrow> \<exists>m l. find_endif_loop z stop n ln = Some (m, l) \<and> n \<le> m \<and> m \<le> length z"
proof (induction "length z - n" arbitrary: z stop n ln rule: less_induct)
  case less
  show ?case
  proof (cases "n < length z")
    case False
    then show ?thesis using less(2) by (subst find_endif_loop.simps) simp
  next
    case True
    obtain k ln1 where k: "token_length (drop n z) ln = (k, ln1)" by fastforce
    have b: "0 < k" "n + k \<le> length z" using token_step[OF True k] by auto
    obtain sk ln2 where s: "find_endif_loop (drop (n + k) z) False 0 ln1 = Some (sk, ln2)" "sk \<le> length z - (n + k)"
      using less(1)[of "drop (n + k) z" 0 False ln1] b True by fastforce
    obtain m ln3 where m: "find_endif_loop z stop (n + (sk + k)) ln2 = Some (m, ln3)" "n + (sk + k) \<le> m" "m \<le> length z"
      using less(1)[of z "n + (sk + k)" stop ln2] b s(2) True by fastforce
    obtain m' ln4 where m': "find_endif_loop z stop (n + k) ln1 = Some (m', ln4)" "n + k \<le> m'" "m' \<le> length z"
      using less(1)[of z "n + k" stop ln1] b True by fastforce
    show ?thesis
      using True k b s m m' by (subst find_endif_loop.simps) (simp split del: if_split, auto)
  qed
qed

lemma find_endif_within: obtains m l where "find_endif z stop ln = Some (m, l)" "m \<le> length z"
  using find_endif_loop_within[of 0 z stop ln] unfolding find_endif_def by auto

section \<open>Arguments\<close>

definition atoi :: "string \<Rightarrow> int" where
  "atoi s =
     (let t = trim_start s;
          sign = takeWhile (\<lambda>c. c = CHR ''+'' \<or> c = CHR ''-'') (take 1 t);
          digits = takeWhile is_digit (drop (length sign) t)
      in case parse_i64 (sign @ digits) of Some v \<Rightarrow> v | None \<Rightarrow> 0)"

definition to_i32 :: "int \<Rightarrow> int" where
  "to_i32 x = sint (word_of_int x :: 32 word)"

text \<open>The value, and the argument when it is not a boolean (an error message).\<close>

definition boolean_value :: "string option \<Rightarrow> int \<times> string option" where
  "boolean_value arg =
     (case arg of
        None \<Rightarrow> (0, None)
      | Some a \<Rightarrow>
          if atoi a \<noteq> 0 \<and> list_all (\<lambda>c. is_digit c \<or> c = CHR ''+'' \<or> c = CHR ''-'') a \<and> list_ex is_digit a
          then (to_i32 (atoi a), None)
          else
            (let l = map to_lower a
             in if l = ''on'' \<or> l = ''yes'' then (1, None)
                else if l = ''off'' \<or> l = ''no'' then (0, None)
                else (0, Some a)))"

definition filename_tail :: "string \<Rightarrow> string" where
  "filename_tail name = last (split_on (CHR ''/'') name)"

end
