(* ===== verification/Mptest_Engine.thy ===== *)
theory Mptest_Engine
  imports Mptest_Text
begin

unbundle bit_operations_syntax

text \<open>
  The state of an mptest process (src/src/sqlite.rs) and its calls of the SQLite engine. The engine
  is a third-party library: its entry points are the fields of \<open>engine\<close> over an arbitrary state, which
  also covers what other processes do to the database while this one sleeps. A call of the engine
  returns, beside its result, the callbacks it made, in order: the busy handler with its count, and the
  error log with a code and a message. Texts are byte strings; the lossy conversion of invalid UTF-8
  is not modelled, the scripts being ASCII.
\<close>

section \<open>State\<close>

datatype event = BusyCalled int | SqlLog int string

record exec_result =
  x_rc :: int
  x_cells :: "string option list"
  x_err :: "string option"
  x_events :: "event list"

record 'e engine =
  e_exec :: "(int \<Rightarrow> bool) \<Rightarrow> 'e \<Rightarrow> string \<Rightarrow> 'e \<times> exec_result"
  e_query_int :: "(int \<Rightarrow> bool) \<Rightarrow> 'e \<Rightarrow> string \<Rightarrow> 'e \<times> int option \<times> event list"
  e_query_task :: "(int \<Rightarrow> bool) \<Rightarrow> 'e \<Rightarrow> string \<Rightarrow> 'e \<times> (string \<times> int \<times> string) option \<times> event list"
  e_prepare :: "'e \<Rightarrow> string \<Rightarrow> bool"
  e_step :: "(int \<Rightarrow> bool) \<Rightarrow> 'e \<Rightarrow> string \<Rightarrow> 'e \<times> int \<times> event list"
  e_changes :: "'e \<Rightarrow> int"
  e_errmsg :: "'e \<Rightarrow> string"
  e_sleep :: "int \<Rightarrow> 'e \<Rightarrow> 'e"
  e_spawn :: "'e \<Rightarrow> string list \<Rightarrow> 'e \<times> string option"
  e_script :: "string \<Rightarrow> string option"
  e_is_file :: "string \<Rightarrow> bool"
  e_read :: "string \<Rightarrow> string option"

datatype msg = Log string | Err string | FatalMsg string

record 'e mpt =
  eng :: 'e
  n_error :: nat
  n_test :: nat
  i_trace :: int
  i_timeout :: int
  ignore_sql_errors :: bool
  sql_trace :: bool
  b_sync :: bool
  vfs :: "string option"
  db_file :: string
  msgs :: "msg list"

text \<open>A step of the process: it goes on, it exits with a code, or it panics.\<close>

datatype 'e res = Ok "'e mpt" | Exited int "'e mpt" | Panicked

definition SQLITE_OK :: int where "SQLITE_OK = 0"
definition SQLITE_ERROR :: int where "SQLITE_ERROR = 1"
definition SQLITE_BUSY :: int where "SQLITE_BUSY = 5"
definition SQLITE_SCHEMA :: int where "SQLITE_SCHEMA = 17"
definition SQLITE_MISUSE :: int where "SQLITE_MISUSE = 21"
definition SQLITE_NOTICE :: int where "SQLITE_NOTICE = 27"
definition SQLITE_ROW :: int where "SQLITE_ROW = 100"
definition SQLITE_DONE :: int where "SQLITE_DONE = 101"
definition DEFAULT_TIMEOUT :: int where "DEFAULT_TIMEOUT = 10000"

section \<open>Messages and callbacks\<close>

definition error_message :: "string \<Rightarrow> 'e mpt \<Rightarrow> 'e mpt" where
  "error_message m s = s\<lparr>n_error := n_error s + 1, msgs := msgs s @ [Err m]\<rparr>"

definition log_message :: "string \<Rightarrow> 'e mpt \<Rightarrow> 'e mpt" where
  "log_message m s = s\<lparr>msgs := msgs s @ [Log m]\<rparr>"

definition sqlite_sleep :: "'e engine \<Rightarrow> int \<Rightarrow> 'e mpt \<Rightarrow> 'e mpt" where
  "sqlite_sleep E ms s = (if 0 < ms then s\<lparr>eng := e_sleep E ms (eng s)\<rparr> else s)"

text \<open>Whether the busy handler asks for another try, and whether it reports a timeout.\<close>

definition busy_handler :: "int \<Rightarrow> int \<Rightarrow> bool \<times> bool" where
  "busy_handler timeout count =
     (if timeout < count * 10 then (False, 0 < timeout) else (True, False))"

definition sql_error_cb :: "int \<Rightarrow> string \<Rightarrow> 'e mpt \<Rightarrow> 'e mpt" where
  "sql_error_cb code m s =
     (if code = SQLITE_ERROR \<and> ignore_sql_errors s then s
      else if code AND 0xff = SQLITE_SCHEMA \<and> i_trace s < 3 then s
      else if i_timeout s = 0 \<and> code AND 0xff = SQLITE_BUSY \<and> i_trace s < 3 then s
      else if code AND 0xff = SQLITE_NOTICE then log_message (''(info) '' @ m) s
      else error_message (''(errcode='' @ int_str code @ '') '' @ m) s)"

fun on_event :: "event \<Rightarrow> 'e mpt \<Rightarrow> 'e mpt" where
  "on_event (BusyCalled count) s =
     (if snd (busy_handler (i_timeout s) count)
      then error_message (''timeout after '' @ int_str (i_timeout s) @ ''ms'') s else s)"
| "on_event (SqlLog code m) s = sql_error_cb code m s"

definition on_events :: "event list \<Rightarrow> 'e mpt \<Rightarrow> 'e mpt" where
  "on_events evs s = fold on_event evs s"

section \<open>Running SQL\<close>

definition strip_trailing_nul :: "string \<Rightarrow> string" where
  "strip_trailing_nul sql = rev (dropWhile (\<lambda>c. c = NUL) (rev sql))"

definition retry :: "'e mpt \<Rightarrow> int \<Rightarrow> bool" where
  "retry s count = fst (busy_handler (i_timeout s) count)"

text \<open>The new state, the return code, the cells of all rows, and the error message.\<close>

definition exec_raw :: "'e engine \<Rightarrow> string \<Rightarrow> 'e mpt \<Rightarrow> 'e mpt \<times> int \<times> string option list \<times> string option" where
  "exec_raw E sql s =
     (let q = strip_trailing_nul sql
      in if NUL \<in> set q then (s, SQLITE_MISUSE, [], Some ''sql contains NUL'')
         else (let (e, x) = e_exec E (retry s) (eng s) q
               in (on_events (x_events x) (s\<lparr>eng := e\<rparr>), x_rc x, x_cells x, x_err x)))"

definition try_sql :: "'e engine \<Rightarrow> string \<Rightarrow> 'e mpt \<Rightarrow> 'e mpt \<times> int" where
  "try_sql E sql s = (let (s, rc, cells, err) = exec_raw E sql s in (s, rc))"

fun halt_loop :: "'e engine \<Rightarrow> nat \<Rightarrow> 'e mpt \<Rightarrow> 'e mpt" where
  "halt_loop E 0 s = s"
| "halt_loop E (Suc n) s =
     (let (s, rc) = try_sql E ''UPDATE client SET wantHalt=1'' s
      in if rc \<noteq> SQLITE_BUSY then s else halt_loop E n (sqlite_sleep E 10 s))"

text \<open>A fatal error exits with code 1; with a connection it first asks all clients to halt.\<close>

definition fatal_error :: "'e engine \<Rightarrow> bool \<Rightarrow> string \<Rightarrow> 'e mpt \<Rightarrow> 'e res" where
  "fatal_error E conn m s =
     (let s = s\<lparr>msgs := msgs s @ [FatalMsg m]\<rparr>
      in Exited 1 (if conn then halt_loop E 100 (s\<lparr>i_timeout := 0\<rparr>) else s))"

definition run_sql :: "'e engine \<Rightarrow> string \<Rightarrow> 'e mpt \<Rightarrow> 'e res" where
  "run_sql E sql s =
     (let (s, rc, cells, err) = exec_raw E sql s
      in if rc \<noteq> SQLITE_OK then fatal_error E True (e_errmsg E (eng s) @ [LF] @ sql @ [LF]) s else Ok s)"

definition eval_sql :: "'e engine \<Rightarrow> string \<Rightarrow> string \<Rightarrow> 'e mpt \<Rightarrow> 'e mpt \<times> string" where
  "eval_sql E buf sql s =
     (let (s, rc, cells, err) = exec_raw E sql s;
          buf = foldl append_term buf cells;
          buf = (if rc \<noteq> 0 then
                   (let buf = append_term buf (Some (''error('' @ int_str rc @ '')''))
                    in case err of None \<Rightarrow> buf | Some e \<Rightarrow> append_term buf (Some e))
                 else buf)
      in (s, buf))"

definition and_then :: "'e res \<Rightarrow> ('e mpt \<Rightarrow> 'e res) \<Rightarrow> 'e res" where
  "and_then r f = (case r of Ok s \<Rightarrow> f s | Exited c s \<Rightarrow> Exited c s | Panicked \<Rightarrow> Panicked)"

section \<open>Tasks and clients\<close>

definition finish_script :: "'e engine \<Rightarrow> int \<Rightarrow> int \<Rightarrow> bool \<Rightarrow> 'e mpt \<Rightarrow> 'e res" where
  "finish_script E i_client task_id b_shutdown s =
     and_then
       (run_sql E (''UPDATE task SET endtime=strftime('' @ [TICK] @ ''%Y-%m-%d %H:%M:%f'' @ [TICK] @ '',''
          @ [TICK] @ ''now'' @ [TICK] @ '') WHERE id='' @ int_str task_id @ '';'') s)
       (\<lambda>s. if b_shutdown then run_sql E (''DELETE FROM client WHERE id='' @ int_str i_client) s else Ok s)"

definition client_args :: "'e mpt \<Rightarrow> int \<Rightarrow> string list" where
  "client_args s i_client =
     [''__sqlite-mptest'', db_file s, ''--client'', int_str i_client, ''--trace'', int_str (i_trace s)]
     @ (if sql_trace s then [''--sqltrace''] else []) @ (if b_sync s then [''--sync''] else [])
     @ (case vfs s of None \<Rightarrow> [] | Some v \<Rightarrow> [''--vfs'', v])"

text \<open>The row is inserted once per client; only the process whose insert changed a row spawns it.
  (At trace level 2 the command is logged in the debug format of the standard library, here by its
  arguments.)\<close>

definition start_client :: "'e engine \<Rightarrow> int \<Rightarrow> 'e mpt \<Rightarrow> 'e res" where
  "start_client E i_client s =
     and_then (run_sql E (''INSERT OR IGNORE INTO client VALUES('' @ int_str i_client @ '',0)'') s)
       (\<lambda>s. if e_changes E (eng s) \<noteq> 0 then
               (let args = client_args s i_client;
                    s = (if 2 \<le> i_trace s then log_message (''system('' @ concat args @ '')'') s else s);
                    (e, err) = e_spawn E (eng s) args;
                    s = s\<lparr>eng := e\<rparr>
                in Ok (case err of None \<Rightarrow> s
                       | Some m \<Rightarrow> error_message (''system() fails with error: '' @ m) s))
             else Ok s)"

definition wait_query :: "int \<Rightarrow> string" where
  "wait_query i_client =
     (if 0 < i_client
      then ''SELECT 1 FROM task WHERE client='' @ int_str i_client
             @ '' AND client IN (SELECT id FROM client) AND endtime IS NULL''
      else ''SELECT 1 FROM task WHERE client IN (SELECT id FROM client) AND endtime IS NULL'')"

text \<open>Steps the query until it is done, fails or the time is over; returns the last code.\<close>

function wait_loop :: "'e engine \<Rightarrow> string \<Rightarrow> int \<Rightarrow> int \<Rightarrow> 'e mpt \<Rightarrow> 'e mpt \<times> int" where
  "wait_loop E sql rc timeout s =
     (if (rc = SQLITE_BUSY \<or> rc = SQLITE_ROW) \<and> 0 < timeout then
        (let s = sqlite_sleep E 50 s;
             (e, rc, evs) = e_step E (retry s) (eng s) sql
         in wait_loop E sql rc (timeout - 50) (on_events evs (s\<lparr>eng := e\<rparr>)))
      else (s, rc))"
  by pat_completeness auto
termination
  by (relation "measure (\<lambda>(E, sql, rc, timeout, s). nat timeout)") auto

declare wait_loop.simps [simp del]

definition wait_for_client :: "'e engine \<Rightarrow> int \<Rightarrow> int \<Rightarrow> string \<Rightarrow> 'e mpt \<Rightarrow> 'e res" where
  "wait_for_client E i_client timeout prefix s =
     (let sql = wait_query i_client;
          s = s\<lparr>i_timeout := 0\<rparr>
      in if \<not> e_prepare E (eng s) sql
         then fatal_error E True (e_errmsg E (eng s) @ [LF] @ sql @ [LF]) s
         else
           (let (e, rc, evs) = e_step E (retry s) (eng s) sql;
                (s, rc) = wait_loop E sql rc timeout (on_events evs (s\<lparr>eng := e\<rparr>));
                s = s\<lparr>i_timeout := DEFAULT_TIMEOUT\<rparr>
            in Ok (if rc \<noteq> SQLITE_DONE then
                     error_message (if 0 < i_client
                       then prefix @ ''timeout waiting for client '' @ int_str i_client
                       else prefix @ ''timeout waiting for all clients'') s
                   else s)))"

section \<open>Claiming a task\<close>

datatype 'e claim =
    ClaimTask string int string "'e mpt" | ClaimDone "'e mpt" | ClaimExit int "'e mpt" | ClaimPanicked

definition claim_run :: "'e res \<Rightarrow> ('e mpt \<Rightarrow> 'e claim + 'e mpt) \<Rightarrow> 'e claim + 'e mpt" where
  "claim_run r f =
     (case r of Ok s \<Rightarrow> f s | Exited c s \<Rightarrow> Inl (ClaimExit c s) | Panicked \<Rightarrow> Inl ClaimPanicked)"

definition flush_sql :: "nat \<Rightarrow> nat \<Rightarrow> string" where
  "flush_sql ne nt = ''UPDATE counters SET nError=nError+'' @ dec_str ne @ '', nTest=nTest+'' @ dec_str nt"

text \<open>The local counters go to the shared table and are reset, within the transaction.\<close>

definition flush_counters :: "'e engine \<Rightarrow> 'e mpt \<Rightarrow> 'e res" where
  "flush_counters E s =
     (let ne = n_error s; nt = n_test s; s = s\<lparr>n_error := 0, n_test := 0\<rparr>
      in if ne \<noteq> 0 \<or> nt \<noteq> 0
         then run_sql E (flush_sql ne nt) s
         else Ok s)"

definition start_task_sql :: "int \<Rightarrow> string" where
  "start_task_sql id1 = ''UPDATE task SET starttime=strftime('' @ [TICK] @ ''%Y-%m-%d %H:%M:%f'' @ [TICK] @ '',''
     @ [TICK] @ ''now'' @ [TICK] @ '') WHERE id='' @ int_str id1 @ '';''"

text \<open>Looks for a request to halt, then for a task: a claim, or the state to poll again from.\<close>

definition claim_poll :: "'e engine \<Rightarrow> int \<Rightarrow> int \<Rightarrow> 'e mpt \<Rightarrow> 'e claim + 'e mpt" where
  "claim_poll E i_client total_time s =
     (let (e, halted, evs) = e_query_int E (retry s) (eng s)
            (''SELECT 1 FROM client WHERE id='' @ int_str i_client @ '' AND wantHalt'');
          s = on_events evs (s\<lparr>eng := e\<rparr>)
      in if halted \<noteq> None then
           claim_run (run_sql E (''DELETE FROM client WHERE id='' @ int_str i_client) s) (\<lambda>s.
           claim_run (run_sql E ''COMMIT TRANSACTION;'' (s\<lparr>i_timeout := DEFAULT_TIMEOUT\<rparr>)) (\<lambda>s.
           Inl (ClaimDone s)))
         else
           (let (e, task, evs) = e_query_task E (retry s) (eng s)
                  (''SELECT script, id, name FROM task WHERE client='' @ int_str i_client
                   @ '' AND starttime IS NULL ORDER BY id LIMIT 1'');
                s = on_events evs (s\<lparr>eng := e\<rparr>)
            in case task of
                 Some (script, id1, name) \<Rightarrow>
                   claim_run (run_sql E (start_task_sql id1) s) (\<lambda>s.
                   claim_run (run_sql E ''COMMIT TRANSACTION;'' (s\<lparr>i_timeout := DEFAULT_TIMEOUT\<rparr>)) (\<lambda>s.
                   Inl (ClaimTask script id1 name s)))
               | None \<Rightarrow>
                   if 30000 < total_time then
                     claim_run (run_sql E (''DELETE FROM client WHERE id='' @ int_str i_client @ ''; COMMIT;'')
                         (error_message ''Waited over 30 seconds with no work.  Giving up.'' s))
                       (\<lambda>s. Inl (ClaimExit 1 s))
                   else Inr s))"

text \<open>One round within BEGIN IMMEDIATE.\<close>

definition claim_round :: "'e engine \<Rightarrow> int \<Rightarrow> int \<Rightarrow> 'e mpt \<Rightarrow> 'e claim + 'e mpt" where
  "claim_round E i_client total_time s =
     claim_run (flush_counters E s) (claim_poll E i_client total_time)"

text \<open>\<open>while COMMIT is busy\<close>: the state and the time waited in all.\<close>

partial_function (option) commit_loop :: "'e engine \<Rightarrow> int \<Rightarrow> 'e mpt \<Rightarrow> ('e mpt \<times> int) option" where
  "commit_loop E total_time s =
     (case try_sql E ''COMMIT'' s of
        (s, rc) \<Rightarrow>
          if rc = SQLITE_BUSY then commit_loop E (total_time + 10) (sqlite_sleep E 10 s)
          else Some (s, total_time))"

partial_function (option) start_loop :: "'e engine \<Rightarrow> int \<Rightarrow> int \<Rightarrow> 'e mpt \<Rightarrow> 'e claim option" where
  "start_loop E i_client total_time s =
     (case try_sql E ''BEGIN IMMEDIATE'' s of
        (s, rc) \<Rightarrow>
          if rc = SQLITE_BUSY then start_loop E i_client (total_time + 10) (sqlite_sleep E 10 s)
          else if rc \<noteq> SQLITE_OK then
            (case fatal_error E True (''in startScript: '' @ e_errmsg E (eng s)) s of
               Exited c s \<Rightarrow> Some (ClaimExit c s) | Ok s \<Rightarrow> Some ClaimPanicked | Panicked \<Rightarrow> Some ClaimPanicked)
          else
            (case claim_round E i_client total_time s of
               Inl c \<Rightarrow> Some c
             | Inr s \<Rightarrow>
                 Option.bind (commit_loop E total_time s)
                   (\<lambda>(s, t). start_loop E i_client (t + 100) (sqlite_sleep E 100 s))))"

definition start_script :: "'e engine \<Rightarrow> int \<Rightarrow> 'e mpt \<Rightarrow> 'e claim option" where
  "start_script E i_client s = start_loop E i_client 0 (s\<lparr>i_timeout := 0\<rparr>)"

end
