(* ===== verification/Mptest_Script.thy ===== *)
theory Mptest_Script
  imports Mptest_Engine
begin

text \<open>
  The script interpreter of mptest (src/src/sqlite.rs, \<open>run_script\<close>): SQL text is collected up to the
  next command and run, commands compare results, start clients, hand out tasks and skip conditionals.
  The recursion of sourced scripts is bounded by \<open>depth\<close>, the stack of the process: beyond it the
  result is a panic, as is a slice out of range.
\<close>

section \<open>Slices of the script\<close>

text \<open>\<open>&z[ii..(ii + len).min(z.len())]\<close>, as the command and its text are taken; None is out of range.\<close>

definition cut_slice :: "string \<Rightarrow> nat \<Rightarrow> nat \<Rightarrow> string option" where
  "cut_slice z a b = rslice z a (min b (length z))"

text \<open>The loop over the blanks behind a command word of \<open>jj\<close> bytes; the index may be out of range.\<close>

function skip_blanks :: "string \<Rightarrow> nat \<Rightarrow> nat \<Rightarrow> nat \<Rightarrow> nat option" where
  "skip_blanks z ii jj lim =
     (if jj < lim then
        (case rget z (ii + jj) of
           None \<Rightarrow> None
         | Some c \<Rightarrow> if is_space c then skip_blanks z ii (jj + 1) lim else Some jj)
      else Some jj)"
  by pat_completeness auto
termination by (relation "measure (\<lambda>(z, ii, jj, lim). lim - jj)") auto

declare skip_blanks.simps [simp del]

text \<open>What \<open>--match\<close> and \<open>--glob\<close> want: the text without the last byte, which ended the line.\<close>

definition wanted :: "string \<Rightarrow> nat \<Rightarrow> nat \<Rightarrow> nat \<Rightarrow> string option" where
  "wanted z ii len k =
     do {
       lim \<leftarrow> rsub len 1;
       jj \<leftarrow> skip_blanks z ii k lim;
       let end = min (ii + len - 1) (length z);
       rslice z (min (ii + jj) end) end
     }"

text \<open>The text of \<open>--print\<close> and \<open>--if\<close>.\<close>

definition argument :: "string \<Rightarrow> nat \<Rightarrow> nat \<Rightarrow> nat \<Rightarrow> string option" where
  "argument z ii len k =
     do {
       jj \<leftarrow> skip_blanks z ii k len;
       rslice z (min (ii + jj) (length z)) (min (ii + len) (length z))
     }"

text \<open>The arguments from the position \<open>n\<close> of the command's text on.\<close>

fun parse_args :: "nat \<Rightarrow> string \<Rightarrow> nat \<Rightarrow> string list option" where
  "parse_args 0 sp n = Some []"
| "parse_args (Suc k) sp n =
     (let n = n + length (takeWhile is_space (drop n sp))
      in if length sp \<le> n then Some []
         else
           do {
             rest \<leftarrow> rfrom sp n;
             let tok = extract_token rest (length sp - n) 99;
             args \<leftarrow> parse_args k sp (n + length tok);
             Some (tok # args)
           })"

definition arg :: "string list \<Rightarrow> nat \<Rightarrow> string" where
  "arg args i = (if i < length args then args ! i else [])"

definition starts_command :: "string \<Rightarrow> nat \<Rightarrow> bool" where
  "starts_command z ii \<longleftrightarrow>
     ii + 2 < length z \<and> z ! ii = CHR ''-'' \<and> z ! (ii + 1) = CHR ''-'' \<and> is_alpha (z ! (ii + 2))"

definition is_blank :: "string \<Rightarrow> nat \<Rightarrow> bool" where
  "is_blank z ii \<longleftrightarrow>
     is_space (z ! ii) \<or> (z ! ii = CHR ''/'' \<and> ii + 1 < length z \<and> z ! (ii + 1) = CHR ''*'')"

section \<open>Commands\<close>

definition at_line :: "nat \<Rightarrow> string \<Rightarrow> string" where
  "at_line ln fname = ''line '' @ dec_str ln @ '' of '' @ fname"

text \<open>\<open>--match\<close>, \<open>--glob\<close>, \<open>--notglob\<close>: one more test, and an error when the result is not as wanted.\<close>

definition check_result :: "bool \<Rightarrow> nat \<Rightarrow> string \<Rightarrow> string \<Rightarrow> string \<Rightarrow> 'e mpt \<Rightarrow> 'e mpt" where
  "check_result ok ln fname want got s =
     (let s = (if ok then s
               else error_message (at_line ln fname @ '':'' @ [LF] @ ''Expected ['' @ want @ '']'' @ [LF]
                      @ ''     Got ['' @ got @ '']'') s)
      in s\<lparr>n_test := n_test s + 1\<rparr>)"

text \<open>The directory of a file name: empty without a slash, or with one only at the start.\<close>

definition dir_of :: "string \<Rightarrow> string" where
  "dir_of f =
     (let tail = takeWhile (\<lambda>c. c \<noteq> CHR ''/'') (rev f)
      in if length tail = length f then [] else take (length f - length tail - 1) f)"

text \<open>\<open>read_source\<close>: an embedded script, an absolute file, or a file beside the sourcing one.\<close>

definition read_source :: "'e engine \<Rightarrow> string \<Rightarrow> string \<Rightarrow> string + (string \<times> string)" where
  "read_source E from a =
     (case e_script E a of
        Some content \<Rightarrow> Inr (a, content)
      | None \<Rightarrow>
          if starts_with ''/'' a then
            (if e_is_file E a then Inr (a, case e_read E a of Some b \<Rightarrow> b | None \<Rightarrow> []) else Inl a)
          else
            (let d = dir_of from; joined = (if d = [] then a else d @ ''/'' @ a)
             in case e_read E joined of Some b \<Rightarrow> Inr (joined, b) | None \<Rightarrow> Inl joined))"

fun double_quotes :: "string \<Rightarrow> string" where
  "double_quotes [] = []"
| "double_quotes (c # s) = (if c = TICK then TICK # TICK # double_quotes s else c # double_quotes s)"

definition task_insert :: "int \<Rightarrow> string \<Rightarrow> string \<Rightarrow> string" where
  "task_insert target task name =
     ''INSERT INTO task(client,script,name) VALUES('' @ int_str target @ '','' @ [TICK] @ double_quotes task
     @ [TICK] @ '','' @ [TICK] @ double_quotes name @ [TICK] @ '')''"

definition set_show_errors :: "string list \<Rightarrow> 'e mpt \<Rightarrow> 'e mpt" where
  "set_show_errors args s =
     (if args = [] then s\<lparr>ignore_sql_errors := True\<rparr>
      else (let (v, bad) = boolean_value (Some (args ! 0));
                s = (case bad of None \<Rightarrow> s
                     | Some a \<Rightarrow> error_message (''unknown boolean: ['' @ a @ '']'') s)
            in s\<lparr>ignore_sql_errors := (v = 0)\<rparr>))"

text \<open>The position in the script: offset, begin of the pending SQL, line, and result so far.\<close>

record pos =
  p_ii :: nat
  p_begin :: nat
  p_line :: nat
  p_buf :: string

text \<open>The commands that only act on the process: everything but source, if, else and task.\<close>

definition simple_command ::
  "'e engine \<Rightarrow> int \<Rightarrow> int \<Rightarrow> string \<Rightarrow> string \<Rightarrow> string \<Rightarrow> string list \<Rightarrow> nat \<Rightarrow> nat \<Rightarrow> nat \<Rightarrow> string \<Rightarrow> 'e mpt \<Rightarrow>
   'e res \<times> string" where
  "simple_command E i_client task_id z fname cmd args ii len prev buf s =
     (if cmd = ''sleep'' then (Ok (sqlite_sleep E (to_i32 (atoi (arg args 0))) s), buf)
      else if cmd = ''exit'' then
        (and_then (finish_script E i_client task_id True s) (Exited (to_i32 (atoi (arg args 0)))), buf)
      else if cmd = ''testcase'' then
        (if i_trace s = 1
         then (case cut_slice z ii (ii + len - 1) of None \<Rightarrow> (Panicked, []) | Some t \<Rightarrow> (Ok (log_message t s), []))
         else (Ok s, []))
      else if cmd = ''finish'' \<and> 0 < i_client then (finish_script E i_client task_id True s, buf)
      else if cmd = ''reset'' then (Ok s, [])
      else if cmd = ''match'' then
        (case wanted z ii len 7 of
           None \<Rightarrow> (Panicked, [])
         | Some want \<Rightarrow> (Ok (check_result (want = buf) prev fname want buf s), []))
      else if cmd = ''glob'' then
        (case wanted z ii len 6 of
           None \<Rightarrow> (Panicked, [])
         | Some want \<Rightarrow> (Ok (check_result (strglob want buf) prev fname want buf s), []))
      else if cmd = ''notglob'' then
        (case wanted z ii len 9 of
           None \<Rightarrow> (Panicked, [])
         | Some want \<Rightarrow> (Ok (check_result (\<not> strglob want buf) prev fname want buf s), []))
      else if cmd = ''output'' then (Ok (log_message buf s), buf)
      else if cmd = ''print'' then
        (case argument z ii len 7 of None \<Rightarrow> (Panicked, buf) | Some t \<Rightarrow> (Ok (log_message t s), buf))
      else if cmd = ''endif'' \<or> cmd = ''breakpoint'' then (Ok s, buf)
      else if cmd = ''start'' \<and> i_client = 0 then
        (let target = atoi (arg args 0)
         in (if 0 < target then start_client E target s else Ok s, buf))
      else if cmd = ''wait'' \<and> i_client = 0 then
        (let timeout = (if 2 \<le> length args then to_i32 (atoi (arg args 1)) else 10000)
         in (wait_for_client E (atoi (arg args 0)) timeout (at_line prev fname @ [LF]) s, buf))
      else if cmd = ''show-sql-errors'' then (Ok (set_show_errors args s), buf)
      else (Ok (error_message (at_line prev fname @ '': unknown command --'' @ cmd) s), buf))"

text \<open>\<open>--task\<close>: the text up to \<open>--end\<close> goes to the task table; the pending SQL begins behind it.\<close>

definition task_command ::
  "'e engine \<Rightarrow> string \<Rightarrow> string \<Rightarrow> string list \<Rightarrow> nat \<Rightarrow> nat \<Rightarrow> nat \<Rightarrow> pos \<Rightarrow> 'e mpt \<Rightarrow> ('e res \<times> pos) option" where
  "task_command E z fname args ii len prev p s =
     do {
       let target = atoi (arg args 0);
       body \<leftarrow> rfrom z (ii + len);
       (i_end, ln1) \<leftarrow> find_end body (p_line p);
       r \<leftarrow> (if target < 0
            then Some (Ok (error_message (at_line prev fname @ '': bad client number: '' @ int_str target) s))
            else
              do {
                task \<leftarrow> rslice z (ii + len) (ii + len + i_end);
                let name = (if 1 < length args then args ! 1 else filename_tail fname @ '':'' @ dec_str prev);
                Some (and_then (start_client E target s) (run_sql E (task_insert target task name)))
              });
       rest \<leftarrow> rfrom z (ii + len + i_end);
       let (k, ln2) = token_length rest ln1;
       let advance = len + i_end + k;
       Some (r, p\<lparr>p_ii := ii + advance, p_begin := ii + advance, p_line := ln2\<rparr>)
     }"

section \<open>The interpreter\<close>

text \<open>\<open>--if\<close>: the bytes to skip when the expression is false or fails.\<close>

definition if_command ::
  "'e engine \<Rightarrow> string \<Rightarrow> nat \<Rightarrow> nat \<Rightarrow> nat \<Rightarrow> 'e mpt \<Rightarrow> ('e mpt \<times> nat \<times> nat) option" where
  "if_command E z ii len ln s =
     do {
       expr \<leftarrow> argument z ii len 4;
       let (e, v, evs) = e_query_int E (retry s) (eng s) (''SELECT '' @ trim_end expr);
       let s = on_events evs (s\<lparr>eng := e\<rparr>);
       (skip, ln) \<leftarrow> (if v = Some 0 \<or> v = None then do { rest \<leftarrow> rfrom z (ii + len); find_endif rest True ln }
                    else Some (0, ln));
       Some (s, skip, ln)
     }"

text \<open>Runs the SQL collected before a command; the pending SQL then begins behind the command.\<close>

definition prior_sql :: "'e engine \<Rightarrow> string \<Rightarrow> nat \<Rightarrow> pos \<Rightarrow> 'e mpt \<Rightarrow> ('e mpt \<times> pos) option" where
  "prior_sql E z len p s =
     (if p_begin p < p_ii p
      then
        do {
          q \<leftarrow> rslice z (p_begin p) (p_ii p);
          let (s, b) = eval_sql E (p_buf p) q s;
          Some (s, p\<lparr>p_buf := b, p_begin := p_ii p + len\<rparr>)
        }
      else Some (s, p))"

text \<open>The command's text is logged when statements are traced.\<close>

definition trace_command :: "string \<Rightarrow> nat \<Rightarrow> nat \<Rightarrow> 'e mpt \<Rightarrow> 'e mpt option" where
  "trace_command z ii len s =
     (if 2 \<le> i_trace s then map_option (\<lambda>t. log_message t s) (cut_slice z ii (ii + len)) else Some s)"

text \<open>What every command begins with: the SQL before it is run, its word and arguments are read, its text is traced.\<close>

definition command_head ::
  "'e engine \<Rightarrow> string \<Rightarrow> nat \<Rightarrow> pos \<Rightarrow> 'e mpt \<Rightarrow> ('e mpt \<times> pos \<times> string \<times> string list) option" where
  "command_head E z len p s =
     do {
       let ii = p_ii p;
       (s, p) \<leftarrow> prior_sql E z len p s;
       sp \<leftarrow> cut_slice z (ii + 2) (ii + len);
       let cmd = extract_token sp (length sp) 29;
       args \<leftarrow> parse_args 2 sp (length cmd);
       s \<leftarrow> trace_command z ii len s;
       Some (s, p, cmd, args)
     }"

text \<open>\<open>--else\<close>: the bytes to skip.\<close>

definition else_command :: "string \<Rightarrow> nat \<Rightarrow> nat \<Rightarrow> nat \<Rightarrow> (nat \<times> nat) option" where
  "else_command z ii len ln = do { rest \<leftarrow> rfrom z (ii + len); find_endif rest False ln }"

definition start_pos :: pos where
  "start_pos = \<lparr>p_ii = 0, p_begin = 0, p_line = 1, p_buf = []\<rparr>"

lemma prior_sql_fields: "prior_sql E z len p s = Some (s1, p1) \<Longrightarrow> p_ii p1 = p_ii p \<and> p_line p1 = p_line p"
  by (auto simp: prior_sql_def Let_def split: if_splits prod.splits bind_splits)

lemma task_command_ii: "task_command E z fname args ii len prev p s = Some (r, p1) \<Longrightarrow> ii + len \<le> p_ii p1"
  by (auto simp: task_command_def Let_def split: prod.splits bind_splits if_splits)

lemma token_advances: "ii < length z \<Longrightarrow> token_length (drop ii z) ln = (len, l) \<Longrightarrow> 0 < len \<and> ii + len \<le> length z"
  by (rule token_step)

lemma token_progress:
  assumes "\<not> length z \<le> ii" "(len, l) = token_length (drop ii z) ln"
  shows "length z - (ii + len) < length z - ii" "length z - (ii + skip + len) < length z - ii"
  using token_advances[of ii z ln len l] assms by auto

lemma task_progress:
  assumes "\<not> length z \<le> ii" "(len, l) = token_length (drop ii z) ln"
    "task_command E z fname args ii len prev p s = Some (r, p1)"
  shows "length z - p_ii p1 < length z - ii"
proof -
  have "ii + len \<le> p_ii p1" using task_command_ii assms(3) by metis
  moreover have "0 < len" using token_advances[of ii z ln len l] assms by simp
  ultimately show ?thesis using assms(1) by linarith
qed

text \<open>A slice that is out of range anywhere ends the run with a panic.\<close>

function run_loop ::
  "'e engine \<Rightarrow> nat \<Rightarrow> int \<Rightarrow> int \<Rightarrow> string \<Rightarrow> string \<Rightarrow> pos \<Rightarrow> 'e mpt \<Rightarrow> 'e res" where
  "run_loop E depth i_client task_id z fname p s =
     (let ii = p_ii p
      in if length z \<le> ii then
           (if p_begin p < ii
            then (case rslice z (p_begin p) ii of None \<Rightarrow> Panicked | Some q \<Rightarrow> run_sql E q s)
            else Ok s)
         else
           (let prev = p_line p;
                (len, ln) = token_length (drop ii z) prev;
                p = p\<lparr>p_line := ln\<rparr>
            in if is_blank z ii \<or> \<not> starts_command z ii
               then run_loop E depth i_client task_id z fname (p\<lparr>p_ii := ii + len\<rparr>) s
               else
                 (case command_head E z len p s of
                    None \<Rightarrow> Panicked
                  | Some (s, p, cmd, args) \<Rightarrow>
                     if cmd = ''source'' then
                       (case read_source E fname (arg args 0) of
                          Inl name \<Rightarrow> fatal_error E False (''cannot open '' @ [DQUOTE] @ name @ [DQUOTE] @ '' for reading'') s
                        | Inr (f, content) \<Rightarrow>
                            (case depth of
                               0 \<Rightarrow> Panicked
                             | Suc d \<Rightarrow>
                                 (case run_loop E d 0 0 content f start_pos
                                         (if i_trace s \<noteq> 0 then log_message (''begin script ['' @ f @ '']'') s else s) of
                                    Ok s \<Rightarrow> run_loop E depth i_client task_id z fname (p\<lparr>p_ii := ii + len\<rparr>)
                                              (if i_trace s \<noteq> 0 then log_message (''end script ['' @ f @ '']'') s else s)
                                  | r \<Rightarrow> r)))
                     else if cmd = ''if'' then
                       (case if_command E z ii len ln s of
                          None \<Rightarrow> Panicked
                        | Some (s, skip, ln) \<Rightarrow>
                            run_loop E depth i_client task_id z fname (p\<lparr>p_ii := ii + skip + len, p_line := ln\<rparr>) s)
                     else if cmd = ''else'' then
                       (case else_command z ii len ln of
                          None \<Rightarrow> Panicked
                        | Some (skip, ln) \<Rightarrow>
                            run_loop E depth i_client task_id z fname (p\<lparr>p_ii := ii + skip + len, p_line := ln\<rparr>) s)
                     else if cmd = ''task'' \<and> i_client = 0 then
                       (case task_command E z fname args ii len prev p s of
                          None \<Rightarrow> Panicked
                        | Some (Ok s, p) \<Rightarrow> run_loop E depth i_client task_id z fname p s
                        | Some (r, p) \<Rightarrow> r)
                     else
                       (let (r, b) = simple_command E i_client task_id z fname cmd args ii len prev (p_buf p) s
                        in case r of
                             Ok s \<Rightarrow> run_loop E depth i_client task_id z fname (p\<lparr>p_ii := ii + len, p_buf := b\<rparr>) s
                           | x \<Rightarrow> x))))"
  by pat_completeness auto

termination
proof (relation "measures [\<lambda>(E, depth, ic, tid, z, fname, p, s). depth,
    \<lambda>(E, depth, ic, tid, z, fname, p, s). length z - p_ii p]", goal_cases)
  case 1
  show ?case by simp
qed (auto simp: token_progress task_progress)

declare run_loop.simps [simp del]

definition run_script :: "'e engine \<Rightarrow> nat \<Rightarrow> int \<Rightarrow> int \<Rightarrow> string \<Rightarrow> string \<Rightarrow> 'e mpt \<Rightarrow> 'e res" where
  "run_script E depth i_client task_id script fname s =
     run_loop E depth i_client task_id script fname start_pos s"

end
