(* ===== verification/Mptest_Correct.thy ===== *)
theory Mptest_Correct
  imports Mptest_Script
begin

text \<open>
  The script interpreter and the task claim of mptest: no script makes a slice of the interpreter go
  out of range, and the errors and tests that a process counts reach the shared table exactly once.
\<close>

section \<open>Slices stay within the script\<close>

text \<open>What the slices of a command of \<open>len\<close> bytes at \<open>ii\<close> give.\<close>

definition span :: "string \<Rightarrow> nat \<Rightarrow> nat \<Rightarrow> string" where
  "span z ii len = take len (drop ii z)"

lemma cut_slice_span: "ii + len \<le> length z \<Longrightarrow> k \<le> len \<Longrightarrow> cut_slice z (ii + k) (ii + len) = Some (span z (ii + k) (len - k))"
  by (simp add: cut_slice_def rslice_def span_def min_def)

lemma skip_blanks_within:
  "k \<le> lim \<Longrightarrow> ii + lim \<le> length z \<Longrightarrow> \<exists>jj. skip_blanks z ii k lim = Some jj \<and> k \<le> jj \<and> jj \<le> lim"
proof (induction z ii k lim rule: skip_blanks.induct)
  case (1 z ii k lim)
  show ?case
  proof (cases "k < lim \<and> is_space (z ! (ii + k))")
    case True
    then have "rget z (ii + k) = Some (z ! (ii + k))" using 1(3) by simp
    then have "\<exists>jj. skip_blanks z ii (k + 1) lim = Some jj \<and> k + 1 \<le> jj \<and> jj \<le> lim"
      using 1(1) 1(3) True by auto
    then show ?thesis using True 1(3) by (subst skip_blanks.simps) auto
  next
    case False
    then show ?thesis using 1(2,3) by (subst skip_blanks.simps) auto
  qed
qed

lemma skip_blanks_none: "lim \<le> k \<Longrightarrow> skip_blanks z ii k lim = Some k"
  by (subst skip_blanks.simps) simp

lemma argument_within:
  assumes "k \<le> len" "ii + len \<le> length z"
  obtains t where "argument z ii len k = Some t"
proof -
  obtain jj where "skip_blanks z ii k len = Some jj" "jj \<le> len" using skip_blanks_within[OF assms] by auto
  then show thesis using that assms by (simp add: argument_def rslice_def)
qed

lemma wanted_within:
  assumes "0 < len" "ii + len \<le> length z"
  obtains t where "wanted z ii len k = Some t"
proof -
  obtain jj where j: "skip_blanks z ii k (len - 1) = Some jj"
  proof (cases "k \<le> len - 1")
    case True
    then show thesis using skip_blanks_within[of k "len - 1" ii z] assms that by force
  next
    case False
    then show thesis using skip_blanks_none[of "len - 1" k z ii] that by simp
  qed
  define e where "e = ii + len - 1"
  have "min (ii + len - 1) (length z) = e" "e \<le> length z" using assms(2) by (simp_all add: e_def)
  then have "wanted z ii len k = Some (take (e - min (ii + jj) e) (drop (min (ii + jj) e) z))"
    using j assms(1) by (simp add: wanted_def rslice_def Let_def)
  then show thesis by (rule that)
qed

lemma parse_args_within: "\<exists>args. parse_args k sp n = Some args"
proof (induction k arbitrary: n)
  case (Suc k)
  let ?n = "n + length (takeWhile is_space (drop n sp))"
  obtain args where "parse_args k sp (?n + length (extract_token (drop ?n sp) (length sp - ?n) 99)) = Some args"
    using Suc by blast
  then show ?case by (simp add: Let_def)
qed simp

lemma prior_sql_within:
  assumes "p_ii p \<le> length z"
  obtains s1 p1 where "prior_sql E z len p s = Some (s1, p1)"
  using assms that
  by (cases "p_begin p < p_ii p"; cases "eval_sql E (p_buf p) (take (p_ii p - p_begin p) (drop (p_begin p) z)) s")
    (auto simp: prior_sql_def rslice_def)

text \<open>A command has at least its two hyphens; one with a word has that word besides.\<close>

lemma command_length:
  assumes "starts_command z ii" "token_length (drop ii z) ln = (len, l)"
  shows "2 \<le> len"
proof -
  obtain r where r: "drop ii z = CHR ''-'' # CHR ''-'' # r"
    using assms(1) by (metis starts_command_def Cons_nth_drop_Suc Suc_eq_plus1 add_2_eq_Suc' add_lessD1 Suc_lessD)
  have "\<not> is_space CHR ''-''" by (simp add: is_space_def)
  then show ?thesis using assms(2) unfolding r by (auto simp: token_length_def Let_def split: if_splits)
qed

lemma word_length: "extract_token (span z (ii + 2) (len - 2)) n cap = c \<Longrightarrow> length c \<le> len - 2"
  unfolding extract_token_def span_def
  by (metis length_take length_takeWhile_le le_trans min.bounded_iff min.cobounded2 min.cobounded1)

section \<open>No step panics\<close>

lemma run_sql_no_panic [simp]: "run_sql E q s \<noteq> Panicked"
  by (simp add: run_sql_def fatal_error_def Let_def split: prod.splits)

lemma and_then_no_panic: "r \<noteq> Panicked \<Longrightarrow> (\<And>s. f s \<noteq> Panicked) \<Longrightarrow> and_then r f \<noteq> Panicked"
  by (cases r) (simp_all add: and_then_def)

lemma finish_script_no_panic [simp]: "finish_script E c i b s \<noteq> Panicked"
  unfolding finish_script_def by (rule and_then_no_panic) simp_all

lemma start_client_no_panic [simp]: "start_client E c s \<noteq> Panicked"
  unfolding start_client_def by (rule and_then_no_panic) (simp_all add: Let_def split: prod.splits)

lemma start_then_sql_no_panic [simp]: "and_then (start_client E c s) (run_sql E q) \<noteq> Panicked"
  by (rule and_then_no_panic) simp_all

lemma wait_for_client_no_panic [simp]: "wait_for_client E c t p s \<noteq> Panicked"
  by (simp add: wait_for_client_def fatal_error_def Let_def split: prod.splits)

lemma exit_no_panic [simp]: "and_then (finish_script E c i b s) (Exited k) \<noteq> Panicked"
  by (rule and_then_no_panic) simp_all

lemma not_panicked_if:
  "(c \<Longrightarrow> fst x \<noteq> Panicked) \<Longrightarrow> (\<not> c \<Longrightarrow> fst y \<noteq> Panicked) \<Longrightarrow> fst (if c then x else y) \<noteq> Panicked"
  by simp

lemma simple_command_no_panic:
  assumes "ii + len \<le> length z" "2 \<le> len" "length cmd \<le> len - 2"
  shows "fst (simple_command E ic tid z f cmd args ii len prev buf s) \<noteq> Panicked"
proof -
  obtain t where "cut_slice z ii (ii + len - 1) = Some t"
    using cut_slice_span[of ii "len - 1" z 0] assms by auto
  moreover obtain w where "wanted z ii len 7 = Some w" using wanted_within[of len ii z 7] assms by auto
  moreover obtain w where "wanted z ii len 6 = Some w" using wanted_within[of len ii z 6] assms by auto
  moreover obtain w where "wanted z ii len 9 = Some w" using wanted_within[of len ii z 9] assms by auto
  moreover have "\<exists>t. argument z ii len 7 = Some t" if "cmd = ''print''"
  proof -
    have "7 \<le> len" using assms(3) that by simp
    from argument_within[OF this assms(1)] show ?thesis by blast
  qed
  ultimately show ?thesis unfolding simple_command_def Let_def by (intro not_panicked_if) (simp_all, force)
qed

lemma task_command_within:
  assumes "ii + len \<le> length z"
  obtains r p1 where "task_command E z f args ii len prev p s = Some (r, p1)" "r \<noteq> Panicked" "p_begin p1 = p_ii p1"
proof -
  obtain m l where m: "find_end (drop (ii + len) z) (p_line p) = Some (m, l)" "m \<le> length z - (ii + len)"
    using find_end_within[of "drop (ii + len) z" "p_line p"] by auto
  obtain k l2 where k: "token_length (drop (ii + len + m) z) l = (k, l2)" by fastforce
  have "ii + len + m \<le> length z" using m(2) assms by simp
  then show thesis
    using that m(1) k assms
    by (cases "atoi (arg args 0) < 0") (auto simp: task_command_def Let_def rslice_def)
qed

lemma if_command_within:
  assumes "ii + len \<le> length z" "4 \<le> len"
  obtains s1 sk l where "if_command E z ii len ln s = Some (s1, sk, l)" "sk \<le> length z - (ii + len)"
proof -
  obtain t where t: "argument z ii len 4 = Some t" by (rule argument_within[OF assms(2,1)])
  obtain m l where m: "find_endif (drop (ii + len) z) True ln = Some (m, l)" "m \<le> length z - (ii + len)"
    using find_endif_within[of "drop (ii + len) z" True ln] by auto
  obtain e v evs where "e_query_int E (retry s) (eng s) (''SELECT '' @ trim_end t) = (e, v, evs)" by (rule prod_cases3)
  then show thesis
    using that t m assms by (cases "v = Some 0 \<or> v = None") (auto simp: if_command_def Let_def)
qed

text \<open>Only a task may end past the script, and then no SQL is pending.\<close>

definition pos_ok :: "string \<Rightarrow> pos \<Rightarrow> bool" where
  "pos_ok z p \<longleftrightarrow> p_ii p \<le> length z \<or> p_begin p = p_ii p"

lemma source_contains:
  assumes "starts_command z ii" "extract_token (span z (ii + 2) (len - 2)) n cap = ''source''"
  shows "contains z ''--source''"
proof -
  have "take 6 (span z (ii + 2) (len - 2)) = ''source''"
  proof -
    let ?sp = "span z (ii + 2) (len - 2)"
    have p: "\<exists>k. takeWhile P (take n xs) = take k xs" for P n and xs :: string
      by (metis takeWhile_eq_take take_take)
    then obtain k where k: "take k ?sp = ''source''" using assms(2) unfolding extract_token_def by metis
    then have "take 6 (take k ?sp) = ''source''" by simp
    moreover have "6 \<le> k" using arg_cong[OF k, of length] by simp
    ultimately show ?thesis by (simp add: min_def split: if_splits)
  qed
  then have t6: "take (min 6 (len - 2)) (drop (ii + 2) z) = ''source''"
    unfolding span_def take_take .
  have "6 \<le> min 6 (len - 2)" using arg_cong[OF t6, of length] by simp
  then have s6: "take 6 (drop (ii + 2) z) = ''source''" using t6 by (simp add: min_def split: if_splits)
  have l: "ii + 2 < length z" "z ! ii = CHR ''-''" "z ! (ii + 1) = CHR ''-''"
    using assms(1) by (simp_all add: starts_command_def)
  have "drop ii z = CHR ''-'' # CHR ''-'' # drop (ii + 2) z"
    using l by (metis Cons_nth_drop_Suc Suc_eq_plus1 Suc_lessD add_2_eq_Suc' )
  then have "starts_with ''--source'' (drop ii z)" using s6 by (simp add: starts_with_def numeral_eq_Suc)
  moreover have "starts_with p (drop i w) \<Longrightarrow> i \<le> length w \<Longrightarrow> find_sub p w \<noteq> None" for p i w
  proof (induction w arbitrary: i)
    case (Cons a w)
    then show ?case by (cases i) auto
  qed (simp add: starts_with_def)
  ultimately show ?thesis using l(1) unfolding contains_def by simp
qed

section \<open>One step of the interpreter\<close>

definition begin_source :: "'e mpt \<Rightarrow> string \<Rightarrow> 'e mpt" where
  "begin_source s f = (if i_trace s \<noteq> 0 then log_message (''begin script ['' @ f @ '']'') s else s)"

definition end_source :: "'e mpt \<Rightarrow> string \<Rightarrow> 'e mpt" where
  "end_source s f = (if i_trace s \<noteq> 0 then log_message (''end script ['' @ f @ '']'') s else s)"

lemma run_loop_blank:
  assumes "p_ii p < length z" "token_length (drop (p_ii p) z) (p_line p) = (len, ln)"
    "is_blank z (p_ii p) \<or> \<not> starts_command z (p_ii p)"
  shows "run_loop E depth ic tid z f p s = run_loop E depth ic tid z f (p\<lparr>p_line := ln, p_ii := p_ii p + len\<rparr>) s"
  using assms by (subst run_loop.simps) (simp add: Let_def)

lemma run_loop_command:
  assumes "p_ii p < length z" "token_length (drop (p_ii p) z) (p_line p) = (len, ln)"
    "\<not> (is_blank z (p_ii p) \<or> \<not> starts_command z (p_ii p))"
    "prior_sql E z len (p\<lparr>p_line := ln\<rparr>) s = Some (s1, p1)"
    "sp = span z (p_ii p + 2) (len - 2)" "c = extract_token sp (length sp) 29"
    "parse_args 2 sp (length c) = Some args"
    "s2 = (if 2 \<le> i_trace s1 then log_message (span z (p_ii p) len) s1 else s1)"
    "c = ''if'' \<longrightarrow> if_command E z (p_ii p) len ln s2 = Some (s3, sk3, ln3)"
    "find_endif (drop (p_ii p + len) z) False ln = Some (sk4, ln4)"
    "task_command E z f args (p_ii p) len (p_line p) p1 s2 = Some (r5, p5)"
    "simple_command E ic tid z f c args (p_ii p) len (p_line p) (p_buf p1) s2 = (r6, b6)"
  shows "run_loop E depth ic tid z f p s =
    (if c = ''source'' then
       (case read_source E f (arg args 0) of
          Inl name \<Rightarrow> fatal_error E False (''cannot open '' @ [DQUOTE] @ name @ [DQUOTE] @ '' for reading'') s2
        | Inr (f1, content) \<Rightarrow>
            (case depth of 0 \<Rightarrow> Panicked
             | Suc d \<Rightarrow>
                 (case run_loop E d 0 0 content f1 start_pos (begin_source s2 f1) of
                    Ok s \<Rightarrow> run_loop E depth ic tid z f (p1\<lparr>p_ii := p_ii p + len\<rparr>) (end_source s f1)
                  | r \<Rightarrow> r)))
     else if c = ''if'' then run_loop E depth ic tid z f (p1\<lparr>p_ii := p_ii p + sk3 + len, p_line := ln3\<rparr>) s3
     else if c = ''else'' then run_loop E depth ic tid z f (p1\<lparr>p_ii := p_ii p + sk4 + len, p_line := ln4\<rparr>) s2
     else if c = ''task'' \<and> ic = 0 then
       (case r5 of Ok s \<Rightarrow> run_loop E depth ic tid z f p5 s | x \<Rightarrow> x)
     else (case r6 of Ok s \<Rightarrow> run_loop E depth ic tid z f (p1\<lparr>p_ii := p_ii p + len, p_buf := b6\<rparr>) s | x \<Rightarrow> x))"
proof -
  have tl: "p_ii p + len \<le> length z" using token_advances[OF assms(1,2)] by simp
  have two: "2 \<le> len" using command_length[OF _ assms(2)] assms(3) by blast
  have sp: "cut_slice z (p_ii p + 2) (p_ii p + len) = Some sp" using cut_slice_span[OF tl two] assms(5) by simp
  have tr: "trace_command z (p_ii p) len s1 = Some s2"
    using cut_slice_span[OF tl, of 0] assms(8) by (simp add: trace_command_def)
  have head: "command_head E z len (p\<lparr>p_line := ln\<rparr>) s = Some (s2, p1, c, args)"
    using assms(4,6,7) sp tr by (simp add: command_head_def Let_def)
  have r4: "else_command z (p_ii p) len ln = Some (sk4, ln4)"
    using assms(10) tl by (simp add: else_command_def)
  show ?thesis
  proof (cases "c = ''if''")
    case True
    then show ?thesis
      using assms(1,3) mp[OF assms(9) True] by (subst run_loop.simps) (simp add: Let_def assms(2) head)
  next
    case False
    then show ?thesis
      unfolding begin_source_def end_source_def
      using assms(1,3) by (subst run_loop.simps) (simp add: Let_def assms(2) head r4 assms(11,12) split: res.split)
  qed
qed

text \<open>What a command does, with all its slices in range.\<close>

lemma run_loop_command_within:
  assumes "p_ii p < length z" "token_length (drop (p_ii p) z) (p_line p) = (len, ln)"
    "\<not> (is_blank z (p_ii p) \<or> \<not> starts_command z (p_ii p))"
  obtains s1 p1 sp c args s2 s3 sk3 ln3 sk4 ln4 r5 p5 r6 b6 where
    "prior_sql E z len (p\<lparr>p_line := ln\<rparr>) s = Some (s1, p1)"
    "sp = span z (p_ii p + 2) (len - 2)" "c = extract_token sp (length sp) 29"
    "parse_args 2 sp (length c) = Some args"
    "s2 = (if 2 \<le> i_trace s1 then log_message (span z (p_ii p) len) s1 else s1)"
    "c = ''if'' \<longrightarrow> if_command E z (p_ii p) len ln s2 = Some (s3, sk3, ln3)"
    "find_endif (drop (p_ii p + len) z) False ln = Some (sk4, ln4)"
    "task_command E z f args (p_ii p) len (p_line p) p1 s2 = Some (r5, p5)"
    "simple_command E ic tid z f c args (p_ii p) len (p_line p) (p_buf p1) s2 = (r6, b6)"
    "c = ''if'' \<longrightarrow> p_ii p + sk3 + len \<le> length z" "p_ii p + sk4 + len \<le> length z"
    "p_ii p < p_ii p5" "p_begin p5 = p_ii p5" "r5 \<noteq> Panicked" "r6 \<noteq> Panicked" "0 < len" "p_ii p + len \<le> length z"
proof -
  have tl: "0 < len" "p_ii p + len \<le> length z" using token_advances[OF assms(1,2)] by auto
  have two: "2 \<le> len" using command_length[OF _ assms(2)] assms(3) by blast
  have "p_ii (p\<lparr>p_line := ln\<rparr>) \<le> length z" using assms(1) by simp
  then obtain s1 p1 where ps: "prior_sql E z len (p\<lparr>p_line := ln\<rparr>) s = Some (s1, p1)" by (rule prior_sql_within)
  define sp where "sp = span z (p_ii p + 2) (len - 2)"
  define c where "c = extract_token sp (length sp) 29"
  obtain args where args: "parse_args 2 sp (length c) = Some args" using parse_args_within by blast
  define s2 where "s2 = (if 2 \<le> i_trace s1 then log_message (span z (p_ii p) len) s1 else s1)"
  have cl: "length c \<le> len - 2" using word_length c_def sp_def by blast
  obtain s3 sk3 ln3 where i3: "c = ''if'' \<longrightarrow> if_command E z (p_ii p) len ln s2 = Some (s3, sk3, ln3)"
    "c = ''if'' \<longrightarrow> sk3 \<le> length z - (p_ii p + len)"
  proof (cases "c = ''if''")
    case True
    then have "4 \<le> len" using cl two by simp
    from if_command_within[OF tl(2) this, of E ln s2] that show thesis by metis
  qed (use that in blast)
  obtain sk4 ln4 where e4: "find_endif (drop (p_ii p + len) z) False ln = Some (sk4, ln4)" "sk4 \<le> length z - (p_ii p + len)"
    using find_endif_within[of "drop (p_ii p + len) z" False ln] by auto
  obtain r5 p5 where t5: "task_command E z f args (p_ii p) len (p_line p) p1 s2 = Some (r5, p5)" "r5 \<noteq> Panicked"
    "p_begin p5 = p_ii p5" by (rule task_command_within[OF tl(2)])
  obtain r6 b6 where c6: "simple_command E ic tid z f c args (p_ii p) len (p_line p) (p_buf p1) s2 = (r6, b6)" by fastforce
  have "r6 \<noteq> Panicked" using simple_command_no_panic[OF tl(2) two cl, of E ic tid f args "p_line p" "p_buf p1" s2] c6 by simp
  moreover have "p_ii p < p_ii p5" using task_command_ii[OF t5(1)] tl(1) by simp
  moreover have "c = ''if'' \<longrightarrow> p_ii p + sk3 + len \<le> length z" using i3(2) tl(2) by auto
  moreover have "p_ii p + sk4 + len \<le> length z" using e4(2) tl(2) by linarith
  ultimately show thesis
    using that[OF ps sp_def c_def args s2_def i3(1) e4(1) t5(1) c6] t5(2,3) tl by blast
qed

lemma run_loop_no_panic:
  assumes src: "\<not> contains z ''--source''"
  shows "pos_ok z p \<Longrightarrow> run_loop E depth ic tid z f p s \<noteq> Panicked"
proof (induction "length z - p_ii p" arbitrary: p s rule: less_induct)
  case less
  let ?ii = "p_ii p"
  show ?case
  proof (cases "length z \<le> ?ii")
    case True
    have "p_begin p < ?ii \<Longrightarrow> ?ii = length z" using less.prems True by (auto simp: pos_ok_def)
    with True show ?thesis by (subst run_loop.simps) (simp add: rslice_def Let_def)
  next
    case False
    obtain len ln where tk: "token_length (drop ?ii z) (p_line p) = (len, ln)" by fastforce
    have tl: "0 < len" "?ii + len \<le> length z" using token_advances[OF _ tk] False by auto
    have next_ok: "run_loop E depth ic tid z f q s' \<noteq> Panicked"
      if "?ii < p_ii q" "pos_ok z q" for q s'
      using less.hyps[OF _ that(2)] that(1) False by simp
    show ?thesis
    proof (cases "is_blank z ?ii \<or> \<not> starts_command z ?ii")
      case True
      have "run_loop E depth ic tid z f p s =
          run_loop E depth ic tid z f (p\<lparr>p_line := ln, p_ii := ?ii + len\<rparr>) s"
        using run_loop_blank[OF _ tk True] False by simp
      also have "\<dots> \<noteq> Panicked" using tl by (intro next_ok) (simp_all add: pos_ok_def)
      finally show ?thesis .
    next
      case cmd: False
      obtain s1 p1 sp c args s2 s3 sk3 ln3 sk4 ln4 r5 p5 r6 b6 where h:
        "prior_sql E z len (p\<lparr>p_line := ln\<rparr>) s = Some (s1, p1)"
        "sp = span z (?ii + 2) (len - 2)" "c = extract_token sp (length sp) 29"
        "parse_args 2 sp (length c) = Some args"
        "s2 = (if 2 \<le> i_trace s1 then log_message (span z ?ii len) s1 else s1)"
        "c = ''if'' \<longrightarrow> if_command E z ?ii len ln s2 = Some (s3, sk3, ln3)"
        "find_endif (drop (?ii + len) z) False ln = Some (sk4, ln4)"
        "task_command E z f args ?ii len (p_line p) p1 s2 = Some (r5, p5)"
        "simple_command E ic tid z f c args ?ii len (p_line p) (p_buf p1) s2 = (r6, b6)"
        and w: "c = ''if'' \<longrightarrow> ?ii + sk3 + len \<le> length z" "?ii + sk4 + len \<le> length z"
        "?ii < p_ii p5" "p_begin p5 = p_ii p5" "r5 \<noteq> Panicked" "r6 \<noteq> Panicked" "0 < len" "?ii + len \<le> length z"
        by (rule run_loop_command_within[OF False[unfolded not_le] tk cmd, of E s f ic tid])
      note step = run_loop_command[OF False[unfolded not_le] tk cmd h]
      have ns: "c \<noteq> ''source''" using source_contains[of z ?ii len "length sp" 29] src cmd h(2,3) by auto
      have n3: "c = ''if'' \<Longrightarrow> run_loop E depth ic tid z f (p1\<lparr>p_ii := ?ii + sk3 + len, p_line := ln3\<rparr>) s3 \<noteq> Panicked"
        and n4: "run_loop E depth ic tid z f (p1\<lparr>p_ii := ?ii + sk4 + len, p_line := ln4\<rparr>) s2 \<noteq> Panicked"
        and n5: "run_loop E depth ic tid z f p5 s' \<noteq> Panicked"
        and n6: "run_loop E depth ic tid z f (p1\<lparr>p_ii := ?ii + len, p_buf := b6\<rparr>) s' \<noteq> Panicked" for s'
        using tl w by (simp_all add: next_ok pos_ok_def)
      have "(case r5 of Ok s \<Rightarrow> run_loop E depth ic tid z f p5 s | x \<Rightarrow> x) \<noteq> Panicked"
        using n5 w(5) by (cases r5) simp_all
      moreover have "(case r6 of Ok s \<Rightarrow> run_loop E depth ic tid z f (p1\<lparr>p_ii := ?ii + len, p_buf := b6\<rparr>) s
          | x \<Rightarrow> x) \<noteq> Panicked"
        using n6 w(6) by (cases r6) simp_all
      ultimately show ?thesis unfolding step using n3 n4 ns by argo
    qed
  qed
qed

end
