(* ===== verification/Mptest_Counters.thy ===== *)
theory Mptest_Counters
  imports Mptest_Correct
begin

text \<open>
  The counters of an mptest process: every error that it counts is an error message that it wrote, in
  every step of the interpreter, and the counts reach the shared table exactly once.
\<close>

section \<open>Relations that every step keeps\<close>

text \<open>
  What a step of the process may do to its state: write a message, count an error with a message or
  a test, let the engine work, set the busy timeout and the filter of errors. A reflexive and
  transitive relation that allows these is kept by the interpreter on every path.
\<close>

locale process_relation =
  fixes keeps :: "'e mpt \<Rightarrow> 'e mpt \<Rightarrow> bool"
  assumes keeps_refl [simp]: "keeps s s"
    and keeps_trans [trans]: "keeps s t \<Longrightarrow> keeps t u \<Longrightarrow> keeps s u"
    and error_kept: "keeps s (error_message m s)"
    and log_kept: "keeps s (log_message m s)"
    and fatal_kept: "keeps s (s\<lparr>msgs := msgs s @ [FatalMsg m]\<rparr>)"
    and eng_kept: "keeps s (s\<lparr>eng := e\<rparr>)"
    and timeout_kept: "keeps s (s\<lparr>i_timeout := n\<rparr>)"
    and ignore_kept: "keeps s (s\<lparr>ignore_sql_errors := b\<rparr>)"
    and test_kept: "keeps s (s\<lparr>n_test := n_test s + 1\<rparr>)"
begin

definition keeps_res :: "'e mpt \<Rightarrow> 'e res \<Rightarrow> bool" where
  "keeps_res s r = (case r of Ok s' \<Rightarrow> keeps s s' | Exited c s' \<Rightarrow> keeps s s' | Panicked \<Rightarrow> True)"

lemma keeps_Ok [simp]: "keeps_res s (Ok t) = keeps s t" and keeps_Exited [simp]: "keeps_res s (Exited c t) = keeps s t"
  and keeps_Panicked [simp]: "keeps_res s Panicked"
  by (simp_all add: keeps_res_def)

lemma keeps_res_trans: "keeps s t \<Longrightarrow> keeps_res t r \<Longrightarrow> keeps_res s r"
  by (cases r) (auto intro: keeps_trans)

lemma keeps_and_then: "keeps_res s r \<Longrightarrow> (\<And>t. keeps_res t (f t)) \<Longrightarrow> keeps_res s (and_then r f)"
  by (cases r) (auto simp: and_then_def intro: keeps_res_trans)

lemma keeps_update [simp]:
  "keeps s t \<Longrightarrow> keeps s (t\<lparr>eng := e\<rparr>)" "keeps s t \<Longrightarrow> keeps s (t\<lparr>i_timeout := n\<rparr>)"
  "keeps s t \<Longrightarrow> keeps s (t\<lparr>ignore_sql_errors := b\<rparr>)"
  "keeps s t \<Longrightarrow> keeps s (t\<lparr>n_test := n_test t + 1\<rparr>)"
  "keeps s t \<Longrightarrow> keeps s (t\<lparr>n_test := Suc (n_test t)\<rparr>)"
  "keeps s t \<Longrightarrow> keeps s (error_message m t)" "keeps s t \<Longrightarrow> keeps s (log_message m t)"
  using test_kept[of t]
  by (auto intro: keeps_trans eng_kept timeout_kept ignore_kept error_kept log_kept)

lemma keeps_sleep [simp]: "keeps s t \<Longrightarrow> keeps s (sqlite_sleep E n t)"
  by (simp add: sqlite_sleep_def)

lemma keeps_on_event [simp]: "keeps s t \<Longrightarrow> keeps s (on_event ev t)"
  by (cases ev) (simp_all add: sql_error_cb_def)

lemma keeps_on_events [simp]: "keeps s t \<Longrightarrow> keeps s (on_events evs t)"
  unfolding on_events_def by (induction evs arbitrary: t) simp_all

lemma keeps_exec_raw: "exec_raw E q s = (s', x) \<Longrightarrow> keeps s s'"
  by (auto simp: exec_raw_def Let_def split: if_splits prod.splits)

lemma keeps_try_sql: "try_sql E q s = (s', rc) \<Longrightarrow> keeps s s'"
  by (auto simp: try_sql_def dest: keeps_exec_raw split: prod.splits)

lemma keeps_eval_sql: "eval_sql E b q s = (s', b') \<Longrightarrow> keeps s s'"
  by (auto simp: eval_sql_def Let_def dest: keeps_exec_raw split: prod.splits)

lemma keeps_halt_loop [simp]: "keeps s (halt_loop E n s)"
proof (induction n arbitrary: s)
  case (Suc n)
  obtain t rc where t: "try_sql E ''UPDATE client SET wantHalt=1'' s = (t, rc)" by fastforce
  have "keeps s t" using keeps_try_sql[OF t] .
  moreover have "keeps t (halt_loop E n (sqlite_sleep E 10 t))"
    using Suc.IH[of "sqlite_sleep E 10 t"] by (rule keeps_trans[rotated]) simp
  ultimately show ?case using t keeps_trans by auto
qed simp

lemma keeps_fatal [simp]: "keeps_res s (fatal_error E b m s)"
proof -
  let ?t = "s\<lparr>msgs := msgs s @ [FatalMsg m], i_timeout := 0\<rparr>"
  have "keeps s ?t" using fatal_kept keeps_update(2) by blast
  with keeps_halt_loop[of ?t E 100] have "keeps s (halt_loop E 100 ?t)" using keeps_trans by blast
  then show ?thesis by (simp add: fatal_error_def Let_def fatal_kept)
qed

lemma keeps_run_sql [simp]: "keeps_res s (run_sql E q s)"
proof -
  obtain t rc cells err where x: "exec_raw E q s = (t, rc, cells, err)" by (rule prod_cases4)
  show ?thesis using keeps_res_trans[OF keeps_exec_raw[OF x] keeps_fatal] keeps_exec_raw[OF x]
    by (simp add: run_sql_def x)
qed

lemma keeps_finish_script [simp]: "keeps_res s (finish_script E c i b s)"
  unfolding finish_script_def by (rule keeps_and_then) simp_all

lemma keeps_start_client [simp]: "keeps_res s (start_client E c s)"
  unfolding start_client_def
  by (rule keeps_and_then) (simp_all add: Let_def split: prod.splits option.splits)

lemma keeps_wait_loop: "wait_loop E q rc t s = (s', rc') \<Longrightarrow> keeps s s'"
proof (induction E q rc t s arbitrary: s' rc' rule: wait_loop.induct)
  case (1 E q rc t s)
  obtain e rc1 evs where st: "e_step E (retry (sqlite_sleep E 50 s)) (eng (sqlite_sleep E 50 s)) q = (e, rc1, evs)"
    by (rule prod_cases3)
  show ?case
  proof (cases "(rc = SQLITE_BUSY \<or> rc = SQLITE_ROW) \<and> 0 < t")
    case True
    let ?u = "on_events evs ((sqlite_sleep E 50 s)\<lparr>eng := e\<rparr>)"
    have "wait_loop E q rc1 (t - 50) ?u = (s', rc')"
      using "1.prems" True st by (subst (asm) wait_loop.simps) simp
    from "1.IH"[OF True refl refl st[symmetric] refl this] have "keeps ?u s'" .
    then show ?thesis by (rule keeps_trans[rotated]) simp
  next
    case False
    with "1.prems" show ?thesis by (subst (asm) wait_loop.simps) simp
  qed
qed

lemma keeps_wait_for_client [simp]: "keeps_res s (wait_for_client E c t p s)"
proof -
  let ?q = "wait_query c" and ?s = "s\<lparr>i_timeout := 0\<rparr>"
  obtain e rc evs where st: "e_step E (retry ?s) (eng s) ?q = (e, rc, evs)" by (rule prod_cases3)
  obtain u rc1 where w: "wait_loop E ?q rc t (on_events evs (?s\<lparr>eng := e\<rparr>)) = (u, rc1)" by fastforce
  have "keeps s ?s" by simp
  then have f: "keeps_res s (fatal_error E True m ?s)" for m by (rule keeps_res_trans) simp
  have "keeps s u" by (rule keeps_trans[OF _ keeps_wait_loop[OF w]]) simp
  with f show ?thesis by (simp add: wait_for_client_def Let_def st w)
qed

text \<open>The steps of the interpreter.\<close>

lemma keeps_check_result [simp]: "keeps s (check_result ok ln f want got s)"
  by (simp add: check_result_def Let_def)

lemma keeps_set_show_errors [simp]: "keeps s (set_show_errors args s)"
  by (simp add: set_show_errors_def Let_def split: prod.splits option.splits)

lemma keeps_exit [simp]: "keeps_res s (and_then (finish_script E c i b s) (Exited k))"
  by (rule keeps_and_then) simp_all

lemma keeps_if_pair: "keeps_res s (fst x) \<Longrightarrow> keeps_res s (fst y) \<Longrightarrow> keeps_res s (fst (if c then x else y))"
  by simp

lemma keeps_simple_command:
  "keeps_res s (fst (simple_command E ic tid z f cmd args ii len prev buf s))"
  unfolding simple_command_def Let_def by (intro keeps_if_pair) (simp_all split: option.split)

lemma keeps_start_then_sql [simp]: "keeps_res s (and_then (start_client E c s) (run_sql E q))"
  by (rule keeps_and_then) simp_all

lemma keeps_task_command:
  "task_command E z f args ii len prev p s = Some (r, p1) \<Longrightarrow> keeps_res s r"
  unfolding task_command_def by (auto simp: Let_def split: if_splits prod.splits bind_splits)

lemma keeps_if_command: "if_command E z ii len ln s = Some (s', sk, l) \<Longrightarrow> keeps s s'"
  by (auto simp: if_command_def Let_def split: prod.splits bind_splits)

lemma keeps_prior_sql: "prior_sql E z len p s = Some (s', p') \<Longrightarrow> keeps s s'"
  by (auto simp: prior_sql_def Let_def dest: keeps_eval_sql split: if_splits prod.splits bind_splits)

lemma keeps_source [simp]:
  "keeps s t \<Longrightarrow> keeps s (begin_source t f)" "keeps s t \<Longrightarrow> keeps s (end_source t f)"
  by (simp_all add: begin_source_def end_source_def)

lemma keeps_continue:
  assumes "keeps s t" "keeps_res t r" "\<And>u. keeps_res u (f u)"
  shows "keeps_res s (case r of Ok u \<Rightarrow> f u | x \<Rightarrow> x)"
  using assms by (cases r) (auto intro: keeps_trans keeps_res_trans)

lemma keeps_if: "keeps_res s x \<Longrightarrow> keeps_res s y \<Longrightarrow> keeps_res s (if c then x else y)"
  by simp

text \<open>The loop over one script, given that the scripts it sources keep the relation.\<close>

lemma keeps_run_loop_at:
  assumes sourced: "\<And>d s ic tid z f p. depth = Suc d \<Longrightarrow> keeps_res s (run_loop E d ic tid z f p s)"
  shows "keeps_res s (run_loop E depth ic tid z f p s)"
proof (induction "length z - p_ii p" arbitrary: p s rule: less_induct)
  case less
  let ?ii = "p_ii p"
  show ?case
  proof (cases "length z \<le> ?ii")
    case True
    then show ?thesis by (subst run_loop.simps) (simp add: Let_def split: option.splits)
  next
    case False
    obtain len ln where tk: "token_length (drop ?ii z) (p_line p) = (len, ln)" by fastforce
    have tl: "0 < len" "?ii + len \<le> length z" using token_advances[OF _ tk] False by auto
    have next_ok: "keeps_res u (run_loop E depth ic tid z f q u)" if "?ii < p_ii q" for q u
      using less.hyps[of q u] that False by simp
    show ?thesis
    proof (cases "is_blank z ?ii \<or> \<not> starts_command z ?ii")
      case True
      show ?thesis unfolding run_loop_blank[OF False[unfolded not_le] tk True]
        by (rule next_ok) (use tl in simp)
    next
      case cmd: False
      obtain s1 p1 sp c args s2 s3 sk3 ln3 sk4 ln4 r5 p5 r6 b6 where h:
        "prior_sql E z len (p\<lparr>p_line := ln\<rparr>) s = Some (s1, p1)"
        "sp = span z (?ii + 2) (len - 2)" "c = extract_token sp (length sp) 29"
        "parse_args 2 sp (length c) = Some args"
        "s2 = (if 2 \<le> i_trace s1 then log_message (span z ?ii len) s1 else s1)"
        "c = ''if'' \<longrightarrow> if_command E z ?ii len ln s2 = Some (s3, sk3, ln3)"
        "find_endif (drop (?ii + len) z) False ln = Some (sk4, ln4)"
        "task_command E z f args ?ii len (p_line p) p1 s2 = Some (r5, p5)"
        "simple_command E ic tid z f c args ?ii len (p_line p) (p_buf p1) s2 = (r6, b6)"
        and w: "c = ''if'' \<longrightarrow> ?ii + sk3 + len \<le> length z" "?ii + sk4 + len \<le> length z"
        "?ii < p_ii p5" "p_begin p5 = p_ii p5" "r5 \<noteq> Panicked" "r6 \<noteq> Panicked" "0 < len" "?ii + len \<le> length z"
        by (rule run_loop_command_within[OF False[unfolded not_le] tk cmd, of E s f ic tid])
      note step = run_loop_command[OF False[unfolded not_le] tk cmd h] and t5 = h(8)
      have k2: "keeps s s2" using keeps_prior_sql[OF h(1)] by (simp add: h(5))
      have k3: "c = ''if'' \<Longrightarrow> keeps s s3" using k2 keeps_if_command h(6) keeps_trans by blast
      have k6: "keeps_res s2 r6" using keeps_simple_command[of s2 E ic tid z f c args ?ii len "p_line p" "p_buf p1"] h(9) by simp
      note goals = keeps_res_trans[OF k2] keeps_res_trans
      have n3: "c = ''if'' \<Longrightarrow> keeps_res s (run_loop E depth ic tid z f (p1\<lparr>p_ii := ?ii + sk3 + len, p_line := ln3\<rparr>) s3)"
        using goals(2)[OF k3] next_ok tl by simp
      have n4: "keeps_res s (run_loop E depth ic tid z f (p1\<lparr>p_ii := ?ii + sk4 + len, p_line := ln4\<rparr>) s2)"
        using goals(1) next_ok tl by simp
      have n5: "keeps_res s (case r5 of Ok s \<Rightarrow> run_loop E depth ic tid z f p5 s | x \<Rightarrow> x)"
        using k2 keeps_task_command[OF t5] by (rule keeps_continue) (use task_command_ii[OF t5] tl next_ok in simp)
      have n6: "keeps_res s (case r6 of Ok s \<Rightarrow> run_loop E depth ic tid z f (p1\<lparr>p_ii := ?ii + len, p_buf := b6\<rparr>) s | x \<Rightarrow> x)"
        using k2 k6 by (rule keeps_continue) (use tl next_ok in simp)
      have n1: "keeps_res s (case run_loop E d 0 0 content f1 start_pos (begin_source s2 f1) of
            Ok s \<Rightarrow> run_loop E depth ic tid z f (p1\<lparr>p_ii := ?ii + len\<rparr>) (end_source s f1) | r \<Rightarrow> r)"
        if "depth = Suc d" for d content f1
      proof (rule keeps_continue[OF _ sourced[OF that]])
        show "keeps s (begin_source s2 f1)" using k2 by simp
        show "keeps_res u (run_loop E depth ic tid z f (p1\<lparr>p_ii := ?ii + len\<rparr>) (end_source u f1))" for u
          by (rule keeps_res_trans[of u "end_source u f1"]) (use tl next_ok in simp_all)
      qed
      have "keeps_res s (case read_source E f (arg args 0) of
          Inl name \<Rightarrow> fatal_error E False (''cannot open '' @ [DQUOTE] @ name @ [DQUOTE] @ '' for reading'') s2
        | Inr (f1, content) \<Rightarrow>
            (case depth of 0 \<Rightarrow> Panicked
             | Suc d \<Rightarrow>
                 (case run_loop E d 0 0 content f1 start_pos (begin_source s2 f1) of
                    Ok s \<Rightarrow> run_loop E depth ic tid z f (p1\<lparr>p_ii := ?ii + len\<rparr>) (end_source s f1)
                  | r \<Rightarrow> r)))"
        using n1 keeps_res_trans[OF k2 keeps_fatal] by (simp split: sum.split nat.split prod.split)
      with n4 n5 n6 show ?thesis unfolding step using n3 by (cases "c = ''if''") (simp, simp add: keeps_if)
    qed
  qed
qed

lemma keeps_run_loop: "keeps_res s (run_loop E depth ic tid z f p s)"
proof (induction depth arbitrary: ic tid z f p s)
  case (0 ic tid z f p s)
  show ?case by (rule keeps_run_loop_at) simp
next
  case (Suc depth ic tid z f p s)
  show ?case by (rule keeps_run_loop_at) (use Suc.IH in auto)
qed

theorem keeps_run_script: "keeps_res s (run_script E depth ic tid z f s)"
  unfolding run_script_def by (rule keeps_run_loop)

end

end
