(* ===== verification/Mptest_Claims.thy ===== *)
theory Mptest_Claims
  imports Mptest_Counters
begin

text \<open>
  Claiming a task (\<open>start_script\<close>): what a process counted since its last claim is added to the shared
  table of counters, once, whatever the lock conflicts on the way.
\<close>

section \<open>The balance of counted and written errors\<close>

definition errs :: "'e mpt \<Rightarrow> nat" where
  "errs s = length (filter (\<lambda>m. case m of Err e \<Rightarrow> True | _ \<Rightarrow> False) (msgs s))"

text \<open>The errors counted are those written, and tests are not taken back.\<close>

definition accounted :: "'e mpt \<Rightarrow> 'e mpt \<Rightarrow> bool" where
  "accounted s s' \<longleftrightarrow>
     int (n_error s') - int (errs s') = int (n_error s) - int (errs s) \<and> n_test s \<le> n_test s'"

text \<open>The options handed to clients stay, and the log only grows.\<close>

definition same_settings :: "'e mpt \<Rightarrow> 'e mpt \<Rightarrow> bool" where
  "same_settings s s' \<longleftrightarrow>
     i_trace s' = i_trace s \<and> sql_trace s' = sql_trace s \<and> b_sync s' = b_sync s \<and> vfs s' = vfs s
     \<and> db_file s' = db_file s \<and> take (length (msgs s)) (msgs s') = msgs s"

interpretation accounting: process_relation accounted
  by unfold_locales (auto simp: accounted_def errs_def error_message_def log_message_def)

lemma same_settings_trans: "same_settings s t \<Longrightarrow> same_settings t u \<Longrightarrow> same_settings s u"
proof -
  assume st: "same_settings s t" and tu: "same_settings t u"
  have "length (msgs s) \<le> length (msgs t)"
    using st unfolding same_settings_def by (metis length_take min.cobounded1 min.commute)
  then have "take (length (msgs s)) (msgs u) = take (length (msgs s)) (msgs t)"
    using tu unfolding same_settings_def by (metis min.absorb1 take_take)
  with st tu show ?thesis unfolding same_settings_def by metis
qed

interpretation settings: process_relation same_settings
proof (unfold_locales, goal_cases)
  case (2 s t u)
  then show ?case by (rule same_settings_trans)
qed (auto simp: same_settings_def error_message_def log_message_def)

section \<open>The shared table\<close>

text \<open>The statements of \<open>start_script\<close> that are not the update of the counters.\<close>

definition coordination_sql :: "string \<Rightarrow> bool" where
  "coordination_sql q \<longleftrightarrow>
     q \<in> {''BEGIN IMMEDIATE'', ''COMMIT'', ''COMMIT TRANSACTION;''}
     \<or> (\<exists>c. q = ''DELETE FROM client WHERE id='' @ int_str c) \<or> (\<exists>t. q = start_task_sql t)"

text \<open>
  What SQLite documents of the table of counters, as far as this process has added to it (\<open>cnt\<close>): a successful update
  adds the given amounts; a successful statement on another table or the end of the transaction leaves it, and so do a
  transaction that could not be begun because the database is locked and a commit that was refused for that reason,
  after which the transaction stays active; queries that do not fail, that is, log no error, and sleeping leave it. Nothing is said
  of other failures, on which SQLite may roll the transaction back by itself.
\<close>

definition lock_conflict :: "string \<Rightarrow> int \<Rightarrow> bool" where
  "lock_conflict q rc \<longleftrightarrow> rc = SQLITE_BUSY \<and> q \<in> {''BEGIN IMMEDIATE'', ''COMMIT'', ''COMMIT TRANSACTION;''}"

definition no_log :: "event list \<Rightarrow> bool" where
  "no_log evs \<longleftrightarrow> list_all (\<lambda>e. case e of SqlLog c m \<Rightarrow> False | BusyCalled n \<Rightarrow> True) evs"

definition counter_table :: "'e engine \<Rightarrow> ('e \<Rightarrow> nat \<times> nat) \<Rightarrow> bool" where
  "counter_table E cnt \<longleftrightarrow>
     (\<forall>r e ne nt. x_rc (snd (e_exec E r e (flush_sql ne nt))) = SQLITE_OK \<longrightarrow>
        cnt (fst (e_exec E r e (flush_sql ne nt))) = (fst (cnt e) + ne, snd (cnt e) + nt))
     \<and> (\<forall>r e q. coordination_sql q \<longrightarrow>
          x_rc (snd (e_exec E r e q)) = SQLITE_OK \<or> lock_conflict q (x_rc (snd (e_exec E r e q))) \<longrightarrow>
          cnt (fst (e_exec E r e q)) = cnt e)
     \<and> (\<forall>r e q. starts_with ''SELECT'' q \<longrightarrow>
          (no_log (snd (snd (e_query_int E r e q))) \<longrightarrow> cnt (fst (e_query_int E r e q)) = cnt e) \<and>
          (no_log (snd (snd (e_query_task E r e q))) \<longrightarrow> cnt (fst (e_query_task E r e q)) = cnt e))
     \<and> (\<forall>n e. cnt (e_sleep E n e) = cnt e)"

text \<open>An engine on which the statements of a claim fail at most for a lock, that is, without I/O errors, with space on
  the device and in memory.\<close>

definition fails_for_locks_only :: "'e engine \<Rightarrow> bool" where
  "fails_for_locks_only E \<longleftrightarrow>
     (\<forall>r e q. coordination_sql q \<longrightarrow>
        x_rc (snd (e_exec E r e q)) = SQLITE_OK \<or> lock_conflict q (x_rc (snd (e_exec E r e q)))) \<and>
     (\<forall>r e q. starts_with ''SELECT'' q \<longrightarrow>
        no_log (snd (snd (e_query_int E r e q))) \<and> no_log (snd (snd (e_query_task E r e q))))"

text \<open>Together: the table is left by everything but the update.\<close>

definition counters_left :: "'e engine \<Rightarrow> ('e \<Rightarrow> nat \<times> nat) \<Rightarrow> bool" where
  "counters_left E cnt \<longleftrightarrow>
     (\<forall>r e ne nt. x_rc (snd (e_exec E r e (flush_sql ne nt))) = SQLITE_OK \<longrightarrow>
        cnt (fst (e_exec E r e (flush_sql ne nt))) = (fst (cnt e) + ne, snd (cnt e) + nt))
     \<and> (\<forall>r e q. coordination_sql q \<longrightarrow> cnt (fst (e_exec E r e q)) = cnt e)
     \<and> (\<forall>r e q. starts_with ''SELECT'' q \<longrightarrow>
          cnt (fst (e_query_int E r e q)) = cnt e \<and> cnt (fst (e_query_task E r e q)) = cnt e)
     \<and> (\<forall>n e. cnt (e_sleep E n e) = cnt e)"

lemma counters_left: "counter_table E cnt \<Longrightarrow> fails_for_locks_only E \<Longrightarrow> counters_left E cnt"
  unfolding counter_table_def fails_for_locks_only_def counters_left_def by metis

lemma counters_leftD:
  assumes "counters_left E cnt"
  shows "e_exec E r e (flush_sql ne nt) = (e', x) \<Longrightarrow> x_rc x = SQLITE_OK \<Longrightarrow> cnt e' = (fst (cnt e) + ne, snd (cnt e) + nt)"
    and "coordination_sql q \<Longrightarrow> e_exec E r e q = (e', x) \<Longrightarrow> cnt e' = cnt e"
    and "starts_with ''SELECT'' q \<Longrightarrow> e_query_int E r e q = (e', y) \<Longrightarrow> cnt e' = cnt e"
    and "starts_with ''SELECT'' q \<Longrightarrow> e_query_task E r e q = (e', z) \<Longrightarrow> cnt e' = cnt e"
    and "cnt (e_sleep E n e) = cnt e"
  using assms unfolding counters_left_def by (metis fst_conv snd_conv)+

text \<open>Added to the table or still local, less the errors written; the tests likewise.\<close>

definition booked :: "('e \<Rightarrow> nat \<times> nat) \<Rightarrow> 'e mpt \<Rightarrow> int \<times> nat" where
  "booked cnt s = (int (fst (cnt (eng s))) + int (n_error s) - int (errs s), snd (cnt (eng s)) + n_test s)"

lemma booked_message [simp]:
  "booked cnt (error_message m s) = booked cnt s" "booked cnt (log_message m s) = booked cnt s"
  "booked cnt (s\<lparr>i_timeout := n\<rparr>) = booked cnt s"
  by (simp_all add: booked_def errs_def error_message_def log_message_def)

lemma booked_on_event [simp]: "booked cnt (on_event ev s) = booked cnt s"
  by (cases ev) (simp_all add: sql_error_cb_def)

lemma booked_on_events [simp]: "booked cnt (on_events evs s) = booked cnt s"
  unfolding on_events_def by (induction evs arbitrary: s) simp_all

lemma booked_eng: "cnt e = cnt (eng s) \<Longrightarrow> booked cnt (s\<lparr>eng := e\<rparr>) = booked cnt s"
  by (simp add: booked_def errs_def)

lemma booked_sleep [simp]: "counters_left E cnt \<Longrightarrow> booked cnt (sqlite_sleep E n s) = booked cnt s"
  by (simp add: sqlite_sleep_def booked_eng counters_leftD(5))

section \<open>The statements hold no NUL\<close>

lemma dec_no_NUL [simp]: "NUL \<notin> set (dec_str n)"
  by (rule dec_str_no) (simp add: is_digit_def ord_def)

lemma int_no_NUL [simp]: "NUL \<notin> set (int_str n)"
  by (simp add: int_str_def)

lemma flush_no_NUL: "NUL \<notin> set (flush_sql ne nt)"
  by (simp add: flush_sql_def)

lemma coordination_no_NUL: "coordination_sql q \<Longrightarrow> NUL \<notin> set q"
  by (auto simp: coordination_sql_def start_task_sql_def)

lemma strip_no_NUL: "NUL \<notin> set q \<Longrightarrow> strip_trailing_nul q = q"
proof -
  assume "NUL \<notin> set q"
  then have "dropWhile (\<lambda>c. c = NUL) (rev q) = rev q" by (cases "rev q") (auto simp: dropWhile_eq_self_iff)
  then show ?thesis by (simp add: strip_trailing_nul_def)
qed

lemma exec_raw_no_NUL:
  "NUL \<notin> set q \<Longrightarrow> exec_raw E q s =
     (let (e, x) = e_exec E (retry s) (eng s) q
      in (on_events (x_events x) (s\<lparr>eng := e\<rparr>), x_rc x, x_cells x, x_err x))"
  by (simp add: exec_raw_def strip_no_NUL)

section \<open>Every step keeps the books\<close>

lemma booked_coordination:
  assumes "counters_left E cnt" "coordination_sql q"
  shows "exec_raw E q s = (s', x) \<Longrightarrow> booked cnt s' = booked cnt s"
  using counters_leftD(2)[OF assms]
  by (auto simp: exec_raw_no_NUL[OF coordination_no_NUL[OF assms(2)]] booked_eng split: prod.splits)

lemma booked_try_sql:
  assumes "counters_left E cnt" "coordination_sql q" "try_sql E q s = (s', rc)"
  shows "booked cnt s' = booked cnt s"
  using assms(3) booked_coordination[OF assms(1,2)] by (auto simp: try_sql_def split: prod.splits)

lemma booked_run_sql:
  assumes "counters_left E cnt" "coordination_sql q" "run_sql E q s = Ok s'"
  shows "booked cnt s' = booked cnt s"
  using assms(3) booked_coordination[OF assms(1,2)]
  by (auto simp: run_sql_def fatal_error_def Let_def split: prod.splits if_splits)

lemma booked_flush:
  assumes "counters_left E cnt" "flush_counters E s = Ok s'"
  shows "booked cnt s' = booked cnt s"
proof (cases "n_error s \<noteq> 0 \<or> n_test s \<noteq> 0")
  case True
  let ?q = "flush_sql (n_error s) (n_test s)" and ?t = "s\<lparr>n_error := 0, n_test := 0\<rparr>"
  obtain e x where x: "e_exec E (retry ?t) (eng s) ?q = (e, x)" by fastforce
  have run: "run_sql E ?q ?t = Ok s'" using assms(2) True by (simp add: flush_counters_def Let_def)
  then have ok: "x_rc x = SQLITE_OK" and s': "s' = on_events (x_events x) (?t\<lparr>eng := e\<rparr>)"
    using x by (simp_all add: run_sql_def fatal_error_def Let_def exec_raw_no_NUL[OF flush_no_NUL] split: if_splits)
  show ?thesis using counters_leftD(1)[OF assms(1) x ok] unfolding s' booked_on_events
    by (simp add: booked_def errs_def)
next
  case False
  with assms(2) show ?thesis by (auto simp: flush_counters_def Let_def booked_def errs_def)
qed

definition claim_books :: "('e \<Rightarrow> nat \<times> nat) \<Rightarrow> 'e mpt \<Rightarrow> 'e claim \<Rightarrow> bool" where
  "claim_books cnt s c \<longleftrightarrow>
     (case c of ClaimTask script i name s' \<Rightarrow> booked cnt s' = booked cnt s
      | ClaimDone s' \<Rightarrow> booked cnt s' = booked cnt s | _ \<Rightarrow> True)"

definition round_books :: "('e \<Rightarrow> nat \<times> nat) \<Rightarrow> 'e mpt \<Rightarrow> 'e claim + 'e mpt \<Rightarrow> bool" where
  "round_books cnt s r \<longleftrightarrow> (case r of Inl c \<Rightarrow> claim_books cnt s c | Inr s' \<Rightarrow> booked cnt s' = booked cnt s)"

lemma claim_books_simps [simp]:
  "claim_books cnt s (ClaimTask a b c t) \<longleftrightarrow> booked cnt t = booked cnt s"
  "claim_books cnt s (ClaimDone t) \<longleftrightarrow> booked cnt t = booked cnt s"
  "claim_books cnt s (ClaimExit n t)" "claim_books cnt s ClaimPanicked"
  "round_books cnt s (Inl x) = claim_books cnt s x" "round_books cnt s (Inr t) \<longleftrightarrow> booked cnt t = booked cnt s"
  by (simp_all add: claim_books_def round_books_def)

lemma claim_run_books:
  assumes "\<And>t. r = Ok t \<Longrightarrow> round_books cnt s (f t)"
  shows "round_books cnt s (claim_run r f)"
  using assms by (cases r) (simp_all add: claim_run_def)

lemma coordination_intros [simp]:
  "coordination_sql ''BEGIN IMMEDIATE''" "coordination_sql ''COMMIT''" "coordination_sql ''COMMIT TRANSACTION;''"
  "coordination_sql (''DELETE FROM client WHERE id='' @ int_str c)" "coordination_sql (start_task_sql t)"
  unfolding coordination_sql_def by blast+

lemma claim_round_books:
  assumes law: "counters_left E cnt"
  shows "round_books cnt s (claim_round E ic t s)"
  unfolding claim_round_def
proof (rule claim_run_books)
  fix s1 assume f: "flush_counters E s = Ok s1"
  note b1 = booked_flush[OF law f]
  define q1 where "q1 = ''SELECT 1 FROM client WHERE id='' @ int_str ic @ '' AND wantHalt''"
  define q2 where "q2 = ''SELECT script, id, name FROM task WHERE client='' @ int_str ic
      @ '' AND starttime IS NULL ORDER BY id LIMIT 1''"
  have sel: "starts_with ''SELECT'' q1" "starts_with ''SELECT'' q2"
    by (simp_all add: q1_def q2_def starts_with_iff)
  obtain e1 h ev1 where e1: "e_query_int E (retry s1) (eng s1) q1 = (e1, h, ev1)" by (rule prod_cases3)
  define s2 where "s2 = on_events ev1 (s1\<lparr>eng := e1\<rparr>)"
  have b2: "booked cnt s2 = booked cnt s"
    using counters_leftD(3)[OF law sel(1) e1] b1 by (simp add: s2_def booked_eng)
  obtain e2 task ev2 where e2: "e_query_task E (retry s2) (eng s2) q2 = (e2, task, ev2)" by (rule prod_cases3)
  define s3 where "s3 = on_events ev2 (s2\<lparr>eng := e2\<rparr>)"
  have b3: "booked cnt s3 = booked cnt s"
    using counters_leftD(4)[OF law sel(2) e2] b2 by (simp add: s3_def booked_eng)
  have commit: "booked cnt v = booked cnt u" if "run_sql E ''COMMIT TRANSACTION;'' (u\<lparr>i_timeout := n\<rparr>) = Ok v" for u v n
    using booked_run_sql[OF law _ that] by simp
  define qd where "qd = ''DELETE FROM client WHERE id='' @ int_str ic"
  have del: "coordination_sql qd" unfolding qd_def by (rule coordination_intros)
  have halt: "round_books cnt s (claim_run (run_sql E qd s2) (\<lambda>s.
      claim_run (run_sql E ''COMMIT TRANSACTION;'' (s\<lparr>i_timeout := DEFAULT_TIMEOUT\<rparr>)) (\<lambda>s. Inl (ClaimDone s))))"
    using b2 by (intro claim_run_books) (simp add: commit booked_run_sql[OF law del])
  have task: "round_books cnt s (claim_run (run_sql E (start_task_sql id1) s3) (\<lambda>s.
      claim_run (run_sql E ''COMMIT TRANSACTION;'' (s\<lparr>i_timeout := DEFAULT_TIMEOUT\<rparr>)) (\<lambda>s.
      Inl (ClaimTask script id1 name s))))" for id1 script name
    using b3 by (intro claim_run_books) (simp add: commit booked_run_sql[OF law coordination_intros(5)])
  have give_up: "round_books cnt s (claim_run r (\<lambda>s. Inl (ClaimExit 1 s)))" for r
    by (rule claim_run_books) simp
  show "round_books cnt s (claim_poll E ic t s1)"
    unfolding claim_poll_def q1_def[symmetric] q2_def[symmetric] qd_def[symmetric] e1 Let_def prod.case s2_def[symmetric] e2 s3_def[symmetric]
    using halt task give_up b3 by (cases h; cases task) auto
qed

lemma commit_loop_books:
  assumes "commit_loop E t s = Some y" "counters_left E cnt"
  shows "booked cnt (fst y) = booked cnt s"
proof -
  have "counters_left E cnt \<longrightarrow> booked cnt (fst y) = booked cnt s"
  proof (rule commit_loop.raw_induct[OF _ assms(1)], intro impI)
    fix f E t s y
    assume IH: "\<And>E t s y. f E t s = Some y \<Longrightarrow> counters_left E cnt \<longrightarrow> booked cnt (fst y) = booked cnt s"
      and body: "(case try_sql E ''COMMIT'' s of (s, rc) \<Rightarrow>
          if rc = SQLITE_BUSY then f E (t + 10) (sqlite_sleep E 10 s) else Some (s, t)) = Some y"
      and law: "counters_left E cnt"
    obtain u rc where u: "try_sql E ''COMMIT'' s = (u, rc)" by fastforce
    have b: "booked cnt u = booked cnt s" using booked_try_sql[OF law _ u] by simp
    show "booked cnt (fst y) = booked cnt s"
    proof (cases "rc = SQLITE_BUSY")
      case True
      then have "f E (t + 10) (sqlite_sleep E 10 u) = Some y" using body u by simp
      from IH[OF this] law b show ?thesis by simp
    next
      case False
      with body u have "y = (u, t)" by simp
      with b show ?thesis by simp
    qed
  qed
  with assms(2) show ?thesis by simp
qed

lemma start_loop_books:
  assumes "start_loop E ic t s = Some c" "counters_left E cnt"
  shows "claim_books cnt s c"
proof -
  have "counters_left E cnt \<longrightarrow> claim_books cnt s c"
  proof (rule start_loop.raw_induct[OF _ assms(1)], intro impI)
    fix f E ic t s c
    assume IH: "\<And>E ic t s c. f E ic t s = Some c \<Longrightarrow> counters_left E cnt \<longrightarrow> claim_books cnt s c"
      and body: "(case try_sql E ''BEGIN IMMEDIATE'' s of (s, rc) \<Rightarrow>
          if rc = SQLITE_BUSY then f E ic (t + 10) (sqlite_sleep E 10 s)
          else if rc \<noteq> SQLITE_OK then
            (case fatal_error E True (''in startScript: '' @ e_errmsg E (eng s)) s of
               Ok s \<Rightarrow> Some ClaimPanicked | Exited c s \<Rightarrow> Some (ClaimExit c s) | Panicked \<Rightarrow> Some ClaimPanicked)
          else
            (case claim_round E ic t s of
               Inl c \<Rightarrow> Some c
             | Inr s \<Rightarrow> commit_loop E t s \<bind> (\<lambda>(s, t). f E ic (t + 100) (sqlite_sleep E 100 s)))) = Some c"
      and law: "counters_left E cnt"
    obtain u rc where u: "try_sql E ''BEGIN IMMEDIATE'' s = (u, rc)" by fastforce
    have b: "booked cnt u = booked cnt s" using booked_try_sql[OF law _ u] by simp
    note rb = claim_round_books[OF law, of u ic t]
    have moved: "claim_books cnt v c = claim_books cnt s c" if "booked cnt v = booked cnt s" for v
      using that by (simp add: claim_books_def split: claim.split)
    consider "rc = SQLITE_BUSY" | "rc \<noteq> SQLITE_BUSY" "rc \<noteq> SQLITE_OK" | "rc = SQLITE_OK" "rc \<noteq> SQLITE_BUSY" by auto
    then show "claim_books cnt s c"
    proof cases
      case 1
      then have "f E ic (t + 10) (sqlite_sleep E 10 u) = Some c" using body u by simp
      from IH[OF this] law b moved[of "sqlite_sleep E 10 u"] show ?thesis by simp
    next
      case 2
      then show ?thesis using body u by (auto simp: fatal_error_def Let_def)
    next
      case 3
      show ?thesis
      proof (cases "claim_round E ic t u")
        case (Inl x)
        with 3 body u have "x = c" by simp
        with Inl rb b moved[of u] show ?thesis by simp
      next
        case (Inr v)
        then obtain w t' where w: "commit_loop E t v = Some (w, t')"
          and f: "f E ic (t' + 100) (sqlite_sleep E 100 w) = Some c"
          using 3 body u by (auto simp: bind_eq_Some_conv)
        have "booked cnt w = booked cnt s" using commit_loop_books[OF w law] rb Inr b by simp
        with IH[OF f] law moved[of "sqlite_sleep E 100 w"] show ?thesis by simp
      qed
    qed
  qed
  with assms(2) show ?thesis by simp
qed

end
