(* ===== verification/Mptest_Glob.thy ===== *)
theory Mptest_Glob
  imports Mptest_Text
begin

text \<open>
  The glob matcher of mptest against a declarative matcher: where they agree, and the bracket behind a
  star, where they do not.
\<close>

section \<open>The reference matcher\<close>

function gmatch :: "string \<Rightarrow> string \<Rightarrow> bool" where
  "gmatch [] z = (z = [])"
| "gmatch (c # g) z =
     (if c = CHR ''*'' then list_ex (\<lambda>i. gmatch g (drop i z)) [0..<Suc (length z)]
      else if c = CHR ''?'' then z \<noteq> [] \<and> gmatch g (tl z)
      else if c = CHR ''['' then
        (case z of
           [] \<Rightarrow> False
         | ch # z1 \<Rightarrow> (case glob_class g ch of None \<Rightarrow> False | Some g2 \<Rightarrow> gmatch g2 z1))
      else if c = CHR ''#'' then
        (case glob_number z of None \<Rightarrow> False | Some z1 \<Rightarrow> gmatch g z1)
      else z \<noteq> [] \<and> hd z = c \<and> gmatch g (tl z))"
  by pat_completeness auto
termination
  by (relation "measure (\<lambda>(g, z). length g)") (auto dest!: glob_class_length)

declare gmatch.simps [simp del]

text \<open>The byte behind the stars and question marks that follow a star is no bracket and no number sign,
  and the pattern holds no zero byte.\<close>

fun plain_stars :: "string \<Rightarrow> bool" where
  "plain_stars [] = True"
| "plain_stars (c # g) \<longleftrightarrow> c \<noteq> NUL \<and> plain_stars g \<and>
     (c = CHR ''*'' \<longrightarrow>
       (let r = dropWhile (\<lambda>x. x = CHR ''*'' \<or> x = CHR ''?'') g in r = [] \<or> hd r \<noteq> CHR ''['' \<and> hd r \<noteq> CHR ''#''))"

lemma plain_stars_drop: "plain_stars g \<Longrightarrow> plain_stars (drop n g)"
proof (induction g arbitrary: n)
  case (Cons c g)
  then show ?case by (cases n) auto
qed simp

text \<open>What a bracket leaves is a suffix.\<close>

lemma nxt_suffix: "nxt g = (c, g1) \<Longrightarrow> \<exists>n. g1 = drop n g"
  by (cases g) (auto simp: nxt_def intro: exI[of _ 0] exI[of _ "Suc 0"])

lemma class_loop_suffix: "class_loop c2 g ch prior seen = (c, s, g1) \<Longrightarrow> \<exists>n. g1 = drop n g"
proof (induction "length g + (if c2 = NUL then 0 else 1)" arbitrary: c2 g prior seen rule: less_induct)
  case less
  have IH: "class_loop c4 g2 ch pr sn = (c, s, g1) \<Longrightarrow> nxt g' = (c4, g2) \<Longrightarrow> length g' \<le> length g \<Longrightarrow> c2 \<noteq> NUL \<Longrightarrow>
      \<exists>n. g1 = drop n g2" for c4 g2 pr sn g'
    using less.hyps[of g2 c4 pr sn] by (auto simp: nxt_def split: list.splits)
  show ?case
  proof (cases "c2 = NUL \<or> c2 = CHR '']''")
    case True
    with less.prems show ?thesis by (auto simp: class_loop.simps[of c2] intro: exI[of _ 0])
  next
    case False
    obtain c3 g2 where n3: "nxt g = (c3, g2)" by fastforce
    obtain c4 g3 where n4: "nxt g2 = (c4, g3)" by fastforce
    from less.prems False n3 n4 obtain pr sn where
      "class_loop c4 g3 ch pr sn = (c, s, g1) \<or> class_loop c3 g2 ch pr sn = (c, s, g1)"
      by (subst (asm) class_loop.simps) (auto simp: Let_def split: if_splits)
    then have "(\<exists>n. g1 = drop n g3) \<or> (\<exists>n. g1 = drop n g2)"
      using IH[OF _ n4 nxt_length[OF n3]] IH[OF _ n3] False by blast
    moreover obtain a b where "g2 = drop a g" "g3 = drop b g2" using nxt_suffix[OF n3] nxt_suffix[OF n4] by blast
    ultimately show ?thesis by (metis drop_drop)
  qed
qed

lemma glob_class_suffix:
  assumes "glob_class g ch = Some g1"
  shows "\<exists>n. g1 = drop n g"
proof -
  obtain c2 g2 where a: "nxt g = (c2, g2)" by fastforce
  obtain c3 g3 where b: "(if c2 = CHR ''^'' then nxt g2 else (c2, g2)) = (c3, g3)" by fastforce
  obtain c4 g4 where c: "(if c3 = CHR '']'' then nxt g3 else (c3, g3)) = (c4, g4)" by fastforce
  obtain e s where d: "class_loop c4 g4 ch 0 (c3 = CHR '']'' \<and> ch = CHR '']'') = (e, s, g1)"
    using assms a b c by (auto simp: glob_class_def Let_def split: prod.splits if_splits)
  have "\<exists>n. g3 = drop n g2" using b nxt_suffix by (auto split: if_splits intro: exI[of _ 0])
  moreover have "\<exists>n. g4 = drop n g3" using c nxt_suffix by (auto split: if_splits intro: exI[of _ 0])
  ultimately show ?thesis using nxt_suffix[OF a] class_loop_suffix[OF d] by (metis drop_drop)
qed

section \<open>Runs of stars\<close>

lemma gmatch_star: "gmatch (CHR ''*'' # g) z \<longleftrightarrow> (\<exists>i \<le> length z. gmatch g (drop i z))"
  by (auto simp: gmatch.simps list_ex_iff less_Suc_eq_le simp del: upt_Suc)

lemma gmatch_quest: "gmatch (CHR ''?'' # g) z \<longleftrightarrow> z \<noteq> [] \<and> gmatch g (tl z)"
  by (simp add: gmatch.simps)

lemma gmatch_star_star: "gmatch (CHR ''*'' # CHR ''*'' # g) z = gmatch (CHR ''*'' # g) z"
proof
  assume "gmatch (CHR ''*'' # CHR ''*'' # g) z"
  then obtain i j where "i \<le> length z" "j \<le> length z - i" "gmatch g (drop (i + j) z)"
    by (auto simp: gmatch_star add.commute)
  then show "gmatch (CHR ''*'' # g) z" unfolding gmatch_star by (intro exI[of _ "i + j"]) simp
next
  assume "gmatch (CHR ''*'' # g) z"
  then show "gmatch (CHR ''*'' # CHR ''*'' # g) z" unfolding gmatch_star by (intro exI[of _ 0]) simp
qed

lemma gmatch_star_quest: "gmatch (CHR ''*'' # CHR ''?'' # g) z \<longleftrightarrow> z \<noteq> [] \<and> gmatch (CHR ''*'' # g) (tl z)"
proof
  assume "gmatch (CHR ''*'' # CHR ''?'' # g) z"
  then obtain i where "i < length z" "gmatch g (tl (drop i z))"
    by (auto simp: gmatch_star gmatch_quest not_le)
  then show "z \<noteq> [] \<and> gmatch (CHR ''*'' # g) (tl z)"
    unfolding gmatch_star by (auto simp: tl_drop intro!: exI[of _ i])
next
  assume a: "z \<noteq> [] \<and> gmatch (CHR ''*'' # g) (tl z)"
  then obtain i where "i \<le> length (tl z)" "gmatch g (drop i (tl z))" by (auto simp: gmatch_star)
  with a show "gmatch (CHR ''*'' # CHR ''?'' # g) z"
    unfolding gmatch_star by (auto simp: tl_drop gmatch_quest intro!: exI[of _ i]) (cases z; simp)
qed

lemma gmatch_star_skip:
  "gmatch (CHR ''*'' # g) z =
     (case star_skip g z of None \<Rightarrow> False | Some (g1, z1) \<Rightarrow> gmatch (CHR ''*'' # g1) z1)"
  by (induction g z rule: star_skip.induct) (auto simp: gmatch_star_star gmatch_star_quest)

lemma star_skip_rest: "star_skip g z = Some (g1, z1) \<Longrightarrow> g1 = dropWhile (\<lambda>x. x = CHR ''*'' \<or> x = CHR ''?'') g"
  by (induction g z rule: star_skip.induct) (auto split: if_splits)

lemma gmatch_star_lit:
  assumes "d \<notin> {CHR ''*'', CHR ''?'', CHR ''['', CHR ''#''}"
  shows "gmatch (CHR ''*'' # d # g) z \<longleftrightarrow> (\<exists>i < length z. z ! i = d \<and> gmatch g (drop (Suc i) z))"
proof -
  have "gmatch (d # g) (drop i z) \<longleftrightarrow> i < length z \<and> z ! i = d \<and> gmatch g (drop (Suc i) z)" for i
    using assms by (auto simp: gmatch.simps hd_drop_conv_nth tl_drop drop_Suc)
  then show ?thesis unfolding gmatch_star using less_imp_le by blast
qed

section \<open>Agreement\<close>

lemma strglob_gmatch: "plain_stars g \<Longrightarrow> strglob g z = gmatch g z"
proof (induction "length g" arbitrary: g z rule: less_induct)
  case less
  show ?case
  proof (cases g)
    case Nil
    then show ?thesis by (simp add: strglob.simps gmatch.simps)
  next
    case (Cons c g')
    have pl: "plain_stars g'" "c \<noteq> NUL" using less.prems Cons by auto
    have IH: "strglob (drop n g') y = gmatch (drop n g') y" for n y
      using less.hyps[of "drop n g'" y] plain_stars_drop[OF pl(1)] Cons by simp
    have IH0: "strglob g' y = gmatch g' y" for y using IH[of 0] by simp
    show ?thesis
    proof (cases "c = CHR ''*''")
      case False
      have cl: "glob_class g' ch = Some g2 \<Longrightarrow> strglob g2 y = gmatch g2 y" for ch g2 y
        using glob_class_suffix IH by blast
      show ?thesis unfolding Cons
        using False pl(2) by (subst strglob.simps, subst gmatch.simps) (auto simp: IH0 cl split: list.splits option.splits)
    next
      case True
      have skip: "gmatch g z = (case star_skip g' z of None \<Rightarrow> False | Some (g1, z1) \<Rightarrow> gmatch (CHR ''*'' # g1) z1)"
        unfolding \<open>g = c # g'\<close> True by (rule gmatch_star_skip)
      show ?thesis
      proof (cases "star_skip g' z")
        case None
        then show ?thesis unfolding skip by (simp add: Cons True strglob.simps)
      next
        case (Some gz)
        obtain g1 z1 where gz: "gz = (g1, z1)" by fastforce
        have r: "g1 = dropWhile (\<lambda>x. x = CHR ''*'' \<or> x = CHR ''?'') g'" using star_skip_rest Some gz by simp
        show ?thesis
        proof (cases g1)
          case Nil
          have "gmatch [CHR ''*''] z1" unfolding gmatch_star by (intro exI[of _ "length z1"]) (simp add: gmatch.simps)
          with Nil Some gz show ?thesis unfolding skip by (simp add: \<open>g = c # g'\<close> True strglob.simps)
        next
          case (Cons d g2)
          have ne: "dropWhile (\<lambda>x. x = CHR ''*'' \<or> x = CHR ''?'') g' \<noteq> []" unfolding r[symmetric] Cons by simp
          have "hd g1 \<noteq> CHR ''*'' \<and> hd g1 \<noteq> CHR ''?''"
            using hd_dropWhile[OF ne] unfolding r[symmetric] by simp
          moreover have "hd g1 \<noteq> CHR ''['' \<and> hd g1 \<noteq> CHR ''#''"
            using less.prems ne unfolding \<open>g = c # g'\<close> True plain_stars.simps Let_def r[symmetric] by simp
          ultimately have d: "d \<notin> {CHR ''*'', CHR ''?'', CHR ''['', CHR ''#''}" using Cons by auto
          obtain n where n: "g1 = drop n g'" using r by (metis dropWhile_eq_drop)
          have "plain_stars (d # g2)" using plain_stars_drop[OF pl(1), of n] unfolding n[symmetric] Cons .
          then have dn: "d \<noteq> NUL" by simp
          have "g2 = drop (Suc n) g'" using n Cons by (metis drop_Suc list.sel(3) tl_drop)
          then have g2: "strglob g2 y = gmatch g2 y" for y using IH[of "Suc n" y] by (simp only:)
          have "strglob g z = list_ex (\<lambda>i. z1 ! i = d \<and> strglob g2 (drop (Suc i) z1)) [0..<length z1]"
            unfolding \<open>g = c # g'\<close> True strglob.simps(2) using Some gz Cons d dn by simp
          then show ?thesis
            unfolding skip using Some gz Cons
            by (auto simp: gmatch_star_lit[OF d] g2 list_ex_iff)
        qed
      qed
    qed
  qed
qed

section \<open>Properties\<close>

text \<open>
  C10: The glob matcher of the test scripts is correct on plain patterns: with stars that match any
  bytes, question marks that match one, brackets, and number signs that match a signed run of digits,
  its loops decide exactly the declarative matching relation, for every subject, as long as no star
  (with the stars and question marks behind it) is followed by a bracket or a number sign.
\<close>

theorem glob_matches_reference:
  assumes "plain_stars g"
  shows "strglob g z = gmatch g z"
  using assms by (rule strglob_gmatch)

theorem glob_matches_reference_witness:
  "strglob ''[ab]*c#'' ''bxc12'' = gmatch ''[ab]*c#'' ''bxc12''"
  using glob_matches_reference[of "''[ab]*c#''" "''bxc12''"] by simp

text \<open>
  A bracket behind a star does not select: the pattern consisting of a star and a bracket with one ordinary
  byte matches every subject that is not empty, because the loop looks for a suffix that the rest
  of the pattern (without its opening bracket) does not match, where it should look for one that matches.
\<close>

theorem star_bracket_matches_everything:
  assumes "m \<notin> {NUL, CHR ''*'', CHR ''?'', CHR ''['', CHR ''#''}" "z \<noteq> []"
  shows "strglob [CHR ''*'', CHR ''['', m, CHR '']''] z"
proof -
  have "\<not> strglob [m, CHR '']''] (drop (length z - 1) z)"
  proof -
    obtain y x where z: "z = y @ [x]" using assms(2) by (cases z rule: rev_cases) auto
    show ?thesis using assms(1) by (simp add: z strglob.simps)
  qed
  moreover have "length z - 1 < length z" using assms(2) by simp
  ultimately have "list_ex (\<lambda>i. \<not> strglob [m, CHR '']''] (drop i z)) [0..<length z]"
    unfolding list_ex_iff by (intro bexI[of _ "length z - 1"]) auto
  then show ?thesis by (simp add: strglob.simps(2)[of "CHR ''*''"])
qed

theorem star_bracket_matches_everything_witness:
  "strglob ''*[a]'' ''xyz'' \<and> \<not> gmatch ''*[a]'' ''z''"
proof -
  have "\<not> gmatch ''*[a]'' ''z''" by code_simp
  with star_bracket_matches_everything[of "CHR ''a''" "''xyz''"] show ?thesis by simp
qed

end
