(* ===== verification/Mptest_Properties.thy ===== *)
theory Mptest_Properties
  imports Mptest_Claims Mptest_Glob
begin

text \<open>
  The properties of the mptest runner: scripts do not panic, errors and tests are counted once, and a
  script that is skipped by a false condition is run all the same.
\<close>

section \<open>A concrete engine\<close>

text \<open>An engine that records the statements, answers every query with 0 and counts what is flushed.\<close>

record recorder =
  rec_sql :: "string list"
  rec_counts :: "nat \<times> nat"

definition recording :: "(string \<Rightarrow> nat \<times> nat) \<Rightarrow> (string \<times> int \<times> string) option \<Rightarrow> recorder engine" where
  "recording amount task =
     \<lparr>e_exec = \<lambda>r e q. (e\<lparr>rec_sql := rec_sql e @ [q],
           rec_counts := (fst (rec_counts e) + fst (amount q), snd (rec_counts e) + snd (amount q))\<rparr>,
         \<lparr>x_rc = SQLITE_OK, x_cells = [], x_err = None, x_events = []\<rparr>),
      e_query_int = \<lambda>r e q. (e, if starts_with ''SELECT 1 FROM client'' q then None else Some 0, []),
      e_query_task = \<lambda>r e q. (e, task, []),
      e_prepare = \<lambda>e q. True, e_step = \<lambda>r e q. (e, SQLITE_DONE, []), e_changes = \<lambda>e. 0,
      e_errmsg = \<lambda>e. [], e_sleep = \<lambda>n e. e, e_spawn = \<lambda>e a. (e, None), e_script = \<lambda>f. None,
      e_is_file = \<lambda>f. False, e_read = \<lambda>f. None\<rparr>"

definition new_process :: "recorder mpt" where
  "new_process = \<lparr>eng = \<lparr>rec_sql = [], rec_counts = (0, 0)\<rparr>, n_error = 0, n_test = 0, i_trace = 0,
     i_timeout = 10000, ignore_sql_errors = False, sql_trace = False, b_sync = False, vfs = None,
     db_file = ''db'', msgs = []\<rparr>"

section \<open>Scripts\<close>

text \<open>
  C11: A script that does not source another one never makes the interpreter slice or index out of range: neither
  where it takes the pending SQL, a command with its arguments and expected text, the body of a task and what is behind
  it, nor where it searches for the end of a task or a conditional. For every engine, every byte sequence and every
  state, the run ends normally or exits, and does not panic.
\<close>

theorem script_never_panics:
  assumes "\<not> contains z ''--source''"
  shows "run_script E depth i_client task_id z fname s \<noteq> Panicked"
  unfolding run_script_def by (rule run_loop_no_panic[OF assms]) (simp add: pos_ok_def start_pos_def)

theorem script_never_panics_witness:
  "run_script (recording (\<lambda>q. (0, 0)) None) 0 0 0 ''--task 1'' ''f'' new_process \<noteq> Panicked"
  by (rule script_never_panics) code_simp

text \<open>
  C12: In a script, whatever it contains and whatever it sources, every error that the process counts is an
  error message that it wrote and every error message is counted, tests are never taken back, the
  options that clients inherit stay and the log only grows; also when the script exits.
\<close>

theorem script_accounts_errors:
  "case run_script E depth i_client task_id z fname s of
     Ok s' \<Rightarrow> accounted s s' \<and> same_settings s s' | Exited c s' \<Rightarrow> accounted s s' \<and> same_settings s s'
   | Panicked \<Rightarrow> contains z ''--source''"
  using accounting.keeps_run_script[of s E depth i_client task_id z fname]
    settings.keeps_run_script[of s E depth i_client task_id z fname]
    run_loop_no_panic[of z start_pos E depth i_client task_id fname s]
  by (cases "run_script E depth i_client task_id z fname s")
    (auto simp: accounting.keeps_res_def settings.keeps_res_def run_script_def pos_ok_def start_pos_def)

definition skipped_script :: string where
  "skipped_script = ''--if 0'' @ [LF] @ ''DROP TABLE t;'' @ [LF] @ ''--endif'' @ [LF]"

lemma skipped_script_tokens:
  "token_length skipped_script 1 = (7, 2)" "find_endif (drop 7 skipped_script) True 2 = Some (22, 4)"
  "extract_token (span skipped_script 2 5) (length (span skipped_script 2 5)) 29 = ''if''"
  "argument skipped_script 0 7 4 = Some (''0'' @ [LF])" "trim_end (''0'' @ [LF]) = ''0''"
  "length skipped_script = 29" "\<not> (is_blank skipped_script 0 \<or> \<not> starts_command skipped_script 0)"
  by code_simp+

text \<open>
  A false condition does not skip its SQL: when the script begins with a false \<open>--if\<close>, the statement up to
  \<open>--endif\<close> is run at the end of the script, because the begin of the pending SQL is not moved.
\<close>

theorem false_if_runs_skipped_sql:
  assumes "e_query_int E (retry s) (eng s) ''SELECT 0'' = (e, Some 0, [])" "i_trace s < 2"
  shows "run_script E depth i_client task_id skipped_script fname s = run_sql E skipped_script (s\<lparr>eng := e\<rparr>)"
proof -
  let ?z = skipped_script and ?p = "start_pos\<lparr>p_line := 2\<rparr>" and ?s = "s\<lparr>eng := e\<rparr>"
  note tok = skipped_script_tokens
  have tk: "token_length (drop (p_ii start_pos) ?z) (p_line start_pos) = (7, 2)"
    using tok(1) by (simp add: start_pos_def)
  have lt: "p_ii start_pos < length ?z" using tok(6) by (simp add: start_pos_def)
  have cmd: "\<not> (is_blank ?z (p_ii start_pos) \<or> \<not> starts_command ?z (p_ii start_pos))"
    using tok(7) by (simp add: start_pos_def)
  obtain s1 p1 sp c args s2 s3 sk3 ln3 sk4 ln4 r5 p5 r6 b6 where h:
    "prior_sql E ?z 7 ?p s = Some (s1, p1)"
    "sp = span ?z (p_ii start_pos + 2) (7 - 2)" "c = extract_token sp (length sp) 29"
    "parse_args 2 sp (length c) = Some args"
    "s2 = (if 2 \<le> i_trace s1 then log_message (span ?z (p_ii start_pos) 7) s1 else s1)"
    "c = ''if'' \<longrightarrow> if_command E ?z (p_ii start_pos) 7 2 s2 = Some (s3, sk3, ln3)"
    "find_endif (drop (p_ii start_pos + 7) ?z) False 2 = Some (sk4, ln4)"
    "task_command E ?z fname args (p_ii start_pos) 7 (p_line start_pos) p1 s2 = Some (r5, p5)"
    "simple_command E i_client task_id ?z fname c args (p_ii start_pos) 7 (p_line start_pos) (p_buf p1) s2 = (r6, b6)"
    by (rule run_loop_command_within[OF lt tk cmd, of E s fname i_client task_id])
  have ps: "s1 = s" "p1 = ?p" using h(1) by (simp_all add: prior_sql_def start_pos_def)
  then have s2: "s2 = s" using h(5) assms(2) by simp
  have c: "c = ''if''" using tok(3) by (simp add: h(2,3) start_pos_def numeral_2_eq_2)
  have "if_command E ?z (p_ii start_pos) 7 2 s2 = Some (?s, 22, 4)"
    using tok(2,4,5,6) assms(1) s2 by (simp add: if_command_def start_pos_def on_events_def)
  then have i3: "s3 = ?s" "sk3 = 22" "ln3 = 4" using h(6) c by simp_all
  have "run_script E depth i_client task_id ?z fname s =
      run_loop E depth i_client task_id ?z fname (?p\<lparr>p_ii := p_ii start_pos + 22 + 7, p_line := 4\<rparr>) ?s"
    unfolding run_script_def run_loop_command[OF lt tk cmd h] by (simp add: c i3 ps)
  also have "\<dots> = run_sql E ?z ?s"
    using tok(6) by (subst run_loop.simps) (simp add: start_pos_def Let_def rslice_def)
  finally show ?thesis .
qed

theorem false_if_runs_skipped_sql_witness:
  "rec_sql (case run_script (recording (\<lambda>q. (0, 0)) None) 0 0 0 skipped_script ''f'' new_process of
     Ok s \<Rightarrow> eng s | Exited c s \<Rightarrow> eng s) = [skipped_script]"
proof -
  let ?E = "recording (\<lambda>q. (0, 0)) None"
  have "run_script ?E 0 0 0 skipped_script ''f'' new_process = run_sql ?E skipped_script (new_process\<lparr>eng := eng new_process\<rparr>)"
    by (rule false_if_runs_skipped_sql) (simp_all add: recording_def new_process_def starts_with_def)
  moreover have "strip_trailing_nul skipped_script = skipped_script" "NUL \<notin> set skipped_script" by code_simp+
  ultimately show ?thesis
    by (simp add: run_sql_def exec_raw_def recording_def new_process_def on_events_def Let_def)
qed

section \<open>Claiming tasks\<close>

text \<open>
  C13: When a client has claimed its next task or is done, what it has added to the shared table of counters
  together with its local counters is what it was before, plus the errors that it has written since, on an
  engine whose successful updates add to the table and whose statements fail at most because the database is
  locked, for any lock conflicts and waiting on the way.
\<close>

theorem claim_keeps_books:
  assumes "counter_table E cnt" "fails_for_locks_only E" "start_script E i_client s = Some c"
    "c = ClaimTask script task_id name s' \<or> c = ClaimDone s'"
  shows "int (fst (cnt (eng s'))) + int (n_error s') - int (errs s') =
      int (fst (cnt (eng s))) + int (n_error s) - int (errs s)
    \<and> snd (cnt (eng s')) + n_test s' = snd (cnt (eng s)) + n_test s"
proof -
  have "claim_books cnt (s\<lparr>i_timeout := 0\<rparr>) c"
    using start_loop_books[OF assms(3)[unfolded start_script_def] counters_left[OF assms(1,2)]] .
  then have "booked cnt s' = booked cnt s" using assms(4) by auto
  then show ?thesis by (simp add: booked_def)
qed

text \<open>The amounts that an update of the counters names, read back from its text.\<close>

definition flushed :: "string \<Rightarrow> nat \<times> nat" where
  "flushed q =
     (case strip_prefix ''UPDATE counters SET nError=nError+'' q of
        None \<Rightarrow> (0, 0)
      | Some r \<Rightarrow>
          (let a = takeWhile (\<lambda>c. c \<noteq> CHR '','') r; b = drop (length a + 14) r
           in (case parse_digits 10 0 a of None \<Rightarrow> 0 | Some n \<Rightarrow> n, case parse_digits 10 0 b of None \<Rightarrow> 0 | Some n \<Rightarrow> n)))"

lemma digits_no_comma: "CHR '','' \<notin> set (dec_str n)"
  by (rule dec_str_no) (simp add: is_digit_def ord_def)

lemma flushed_flush_sql: "flushed (flush_sql ne nt) = (ne, nt)"
proof -
  have tw: "takeWhile (\<lambda>c. c \<noteq> CHR '','') (dec_str ne @ CHR '','' # r) = dec_str ne" for r
    using digits_no_comma[of ne] by (subst takeWhile_append2) auto
  have p: "parse_digits 10 0 (dec_str n) = Some n" for n
    unfolding dec_str_def by (rule parse_digits_of) simp_all
  have "strip_prefix ''UPDATE counters SET nError=nError+'' (flush_sql ne nt) =
      Some (dec_str ne @ CHR '','' # '' nTest=nTest+'' @ dec_str nt)"
    by (simp add: strip_prefix_Some_iff flush_sql_def)
  then show ?thesis unfolding flushed_def Let_def by (simp add: tw p)
qed

lemma flushed_coordination: "coordination_sql q \<Longrightarrow> flushed q = (0, 0)"
proof -
  assume "coordination_sql q"
  then have "strip_prefix ''UPDATE counters SET nError=nError+'' q = None"
    by (auto simp: coordination_sql_def start_task_sql_def strip_prefix_def starts_with_def)
  then show ?thesis by (simp add: flushed_def)
qed

lemma recording_counter_table: "counter_table (recording flushed task) rec_counts"
  by (simp add: counter_table_def recording_def flushed_flush_sql flushed_coordination)

lemma recording_succeeds: "fails_for_locks_only (recording flushed task)"
  by (simp add: fails_for_locks_only_def recording_def no_log_def)

definition recorded :: "(string \<Rightarrow> nat \<times> nat) \<Rightarrow> string \<Rightarrow> recorder mpt \<Rightarrow> recorder mpt" where
  "recorded amount q s = s\<lparr>eng := (eng s)\<lparr>rec_sql := rec_sql (eng s) @ [q],
     rec_counts := (fst (rec_counts (eng s)) + fst (amount q), snd (rec_counts (eng s)) + snd (amount q))\<rparr>\<rparr>"

lemma recording_exec:
  "NUL \<notin> set q \<Longrightarrow> exec_raw (recording amount task) q s = (recorded amount q s, SQLITE_OK, [], None)"
  by (simp add: exec_raw_no_NUL recorded_def recording_def on_events_def)

definition counted_process :: "recorder mpt" where
  "counted_process = new_process\<lparr>n_error := 2, n_test := 3\<rparr>"

theorem claim_keeps_books_witness:
  "\<exists>s'. start_script (recording flushed (Some (''x'', 7, ''n''))) 1 counted_process = Some (ClaimTask ''x'' 7 ''n'' s')
     \<and> int (fst (rec_counts (eng s'))) + int (n_error s') - int (errs s') = 2 \<and> snd (rec_counts (eng s')) + n_test s' = 3"
proof -
  let ?E = "recording flushed (Some (''x'', 7, ''n''))"
  have run: "run_sql ?E q s = Ok (recorded flushed q s)" if "NUL \<notin> set q" for q s
    using that by (simp add: run_sql_def recording_exec)
  have qi: "e_query_int ?E r e (''SELECT 1 FROM client WHERE id='' @ x) = (e, None, [])" for r e x
    by (simp add: recording_def starts_with_def)
  have qt: "e_query_task ?E r e q = (e, Some (''x'', 7, ''n''), [])" for r e q
    by (simp add: recording_def)
  have round: "\<exists>s'. claim_round ?E 1 0 s = Inl (ClaimTask ''x'' 7 ''n'' s')" for s
    unfolding claim_round_def flush_counters_def claim_poll_def Let_def qi qt prod.case
    by (simp add: claim_run_def run flush_no_NUL start_task_sql_def on_events_def)
  have "try_sql ?E ''BEGIN IMMEDIATE'' s = (recorded flushed ''BEGIN IMMEDIATE'' s, SQLITE_OK)" for s
    by (simp add: try_sql_def recording_exec)
  then have "start_script ?E 1 counted_process =
      (case claim_round ?E 1 0 (recorded flushed ''BEGIN IMMEDIATE'' (counted_process\<lparr>i_timeout := 0\<rparr>)) of
         Inl c \<Rightarrow> Some c
       | Inr s \<Rightarrow> commit_loop ?E 0 s \<bind> (\<lambda>(s, t). start_loop ?E 1 (t + 100) (sqlite_sleep ?E 100 s)))"
    unfolding start_script_def by (subst start_loop.simps) (simp add: SQLITE_OK_def SQLITE_BUSY_def)
  with round obtain s' where s': "start_script ?E 1 counted_process = Some (ClaimTask ''x'' 7 ''n'' s')"
    by (metis sum.case(1))
  from claim_keeps_books[OF recording_counter_table recording_succeeds s' disjI1[OF refl]]
  have "int (fst (rec_counts (eng s'))) + int (n_error s') - int (errs s') = 2 \<and> snd (rec_counts (eng s')) + n_test s' = 3"
    by (simp add: counted_process_def new_process_def errs_def)
  with s' show ?thesis by blast
qed

end
