(* ===== verification/Mdtest.thy ===== *)
theory Mdtest
  imports Rust_Text
begin

unbundle bit_operations_syntax

text \<open>
  The metadata workload mdtest (src/src/mdtest.rs): every rank creates, stats, reads, renames and
  removes numbered items in a tree of directories. This theory holds the parameters and their
  resolution, the names and numbers of items, the file contents and the random order.
  Sums of 32- and 64-bit quantities are those of a build without overflow, except where written out.
\<close>

section \<open>Parameters\<close>

text \<open>The command line, and what a run resolves it to. The depth is the code's i32.\<close>

record md_args =
  a_threads :: nat
  a_branch :: nat
  a_depth :: int
  a_per_dir :: nat
  a_items :: nat
  a_iterations :: nat
  a_unique :: bool
  a_files_only :: bool
  a_dirs_only :: bool
  a_create :: bool
  a_stat :: bool
  a_read :: bool
  a_remove :: bool
  a_rename :: bool
  a_leaf :: bool
  a_write_bytes :: nat
  a_read_bytes :: nat
  a_sync_file :: bool
  a_sync_phase :: bool
  a_nstride :: nat
  a_random :: bool
  a_seed :: nat
  a_stonewall :: nat
  a_no_barriers :: bool
  a_verify :: bool

record md_params =
  m_threads :: nat
  m_branch :: nat
  m_depth :: nat
  m_per_dir :: nat
  m_items :: nat
  m_iterations :: nat
  m_unique :: bool
  m_dirs :: bool
  m_files :: bool
  m_create :: bool
  m_stat :: bool
  m_read :: bool
  m_remove :: bool
  m_rename :: bool
  m_leaf :: bool
  m_write_bytes :: nat
  m_read_bytes :: nat
  m_sync_file :: bool
  m_sync_phase :: bool
  m_nstride :: nat
  m_random :: bool
  m_seed :: nat
  m_stonewall :: nat
  m_barriers :: bool
  m_verify :: bool
  m_num_dirs :: nat
  m_loops :: nat

datatype md_error =
    StonewallNeedsBarriers | NoBarriersWithStride | NegativeDepth | BranchTooSmall | ItemsAndPerDir
  | ItemsNotMultiple | VerifyNeedsRead | VerifyNeedsBytes | ReadMoreThanWritten | NoItemsPerDir

text \<open>\<open>u32::pow\<close>: panics on overflow.\<close>

definition pow32 :: "nat \<Rightarrow> nat \<Rightarrow> nat option" where
  "pow32 b d = (if b ^ d < 2 ^ 32 then Some (b ^ d) else None)"

definition dirs_in_tree :: "nat \<Rightarrow> int \<Rightarrow> nat option" where
  "dirs_in_tree b d =
     (if d \<le> 0 \<or> b < 1 then Some 1
      else if b = 1 then Some (nat d + 1)
      else do { q \<leftarrow> pow32 b (nat d + 1); Some ((q - 1) div (b - 1)) })"

text \<open>The number of items and of items per directory.\<close>

definition item_counts :: "md_args \<Rightarrow> nat \<Rightarrow> (nat \<times> nat) option" where
  "item_counts a num_dirs =
     (if 0 < a_per_dir a then
        (if a_items a = 0 then
           (if a_leaf a then do { q \<leftarrow> pow32 (a_branch a) (nat (a_depth a)); Some (a_per_dir a * q, a_per_dir a) }
            else Some (a_per_dir a * num_dirs, a_per_dir a))
         else Some (a_items a, a_per_dir a))
      else do {
        leaf_dirs \<leftarrow> pow32 (a_branch a) (nat (a_depth a));
        ipd \<leftarrow> (if a_leaf a then
                  (if a_branch a \<le> 1 then Some (a_items a)
                   else Some (a_items a div leaf_dirs))
                else Some (a_items a div num_dirs));
        Some (if a_leaf a then ipd * leaf_dirs else ipd * num_dirs, ipd)
      })"

definition args_error :: "md_args \<Rightarrow> bool \<Rightarrow> bool \<Rightarrow> md_error option" where
  "args_error a create_only read_only =
     (if 0 < a_stonewall a \<and> (1 < a_branch a \<or> a_no_barriers a) then Some StonewallNeedsBarriers
      else if a_no_barriers a \<and> a_nstride a \<noteq> 0 then Some NoBarriersWithStride
      else if a_depth a < 0 then Some NegativeDepth
      else if a_branch a < 1 \<and> 0 < a_depth a then Some BranchTooSmall
      else if 0 < a_items a \<and> 0 < a_per_dir a \<and> a_unique a then Some ItemsAndPerDir
      else if 0 < a_items a \<and> 0 < a_per_dir a \<and> a_items a mod a_per_dir a \<noteq> 0 then Some ItemsNotMultiple
      else if a_verify a \<and> \<not> read_only then Some VerifyNeedsRead
      else if a_verify a \<and> a_read_bytes a = 0 then Some VerifyNeedsBytes
      else if create_only \<and> read_only \<and> a_write_bytes a < a_read_bytes a then Some ReadMoreThanWritten
      else None)"

text \<open>The argument \<open>now\<close> is the time of day in seconds. None is a panic.\<close>

definition md_resolve :: "nat \<Rightarrow> md_args \<Rightarrow> (md_error + md_params) option" where
  "md_resolve now a =
     (let all_phases = (\<not> a_create a \<and> \<not> a_stat a \<and> \<not> a_read a \<and> \<not> a_remove a \<and> \<not> a_rename a);
          both = (\<not> a_dirs_only a \<and> \<not> a_files_only a)
      in case args_error a (a_create a \<or> all_phases) (a_read a \<or> all_phases) of
           Some e \<Rightarrow> Some (Inl e)
         | None \<Rightarrow> do {
             num_dirs \<leftarrow> dirs_in_tree (a_branch a) (a_depth a);
             (items, per_dir) \<leftarrow> item_counts a num_dirs;
             Some (if per_dir = 0 then Inl NoItemsPerDir
               else Inr \<lparr>m_threads = max 1 (a_threads a), m_branch = a_branch a, m_depth = nat (a_depth a),
                 m_per_dir = per_dir, m_items = items, m_iterations = a_iterations a, m_unique = a_unique a,
                 m_dirs = (a_dirs_only a \<or> both), m_files = (a_files_only a \<or> both),
                 m_create = (a_create a \<or> all_phases), m_stat = (a_stat a \<or> all_phases),
                 m_read = (a_read a \<or> all_phases), m_remove = (a_remove a \<or> all_phases),
                 m_rename = (a_rename a \<or> all_phases), m_leaf = a_leaf a,
                 m_write_bytes = a_write_bytes a, m_read_bytes = a_read_bytes a,
                 m_sync_file = a_sync_file a, m_sync_phase = a_sync_phase a, m_nstride = a_nstride a,
                 m_random = a_random a, m_seed = (if a_random a \<and> a_seed a = 0 then now else a_seed a),
                 m_stonewall = a_stonewall a, m_barriers = (\<not> a_no_barriers a), m_verify = a_verify a,
                 m_num_dirs = num_dirs,
                 m_loops = (if 0 < a_items a \<and> 0 < a_per_dir a \<and> \<not> a_unique a
                            then (a_items a div a_per_dir a) mod 2 ^ 32 else 1)\<rparr>)
           })"

section \<open>Names\<close>

definition shifted :: "md_params \<Rightarrow> nat \<Rightarrow> nat \<Rightarrow> nat" where
  "shifted p rank phase = (rank + phase * m_nstride p) mod m_threads p"

definition md_prefix :: "md_params \<Rightarrow> nat \<Rightarrow> nat \<Rightarrow> string" where
  "md_prefix p rank phase = ''mdtest.'' @ dec_str (shifted p rank phase) @ ''.''"

definition testdir :: "nat \<Rightarrow> nat \<Rightarrow> path" where
  "testdir iteration dir_iter = [''test-dir.'' @ dec_str iteration @ ''-'' @ dec_str dir_iter]"

definition base_tree_name :: "md_params \<Rightarrow> nat \<Rightarrow> string" where
  "base_tree_name p target = (if m_unique p then ''mdtest_tree.'' @ dec_str target else ''mdtest_tree'')"

definition tree_root :: "md_params \<Rightarrow> nat \<Rightarrow> nat \<Rightarrow> nat \<Rightarrow> path" where
  "tree_root p iteration dir_iter target =
     testdir iteration dir_iter @
     [if m_unique p then ''mdtest_tree.'' @ dec_str target @ ''.0'' else ''mdtest_tree.0'']"

definition item_name :: "bool \<Rightarrow> string \<Rightarrow> nat \<Rightarrow> string" where
  "item_name dirs prefix n = (if dirs then ''dir.'' else ''file.'') @ prefix @ dec_str n"

definition tree_dir :: "string \<Rightarrow> nat \<Rightarrow> string" where
  "tree_dir base n = base @ ''.'' @ dec_str n"

text \<open>The directories above an item, from the root's child down: the loop walks up with
  \<open>(parent - 1) / branch_factor\<close>. None is a division by zero.\<close>

function ancestors :: "nat \<Rightarrow> nat \<Rightarrow> nat list option" where
  "ancestors b parent =
     (if parent \<le> b then Some [parent]
      else if b = 0 then None
      else map_option (\<lambda>l. l @ [parent]) (ancestors b ((parent - 1) div b)))"
  by pat_completeness auto
termination
  by (relation "measure snd") (auto intro: le_less_trans[OF div_le_dividend])

declare ancestors.simps [simp del]

definition item_path :: "md_params \<Rightarrow> string \<Rightarrow> bool \<Rightarrow> string \<Rightarrow> nat \<Rightarrow> path option" where
  "item_path p base dirs prefix n =
     (let item = item_name dirs prefix n; parent = n div m_per_dir p
      in if m_per_dir p = 0 then None
         else if parent = 0 then Some [item]
         else map_option (\<lambda>ds. map (tree_dir base) ds @ [item]) (ancestors (m_branch p) parent))"

text \<open>None is the panic of \<open>u32::pow\<close> or of the subtraction.\<close>

definition leaf_offset :: "md_params \<Rightarrow> nat option" where
  "leaf_offset p =
     (if m_leaf p then do {
        q \<leftarrow> pow32 (m_branch p) (m_depth p);
        d \<leftarrow> rsub (m_num_dirs p) q;
        Some (m_per_dir p * d) }
      else Some 0)"

definition stop_items :: "md_params \<Rightarrow> nat" where
  "stop_items p = (if m_loops p \<noteq> 1 then m_per_dir p else m_items p)"

section \<open>Contents and order\<close>

definition GOLDEN :: u64 where "GOLDEN = 0x9E3779B97F4A7C15"
definition MIX1 :: u64 where "MIX1 = 0xBF58476D1CE4E5B9"
definition MIX2 :: u64 where "MIX2 = 0x94D049BB133111EB"

definition splitmix :: "u64 \<Rightarrow> u64" where
  "splitmix z =
     (let z = (z XOR drop_bit 30 z) * MIX1;
          z = (z XOR drop_bit 27 z) * MIX2
      in z XOR drop_bit 31 z)"

definition le_bytes :: "u64 \<Rightarrow> u8 list" where
  "le_bytes z = map (\<lambda>i. ucast (drop_bit (8 * i) z)) [0..<8]"

function pattern_loop :: "nat \<Rightarrow> u64 \<Rightarrow> u8 list \<Rightarrow> u8 list" where
  "pattern_loop len state v =
     (if length v < len
      then pattern_loop len (state + GOLDEN) (v @ le_bytes (splitmix (state + GOLDEN)))
      else v)"
  by pat_completeness auto
termination
  by (relation "measure (\<lambda>(len, state, v). len - length v)") (auto simp: le_bytes_def)

declare pattern_loop.simps [simp del]

definition content_pattern :: "u64 \<Rightarrow> nat \<Rightarrow> nat \<Rightarrow> nat \<Rightarrow> u8 list" where
  "content_pattern seed writer item len =
     take len (pattern_loop len (seed * GOLDEN + push_bit 32 (of_nat writer) + of_nat item * MIX1) [])"

definition swap :: "'a list \<Rightarrow> nat \<Rightarrow> nat \<Rightarrow> 'a list" where
  "swap xs i j = xs[i := xs ! j, j := xs ! i]"

fun shuffle_loop :: "nat \<Rightarrow> u64 \<Rightarrow> nat list \<Rightarrow> nat list" where
  "shuffle_loop i state arr =
     (if 1 < i then
        (let state = state * 6364136223846793005 + 1442695040888963407;
             k = unat (drop_bit 33 state) mod i
         in shuffle_loop (i - 1) state (swap arr k (i - 1)))
      else arr)"

declare shuffle_loop.simps [simp del]

definition shuffled :: "nat \<Rightarrow> u64 \<Rightarrow> nat list" where
  "shuffled n seed = shuffle_loop n (seed OR 1) [0..<n]"

text \<open>The pattern has the length asked for, and a shorter one is its beginning.\<close>

lemma length_le_bytes [simp]: "length (le_bytes z) = 8"
  by (simp add: le_bytes_def)

lemma pattern_loop_prefix:
  "n \<le> m \<Longrightarrow> take n (pattern_loop m state v) = take n (pattern_loop n state v)"
proof (induction "m - length v" arbitrary: state v rule: less_induct)
  case less
  let ?st = "state + GOLDEN" and ?v = "v @ le_bytes (splitmix (state + GOLDEN))"
  show ?case
  proof (cases "length v < m")
    case True
    then have m: "pattern_loop m state v = pattern_loop m ?st ?v" by (subst pattern_loop.simps) simp
    have IH: "take n (pattern_loop m ?st ?v) = take n (pattern_loop n ?st ?v)"
      using less.hyps[of ?v ?st] less.prems True by simp
    show ?thesis
    proof (cases "length v < n")
      case True
      then have "pattern_loop n state v = pattern_loop n ?st ?v" by (subst pattern_loop.simps) simp
      with m IH show ?thesis by simp
    next
      case False
      then have "pattern_loop n state v = v" "pattern_loop n ?st ?v = ?v" by (subst pattern_loop.simps; simp)+
      with m IH False show ?thesis by simp
    qed
  next
    case False
    with less.prems show ?thesis by (simp add: pattern_loop.simps[of m] pattern_loop.simps[of n])
  qed
qed

lemma pattern_loop_length: "len \<le> length (pattern_loop len state v)"
proof (induction len state v rule: pattern_loop.induct)
  case (1 len state v)
  show ?case
  proof (cases "length v < len")
    case True
    with "1.IH"[OF True] show ?thesis by (simp add: pattern_loop.simps[of len state v])
  next
    case False
    then show ?thesis by (simp add: pattern_loop.simps[of len state v])
  qed
qed

lemma content_length: "length (content_pattern seed w i len) = len"
  unfolding content_pattern_def length_take by (rule min_absorb2[OF pattern_loop_length])

lemma content_prefix: "n \<le> m \<Longrightarrow> take n (content_pattern seed w i m) = content_pattern seed w i n"
  unfolding content_pattern_def take_take by (simp only: min_absorb1) (rule pattern_loop_prefix)

end
