(* ===== verification/Mdtest_Run.thy ===== *)
theory Mdtest_Run
  imports Mdtest
begin

text \<open>
  The phases of mdtest (src/src/mdtest.rs): the tree of directories, the creation and removal of items
  along the tree, stat, read and rename by reconstructed paths, and the sequence of one rank. The file
  system is a parameter; its state also holds the time. A failed call on an item is a warning that
  names the path. Times and rates are not modelled.
\<close>

section \<open>The file system and the state of a rank\<close>

record 'k mdfs =
  md_mkdir :: "'k \<Rightarrow> path \<Rightarrow> 'k \<times> bool"
  md_rmdir :: "'k \<Rightarrow> path \<Rightarrow> 'k \<times> bool"
  md_creat :: "'k \<Rightarrow> path \<Rightarrow> 'k \<times> nat option"
  md_write_all :: "'k \<Rightarrow> nat \<Rightarrow> u8 list \<Rightarrow> 'k \<times> bool"
  md_fsync :: "'k \<Rightarrow> nat \<Rightarrow> 'k \<times> bool"
  md_close :: "'k \<Rightarrow> nat \<Rightarrow> 'k"
  md_unlink :: "'k \<Rightarrow> path \<Rightarrow> 'k \<times> bool"
  md_stat :: "'k \<Rightarrow> path \<Rightarrow> bool"
  md_open :: "'k \<Rightarrow> path \<Rightarrow> 'k \<times> nat option"
  md_read_exact :: "'k \<Rightarrow> nat \<Rightarrow> nat \<Rightarrow> 'k \<times> u8 list option"
  md_rename :: "'k \<Rightarrow> path \<Rightarrow> path \<Rightarrow> 'k \<times> bool"
  md_sync :: "'k \<Rightarrow> 'k"
  md_late :: "'k \<Rightarrow> nat \<Rightarrow> bool"

record 'k mds =
  mkern :: 'k
  warned :: "path list"
  barriers :: nat

definition warn :: "bool \<Rightarrow> path \<Rightarrow> 'k mds \<Rightarrow> 'k mds" where
  "warn ok q s = (if ok then s else s\<lparr>warned := warned s @ [q]\<rparr>)"

text \<open>A call that changes the file system and may fail with a warning.\<close>

definition call_item :: "'k \<times> bool \<Rightarrow> path \<Rightarrow> 'k mds \<Rightarrow> 'k mds" where
  "call_item r q s = warn (snd r) q (s\<lparr>mkern := fst r\<rparr>)"

record progress =
  g_start :: nat
  g_done :: nat
  g_per_dir :: nat
  g_timer :: nat

section \<open>Creating and removing items\<close>

definition create_file :: "'k mdfs \<Rightarrow> md_params \<Rightarrow> nat \<Rightarrow> path \<Rightarrow> nat \<Rightarrow> 'k mds \<Rightarrow> 'k mds" where
  "create_file F p rank q n s =
     (case md_creat F (mkern s) q of
        (k, None) \<Rightarrow> warn False q (s\<lparr>mkern := k\<rparr>)
      | (k, Some fd) \<Rightarrow>
          (let s = s\<lparr>mkern := k\<rparr>;
               s = (if 0 < m_write_bytes p
                    then call_item (md_write_all F (mkern s) fd
                           (content_pattern (of_nat (m_seed p)) (shifted p rank 0) n (m_write_bytes p))) q s
                    else s);
               s = (if m_sync_file p then call_item (md_fsync F (mkern s) fd) q s else s)
           in s\<lparr>mkern := md_close F (mkern s) fd\<rparr>))"

definition item_op ::
  "'k mdfs \<Rightarrow> md_params \<Rightarrow> nat \<Rightarrow> bool \<Rightarrow> bool \<Rightarrow> path \<Rightarrow> nat \<Rightarrow> 'k mds \<Rightarrow> 'k mds" where
  "item_op F p rank dirs create dir n s =
     (let q = dir @ [item_name dirs (md_prefix p rank (if create then 0 else 3)) n]
      in if dirs then call_item ((if create then md_mkdir F else md_rmdir F) (mkern s) q) q s
         else if create then create_file F p rank q n s
         else call_item (md_unlink F (mkern s) q) q s)"

function item_loop ::
  "'k mdfs \<Rightarrow> md_params \<Rightarrow> nat \<Rightarrow> bool \<Rightarrow> bool \<Rightarrow> path \<Rightarrow> nat \<Rightarrow> nat \<Rightarrow> progress \<times> 'k mds \<Rightarrow> progress \<times> 'k mds" where
  "item_loop F p rank dirs create dir start i (g, s) =
     (if i < g_per_dir g then
        (let s = item_op F p rank dirs create dir (start + i) s;
             g = g\<lparr>g_done := i + 1\<rparr>
         in if 0 < g_timer g \<and> md_late F (mkern s) (g_timer g) then (g, s)
            else item_loop F p rank dirs create dir start (i + 1) (g, s))
      else (g\<lparr>g_done := g_per_dir g\<rparr>, s))"
  by pat_completeness auto
termination
  by (relation "measure (\<lambda>(F, p, rank, dirs, create, dir, start, i, g, s). g_per_dir g - i)") auto

declare item_loop.simps [simp del]

definition item_range ::
  "'k mdfs \<Rightarrow> md_params \<Rightarrow> nat \<Rightarrow> bool \<Rightarrow> bool \<Rightarrow> path \<Rightarrow> nat \<Rightarrow> progress \<times> 'k mds \<Rightarrow> progress \<times> 'k mds" where
  "item_range F p rank dirs create dir start gs =
     item_loop F p rank dirs create dir start (g_start (fst gs)) gs"

text \<open>The levels of the tree below the root: \<open>rem\<close> counts the levels that are left.\<close>

fun level_items ::
  "nat \<Rightarrow> 'k mdfs \<Rightarrow> md_params \<Rightarrow> nat \<Rightarrow> bool \<Rightarrow> bool \<Rightarrow> path \<Rightarrow> nat \<Rightarrow> progress \<times> 'k mds \<Rightarrow> progress \<times> 'k mds" where
  "level_items 0 F p rank dirs create dir dir_num gs = gs"
| "level_items (Suc rem) F p rank dirs create dir dir_num gs =
     fold (\<lambda>i gs.
       let sub = dir @ [tree_dir ''mdtest_tree'' (dir_num + i)];
           gs = (if \<not> m_leaf p \<or> rem = 0
                 then item_range F p rank dirs create sub ((dir_num + i) * g_per_dir (fst gs)) gs else gs)
       in level_items rem F p rank dirs create sub ((dir_num + i) * m_branch p + 1) gs) [0..<m_branch p] gs"

definition create_remove_items ::
  "'k mdfs \<Rightarrow> md_params \<Rightarrow> nat \<Rightarrow> bool \<Rightarrow> bool \<Rightarrow> path \<Rightarrow> progress \<times> 'k mds \<Rightarrow> progress \<times> 'k mds" where
  "create_remove_items F p rank dirs create root gs =
     (let gs = (if \<not> m_leaf p \<or> m_depth p = 0 then item_range F p rank dirs create root 0 gs else gs)
      in if 0 < m_depth p then level_items (m_depth p) F p rank dirs create root 1 gs else gs)"

section \<open>The tree of directories\<close>

text \<open>A failed creation aborts the rank: the flag says whether it goes on.\<close>

fun tree_level :: "nat \<Rightarrow> 'k mdfs \<Rightarrow> md_params \<Rightarrow> bool \<Rightarrow> path \<Rightarrow> nat \<Rightarrow> 'k mds \<times> bool \<Rightarrow> 'k mds \<times> bool" where
  "tree_level 0 F p create parent dir_num st = st"
| "tree_level (Suc rem) F p create parent dir_num st =
     fold (\<lambda>i (s, ok).
       if \<not> ok then (s, ok)
       else
         (let sub = parent @ [tree_dir ''mdtest_tree'' (dir_num + i)];
              (s, ok) = (if create then (let (k, ok) = md_mkdir F (mkern s) sub in (s\<lparr>mkern := k\<rparr>, ok)) else (s, True))
          in if \<not> ok then (s, ok)
             else
               (let (s, ok) = tree_level rem F p create sub (m_branch p * (dir_num + i) + 1) (s, True)
                in if ok \<and> \<not> create then (s\<lparr>mkern := fst (md_rmdir F (mkern s) sub)\<rparr>, ok) else (s, ok))))
       [0..<m_branch p] st"

definition create_remove_tree :: "'k mdfs \<Rightarrow> md_params \<Rightarrow> bool \<Rightarrow> path \<Rightarrow> 'k mds \<Rightarrow> 'k mds \<times> bool" where
  "create_remove_tree F p create parent s =
     (let root = parent @ [''mdtest_tree.0''];
          (s, ok) = (if create then (let (k, ok) = md_mkdir F (mkern s) root in (s\<lparr>mkern := k\<rparr>, ok)) else (s, True))
      in if \<not> ok then (s, ok)
         else
           (let (s, ok) = tree_level (m_depth p) F p create root 1 (s, True)
            in if ok \<and> \<not> create then (s\<lparr>mkern := fst (md_rmdir F (mkern s) root)\<rparr>, ok) else (s, ok)))"

section \<open>Stat, read and rename\<close>

text \<open>The item numbers that a phase visits: an index of the random order out of range is a panic.\<close>

definition stat_item :: "md_params \<Rightarrow> nat list option \<Rightarrow> nat \<Rightarrow> nat \<Rightarrow> nat option" where
  "stat_item p order offset i =
     (case order of None \<Rightarrow> Some (i + offset) | Some arr \<Rightarrow> do { n \<leftarrow> rget arr i; Some (n + offset) })"

fun each_item :: "(nat \<Rightarrow> 's \<Rightarrow> 's option) \<Rightarrow> nat list \<Rightarrow> 's \<Rightarrow> 's option" where
  "each_item f [] s = Some s"
| "each_item f (i # is) s = do { s \<leftarrow> f i s; each_item f is s }"

definition stat_phase ::
  "'k mdfs \<Rightarrow> md_params \<Rightarrow> nat \<Rightarrow> nat list option \<Rightarrow> bool \<Rightarrow> path \<Rightarrow> string \<Rightarrow> 'k mds \<Rightarrow> 'k mds option" where
  "stat_phase F p rank order dirs root base s = do {
     offset \<leftarrow> leaf_offset p;
     each_item (\<lambda>i s. do {
         n \<leftarrow> stat_item p order offset i;
         rel \<leftarrow> item_path p base dirs (md_prefix p rank 1) n;
         Some (warn (md_stat F (mkern s) (root @ rel)) (root @ rel) s) }) [0..<stop_items p] s
   }"

text \<open>One file of the read phase: the new state and whether its content is wrong.\<close>

definition read_file :: "'k mdfs \<Rightarrow> md_params \<Rightarrow> nat \<Rightarrow> path \<Rightarrow> nat \<Rightarrow> 'k mds \<Rightarrow> 'k mds \<times> bool" where
  "read_file F p rank q n s =
     (case md_open F (mkern s) q of
        (k, None) \<Rightarrow> (warn False q (s\<lparr>mkern := k\<rparr>), False)
      | (k, Some fd) \<Rightarrow>
          (let (s, bad) =
             (if 0 < m_read_bytes p then
                (case md_read_exact F k fd (m_read_bytes p) of
                   (k, None) \<Rightarrow> (warn False q (s\<lparr>mkern := k\<rparr>), False)
                 | (k, Some data) \<Rightarrow>
                     (s\<lparr>mkern := k\<rparr>, m_verify p \<and>
                        data \<noteq> content_pattern (of_nat (m_seed p)) (shifted p rank 2) n (m_read_bytes p)))
              else (s\<lparr>mkern := k\<rparr>, False))
           in (s\<lparr>mkern := md_close F (mkern s) fd\<rparr>, bad)))"

definition read_phase ::
  "'k mdfs \<Rightarrow> md_params \<Rightarrow> nat \<Rightarrow> path \<Rightarrow> string \<Rightarrow> 'k mds \<times> nat \<Rightarrow> ('k mds \<times> nat) option" where
  "read_phase F p rank root base st = do {
     offset \<leftarrow> leaf_offset p;
     each_item (\<lambda>i (s, errors). do {
         rel \<leftarrow> item_path p base False (md_prefix p rank 2) (i + offset);
         let (s, bad) = read_file F p rank (root @ rel) (i + offset) s;
         Some (s, if bad then errors + 1 else errors) }) [0..<stop_items p] st
   }"

definition suffixed :: "path \<Rightarrow> string \<Rightarrow> path" where
  "suffixed q t = butlast q @ [last q @ t]"

text \<open>One rename of the chain: \<open>last\<close> is the name that became free, \<open>first\<close> the aside name of item 0.\<close>

definition rename_step ::
  "'k mdfs \<Rightarrow> nat \<Rightarrow> nat \<Rightarrow> path \<Rightarrow> 'k mds \<times> path option \<times> path option \<Rightarrow>
   ('k mds \<times> path option \<times> path option) option" where
  "rename_step F stop i q st =
     (case st of (s, lst, first) \<Rightarrow> do {
        (src, target, first) \<leftarrow>
          (if i = 0 then Some (q, suffixed q ''-XX'', Some (suffixed q ''-XX''))
           else if i = stop - 1 then do { a \<leftarrow> first; b \<leftarrow> lst; Some (a, b, first) }
           else do { b \<leftarrow> lst; Some (q, b, first) });
        Some (call_item (md_rename F (mkern s) src target) src s, if i \<noteq> stop - 1 then Some q else lst, first) })"

definition rename_phase ::
  "'k mdfs \<Rightarrow> md_params \<Rightarrow> nat \<Rightarrow> bool \<Rightarrow> path \<Rightarrow> string \<Rightarrow> 'k mds \<Rightarrow> 'k mds option" where
  "rename_phase F p rank dirs root base s =
     (if stop_items p = 1 then Some s
      else do {
        offset \<leftarrow> leaf_offset p;
        (s, lst, first) \<leftarrow> each_item (\<lambda>i st. do {
            rel \<leftarrow> item_path p base dirs (md_prefix p rank 1) (i + offset);
            rename_step F (stop_items p) i (root @ rel) st }) [0..<stop_items p] (s, None, None);
        Some s
      })"

end
