(* ===== verification/Mdtest_Rank.thy ===== *)
theory Mdtest_Rank
  imports Mdtest_Run
begin

text \<open>
  The sequence of one rank of mdtest (src/src/mdtest.rs, \<open>run_rank\<close>). A step returns None when it panics
  and otherwise the state and whether the rank goes on: an error of the directory tree ends it.
\<close>

datatype md_op =
    DirCreate | DirStat | DirRead | DirRename | DirRemove | FileCreate | FileStat | FileRead | FileRemove
  | TreeCreate | TreeRemove

definition OPS :: "(md_op \<times> string) list" where
  "OPS = [(DirCreate, ''Directory creation''), (DirStat, ''Directory stat''), (DirRead, ''Directory read''),
     (DirRename, ''Directory rename''), (DirRemove, ''Directory removal''), (FileCreate, ''File creation''),
     (FileStat, ''File stat''), (FileRead, ''File read''), (FileRemove, ''File removal''),
     (TreeCreate, ''Tree creation''), (TreeRemove, ''Tree removal'')]"

text \<open>The index of an operation in the table; every operation is listed.\<close>

fun index_of :: "'a \<Rightarrow> ('a \<times> 'b) list \<Rightarrow> nat option" where
  "index_of x [] = None"
| "index_of x ((y, b) # r) = (if y = x then Some 0 else map_option Suc (index_of x r))"

definition op_index :: "md_op \<Rightarrow> nat option" where
  "op_index op = index_of op OPS"

record 'k rank_state = "'k mds" +
  prog :: progress
  res :: "nat list"
  verr :: nat

definition mds_of :: "'k rank_state \<Rightarrow> 'k mds" where
  "mds_of s = \<lparr>mkern = mkern s, warned = warned s, barriers = barriers s\<rparr>"

definition put_mds :: "'k mds \<Rightarrow> 'k rank_state \<Rightarrow> 'k rank_state" where
  "put_mds m s = s\<lparr>mkern := mkern m, warned := warned m, barriers := barriers m\<rparr>"

type_synonym 'k rank_step = "'k rank_state \<Rightarrow> ('k rank_state \<times> bool) option"

definition go :: "('k rank_state \<Rightarrow> 'k rank_state) \<Rightarrow> 'k rank_step" where
  "go f s = Some (f s, True)"

definition andthen :: "'k rank_step \<Rightarrow> 'k rank_step \<Rightarrow> 'k rank_step" where
  "andthen f g s = do { (s, ok) \<leftarrow> f s; if ok then g s else Some (s, False) }"

definition steps :: "'k rank_step list \<Rightarrow> 'k rank_step" where
  "steps fs = foldr andthen fs (go id)"

definition unless_off :: "bool \<Rightarrow> 'k rank_step \<Rightarrow> 'k rank_step" where
  "unless_off b f = (if b then f else go id)"

definition wait_all :: "'k rank_step" where
  "wait_all = go (\<lambda>s. s\<lparr>barriers := barriers s + 1\<rparr>)"

definition phase_prepare :: "md_params \<Rightarrow> 'k rank_step" where
  "phase_prepare p = unless_off (m_barriers p) wait_all"

definition phase_end :: "'k mdfs \<Rightarrow> md_params \<Rightarrow> 'k rank_step" where
  "phase_end F p =
     steps [unless_off (m_sync_phase p) (go (\<lambda>s. s\<lparr>mkern := md_sync F (mkern s)\<rparr>)),
            unless_off (m_barriers p) wait_all]"

text \<open>Only the number of items is kept of a result.\<close>

definition set_stat :: "md_op \<Rightarrow> ('k rank_state \<Rightarrow> nat) \<Rightarrow> 'k rank_step" where
  "set_stat op n s = do { i \<leftarrow> op_index op; r \<leftarrow> rset (res s) i (n s); Some (s\<lparr>res := r\<rparr>, True) }"

definition on_mds :: "('k mds \<Rightarrow> 'k mds option) \<Rightarrow> 'k rank_step" where
  "on_mds f s = do { m \<leftarrow> f (mds_of s); Some (put_mds m s, True) }"

text \<open>A phase of one kind over all directory iterations, between the barriers.\<close>

definition md_phase :: "'k mdfs \<Rightarrow> md_params \<Rightarrow> (nat \<Rightarrow> 'k rank_step) \<Rightarrow> 'k rank_step \<Rightarrow> 'k rank_step" where
  "md_phase F p f record_result =
     steps ([phase_prepare p] @ map f [0..<m_loops p] @ [phase_end F p, record_result])"

definition make_items :: "'k mdfs \<Rightarrow> md_params \<Rightarrow> nat \<Rightarrow> bool \<Rightarrow> bool \<Rightarrow> path \<Rightarrow> ('k rank_state \<Rightarrow> nat) \<Rightarrow> 'k rank_step" where
  "make_items F p rank dirs create root start s =
     (let (g, m) = create_remove_items F p rank dirs create root ((prog s)\<lparr>g_start := start s\<rparr>, mds_of s)
      in Some ((put_mds m s)\<lparr>prog := g\<rparr>, True))"

section \<open>The trees\<close>

definition make_tree :: "'k mdfs \<Rightarrow> md_params \<Rightarrow> bool \<Rightarrow> path \<Rightarrow> 'k rank_step" where
  "make_tree F p create parent s =
     (let (m, ok) = create_remove_tree F p create parent (mds_of s) in Some (put_mds m s, ok))"

definition quiet_call :: "('k \<Rightarrow> 'k \<times> bool) \<Rightarrow> 'k rank_step" where
  "quiet_call f = go (\<lambda>s. s\<lparr>mkern := fst (f (mkern s))\<rparr>)"

definition own_tree :: "nat \<Rightarrow> nat \<Rightarrow> nat \<Rightarrow> path" where
  "own_tree it d rank = testdir it d @ [''mdtest_tree.'' @ dec_str rank]"

definition tree_phase :: "'k mdfs \<Rightarrow> md_params \<Rightarrow> nat \<Rightarrow> nat \<Rightarrow> 'k rank_step" where
  "tree_phase F p rank it =
     steps (map (\<lambda>d. quiet_call (\<lambda>k. md_mkdir F k (testdir it d))) [0..<m_loops p] @ [wait_all]
       @ map (\<lambda>d. if m_unique p
                  then steps [quiet_call (\<lambda>k. md_mkdir F k (own_tree it d rank)), make_tree F p True (own_tree it d rank)]
                  else unless_off (rank = 0) (make_tree F p True (testdir it d))) [0..<m_loops p]
       @ [wait_all, unless_off (m_unique p \<or> rank = 0) (set_stat TreeCreate (\<lambda>s. m_num_dirs p))])"

definition untree_phase :: "'k mdfs \<Rightarrow> md_params \<Rightarrow> nat \<Rightarrow> nat \<Rightarrow> 'k rank_step" where
  "untree_phase F p rank it =
     steps (map (\<lambda>d. steps
         [if m_unique p
          then steps [make_tree F p False (own_tree it d rank), quiet_call (\<lambda>k. md_rmdir F k (own_tree it d rank))]
          else unless_off (rank = 0) (make_tree F p False (testdir it d)),
          unless_off (rank = 0) (quiet_call (\<lambda>k. md_rmdir F k (testdir it d)))]) [0..<m_loops p]
       @ [wait_all, unless_off (m_unique p \<or> rank = 0) (set_stat TreeRemove (\<lambda>s. m_num_dirs p))])"

section \<open>One iteration\<close>

definition root_of :: "md_params \<Rightarrow> nat \<Rightarrow> nat \<Rightarrow> nat \<Rightarrow> nat \<Rightarrow> path" where
  "root_of p rank it phase d = tree_root p it d (shifted p rank phase)"

definition base_of :: "md_params \<Rightarrow> nat \<Rightarrow> nat \<Rightarrow> string" where
  "base_of p rank phase = base_tree_name p (shifted p rank phase)"

definition dir_phases :: "'k mdfs \<Rightarrow> md_params \<Rightarrow> nat \<Rightarrow> nat \<Rightarrow> nat list option \<Rightarrow> 'k rank_step" where
  "dir_phases F p rank it order = steps
     [unless_off (m_create p) (md_phase F p (\<lambda>d. make_items F p rank True True (root_of p rank it 0 d) (\<lambda>s. 0))
        (set_stat DirCreate (\<lambda>s. m_items p))),
      unless_off (m_stat p) (md_phase F p (\<lambda>d. on_mds (stat_phase F p rank order True (root_of p rank it 1 d) (base_of p rank 1)))
        (set_stat DirStat (\<lambda>s. m_items p))),
      unless_off (m_read p) (steps [phase_prepare p, phase_end F p, set_stat DirRead (\<lambda>s. m_items p)]),
      unless_off (m_rename p \<and> 1 < m_items p)
        (md_phase F p (\<lambda>d. on_mds (rename_phase F p rank True (root_of p rank it 1 d) (base_of p rank 1)))
          (set_stat DirRename (\<lambda>s. m_items p))),
      unless_off (m_remove p) (md_phase F p (\<lambda>d. make_items F p rank True False (root_of p rank it 3 d) (\<lambda>s. 0))
        (set_stat DirRemove (\<lambda>s. m_items p)))]"

definition read_files :: "'k mdfs \<Rightarrow> md_params \<Rightarrow> nat \<Rightarrow> path \<Rightarrow> string \<Rightarrow> 'k rank_step" where
  "read_files F p rank root base s = do {
     (m, e) \<leftarrow> read_phase F p rank root base (mds_of s, 0);
     Some ((put_mds m s)\<lparr>verr := verr s + e\<rparr>, True)
   }"

text \<open>From the second directory iteration on the files start where the last one ended.\<close>

definition file_creation :: "'k mdfs \<Rightarrow> md_params \<Rightarrow> nat \<Rightarrow> nat \<Rightarrow> nat list \<Rightarrow> 'k rank_step" where
  "file_creation F p rank it ds = steps (map (\<lambda>d. make_items F p rank False True (root_of p rank it 0 d)
     (\<lambda>s. if d = 0 then 0 else g_done (prog s))) ds)"

text \<open>The files are created with the stonewall timer.\<close>

definition file_phases :: "'k mdfs \<Rightarrow> md_params \<Rightarrow> nat \<Rightarrow> nat \<Rightarrow> nat list option \<Rightarrow> 'k rank_step" where
  "file_phases F p rank it order = steps
     [unless_off (m_create p) (steps
        [phase_prepare p, go (\<lambda>s. s\<lparr>prog := (prog s)\<lparr>g_timer := m_stonewall p\<rparr>\<rparr>),
         file_creation F p rank it [0..<m_loops p],
         go (\<lambda>s. s\<lparr>prog := (prog s)\<lparr>g_timer := 0\<rparr>\<rparr>), phase_end F p,
         set_stat FileCreate (\<lambda>s. min (g_done (prog s)) (m_items p))]),
      unless_off (m_stat p) (md_phase F p (\<lambda>d. on_mds (stat_phase F p rank order False (root_of p rank it 1 d) (base_of p rank 1)))
        (set_stat FileStat (\<lambda>s. m_items p))),
      unless_off (m_read p) (md_phase F p (\<lambda>d. read_files F p rank (root_of p rank it 2 d) (base_of p rank 2))
        (set_stat FileRead (\<lambda>s. m_items p))),
      unless_off (m_remove p) (md_phase F p (\<lambda>d. make_items F p rank False False (root_of p rank it 3 d) (\<lambda>s. 0))
        (set_stat FileRemove (\<lambda>s. m_items p)))]"

definition fresh_progress :: "md_params \<Rightarrow> progress" where
  "fresh_progress p = \<lparr>g_start = 0, g_done = 0, g_per_dir = m_per_dir p, g_timer = 0\<rparr>"

definition rank_iteration :: "'k mdfs \<Rightarrow> md_params \<Rightarrow> nat \<Rightarrow> nat list option \<Rightarrow> nat \<Rightarrow> 'k rank_step" where
  "rank_iteration F p rank order it = steps
     [go (\<lambda>s. s\<lparr>res := replicate (length OPS) 0, prog := fresh_progress p\<rparr>),
      unless_off (m_create p) (tree_phase F p rank it),
      unless_off (m_dirs p) (dir_phases F p rank it order),
      unless_off (m_files p) (file_phases F p rank it order),
      wait_all,
      unless_off (m_remove p) (untree_phase F p rank it)]"

definition rand_order :: "md_params \<Rightarrow> nat \<Rightarrow> nat list option" where
  "rand_order p rank = (if m_random p then Some (shuffled (m_items p) (of_nat (m_seed p + rank))) else None)"

text \<open>A whole run of a rank: the results of all iterations, the final state, and whether it got through.\<close>

fun rank_loop :: "'k mdfs \<Rightarrow> md_params \<Rightarrow> nat \<Rightarrow> nat list \<Rightarrow> 'k rank_state \<Rightarrow> nat list list \<Rightarrow>
    ('k rank_state \<times> nat list list \<times> bool) option" where
  "rank_loop F p rank [] s out = Some (s, out, True)"
| "rank_loop F p rank (it # its) s out = do {
     (s, ok) \<leftarrow> rank_iteration F p rank (rand_order p rank) it s;
     if ok then rank_loop F p rank its s (out @ [res s]) else Some (s, out, False)
   }"

definition run_rank :: "'k mdfs \<Rightarrow> md_params \<Rightarrow> nat \<Rightarrow> 'k \<Rightarrow> ('k rank_state \<times> nat list list \<times> bool) option" where
  "run_rank F p rank k =
     rank_loop F p rank [0..<m_iterations p]
       \<lparr>mkern = k, warned = [], barriers = 0, prog = fresh_progress p, res = [], verr = 0\<rparr> []"

text \<open>The verdict over the verification errors of all ranks.\<close>

definition md_status :: "nat list \<Rightarrow> string" where
  "md_status errs = (if 0 < sum_list errs then ''failed'' else ''ok'')"

end
