(* ===== verification/Mdtest_Tree.thy ===== *)
theory Mdtest_Tree
  imports Mdtest_Rank "HOL-Library.Multiset"
begin

text \<open>
  The numbering of the tree of mdtest: the directories that the recursion visits, the numbers of the
  items in them, and the path that the other phases compute from a number alone.
\<close>

section \<open>The items that the recursion visits\<close>

text \<open>A directory with its number, for each directory whose items are processed.\<close>

fun level_dirs :: "nat \<Rightarrow> nat \<Rightarrow> bool \<Rightarrow> path \<Rightarrow> nat \<Rightarrow> (path \<times> nat) list" where
  "level_dirs 0 b leaf dir dir_num = []"
| "level_dirs (Suc rem) b leaf dir dir_num =
     concat (map (\<lambda>i.
       let sub = dir @ [tree_dir ''mdtest_tree'' (dir_num + i)]
       in (if \<not> leaf \<or> rem = 0 then [(sub, dir_num + i)] else [])
          @ level_dirs rem b leaf sub ((dir_num + i) * b + 1)) [0..<b])"

definition item_dirs :: "md_params \<Rightarrow> path \<Rightarrow> (path \<times> nat) list" where
  "item_dirs p root =
     (if \<not> m_leaf p \<or> m_depth p = 0 then [(root, 0)] else [])
     @ level_dirs (m_depth p) (m_branch p) (m_leaf p) root 1"

definition dir_items :: "nat \<Rightarrow> path \<times> nat \<Rightarrow> (path \<times> nat) list" where
  "dir_items per d = map (\<lambda>j. (fst d, snd d * per + j)) [0..<per]"

definition visited_items :: "md_params \<Rightarrow> path \<Rightarrow> (path \<times> nat) list" where
  "visited_items p root = concat (map (dir_items (m_per_dir p)) (item_dirs p root))"

abbreviation process_item ::
  "'k mdfs \<Rightarrow> md_params \<Rightarrow> nat \<Rightarrow> bool \<Rightarrow> bool \<Rightarrow> path \<times> nat \<Rightarrow> 'k mds \<Rightarrow> 'k mds" where
  "process_item F p rank dirs create x s \<equiv> item_op F p rank dirs create (fst x) (snd x) s"

text \<open>Without a timer, creation and removal process the visited items in their order.\<close>

definition untimed :: "md_params \<Rightarrow> progress \<Rightarrow> bool" where
  "untimed p g \<longleftrightarrow> g_timer g = 0 \<and> g_start g = 0 \<and> g_per_dir g = m_per_dir p"

lemma item_loop_fold:
  assumes "untimed p g"
  shows "item_loop F p rank dirs create dir start i (g, s) =
    (g\<lparr>g_done := m_per_dir p\<rparr>, fold (\<lambda>j. item_op F p rank dirs create dir (start + j)) [i..<m_per_dir p] s)"
  using assms
proof (induction "m_per_dir p - i" arbitrary: i g s)
  case 0
  then show ?case by (subst item_loop.simps) (simp add: untimed_def)
next
  case (Suc n)
  then have i: "i < m_per_dir p" by simp
  let ?g = "g\<lparr>g_done := i + 1\<rparr>" and ?s = "item_op F p rank dirs create dir (start + i) s"
  have u: "untimed p ?g" using Suc.prems by (simp add: untimed_def)
  have "item_loop F p rank dirs create dir start i (g, s) = item_loop F p rank dirs create dir start (i + 1) (?g, ?s)"
    using i Suc.prems by (subst item_loop.simps) (simp add: untimed_def)
  also have "\<dots> = (g\<lparr>g_done := m_per_dir p\<rparr>, fold (\<lambda>j. item_op F p rank dirs create dir (start + j)) [i + 1..<m_per_dir p] ?s)"
    using Suc.hyps(1)[OF _ u] Suc.hyps(2) by simp
  finally show ?case using i by (simp add: upt_rec[of i])
qed

lemma item_range_fold:
  assumes "untimed p g"
  shows "item_range F p rank dirs create dir (E * m_per_dir p) (g, s) =
    (g\<lparr>g_done := m_per_dir p\<rparr>, fold (process_item F p rank dirs create) (dir_items (m_per_dir p) (dir, E)) s)"
  using item_loop_fold[OF assms, of F rank dirs create dir "E * m_per_dir p" 0 s] assms
  by (simp add: item_range_def dir_items_def fold_map o_def untimed_def)

text \<open>The state is the fold over the items, and the progress is that of a full directory.\<close>

definition processes ::
  "'k mdfs \<Rightarrow> md_params \<Rightarrow> nat \<Rightarrow> bool \<Rightarrow> bool \<Rightarrow> (path \<times> nat) list \<Rightarrow> (progress \<times> 'k mds \<Rightarrow> progress \<times> 'k mds) \<Rightarrow> bool" where
  "processes F p rank dirs create xs f \<longleftrightarrow>
     (\<forall>g s. untimed p g \<longrightarrow> f (g, s) =
        (if xs = [] then g else g\<lparr>g_done := m_per_dir p\<rparr>,
         fold (process_item F p rank dirs create) (concat (map (dir_items (m_per_dir p)) xs)) s))"

lemma processes_range: "processes F p rank dirs create [(dir, E)]
    (\<lambda>gs. item_range F p rank dirs create dir (E * g_per_dir (fst gs)) gs)"
  unfolding processes_def
proof (intro allI impI)
  fix g and s :: "'a mds"
  assume u: "untimed p g"
  then have "g_per_dir g = m_per_dir p" by (simp add: untimed_def)
  with u show "item_range F p rank dirs create dir (E * g_per_dir (fst (g, s))) (g, s) =
      (if [(dir, E)] = [] then g else g\<lparr>g_done := m_per_dir p\<rparr>,
       fold (process_item F p rank dirs create) (concat (map (dir_items (m_per_dir p)) [(dir, E)])) s)"
    by (simp add: item_range_fold)
qed

lemma processes_id: "processes F p rank dirs create [] (\<lambda>gs. gs)"
  by (simp add: processes_def)

lemma processes_comp:
  assumes "processes F p rank dirs create xs f" "processes F p rank dirs create ys h"
  shows "processes F p rank dirs create (xs @ ys) (\<lambda>gs. h (f gs))"
  unfolding processes_def
proof (intro allI impI)
  fix g and s :: "'a mds"
  assume u: "untimed p g"
  define g1 where "g1 = (if xs = [] then g else g\<lparr>g_done := m_per_dir p\<rparr>)"
  have "untimed p g1" using u by (simp add: untimed_def g1_def)
  with assms u show "h (f (g, s)) = (if xs @ ys = [] then g else g\<lparr>g_done := m_per_dir p\<rparr>,
      fold (process_item F p rank dirs create) (concat (map (dir_items (m_per_dir p)) (xs @ ys))) s)"
    by (simp add: processes_def g1_def[symmetric]) (simp add: g1_def)
qed

lemma processes_fold:
  assumes "\<And>i. processes F p rank dirs create (xs i) (f i)"
  shows "processes F p rank dirs create (concat (map xs js)) (fold f js)"
proof (induction js)
  case Nil
  then show ?case by (simp add: processes_def)
next
  case (Cons i js)
  have "processes F p rank dirs create (xs i @ concat (map xs js)) (\<lambda>gs. fold f js (f i gs))"
    by (rule processes_comp[OF assms Cons.IH])
  then show ?case by (simp add: comp_def)
qed

lemma processes_level:
  "processes F p rank dirs create (level_dirs rem (m_branch p) (m_leaf p) dir dir_num)
     (level_items rem F p rank dirs create dir dir_num)"
proof (induction rem arbitrary: dir dir_num)
  case 0
  show ?case by (simp add: processes_def)
next
  case (Suc rem)
  let ?sub = "\<lambda>i. dir @ [tree_dir ''mdtest_tree'' (dir_num + i)]"
  have one: "processes F p rank dirs create
      ((if \<not> m_leaf p \<or> rem = 0 then [(?sub i, dir_num + i)] else [])
        @ level_dirs rem (m_branch p) (m_leaf p) (?sub i) ((dir_num + i) * m_branch p + 1))
      (\<lambda>gs. level_items rem F p rank dirs create (?sub i) ((dir_num + i) * m_branch p + 1)
         (if \<not> m_leaf p \<or> rem = 0
          then item_range F p rank dirs create (?sub i) ((dir_num + i) * g_per_dir (fst gs)) gs else gs))" for i
  proof (cases "\<not> m_leaf p \<or> rem = 0")
    case True
    then show ?thesis
      using processes_comp[OF processes_range Suc.IH, of "?sub i" "dir_num + i" "?sub i" "(dir_num + i) * m_branch p + 1"]
      by (simp only: if_True)
  next
    case False
    then show ?thesis
      using processes_comp[OF processes_id Suc.IH, of "?sub i" "(dir_num + i) * m_branch p + 1"] by (simp only: if_False)
  qed
  show ?case
    using processes_fold[OF one, where js = "[0..<m_branch p]"] by (simp add: Let_def)
qed

lemma create_remove_visits:
  "processes F p rank dirs create (item_dirs p root) (create_remove_items F p rank dirs create root)"
proof -
  have top: "processes F p rank dirs create (if \<not> m_leaf p \<or> m_depth p = 0 then [(root, 0)] else [])
      (\<lambda>gs. if \<not> m_leaf p \<or> m_depth p = 0 then item_range F p rank dirs create root 0 gs else gs)"
    using processes_range[of F p rank dirs create root 0] processes_id[of F p rank dirs create] by simp
  have "level_dirs (m_depth p) (m_branch p) (m_leaf p) root 1 = []" if "m_depth p = 0" using that by simp
  then have below: "processes F p rank dirs create (level_dirs (m_depth p) (m_branch p) (m_leaf p) root 1)
      (\<lambda>gs. if 0 < m_depth p then level_items (m_depth p) F p rank dirs create root 1 gs else gs)"
    using processes_level[of F p rank dirs create "m_depth p" root 1] processes_id[of F p rank dirs create]
    by (cases "m_depth p = 0") simp_all
  show ?thesis
    using processes_comp[OF top below] unfolding item_dirs_def create_remove_items_def Let_def .
qed

text \<open>With a start past the last item of a directory nothing is processed.\<close>

definition spent :: "progress \<Rightarrow> bool" where
  "spent g \<longleftrightarrow> g_per_dir g \<le> g_start g \<and> g_done g = g_per_dir g"

lemma spent_range: "spent g \<Longrightarrow> item_range F p rank dirs create dir start (g, s) = (g, s)"
  by (simp add: item_range_def item_loop.simps spent_def)

lemma spent_level: "spent g \<Longrightarrow> level_items rem F p rank dirs create dir dir_num (g, s) = (g, s)"
proof (induction rem arbitrary: dir dir_num)
  case (Suc rem)
  have keep: "fold f xs (g, s) = (g, s)" if "\<And>i. f i (g, s) = (g, s)" for f :: "nat \<Rightarrow> progress \<times> 'a mds \<Rightarrow> progress \<times> 'a mds" and xs
    using that by (induction xs) simp_all
  show ?case by (simp only: level_items.simps) (rule keep, simp add: Let_def Suc spent_range)
qed simp

lemma spent_items: "spent g \<Longrightarrow> create_remove_items F p rank dirs create root (g, s) = (g, s)"
  by (cases "\<not> m_leaf p \<or> m_depth p = 0") (simp_all add: create_remove_items_def spent_range spent_level Let_def)

section \<open>The numbers\<close>

text \<open>The first number of a level of the tree.\<close>

fun level_start :: "nat \<Rightarrow> nat \<Rightarrow> nat" where
  "level_start b 0 = 0"
| "level_start b (Suc k) = b * level_start b k + 1"

lemma level_start_Suc: "level_start b (Suc k) = level_start b k + b ^ k"
  by (induction k) (simp_all add: algebra_simps)

lemma level_start_mono: "k \<le> l \<Longrightarrow> level_start b k \<le> level_start b l"
  by (rule lift_Suc_mono_le[of "level_start b"]) (simp_all only: level_start_Suc le_add1)

text \<open>The directories \<open>j\<close> levels below directory \<open>D\<close>.\<close>

definition below :: "nat \<Rightarrow> nat \<Rightarrow> nat \<Rightarrow> nat set" where
  "below b D j = {b ^ j * D + level_start b j ..< b ^ j * D + level_start b j + b ^ j}"

lemma consecutive: "(\<Union>i<n. {x + c * i ..< x + c * i + c}) = {x ..< x + c * (n::nat)}"
proof (induction n)
  case (Suc n)
  have "(\<Union>i<Suc n. {x + c * i ..< x + c * i + c}) = {x ..< x + c * n} \<union> {x + c * n ..< x + c * n + c}"
    using Suc by (simp add: lessThan_Suc Un_commute)
  then show ?case by auto
qed simp

lemma below_Suc: "below b D (Suc j) = (\<Union>i<b. below b (b * D + 1 + i) j)"
proof -
  have "below b (b * D + 1 + i) j =
      {b ^ Suc j * D + level_start b (Suc j) + b ^ j * i ..< b ^ Suc j * D + level_start b (Suc j) + b ^ j * i + b ^ j}" for i
    unfolding below_def level_start_Suc by (simp add: algebra_simps)
  then have "(\<Union>i<b. below b (b * D + 1 + i) j) =
      {b ^ Suc j * D + level_start b (Suc j) ..< b ^ Suc j * D + level_start b (Suc j) + b ^ j * b}"
    using consecutive[of "b ^ Suc j * D + level_start b (Suc j)" "b ^ j" b] by simp
  then show ?thesis unfolding below_def by (simp add: mult.commute)
qed

lemma below_0: "below b D 0 = {D}"
  by (auto simp: below_def)

text \<open>Which of the levels 1 to \<open>rem\<close> are visited.\<close>

definition shown :: "bool \<Rightarrow> nat \<Rightarrow> nat \<Rightarrow> bool" where
  "shown leaf rem j \<longleftrightarrow> 1 \<le> j \<and> j \<le> rem \<and> (leaf \<longrightarrow> j = rem)"

lemma level_numbers:
  "snd ` set (level_dirs rem b leaf dir (b * D + 1)) = \<Union> (below b D ` {j. shown leaf rem j})"
proof (induction rem arbitrary: dir D)
  case 0
  then show ?case by (simp add: shown_def)
next
  case (Suc rem)
  let ?C = "\<lambda>i. b * D + 1 + i"
  let ?sub = "\<lambda>i. dir @ [tree_dir ''mdtest_tree'' (?C i)]"
  have IH: "snd ` set (level_dirs rem b leaf (?sub i) (?C i * b + 1)) = \<Union> (below b (?C i) ` {j. shown leaf rem j})" for i
    using Suc.IH[of "?sub i" "?C i"] by (simp only: mult.commute)
  have "snd ` set (level_dirs (Suc rem) b leaf dir (b * D + 1)) =
      (\<Union>i<b. (if \<not> leaf \<or> rem = 0 then {?C i} else {}) \<union> \<Union> (below b (?C i) ` {j. shown leaf rem j}))"
  proof -
    have one: "snd ` set ((if \<not> leaf \<or> rem = 0 then [(?sub i, ?C i)] else []) @ level_dirs rem b leaf (?sub i) (?C i * b + 1)) =
        (if \<not> leaf \<or> rem = 0 then {?C i} else {}) \<union> \<Union> (below b (?C i) ` {j. shown leaf rem j})" for i
      unfolding set_append image_Un IH by simp
    show ?thesis
      unfolding level_dirs.simps Let_def set_concat set_map image_UN set_upt image_image one lessThan_atLeast0 ..
  qed
  also have "\<dots> = (\<Union>i<b. \<Union> (below b (?C i) ` {j. shown leaf (Suc rem) (Suc j)}))"
  proof -
    have "{j. shown leaf (Suc rem) (Suc j)} = (if \<not> leaf \<or> rem = 0 then {0} else {}) \<union> {j. shown leaf rem j}"
      by (auto simp: shown_def)
    then show ?thesis by (auto simp: below_0)
  qed
  also have "\<dots> = (\<Union>j \<in> {j. shown leaf (Suc rem) (Suc j)}. \<Union>i<b. below b (?C i) j)" by blast
  also have "\<dots> = (\<Union>j \<in> {j. shown leaf (Suc rem) (Suc j)}. below b D (Suc j))" by (simp only: below_Suc)
  also have "\<dots> = \<Union> (below b D ` {j. shown leaf (Suc rem) j})"
  proof -
    have "{j. shown leaf (Suc rem) j} = Suc ` {j. shown leaf (Suc rem) (Suc j)}"
    proof (rule set_eqI)
      show "j \<in> {j. shown leaf (Suc rem) j} \<longleftrightarrow> j \<in> Suc ` {j. shown leaf (Suc rem) (Suc j)}" for j
        by (cases j) (simp_all add: inj_image_mem_iff shown_def)
    qed
    then show ?thesis by (simp only: image_image)
  qed
  finally show ?case .
qed

lemma level_length: "\<not> leaf \<Longrightarrow> length (level_dirs rem b leaf dir n) + 1 = level_start b (Suc rem)"
  and level_length_leaf: "length (level_dirs rem b True dir n) = (if rem = 0 then 0 else b ^ rem)"
proof -
  have A: "length (level_dirs rem b False dir n) + 1 = level_start b (Suc rem)"
  proof (induction rem arbitrary: dir n)
    case (Suc rem)
    have "length (level_dirs (Suc rem) b False dir n) = (\<Sum>i\<leftarrow>[0..<b]. level_start b (Suc rem))"
      using Suc by (simp add: length_concat Let_def comp_def)
    then show ?case by (simp add: sum_list_triv)
  qed simp
  then show "\<not> leaf \<Longrightarrow> length (level_dirs rem b leaf dir n) + 1 = level_start b (Suc rem)" by simp
  show "length (level_dirs rem b True dir n) = (if rem = 0 then 0 else b ^ rem)"
  proof (induction rem arbitrary: dir n)
    case (Suc rem)
    have "length (level_dirs (Suc rem) b True dir n) = (\<Sum>i\<leftarrow>[0..<b]. b ^ rem)"
      using Suc by (simp add: length_concat Let_def comp_def)
    then show ?case by (simp add: sum_list_triv)
  qed simp
qed

section \<open>The paths\<close>

lemma ancestors_child:
  assumes "i < b"
  shows "ancestors b (b * D + 1 + i) =
    (if D = 0 then Some [b * D + 1 + i] else map_option (\<lambda>l. l @ [b * D + 1 + i]) (ancestors b D))"
proof -
  have div: "(b * D + 1 + i - 1) div b = D" using assms by simp
  show ?thesis
  proof (cases "D = 0")
    case True
    with assms show ?thesis by (subst ancestors.simps) simp
  next
    case False
    then have "b * 1 \<le> b * D" by (intro mult_le_mono2) simp
    then have "\<not> b * D + 1 + i \<le> b" by linarith
    with False assms show ?thesis unfolding ancestors.simps[of b "b * D + 1 + i"] div by simp
  qed
qed

text \<open>The path of a directory as the tree and as the numbers give it.\<close>

definition dir_path :: "nat \<Rightarrow> nat \<Rightarrow> path \<Rightarrow> path \<Rightarrow> bool" where
  "dir_path b E root d \<longleftrightarrow>
     (if E = 0 then d = root
      else \<exists>l. ancestors b E = Some l \<and> d = root @ map (tree_dir ''mdtest_tree'') l)"

lemma dir_path_child:
  assumes "dir_path b D root dir" "i < b"
  shows "dir_path b (b * D + 1 + i) root (dir @ [tree_dir ''mdtest_tree'' (b * D + 1 + i)])"
  using assms(1) unfolding dir_path_def ancestors_child[OF assms(2)] by (auto split: if_splits)

lemma level_paths:
  "dir_path b D root dir \<Longrightarrow> (d, E) \<in> set (level_dirs rem b leaf dir (b * D + 1)) \<Longrightarrow> dir_path b E root d"
proof (induction rem arbitrary: dir D)
  case (Suc rem)
  let ?C = "\<lambda>i. b * D + 1 + i"
  let ?sub = "\<lambda>i. dir @ [tree_dir ''mdtest_tree'' (?C i)]"
  obtain i where i: "i < b" and m: "(d, E) \<in> set ((if \<not> leaf \<or> rem = 0 then [(?sub i, ?C i)] else [])
      @ level_dirs rem b leaf (?sub i) (?C i * b + 1))"
    using Suc.prems(2) unfolding level_dirs.simps Let_def set_concat set_map set_upt by auto
  have c: "dir_path b (?C i) root (?sub i)" using dir_path_child[OF Suc.prems(1) i] .
  show ?case
  proof (cases "(d, E) = (?sub i, ?C i)")
    case True
    with c show ?thesis by simp
  next
    case False
    with m have "(d, E) \<in> set (level_dirs rem b leaf (?sub i) (b * ?C i + 1))"
      unfolding mult.commute[of b] by (auto split: if_splits)
    with Suc.IH[OF c] show ?thesis by blast
  qed
qed simp

lemma item_dirs_paths: "(d, E) \<in> set (item_dirs p root) \<Longrightarrow> dir_path (m_branch p) E root d"
  using level_paths[of "m_branch p" 0 root root d E "m_depth p" "m_leaf p"]
  by (auto simp: item_dirs_def dir_path_def split: if_splits)

lemma visited_path:
  assumes "(d, n) \<in> set (visited_items p root)" "base_tree_name p target = ''mdtest_tree''"
  shows "map_option ((@) root) (item_path p (base_tree_name p target) dirs prefix n) = Some (d @ [item_name dirs prefix n])"
proof -
  obtain E j where E: "(d, E) \<in> set (item_dirs p root)" "n = E * m_per_dir p + j" "j < m_per_dir p"
    using assms(1) by (auto simp: visited_items_def dir_items_def)
  have div: "n div m_per_dir p = E" using E by simp
  show ?thesis using item_dirs_paths[OF E(1)] E(3) unfolding item_path_def Let_def div assms(2) dir_path_def
    by (auto split: if_splits)
qed

section \<open>Every item once\<close>

lemma below_root: "below b 0 j = {level_start b j ..< level_start b (Suc j)}"
  unfolding below_def level_start_Suc by simp

lemma levels_up_to: "\<Union> (below b 0 ` {j. 1 \<le> j \<and> j \<le> k}) = {1 ..< level_start b (Suc k)}"
proof (induction k)
  case 0
  have "{j::nat. 1 \<le> j \<and> j \<le> 0} = {}" by auto
  then show ?case by simp
next
  case (Suc k)
  have *: "{j. 1 \<le> j \<and> j \<le> Suc k} = insert (Suc k) {j. 1 \<le> j \<and> j \<le> k}" by auto
  have "\<Union> (below b 0 ` {j. 1 \<le> j \<and> j \<le> Suc k}) = {level_start b (Suc k) ..< level_start b (Suc (Suc k))}
      \<union> {1 ..< level_start b (Suc k)}" unfolding * image_insert Union_insert Suc.IH below_root ..
  also have "\<dots> = {1 ..< level_start b (Suc (Suc k))}"
  proof -
    have "1 \<le> level_start b (Suc k)" by simp
    then show ?thesis using level_start_mono[of "Suc k" "Suc (Suc k)" b] by (auto simp del: level_start.simps(2))
  qed
  finally show ?case .
qed

definition first_dir :: "md_params \<Rightarrow> nat" where
  "first_dir p = (if m_leaf p then level_start (m_branch p) (m_depth p) else 0)"

lemma item_dir_numbers:
  "snd ` set (item_dirs p root) = {first_dir p ..< level_start (m_branch p) (Suc (m_depth p))}"
proof -
  let ?b = "m_branch p" and ?d = "m_depth p"
  have l: "snd ` set (level_dirs ?d ?b (m_leaf p) root 1) = \<Union> (below ?b 0 ` {j. shown (m_leaf p) ?d j})"
    using level_numbers[of ?d ?b "m_leaf p" root 0] by simp
  consider "?d = 0" | "\<not> m_leaf p" | "m_leaf p" "0 < ?d" by auto
  then show ?thesis
  proof cases
    case 1
    then show ?thesis by (auto simp: item_dirs_def first_dir_def)
  next
    case 2
    then have "{j. shown (m_leaf p) ?d j} = {j. 1 \<le> j \<and> j \<le> ?d}" by (auto simp: shown_def)
    then have "snd ` set (level_dirs ?d ?b (m_leaf p) root 1) = {1 ..< level_start ?b (Suc ?d)}"
      unfolding l by (simp only: levels_up_to)
    moreover have "1 \<le> level_start ?b (Suc ?d)" by simp
    ultimately show ?thesis using 2 unfolding item_dirs_def first_dir_def set_append image_Un by auto
  next
    case 3
    then have "{j. shown (m_leaf p) ?d j} = {?d}" by (auto simp: shown_def)
    with 3 l show ?thesis unfolding item_dirs_def first_dir_def by (simp add: below_root)
  qed
qed

lemma length_item_dirs: "length (item_dirs p root) = level_start (m_branch p) (Suc (m_depth p)) - first_dir p"
proof -
  consider "m_depth p = 0" | "\<not> m_leaf p" | "m_leaf p" "0 < m_depth p" by auto
  then show ?thesis
  proof cases
    case 2
    then show ?thesis using level_length[of False "m_depth p" "m_branch p" root 1]
      by (simp add: item_dirs_def first_dir_def)
  next
    case 3
    then show ?thesis by (simp add: item_dirs_def first_dir_def level_length_leaf level_start_Suc del: level_start.simps)
  qed (simp add: item_dirs_def first_dir_def)
qed

lemma distinct_item_dirs: "distinct (map snd (item_dirs p root))"
  by (rule card_distinct) (simp add: item_dir_numbers length_item_dirs del: level_start.simps)

lemma first_dir_le: "first_dir p \<le> level_start (m_branch p) (Suc (m_depth p))"
  using level_start_mono[of "m_depth p" "Suc (m_depth p)" "m_branch p"] by (simp add: first_dir_def del: level_start.simps)

definition item_numbers :: "md_params \<Rightarrow> nat list" where
  "item_numbers p = [first_dir p * m_per_dir p ..< level_start (m_branch p) (Suc (m_depth p)) * m_per_dir p]"

lemma visited_numbers: "mset (map snd (visited_items p root)) = mset (item_numbers p)"
proof -
  let ?per = "m_per_dir p" and ?D = "map snd (item_dirs p root)"
  let ?block = "\<lambda>E. [E * ?per ..< E * ?per + ?per]"
  have sn: "map snd (dir_items ?per x) = ?block (snd x)" for x
    by (simp add: dir_items_def comp_def map_add_upt add.commute)
  have "map snd (visited_items p root) = concat (map ?block ?D)"
    by (simp add: visited_items_def map_concat comp_def sn)
  moreover have "mset (concat (map ?block ?D)) = (\<Sum>E \<in># mset ?D. mset (?block E))"
    by (simp only: mset_concat map_map mset_map[symmetric] sum_mset_sum_list comp_def)
  moreover have "mset ?D = mset [first_dir p ..< level_start (m_branch p) (Suc (m_depth p))]"
    using distinct_item_dirs item_dir_numbers by (subst set_eq_iff_mset_eq_distinct[symmetric]) (simp_all del: level_start.simps)
  moreover have "(\<Sum>E \<in># mset [a ..< c]. mset (?block E)) = mset [a * ?per ..< c * ?per]" if "a \<le> c" for a c
    using that
  proof (induction c)
    case (Suc c)
    show ?case
    proof (cases "a = Suc c")
      case False
      with Suc have "(\<Sum>E \<in># mset [a ..< c]. mset (?block E)) = mset [a * ?per ..< c * ?per]" "a \<le> c" by simp_all
      moreover have "[a * ?per ..< Suc c * ?per] = [a * ?per ..< c * ?per] @ ?block c"
        using \<open>a \<le> c\<close> upt_add_eq_append[of "a * ?per" "c * ?per" ?per] by (simp add: add.commute)
      ultimately show ?thesis by (simp add: add.commute)
    qed simp
  qed simp
  moreover note first_dir_le[of p]
  ultimately show ?thesis by (simp add: item_numbers_def del: level_start.simps)
qed

end
