(* ===== verification/Mdtest_Properties.thy ===== *)
theory Mdtest_Properties
  imports Mdtest_Tree
begin

text \<open>
  The properties of mdtest: the phases agree on the items and their paths, the verification of contents
  is exact, the random order is a permutation, a chain of renames keeps the names, and two
  configurations that create less than they report.
\<close>

section \<open>The tree and the numbers agree\<close>

lemma geometric: "1 \<le> b \<Longrightarrow> (b - 1) * level_start b k = b ^ k - 1"
proof (induction k)
  case (Suc k)
  have "(b - 1) * level_start b (Suc k) = (b - 1) * level_start b k + (b - 1) * b ^ k"
    by (simp only: level_start_Suc add_mult_distrib2)
  also have "\<dots> = b ^ k - 1 + (b * b ^ k - b ^ k)" using Suc by (simp add: diff_mult_distrib)
  also have "\<dots> = b ^ Suc k - 1" using Suc.prems by (simp add: mult_le_mono1[of 1 b "b ^ k", simplified])
  finally show ?case .
qed simp

lemma level_start_1: "level_start 1 k = k"
  by (induction k) simp_all

lemma dirs_in_tree_start:
  assumes "dirs_in_tree b d = Some n" "0 \<le> d" "b < 1 \<Longrightarrow> d \<le> 0"
  shows "n = level_start b (Suc (nat d))"
proof -
  consider "d = 0" | "0 < d" "b = 1" | "0 < d" "1 < b" using assms(2,3) by linarith
  then show ?thesis
  proof cases
    case 1
    then have "n = 1" using assms(1) by (simp add: dirs_in_tree_def)
    with 1 show ?thesis by simp
  next
    case 2
    with assms(1) show ?thesis by (simp add: dirs_in_tree_def level_start_1[unfolded One_nat_def] del: level_start.simps)
  next
    case 3
    then have "n = (b ^ (nat d + 1) - 1) div (b - 1)"
      using assms(1) by (auto simp: dirs_in_tree_def pow32_def split: if_splits)
    also have "\<dots> = level_start b (nat d + 1)"
      using geometric[of b "nat d + 1", symmetric] 3(2) by (simp only: nonzero_mult_div_cancel_left)
    finally show ?thesis by simp
  qed
qed

lemma args_accepted: "args_error a c r = None \<Longrightarrow> 0 \<le> a_depth a \<and> (a_branch a < 1 \<longrightarrow> a_depth a \<le> 0)"
  unfolding args_error_def by (auto split: if_splits)

text \<open>What a run without both item counts resolves to.\<close>

lemma resolved:
  assumes "md_resolve now a = Some (Inr p)" "\<not> (0 < a_items a \<and> 0 < a_per_dir a)"
  shows "0 < m_per_dir p" "stop_items p = m_items p"
    "leaf_offset p = Some (first_dir p * m_per_dir p)"
    "m_items p = level_start (m_branch p) (Suc (m_depth p)) * m_per_dir p - first_dir p * m_per_dir p"
proof -
  let ?b = "a_branch a" and ?d = "nat (a_depth a)"
  obtain nd items per c r where ok: "args_error a c r = None" "dirs_in_tree ?b (a_depth a) = Some nd"
      "item_counts a nd = Some (items, per)" "per \<noteq> 0"
    and p: "m_num_dirs p = nd" "m_per_dir p = per" "m_items p = items" "m_branch p = ?b" "m_depth p = ?d"
      "m_leaf p = a_leaf a" "m_loops p = 1"
    using assms by (fastforce simp: md_resolve_def Let_def bind_eq_Some_conv split: option.splits if_splits)
  have nd: "nd = level_start ?b (Suc ?d)" using dirs_in_tree_start[OF ok(2)] args_accepted[OF ok(1)] by blast
  have pow: "a_leaf a \<Longrightarrow> pow32 ?b ?d = Some (?b ^ ?d)"
    using ok(3) assms(2) by (auto simp: item_counts_def pow32_def split: if_splits)
  have items: "items = (if a_leaf a then ?b ^ ?d else nd) * per"
    using ok(3) assms(2) by (auto simp: item_counts_def pow32_def split: if_splits)
  show "0 < m_per_dir p" "stop_items p = m_items p" using p ok(4) by (simp_all add: stop_items_def)
  show "leaf_offset p = Some (first_dir p * m_per_dir p)"
    using pow by (simp add: leaf_offset_def p nd level_start_Suc first_dir_def del: level_start.simps)
  show "m_items p = level_start (m_branch p) (Suc (m_depth p)) * m_per_dir p - first_dir p * m_per_dir p"
    by (simp add: p items nd first_dir_def level_start_Suc add_mult_distrib del: level_start.simps)
qed

text \<open>The paths that the recursion processes, and those that a phase computes from the numbers.\<close>

definition made_paths :: "md_params \<Rightarrow> bool \<Rightarrow> string \<Rightarrow> path \<Rightarrow> path list" where
  "made_paths p dirs prefix root = map (\<lambda>(d, n). d @ [item_name dirs prefix n]) (visited_items p root)"

definition found_paths :: "md_params \<Rightarrow> bool \<Rightarrow> string \<Rightarrow> path \<Rightarrow> nat \<Rightarrow> path option list" where
  "found_paths p dirs prefix root target =
     (case leaf_offset p of
        None \<Rightarrow> []
      | Some offset \<Rightarrow>
          map (\<lambda>i. map_option ((@) root) (item_path p (base_tree_name p target) dirs prefix (i + offset)))
            [0..<stop_items p])"

text \<open>
  C16: In every accepted configuration of mdtest with a shared tree and one item count, creation and removal
  process each item once, in the order of the recursion, and the items that stat, read and rename reach
  by the path computed from an item's number are exactly these, as multisets, for any depth, branching
  factor and leaf-only mode.
\<close>

theorem phases_agree_on_items:
  assumes "md_resolve now a = Some (Inr p)" "\<not> (0 < a_items a \<and> 0 < a_per_dir a)" "\<not> m_unique p"
  shows "mset (map Some (made_paths p dirs prefix root)) = mset (found_paths p dirs prefix root target)
    \<and> (untimed p g \<longrightarrow> snd (create_remove_items F p rank dirs create root (g, s)) =
        fold (\<lambda>(d, n). item_op F p rank dirs create d n) (visited_items p root) s)"
proof
  note r = resolved[OF assms(1,2)]
  have base: "base_tree_name p target = ''mdtest_tree''" using assms(3) by (simp add: base_tree_name_def)
  let ?path = "\<lambda>n. map_option ((@) root) (item_path p (base_tree_name p target) dirs prefix n)"
  have "map Some (made_paths p dirs prefix root) = map ?path (map snd (visited_items p root))"
    unfolding made_paths_def map_map
  proof (rule map_cong[OF refl])
    fix x assume "x \<in> set (visited_items p root)"
    then have "?path (snd x) = Some (fst x @ [item_name dirs prefix (snd x)])" by (intro visited_path[OF _ base]) simp
    then show "(Some \<circ> (\<lambda>(d, n). d @ [item_name dirs prefix n])) x = (?path \<circ> snd) x"
      by (simp only: comp_def case_prod_beta)
  qed
  then have "mset (map Some (made_paths p dirs prefix root)) = image_mset ?path (mset (item_numbers p))"
    unfolding visited_numbers[of p root, symmetric] by (simp only: mset_map)
  also have "item_numbers p = map (\<lambda>i. i + first_dir p * m_per_dir p) [0..<m_items p]"
    using r(4) mult_le_mono1[OF first_dir_le[of p], of "m_per_dir p"]
    by (simp add: item_numbers_def map_add_upt del: level_start.simps)
  also have "image_mset ?path (mset \<dots>) = mset (found_paths p dirs prefix root target)"
    by (simp add: found_paths_def r(2,3) image_mset.compositionality comp_def)
  finally show "mset (map Some (made_paths p dirs prefix root)) = mset (found_paths p dirs prefix root target)" .
  show "untimed p g \<longrightarrow> snd (create_remove_items F p rank dirs create root (g, s)) =
      fold (\<lambda>(d, n). item_op F p rank dirs create d n) (visited_items p root) s"
    using create_remove_visits[of F p rank dirs create root]
    by (simp add: processes_def visited_items_def case_prod_unfold del: fold_simps)
qed

section \<open>The random order\<close>

lemma mset_shuffle_loop: "i \<le> length arr \<Longrightarrow> mset (shuffle_loop i state arr) = mset arr"
proof (induction i state arr rule: shuffle_loop.induct)
  case (1 i state arr)
  let ?st = "state * 6364136223846793005 + 1442695040888963407"
  let ?k = "unat (drop_bit 33 ?st) mod i"
  show ?case
  proof (cases "1 < i")
    case True
    then have "?k < i" by simp
    then have k: "?k < length arr" "i - 1 < length arr" using "1.prems" True by linarith+
    have "mset (shuffle_loop i state arr) = mset (shuffle_loop (i - 1) ?st (swap arr ?k (i - 1)))"
      using True by (subst shuffle_loop.simps) (simp add: Let_def)
    also have "\<dots> = mset (swap arr ?k (i - 1))"
      using "1.IH"[OF True refl refl] "1.prems" by (simp add: swap_def)
    also have "\<dots> = mset arr" using mset_swap[OF k(2,1)] by (simp add: swap_def)
    finally show ?thesis .
  next
    case False
    then show ?thesis by (subst shuffle_loop.simps) simp
  qed
qed

lemma shuffled_permutation: "mset (shuffled n seed) = mset [0..<n]" "length (shuffled n seed) = n"
proof -
  show "mset (shuffled n seed) = mset [0..<n]" unfolding shuffled_def by (rule mset_shuffle_loop) simp
  from mset_eq_length[OF this] show "length (shuffled n seed) = n" by simp
qed

text \<open>
  In random order the stat phase still visits every item: for every seed, the item numbers that it
  looks up are a permutation of those of the sequential order, and no index is out of range.
\<close>

theorem random_order_visits_all:
  "mset (map (stat_item p (rand_order p rank) offset) [0..<m_items p]) = mset (map (\<lambda>i. Some (i + offset)) [0..<m_items p])"
proof (cases "m_random p")
  case True
  define arr where "arr = shuffled (m_items p) (of_nat (m_seed p + rank))"
  have len: "length arr = m_items p" by (simp add: arr_def shuffled_permutation)
  have "map (stat_item p (rand_order p rank) offset) [0..<m_items p] = map (\<lambda>i. Some (arr ! i + offset)) [0..<m_items p]"
  proof (rule map_cong[OF refl])
    have "rand_order p rank = Some arr" by (simp add: rand_order_def arr_def True)
    then show "i \<in> set [0..<m_items p] \<Longrightarrow> stat_item p (rand_order p rank) offset i = Some (arr ! i + offset)" for i
      using len by (simp add: stat_item_def)
  qed
  also have "\<dots> = map (\<lambda>n. Some (n + offset)) arr" by (rule nth_equalityI) (simp_all add: len)
  finally show ?thesis using shuffled_permutation(1)[of "m_items p"] by (simp only: mset_map arr_def)
next
  case False
  then have "stat_item p (rand_order p rank) offset = (\<lambda>i. Some (i + offset))"
    by (simp add: fun_eq_iff stat_item_def rand_order_def)
  then show ?thesis by simp
qed

section \<open>The chain of renames\<close>

text \<open>What rename documents for names of a set whose directories exist: a name that exists moves to a free one.\<close>

definition renames_freely :: "'k mdfs \<Rightarrow> ('k \<Rightarrow> path \<Rightarrow> 'o option) \<Rightarrow> path set \<Rightarrow> bool" where
  "renames_freely F view N \<longleftrightarrow>
     (\<forall>k. \<forall>a \<in> N. \<forall>b \<in> N. view k a \<noteq> None \<and> view k b = None \<longrightarrow>
        snd (md_rename F k a b) \<and> view (fst (md_rename F k a b)) = (view k)(b := view k a, a := None))"

lemma each_item_append: "each_item f (xs @ ys) s = Option.bind (each_item f xs s) (each_item f ys)"
  by (induction xs arbitrary: s) (simp_all, metis Option.bind_assoc)

lemma each_item_cong:
  "(\<And>i st. i \<in> set xs \<Longrightarrow> f i st = g i st) \<Longrightarrow> each_item f xs s = each_item g xs s"
  by (induction xs arbitrary: s) (auto intro: Option.bind_cong)

text \<open>The names after \<open>i\<close> renames: item 0 is aside, every other one has its predecessor's name.\<close>

definition chained :: "(nat \<Rightarrow> path) \<Rightarrow> path \<Rightarrow> (path \<Rightarrow> 'o option) \<Rightarrow> nat \<Rightarrow> (path \<Rightarrow> 'o option) \<Rightarrow> bool" where
  "chained q aside v i v' \<longleftrightarrow>
     (\<forall>j. Suc j < i \<longrightarrow> v' (q j) = v (q (Suc j))) \<and> v' (q (i - 1)) = None \<and> v' aside = v (q 0)
     \<and> (\<forall>x. x \<noteq> aside \<longrightarrow> x \<notin> q ` {..<i} \<longrightarrow> v' x = v x)"

lemma chain_prefix:
  assumes law: "renames_freely F view N" and N: "suffixed (q 0) ''-XX'' \<in> N" "q ` {..<n} \<subseteq> N"
    and inj: "inj_on q {..<n}" "suffixed (q 0) ''-XX'' \<notin> q ` {..<n}"
    and ex: "\<And>j. j < n \<Longrightarrow> view (mkern s) (q j) \<noteq> None" "view (mkern s) (suffixed (q 0) ''-XX'') = None"
    and i: "0 < i" "i < n"
  shows "\<exists>k. each_item (\<lambda>i. rename_step F n i (q i)) [0..<i] (s, None, None) =
      Some (s\<lparr>mkern := k\<rparr>, Some (q (i - 1)), Some (suffixed (q 0) ''-XX''))
    \<and> chained q (suffixed (q 0) ''-XX'') (view (mkern s)) i (view k)"
  using i
proof (induction i)
  case (Suc i)
  let ?a = "suffixed (q 0) ''-XX''" and ?v = "view (mkern s)"
  show ?case
  proof (cases "i = 0")
    case True
    obtain k ok where r: "md_rename F (mkern s) (q 0) ?a = (k, ok)" by fastforce
    have "ok \<and> view k = ?v(?a := ?v (q 0), q 0 := None)"
      using law N ex(1)[of 0] ex(2) Suc.prems r unfolding renames_freely_def by (metis fst_conv imageI lessThan_iff less_trans snd_conv subsetD zero_less_Suc)
    then have "ok" "view k = ?v(?a := ?v (q 0), q 0 := None)" by simp_all
    moreover have "q 0 \<noteq> ?a" using inj(2) Suc.prems by (metis imageI lessThan_iff less_trans zero_less_Suc)
    ultimately show ?thesis using True Suc.prems r
      by (intro exI[of _ k]) (simp add: rename_step_def call_item_def warn_def chained_def)
  next
    case False
    with Suc obtain k where k: "each_item (\<lambda>i. rename_step F n i (q i)) [0..<i] (s, None, None) =
        Some (s\<lparr>mkern := k\<rparr>, Some (q (i - 1)), Some ?a)" "chained q ?a ?v i (view k)" by auto
    obtain k' ok where r: "md_rename F k (q i) (q (i - 1)) = (k', ok)" by fastforce
    have "q i \<notin> q ` {..<i}"
    proof
      assume "q i \<in> q ` {..<i}"
      then obtain x where "q i = q x" "x < i" by auto
      with inj_onD[OF inj(1), of i x] Suc.prems show False by simp
    qed
    moreover have "q i \<noteq> ?a" using inj(2) Suc.prems by (metis imageI lessThan_iff Suc_lessD)
    moreover note k(2)
    ultimately have qi: "view k (q i) = ?v (q i)" by (simp add: chained_def)
    have free: "view k (q (i - 1)) = None" using k(2) by (simp add: chained_def)
    have mem: "q i \<in> N" "q (i - 1) \<in> N" using N(2) Suc.prems by auto
    have ok: "ok" "view k' = (view k)(q (i - 1) := ?v (q i), q i := None)"
      using law mem qi free ex(1)[of i] Suc.prems(2) r unfolding renames_freely_def by (metis Suc_lessD fst_conv snd_conv)+
    have ne: "q j \<noteq> q l" if "j \<le> i" "l \<le> i" "j \<noteq> l" for j l
      using inj(1) that Suc.prems by (auto simp: inj_on_def)
    have "chained q ?a ?v (Suc i) (view k')"
      unfolding chained_def
    proof (intro conjI allI impI)
      fix j assume "Suc j < Suc i"
      then show "view k' (q j) = ?v (q (Suc j))"
        using ne[of j "i - 1"] ne[of j i] k(2) ok(2) False by (cases "j = i - 1") (auto simp: chained_def)
    next
      show "view k' (q (Suc i - 1)) = None" using ok(2) by simp
    next
      have "?a \<noteq> q i" "?a \<noteq> q (i - 1)" using inj(2) Suc.prems by auto
      then show "view k' ?a = ?v (q 0)" using k(2) ok(2) by (simp add: chained_def)
    next
      fix x assume x: "x \<noteq> ?a" "x \<notin> q ` {..<Suc i}"
      then have "x \<noteq> q i" "x \<noteq> q (i - 1)" "x \<notin> q ` {..<i}" using False by (auto simp: lessThan_Suc)
      then show "view k' x = ?v x" using k(2) ok(2) x(1) by (simp add: chained_def)
    qed
    moreover have "each_item (\<lambda>i. rename_step F n i (q i)) [0..<Suc i] (s, None, None) =
        Some (s\<lparr>mkern := k'\<rparr>, Some (q (Suc i - 1)), Some ?a)"
      using False Suc.prems k(1) r ok(1)
      by (simp add: each_item_append rename_step_def call_item_def warn_def)
    ultimately show ?thesis by blast
  qed
qed simp

text \<open>The paths of different items differ, and no aside name is the path of an item.\<close>

lemma last_item_path: "item_path p base dirs prefix n = Some q \<Longrightarrow> last (root @ q) = item_name dirs prefix n"
  by (auto simp: item_path_def Let_def split: if_splits)

lemma item_name_inj: "item_name dirs prefix m = item_name dirs prefix n \<Longrightarrow> m = n"
  by (simp add: item_name_def dec_str_inj split: if_splits)

lemma item_paths_distinct:
  assumes "\<forall>i < n. map_option ((@) root) (item_path p base dirs prefix (i + off)) = Some (q i)"
  shows "inj_on q {..<n}" "j < n \<Longrightarrow> suffixed (q j) ''-XX'' \<notin> q ` {..<n}"
proof -
  have lst: "last (q i) = item_name dirs prefix (i + off)" if "i < n" for i
    using assms that last_item_path[of p base dirs prefix "i + off" _ root] by fastforce
  show "inj_on q {..<n}"
  proof (rule inj_onI)
    fix i j assume "i \<in> {..<n}" "j \<in> {..<n}" "q i = q j"
    then have "item_name dirs prefix (i + off) = item_name dirs prefix (j + off)" using lst[of i] lst[of j] by simp
    from item_name_inj[OF this] show "i = j" by simp
  qed
  show "suffixed (q j) ''-XX'' \<notin> q ` {..<n}" if j: "j < n"
  proof
    assume "suffixed (q j) ''-XX'' \<in> q ` {..<n}"
    then obtain i where "i < n" "suffixed (q j) ''-XX'' = q i" by auto
    moreover have "last (suffixed (q j) ''-XX'') = item_name dirs prefix (j + off) @ ''-XX''"
      by (simp add: suffixed_def lst[OF j])
    ultimately have "item_name dirs prefix (j + off) @ ''-XX'' = item_name dirs prefix (i + off)"
      using lst[of i] by simp
    then have "dec_str (j + off) @ ''-XX'' = dec_str (i + off)" by (simp add: item_name_def split: if_splits)
    moreover have "CHR ''X'' \<in> set (dec_str (j + off) @ ''-XX'')" by simp
    ultimately have "CHR ''X'' \<in> set (dec_str (i + off))" by simp
    then show False using dec_str_digit[of "CHR ''X''" "i + off"] by (simp add: is_digit_def ord_def)
  qed
qed

text \<open>
  C17: The chain of renames keeps the names: on names that exist in directories that exist, the rename phase
  renames without a warning, the items 0 to n - 2 have exchanged their names in a cycle, the last item
  and every other name are untouched, and the aside name is free again.
\<close>

theorem rename_phase_rotates:
  assumes law: "renames_freely F view N" and N: "suffixed (q 0) ''-XX'' \<in> N" "q ` {..<n} \<subseteq> N"
    and ex: "\<forall>j < n. view (mkern s) (q j) \<noteq> None" "view (mkern s) (suffixed (q 0) ''-XX'') = None"
    and items: "stop_items p = n" "2 \<le> n" "leaf_offset p = Some off"
      "\<forall>i < n. map_option ((@) root) (item_path p base dirs (md_prefix p rank 1) (i + off)) = Some (q i)"
  shows "\<exists>s'. rename_phase F p rank dirs root base s = Some s' \<and> warned s' = warned s
    \<and> (\<forall>j < n - 1. view (mkern s') (q j) = view (mkern s) (q (Suc j mod (n - 1))))
    \<and> (\<forall>x. x \<notin> q ` {..<n - 1} \<longrightarrow> view (mkern s') x = view (mkern s) x)"
proof -
  let ?a = "suffixed (q 0) ''-XX''" and ?v = "view (mkern s)" and ?m = "n - 1"
  have inj: "inj_on q {..<n}" "suffixed (q 0) ''-XX'' \<notin> q ` {..<n}"
    using item_paths_distinct[OF items(4)] items(2) by simp_all
  have m: "0 < ?m" "?m < n" "n = Suc ?m" using items(2) by simp_all
  obtain k where k: "each_item (\<lambda>i. rename_step F n i (q i)) [0..<?m] (s, None, None) =
      Some (s\<lparr>mkern := k\<rparr>, Some (q (?m - 1)), Some ?a)" "chained q ?a ?v ?m (view k)"
    using chain_prefix[OF law N inj _ ex(2) m(1,2)] ex(1) by blast
  obtain k' ok where r: "md_rename F k ?a (q (?m - 1)) = (k', ok)" by fastforce
  have "q (?m - 1) \<in> N" using N(2) m by auto
  moreover have "view k ?a = ?v (q 0)" "view k (q (?m - 1)) = None" using k(2) by (simp_all add: chained_def)
  moreover have "?v (q 0) \<noteq> None" using ex(1) m by simp
  ultimately have ok: "ok" "view k' = (view k)(q (?m - 1) := ?v (q 0), ?a := None)"
    using law N(1) r unfolding renames_freely_def by (metis fst_conv snd_conv)+
  have step: "rename_step F n ?m (q ?m) (s\<lparr>mkern := k\<rparr>, Some (q (?m - 1)), Some ?a) =
      Some (s\<lparr>mkern := k'\<rparr>, Some (q (?m - 1)), Some ?a)"
    using m r ok(1) by (simp add: rename_step_def call_item_def warn_def)
  have "rename_phase F p rank dirs root base s = do {
      (s, lst, first) \<leftarrow> each_item (\<lambda>i. rename_step F n i (q i)) [0..<n] (s, None, None); Some s }"
  proof -
    have "each_item (\<lambda>i st. do { rel \<leftarrow> item_path p base dirs (md_prefix p rank 1) (i + off);
        rename_step F n i (root @ rel) st }) [0..<n] st = each_item (\<lambda>i. rename_step F n i (q i)) [0..<n] st" for st
      by (rule each_item_cong) (use items(4) in auto)
    then show ?thesis using items(1-3) by (simp add: rename_phase_def)
  qed
  also have "\<dots> = Some (s\<lparr>mkern := k'\<rparr>)"
  proof -
    have "[0..<n] = [0..<?m] @ [?m]" using m(3) by (metis upt_Suc_append zero_le)
    then show ?thesis using k(1) step by (simp only: each_item_append) simp
  qed
  finally have run: "rename_phase F p rank dirs root base s = Some (s\<lparr>mkern := k'\<rparr>)" .
  have na: "q j \<noteq> ?a" if "j < n" for j using inj(2) that by (metis imageI lessThan_iff)
  have names: "view k' (q j) = ?v (q (Suc j mod ?m))" if j: "j < ?m" for j
  proof (cases "Suc j = ?m")
    case True
    then have "j = ?m - 1" by linarith
    then have "q j = q (?m - 1)" by (rule arg_cong)
    with True ok(2) na[of j] m(2) j show ?thesis by simp
  next
    case False
    then have "q j \<noteq> q (?m - 1)" using inj_onD[OF inj(1), of j "?m - 1"] j m by auto
    then show ?thesis using False j ok(2) na[of j] m(2) k(2) by (simp add: chained_def)
  qed
  have others: "view k' x = ?v x" if "x \<notin> q ` {..<?m}" for x
  proof (cases "x = ?a")
    case True
    then show ?thesis using ok(2) ex(2) by simp
  next
    case False
    moreover have "x \<noteq> q (?m - 1)" using that m(1) by auto
    ultimately show ?thesis using that ok(2) k(2) by (simp add: chained_def)
  qed
  from run names others show ?thesis by (intro exI[of _ "s\<lparr>mkern := k'\<rparr>"]) simp
qed

section \<open>Verification of contents\<close>

lemma item_name_target:
  assumes "item_name False (md_prefix p c ph) n = item_name False (md_prefix p r ph') m"
  shows "shifted p c ph = shifted p r ph' \<and> n = m"
proof -
  have "dec_str (shifted p c ph) @ CHR ''.'' # dec_str n = dec_str (shifted p r ph') @ CHR ''.'' # dec_str m"
    using assms by (simp add: item_name_def md_prefix_def)
  from dec_str_split[OF this] show ?thesis by (auto simp: is_digit_def ord_def dest: dec_str_inj)
qed

text \<open>
  C18: Verification is exact across ranks: for a file that rank c created in phase 0 and rank r reads under the
  same name in phase 2, the data read is counted as an error exactly when it is not the beginning of
  what c writes into that file, for every rank shift, as long as no more is read than written.
\<close>

theorem verification_is_exact:
  assumes "item_name False (md_prefix p c 0) n = item_name False (md_prefix p r 2) m"
    "m_verify p" "0 < m_read_bytes p" "m_read_bytes p \<le> m_write_bytes p"
    "md_open F (mkern s) q = (k, Some fd)" "md_read_exact F k fd (m_read_bytes p) = (k', Some data)"
  shows "snd (read_file F p r q m s) \<longleftrightarrow>
    data \<noteq> take (m_read_bytes p) (content_pattern (of_nat (m_seed p)) (shifted p c 0) n (m_write_bytes p))"
  using item_name_target[OF assms(1)] assms(2-6) by (simp add: read_file_def content_prefix)

section \<open>A directory for each rank\<close>

text \<open>What a file system documents of directories: nothing is made in a directory that does not exist, and
  only the named directory is made.\<close>

definition makes_in_dirs :: "'k mdfs \<Rightarrow> ('k \<Rightarrow> path set) \<Rightarrow> bool" where
  "makes_in_dirs F ds \<longleftrightarrow>
     (\<forall>k q. ds (fst (md_mkdir F k q)) \<subseteq> insert q (ds k)) \<and> (\<forall>k q. ds (fst (md_creat F k q)) \<subseteq> ds k)
     \<and> (\<forall>k q. butlast q \<notin> ds k \<longrightarrow> \<not> snd (md_mkdir F k q) \<and> ds (fst (md_mkdir F k q)) \<subseteq> ds k \<and> snd (md_creat F k q) = None)"

text \<open>No directory of the tree that the phases of a target work in.\<close>

definition no_tree :: "path set \<Rightarrow> path \<Rightarrow> bool" where
  "no_tree D root \<longleftrightarrow> (\<forall>x. root @ x \<notin> D)"

lemma create_in_missing:
  assumes law: "makes_in_dirs F ds" and no: "no_tree (ds (mkern s)) root"
  shows "no_tree (ds (mkern (item_op F p rank dirs True (root @ x) n s))) root"
    "warned (item_op F p rank dirs True (root @ x) n s) =
       warned s @ [root @ x @ [item_name dirs (md_prefix p rank 0) n]]"
proof -
  let ?q = "root @ x @ [item_name dirs (md_prefix p rank 0) n]"
  have "butlast ?q \<notin> ds (mkern s)" using no by (simp add: no_tree_def butlast_append)
  then have f: "\<not> snd (md_mkdir F (mkern s) ?q)" "ds (fst (md_mkdir F (mkern s) ?q)) \<subseteq> ds (mkern s)"
      "snd (md_creat F (mkern s) ?q) = None" "ds (fst (md_creat F (mkern s) ?q)) \<subseteq> ds (mkern s)"
    using law unfolding makes_in_dirs_def by blast+
  have op: "item_op F p rank dirs True (root @ x) n s =
      s\<lparr>mkern := (if dirs then fst (md_mkdir F (mkern s) ?q) else fst (md_creat F (mkern s) ?q)), warned := warned s @ [?q]\<rparr>"
  proof (cases dirs)
    case True
    then show ?thesis using f(1) by (simp add: item_op_def call_item_def warn_def Let_def)
  next
    case False
    obtain k where "md_creat F (mkern s) ?q = (k, None)" using f(3) by (metis prod.collapse)
    with False show ?thesis by (simp add: item_op_def create_file_def warn_def Let_def)
  qed
  show "no_tree (ds (mkern (item_op F p rank dirs True (root @ x) n s))) root"
    unfolding op using no f(2,4) by (auto simp: no_tree_def)
  show "warned (item_op F p rank dirs True (root @ x) n s) = warned s @ [?q]"
    by (simp add: op)
qed

lemma create_all_missing:
  assumes law: "makes_in_dirs F ds" and no: "no_tree (ds (mkern s)) root"
    and under: "\<forall>(d, n) \<in> set xs. \<exists>x. d = root @ x"
  shows "warned (fold (process_item F p rank dirs True) xs s) =
    warned s @ map (\<lambda>(d, n). d @ [item_name dirs (md_prefix p rank 0) n]) xs"
  using no under
proof (induction xs arbitrary: s)
  case (Cons y xs)
  obtain x n where y: "y = (root @ x, n)" using Cons.prems(2) by auto
  note c = create_in_missing[OF law Cons.prems(1), of p rank dirs x n]
  show ?case using Cons.IH[OF c(1)] Cons.prems(2) c(2) by (simp add: y)
qed simp

lemma visited_under_root: "(d, n) \<in> set (visited_items p root) \<Longrightarrow> \<exists>x. d = root @ x"
  using item_dirs_paths[of d _ p root] by (fastforce simp: visited_items_def dir_items_def dir_path_def split: if_splits)

text \<open>The directories that a rank makes for its own tree are not below the root that the phases use.\<close>

lemma own_tree_elsewhere: "\<not> (\<exists>x y. tree_root p it d t @ x = own_tree it' d' rank @ y)" if "m_unique p"
proof
  assume "\<exists>x y. tree_root p it d t @ x = own_tree it' d' rank @ y"
  then have "dec_str t @ ''.0'' = dec_str rank"
    using that by (auto simp: tree_root_def own_tree_def testdir_def)
  then have "CHR ''.'' \<in> set (dec_str rank)" by (metis in_set_conv_decomp)
  then show False using dec_str_digit[of "CHR ''.''" rank] by (simp add: is_digit_def ord_def)
qed

lemma mkdir_elsewhere:
  assumes "makes_in_dirs F ds" "no_tree (ds k) root" "\<forall>x. root @ x \<noteq> q"
  shows "no_tree (ds (fst (md_mkdir F k q))) root"
  using assms unfolding makes_in_dirs_def no_tree_def by blast

lemma tree_level_elsewhere:
  assumes law: "makes_in_dirs F ds"
  shows "no_tree (ds (mkern (fst st))) root \<Longrightarrow> \<forall>x y. root @ x \<noteq> parent @ y \<Longrightarrow>
    no_tree (ds (mkern (fst (tree_level rem F p True parent dir_num st)))) root"
proof (induction rem arbitrary: parent dir_num st)
  case (Suc rem)
  define body where "body = (\<lambda>i (s, ok).
       if \<not> ok then (s, ok)
       else
         (let sub = parent @ [tree_dir ''mdtest_tree'' (dir_num + i)];
              (s, ok) = (if True then (let (k, ok) = md_mkdir F (mkern s) sub in (s\<lparr>mkern := k\<rparr>, ok)) else (s, True))
          in if \<not> ok then (s, ok)
             else
               (let (s, ok) = tree_level rem F p True sub (m_branch p * (dir_num + i) + 1) (s, True)
                in if ok \<and> \<not> True then (s\<lparr>mkern := fst (md_rmdir F (mkern s) sub)\<rparr>, ok) else (s, ok))))"
  have one: "no_tree (ds (mkern (fst (body i st)))) root" if "no_tree (ds (mkern (fst st))) root" for i st
  proof -
    let ?sub = "parent @ [tree_dir ''mdtest_tree'' (dir_num + i)]"
    obtain s ok where st: "st = (s, ok)" by fastforce
    obtain k ok1 where m: "md_mkdir F (mkern s) ?sub = (k, ok1)" by fastforce
    have nk: "no_tree (ds k) root" using mkdir_elsewhere[OF law, of "mkern s" root ?sub] that Suc.prems(2) m st by simp
    have "\<forall>x y. root @ x \<noteq> ?sub @ y" using Suc.prems(2) by simp
    from Suc.IH[OF _ this, of "(s\<lparr>mkern := k\<rparr>, True)"] nk
    have "no_tree (ds (mkern (fst (tree_level rem F p True ?sub (m_branch p * (dir_num + i) + 1) (s\<lparr>mkern := k\<rparr>, True))))) root"
      by simp
    with nk that show ?thesis by (simp add: body_def st m Let_def split: prod.split)
  qed
  have "no_tree (ds (mkern (fst (fold body xs st)))) root" if "no_tree (ds (mkern (fst st))) root" for xs st
    using that one by (induction xs arbitrary: st) simp_all
  from this[OF Suc.prems(1)] show ?case by (simp only: tree_level.simps body_def)
qed simp

text \<open>A predicate that every step of a sequence keeps.\<close>

definition step_keeps :: "('k rank_state \<Rightarrow> bool) \<Rightarrow> 'k rank_step \<Rightarrow> bool" where
  "step_keeps P f \<longleftrightarrow> (\<forall>s s' ok. P s \<longrightarrow> f s = Some (s', ok) \<longrightarrow> P s')"

lemma step_keeps_go: "(\<And>s. P s \<Longrightarrow> P (f s)) \<Longrightarrow> step_keeps P (go f)"
  by (simp add: step_keeps_def go_def)

lemma step_keeps_andthen: "step_keeps P f \<Longrightarrow> step_keeps P g \<Longrightarrow> step_keeps P (andthen f g)"
  unfolding step_keeps_def andthen_def
proof (intro allI impI)
  fix s s' ok
  assume f: "\<forall>s s' ok. P s \<longrightarrow> f s = Some (s', ok) \<longrightarrow> P s'" and g: "\<forall>s s' ok. P s \<longrightarrow> g s = Some (s', ok) \<longrightarrow> P s'"
    and P: "P s" and run: "do { (s, ok) \<leftarrow> f s; if ok then g s else Some (s, False) } = Some (s', ok)"
  from run obtain u b where u: "f s = Some (u, b)" "(if b then g u else Some (u, False)) = Some (s', ok)"
    by (auto simp: bind_eq_Some_conv)
  from f P u(1) have "P u" by blast
  with g u(2) show "P s'" by (cases b) auto
qed

lemma step_keeps_steps: "\<forall>f \<in> set fs. step_keeps P f \<Longrightarrow> step_keeps P (steps fs)"
  unfolding steps_def by (induction fs) (auto intro: step_keeps_andthen step_keeps_go)

lemma step_keeps_unless: "step_keeps P f \<Longrightarrow> step_keeps P (unless_off b f)"
  by (simp add: unless_off_def step_keeps_go)

lemma step_keeps_stat: "(\<And>s r. P s \<Longrightarrow> P (s\<lparr>res := r\<rparr>)) \<Longrightarrow> step_keeps P (set_stat op n)"
  by (auto simp: step_keeps_def set_stat_def bind_eq_Some_conv)

lemma tree_phase_elsewhere:
  assumes law: "makes_in_dirs F ds" and u: "m_unique p"
  shows "step_keeps (\<lambda>s. no_tree (ds (mkern s)) (tree_root p it d t)) (tree_phase F p rank it')"
proof -
  let ?root = "tree_root p it d t"
  let ?P = "\<lambda>s. no_tree (ds (mkern s)) ?root"
  have off: "\<forall>x y. ?root @ x \<noteq> own_tree it1 d1 rank @ y" for it1 d1 using own_tree_elsewhere[OF u] by blast
  have call: "step_keeps ?P (quiet_call (\<lambda>k. md_mkdir F k q))" if "\<forall>x. ?root @ x \<noteq> q" for q
    unfolding quiet_call_def by (rule step_keeps_go) (simp add: mkdir_elsewhere[OF law _ that])
  have td: "\<forall>x. ?root @ x \<noteq> testdir it1 d1" for it1 d1 by (simp add: tree_root_def testdir_def)
  have tree: "step_keeps ?P (make_tree F p True (own_tree it1 d1 rank))" for it1 d1
    unfolding step_keeps_def
  proof (intro allI impI)
    fix s s' :: "'a rank_state" and ok
    assume P: "?P s" and run: "make_tree F p True (own_tree it1 d1 rank) s = Some (s', ok)"
    let ?sub = "own_tree it1 d1 rank @ [''mdtest_tree.0'']"
    obtain k ok1 where m: "md_mkdir F (mkern s) ?sub = (k, ok1)" by fastforce
    have sub: "\<forall>x y. ?root @ x \<noteq> ?sub @ y" using off[of it1 d1] by simp
    have nk: "no_tree (ds k) ?root"
      using mkdir_elsewhere[OF law P, of ?sub] sub m by (metis append_Nil2 fst_conv)
    have "no_tree (ds (mkern (fst (tree_level (m_depth p) F p True ?sub 1 ((mds_of s)\<lparr>mkern := k\<rparr>, True))))) ?root"
      by (rule tree_level_elsewhere[OF law _ sub]) (simp add: nk)
    with nk run m show "?P s'"
      by (auto simp: make_tree_def create_remove_tree_def put_mds_def mds_of_def Let_def split: prod.splits if_splits)
  qed
  show ?thesis
    unfolding tree_phase_def
    by (intro step_keeps_steps)
      (auto simp: u wait_all_def intro!: call td off[THEN spec, THEN spec, of _ _ _ "[]", simplified] tree
        step_keeps_steps step_keeps_go step_keeps_unless step_keeps_stat)
qed

text \<open>
  With a directory per rank, mdtest creates no item: after all ranks have built their trees, in any
  order, the directory that the phases of a rank use does not exist unless it was there before, and the
  creation of each of its items fails with a warning.
\<close>

theorem unique_dir_creates_nothing:
  assumes law: "makes_in_dirs F ds" and u: "m_unique p"
    and no: "no_tree (ds (mkern s)) (root_of p rank it 0 d)"
    and trees: "steps (map (\<lambda>r. tree_phase F p r it) ranks) s = Some (s1, ok)"
    and g: "untimed p g"
  shows "warned (snd (create_remove_items F p rank dirs True (root_of p rank it 0 d) (g, mds_of s1))) =
    warned s1 @ made_paths p dirs (md_prefix p rank 0) (root_of p rank it 0 d)"
proof -
  let ?root = "root_of p rank it 0 d"
  have "step_keeps (\<lambda>s. no_tree (ds (mkern s)) ?root) (steps (map (\<lambda>r. tree_phase F p r it) ranks))"
    by (rule step_keeps_steps) (auto simp: root_of_def intro: tree_phase_elsewhere[OF law u])
  then have no1: "no_tree (ds (mkern (mds_of s1))) ?root"
    using no trees by (auto simp: step_keeps_def mds_of_def)
  have "\<forall>(d, n) \<in> set (visited_items p ?root). \<exists>x. d = ?root @ x" using visited_under_root by fast
  from create_all_missing[OF law no1 this] create_remove_visits[of F p rank dirs True ?root] g
  show ?thesis by (simp add: processes_def visited_items_def made_paths_def mds_of_def del: fold_simps)
qed

section \<open>Several directory iterations\<close>

lemma later_directories_idle:
  "0 \<notin> set ds \<Longrightarrow> g_per_dir (prog s) = g_done (prog s) \<Longrightarrow>
    \<exists>s'. file_creation F p rank it ds s = Some (s', True) \<and> mds_of s' = mds_of s \<and> g_done (prog s') = g_done (prog s)"
proof (induction ds arbitrary: s)
  case Nil
  then show ?case by (simp add: file_creation_def steps_def go_def)
next
  case (Cons d ds)
  let ?g = "(prog s)\<lparr>g_start := g_done (prog s)\<rparr>"
  let ?s = "(put_mds (mds_of s) s)\<lparr>prog := ?g\<rparr>"
  have "spent ?g" using Cons.prems by (simp add: spent_def)
  then have one: "make_items F p rank False True (root_of p rank it 0 d) (\<lambda>s. if d = 0 then 0 else g_done (prog s)) s = Some (?s, True)"
    using Cons.prems(1) by (auto simp: make_items_def spent_items)
  have "\<exists>s'. file_creation F p rank it ds ?s = Some (s', True) \<and> mds_of s' = mds_of ?s \<and> g_done (prog s') = g_done (prog ?s)"
    using Cons.prems by (intro Cons.IH) simp_all
  moreover have "mds_of ?s = mds_of s" by (simp add: mds_of_def put_mds_def)
  ultimately show ?case using one by (simp add: file_creation_def steps_def andthen_def)
qed

lemma dirs_to_visit: "m_branch p = 0 \<longrightarrow> m_depth p = 0 \<Longrightarrow> item_dirs p root \<noteq> []"
  using length_item_dirs[of p root]
  by (cases "m_leaf p"; auto simp: first_dir_def level_start_Suc simp del: level_start.simps)

text \<open>
  With several directory iterations mdtest creates files in the first directory only: over all
  iterations the creation of files does what it does for the first one, leaves the other
  directories as they are, and the count of done items, which the file phase reports, is that of one directory.
\<close>

theorem later_directories_get_no_files:
  assumes "md_resolve now a = Some (Inr p)" "untimed p (prog s)" "0 < m_loops p"
  shows "\<exists>s'. file_creation F p rank it [0..<m_loops p] s = Some (s', True)
    \<and> mds_of s' = fold (\<lambda>(d, n). item_op F p rank False True d n) (visited_items p (root_of p rank it 0 0)) (mds_of s)
    \<and> g_done (prog s') = m_per_dir p"
proof -
  let ?root = "root_of p rank it 0 0"
  let ?m = "fold (process_item F p rank False True) (visited_items p ?root) (mds_of s)"
  let ?g = "(prog s)\<lparr>g_start := 0, g_done := m_per_dir p\<rparr>"
  let ?s = "(put_mds ?m s)\<lparr>prog := ?g\<rparr>"
  have "m_branch p = 0 \<longrightarrow> m_depth p = 0"
    using assms(1) args_accepted[of a "a_create a \<or> (\<not> a_create a \<and> \<not> a_stat a \<and> \<not> a_read a \<and> \<not> a_remove a \<and> \<not> a_rename a)"]
    by (auto simp: md_resolve_def Let_def bind_eq_Some_conv split: option.splits if_splits)
  then have ne: "item_dirs p ?root \<noteq> []" by (rule dirs_to_visit)
  have u: "untimed p ((prog s)\<lparr>g_start := 0\<rparr>)" using assms(2) by (simp add: untimed_def)
  have first: "make_items F p rank False True (root_of p rank it 0 0) (\<lambda>s. if (0::nat) = 0 then 0 else g_done (prog s)) s = Some (?s, True)"
    using create_remove_visits[of F p rank False True ?root] u ne
    by (simp add: processes_def make_items_def visited_items_def)
  have "g_per_dir (prog ?s) = g_done (prog ?s)" using assms(2) by (simp add: untimed_def)
  then obtain s' where s': "file_creation F p rank it [1..<m_loops p] ?s = Some (s', True)" "mds_of s' = mds_of ?s"
      "g_done (prog s') = g_done (prog ?s)"
    using later_directories_idle[of "[1..<m_loops p]" ?s F p rank it] by auto
  have "[0..<m_loops p] = 0 # [1..<m_loops p]" using assms(3) by (simp add: upt_rec)
  then have "file_creation F p rank it [0..<m_loops p] s = Some (s', True)"
    using first s'(1) by (simp add: file_creation_def steps_def andthen_def)
  moreover have "mds_of ?s = ?m" by (simp add: mds_of_def put_mds_def)
  ultimately show ?thesis using s'(2,3) by (auto simp: case_prod_unfold)
qed

section \<open>Concrete runs\<close>

text \<open>A file system that keeps directories and takes every file in a directory that exists, and two
  configurations: a tree of three directories with six items, and two directory iterations.\<close>

definition dirs_fs :: "path list mdfs" where
  "dirs_fs =
     \<lparr>md_mkdir = (\<lambda>k q. if butlast q \<in> set k \<and> q \<notin> set k then (q # k, True) else (k, False)),
      md_rmdir = (\<lambda>k q. (removeAll q k, q \<in> set k)),
      md_creat = (\<lambda>k q. (k, if butlast q \<in> set k then Some 3 else None)),
      md_write_all = (\<lambda>k fd d. (k, True)), md_fsync = (\<lambda>k fd. (k, True)), md_close = (\<lambda>k fd. k),
      md_unlink = (\<lambda>k q. (k, True)), md_stat = (\<lambda>k q. q \<in> set k), md_open = (\<lambda>k q. (k, Some 3)),
      md_read_exact = (\<lambda>k fd n. (k, Some (replicate n 0))),
      md_rename = (\<lambda>k a b. (map (\<lambda>x. if x = a then b else x) k, a \<in> set k \<and> b \<notin> set k)),
      md_sync = (\<lambda>k. k), md_late = (\<lambda>k t. False)\<rparr>"

definition tree_args :: md_args where
  "tree_args =
     \<lparr>a_threads = 2, a_branch = 2, a_depth = 1, a_per_dir = 0, a_items = 6, a_iterations = 1, a_unique = False,
      a_files_only = False, a_dirs_only = False, a_create = False, a_stat = False, a_read = False,
      a_remove = False, a_rename = False, a_leaf = False, a_write_bytes = 4, a_read_bytes = 2,
      a_sync_file = False, a_sync_phase = False, a_nstride = 1, a_random = False, a_seed = 5, a_stonewall = 0,
      a_no_barriers = False, a_verify = True\<rparr>"

definition tree_params :: md_params where
  "tree_params =
     \<lparr>m_threads = 2, m_branch = 2, m_depth = 1, m_per_dir = 2, m_items = 6, m_iterations = 1, m_unique = False,
      m_dirs = True, m_files = True, m_create = True, m_stat = True, m_read = True, m_remove = True,
      m_rename = True, m_leaf = False, m_write_bytes = 4, m_read_bytes = 2, m_sync_file = False,
      m_sync_phase = False, m_nstride = 1, m_random = False, m_seed = 5, m_stonewall = 0, m_barriers = True,
      m_verify = True, m_num_dirs = 3, m_loops = 1\<rparr>"

definition loop_params :: md_params where
  "loop_params = tree_params\<lparr>m_branch := 1, m_depth := 0, m_per_dir := 3, m_num_dirs := 1, m_loops := 2\<rparr>"

definition fresh_rank :: "md_params \<Rightarrow> path list \<Rightarrow> path list rank_state" where
  "fresh_rank p k = \<lparr>mkern = k, warned = [], barriers = 0, prog = fresh_progress p, res = replicate 11 0, verr = 0\<rparr>"

lemmas example_defs = tree_args_def tree_params_def loop_params_def

lemma tree_args_resolve: "md_resolve 0 tree_args = Some (Inr tree_params)"
  by (simp add: example_defs md_resolve_def args_error_def dirs_in_tree_def pow32_def item_counts_def Let_def)

lemma loop_args_resolve:
  "md_resolve 0 (tree_args\<lparr>a_branch := 1, a_depth := 0, a_per_dir := 3\<rparr>) = Some (Inr loop_params)"
  by (simp add: example_defs md_resolve_def args_error_def dirs_in_tree_def pow32_def item_counts_def Let_def)

lemma fresh_untimed: "untimed p (fresh_progress p)"
  by (simp add: untimed_def fresh_progress_def)

lemma dirs_fs_makes: "makes_in_dirs dirs_fs set"
  by (auto simp: makes_in_dirs_def dirs_fs_def)

lemma dirs_fs_renames: "renames_freely dirs_fs (\<lambda>k x. if x \<in> set k then Some () else None) N"
  by (auto simp: renames_freely_def dirs_fs_def fun_eq_iff split: if_splits)

text \<open>The agreement of the phases on the six items of the tree.\<close>

theorem phases_agree_on_items_witness:
  "md_resolve 0 tree_args = Some (Inr tree_params)
    \<and> mset (map Some (made_paths tree_params True ''m.'' [''t''])) = mset (found_paths tree_params True ''m.'' [''t''] 0)
    \<and> length (found_paths tree_params True ''m.'' [''t''] 0) = 6"
proof -
  have "\<not> (0 < a_items tree_args \<and> 0 < a_per_dir tree_args)" "\<not> m_unique tree_params"
    by (simp_all add: tree_args_def tree_params_def)
  then have "mset (map Some (made_paths tree_params True ''m.'' [''t''])) = mset (found_paths tree_params True ''m.'' [''t''] 0)"
    using phases_agree_on_items[OF tree_args_resolve, where g = "fresh_progress tree_params" and F = dirs_fs] by blast
  then show ?thesis
    using tree_args_resolve by (simp add: found_paths_def leaf_offset_def stop_items_def tree_params_def)
qed

text \<open>A rank that creates and another phase that reads the same file.\<close>

theorem verification_is_exact_witness:
  "snd (read_file dirs_fs tree_params 1 [''f''] 4 \<lparr>mkern = [], warned = [], barriers = 0\<rparr>) \<longleftrightarrow>
    [0, 0] \<noteq> take 2 (content_pattern 5 1 4 4)"
proof -
  let ?s = "\<lparr>mkern = [], warned = [], barriers = 0\<rparr>"
  have p: "shifted tree_params 1 0 = 1" "shifted tree_params 1 2 = 1" "m_verify tree_params"
      "m_read_bytes tree_params = 2" "m_write_bytes tree_params = 4" "m_seed tree_params = 5"
    by (simp_all add: tree_params_def shifted_def)
  then have n: "item_name False (md_prefix tree_params 1 0) 4 = item_name False (md_prefix tree_params 1 2) 4"
    by (simp add: md_prefix_def)
  have k: "md_open dirs_fs (mkern ?s) [''f''] = ([], Some 3)" "md_read_exact dirs_fs [] 3 (m_read_bytes tree_params) = ([], Some [0, 0])"
    by (simp_all add: dirs_fs_def p numeral_2_eq_2)
  show ?thesis
    using verification_is_exact[OF n _ _ _ k] p by simp
qed

text \<open>Six directories in three directories are renamed in a cycle of five.\<close>

definition renamed_item :: "nat \<Rightarrow> path" where
  "renamed_item i = (case item_path tree_params ''mdtest_tree'' True (md_prefix tree_params 0 1) i of
     None \<Rightarrow> [] | Some q \<Rightarrow> ''t'' # q)"

definition renamed_state :: "path list mds" where
  "renamed_state = \<lparr>mkern = map renamed_item [0..<6], warned = [], barriers = 0\<rparr>"

theorem rename_phase_rotates_witness:
  "\<exists>s'. rename_phase dirs_fs tree_params 0 True [''t''] ''mdtest_tree'' renamed_state = Some s' \<and> warned s' = []"
proof -
  let ?view = "\<lambda>k x. if x \<in> set k then Some () else None"
  have items: "\<forall>i < 6. map_option ((@) [''t'']) (item_path tree_params ''mdtest_tree'' True (md_prefix tree_params 0 1) (i + 0)) = Some (renamed_item i)"
  proof (intro allI impI)
    fix i :: nat assume "i < 6"
    then have "i div 2 \<le> 2" by simp
    then show "map_option ((@) [''t'']) (item_path tree_params ''mdtest_tree'' True (md_prefix tree_params 0 1) (i + 0)) = Some (renamed_item i)"
      by (simp add: renamed_item_def item_path_def ancestors.simps tree_params_def Let_def)
  qed
  have "suffixed (renamed_item 0) ''-XX'' \<notin> renamed_item ` {..<6}" using item_paths_distinct(2)[OF items, of 0] by simp
  then have free: "?view (mkern renamed_state) (suffixed (renamed_item 0) ''-XX'') = None"
    by (auto simp: renamed_state_def atLeast0LessThan)
  have "stop_items tree_params = 6" "leaf_offset tree_params = Some 0"
    by (simp_all add: stop_items_def leaf_offset_def tree_params_def)
  moreover have "\<forall>j < 6. ?view (mkern renamed_state) (renamed_item j) \<noteq> None" by (simp add: renamed_state_def)
  moreover have "warned renamed_state = []" by (simp add: renamed_state_def)
  ultimately show ?thesis
    using rename_phase_rotates[OF dirs_fs_renames UNIV_I subset_UNIV _ free _ _ _ items] by force
qed

text \<open>Two ranks with directories of their own on a file system that has the top directory alone.\<close>

definition unique_params :: md_params where
  "unique_params = tree_params\<lparr>m_unique := True, m_depth := 0, m_per_dir := 6, m_num_dirs := 1\<rparr>"

lemma unique_trees:
  "\<exists>s1. steps (map (\<lambda>r. tree_phase dirs_fs unique_params r 0) [0, 1]) (fresh_rank unique_params [[]]) = Some (s1, True)
    \<and> warned s1 = []"
proof -
  have "dec_str 0 \<noteq> dec_str 1" "dec_str 0 \<noteq> dec_str (Suc 0)" using dec_str_inj by fastforce+
  then show ?thesis
    by (simp add: tree_phase_def unique_params_def tree_params_def steps_def andthen_def go_def quiet_call_def
      wait_all_def unless_off_def make_tree_def create_remove_tree_def own_tree_def testdir_def set_stat_def
      op_index_def OPS_def rset_def Let_def fresh_rank_def mds_of_def put_mds_def dirs_fs_def)
qed

theorem unique_dir_creates_nothing_witness:
  "\<exists>s1. steps (map (\<lambda>r. tree_phase dirs_fs unique_params r 0) [0, 1]) (fresh_rank unique_params [[]]) = Some (s1, True)
    \<and> warned (snd (create_remove_items dirs_fs unique_params 0 True True (root_of unique_params 0 0 0 0)
        (fresh_progress unique_params, mds_of s1)))
      = made_paths unique_params True (md_prefix unique_params 0 0) (root_of unique_params 0 0 0 0)"
proof -
  obtain s1 where s1: "steps (map (\<lambda>r. tree_phase dirs_fs unique_params r 0) [0, 1]) (fresh_rank unique_params [[]]) = Some (s1, True)"
      "warned s1 = []" using unique_trees by blast
  have u: "m_unique unique_params" by (simp add: unique_params_def)
  have "no_tree (set (mkern (fresh_rank unique_params [[]]))) (root_of unique_params 0 0 0 0)"
    by (simp add: no_tree_def fresh_rank_def root_of_def tree_root_def)
  from unique_dir_creates_nothing[OF dirs_fs_makes u this s1(1) fresh_untimed] s1 show ?thesis by auto
qed

text \<open>Two directory iterations with three files each.\<close>

theorem later_directories_get_no_files_witness:
  "\<exists>s'. file_creation dirs_fs loop_params 1 0 [0..<2] (fresh_rank loop_params [[]]) = Some (s', True)
    \<and> g_done (prog s') = 3"
proof -
  have p: "untimed loop_params (prog (fresh_rank loop_params [[]]))" "m_loops loop_params = 2" "m_per_dir loop_params = 3"
    by (simp_all add: fresh_rank_def fresh_untimed) (simp_all add: loop_params_def)
  show ?thesis
    using later_directories_get_no_files[OF loop_args_resolve p(1), of dirs_fs 1 0] p(2,3) by auto
qed

end
