(* ===== verification/Mdworkbench.thy ===== *)
theory Mdworkbench
  imports Mdtest
begin

text \<open>
  The metadata workload mdworkbench (src/src/mdworkbench.rs): each rank keeps data sets with a fixed number
  of objects; the benchmark repeatedly reads and deletes the oldest object of another rank and creates
  a new one there. The file system is a parameter. In the benchmark the ranks share it without a lock,
  so a rank is a machine whose steps are its calls, and a run is any sequence of such steps.
  Latencies, waiting and throughput are not modelled.
\<close>

section \<open>Parameters\<close>

record mdw_params =
  w_threads :: nat
  w_num :: nat
  w_precreate :: nat
  w_dsets :: nat
  w_size :: nat
  w_iterations :: nat
  w_offset :: nat
  w_prefix :: path
  w_timer :: bool
  w_wear_out :: bool
  w_phase_pre :: bool
  w_phase_bench :: bool
  w_phase_clean :: bool
  w_read_only :: bool
  w_verify :: bool
  w_seed :: nat
  w_start :: nat

text \<open>The command line: a timer is a time above zero. The argument \<open>now\<close> is the time of day in seconds.\<close>

record mdw_args =
  v_threads :: nat
  v_obj_per_proc :: nat
  v_precreate :: nat
  v_data_sets :: nat
  v_object_size :: nat
  v_iterations :: nat
  v_offset :: nat
  v_out_dir :: path
  v_timer :: bool
  v_wear_out :: bool
  v_run_precreate :: bool
  v_run_benchmark :: bool
  v_run_cleanup :: bool
  v_read_only :: bool
  v_verify :: bool
  v_seed :: nat
  v_start_item :: nat

definition mdw_resolve :: "nat \<Rightarrow> mdw_args \<Rightarrow> mdw_params" where
  "mdw_resolve now a =
     (let every = (\<not> v_run_precreate a \<and> \<not> v_run_benchmark a \<and> \<not> v_run_cleanup a)
      in \<lparr>w_threads = max 1 (v_threads a), w_num = v_obj_per_proc a, w_precreate = v_precreate a,
          w_dsets = v_data_sets a, w_size = v_object_size a, w_iterations = v_iterations a, w_offset = v_offset a,
          w_prefix = v_out_dir a, w_timer = v_timer a, w_wear_out = v_wear_out a,
          w_phase_pre = (every \<or> v_run_precreate a), w_phase_bench = (every \<or> v_run_benchmark a),
          w_phase_clean = (every \<or> v_run_cleanup a), w_read_only = v_read_only a, w_verify = v_verify a,
          w_seed = (if v_seed a = 0 then now else v_seed a), w_start = v_start_item a\<rparr>)"

definition dset_path :: "mdw_params \<Rightarrow> nat \<Rightarrow> nat \<Rightarrow> path" where
  "dset_path p rank d = w_prefix p @ [dec_str rank @ ''_'' @ dec_str d]"

definition obj_path :: "mdw_params \<Rightarrow> nat \<Rightarrow> nat \<Rightarrow> nat \<Rightarrow> path" where
  "obj_path p rank d i = dset_path p rank d @ [''file-'' @ dec_str i]"

definition obj_content :: "mdw_params \<Rightarrow> nat \<Rightarrow> nat \<Rightarrow> nat \<Rightarrow> u8 list" where
  "obj_content p rank d i = content_pattern (of_nat (w_seed p)) rank (i * w_dsets p + d) (w_size p)"

text \<open>Whose objects a rank reads and whose it writes, for offsets below the range of i64.\<close>

definition read_rank :: "mdw_params \<Rightarrow> nat \<Rightarrow> nat \<Rightarrow> nat" where
  "read_rank p rank d = nat ((int rank + int (w_threads p) - int (w_offset p * (d + 1))) mod int (w_threads p))"

definition write_rank :: "mdw_params \<Rightarrow> nat \<Rightarrow> nat \<Rightarrow> nat" where
  "write_rank p rank d = (rank + w_offset p * (d + 1)) mod w_threads p"

section \<open>The file system and the counters\<close>

datatype made = Made | AlreadyThere | MakeFailed
datatype written = OpenFailed | WriteFailed | Wrote nat
datatype got = NotOpened | ReadFailed | Got "u8 list"
datatype removed = Removed | NotFound | RemoveFailed

text \<open>Creation opens without truncation and writes once; reading opens and, for a positive size, reads exactly
  that many bytes.\<close>

record 'k mdw_ops =
  w_mkdir_all :: "'k \<Rightarrow> path \<Rightarrow> 'k \<times> bool"
  w_mkdir :: "'k \<Rightarrow> path \<Rightarrow> 'k \<times> made"
  w_create :: "'k \<Rightarrow> path \<Rightarrow> u8 list \<Rightarrow> 'k \<times> written"
  w_stat :: "'k \<Rightarrow> path \<Rightarrow> bool"
  w_read :: "'k \<Rightarrow> path \<Rightarrow> nat \<Rightarrow> 'k \<times> got"
  w_remove :: "'k \<Rightarrow> path \<Rightarrow> 'k \<times> removed"
  w_rmdir :: "'k \<Rightarrow> path \<Rightarrow> 'k \<times> bool"

record phase_stat =
  dset_create :: nat
  dset_delete :: nat
  obj_create :: nat
  obj_read :: nat
  obj_stat :: nat
  obj_delete :: nat
  n_errors :: nat

definition no_stat :: phase_stat where
  "no_stat = \<lparr>dset_create = 0, dset_delete = 0, obj_create = 0, obj_read = 0, obj_stat = 0, obj_delete = 0, n_errors = 0\<rparr>"

definition add_error :: "phase_stat \<Rightarrow> phase_stat" where
  "add_error s = s\<lparr>n_errors := n_errors s + 1\<rparr>"

section \<open>Precreation and clean-up\<close>

text \<open>The flag says whether the rank goes on: an error that the code passes up with a question mark ends
  the phase of the rank.\<close>

fun make_dsets :: "'k mdw_ops \<Rightarrow> mdw_params \<Rightarrow> nat \<Rightarrow> nat list \<Rightarrow> 'k \<times> phase_stat \<Rightarrow> ('k \<times> phase_stat) \<times> bool" where
  "make_dsets F p rank [] ks = (ks, True)"
| "make_dsets F p rank (d # ds) (k, s) =
     (case w_mkdir F k (dset_path p rank d) of
        (k, Made) \<Rightarrow> make_dsets F p rank ds (k, s\<lparr>dset_create := dset_create s + 1\<rparr>)
      | (k, AlreadyThere) \<Rightarrow> make_dsets F p rank ds (k, s)
      | (k, MakeFailed) \<Rightarrow> ((k, add_error s), False))"

fun fill_dsets :: "'k mdw_ops \<Rightarrow> mdw_params \<Rightarrow> nat \<Rightarrow> (nat \<times> nat) list \<Rightarrow> 'k \<times> phase_stat \<Rightarrow> ('k \<times> phase_stat) \<times> bool" where
  "fill_dsets F p rank [] ks = (ks, True)"
| "fill_dsets F p rank ((f, d) # fds) (k, s) =
     (case w_create F k (obj_path p rank d f) (obj_content p rank d f) of
        (k, Wrote n) \<Rightarrow>
          fill_dsets F p rank fds
            (k, if n = w_size p then s\<lparr>obj_create := obj_create s + 1\<rparr> else add_error s)
      | (k, _) \<Rightarrow> ((k, s), False))"

definition run_precreate_rank :: "'k mdw_ops \<Rightarrow> mdw_params \<Rightarrow> nat \<Rightarrow> nat \<Rightarrow> 'k \<times> phase_stat \<Rightarrow> ('k \<times> phase_stat) \<times> bool" where
  "run_precreate_rank F p rank current_index ks =
     (let (ks, ok) = make_dsets F p rank [0..<w_dsets p] ks
      in if ok then fill_dsets F p rank
             (concat (map (\<lambda>f. map (Pair f) [0..<w_dsets p]) [current_index..<w_precreate p])) ks
         else (ks, False))"

definition remove_object :: "'k mdw_ops \<Rightarrow> mdw_params \<Rightarrow> nat \<Rightarrow> nat \<Rightarrow> nat \<Rightarrow> 'k \<times> phase_stat \<Rightarrow> 'k \<times> phase_stat" where
  "remove_object F p rank d i ks =
     (let (k, s) = ks in
      case w_remove F k (obj_path p rank d i) of
        (k, Removed) \<Rightarrow> (k, s\<lparr>obj_delete := obj_delete s + 1\<rparr>)
      | (k, NotFound) \<Rightarrow> (k, s)
      | (k, RemoveFailed) \<Rightarrow> (k, add_error s))"

definition remove_dset :: "'k mdw_ops \<Rightarrow> mdw_params \<Rightarrow> nat \<Rightarrow> nat \<Rightarrow> nat \<Rightarrow> 'k \<times> phase_stat \<Rightarrow> 'k \<times> phase_stat" where
  "remove_dset F p rank start_index d ks =
     (let (k, s) = fold (\<lambda>f. remove_object F p rank d (f + start_index)) [0..<w_precreate p] ks
      in (fst (w_rmdir F k (dset_path p rank d)), s\<lparr>dset_delete := dset_delete s + 1\<rparr>))"

definition run_cleanup_rank :: "'k mdw_ops \<Rightarrow> mdw_params \<Rightarrow> nat \<Rightarrow> nat \<Rightarrow> 'k \<times> phase_stat \<Rightarrow> 'k \<times> phase_stat" where
  "run_cleanup_rank F p rank start_index = fold (remove_dset F p rank start_index) [0..<w_dsets p]"

section \<open>The benchmark of one rank\<close>

text \<open>Where a rank is in its loop. The counters of the stonewall are shared by the ranks of an iteration.\<close>

datatype bench_pc =
    AtStat | AtRead | AtDelete | AtCreate | AtTail | AtTotal | AtContribute | AtSpin | AtLoad | AtFinish
  | AtDone | AtFailed

record bench_rank =
  l_f :: nat
  l_d :: nat
  l_total :: nat
  l_contributed :: bool
  l_pc :: bench_pc
  l_stat :: phase_stat

record wear_out =
  o_armed :: bool
  o_total :: nat
  o_contributors :: nat
  o_finished :: nat

definition new_wear_out :: wear_out where
  "new_wear_out = \<lparr>o_armed = False, o_total = 0, o_contributors = 0, o_finished = 0\<rparr>"

text \<open>The head of the inner loop: the next data set, or the end of the pass. The head of the outer loop.\<close>

definition at_item :: "mdw_params \<Rightarrow> bench_rank \<Rightarrow> bench_rank" where
  "at_item p l =
     (if l_d l < w_dsets p then l\<lparr>l_pc := AtStat\<rparr> else l\<lparr>l_f := l_f l + 1, l_d := 0, l_pc := AtTail\<rparr>)"

definition next_item :: "mdw_params \<Rightarrow> bench_rank \<Rightarrow> bench_rank" where
  "next_item p l = at_item p (l\<lparr>l_d := l_d l + 1\<rparr>)"

definition at_pass :: "mdw_params \<Rightarrow> bench_rank \<Rightarrow> bench_rank" where
  "at_pass p l = (if l_f l < l_total l then at_item p (l\<lparr>l_d := 0\<rparr>) else l\<lparr>l_pc := AtFinish\<rparr>)"

definition start_rank :: "mdw_params \<Rightarrow> bench_rank" where
  "start_rank p = at_pass p \<lparr>l_f = 0, l_d = 0, l_total = w_num p, l_contributed = False, l_pc = AtTail, l_stat = no_stat\<rparr>"

definition tally :: "(phase_stat \<Rightarrow> phase_stat) \<Rightarrow> bench_rank \<Rightarrow> bench_rank" where
  "tally f l = l\<lparr>l_stat := f (l_stat l)\<rparr>"

definition stat_step :: "'k mdw_ops \<Rightarrow> mdw_params \<Rightarrow> nat \<Rightarrow> nat \<Rightarrow> 'k \<times> bench_rank \<Rightarrow> 'k \<times> bench_rank" where
  "stat_step F p rank start kl =
     (case kl of (k, l) \<Rightarrow>
        if w_stat F k (obj_path p (read_rank p rank (l_d l)) (l_d l) (l_f l + start))
        then (k, (tally (\<lambda>s. s\<lparr>obj_stat := obj_stat s + 1\<rparr>) l)\<lparr>l_pc := AtRead\<rparr>)
        else (k, next_item p (tally add_error l)))"

definition read_step :: "'k mdw_ops \<Rightarrow> mdw_params \<Rightarrow> nat \<Rightarrow> nat \<Rightarrow> 'k \<times> bench_rank \<Rightarrow> 'k \<times> bench_rank" where
  "read_step F p rank start kl =
     (case kl of (k, l) \<Rightarrow>
        let rr = read_rank p rank (l_d l);
            (k, r) = w_read F k (obj_path p rr (l_d l) (l_f l + start)) (w_size p);
            l = (case r of
                   NotOpened \<Rightarrow> tally add_error l
                 | ReadFailed \<Rightarrow> tally add_error l
                 | Got data \<Rightarrow>
                     if w_verify p \<and> 0 < w_size p \<and> data \<noteq> obj_content p rr (l_d l) (l_f l + start)
                     then tally add_error l
                     else tally (\<lambda>s. s\<lparr>obj_read := obj_read s + 1\<rparr>) l)
        in (k, if w_read_only p then next_item p l else l\<lparr>l_pc := AtDelete\<rparr>))"

definition delete_step :: "'k mdw_ops \<Rightarrow> mdw_params \<Rightarrow> nat \<Rightarrow> nat \<Rightarrow> 'k \<times> bench_rank \<Rightarrow> 'k \<times> bench_rank" where
  "delete_step F p rank start kl =
     (case kl of (k, l) \<Rightarrow>
        let (k, r) = w_remove F k (obj_path p (read_rank p rank (l_d l)) (l_d l) (l_f l + start));
            l = (if r = Removed then tally (\<lambda>s. s\<lparr>obj_delete := obj_delete s + 1\<rparr>) l else tally add_error l)
        in (k, l\<lparr>l_pc := AtCreate\<rparr>))"

definition create_step :: "'k mdw_ops \<Rightarrow> mdw_params \<Rightarrow> nat \<Rightarrow> nat \<Rightarrow> 'k \<times> bench_rank \<Rightarrow> 'k \<times> bench_rank" where
  "create_step F p rank start kl =
     (case kl of (k, l) \<Rightarrow>
        let wr = write_rank p rank (l_d l); i = w_precreate p + (l_f l + start);
            (k, r) = w_create F k (obj_path p wr (l_d l) i) (obj_content p wr (l_d l) i)
        in case r of
             OpenFailed \<Rightarrow> (k, next_item p (tally add_error l))
           | WriteFailed \<Rightarrow> (k, l\<lparr>l_pc := AtFailed\<rparr>)
           | Wrote n \<Rightarrow>
               (k, next_item p (if n = w_size p then tally (\<lambda>s. s\<lparr>obj_create := obj_create s + 1\<rparr>) l
                                else tally add_error l)))"

text \<open>The end of a pass, with the stonewall. The argument \<open>late\<close> says whether the timer has run out.\<close>

definition stonewall_step :: "mdw_params \<Rightarrow> bool \<Rightarrow> wear_out \<times> bench_rank \<Rightarrow> wear_out \<times> bench_rank" where
  "stonewall_step p late wl =
     (case wl of (w, l) \<Rightarrow>
        case l_pc l of
          AtTail \<Rightarrow>
            (w, if w_timer p \<and> late
                then l\<lparr>l_pc := (if \<not> w_wear_out p then AtFinish else if \<not> l_contributed l then AtTotal else AtLoad)\<rparr>
                else at_pass p l)
        | AtTotal \<Rightarrow> (w\<lparr>o_armed := True, o_total := max (o_total w) (l_f l + 1)\<rparr>, l\<lparr>l_pc := AtContribute\<rparr>)
        | AtContribute \<Rightarrow> (w\<lparr>o_contributors := o_contributors w + 1\<rparr>, l\<lparr>l_pc := AtSpin\<rparr>)
        | AtSpin \<Rightarrow>
            (w, if o_contributors w + o_finished w < w_threads p then l
                else l\<lparr>l_contributed := True, l_pc := AtLoad\<rparr>)
        | AtLoad \<Rightarrow> (w, at_pass p (if 0 < o_total w then l\<lparr>l_total := o_total w\<rparr> else l))
        | AtFinish \<Rightarrow> (w\<lparr>o_finished := o_finished w + 1\<rparr>, l\<lparr>l_pc := AtDone\<rparr>)
        | _ \<Rightarrow> (w, l))"

definition bench_step ::
  "'k mdw_ops \<Rightarrow> mdw_params \<Rightarrow> nat \<Rightarrow> nat \<Rightarrow> bool \<Rightarrow> 'k \<times> wear_out \<times> bench_rank \<Rightarrow> 'k \<times> wear_out \<times> bench_rank" where
  "bench_step F p rank start late kwl =
     (case kwl of (k, w, l) \<Rightarrow>
        case l_pc l of
          AtStat \<Rightarrow> (let (k, l) = stat_step F p rank start (k, l) in (k, w, l))
        | AtRead \<Rightarrow> (let (k, l) = read_step F p rank start (k, l) in (k, w, l))
        | AtDelete \<Rightarrow> (let (k, l) = delete_step F p rank start (k, l) in (k, w, l))
        | AtCreate \<Rightarrow> (let (k, l) = create_step F p rank start (k, l) in (k, w, l))
        | _ \<Rightarrow> (let (w, l) = stonewall_step p late (w, l) in (k, w, l)))"

section \<open>All ranks\<close>

record 'k bench =
  b_kern :: 'k
  b_wear :: wear_out
  b_rank :: "nat \<Rightarrow> bench_rank"

definition bench_at :: "'k mdw_ops \<Rightarrow> mdw_params \<Rightarrow> (nat \<Rightarrow> nat) \<Rightarrow> nat \<Rightarrow> bool \<Rightarrow> 'k bench \<Rightarrow> 'k bench" where
  "bench_at F p starts r late b =
     (let (k, w, l) = bench_step F p r (starts r) late (b_kern b, b_wear b, b_rank b r)
      in \<lparr>b_kern = k, b_wear = w, b_rank = (b_rank b)(r := l)\<rparr>)"

definition start_bench :: "mdw_params \<Rightarrow> 'k \<Rightarrow> 'k bench" where
  "start_bench p k = \<lparr>b_kern = k, b_wear = new_wear_out, b_rank = (\<lambda>r. start_rank p)\<rparr>"

inductive bench_reaches :: "'k mdw_ops \<Rightarrow> mdw_params \<Rightarrow> (nat \<Rightarrow> nat) \<Rightarrow> 'k \<Rightarrow> 'k bench \<Rightarrow> bool"
  for F p starts k where
  start: "bench_reaches F p starts k (start_bench p k)"
| move: "bench_reaches F p starts k b \<Longrightarrow> r < w_threads p \<Longrightarrow> bench_reaches F p starts k (bench_at F p starts r late b)"

text \<open>A schedule names the ranks in the order of their steps.\<close>

definition run_bench :: "'k mdw_ops \<Rightarrow> mdw_params \<Rightarrow> (nat \<Rightarrow> nat) \<Rightarrow> (nat \<times> bool) list \<Rightarrow> 'k bench \<Rightarrow> 'k bench" where
  "run_bench F p starts sched b =
     fold (\<lambda>(r, late) b. if r < w_threads p then bench_at F p starts r late b else b) sched b"

definition ended :: "mdw_params \<Rightarrow> 'k bench \<Rightarrow> bool" where
  "ended p b \<longleftrightarrow> (\<forall>r < w_threads p. l_pc (b_rank b r) = AtDone \<or> l_pc (b_rank b r) = AtFailed)"

definition next_start :: "mdw_params \<Rightarrow> nat \<Rightarrow> bench_rank \<Rightarrow> nat" where
  "next_start p c l = (if l_pc l = AtDone \<and> \<not> w_read_only p then c + l_f l else c)"

section \<open>A whole run\<close>

text \<open>None is the error of a working directory that cannot be made. The statistics of each phase, for all ranks. The ranks of precreation and clean-up work on data sets
  of their own, so they are taken one after another; each iteration of the benchmark has a schedule.\<close>

record 'k mdw_run =
  r_kern :: 'k
  r_start :: "nat \<Rightarrow> nat"
  r_phases :: "phase_stat list list"

definition precreate_phase :: "'k mdw_ops \<Rightarrow> mdw_params \<Rightarrow> 'k mdw_run \<Rightarrow> 'k mdw_run" where
  "precreate_phase F p s =
     (let (k, sts) = fold (\<lambda>r (k, sts).
           let ((k, st), ok) = run_precreate_rank F p r (r_start s r) (k, no_stat) in (k, sts @ [st]))
         [0..<w_threads p] (r_kern s, [])
      in s\<lparr>r_kern := k, r_phases := r_phases s @ [sts]\<rparr>)"

definition bench_phase :: "'k mdw_ops \<Rightarrow> mdw_params \<Rightarrow> (nat \<times> bool) list \<Rightarrow> 'k mdw_run \<Rightarrow> 'k mdw_run" where
  "bench_phase F p sched s =
     (let b = run_bench F p (r_start s) sched (start_bench p (r_kern s))
      in \<lparr>r_kern = b_kern b, r_start = (\<lambda>r. next_start p (r_start s r) (b_rank b r)),
          r_phases = r_phases s @ [map (\<lambda>r. l_stat (b_rank b r)) [0..<w_threads p]]\<rparr>)"

definition cleanup_phase :: "'k mdw_ops \<Rightarrow> mdw_params \<Rightarrow> 'k mdw_run \<Rightarrow> 'k mdw_run" where
  "cleanup_phase F p s =
     (let (k, sts) = fold (\<lambda>r (k, sts).
           let (k, st) = run_cleanup_rank F p r (r_start s r) (k, no_stat) in (k, sts @ [st]))
         [0..<w_threads p] (r_kern s, [])
      in s\<lparr>r_kern := fst (w_rmdir F k (w_prefix p)), r_phases := r_phases s @ [sts]\<rparr>)"

definition mdw_run :: "'k mdw_ops \<Rightarrow> mdw_params \<Rightarrow> (nat \<times> bool) list list \<Rightarrow> 'k \<Rightarrow> 'k mdw_run option" where
  "mdw_run F p scheds k =
     (let (k, ok) = (if w_phase_pre p then w_mkdir_all F k (w_prefix p) else (k, True));
          s = \<lparr>r_kern = k, r_start = (\<lambda>r. w_start p), r_phases = []\<rparr>;
          s = (if w_phase_pre p then precreate_phase F p s else s);
          s = (if w_phase_bench p then fold (bench_phase F p) scheds s else s);
          s = (if w_phase_clean p then cleanup_phase F p s else s)
      in if ok then Some s else None)"

definition total_errors :: "phase_stat list list \<Rightarrow> nat" where
  "total_errors ph = sum_list (map (\<lambda>sts. sum_list (map n_errors sts)) ph)"

definition mdw_status :: "phase_stat list list \<Rightarrow> string" where
  "mdw_status ph = (if 0 < total_errors ph then ''failed'' else ''ok'')"

end
