(* ===== verification/Mdworkbench_Correct.thy ===== *)
theory Mdworkbench_Correct
  imports Mdworkbench
begin

text \<open>
  The working set of mdworkbench: what a file system without faults documents, the objects that are there
  at every point of an iteration as a function of where the ranks are, and that every step of every
  rank keeps this picture.
\<close>

section \<open>Names and ranks\<close>

lemma dset_path_inj: "dset_path p t d = dset_path p t' d' \<longleftrightarrow> t = t' \<and> d = d'"
proof
  assume "dset_path p t d = dset_path p t' d'"
  then have "dec_str t @ CHR ''_'' # dec_str d = dec_str t' @ CHR ''_'' # dec_str d'"
    by (simp add: dset_path_def)
  from dec_str_split[OF this] show "t = t' \<and> d = d'" by (auto simp: is_digit_def ord_def dest: dec_str_inj)
qed simp

lemma obj_path_inj: "obj_path p t d i = obj_path p t' d' i' \<longleftrightarrow> t = t' \<and> d = d' \<and> i = i'"
  by (auto simp: obj_path_def dset_path_inj dest: dec_str_inj)

lemma obj_not_dset: "obj_path p t d i \<noteq> dset_path p t' d'" "obj_path p t d i \<noteq> w_prefix p"
    "dset_path p t d \<noteq> w_prefix p"
  by (simp_all add: obj_path_def dset_path_def)

lemma butlast_names: "butlast (obj_path p t d i) = dset_path p t d" "butlast (dset_path p t d) = w_prefix p"
  by (simp_all add: obj_path_def dset_path_def butlast_append)

lemma read_rank_less: "0 < w_threads p \<Longrightarrow> read_rank p r d < w_threads p"
  unfolding read_rank_def by (simp only: nat_less_iff pos_mod_sign of_nat_0_less_iff pos_mod_bound)

lemma write_rank_less: "0 < w_threads p \<Longrightarrow> write_rank p r d < w_threads p"
  by (simp add: write_rank_def)

text \<open>Reading from a rank and writing to it undo each other: the rank that reads the objects of a rank is the one
  that this rank writes to.\<close>

lemma read_write_rank:
  assumes "r < w_threads p" "t < w_threads p"
  shows "read_rank p r d = t \<longleftrightarrow> write_rank p t d = r"
proof -
  let ?T = "int (w_threads p)" and ?o = "int (w_offset p * (d + 1))"
  have "read_rank p r d = t \<longleftrightarrow> (int r + ?T - ?o) mod ?T = int t"
    using assms by (auto simp: read_rank_def)
  also have "\<dots> \<longleftrightarrow> (int r - ?o) mod ?T = int t" by (metis diff_add_eq mod_add_self2)
  also have "\<dots> \<longleftrightarrow> (int t + ?o) mod ?T = int r"
  proof
    assume "(int r - ?o) mod ?T = int t"
    then have "(int t + ?o) mod ?T = ((int r - ?o) + ?o) mod ?T" by (metis mod_add_left_eq)
    then show "(int t + ?o) mod ?T = int r" using assms(1) by simp
  next
    assume "(int t + ?o) mod ?T = int r"
    then have "(int r - ?o) mod ?T = ((int t + ?o) - ?o) mod ?T" by (metis mod_diff_left_eq)
    then show "(int r - ?o) mod ?T = int t" using assms(2) by simp
  qed
  also have "\<dots> \<longleftrightarrow> write_rank p t d = r" by (simp only: write_rank_def zmod_int[symmetric] of_nat_add[symmetric] of_nat_eq_iff)
  finally show ?thesis .
qed

section \<open>A file system without faults\<close>

datatype node = DirNode | FileNode "u8 list"

text \<open>What POSIX documents of the calls, for a disk with room: \<open>view\<close> shows the nodes.\<close>

definition faultless :: "'k mdw_ops \<Rightarrow> ('k \<Rightarrow> path \<Rightarrow> node option) \<Rightarrow> bool" where
  "faultless F view \<longleftrightarrow>
     (\<forall>k q. view k q = None \<and> view k (butlast q) = Some DirNode \<longrightarrow>
        snd (w_mkdir_all F k q) \<and> view (fst (w_mkdir_all F k q)) = (view k)(q \<mapsto> DirNode))
   \<and> (\<forall>k q. view k q = None \<and> view k (butlast q) = Some DirNode \<longrightarrow>
        snd (w_mkdir F k q) = Made \<and> view (fst (w_mkdir F k q)) = (view k)(q \<mapsto> DirNode))
   \<and> (\<forall>k q v. view k q = None \<and> view k (butlast q) = Some DirNode \<longrightarrow>
        snd (w_create F k q v) = Wrote (length v) \<and> view (fst (w_create F k q v)) = (view k)(q \<mapsto> FileNode v))
   \<and> (\<forall>k q. w_stat F k q \<longleftrightarrow> view k q \<noteq> None)
   \<and> (\<forall>k q v. view k q = Some (FileNode v) \<longrightarrow>
        snd (w_read F k q (length v)) = Got v \<and> view (fst (w_read F k q (length v))) = view k)
   \<and> (\<forall>k q v. view k q = Some (FileNode v) \<longrightarrow>
        snd (w_remove F k q) = Removed \<and> view (fst (w_remove F k q)) = (view k)(q := None))
   \<and> (\<forall>k q. view k q = Some DirNode \<and> (\<forall>x. view k (q @ [x]) = None) \<longrightarrow>
        view (fst (w_rmdir F k q)) = (view k)(q := None))"

lemma faultless_laws:
  assumes "faultless F view"
  shows "view k q = None \<Longrightarrow> view k (butlast q) = Some DirNode \<Longrightarrow> w_mkdir_all F k q = (k', ok) \<Longrightarrow>
      ok \<and> view k' = (view k)(q \<mapsto> DirNode)"
    "view k q = None \<Longrightarrow> view k (butlast q) = Some DirNode \<Longrightarrow> w_mkdir F k q = (k', m) \<Longrightarrow>
      m = Made \<and> view k' = (view k)(q \<mapsto> DirNode)"
    "view k q = None \<Longrightarrow> view k (butlast q) = Some DirNode \<Longrightarrow> w_create F k q v = (k', r) \<Longrightarrow>
      r = Wrote (length v) \<and> view k' = (view k)(q \<mapsto> FileNode v)"
    "w_stat F k q \<longleftrightarrow> view k q \<noteq> None"
    "view k q = Some (FileNode v) \<Longrightarrow> n = length v \<Longrightarrow> w_read F k q n = (k', g) \<Longrightarrow> g = Got v \<and> view k' = view k"
    "view k q = Some (FileNode v) \<Longrightarrow> w_remove F k q = (k', rm) \<Longrightarrow> rm = Removed \<and> view k' = (view k)(q := None)"
    "view k q = Some DirNode \<Longrightarrow> \<forall>x. view k (q @ [x]) = None \<Longrightarrow> view (fst (w_rmdir F k q)) = (view k)(q := None)"
  using assms unfolding faultless_def by (metis fst_conv snd_conv)+

section \<open>The objects in the middle of an iteration\<close>

text \<open>What a rank has deleted and created: the object of pass \<open>f\<close> and data set \<open>d\<close>.\<close>

definition deleted :: "bench_rank \<Rightarrow> nat \<Rightarrow> nat \<Rightarrow> bool" where
  "deleted l f d \<longleftrightarrow> f < l_f l \<or> f = l_f l \<and> (d < l_d l \<or> d = l_d l \<and> l_pc l = AtCreate)"

definition created :: "bench_rank \<Rightarrow> nat \<Rightarrow> nat \<Rightarrow> bool" where
  "created l f d \<longleftrightarrow> f < l_f l \<or> f = l_f l \<and> d < l_d l"

definition present :: "mdw_params \<Rightarrow> nat \<Rightarrow> (nat \<Rightarrow> bench_rank) \<Rightarrow> nat \<Rightarrow> nat \<Rightarrow> nat \<Rightarrow> bool" where
  "present p c ls t d i \<longleftrightarrow> c \<le> i \<and>
     (if i < c + w_precreate p then \<not> deleted (ls (write_rank p t d)) (i - c) d
      else created (ls (read_rank p t d)) (i - c - w_precreate p) d)"

text \<open>The nodes: objects where \<open>there\<close> says so, anything else as in \<open>v\<close>.\<close>

definition is_obj :: "mdw_params \<Rightarrow> path \<Rightarrow> bool" where
  "is_obj p q \<longleftrightarrow> (\<exists>t d i. t < w_threads p \<and> d < w_dsets p \<and> q = obj_path p t d i)"

definition holds_objects ::
  "mdw_params \<Rightarrow> (path \<Rightarrow> node option) \<Rightarrow> (nat \<Rightarrow> nat \<Rightarrow> nat \<Rightarrow> bool) \<Rightarrow> (path \<Rightarrow> node option) \<Rightarrow> bool" where
  "holds_objects p v there w \<longleftrightarrow>
     (\<forall>t d i. t < w_threads p \<and> d < w_dsets p \<longrightarrow>
        w (obj_path p t d i) = (if there t d i then Some (FileNode (obj_content p t d i)) else None))
     \<and> (\<forall>q. \<not> is_obj p q \<longrightarrow> w q = v q)"

lemma holds_objects_insert:
  assumes "holds_objects p v there w" "t < w_threads p" "d < w_dsets p"
  shows "holds_objects p v (\<lambda>t' d' i'. (t' = t \<and> d' = d \<and> i' = i) \<or> there t' d' i')
    (w(obj_path p t d i \<mapsto> FileNode (obj_content p t d i)))"
  using assms unfolding holds_objects_def is_obj_def by (auto simp: obj_path_inj)

lemma holds_objects_remove:
  assumes "holds_objects p v there w" "t < w_threads p" "d < w_dsets p"
  shows "holds_objects p v (\<lambda>t' d' i'. \<not> (t' = t \<and> d' = d \<and> i' = i) \<and> there t' d' i') (w(obj_path p t d i := None))"
  using assms unfolding holds_objects_def is_obj_def by (auto simp: obj_path_inj)

lemma holds_objects_cong:
  assumes "holds_objects p v there w" "\<And>t d i. t < w_threads p \<Longrightarrow> d < w_dsets p \<Longrightarrow> there t d i = there' t d i"
  shows "holds_objects p v there' w"
  using assms unfolding holds_objects_def by auto

text \<open>Where a rank may be, without a stonewall, and what it has counted.\<close>

definition inner :: "bench_pc \<Rightarrow> bool" where
  "inner pc \<longleftrightarrow> pc \<in> {AtStat, AtRead, AtDelete, AtCreate}"

definition rank_ok :: "mdw_params \<Rightarrow> bench_rank \<Rightarrow> bool" where
  "rank_ok p l \<longleftrightarrow>
     l_total l = w_num p \<and> l_f l \<le> w_num p
     \<and> (if inner (l_pc l) then l_f l < w_num p \<and> l_d l < w_dsets p
        else l_d l = 0 \<and> l_pc l \<in> {AtTail, AtFinish, AtDone} \<and> (l_pc l \<noteq> AtTail \<longrightarrow> l_f l = w_num p))
     \<and> l_stat l =
        (let n = l_f l * w_dsets p + l_d l; pc = l_pc l
         in no_stat\<lparr>obj_stat := n + of_bool (pc \<in> {AtRead, AtDelete, AtCreate}), obj_read := n + of_bool (pc \<in> {AtDelete, AtCreate}),
              obj_delete := n + of_bool (pc = AtCreate), obj_create := n\<rparr>)"


lemmas ops_defs = stat_step_def read_step_def delete_step_def create_step_def stonewall_step_def tally_def

lemma at_item_ok:
  assumes "w_dsets p = 0 \<or> l_d l \<le> w_dsets p" "l_total l = w_num p" "l_f l < w_num p"
    "l_stat l = (let n = l_f l * w_dsets p + l_d l in no_stat\<lparr>obj_stat := n, obj_read := n, obj_delete := n, obj_create := n\<rparr>)"
    "w_dsets p = 0 \<longrightarrow> l_d l = 0"
  shows "rank_ok p (at_item p l)"
proof -
  have "l_d l = w_dsets p" if "\<not> l_d l < w_dsets p" using assms(1,5) that by auto
  then show ?thesis using assms(2-4) by (auto simp: at_item_def rank_ok_def inner_def Let_def)
qed

lemma next_item_ok:
  assumes "l_total l = w_num p" "l_f l < w_num p" "l_d l < w_dsets p"
    "l_stat l = (let n = l_f l * w_dsets p + l_d l + 1 in no_stat\<lparr>obj_stat := n, obj_read := n, obj_delete := n, obj_create := n\<rparr>)"
  shows "rank_ok p (next_item p l)"
  unfolding next_item_def by (rule at_item_ok) (use assms in \<open>simp_all add: Let_def\<close>)

lemma at_pass_ok:
  assumes "l_total l = w_num p" "l_f l \<le> w_num p" "l_d l = 0"
    "l_stat l = (let n = l_f l * w_dsets p in no_stat\<lparr>obj_stat := n, obj_read := n, obj_delete := n, obj_create := n\<rparr>)"
  shows "rank_ok p (at_pass p l)"
proof (cases "l_f l < l_total l")
  case True
  then show ?thesis unfolding at_pass_def using assms by (simp add: at_item_ok Let_def)
next
  case False
  then show ?thesis unfolding at_pass_def using assms by (simp add: rank_ok_def inner_def Let_def)
qed

lemma start_rank_ok: "rank_ok p (start_rank p)"
  unfolding start_rank_def by (rule at_pass_ok) (simp_all add: no_stat_def)

text \<open>Steps that mark no object as deleted or created.\<close>

definition same_marks :: "mdw_params \<Rightarrow> bench_rank \<Rightarrow> bench_rank \<Rightarrow> bool" where
  "same_marks p l l' \<longleftrightarrow>
     (\<forall>f d. d < w_dsets p \<longrightarrow> deleted l' f d = deleted l f d \<and> created l' f d = created l f d)"

lemma same_marks_at_pass: "l_d l = 0 \<Longrightarrow> l_pc l \<noteq> AtCreate \<Longrightarrow> same_marks p l (at_pass p l)"
  by (auto simp: same_marks_def at_pass_def at_item_def deleted_def created_def)

lemma start_rank_marks: "d < w_dsets p \<Longrightarrow> \<not> deleted (start_rank p) f d \<and> \<not> created (start_rank p) f d"
  by (auto simp: start_rank_def at_pass_def at_item_def deleted_def created_def)

lemma next_item_marks:
  assumes "d < w_dsets p" "l_d l < w_dsets p"
  shows "deleted (next_item p l) f d \<longleftrightarrow> deleted l f d \<or> (f = l_f l \<and> d = l_d l)"
    "created (next_item p l) f d \<longleftrightarrow> created l f d \<or> (f = l_f l \<and> d = l_d l)"
  using assms by (auto simp: next_item_def at_item_def deleted_def created_def)

lemma present_same:
  assumes "same_marks p (ls r) l'" "d < w_dsets p"
  shows "present p c (ls(r := l')) t d i = present p c ls t d i"
  using assms by (auto simp: present_def same_marks_def)

section \<open>Every step keeps the working set\<close>

definition working_set ::
  "('k \<Rightarrow> path \<Rightarrow> node option) \<Rightarrow> mdw_params \<Rightarrow> nat \<Rightarrow> (path \<Rightarrow> node option) \<Rightarrow> 'k \<Rightarrow> (nat \<Rightarrow> bench_rank) \<Rightarrow> bool" where
  "working_set view p c v k ls \<longleftrightarrow>
     (\<forall>r < w_threads p. rank_ok p (ls r)) \<and> holds_objects p v (present p c ls) (view k)"

text \<open>An iteration without a stonewall that deletes and creates, on data sets that exist.\<close>

definition plain :: "mdw_params \<Rightarrow> (path \<Rightarrow> node option) \<Rightarrow> bool" where
  "plain p v \<longleftrightarrow> \<not> w_timer p \<and> \<not> w_read_only p \<and> w_num p \<le> w_precreate p
     \<and> (\<forall>t d. t < w_threads p \<and> d < w_dsets p \<longrightarrow> v (dset_path p t d) = Some DirNode)"

lemma obj_content_length: "length (obj_content p t d i) = w_size p"
  by (simp add: obj_content_def content_length)

lemma held:
  "holds_objects p v there w \<Longrightarrow> t < w_threads p \<Longrightarrow> d < w_dsets p \<Longrightarrow>
    w (obj_path p t d i) = (if there t d i then Some (FileNode (obj_content p t d i)) else None)"
  by (simp add: holds_objects_def)

lemma dset_held:
  assumes "holds_objects p v there w" "plain p v" "t < w_threads p" "d < w_dsets p"
  shows "w (dset_path p t d) = Some DirNode"
proof -
  have "\<not> is_obj p (dset_path p t d)" using obj_not_dset(1) by (metis is_obj_def)
  with assms show ?thesis by (simp add: holds_objects_def plain_def)
qed

lemma oldest_present:
  assumes "rank_ok p (ls r)" "r < w_threads p" "l_pc (ls r) \<in> {AtStat, AtRead, AtDelete}" "w_num p \<le> w_precreate p"
  shows "present p c ls (read_rank p r (l_d (ls r))) (l_d (ls r)) (l_f (ls r) + c)"
proof -
  have "write_rank p (read_rank p r (l_d (ls r))) (l_d (ls r)) = r"
    using read_write_rank read_rank_less assms(2) by (metis gr_zeroI not_less_zero)
  then show ?thesis using assms by (auto simp: present_def deleted_def rank_ok_def inner_def)
qed

lemma newest_absent:
  assumes "r < w_threads p"
  shows "\<not> present p c ls (write_rank p r (l_d (ls r))) (l_d (ls r)) (w_precreate p + (l_f (ls r) + c))"
proof -
  have "read_rank p (write_rank p r (l_d (ls r))) (l_d (ls r)) = r"
    using read_write_rank write_rank_less assms by (metis gr_zeroI not_less_zero)
  then show ?thesis by (simp add: present_def created_def)
qed

lemma present_delete:
  assumes "rank_ok p (ls r)" "r < w_threads p" "l_pc (ls r) = AtDelete" "w_num p \<le> w_precreate p"
    "t < w_threads p" "l_d l' = l_d (ls r)" "l_f l' = l_f (ls r)" "l_pc l' = AtCreate"
  shows "(\<not> (t = read_rank p r (l_d (ls r)) \<and> d = l_d (ls r) \<and> i = l_f (ls r) + c) \<and> present p c ls t d i) =
    present p c (ls(r := l')) t d i"
proof -
  have del: "deleted l' f d \<longleftrightarrow> deleted (ls r) f d \<or> (f = l_f (ls r) \<and> d = l_d (ls r))" for f
    using assms(3,6-8) by (auto simp: deleted_def)
  have cre: "created l' f d = created (ls r) f d" for f using assms(6,7) by (simp add: created_def)
  have f: "l_f (ls r) < w_precreate p" using assms(1,3,4) by (simp add: rank_ok_def inner_def)
  have "write_rank p t d = r \<longleftrightarrow> t = read_rank p r d" using read_write_rank[OF assms(2,5), of d] by metis
  then show ?thesis using f by (auto simp: present_def del cre)
qed

lemma present_create:
  assumes "rank_ok p (ls r)" "r < w_threads p" "l_pc (ls r) = AtCreate" "t < w_threads p" "d < w_dsets p"
    "l' = next_item p l" "l_d l = l_d (ls r)" "l_f l = l_f (ls r)" "l_pc l = AtCreate"
  shows "(t = write_rank p r (l_d (ls r)) \<and> d = l_d (ls r) \<and> i = w_precreate p + (l_f (ls r) + c) \<or> present p c ls t d i) =
    present p c (ls(r := l')) t d i"
proof -
  have dl: "l_d l < w_dsets p" using assms(1,3,7) by (simp add: rank_ok_def inner_def)
  have del: "deleted l' f d = deleted (ls r) f d" for f
    using next_item_marks(1)[OF assms(5) dl] assms(3,6-9) by (auto simp: deleted_def)
  have cre: "created l' f d \<longleftrightarrow> created (ls r) f d \<or> (f = l_f (ls r) \<and> d = l_d (ls r))" for f
    using next_item_marks(2)[OF assms(5) dl] assms(6-8) by (auto simp: created_def)
  have r: "read_rank p t d = r \<longleftrightarrow> t = write_rank p r d" using read_write_rank[OF assms(4,2), of d] by metis
  show ?thesis
  proof (cases "i < c + w_precreate p")
    case True
    have "deleted ((ls(r := l')) x) (i - c) d = deleted (ls x) (i - c) d" for x by (simp add: del)
    with True show ?thesis by (simp add: present_def)
  next
    case False
    then have i: "i = w_precreate p + (l_f (ls r) + c) \<longleftrightarrow> i - c - w_precreate p = l_f (ls r)" "c \<le> i" by linarith+
    have "created ((ls(r := l')) x) f d \<longleftrightarrow> created (ls x) f d \<or> (x = r \<and> f = l_f (ls r) \<and> d = l_d (ls r))" for x f
      by (simp add: cre)
    then have "present p c (ls(r := l')) t d i \<longleftrightarrow> created (ls (read_rank p t d)) (i - c - w_precreate p) d
        \<or> (read_rank p t d = r \<and> i - c - w_precreate p = l_f (ls r) \<and> d = l_d (ls r))"
      using False i(2) by (simp add: present_def)
    moreover have "present p c ls t d i \<longleftrightarrow> created (ls (read_rank p t d)) (i - c - w_precreate p) d"
      using False i(2) by (simp add: present_def)
    ultimately show ?thesis using r i(1) by metis
  qed
qed

lemma rank_ok_create:
  assumes "rank_ok p l" "l_pc l = AtCreate"
  shows "l_total l = w_num p" "l_f l < w_num p" "l_d l < w_dsets p"
    "l_stat l = (let n = l_f l * w_dsets p + l_d l in
       no_stat\<lparr>obj_stat := n + 1, obj_read := n + 1, obj_delete := n + 1, obj_create := n\<rparr>)"
  using assms by (simp_all add: rank_ok_def inner_def Let_def)

lemma create_ok:
  assumes "rank_ok p l" "l_pc l = AtCreate"
  shows "rank_ok p (next_item p (l\<lparr>l_stat := (l_stat l)\<lparr>obj_create := obj_create (l_stat l) + 1\<rparr>\<rparr>))"
  by (rule next_item_ok) (simp_all add: rank_ok_create[OF assms] Let_def)

lemma rank_ok_fine: "rank_ok p l \<Longrightarrow> n_errors (l_stat l) = 0 \<and> l_pc l \<noteq> AtFailed"
  by (cases "l_pc l") (simp_all add: rank_ok_def inner_def no_stat_def Let_def)

lemma rank_ok_done:
  "rank_ok p l \<Longrightarrow> l_pc l = AtDone \<Longrightarrow> l_f l = w_num p \<and> l_d l = 0 \<and> obj_read (l_stat l) = w_num p * w_dsets p
    \<and> obj_delete (l_stat l) = w_num p * w_dsets p \<and> obj_create (l_stat l) = w_num p * w_dsets p"
  by (simp add: rank_ok_def inner_def Let_def)

lemma tail_ok:
  assumes "rank_ok p l" "l_pc l = AtTail"
  shows "rank_ok p (at_pass p l)" "l_d l = 0"
proof -
  have "l_total l = w_num p" "l_f l \<le> w_num p" "l_d l = 0"
    "l_stat l = (let n = l_f l * w_dsets p in no_stat\<lparr>obj_stat := n, obj_read := n, obj_delete := n, obj_create := n\<rparr>)"
    using assms by (simp_all add: rank_ok_def inner_def Let_def)
  then show "rank_ok p (at_pass p l)" "l_d l = 0" by (simp_all add: at_pass_ok)
qed

text \<open>One step of one rank.\<close>

lemma bench_step_keeps:
  assumes law: "faultless F view" and pl: "plain p v" and ws: "working_set view p c v k ls"
    and r: "r < w_threads p" and step: "bench_step F p r c late (k, w, ls r) = (k', w', l')"
  shows "working_set view p c v k' (ls(r := l'))"
proof -
  note L = faultless_laws[OF law]
  let ?l = "ls r" and ?rr = "read_rank p r (l_d (ls r))" and ?wr = "write_rank p r (l_d (ls r))"
  let ?old = "obj_path p ?rr (l_d ?l) (l_f ?l + c)" and ?ni = "w_precreate p + (l_f ?l + c)"
  have ok: "rank_ok p ?l" and H: "holds_objects p v (present p c ls) (view k)" using ws r by (simp_all add: working_set_def)
  have T: "0 < w_threads p" using r by simp
  have num: "w_num p \<le> w_precreate p" and opts: "\<not> w_timer p" "\<not> w_read_only p" using pl by (simp_all add: plain_def)
  have rr: "?rr < w_threads p" and wr: "?wr < w_threads p" using read_rank_less[OF T] write_rank_less[OF T] by blast+
  have keep: "working_set view p c v k' (ls(r := l'))"
    if "view k' = view k" "rank_ok p l'" "same_marks p ?l l'"
  proof -
    have "holds_objects p v (present p c (ls(r := l'))) (view k')"
      using holds_objects_cong[OF H, of "present p c (ls(r := l'))"] present_same[of p ls r l', OF that(3)] that(1) by metis
    then show ?thesis using ws that(2) by (simp add: working_set_def)
  qed
  have old: "view k ?old = Some (FileNode (obj_content p ?rr (l_d ?l) (l_f ?l + c)))"
    if "l_pc ?l \<in> {AtStat, AtRead, AtDelete}" "inner (l_pc ?l)"
    using held[OF H rr, of "l_d ?l" "l_f ?l + c"] oldest_present[where p = p and ls = ls and r = r and c = c, OF ok r that(1) num] ok that(2) by (simp add: rank_ok_def)
  consider "l_pc ?l = AtStat" | "l_pc ?l = AtRead" | "l_pc ?l = AtDelete" | "l_pc ?l = AtCreate"
    | "l_pc ?l = AtTail" | "l_pc ?l = AtFinish" | "l_pc ?l = AtDone"
    using ok by (auto simp: rank_ok_def inner_def split: if_splits)
  then show ?thesis
  proof cases
    case 1
    then have "w_stat F k ?old" using L(4) old by (simp add: inner_def)
    with step 1 have "k' = k" "l' = ?l\<lparr>l_stat := (l_stat ?l)\<lparr>obj_stat := obj_stat (l_stat ?l) + 1\<rparr>, l_pc := AtRead\<rparr>"
      by (simp_all add: bench_step_def ops_defs)
    with ok 1 show ?thesis
      by (intro keep) (simp_all add: rank_ok_def inner_def Let_def same_marks_def deleted_def created_def)
  next
    case 2
    obtain k1 g where rd: "w_read F k ?old (w_size p) = (k1, g)" by fastforce
    have "g = Got (obj_content p ?rr (l_d ?l) (l_f ?l + c)) \<and> view k1 = view k"
      by (rule L(5)[OF _ _ rd]) (simp_all add: old 2 inner_def obj_content_length)
    with step 2 rd opts have "view k' = view k" "l' = ?l\<lparr>l_stat := (l_stat ?l)\<lparr>obj_read := obj_read (l_stat ?l) + 1\<rparr>, l_pc := AtDelete\<rparr>"
      by (auto simp: bench_step_def ops_defs Let_def)
    with ok 2 show ?thesis
      by (intro keep) (simp_all add: rank_ok_def inner_def Let_def same_marks_def deleted_def created_def)
  next
    case 3
    obtain k1 rm where rm: "w_remove F k ?old = (k1, rm)" by fastforce
    have del: "rm = Removed \<and> view k1 = (view k)(?old := None)" by (rule L(6)[OF _ rm]) (simp add: old 3 inner_def)
    with step 3 rm have k': "k' = k1" and l': "l' = ?l\<lparr>l_stat := (l_stat ?l)\<lparr>obj_delete := obj_delete (l_stat ?l) + 1\<rparr>, l_pc := AtCreate\<rparr>"
      by (simp_all add: bench_step_def ops_defs Let_def)
    have "l_d ?l < w_dsets p" using ok 3 by (simp add: rank_ok_def inner_def)
    note rem = holds_objects_remove[OF H rr this, of "l_f ?l + c"]
    have "holds_objects p v (present p c (ls(r := l'))) (view k')"
      unfolding k' conjunct2[OF del]
      by (rule holds_objects_cong[OF rem], rule present_delete[where p = p and ls = ls and r = r, OF ok r 3 num]) (simp_all add: l')
    moreover have "rank_ok p l'" using ok 3 by (simp add: l' rank_ok_def inner_def Let_def)
    ultimately show ?thesis using ws by (simp add: working_set_def)
  next
    case 4
    let ?new = "obj_path p ?wr (l_d ?l) ?ni" and ?data = "obj_content p ?wr (l_d ?l) ?ni"
    have d: "l_d ?l < w_dsets p" using ok 4 by (simp add: rank_ok_def inner_def)
    obtain k1 cr where c: "w_create F k ?new ?data = (k1, cr)" by fastforce
    have free: "view k ?new = None" using held[OF H wr d, of ?ni] newest_absent[where p = p and ls = ls and r = r and c = c, OF r] by simp
    have "view k (butlast ?new) = Some DirNode" using dset_held[OF H pl wr d] by (simp only: butlast_names)
    then have cre: "cr = Wrote (w_size p) \<and> view k1 = (view k)(?new \<mapsto> FileNode ?data)"
      using L(3)[OF free _ c] by (simp only: obj_content_length)
    let ?l1 = "?l\<lparr>l_stat := (l_stat ?l)\<lparr>obj_create := obj_create (l_stat ?l) + 1\<rparr>\<rparr>"
    have k': "k' = k1" and l': "l' = next_item p ?l1"
      using step 4 c cre by (simp_all add: bench_step_def ops_defs Let_def)
    note ins = holds_objects_insert[OF H wr d, of ?ni]
    have "holds_objects p v (present p c (ls(r := l'))) ((view k)(?new \<mapsto> FileNode ?data))"
    proof (rule holds_objects_cong[OF ins])
      fix t d i
      assume "t < w_threads p" "d < w_dsets p"
      from present_create[where p = p and ls = ls and r = r, OF ok r 4 this l'] 4
      show "(t = ?wr \<and> d = l_d ?l \<and> i = ?ni \<or> present p c ls t d i) = present p c (ls(r := l')) t d i"
        by simp
    qed
    then have "holds_objects p v (present p c (ls(r := l'))) (view k')" by (simp only: k' conjunct2[OF cre])
    moreover have "rank_ok p l'" unfolding l' by (rule create_ok[OF ok 4])
    ultimately show ?thesis using ws by (simp add: working_set_def)
  next
    case 5
    then have "k' = k" "l' = at_pass p ?l" using step opts by (simp_all add: bench_step_def ops_defs)
    with 5 tail_ok[OF ok 5] same_marks_at_pass[of ?l p] show ?thesis by (intro keep) simp_all
  next
    case 6
    then have "k' = k" "l' = ?l\<lparr>l_pc := AtDone\<rparr>" using step by (simp_all add: bench_step_def ops_defs)
    with ok 6 show ?thesis
      by (intro keep) (simp_all add: rank_ok_def inner_def Let_def same_marks_def deleted_def created_def)
  next
    case 7
    then have "k' = k" "l' = ?l" using step by (simp_all add: bench_step_def ops_defs)
    with ok show ?thesis by (intro keep) (simp_all add: same_marks_def)
  qed
qed

end
