(* ===== verification/Mdworkbench_Run.thy ===== *)
theory Mdworkbench_Run
  imports Mdworkbench_Correct
begin

text \<open>
  Runs of mdworkbench: an iteration of the benchmark under any schedule, how long it takes, and the
  precreation and clean-up of the data sets.
\<close>

section \<open>An iteration of the benchmark\<close>

definition stock :: "mdw_params \<Rightarrow> nat \<Rightarrow> nat \<Rightarrow> nat \<Rightarrow> nat \<Rightarrow> bool" where
  "stock p c t d i \<longleftrightarrow> c \<le> i \<and> i < c + w_precreate p"

lemma reaches_working_set:
  assumes "faultless F view" "plain p v" "\<forall>r < w_threads p. starts r = c" "holds_objects p v (stock p c) (view k)"
    "bench_reaches F p starts k b"
  shows "working_set view p c v (b_kern b) (b_rank b)"
  using assms(5)
proof (induction rule: bench_reaches.induct)
  case start
  have "holds_objects p v (present p c (\<lambda>r. start_rank p)) (view k)"
    by (rule holds_objects_cong[OF assms(4)]) (auto simp: present_def stock_def start_rank_marks)
  then show ?case by (simp add: working_set_def start_bench_def start_rank_ok)
next
  case (move b r late)
  obtain k' w' l' where step: "bench_step F p r c late (b_kern b, b_wear b, b_rank b r) = (k', w', l')"
    using prod_cases3 by blast
  then show ?case using bench_step_keeps[OF assms(1,2) move.IH move.hyps(2) step] assms(3) move.hyps(2)
    by (simp add: bench_at_def fun_upd_def)
qed

lemma ended_objects:
  assumes "working_set view p c v k ls" "w_num p \<le> w_precreate p" "\<forall>r < w_threads p. l_pc (ls r) = AtDone"
  shows "holds_objects p v (stock p (c + w_num p)) (view k)"
proof -
  have H: "holds_objects p v (present p c ls) (view k)" using assms(1) by (simp add: working_set_def)
  have f: "l_f (ls r) = w_num p" "l_d (ls r) = 0" if "r < w_threads p" for r
    using assms(1,3) that by (auto simp: working_set_def rank_ok_def inner_def)
  show ?thesis
  proof (rule holds_objects_cong[OF H])
    fix t d i assume t: "t < w_threads p"
    then have "read_rank p t d < w_threads p" "write_rank p t d < w_threads p"
      by (auto intro: read_rank_less write_rank_less)
    with f assms(2,3) show "present p c ls t d i = stock p (c + w_num p) t d i"
      by (auto simp: present_def stock_def deleted_def created_def)
  qed
qed

lemma run_reaches: "bench_reaches F p starts k b \<Longrightarrow> bench_reaches F p starts k (run_bench F p starts sched b)"
  unfolding run_bench_def
proof (induction sched arbitrary: b)
  case (Cons x sched)
  obtain r late where x: "x = (r, late)" by fastforce
  have "bench_reaches F p starts k (if r < w_threads p then bench_at F p starts r late b else b)"
    using Cons.prems by (simp add: bench_reaches.move)
  from Cons.IH[OF this] show ?case by (simp add: x)
qed simp

section \<open>The length of an iteration\<close>

text \<open>Without a stonewall every step of a rank that has not ended moves it on, whatever its calls return.\<close>

definition bench_len :: "mdw_params \<Rightarrow> nat" where
  "bench_len p = (4 * w_dsets p + 1) * w_num p + 2"

definition spot :: "mdw_params \<Rightarrow> bench_rank \<Rightarrow> nat" where
  "spot p l =
     (let n = (4 * w_dsets p + 1) * l_f l + 4 * l_d l
      in case l_pc l of
           AtStat \<Rightarrow> n + 1 | AtRead \<Rightarrow> n + 2 | AtDelete \<Rightarrow> n + 3 | AtCreate \<Rightarrow> n + 4 | AtTail \<Rightarrow> n
         | AtFinish \<Rightarrow> (4 * w_dsets p + 1) * w_num p + 1 | _ \<Rightarrow> bench_len p)"

definition placed :: "mdw_params \<Rightarrow> bench_rank \<Rightarrow> bool" where
  "placed p l \<longleftrightarrow> l_total l = w_num p
     \<and> (inner (l_pc l) \<longrightarrow> l_f l < w_num p \<and> l_d l < w_dsets p) \<and> (l_pc l = AtTail \<longrightarrow> l_f l \<le> w_num p \<and> l_d l = 0)
     \<and> (inner (l_pc l) \<or> l_pc l \<in> {AtTail, AtFinish, AtDone, AtFailed})"

lemma placed_next:
  assumes "l_total l = w_num p" "l_f l < w_num p" "l_d l < w_dsets p"
  shows "placed p (next_item p l)" "spot p (next_item p l) = (4 * w_dsets p + 1) * l_f l + 4 * l_d l + 5"
proof -
  show "placed p (next_item p l)" using assms by (simp add: next_item_def at_item_def placed_def inner_def)
  show "spot p (next_item p l) = (4 * w_dsets p + 1) * l_f l + 4 * l_d l + 5"
  proof (cases "l_d l + 1 < w_dsets p")
    case False
    then have "w_dsets p = l_d l + 1" using assms(3) by linarith
    then show ?thesis by (simp add: next_item_def at_item_def spot_def Let_def)
  qed (simp add: next_item_def at_item_def spot_def Let_def)
qed

lemma placed_pass:
  assumes "l_total l = w_num p" "l_f l \<le> w_num p" "l_d l = 0"
  shows "placed p (at_pass p l)" "spot p (at_pass p l) = (4 * w_dsets p + 1) * l_f l + 1"
  using assms by (simp_all add: at_pass_def at_item_def placed_def inner_def spot_def Let_def)

lemma bench_step_advances:
  assumes pl: "placed p l" and t: "\<not> w_timer p" and step: "bench_step F p r c late (k, w, l) = (k', w', l')"
  shows "placed p l' \<and> min (bench_len p) (spot p l + 1) \<le> spot p l'"
proof -
  let ?n = "(4 * w_dsets p + 1) * l_f l + 4 * l_d l"
  have move: ?thesis if "\<exists>m. l' = next_item p (l\<lparr>l_stat := m\<rparr>)" "inner (l_pc l)"
  proof -
    from that(1) obtain m where l': "l' = next_item p (l\<lparr>l_stat := m\<rparr>)" by blast
    have "spot p l \<le> ?n + 4" using that(2) by (auto simp: spot_def inner_def Let_def)
    moreover have "placed p l'" "spot p l' = ?n + 5"
      using placed_next[of "l\<lparr>l_stat := m\<rparr>" p] that(2) pl by (simp_all add: l' placed_def)
    ultimately show ?thesis by simp
  qed
  consider "l_pc l = AtStat" | "l_pc l = AtRead" | "l_pc l = AtDelete" | "l_pc l = AtCreate"
    | "l_pc l = AtTail" | "l_pc l = AtFinish" | "l_pc l \<in> {AtDone, AtFailed}"
    using pl by (auto simp: placed_def inner_def)
  then show ?thesis
  proof cases
    case 1
    show ?thesis
    proof (cases "w_stat F k (obj_path p (read_rank p r (l_d l)) (l_d l) (l_f l + c))")
      case True
      then have "l' = l\<lparr>l_stat := l_stat l', l_pc := AtRead\<rparr>" using step 1 by (auto simp: bench_step_def ops_defs)
      then show ?thesis using pl 1 by (cases l') (auto simp: placed_def spot_def inner_def Let_def)
    next
      case False
      then show ?thesis using step 1 by (intro move) (auto simp: bench_step_def ops_defs inner_def)
    qed
  next
    case 2
    show ?thesis
    proof (cases "w_read_only p")
      case True
      then show ?thesis using step 2 by (intro move) (auto simp: bench_step_def ops_defs inner_def Let_def split: prod.splits got.splits if_splits)
    next
      case False
      then have "\<exists>m. l' = l\<lparr>l_stat := m, l_pc := AtDelete\<rparr>"
        using step 2 by (auto simp: bench_step_def ops_defs Let_def split: prod.splits got.splits if_splits)
      then show ?thesis using pl 2 by (auto simp: placed_def spot_def inner_def Let_def)
    qed
  next
    case 3
    then have "\<exists>m. l' = l\<lparr>l_stat := m, l_pc := AtCreate\<rparr>"
      using step by (auto simp: bench_step_def ops_defs Let_def split: prod.splits if_splits)
    then show ?thesis using pl 3 by (auto simp: placed_def spot_def inner_def Let_def)
  next
    case 4
    then consider "\<exists>m. l' = next_item p (l\<lparr>l_stat := m\<rparr>)" | "l' = l\<lparr>l_pc := AtFailed\<rparr>"
      using step by (auto simp: bench_step_def ops_defs Let_def split: prod.splits written.splits if_splits)
    then show ?thesis
    proof cases
      case 1
      then show ?thesis using 4 by (intro move) (simp_all add: inner_def)
    next
      case 2
      then show ?thesis using pl by (simp add: placed_def spot_def inner_def bench_len_def Let_def)
    qed
  next
    case 5
    then have "l' = at_pass p l" using step t by (simp add: bench_step_def ops_defs)
    then show ?thesis using placed_pass[of l p] pl 5 by (simp add: placed_def spot_def inner_def Let_def)
  next
    case 6
    then have "l' = l\<lparr>l_pc := AtDone\<rparr>" using step by (simp add: bench_step_def ops_defs)
    then show ?thesis using pl by (simp add: placed_def spot_def inner_def Let_def)
  next
    case 7
    then have "l' = l" using step by (auto simp: bench_step_def ops_defs)
    then show ?thesis using pl 7 by (auto simp: spot_def Let_def)
  qed
qed

lemma spot_ended:
  assumes "placed p l" "bench_len p \<le> spot p l"
  shows "l_pc l = AtDone \<or> l_pc l = AtFailed"
proof (rule ccontr)
  assume "\<not> ?thesis"
  then consider "inner (l_pc l)" | "l_pc l = AtTail" | "l_pc l = AtFinish" using assms(1) by (auto simp: placed_def)
  then show False
  proof cases
    case 1
    then have f: "l_f l + 1 \<le> w_num p" "l_d l < w_dsets p" using assms(1) by (auto simp: placed_def)
    have "spot p l \<le> (4 * w_dsets p + 1) * l_f l + 4 * l_d l + 4"
      using 1 by (auto simp: spot_def inner_def Let_def)
    also have "\<dots> < (4 * w_dsets p + 1) * (l_f l + 1)" using f(2) by (simp add: algebra_simps)
    also have "\<dots> \<le> (4 * w_dsets p + 1) * w_num p" using f(1) by (rule mult_le_mono2)
    finally show False using assms(2) by (simp add: bench_len_def)
  next
    case 2
    then have "spot p l = (4 * w_dsets p + 1) * l_f l" "l_f l \<le> w_num p" using assms(1) by (simp_all add: placed_def spot_def Let_def)
    then have "spot p l \<le> (4 * w_dsets p + 1) * w_num p" by (simp only: mult_le_mono2)
    with assms(2) show False by (simp add: bench_len_def)
  next
    case 3
    with assms(2) show False by (simp add: spot_def bench_len_def Let_def)
  qed
qed

definition turns :: "nat \<Rightarrow> (nat \<times> bool) list \<Rightarrow> nat" where
  "turns r sched = length (filter (\<lambda>x. fst x = r) sched)"

lemma run_advances:
  assumes "\<not> w_timer p"
  shows "\<forall>r < w_threads p. placed p (b_rank b r) \<Longrightarrow> r < w_threads p \<Longrightarrow>
    placed p (b_rank (run_bench F p starts sched b) r)
    \<and> min (bench_len p) (spot p (b_rank b r) + turns r sched) \<le> spot p (b_rank (run_bench F p starts sched b) r)"
proof (induction sched arbitrary: b)
  case Nil
  then show ?case by (simp add: run_bench_def turns_def)
next
  case (Cons x sched)
  obtain q late where x: "x = (q, late)" by fastforce
  let ?b = "if q < w_threads p then bench_at F p starts q late b else b"
  have step: "placed p (b_rank ?b r') \<and> min (bench_len p) (spot p (b_rank b r') + of_bool (r' = q)) \<le> spot p (b_rank ?b r')"
    if r': "r' < w_threads p" for r'
  proof (cases "r' = q")
    case True
    obtain k' w' l' where s: "bench_step F p q (starts q) late (b_kern b, b_wear b, b_rank b q) = (k', w', l')"
      using prod_cases3 by blast
    from bench_step_advances[OF _ assms s] Cons.prems(1) r' True show ?thesis by (simp add: bench_at_def s)
  next
    case False
    then show ?thesis using Cons.prems(1) r' by (auto simp: bench_at_def split: prod.splits)
  qed
  have run: "run_bench F p starts (x # sched) b = run_bench F p starts sched ?b" by (simp add: run_bench_def x)
  have "turns r (x # sched) = of_bool (r = q) + turns r sched" by (simp add: turns_def x)
  with Cons.IH[of ?b] step[OF Cons.prems(2)] step Cons.prems(2) show ?case unfolding run by fastforce
qed

lemma start_rank_placed: "placed p (start_rank p)"
  by (simp add: start_rank_def placed_pass)

lemma long_schedule_ends:
  assumes "\<not> w_timer p" "\<forall>r < w_threads p. bench_len p \<le> turns r sched"
  shows "ended p (run_bench F p starts sched (start_bench p k))"
  unfolding ended_def
proof (intro allI impI)
  fix r assume r: "r < w_threads p"
  from run_advances[OF assms(1) _ r, of "start_bench p k" F starts sched] start_rank_placed assms(2) r
  show "l_pc (b_rank (run_bench F p starts sched (start_bench p k)) r) = AtDone
      \<or> l_pc (b_rank (run_bench F p starts sched (start_bench p k)) r) = AtFailed"
    by (intro spot_ended) (auto simp: start_bench_def)
qed

end
