(* ===== verification/Mdworkbench_Sets.thy ===== *)
theory Mdworkbench_Sets
  imports Mdworkbench_Run
begin

text \<open>
  The data sets of mdworkbench on a file system without faults: what precreation puts there, and what
  clean-up takes away.
\<close>

text \<open>The data sets of the ranks in \<open>R\<close> hold the objects that \<open>hold\<close> names; anything else is as in \<open>u\<close>.\<close>

definition of_ranks :: "mdw_params \<Rightarrow> (nat \<Rightarrow> bool) \<Rightarrow> path \<Rightarrow> bool" where
  "of_ranks p R q \<longleftrightarrow> (\<exists>t d. R t \<and> d < w_dsets p \<and> (q = dset_path p t d \<or> (\<exists>i. q = obj_path p t d i)))"

definition stocked ::
  "mdw_params \<Rightarrow> (path \<Rightarrow> node option) \<Rightarrow> (nat \<Rightarrow> bool) \<Rightarrow> (nat \<Rightarrow> bool) \<Rightarrow> (path \<Rightarrow> node option) \<Rightarrow> bool" where
  "stocked p u R hold w \<longleftrightarrow>
     (\<forall>t d. R t \<and> d < w_dsets p \<longrightarrow> w (dset_path p t d) = Some DirNode
        \<and> (\<forall>i. w (obj_path p t d i) = (if hold i then Some (FileNode (obj_content p t d i)) else None)))
     \<and> (\<forall>q. \<not> of_ranks p R q \<longrightarrow> w q = u q)"

lemma stocked_at:
  assumes "stocked p u R hold w" "R t" "d < w_dsets p"
  shows "w (dset_path p t d) = Some DirNode"
    "w (obj_path p t d i) = (if hold i then Some (FileNode (obj_content p t d i)) else None)"
  using assms unfolding stocked_def by blast+

definition empty_below :: "mdw_params \<Rightarrow> (path \<Rightarrow> node option) \<Rightarrow> bool" where
  "empty_below p u \<longleftrightarrow> u (w_prefix p) = Some DirNode \<and> (\<forall>x. x \<noteq> [] \<longrightarrow> u (w_prefix p @ x) = None)"

lemma below_none:
  "empty_below p u \<Longrightarrow> u (dset_path p t d) = None" "empty_below p u \<Longrightarrow> u (obj_path p t d i) = None"
  by (simp_all add: empty_below_def dset_path_def obj_path_def)

lemma of_ranks_names:
  "of_ranks p R (dset_path p t d) \<longleftrightarrow> R t \<and> d < w_dsets p"
  "of_ranks p R (obj_path p t d i) \<longleftrightarrow> R t \<and> d < w_dsets p"
  "\<not> of_ranks p R (w_prefix p)"
  using obj_not_dset obj_not_dset[symmetric] by (auto simp: of_ranks_def dset_path_inj obj_path_inj)

section \<open>Precreation\<close>

lemma make_dsets_done:
  assumes law: "faultless F view"
  shows "view k (w_prefix p) = Some DirNode \<Longrightarrow> distinct ds \<Longrightarrow> \<forall>d \<in> set ds. view k (dset_path p r d) = None \<Longrightarrow>
    \<exists>k' st. make_dsets F p r ds (k, s) = ((k', st), True) \<and> n_errors st = n_errors s
      \<and> view k' = (\<lambda>q. if q \<in> dset_path p r ` set ds then Some DirNode else view k q)"
proof (induction ds arbitrary: k s)
  case (Cons d ds)
  let ?q = "dset_path p r d"
  obtain k1 m where m: "w_mkdir F k ?q = (k1, m)" by fastforce
  have v1: "m = Made \<and> view k1 = (view k)(?q \<mapsto> DirNode)"
    by (rule faultless_laws(2)[OF law _ _ m]) (use Cons.prems in \<open>simp_all add: butlast_names\<close>)
  let ?s = "s\<lparr>dset_create := dset_create s + 1\<rparr>"
  have "\<exists>k' st. make_dsets F p r ds (k1, ?s) = ((k', st), True) \<and> n_errors st = n_errors ?s
      \<and> view k' = (\<lambda>q. if q \<in> dset_path p r ` set ds then Some DirNode else view k1 q)"
    by (rule Cons.IH) (use Cons.prems v1 in \<open>auto simp: dset_path_inj\<close>)
  then obtain k' st where "make_dsets F p r ds (k1, ?s) = ((k', st), True)" "n_errors st = n_errors s"
      "view k' = (\<lambda>q. if q \<in> dset_path p r ` set ds then Some DirNode else view k1 q)" by auto
  then show ?case using m v1 by (auto simp: fun_eq_iff)
qed simp

lemma fill_dsets_done:
  assumes law: "faultless F view"
  shows "\<forall>(f, d) \<in> set fds. view k (dset_path p r d) = Some DirNode \<and> view k (obj_path p r d f) = None \<Longrightarrow> distinct fds \<Longrightarrow>
    \<exists>k' st. fill_dsets F p r fds (k, s) = ((k', st), True) \<and> n_errors st = n_errors s
      \<and> (\<forall>f d. view k' (obj_path p r d f) =
            (if (f, d) \<in> set fds then Some (FileNode (obj_content p r d f)) else view k (obj_path p r d f)))
      \<and> (\<forall>q. (\<forall>d i. q \<noteq> obj_path p r d i) \<longrightarrow> view k' q = view k q)"
proof (induction fds arbitrary: k s)
  case (Cons x fds)
  obtain f d where x: "x = (f, d)" by fastforce
  let ?q = "obj_path p r d f" and ?v = "obj_content p r d f"
  obtain k1 c where c: "w_create F k ?q ?v = (k1, c)" by fastforce
  have v1: "c = Wrote (length ?v) \<and> view k1 = (view k)(?q \<mapsto> FileNode ?v)"
    by (rule faultless_laws(3)[OF law _ _ c]) (use Cons.prems x in \<open>auto simp: butlast_names\<close>)
  let ?s = "s\<lparr>obj_create := obj_create s + 1\<rparr>"
  have "\<exists>k' st. fill_dsets F p r fds (k1, ?s) = ((k', st), True) \<and> n_errors st = n_errors ?s
      \<and> (\<forall>f d. view k' (obj_path p r d f) =
            (if (f, d) \<in> set fds then Some (FileNode (obj_content p r d f)) else view k1 (obj_path p r d f)))
      \<and> (\<forall>q. (\<forall>d i. q \<noteq> obj_path p r d i) \<longrightarrow> view k' q = view k1 q)"
  proof (rule Cons.IH)
    show "\<forall>(f, d) \<in> set fds. view k1 (dset_path p r d) = Some DirNode \<and> view k1 (obj_path p r d f) = None"
    proof clarify
      fix f' d' assume "(f', d') \<in> set fds"
      then show "view k1 (dset_path p r d') = Some DirNode \<and> view k1 (obj_path p r d' f') = None"
        using Cons.prems x v1 obj_not_dset(1)[of p r d f r d'] by (auto simp: obj_path_inj)
    qed
  qed (use Cons.prems in simp)
  then obtain k' st where "fill_dsets F p r fds (k1, ?s) = ((k', st), True)" "n_errors st = n_errors s"
      "\<forall>f d. view k' (obj_path p r d f) =
            (if (f, d) \<in> set fds then Some (FileNode (obj_content p r d f)) else view k1 (obj_path p r d f))"
      "\<forall>q. (\<forall>d i. q \<noteq> obj_path p r d i) \<longrightarrow> view k' q = view k1 q" by auto
  then show ?case using c v1 x by (auto simp: obj_content_length obj_path_inj)
qed simp

lemma precreate_rank_done:
  assumes law: "faultless F view" and u: "empty_below p u" and st: "stocked p u (\<lambda>t. t < n) (\<lambda>i. i < w_precreate p) (view k)"
  shows "\<exists>k' st ok. run_precreate_rank F p n 0 (k, no_stat) = ((k', st), ok) \<and> n_errors st = 0
    \<and> stocked p u (\<lambda>t. t < Suc n) (\<lambda>i. i < w_precreate p) (view k')"
proof -
  let ?fds = "concat (map (\<lambda>f. map (Pair f) [0..<w_dsets p]) [0..<w_precreate p])"
  have fds: "set ?fds = {0..<w_precreate p} \<times> {0..<w_dsets p}" "distinct ?fds"
    using distinct_product[of "[0..<w_precreate p]" "[0..<w_dsets p]"] by (auto simp: product_concat_map)
  have new: "view k q = u q" if "\<not> of_ranks p (\<lambda>t. t < n) q" for q using st that by (simp add: stocked_def)
  have pre: "view k (w_prefix p) = Some DirNode" using new of_ranks_names(3) u by (simp add: empty_below_def)
  have none: "view k (dset_path p n d) = None" "view k (obj_path p n d i) = None" for d i
    by (simp_all add: new of_ranks_names below_none[OF u])
  obtain k1 s1 where 1: "make_dsets F p n [0..<w_dsets p] (k, no_stat) = ((k1, s1), True)" "n_errors s1 = 0"
      "view k1 = (\<lambda>q. if q \<in> dset_path p n ` set [0..<w_dsets p] then Some DirNode else view k q)"
    using make_dsets_done[OF law pre, of "[0..<w_dsets p]" n no_stat] none by (auto simp: no_stat_def)
  have "obj_path p n d i \<notin> dset_path p n ` set [0..<w_dsets p]" for d i using obj_not_dset(1) by blast
  then have o1: "view k1 (obj_path p n d i) = None" for d i using 1(3) none(2) by simp
  have "\<forall>(f, d) \<in> set ?fds. view k1 (dset_path p n d) = Some DirNode \<and> view k1 (obj_path p n d f) = None"
    unfolding fds(1) by (auto simp: o1) (auto simp: 1(3))
  from fill_dsets_done[OF law this fds(2), of s1] obtain k' st where
    2: "fill_dsets F p n ?fds (k1, s1) = ((k', st), True)" "n_errors st = 0"
      "\<And>f d. view k' (obj_path p n d f) =
            (if (f, d) \<in> set ?fds then Some (FileNode (obj_content p n d f)) else view k1 (obj_path p n d f))"
      "\<And>q. \<forall>d i. q \<noteq> obj_path p n d i \<Longrightarrow> view k' q = view k1 q"
    using 1(2) by auto
  have run: "run_precreate_rank F p n 0 (k, no_stat) = ((k', st), True)"
    using 1(1) 2(1) by (simp add: run_precreate_rank_def)
  have "stocked p u (\<lambda>t. t < Suc n) (\<lambda>i. i < w_precreate p) (view k')"
    unfolding stocked_def
  proof (intro conjI allI impI)
    fix t d assume t: "t < Suc n \<and> d < w_dsets p"
    have same: "view k' q = view k q" if "q = dset_path p t d \<or> (\<exists>i. q = obj_path p t d i)" "t \<noteq> n" for q
      using that 2(4)[of q] 1(3) obj_not_dset(1) obj_not_dset(1)[symmetric] by (auto simp: dset_path_inj obj_path_inj)
    show "view k' (dset_path p t d) = Some DirNode"
    proof (cases "t = n")
      case True
      have "view k' (dset_path p t d) = view k1 (dset_path p t d)" using obj_not_dset(1)[symmetric] by (intro 2(4)) blast
      then show ?thesis using True t by (simp add: 1(3))
    next
      case False
      then show ?thesis using same t st by (simp add: stocked_def)
    qed
    show "view k' (obj_path p t d i) = (if i < w_precreate p then Some (FileNode (obj_content p t d i)) else None)" for i
    proof (cases "t = n")
      case True
      have "(i, d) \<in> set ?fds \<longleftrightarrow> i < w_precreate p" unfolding fds(1) using t by simp
      then show ?thesis unfolding True by (simp only: 2(3) o1)
    next
      case False
      then have "view k' (obj_path p t d i) = view k (obj_path p t d i)" by (intro same) blast
      also have "\<dots> = (if i < w_precreate p then Some (FileNode (obj_content p t d i)) else None)"
        using False t by (intro stocked_at(2)[OF st]) simp_all
      finally show ?thesis .
    qed
  next
    fix q assume q: "\<not> of_ranks p (\<lambda>t. t < Suc n) q"
    show "view k' q = u q"
    proof (cases "\<exists>d i. q = obj_path p n d i")
      case True
      then obtain d i where qd: "q = obj_path p n d i" by blast
      with q have "\<not> d < w_dsets p" by (simp add: of_ranks_names)
      then have "(i, d) \<notin> set ?fds" unfolding fds(1) by simp
      then show ?thesis unfolding qd by (simp only: 2(3) o1 below_none(2)[OF u] if_False)
    next
      case False
      have "q \<notin> dset_path p n ` set [0..<w_dsets p]" using q by (auto simp: of_ranks_names)
      then have "view k' q = view k q" using False 2(4)[of q] by (auto simp: 1(3))
      also have "\<dots> = u q" using q by (intro new) (auto simp: of_ranks_def)
      finally show ?thesis .
    qed
  qed
  with run 2(2) show ?thesis by blast
qed

lemma precreate_all_done:
  assumes law: "faultless F view" and u: "empty_below p u" "view k = u" and start: "\<And>r. starts r = (0::nat)"
  shows "\<exists>k' sts. fold (\<lambda>r (k, sts). let ((k, st), ok) = run_precreate_rank F p r (starts r) (k, no_stat) in (k, sts @ [st]))
      [0..<n] (k, []) = (k', sts) \<and> sum_list (map n_errors sts) = 0
    \<and> stocked p u (\<lambda>t. t < n) (\<lambda>i. i < w_precreate p) (view k')"
proof (induction n)
  case 0
  show ?case using u by (auto simp: stocked_def)
next
  case (Suc n)
  then obtain k1 sts where 1: "fold (\<lambda>r (k, sts). let ((k, st), ok) = run_precreate_rank F p r (starts r) (k, no_stat) in (k, sts @ [st]))
      [0..<n] (k, []) = (k1, sts)" "sum_list (map n_errors sts) = 0"
      "stocked p u (\<lambda>t. t < n) (\<lambda>i. i < w_precreate p) (view k1)" by blast
  from precreate_rank_done[OF law u(1) 1(3)] show ?case using 1(1,2) by (auto simp: start)
qed

section \<open>Clean-up\<close>

lemma remove_objects_done:
  assumes law: "faultless F view"
  shows "\<forall>f \<in> set fs. view k (obj_path p r d (f + c)) = Some (FileNode (obj_content p r d (f + c))) \<Longrightarrow> distinct fs \<Longrightarrow>
    \<exists>k' st. fold (\<lambda>f. remove_object F p r d (f + c)) fs (k, s) = (k', st) \<and> n_errors st = n_errors s
      \<and> view k' = (\<lambda>q. if q \<in> (\<lambda>f. obj_path p r d (f + c)) ` set fs then None else view k q)"
proof (induction fs arbitrary: k s)
  case (Cons f fs)
  let ?q = "obj_path p r d (f + c)"
  obtain k1 m where m: "w_remove F k ?q = (k1, m)" by fastforce
  have v1: "m = Removed \<and> view k1 = (view k)(?q := None)"
    by (rule faultless_laws(6)[OF law _ m]) (use Cons.prems in simp)
  let ?s = "s\<lparr>obj_delete := obj_delete s + 1\<rparr>"
  have "\<exists>k' st. fold (\<lambda>f. remove_object F p r d (f + c)) fs (k1, ?s) = (k', st) \<and> n_errors st = n_errors ?s
      \<and> view k' = (\<lambda>q. if q \<in> (\<lambda>f. obj_path p r d (f + c)) ` set fs then None else view k1 q)"
    by (rule Cons.IH) (use Cons.prems v1 in \<open>auto simp: obj_path_inj\<close>)
  then obtain k' st where "fold (\<lambda>f. remove_object F p r d (f + c)) fs (k1, ?s) = (k', st)" "n_errors st = n_errors s"
      "view k' = (\<lambda>q. if q \<in> (\<lambda>f. obj_path p r d (f + c)) ` set fs then None else view k1 q)" by auto
  moreover have "remove_object F p r d (f + c) (k, s) = (k1, ?s)" using m v1 by (simp add: remove_object_def)
  ultimately show ?case using v1 by (auto simp: fun_eq_iff)
qed simp

text \<open>A data set with all its objects goes.\<close>

definition of_dset :: "mdw_params \<Rightarrow> nat \<Rightarrow> nat \<Rightarrow> path \<Rightarrow> bool" where
  "of_dset p r d q \<longleftrightarrow> q = dset_path p r d \<or> (\<exists>i. q = obj_path p r d i)"

lemma remove_dset_done:
  assumes law: "faultless F view" and st: "stocked p u R (\<lambda>i. c \<le> i \<and> i < c + w_precreate p) v"
    and r: "R r" "d < w_dsets p" and u: "empty_below p u" and v: "\<forall>q. of_dset p r d q \<longrightarrow> view k q = v q"
    "\<forall>x. view k (dset_path p r d @ [x]) = v (dset_path p r d @ [x])"
  shows "\<exists>k' st. remove_dset F p r c d (k, s) = (k', st) \<and> n_errors st = n_errors s
    \<and> view k' = (\<lambda>q. if of_dset p r d q then None else view k q)"
proof -
  let ?fs = "[0..<w_precreate p]" and ?D = "dset_path p r d"
  have obj: "view k (obj_path p r d i) = (if c \<le> i \<and> i < c + w_precreate p then Some (FileNode (obj_content p r d i)) else None)" for i
  proof -
    have "view k (obj_path p r d i) = v (obj_path p r d i)" using v(1) unfolding of_dset_def by blast
    then show ?thesis by (simp only: stocked_at(2)[OF st r])
  qed
  have "\<forall>f \<in> set ?fs. view k (obj_path p r d (f + c)) = Some (FileNode (obj_content p r d (f + c)))"
    by (simp add: obj)
  from remove_objects_done[OF law this, of s] obtain k1 st where
    1: "fold (\<lambda>f. remove_object F p r d (f + c)) ?fs (k, s) = (k1, st)" "n_errors st = n_errors s"
      "view k1 = (\<lambda>q. if q \<in> (\<lambda>f. obj_path p r d (f + c)) ` set ?fs then None else view k q)"
    by auto
  have gone: "view k1 (obj_path p r d i) = None" for i
  proof (cases "c \<le> i \<and> i < c + w_precreate p")
    case True
    then have "obj_path p r d i \<in> (\<lambda>f. obj_path p r d (f + c)) ` set ?fs" by (intro image_eqI[of _ _ "i - c"]) auto
    then show ?thesis by (simp add: 1(3))
  qed (auto simp: 1(3) obj)
  have "view k1 (?D @ [x]) = None" for x
  proof (cases "of_ranks p R (?D @ [x])")
    case True
    then obtain t d' where t: "?D @ [x] = dset_path p t d' \<or> (\<exists>i. ?D @ [x] = obj_path p t d' i)" by (auto simp: of_ranks_def)
    moreover have "?D @ [x] \<noteq> dset_path p t d'" by (simp add: dset_path_def)
    ultimately obtain i where i: "?D @ [x] = obj_path p t d' i" by blast
    from arg_cong[OF i, of butlast] have "?D = dset_path p t d'" by (simp only: butlast_names butlast_snoc)
    with i gone[of i] show ?thesis by (metis dset_path_inj)
  next
    case False
    then have "v (?D @ [x]) = u (w_prefix p @ [last ?D, x])" using st by (simp add: stocked_def dset_path_def)
    also have "\<dots> = None" using u by (simp add: empty_below_def)
    finally show ?thesis using v(2) by (simp add: 1(3))
  qed
  moreover have "view k1 ?D = Some DirNode"
  proof -
    have "?D \<notin> (\<lambda>f. obj_path p r d (f + c)) ` set ?fs" using obj_not_dset(1)[symmetric] by auto
    then show ?thesis using v(1) st r by (simp add: 1(3) of_dset_def stocked_def)
  qed
  ultimately have rm: "view (fst (w_rmdir F k1 ?D)) = (view k1)(?D := None)" using faultless_laws(7)[OF law] by blast
  have "view (fst (w_rmdir F k1 ?D)) = (\<lambda>q. if of_dset p r d q then None else view k q)"
    unfolding rm fun_eq_iff
  proof
    fix q
    show "((view k1)(?D := None)) q = (if of_dset p r d q then None else view k q)"
    proof (cases "\<exists>i. q = obj_path p r d i")
      case True
      then have "view k1 q = None" "of_dset p r d q" using gone by (auto simp: of_dset_def)
      then show ?thesis by simp
    next
      case False
      then have "view k1 q = view k q" by (auto simp: 1(3))
      with False show ?thesis by (simp add: of_dset_def)
    qed
  qed
  then show ?thesis using 1(1,2) by (simp add: remove_dset_def)
qed

lemma of_dset_apart:
  assumes "d \<noteq> d'"
  shows "of_dset p r d q \<Longrightarrow> \<not> of_dset p r d' q" "\<not> of_dset p r d' (dset_path p r d @ [x])"
proof -
  show "of_dset p r d q \<Longrightarrow> \<not> of_dset p r d' q"
    using assms obj_not_dset(1) obj_not_dset(1)[symmetric] by (auto simp: of_dset_def dset_path_inj obj_path_inj)
  show "\<not> of_dset p r d' (dset_path p r d @ [x])"
  proof
    assume "of_dset p r d' (dset_path p r d @ [x])"
    moreover have "dset_path p r d @ [x] \<noteq> dset_path p r d'" by (simp add: dset_path_def)
    ultimately obtain i where i: "dset_path p r d @ [x] = obj_path p r d' i" by (auto simp: of_dset_def)
    from arg_cong[OF i, of butlast] have "dset_path p r d = dset_path p r d'" by (simp only: butlast_names butlast_snoc)
    with assms show False by (simp add: dset_path_inj)
  qed
qed

lemma remove_dsets_done:
  assumes law: "faultless F view" and st: "stocked p u R (\<lambda>i. c \<le> i \<and> i < c + w_precreate p) v"
    and r: "R r" and u: "empty_below p u"
  shows "distinct ds \<Longrightarrow> set ds \<subseteq> {..<w_dsets p} \<Longrightarrow>
    \<forall>d \<in> set ds. (\<forall>q. of_dset p r d q \<longrightarrow> view k q = v q) \<and> (\<forall>x. view k (dset_path p r d @ [x]) = v (dset_path p r d @ [x])) \<Longrightarrow>
    \<exists>k' st. fold (remove_dset F p r c) ds (k, s) = (k', st) \<and> n_errors st = n_errors s
      \<and> view k' = (\<lambda>q. if \<exists>d \<in> set ds. of_dset p r d q then None else view k q)"
proof (induction ds arbitrary: k s)
  case (Cons d ds)
  have "\<exists>k' st. remove_dset F p r c d (k, s) = (k', st) \<and> n_errors st = n_errors s
      \<and> view k' = (\<lambda>q. if of_dset p r d q then None else view k q)"
    by (rule remove_dset_done[OF law st r _ u]) (use Cons.prems in auto)
  then obtain k1 s1 where 1: "remove_dset F p r c d (k, s) = (k1, s1)" "n_errors s1 = n_errors s"
      "view k1 = (\<lambda>q. if of_dset p r d q then None else view k q)" by blast
  have "\<exists>k' st. fold (remove_dset F p r c) ds (k1, s1) = (k', st) \<and> n_errors st = n_errors s1
      \<and> view k' = (\<lambda>q. if \<exists>d \<in> set ds. of_dset p r d q then None else view k1 q)"
  proof (rule Cons.IH)
    show "\<forall>d \<in> set ds. (\<forall>q. of_dset p r d q \<longrightarrow> view k1 q = v q) \<and> (\<forall>x. view k1 (dset_path p r d @ [x]) = v (dset_path p r d @ [x]))"
    proof
      fix d' assume d': "d' \<in> set ds"
      then have "d' \<noteq> d" using Cons.prems(1) by auto
      with of_dset_apart[of d' d p r] d' Cons.prems(3)
      show "(\<forall>q. of_dset p r d' q \<longrightarrow> view k1 q = v q) \<and> (\<forall>x. view k1 (dset_path p r d' @ [x]) = v (dset_path p r d' @ [x]))"
        by (simp add: 1(3))
    qed
  qed (use Cons.prems in auto)
  then obtain k' s' where "fold (remove_dset F p r c) ds (k1, s1) = (k', s')" "n_errors s' = n_errors s1"
      "view k' = (\<lambda>q. if \<exists>d \<in> set ds. of_dset p r d q then None else view k1 q)" by blast
  then show ?case using 1 by (auto simp: fun_eq_iff)
qed simp

lemma cleanup_rank_done:
  assumes law: "faultless F view" and u: "empty_below p u" and n: "n < w_threads p"
    and st: "stocked p u (\<lambda>t. n \<le> t \<and> t < w_threads p) (\<lambda>i. c \<le> i \<and> i < c + w_precreate p) (view k)"
  shows "\<exists>k' st. run_cleanup_rank F p n c (k, no_stat) = (k', st) \<and> n_errors st = 0
    \<and> stocked p u (\<lambda>t. Suc n \<le> t \<and> t < w_threads p) (\<lambda>i. c \<le> i \<and> i < c + w_precreate p) (view k')"
proof -
  have "\<exists>k' st. fold (remove_dset F p n c) [0..<w_dsets p] (k, no_stat) = (k', st) \<and> n_errors st = n_errors no_stat
      \<and> view k' = (\<lambda>q. if \<exists>d \<in> set [0..<w_dsets p]. of_dset p n d q then None else view k q)"
    by (rule remove_dsets_done[OF law st _ u]) (use n in auto)
  then obtain k' s' where 1: "run_cleanup_rank F p n c (k, no_stat) = (k', s')" "n_errors s' = 0"
      "view k' = (\<lambda>q. if \<exists>d < w_dsets p. of_dset p n d q then None else view k q)"
    by (auto simp: run_cleanup_rank_def no_stat_def Bex_def atLeast0LessThan)
  have "stocked p u (\<lambda>t. Suc n \<le> t \<and> t < w_threads p) (\<lambda>i. c \<le> i \<and> i < c + w_precreate p) (view k')"
    unfolding stocked_def
  proof (intro conjI allI impI)
    fix t d assume t: "(Suc n \<le> t \<and> t < w_threads p) \<and> d < w_dsets p"
    have "\<not> of_dset p n d' (dset_path p t d)" "\<not> of_dset p n d' (obj_path p t d i)" for d' i
      using t obj_not_dset(1) obj_not_dset(1)[symmetric] by (auto simp: of_dset_def dset_path_inj obj_path_inj)
    then show "view k' (dset_path p t d) = Some DirNode"
      "view k' (obj_path p t d i) = (if c \<le> i \<and> i < c + w_precreate p then Some (FileNode (obj_content p t d i)) else None)" for i
      using t st by (simp_all add: 1(3) stocked_def)
  next
    fix q assume q: "\<not> of_ranks p (\<lambda>t. Suc n \<le> t \<and> t < w_threads p) q"
    show "view k' q = u q"
    proof (cases "\<exists>d < w_dsets p. of_dset p n d q")
      case True
      then have "u q = None" using below_none[OF u] by (auto simp: of_dset_def)
      with True show ?thesis by (simp add: 1(3))
    next
      case False
      have "\<not> of_ranks p (\<lambda>t. n \<le> t \<and> t < w_threads p) q"
      proof
        assume "of_ranks p (\<lambda>t. n \<le> t \<and> t < w_threads p) q"
        then obtain t d where t: "n \<le> t" "t < w_threads p" "d < w_dsets p" "q = dset_path p t d \<or> (\<exists>i. q = obj_path p t d i)"
          by (auto simp: of_ranks_def)
        then have "t \<noteq> n" using False by (auto simp: of_dset_def)
        with t have "Suc n \<le> t" by simp
        with t q show False unfolding of_ranks_def by blast
      qed
      then have "view k q = u q" using st unfolding stocked_def by blast
      moreover have "view k' q = view k q" unfolding 1(3) using False by (rule if_not_P)
      ultimately show ?thesis by simp
    qed
  qed
  with 1(1,2) show ?thesis by blast
qed

lemma cleanup_all_done:
  assumes law: "faultless F view" and u: "empty_below p u" and start: "\<forall>r < w_threads p. starts r = c"
    and st: "stocked p u (\<lambda>t. t < w_threads p) (\<lambda>i. c \<le> i \<and> i < c + w_precreate p) (view k)"
  shows "n \<le> w_threads p \<Longrightarrow>
    \<exists>k' sts. fold (\<lambda>r (k, sts). let (k, st) = run_cleanup_rank F p r (starts r) (k, no_stat) in (k, sts @ [st]))
      [0..<n] (k, []) = (k', sts) \<and> sum_list (map n_errors sts) = 0
    \<and> stocked p u (\<lambda>t. n \<le> t \<and> t < w_threads p) (\<lambda>i. c \<le> i \<and> i < c + w_precreate p) (view k')"
proof (induction n)
  case 0
  show ?case using st by simp
next
  case (Suc n)
  then obtain k1 sts where 1: "fold (\<lambda>r (k, sts). let (k, st) = run_cleanup_rank F p r (starts r) (k, no_stat) in (k, sts @ [st]))
      [0..<n] (k, []) = (k1, sts)" "sum_list (map n_errors sts) = 0"
      "stocked p u (\<lambda>t. n \<le> t \<and> t < w_threads p) (\<lambda>i. c \<le> i \<and> i < c + w_precreate p) (view k1)" by auto
  from Suc.prems have n: "n < w_threads p" by simp
  from cleanup_rank_done[OF law u n 1(3)] show ?case using 1(1,2) n start by auto
qed

end
