(* ===== verification/Mdworkbench_Wear.thy ===== *)
theory Mdworkbench_Wear
  imports Mdworkbench_Run
begin

text \<open>
  The stonewall of mdworkbench with wear-out: ranks that hit the timer register their positions in
  shared counters and wait until every rank has registered or ended. The invariant of the counters,
  for any file system and any clock.
\<close>

definition registered :: "bench_rank \<Rightarrow> bool" where
  "registered l \<longleftrightarrow> l_pc l = AtSpin \<or> l_contributed l"

text \<open>A rank that is past the wait ends at the agreed p total.\<close>

definition agreed :: "mdw_params \<Rightarrow> nat \<Rightarrow> bench_rank \<Rightarrow> bool" where
  "agreed p tot l \<longleftrightarrow>
     (l_pc l \<in> {AtTotal, AtContribute, AtSpin} \<longrightarrow> \<not> l_contributed l \<and> w_wear_out p)
     \<and> (l_pc l \<in> {AtContribute, AtSpin} \<longrightarrow> l_f l < tot)
     \<and> (l_contributed l \<longrightarrow> w_wear_out p \<and> l_f l \<le> tot \<and> 0 < tot \<and> (l_pc l \<noteq> AtLoad \<longrightarrow> l_total l = tot)
          \<and> (inner (l_pc l) \<longrightarrow> l_f l < tot) \<and> (l_pc l \<in> {AtFinish, AtDone} \<longrightarrow> l_f l = tot))"

definition settled :: "bench_rank \<Rightarrow> bool" where
  "settled l \<longleftrightarrow> registered l \<or> l_pc l = AtDone"

definition wear_ok :: "mdw_params \<Rightarrow> 'k bench \<Rightarrow> bool" where
  "wear_ok p b \<longleftrightarrow>
     o_contributors (b_wear b) = card {r. r < w_threads p \<and> registered (b_rank b r)}
     \<and> o_finished (b_wear b) = card {r. r < w_threads p \<and> l_pc (b_rank b r) = AtDone}
     \<and> (\<forall>r < w_threads p. agreed p (o_total (b_wear b)) (b_rank b r))
     \<and> ((\<exists>r < w_threads p. l_contributed (b_rank b r)) \<longrightarrow> (\<forall>r < w_threads p. settled (b_rank b r)))"

text \<open>What the calls of a pass change of a rank.\<close>

lemma inner_step:
  assumes "bench_step F p r c late (k, w, l) = (k', w', l')" "inner (l_pc l)"
  shows "w' = w \<and> ((\<exists>m. l' = next_item p (l\<lparr>l_stat := m\<rparr>))
    \<or> (\<exists>m pc. l' = l\<lparr>l_stat := m, l_pc := pc\<rparr> \<and> pc \<in> {AtRead, AtDelete, AtCreate, AtFailed}))"
proof -
  consider "l_pc l = AtStat" | "l_pc l = AtRead" | "l_pc l = AtDelete" | "l_pc l = AtCreate"
    using assms(2) by (auto simp: inner_def)
  then show ?thesis
  proof cases
    case 1
    then show ?thesis using assms(1)
      by (auto simp: bench_step_def ops_defs split: if_splits)
  next
    case 2
    then show ?thesis using assms(1)
      by (auto simp: bench_step_def ops_defs Let_def split: prod.splits got.splits if_splits)
  next
    case 3
    then show ?thesis using assms(1)
      by (auto simp: bench_step_def ops_defs Let_def split: prod.splits if_splits)
  next
    case 4
    then consider "w' = w" "\<exists>m. l' = next_item p (l\<lparr>l_stat := m\<rparr>)" | "w' = w" "l' = l\<lparr>l_pc := AtFailed\<rparr>"
      using assms(1) by (auto simp: bench_step_def ops_defs Let_def split: prod.splits written.splits if_splits)
    then show ?thesis
    proof cases
      case 2
      moreover have "l\<lparr>l_pc := AtFailed\<rparr> = l\<lparr>l_stat := l_stat l, l_pc := AtFailed\<rparr>" by (cases l) simp
      ultimately show ?thesis by blast
    qed blast
  qed
qed

lemma agreed_inner:
  assumes "agreed p tot l" "inner (l_pc l)"
  shows "l_contributed l \<Longrightarrow> w_wear_out p \<and> l_f l < tot \<and> l_f l \<le> tot \<and> Suc (l_f l) \<le> tot \<and> 0 < tot \<and> l_total l = tot"
    "l_pc l \<notin> {AtTotal, AtContribute, AtSpin, AtFinish, AtDone}"
proof -
  show "l_pc l \<notin> {AtTotal, AtContribute, AtSpin, AtFinish, AtDone}" using assms(2) by (auto simp: inner_def)
  have "l_pc l \<noteq> AtLoad" using assms(2) by (auto simp: inner_def)
  then show "l_contributed l \<Longrightarrow> w_wear_out p \<and> l_f l < tot \<and> l_f l \<le> tot \<and> Suc (l_f l) \<le> tot \<and> 0 < tot \<and> l_total l = tot"
    using assms unfolding agreed_def by (simp add: Suc_le_eq)
qed

lemma agreed_next:
  assumes "agreed p tot l" "inner (l_pc l)"
  shows "agreed p tot (next_item p (l\<lparr>l_stat := m\<rparr>))" "l_contributed (next_item p (l\<lparr>l_stat := m\<rparr>)) = l_contributed l"
    "l_pc (next_item p (l\<lparr>l_stat := m\<rparr>)) \<in> {AtStat, AtTail}"
proof -
  show "agreed p tot (next_item p (l\<lparr>l_stat := m\<rparr>))"
    using agreed_inner(1)[OF assms]
    by (cases "l_d l + 1 < w_dsets p"; cases "l_contributed l") (simp_all add: next_item_def at_item_def agreed_def inner_def)
qed (simp_all add: next_item_def at_item_def)

lemma agreed_pass:
  assumes "\<not> l_contributed l \<or> w_wear_out p \<and> l_f l \<le> tot \<and> 0 < tot \<and> l_total l = tot"
  shows "agreed p tot (at_pass p l)" "l_contributed (at_pass p l) = l_contributed l"
    "l_pc (at_pass p l) \<in> {AtStat, AtTail, AtFinish}"
proof -
  show "agreed p tot (at_pass p l)"
    using assms
    by (cases "l_f l < l_total l"; cases "w_dsets p = 0") (auto simp: at_pass_def at_item_def agreed_def inner_def)
qed (simp_all add: at_pass_def at_item_def)

lemma wear_step:
  assumes step: "bench_step F p r c late (k, w, l) = (k', w', l')" and ag: "agreed p (o_total w) l"
  shows "agreed p (o_total w') l'" "registered l' \<longleftrightarrow> registered l \<or> l_pc l = AtContribute"
    "l_pc l' = AtDone \<longleftrightarrow> l_pc l = AtDone \<or> l_pc l = AtFinish"
    "o_contributors w' = o_contributors w + of_bool (l_pc l = AtContribute)"
    "o_finished w' = o_finished w + of_bool (l_pc l = AtFinish)"
    "o_total w \<le> o_total w'" "l_pc l \<noteq> AtTotal \<Longrightarrow> o_total w' = o_total w"
    "l_contributed l' \<Longrightarrow> l_contributed l \<or> (l_pc l = AtSpin \<and> w_threads p \<le> o_contributors w + o_finished w)"
proof -
  have "agreed p (o_total w') l' \<and> (registered l' \<longleftrightarrow> registered l \<or> l_pc l = AtContribute)
    \<and> (l_pc l' = AtDone \<longleftrightarrow> l_pc l = AtDone \<or> l_pc l = AtFinish)
    \<and> o_contributors w' = o_contributors w + of_bool (l_pc l = AtContribute)
    \<and> o_finished w' = o_finished w + of_bool (l_pc l = AtFinish)
    \<and> o_total w \<le> o_total w' \<and> (l_pc l \<noteq> AtTotal \<longrightarrow> o_total w' = o_total w)
    \<and> (l_contributed l' \<longrightarrow> l_contributed l \<or> (l_pc l = AtSpin \<and> w_threads p \<le> o_contributors w + o_finished w))"
    (is ?goal)
  proof (cases "inner (l_pc l)")
    case True
    from inner_step[OF step True] consider m where "w' = w" "l' = next_item p (l\<lparr>l_stat := m\<rparr>)"
      | m pc where "w' = w" "l' = l\<lparr>l_stat := m, l_pc := pc\<rparr>" "pc \<in> {AtRead, AtDelete, AtCreate, AtFailed}" by blast
    then show ?thesis
    proof cases
      case 1
      then show ?thesis using agreed_next[OF ag True, where m = m] True by (auto simp: registered_def inner_def)
    next
      case 2
      from agreed_inner[OF ag True] \<open>pc \<in> _\<close> show ?thesis
        by (elim insertE emptyE) (simp_all add: 2(1,2) registered_def inner_def agreed_def)
    qed
  next
    case False
    then consider "l_pc l = AtTail" | "l_pc l = AtTotal" | "l_pc l = AtContribute" | "l_pc l = AtSpin" | "l_pc l = AtLoad"
      | "l_pc l = AtFinish" | "l_pc l \<in> {AtDone, AtFailed}" by (cases "l_pc l") (auto simp: inner_def)
    then show ?thesis
    proof cases
      case 1
      have "\<not> l_contributed l \<or> w_wear_out p \<and> l_f l \<le> o_total w \<and> 0 < o_total w \<and> l_total l = o_total w"
        using ag 1 by (auto simp: agreed_def)
      note pass = agreed_pass[OF this]
      have w: "w' = w" using step 1 by (simp add: bench_step_def ops_defs split: if_splits)
      from step 1 consider "l' = at_pass p l" | "\<not> w_wear_out p" "l' = l\<lparr>l_pc := AtFinish\<rparr>"
        | "w_wear_out p" "\<not> l_contributed l" "l' = l\<lparr>l_pc := AtTotal\<rparr>" | "w_wear_out p" "l_contributed l" "l' = l\<lparr>l_pc := AtLoad\<rparr>"
        by (auto simp: bench_step_def ops_defs split: if_splits)
      then show ?thesis
      proof cases
        case a: 1
        with pass w 1 show ?thesis by (auto simp: registered_def)
      qed (use ag w 1 in \<open>simp_all add: registered_def agreed_def inner_def\<close>)
    next
      case 5
      let ?l = "if 0 < o_total w then l\<lparr>l_total := o_total w\<rparr> else l"
      have pre: "\<not> l_contributed ?l \<or> w_wear_out p \<and> l_f ?l \<le> o_total w \<and> 0 < o_total w \<and> l_total ?l = o_total w"
        using ag by (auto simp: agreed_def)
      have "w' = w" "l' = at_pass p ?l" using 5 step by (auto simp: bench_step_def ops_defs split: if_splits)
      with 5 agreed_pass[OF pre] show ?thesis by (auto simp: registered_def)
    next
      case 2
      then have "w' = w\<lparr>o_armed := True, o_total := max (o_total w) (l_f l + 1)\<rparr>" "l' = l\<lparr>l_pc := AtContribute\<rparr>"
        using step by (simp_all add: bench_step_def ops_defs)
      with 2 ag show ?thesis by (simp add: registered_def agreed_def inner_def)
    next
      case 3
      then have "w' = w\<lparr>o_contributors := o_contributors w + 1\<rparr>" "l' = l\<lparr>l_pc := AtSpin\<rparr>"
        using step by (simp_all add: bench_step_def ops_defs)
      with 3 ag show ?thesis by (simp add: registered_def agreed_def inner_def)
    next
      case 4
      have w: "w' = w" using step 4 by (simp add: bench_step_def ops_defs)
      have "l' = (if o_contributors w + o_finished w < w_threads p then l else l\<lparr>l_contributed := True, l_pc := AtLoad\<rparr>)"
        using step 4 by (auto simp: bench_step_def ops_defs)
      with 4 ag w show ?thesis
        by (cases "o_contributors w + o_finished w < w_threads p") (simp_all add: registered_def agreed_def inner_def)
    next
      case 6
      then have "w' = w\<lparr>o_finished := o_finished w + 1\<rparr>" "l' = l\<lparr>l_pc := AtDone\<rparr>"
        using step by (simp_all add: bench_step_def ops_defs)
      with 6 ag show ?thesis by (simp add: registered_def agreed_def inner_def)
    next
      case 7
      then have "w' = w" "l' = l" using step by (auto simp: bench_step_def ops_defs)
      with 7 ag show ?thesis by auto
    qed
  qed
  then show "agreed p (o_total w') l'" "registered l' \<longleftrightarrow> registered l \<or> l_pc l = AtContribute"
    "l_pc l' = AtDone \<longleftrightarrow> l_pc l = AtDone \<or> l_pc l = AtFinish"
    "o_contributors w' = o_contributors w + of_bool (l_pc l = AtContribute)"
    "o_finished w' = o_finished w + of_bool (l_pc l = AtFinish)"
    "o_total w \<le> o_total w'" "l_pc l \<noteq> AtTotal \<Longrightarrow> o_total w' = o_total w"
    "l_contributed l' \<Longrightarrow> l_contributed l \<or> (l_pc l = AtSpin \<and> w_threads p \<le> o_contributors w + o_finished w)"
    by blast+
qed

text \<open>A set that one step of a rank may extend.\<close>

lemma card_extend:
  assumes "P' r \<longleftrightarrow> P r \<or> q" "q \<longrightarrow> \<not> P r" "r < (T::nat)" "\<And>x. x \<noteq> r \<Longrightarrow> P' x = P x"
  shows "card {x. x < T \<and> P' x} = card {x. x < T \<and> P x} + of_bool q"
proof (cases q)
  case True
  have "{x. x < T \<and> P' x} = insert r {x. x < T \<and> P x}" using assms True by (auto, metis+)
  with assms(2) True show ?thesis by simp
next
  case False
  have "P' x = P x" for x using assms(1,4) False by metis
  with False show ?thesis by simp
qed

lemma all_settled:
  assumes "wear_ok p b" "w_threads p \<le> o_contributors (b_wear b) + o_finished (b_wear b)"
    "\<not> (\<exists>r < w_threads p. l_contributed (b_rank b r))"
  shows "\<forall>r < w_threads p. settled (b_rank b r)"
proof -
  let ?T = "w_threads p"
  let ?R = "{r. r < ?T \<and> registered (b_rank b r)}" and ?D = "{r. r < ?T \<and> l_pc (b_rank b r) = AtDone}"
  have "?R \<inter> ?D = {}" using assms(3) by (auto simp: registered_def)
  then have "card (?R \<union> ?D) = card ?R + card ?D" by (intro card_Un_disjoint) simp_all
  also have "\<dots> \<ge> ?T" using assms(1,2) by (simp add: wear_ok_def)
  finally have "card {..<?T} \<le> card (?R \<union> ?D)" by simp
  moreover have "?R \<union> ?D \<subseteq> {..<?T}" by auto
  ultimately have "?R \<union> ?D = {..<?T}" by (intro card_seteq) simp_all
  then show ?thesis by (auto simp: settled_def)
qed

lemma wear_ok_move:
  assumes ok: "wear_ok p b" and r: "r < w_threads p"
  shows "wear_ok p (bench_at F p starts r late b)"
proof -
  let ?l = "b_rank b r" and ?w = "b_wear b" and ?T = "w_threads p"
  obtain k' w' l' where step: "bench_step F p r (starts r) late (b_kern b, ?w, ?l) = (k', w', l')"
    using prod_cases3 by blast
  have ag: "agreed p (o_total ?w) (b_rank b x)" if "x < ?T" for x using ok that by (simp add: wear_ok_def)
  note S = wear_step[OF step ag[OF r]]
  let ?ls = "(b_rank b)(r := l')"
  have b': "bench_at F p starts r late b = \<lparr>b_kern = k', b_wear = w', b_rank = ?ls\<rparr>"
    by (simp add: bench_at_def step)
  have "l_pc ?l = AtContribute \<longrightarrow> \<not> registered ?l" using ag[OF r] by (auto simp: registered_def agreed_def)
  then have "card {x. x < ?T \<and> registered (?ls x)} = card {x. x < ?T \<and> registered (b_rank b x)} + of_bool (l_pc ?l = AtContribute)"
    using S(2) r by (intro card_extend[where r = r]) auto
  then have 1: "o_contributors w' = card {x. x < ?T \<and> registered (?ls x)}" using ok S(4) by (simp add: wear_ok_def)
  have "card {x. x < ?T \<and> l_pc (?ls x) = AtDone} = card {x. x < ?T \<and> l_pc (b_rank b x) = AtDone} + of_bool (l_pc ?l = AtFinish)"
    using S(3) r by (intro card_extend[where r = r]) auto
  then have 2: "o_finished w' = card {x. x < ?T \<and> l_pc (?ls x) = AtDone}" using ok S(5) by (simp add: wear_ok_def)
  have keep: "settled (?ls x)" if "settled (b_rank b x)" for x
    using that S(2,3) by (auto simp: settled_def)
  have 3: "agreed p (o_total w') (?ls x)" if x: "x < ?T" for x
  proof (cases "x = r")
    case True
    then show ?thesis using S(1) by simp
  next
    case False
    show ?thesis
    proof (cases "o_total w' = o_total ?w")
      case True
      then show ?thesis using ag[OF x] False by simp
    next
      case changed: False
      then have "l_pc ?l = AtTotal" using S(7) by blast
      moreover from this have "\<not> l_contributed ?l" using ag[OF r] by (simp add: agreed_def)
      ultimately have "\<not> settled ?l" by (simp add: settled_def registered_def)
      with ok r have "\<not> l_contributed (b_rank b x)" using x unfolding wear_ok_def by blast
      then show ?thesis using ag[OF x] S(6) False by (auto simp: agreed_def)
    qed
  qed
  have 4: "settled (?ls x)" if y: "y < ?T" "l_contributed (?ls y)" and x: "x < ?T" for x y
  proof (cases "\<exists>y < ?T. l_contributed (b_rank b y)")
    case True
    with ok x have "settled (b_rank b x)" unfolding wear_ok_def by blast
    then show ?thesis by (rule keep)
  next
    case False
    then have "y = r" using y by (auto split: if_splits)
    with y False r have "?T \<le> o_contributors ?w + o_finished ?w" using S(8) by auto
    from all_settled[OF ok this False] x show ?thesis by (intro keep) simp
  qed
  show ?thesis unfolding b' wear_ok_def bench.simps by (intro conjI impI allI 1 2) (use 3 4 in blast)+
qed

lemma wear_ok_start: "wear_ok p (start_bench p k)"
proof -
  have "agreed p 0 (start_rank p)" "l_contributed (start_rank p) = False" "l_pc (start_rank p) \<in> {AtStat, AtTail, AtFinish}"
    unfolding start_rank_def
    using agreed_pass[of "\<lparr>l_f = 0, l_d = 0, l_total = w_num p, l_contributed = False, l_pc = AtTail, l_stat = no_stat\<rparr>" p 0]
    by simp_all
  then show ?thesis by (auto simp: wear_ok_def start_bench_def new_wear_out_def registered_def)
qed

lemma reaches_wear_ok: "bench_reaches F p starts k b \<Longrightarrow> wear_ok p b"
  by (induction rule: bench_reaches.induct) (simp_all add: wear_ok_start wear_ok_move)

end
