(* ===== verification/Mdworkbench_Properties.thy ===== *)
theory Mdworkbench_Properties
  imports Mdworkbench_Sets Mdworkbench_Wear
begin

text \<open>
  The properties of mdworkbench: the working set moves by whole iterations under every interleaving of
  the ranks, iterations end, a whole run leaves nothing behind, and what the stonewall promises.
\<close>

section \<open>The working set\<close>

text \<open>
  C19: On a file system without faults, an iteration of the benchmark without a stonewall and with at most as
  many passes as objects keeps its books under every interleaving of the ranks: no rank counts an
  error or fails at any point, and when all ranks have ended every data set has lost exactly its
  oldest objects and gained as many new ones with the right contents, and each rank has read, deleted
  and created one object per pass and data set.
\<close>

theorem working_set_moves:
  assumes "faultless F view" "plain p v" "\<forall>r < w_threads p. starts r = c" "holds_objects p v (stock p c) (view k)"
    "bench_reaches F p starts k b"
  shows "(\<forall>r < w_threads p. n_errors (l_stat (b_rank b r)) = 0 \<and> l_pc (b_rank b r) \<noteq> AtFailed)
    \<and> (ended p b \<longrightarrow> holds_objects p v (stock p (c + w_num p)) (view (b_kern b))
        \<and> (\<forall>r < w_threads p. obj_read (l_stat (b_rank b r)) = w_num p * w_dsets p
             \<and> obj_delete (l_stat (b_rank b r)) = w_num p * w_dsets p \<and> obj_create (l_stat (b_rank b r)) = w_num p * w_dsets p))"
proof
  have ws: "working_set view p c v (b_kern b) (b_rank b)" by (rule reaches_working_set[OF assms])
  then have ok: "rank_ok p (b_rank b r)" if "r < w_threads p" for r using that by (simp add: working_set_def)
  then show fine: "\<forall>r < w_threads p. n_errors (l_stat (b_rank b r)) = 0 \<and> l_pc (b_rank b r) \<noteq> AtFailed"
    using rank_ok_fine by blast
  show "ended p b \<longrightarrow> holds_objects p v (stock p (c + w_num p)) (view (b_kern b))
        \<and> (\<forall>r < w_threads p. obj_read (l_stat (b_rank b r)) = w_num p * w_dsets p
             \<and> obj_delete (l_stat (b_rank b r)) = w_num p * w_dsets p \<and> obj_create (l_stat (b_rank b r)) = w_num p * w_dsets p)"
  proof (intro impI conjI)
    assume "ended p b"
    with fine have done1: "\<forall>r < w_threads p. l_pc (b_rank b r) = AtDone" unfolding ended_def by blast
    show "holds_objects p v (stock p (c + w_num p)) (view (b_kern b))"
      by (rule ended_objects[OF ws _ done1]) (use assms(2) in \<open>simp add: plain_def\<close>)
    show "\<forall>r < w_threads p. obj_read (l_stat (b_rank b r)) = w_num p * w_dsets p
        \<and> obj_delete (l_stat (b_rank b r)) = w_num p * w_dsets p \<and> obj_create (l_stat (b_rank b r)) = w_num p * w_dsets p"
      using rank_ok_done ok done1 by blast
  qed
qed

text \<open>
  C20: Without a stonewall every iteration of the benchmark ends, on any file system, faulty ones included:
  a rank needs at most four steps per pass and data set, one more per pass and two at the end, in
  whatever order the ranks take their turns.
\<close>

theorem every_iteration_ends:
  assumes "\<not> w_timer p" "\<forall>r < w_threads p. (4 * w_dsets p + 1) * w_num p + 2 \<le> turns r sched"
  shows "ended p (run_bench F p starts sched (start_bench p k))"
  using long_schedule_ends[OF assms(1)] assms(2) by (simp add: bench_len_def)

section \<open>A whole run\<close>

text \<open>All phases, and schedules that let every rank end.\<close>

definition full_run :: "mdw_params \<Rightarrow> (nat \<times> bool) list list \<Rightarrow> bool" where
  "full_run p scheds \<longleftrightarrow> w_phase_pre p \<and> w_phase_bench p \<and> w_phase_clean p \<and> w_start p = 0
     \<and> \<not> w_timer p \<and> \<not> w_read_only p \<and> w_num p \<le> w_precreate p \<and> length scheds = w_iterations p
     \<and> (\<forall>sched \<in> set scheds. \<forall>r < w_threads p. bench_len p \<le> turns r sched)"

text \<open>What holds between the phases.\<close>

definition between ::
  "('k \<Rightarrow> path \<Rightarrow> node option) \<Rightarrow> mdw_params \<Rightarrow> (path \<Rightarrow> node option) \<Rightarrow> nat \<Rightarrow> 'k mdw_run \<Rightarrow> bool" where
  "between view p u c s \<longleftrightarrow> (\<forall>r < w_threads p. r_start s r = c) \<and> total_errors (r_phases s) = 0
     \<and> stocked p u (\<lambda>t. t < w_threads p) (\<lambda>i. c \<le> i \<and> i < c + w_precreate p) (view (r_kern s))"

lemma is_obj_of_ranks: "is_obj p q \<Longrightarrow> of_ranks p (\<lambda>t. t < w_threads p) q"
  by (auto simp: is_obj_def of_ranks_def)

lemma stocked_objects:
  assumes "stocked p u (\<lambda>t. t < w_threads p) (\<lambda>i. c \<le> i \<and> i < c + w_precreate p) w"
  shows "holds_objects p w (stock p c) w"
  using stocked_at(2)[OF assms] by (simp add: holds_objects_def stock_def)

lemma objects_stocked:
  assumes st: "stocked p u (\<lambda>t. t < w_threads p) hold w" and h: "holds_objects p w (stock p c) w'"
  shows "stocked p u (\<lambda>t. t < w_threads p) (\<lambda>i. c \<le> i \<and> i < c + w_precreate p) w'"
  unfolding stocked_def
proof (intro conjI allI impI)
  fix t d assume t: "t < w_threads p \<and> d < w_dsets p"
  have "\<not> is_obj p (dset_path p t d)" using obj_not_dset(1)[symmetric] by (auto simp: is_obj_def)
  then show "w' (dset_path p t d) = Some DirNode"
    using h stocked_at(1)[OF st] t by (simp add: holds_objects_def)
  show "w' (obj_path p t d i) = (if c \<le> i \<and> i < c + w_precreate p then Some (FileNode (obj_content p t d i)) else None)" for i
    using held[OF h] t by (simp add: stock_def)
next
  fix q assume q: "\<not> of_ranks p (\<lambda>t. t < w_threads p) q"
  then have "w' q = w q" using h is_obj_of_ranks unfolding holds_objects_def by blast
  also have "\<dots> = u q" using st q by (simp add: stocked_def)
  finally show "w' q = u q" .
qed

lemma bench_phase_between:
  assumes law: "faultless F view" and full: "full_run p scheds" and sched: "sched \<in> set scheds"
    and b: "between view p u c s"
  shows "between view p u (c + w_num p) (bench_phase F p sched s)"
proof -
  let ?k = "r_kern s" and ?b = "run_bench F p (r_start s) sched (start_bench p (r_kern s))"
  have st: "stocked p u (\<lambda>t. t < w_threads p) (\<lambda>i. c \<le> i \<and> i < c + w_precreate p) (view ?k)"
    and starts: "\<forall>r < w_threads p. r_start s r = c" using b by (simp_all add: between_def)
  have pl: "plain p (view ?k)" using full stocked_at(1)[OF st] by (simp add: plain_def full_run_def)
  have reach: "bench_reaches F p (r_start s) ?k ?b" by (rule run_reaches) (rule bench_reaches.start)
  have ws: "working_set view p c (view ?k) (b_kern ?b) (b_rank ?b)"
    by (rule reaches_working_set[OF law pl starts stocked_objects[OF st] reach])
  have "ended p ?b" by (rule long_schedule_ends) (use full sched in \<open>simp_all add: full_run_def\<close>)
  moreover have fine: "rank_ok p (b_rank ?b r)" if "r < w_threads p" for r using ws that by (simp add: working_set_def)
  ultimately have done1: "\<forall>r < w_threads p. l_pc (b_rank ?b r) = AtDone"
    using rank_ok_fine unfolding ended_def by blast
  have "stocked p u (\<lambda>t. t < w_threads p) (\<lambda>i. c + w_num p \<le> i \<and> i < c + w_num p + w_precreate p) (view (b_kern ?b))"
    by (rule objects_stocked[OF st ended_objects[OF ws _ done1]]) (use full in \<open>simp add: full_run_def\<close>)
  moreover have "n_errors (l_stat (b_rank ?b r)) = 0 \<and> next_start p c (b_rank ?b r) = c + w_num p" if "r < w_threads p" for r
    using rank_ok_fine[OF fine[OF that]] rank_ok_done[OF fine[OF that]] done1 that full
    by (simp add: next_start_def full_run_def)
  moreover have "total_errors (r_phases s) = 0" using b by (simp add: between_def)
  ultimately show ?thesis using starts
    by (auto simp: between_def bench_phase_def total_errors_def Let_def)
qed

lemma bench_phases_between:
  assumes "faultless F view" "full_run p scheds" "set ss \<subseteq> set scheds" "between view p u c s"
  shows "\<exists>c'. between view p u c' (fold (bench_phase F p) ss s)"
  using assms(3,4)
proof (induction ss arbitrary: c s)
  case (Cons x ss)
  from bench_phase_between[OF assms(1,2) _ Cons.prems(2), of x] Cons show ?case by fastforce
qed auto

text \<open>
  C21: A whole run on a file system without faults cleans up after itself: with all phases, no stonewall, no
  more passes than objects and schedules long enough, for any numbers of threads, data sets and
  iterations, the run reports ok and the file system is as it was before.
\<close>

theorem whole_run_leaves_nothing:
  assumes law: "faultless F view" and full: "full_run p scheds"
    and top: "view k (butlast (w_prefix p)) = Some DirNode" "\<forall>x. view k (w_prefix p @ x) = None"
  shows "\<exists>s. mdw_run F p scheds k = Some s \<and> mdw_status (r_phases s) = ''ok'' \<and> view (r_kern s) = view k"
proof -
  have free: "view k (w_prefix p) = None" using top(2) by (metis append_Nil2)
  obtain k1 ok where m: "w_mkdir_all F k (w_prefix p) = (k1, ok)" by fastforce
  have ok: "ok" and v1: "view k1 = (view k)(w_prefix p \<mapsto> DirNode)"
    using faultless_laws(1)[OF law free top(1) m] by simp_all
  let ?u = "view k1" and ?s0 = "\<lparr>r_kern = k1, r_start = (\<lambda>r. w_start p), r_phases = []\<rparr>"
  have u: "empty_below p ?u" using top(2) by (simp add: empty_below_def v1)
  have start: "w_start p = 0" using full by (simp add: full_run_def)
  have one: "between view p ?u 0 (precreate_phase F p ?s0)"
    using precreate_all_done[OF law u refl, of "\<lambda>r. w_start p" "w_threads p"] start
    by (auto simp: between_def precreate_phase_def total_errors_def)
  obtain c s1 where s1: "s1 = fold (bench_phase F p) scheds (precreate_phase F p ?s0)" "between view p ?u c s1"
    using bench_phases_between[OF law full subset_refl one] by blast
  obtain k2 sts where 2: "fold (\<lambda>r (k, sts). let (k, st) = run_cleanup_rank F p r (r_start s1 r) (k, no_stat) in (k, sts @ [st]))
      [0..<w_threads p] (r_kern s1, []) = (k2, sts)" "sum_list (map n_errors sts) = 0"
      "stocked p ?u (\<lambda>t. w_threads p \<le> t \<and> t < w_threads p) (\<lambda>i. c \<le> i \<and> i < c + w_precreate p) (view k2)"
    using cleanup_all_done[OF law u, of "r_start s1" c "r_kern s1" "w_threads p"] s1(2) unfolding between_def by blast
  have v2: "view k2 = ?u" using 2(3) by (auto simp: stocked_def of_ranks_def)
  have "view (fst (w_rmdir F k2 (w_prefix p))) = ?u(w_prefix p := None)"
    using faultless_laws(7)[OF law, of k2 "w_prefix p"] u by (simp add: v2 empty_below_def)
  also have "\<dots> = view k" using free by (auto simp: v1)
  finally have v3: "view (fst (w_rmdir F k2 (w_prefix p))) = view k" .
  have "cleanup_phase F p s1 = s1\<lparr>r_kern := fst (w_rmdir F k2 (w_prefix p)), r_phases := r_phases s1 @ [sts]\<rparr>"
    using 2(1) by (simp add: cleanup_phase_def)
  moreover have "mdw_run F p scheds k = Some (cleanup_phase F p s1)"
    using full m ok s1(1) by (simp add: mdw_run_def full_run_def)
  ultimately show ?thesis using v3 s1(2) 2(2) by (simp add: between_def mdw_status_def total_errors_def)
qed

section \<open>The stonewall\<close>

text \<open>
  With wear-out, all ranks that hit the timer in an iteration of the benchmark do the same number of
  passes, for any file system, any clock and any order of the ranks: the number is the largest position
  that was registered, plus one.
\<close>

theorem wear_out_agrees:
  assumes "bench_reaches F p starts k b" "r < w_threads p" "r' < w_threads p"
    "l_contributed (b_rank b r)" "l_pc (b_rank b r) = AtDone" "l_contributed (b_rank b r')" "l_pc (b_rank b r') = AtDone"
  shows "l_f (b_rank b r) = l_f (b_rank b r') \<and> l_f (b_rank b r) = o_total (b_wear b)"
proof -
  have "agreed p (o_total (b_wear b)) (b_rank b x)" if "x < w_threads p" for x
    using reaches_wear_ok[OF assms(1)] that by (simp add: wear_ok_def)
  from this[OF assms(2)] this[OF assms(3)] assms(4-7) show ?thesis by (simp add: agreed_def)
qed

text \<open>Calls that always succeed on empty objects, two ranks with a timer and one data set each.\<close>

definition easy_ops :: "unit mdw_ops" where
  "easy_ops = \<lparr>w_mkdir_all = (\<lambda>k q. (k, True)), w_mkdir = (\<lambda>k q. (k, Made)), w_create = (\<lambda>k q v. (k, Wrote 0)),
     w_stat = (\<lambda>k q. True), w_read = (\<lambda>k q n. (k, Got [])), w_remove = (\<lambda>k q. (k, Removed)), w_rmdir = (\<lambda>k q. (k, True))\<rparr>"

definition wear_params :: mdw_params where
  "wear_params = \<lparr>w_threads = 2, w_num = 5, w_precreate = 5, w_dsets = 1, w_size = 0, w_iterations = 1, w_offset = 1,
     w_prefix = [''out''], w_timer = True, w_wear_out = True, w_phase_pre = True, w_phase_bench = True,
     w_phase_clean = True, w_read_only = False, w_verify = False, w_seed = 1, w_start = 0\<rparr>"

text \<open>Rank 1 ends all its passes in time; then rank 0 hits the timer after its first pass.\<close>

definition uneven_sched :: "(nat \<times> bool) list" where
  "uneven_sched = replicate 27 (1, False) @ replicate 4 (0, False) @ replicate 14 (0, True)"

text \<open>Both ranks hit the timer, rank 0 after one pass and rank 1 after two.\<close>

definition even_sched :: "(nat \<times> bool) list" where
  "even_sched = replicate 4 (0, False) @ replicate 3 (0, True) @ replicate 9 (1, False) @ replicate 3 (1, True)
     @ replicate 20 (0, True) @ replicate 20 (1, True)"

text \<open>
  The promise that with wear-out all threads perform the same number of iterations fails when one of
  them ends before the timer: then the others stop early, here after two passes where it did five.
\<close>

theorem wear_out_uneven:
  "let b = run_bench easy_ops wear_params (\<lambda>r. 0) uneven_sched (start_bench wear_params ())
   in ended wear_params b \<and> l_f (b_rank b 0) = 2 \<and> l_f (b_rank b 1) = 5"
  by code_simp

theorem wear_out_agrees_witness:
  "l_f (b_rank (run_bench easy_ops wear_params (\<lambda>r. 0) even_sched (start_bench wear_params ())) 0) =
    l_f (b_rank (run_bench easy_ops wear_params (\<lambda>r. 0) even_sched (start_bench wear_params ())) 1)"
proof -
  let ?b = "run_bench easy_ops wear_params (\<lambda>r. 0) even_sched (start_bench wear_params ())"
  have "bench_reaches easy_ops wear_params (\<lambda>r. 0) () ?b" by (rule run_reaches) (rule bench_reaches.start)
  moreover have "l_contributed (b_rank ?b 0) \<and> l_pc (b_rank ?b 0) = AtDone" by code_simp
  moreover have "l_contributed (b_rank ?b 1) \<and> l_pc (b_rank ?b 1) = AtDone" by code_simp
  moreover have "0 < w_threads wear_params" "1 < w_threads wear_params" by (simp_all add: wear_params_def)
  ultimately show ?thesis using wear_out_agrees[of easy_ops wear_params "\<lambda>r. 0" "()" ?b 0 1] by simp
qed

section \<open>Errors of the precreation\<close>

lemma make_dsets_errors:
  "\<forall>k q. snd (w_mkdir F k q) \<noteq> MakeFailed \<Longrightarrow> n_errors (snd (fst (make_dsets F p r ds ks))) = n_errors (snd ks)"
proof (induction ds arbitrary: ks)
  case (Cons d ds)
  obtain k s where ks: "ks = (k, s)" by fastforce
  obtain k' m where m: "w_mkdir F k (dset_path p r d) = (k', m)" by fastforce
  then have "m \<noteq> MakeFailed" using Cons.prems by (metis snd_conv)
  with m ks Cons show ?case by (cases m) simp_all
qed simp

lemma fill_dsets_errors:
  "\<forall>k q v. snd (w_create F k q v) \<in> {OpenFailed, WriteFailed} \<Longrightarrow>
    n_errors (snd (fst (fill_dsets F p r fds (k, s)))) = n_errors s"
proof (cases fds)
  case (Cons x r')
  obtain f d where x: "x = (f, d)" by fastforce
  obtain k' c where c: "w_create F k (obj_path p r d f) (obj_content p r d f) = (k', c)" by fastforce
  assume "\<forall>k q v. snd (w_create F k q v) \<in> {OpenFailed, WriteFailed}"
  then have "c \<in> {OpenFailed, WriteFailed}" using c by (metis snd_conv)
  then show ?thesis using Cons x c by auto
qed simp

lemma precreate_errors:
  assumes "\<forall>k q. snd (w_mkdir F k q) \<noteq> MakeFailed" "\<forall>k q v. snd (w_create F k q v) \<in> {OpenFailed, WriteFailed}"
  shows "n_errors (snd (fst (run_precreate_rank F p r c (k, no_stat)))) = 0"
proof -
  obtain k1 s1 ok where m: "make_dsets F p r [0..<w_dsets p] (k, no_stat) = ((k1, s1), ok)" by (metis surj_pair)
  then have "n_errors s1 = 0" using make_dsets_errors[OF assms(1), of p r "[0..<w_dsets p]" "(k, no_stat)"]
    by (simp add: no_stat_def)
  then show ?thesis using fill_dsets_errors[OF assms(2)] by (simp add: run_precreate_rank_def m)
qed

text \<open>
  A precreation that cannot create a single object is reported as ok: if every creation fails, with
  directories that can be made, the run of the precreation alone counts no error.
\<close>

theorem precreation_failure_is_ok:
  assumes "\<forall>k q. snd (w_mkdir F k q) \<noteq> MakeFailed" "\<forall>k q v. snd (w_create F k q v) \<in> {OpenFailed, WriteFailed}"
    and phases: "\<not> w_phase_bench p" "\<not> w_phase_clean p" "mdw_run F p scheds k = Some s"
  shows "mdw_status (r_phases s) = ''ok''"
proof -
  let ?step = "\<lambda>r (k, sts). let ((k, st), ok) = run_precreate_rank F p r (w_start p) (k, no_stat) in (k, sts @ [st])"
  have "sum_list (map n_errors (snd (fold ?step rs (k, sts)))) = sum_list (map n_errors sts)" for rs k sts
  proof (induction rs arbitrary: k sts)
    case (Cons r rs)
    obtain k1 st ok where 1: "run_precreate_rank F p r (w_start p) (k, no_stat) = ((k1, st), ok)" by (metis surj_pair)
    then have "n_errors st = 0" using precreate_errors[OF assms(1,2), of p r "w_start p" k] by simp
    with Cons.IH[of k1 "sts @ [st]"] 1 show ?case by simp
  qed simp
  note fold_errors = this
  have pre: "total_errors (r_phases (precreate_phase F p \<lparr>r_kern = k', r_start = \<lambda>r. w_start p, r_phases = []\<rparr>)) = 0" for k'
  proof -
    obtain k2 sts where 2: "fold ?step [0..<w_threads p] (k', []) = (k2, sts)" by fastforce
    then have "sum_list (map n_errors sts) = 0" using fold_errors[of "[0..<w_threads p]" k' "[]"] by simp
    then show ?thesis unfolding precreate_phase_def mdw_run.simps 2 by (simp add: total_errors_def)
  qed
  obtain k1 ok where m: "(if w_phase_pre p then w_mkdir_all F k (w_prefix p) else (k, True)) = (k1, ok)" by fastforce
  have "s = (let s = \<lparr>r_kern = k1, r_start = \<lambda>r. w_start p, r_phases = []\<rparr> in if w_phase_pre p then precreate_phase F p s else s)"
    using phases m by (auto simp: mdw_run_def Let_def split: if_splits)
  then show ?thesis using pre by (auto simp: mdw_status_def total_errors_def Let_def)
qed

section \<open>Concrete runs\<close>

text \<open>A file system without faults, kept as a map of its nodes, with the top directory.\<close>

definition map_disk :: "(path \<Rightarrow> node option) mdw_ops" where
  "map_disk =
     (let mk = (\<lambda>k q. k q = None \<and> k (butlast q) = Some DirNode)
      in \<lparr>w_mkdir_all = (\<lambda>k q. if mk k q then (k(q \<mapsto> DirNode), True) else (k, k q = Some DirNode)),
          w_mkdir = (\<lambda>k q. if mk k q then (k(q \<mapsto> DirNode), Made) else (k, if k q = None then MakeFailed else AlreadyThere)),
          w_create = (\<lambda>k q v. if mk k q then (k(q \<mapsto> FileNode v), Wrote (length v)) else (k, OpenFailed)),
          w_stat = (\<lambda>k q. k q \<noteq> None),
          w_read = (\<lambda>k q n. (k, case k q of Some (FileNode v) \<Rightarrow> if n \<le> length v then Got (take n v) else ReadFailed | _ \<Rightarrow> NotOpened)),
          w_remove = (\<lambda>k q. case k q of Some (FileNode v) \<Rightarrow> (k(q := None), Removed) | None \<Rightarrow> (k, NotFound) | _ \<Rightarrow> (k, RemoveFailed)),
          w_rmdir = (\<lambda>k q. if k q = Some DirNode \<and> (\<forall>x. k (q @ [x]) = None) then (k(q := None), True) else (k, False))\<rparr>)"

lemma map_disk_faultless: "faultless map_disk id"
  by (auto simp: faultless_def map_disk_def Let_def)

definition run_params :: mdw_params where
  "run_params = wear_params\<lparr>w_timer := False, w_num := 2, w_precreate := 3, w_size := 2\<rparr>"

definition fair_sched :: "(nat \<times> bool) list" where
  "fair_sched = concat (replicate 12 [(1, False), (0, False)])"

definition top_only :: "path \<Rightarrow> node option" where
  "top_only = (\<lambda>q. if q = [] then Some DirNode else None)"

lemma fair_turns: "\<forall>r < w_threads run_params. bench_len run_params \<le> turns r fair_sched"
proof (intro allI impI)
  fix r assume "r < w_threads run_params"
  then have "r = 0 \<or> r = 1" by (auto simp: run_params_def wear_params_def)
  moreover have "turns 0 fair_sched = 12" "turns 1 fair_sched = 12" by code_simp+
  ultimately show "bench_len run_params \<le> turns r fair_sched" by (auto simp: bench_len_def run_params_def wear_params_def)
qed

text \<open>Two iterations on the empty disk.\<close>

theorem whole_run_leaves_nothing_witness:
  "\<exists>s. mdw_run map_disk (run_params\<lparr>w_iterations := 2\<rparr>) [fair_sched, fair_sched] top_only = Some s
    \<and> mdw_status (r_phases s) = ''ok'' \<and> r_kern s = top_only"
proof -
  let ?p = "run_params\<lparr>w_iterations := 2\<rparr>"
  have "\<forall>r < w_threads ?p. bench_len ?p \<le> turns r fair_sched" using fair_turns by (simp add: bench_len_def)
  then have "full_run ?p [fair_sched, fair_sched]"
    by (simp add: full_run_def) (simp add: run_params_def wear_params_def)
  moreover have "id top_only (butlast (w_prefix ?p)) = Some DirNode" "\<forall>x. id top_only (w_prefix ?p @ x) = None"
    by (simp_all add: top_only_def run_params_def wear_params_def)
  ultimately show ?thesis using whole_run_leaves_nothing[OF map_disk_faultless] by simp
qed

theorem every_iteration_ends_witness:
  "ended run_params (run_bench map_disk run_params (\<lambda>r. 0) fair_sched (start_bench run_params top_only))"
  by (rule every_iteration_ends)
    (use fair_turns in \<open>simp_all add: bench_len_def\<close>, simp add: run_params_def)

text \<open>An iteration after a precreation.\<close>

lemma stocked_disk:
  "\<exists>k. stocked run_params (top_only([''out''] \<mapsto> DirNode)) (\<lambda>t. t < w_threads run_params) (\<lambda>i. 0 \<le> i \<and> i < 0 + w_precreate run_params) k"
proof -
  let ?u = "top_only([''out''] \<mapsto> DirNode)"
  have "empty_below run_params ?u" by (simp add: empty_below_def run_params_def wear_params_def top_only_def)
  from precreate_all_done[OF map_disk_faultless this, of ?u "\<lambda>r. 0" "w_threads run_params"]
  show ?thesis by auto
qed

theorem working_set_moves_witness:
  "\<exists>k b. bench_reaches map_disk run_params (\<lambda>r. 0) k b \<and> ended run_params b
    \<and> (\<forall>r < w_threads run_params. obj_read (l_stat (b_rank b r)) = 2)"
proof -
  let ?u = "top_only([''out''] \<mapsto> DirNode)"
  obtain k where k: "stocked run_params ?u (\<lambda>t. t < w_threads run_params) (\<lambda>i. 0 \<le> i \<and> i < 0 + w_precreate run_params) k"
    using stocked_disk by blast
  let ?b = "run_bench map_disk run_params (\<lambda>r. 0) fair_sched (start_bench run_params k)"
  have reach: "bench_reaches map_disk run_params (\<lambda>r. 0) k ?b" by (rule run_reaches) (rule bench_reaches.start)
  have "\<not> w_timer run_params \<and> \<not> w_read_only run_params \<and> w_num run_params \<le> w_precreate run_params"
    by (simp add: run_params_def wear_params_def)
  then have pl: "plain run_params k" using stocked_at(1)[OF k] by (simp add: plain_def)
  have h: "holds_objects run_params k (stock run_params 0) (id k)" using stocked_objects[OF k] by simp
  have "ended run_params ?b" by (rule long_schedule_ends[OF _ fair_turns]) (simp add: run_params_def)
  moreover have "w_num run_params * w_dsets run_params = 2" by (simp add: run_params_def wear_params_def)
  ultimately show ?thesis using working_set_moves[OF map_disk_faultless pl _ h reach] reach by auto
qed

text \<open>A disk without room for objects.\<close>

theorem precreation_failure_is_ok_witness:
  "map_option (\<lambda>s. mdw_status (r_phases s))
     (mdw_run (easy_ops\<lparr>w_create := (\<lambda>k q v. (k, OpenFailed))\<rparr>) (wear_params\<lparr>w_phase_bench := False, w_phase_clean := False\<rparr>) [] ())
   = Some ''ok''"
proof -
  let ?F = "easy_ops\<lparr>w_create := (\<lambda>k q v. (k, OpenFailed))\<rparr>"
  let ?p = "wear_params\<lparr>w_phase_bench := False, w_phase_clean := False\<rparr>"
  have ops: "\<forall>k q. snd (w_mkdir ?F k q) \<noteq> MakeFailed" "\<forall>k q v. snd (w_create ?F k q v) \<in> {OpenFailed, WriteFailed}"
    by (simp_all add: easy_ops_def)
  obtain s where s: "mdw_run ?F ?p [] () = Some s" by (simp add: mdw_run_def easy_ops_def wear_params_def Let_def)
  have "\<not> w_phase_bench ?p" "\<not> w_phase_clean ?p" by simp_all
  from precreation_failure_is_ok[OF ops this s] show ?thesis unfolding s by simp
qed

end
