(* ===== verification/Smallfile.thy ===== *)
theory Smallfile
  imports Mdtest
begin

unbundle bit_operations_syntax

text \<open>
  The small-file workload smallfile (src/src/smallfile.rs): parameters, the names of directories and
  files, file sizes, the shared pattern buffer and the dates of reports. Products of u32 are those of a
  build in which they do not overflow; a subtraction below zero is a panic, the value None. The parser of the
  command line keeps the numbers of files and directories positive, so nothing is divided by zero.
\<close>

section \<open>Parameters\<close>

definition SF_OP_NAMES :: "string list" where
  "SF_OP_NAMES = [''create'', ''read'', ''append'', ''overwrite'', ''truncate-overwrite'', ''rename'', ''delete'',
     ''delete-renamed'', ''cleanup'', ''stat'', ''chmod'', ''mkdir'', ''rmdir'', ''symlink'', ''readdir'', ''ls-l'',
     ''setxattr'', ''getxattr'', ''swift-put'', ''swift-get'', ''await-create'']"

definition DEFAULT_PHASES :: "string list" where
  "DEFAULT_PHASES = [''cleanup'', ''create'', ''read'', ''append'', ''rename'', ''delete-renamed'', ''cleanup'']"

definition BIGGEST_BUF_SIZE :: nat where "BIGGEST_BUF_SIZE = 1048576"
definition BUF_OFFSET_RANGE :: nat where "BUF_OFFSET_RANGE = 1024"
definition SOME_PRIME :: nat where "SOME_PRIME = 900593"
definition RANDOM_SIZE_LIMIT :: nat where "RANDOM_SIZE_LIMIT = 8"
definition EIO :: nat where "EIO = 5"

definition positive_u32 :: "string \<Rightarrow> nat option" where
  "positive_u32 s = do { v \<leftarrow> parse_uint (2 ^ 32) 10 s; if v = 0 then None else Some v }"

definition yn_bool :: "string \<Rightarrow> bool option" where
  "yn_bool s =
     (let t = map to_lower s
      in if t \<in> {''y'', ''yes'', ''true''} then Some True
         else if t \<in> {''n'', ''no'', ''false''} then Some False else None)"

datatype distr = Fixed | Exponential

definition distr_parser :: "string \<Rightarrow> distr option" where
  "distr_parser s =
     (if s = ''fixed'' then Some Fixed else if s = ''exponential'' then Some Exponential else None)"

record sf_params =
  s_opname :: string
  s_iterations :: nat
  s_threads :: nat
  s_record_kb :: nat
  s_total_kb :: nat
  s_distr :: distr
  s_files_per_dir :: nat
  s_dirs_per_dir :: nat
  s_prefix :: string
  s_suffix :: string
  s_stonewall :: bool
  s_finish :: bool
  s_verify :: bool
  s_fsync :: bool
  s_hash :: bool
  s_shared :: bool
  s_xattr_size :: nat
  s_xattr_count :: nat
  s_record_ctime :: bool
  s_host :: string

section \<open>Directories and names\<close>

text \<open>A number printed with leading zeros up to a width.\<close>

definition pad0 :: "nat \<Rightarrow> nat \<Rightarrow> string" where
  "pad0 w n = (let s = dec_str n in replicate (w - length s) (CHR ''0'') @ s)"

definition src_base :: "sf_params \<Rightarrow> path" where
  "src_base p = [''file_srcdir'', s_host p]"

definition dest_base :: "sf_params \<Rightarrow> path" where
  "dest_base p = [''file_dstdir'', s_host p]"

definition src_dirs :: "sf_params \<Rightarrow> string \<Rightarrow> path list" where
  "src_dirs p tid = (if s_shared p then [[''file_srcdir'']] else [src_base p @ [''thrd_'' @ tid]])"

definition dest_dirs :: "sf_params \<Rightarrow> string \<Rightarrow> path list" where
  "dest_dirs p tid = (if s_shared p then [[''file_dstdir'']] else [dest_base p @ [''thrd_'' @ tid]])"

definition record_size_to_use :: "sf_params \<Rightarrow> nat" where
  "record_size_to_use p =
     min (if s_record_kb p = 0 then s_total_kb p else s_record_kb p) (BIGGEST_BUF_SIZE div 1024)"

definition files_between_checks :: "sf_params \<Rightarrow> nat option" where
  "files_between_checks p =
     (if 0 < s_total_kb p then map_option (max 10) (rsub 100 (s_total_kb p div 100)) else Some 20)"

text \<open>The numbers below \<open>n\<close> in steps of \<open>k\<close>.\<close>

definition step_by :: "nat \<Rightarrow> nat \<Rightarrow> nat list" where
  "step_by n k = map ((*) k) [0..<(n + k - 1) div k]"

definition subdir_file_nums :: "sf_params \<Rightarrow> nat list" where
  "subdir_file_nums p =
     (if s_hash p then [0..<s_iterations p + 1]
      else step_by (s_iterations p + s_files_per_dir p) (s_files_per_dir p))"

text \<open>The loops over the levels do not return for one directory per directory.\<close>

partial_function (option) level_sizes :: "nat \<Rightarrow> nat \<Rightarrow> nat \<Rightarrow> nat list \<Rightarrow> nat list option" where
  "level_sizes per dir_in cur acc =
     (if cur \<le> dir_in then level_sizes per dir_in (cur * per) (acc @ [cur]) else Some acc)"

fun seq_parts :: "nat list \<Rightarrow> nat \<Rightarrow> string list" where
  "seq_parts [] dir_in = [''d_'' @ pad0 3 dir_in]"
| "seq_parts (lvl # ls) dir_in = (''d_'' @ pad0 3 (dir_in div lvl)) # seq_parts ls (dir_in - dir_in div lvl * lvl)"

definition mk_seq_dir_name :: "sf_params \<Rightarrow> nat \<Rightarrow> path option" where
  "mk_seq_dir_name p file_num = do {
     levels \<leftarrow> level_sizes (s_dirs_per_dir p) (file_num div s_files_per_dir p) (s_dirs_per_dir p) [];
     Some (seq_parts (rev levels) (file_num div s_files_per_dir p))
   }"

partial_function (option) hash_loop :: "nat \<Rightarrow> nat \<Rightarrow> path \<Rightarrow> path option" where
  "hash_loop per dir_num acc =
     (if 1 < dir_num
      then hash_loop per (dir_num div per) ((''h_'' @ pad0 3 (dir_num * SOME_PRIME mod per)) # acc)
      else Some acc)"

definition mk_hashed_dir_name :: "sf_params \<Rightarrow> nat \<Rightarrow> path option" where
  "mk_hashed_dir_name p file_num =
     hash_loop (s_dirs_per_dir p) ((file_num * SOME_PRIME) mod s_iterations p div s_files_per_dir p) []"

declare level_sizes.simps [code] hash_loop.simps [code]

definition mk_dir_name :: "sf_params \<Rightarrow> nat \<Rightarrow> path option" where
  "mk_dir_name p file_num = (if s_hash p then mk_hashed_dir_name p file_num else mk_seq_dir_name p file_num)"

text \<open>What a thread keeps of its number and its directories.\<close>

record sf_thread =
  th_tid :: nat
  th_label :: string
  th_src :: "path list"
  th_dest :: "path list"
  th_dirs :: "path list"

fun all_names :: "(nat \<Rightarrow> path option) \<Rightarrow> nat list \<Rightarrow> path list option" where
  "all_names f [] = Some []"
| "all_names f (n # ns) = do { d \<leftarrow> f n; ds \<leftarrow> all_names f ns; Some (d # ds) }"

definition new_thread :: "sf_params \<Rightarrow> nat \<Rightarrow> sf_thread option" where
  "new_thread p tid = do {
     dirs \<leftarrow> all_names (mk_dir_name p) [0..<s_iterations p + s_files_per_dir p];
     Some \<lparr>th_tid = tid, th_label = pad0 2 tid, th_src = src_dirs p (pad0 2 tid), th_dest = dest_dirs p (pad0 2 tid),
       th_dirs = dirs\<rparr>
   }"

definition file_name :: "sf_params \<Rightarrow> sf_thread \<Rightarrow> nat \<Rightarrow> string" where
  "file_name p t n =
     s_prefix p @ ''_'' @ s_host p @ ''_'' @ th_label t @ ''_'' @ dec_str n @ ''_'' @ s_suffix p"

text \<open>The list of base directories is not empty, and every number a thread uses has a directory.\<close>

definition mk_file_nm :: "sf_params \<Rightarrow> sf_thread \<Rightarrow> path list \<Rightarrow> nat \<Rightarrow> path" where
  "mk_file_nm p t base n = base ! (n mod length base) @ th_dirs t ! n @ [file_name p t n]"

definition suffix_path :: "path \<Rightarrow> string \<Rightarrow> path" where
  "suffix_path q s = butlast q @ [last q @ s]"

section \<open>Contents and sizes\<close>

definition pattern_byte :: "nat \<Rightarrow> u8" where
  "pattern_byte k = (let b = k mod 128 in if b = 92 then 33 else of_nat b)"

fun doubled :: "nat \<Rightarrow> 'a list \<Rightarrow> 'a list" where
  "doubled 0 xs = xs"
| "doubled (Suc n) xs = doubled n (xs @ xs)"

definition build_biggest_buf :: "u8 list" where
  "build_biggest_buf =
     (let first = map pattern_byte [0..<BUF_OFFSET_RANGE] in doubled 10 first @ first)"

definition unique_offset :: "sf_thread \<Rightarrow> nat \<Rightarrow> nat" where
  "unique_offset t filenum = ((th_tid t + 1) * filenum) mod BUF_OFFSET_RANGE"

text \<open>The bytes of a record of \<open>n\<close> bytes.\<close>

definition buf_slice :: "nat \<Rightarrow> nat \<Rightarrow> u8 list" where
  "buf_slice uo n = take n (drop uo build_biggest_buf)"

definition xattr_value :: "sf_params \<Rightarrow> nat \<Rightarrow> nat \<Rightarrow> u8 list" where
  "xattr_value p uo j =
     (let b = min (uo + j) (length build_biggest_buf); e = min (uo + j + s_xattr_size p) (length build_biggest_buf)
      in take (e - b) (drop b build_biggest_buf))"

text \<open>The generator of sizes: \<open>expo mean z\<close> is the value in KiB that the floating-point formula gives for the
  53-bit draw \<open>z\<close>.\<close>

definition next_rand :: "u64 \<Rightarrow> u64 \<times> nat" where
  "next_rand st = (let st = st + GOLDEN in (st, unat (drop_bit 11 (splitmix st))))"

definition next_file_size :: "(nat \<Rightarrow> nat \<Rightarrow> nat) \<Rightarrow> sf_params \<Rightarrow> u64 \<Rightarrow> u64 \<times> nat" where
  "next_file_size expo p st =
     (case s_distr p of
        Fixed \<Rightarrow> (st, s_total_kb p)
      | Exponential \<Rightarrow>
          (let (st, z) = next_rand st
           in (st, min (max (expo (s_total_kb p) z) 1) (min (s_total_kb p * RANDOM_SIZE_LIMIT) (2 ^ 32 - 1)))))"

section \<open>Dates\<close>

text \<open>Rust's integer division rounds to zero; the code divides only numbers that are not negative, except
  where it corrects for that.\<close>

definition civil_from_days :: "int \<Rightarrow> int \<times> int \<times> int" where
  "civil_from_days z =
     (let z = z + 719468;
          era = (if 0 \<le> z then z div 146097 else - (- (z - 146096) div 146097));
          doe = z - era * 146097;
          yoe = (doe - doe div 1460 + doe div 36524 - doe div 146096) div 365;
          y = yoe + era * 400;
          doy = doe - (365 * yoe + yoe div 4 - yoe div 100);
          mp = (5 * doy + 2) div 153;
          d = doy - (153 * mp + 2) div 5 + 1;
          m = (if mp < 10 then mp + 3 else mp - 9)
      in (if m \<le> 2 then y + 1 else y, m, d))"

definition iso8601 :: "nat \<Rightarrow> string" where
  "iso8601 secs =
     (let (y, m, d) = civil_from_days (int (secs div 86400)); r = secs mod 86400
      in pad0 4 (nat y) @ ''-'' @ pad0 2 (nat m) @ ''-'' @ pad0 2 (nat d) @ ''T'' @ pad0 2 (r div 3600) @ '':''
         @ pad0 2 (r mod 3600 div 60) @ '':'' @ pad0 2 (r mod 60) @ ''Z'')"

end
