(* ===== verification/Smallfile_Run.thy ===== *)
theory Smallfile_Run
  imports Smallfile "HOL-Library.Char_ord" "HOL-Library.List_Lexorder"
begin

text \<open>
  The operations of smallfile (src/src/smallfile.rs): the loop over the files of a thread with the
  stonewall, every operation that changes files, a thread and its outcome, the aggregation of outcomes
  and a run. The file system is a parameter; its state holds the flag that the threads share, so the calls
  of other threads are part of it. Response times and pauses are not modelled, nor is the polling of
  await-create, which waits for files that another site creates.
\<close>

section \<open>Errors and the file system\<close>

datatype io_error = Os nat | OtherError

definition errno_of :: "io_error \<Rightarrow> nat" where
  "errno_of e = (case e of Os n \<Rightarrow> n | OtherError \<Rightarrow> EIO)"

definition ENOENT :: nat where "ENOENT = 2"

record 'k sf_ops =
  f_create_new :: "'k \<Rightarrow> path \<Rightarrow> 'k \<times> (io_error + nat)"
  f_open_write :: "'k \<Rightarrow> path \<Rightarrow> bool \<Rightarrow> 'k \<times> (io_error + nat)"
  f_open_create :: "'k \<Rightarrow> path \<Rightarrow> 'k \<times> (io_error + nat)"
  f_open_read :: "'k \<Rightarrow> path \<Rightarrow> 'k \<times> (io_error + nat)"
  f_seek_end :: "'k \<Rightarrow> nat \<Rightarrow> 'k \<times> io_error option"
  f_write_all :: "'k \<Rightarrow> nat \<Rightarrow> u8 list \<Rightarrow> 'k \<times> io_error option"
  f_read_exact :: "'k \<Rightarrow> nat \<Rightarrow> nat \<Rightarrow> 'k \<times> (io_error + u8 list)"
  f_stamp :: "'k \<Rightarrow> path \<Rightarrow> nat \<Rightarrow> 'k \<times> io_error option"
  f_fsync :: "'k \<Rightarrow> nat \<Rightarrow> 'k \<times> io_error option"
  f_fchmod :: "'k \<Rightarrow> nat \<Rightarrow> 'k \<times> io_error option"
  f_preallocate :: "'k \<Rightarrow> nat \<Rightarrow> nat \<Rightarrow> 'k \<times> io_error option"
  f_fadvise :: "'k \<Rightarrow> nat \<Rightarrow> nat \<Rightarrow> 'k \<times> io_error option"
  f_close :: "'k \<Rightarrow> nat \<Rightarrow> 'k"
  f_rename :: "'k \<Rightarrow> path \<Rightarrow> path \<Rightarrow> 'k \<times> io_error option"
  f_remove :: "'k \<Rightarrow> path \<Rightarrow> 'k \<times> io_error option"
  f_stat :: "'k \<Rightarrow> path \<Rightarrow> 'k \<times> io_error option"
  f_chmod :: "'k \<Rightarrow> path \<Rightarrow> 'k \<times> io_error option"
  f_mkdir :: "'k \<Rightarrow> path \<Rightarrow> 'k \<times> io_error option"
  f_rmdir :: "'k \<Rightarrow> path \<Rightarrow> 'k \<times> io_error option"
  f_mkdir_all :: "'k \<Rightarrow> path \<Rightarrow> 'k \<times> io_error option"
  f_symlink :: "'k \<Rightarrow> path \<Rightarrow> path \<Rightarrow> 'k \<times> io_error option"
  f_exists :: "'k \<Rightarrow> path \<Rightarrow> bool"
  f_read_dir :: "'k \<Rightarrow> path \<Rightarrow> 'k \<times> (io_error + string list)"
  f_setxattr :: "'k \<Rightarrow> path \<Rightarrow> string \<Rightarrow> u8 list \<Rightarrow> 'k \<times> io_error option"
  f_getxattr :: "'k \<Rightarrow> path \<Rightarrow> string \<Rightarrow> 'k \<times> (io_error + u8 list option)"
  f_await :: "'k \<Rightarrow> path \<Rightarrow> 'k \<times> io_error option"
  f_flag :: "'k \<Rightarrow> bool"
  f_raise :: "'k \<Rightarrow> 'k"
  f_expo :: "nat \<Rightarrow> nat \<Rightarrow> nat"

text \<open>What an operation works on, and the progress of the loop over the files.\<close>

record 'k sf_io =
  io_kern :: 'k
  io_rq :: nat
  io_rng :: u64

record pace =
  filenum :: nat
  pace_ended :: bool
  filenum_final :: "nat option"
  rq_final :: "nat option"
  status :: nat

type_synonym 'k sf_result = "'k sf_io \<times> io_error option"

text \<open>A call whose error ends the operation, and its success continues with the new state.\<close>

definition call :: "('k \<Rightarrow> 'k \<times> io_error option) \<Rightarrow> 'k sf_io \<Rightarrow> 'k sf_result" where
  "call f s = (let (k, e) = f (io_kern s) in (s\<lparr>io_kern := k\<rparr>, e))"

definition also_then :: "'k sf_result \<Rightarrow> ('k sf_io \<Rightarrow> 'k sf_result) \<Rightarrow> 'k sf_result" where
  "also_then r f = (case r of (s, None) \<Rightarrow> f s | (s, Some e) \<Rightarrow> (s, Some e))"

definition fine :: "'k sf_io \<Rightarrow> 'k sf_result" where
  "fine s = (s, None)"

definition call_if :: "bool \<Rightarrow> ('k \<Rightarrow> 'k \<times> io_error option) \<Rightarrow> 'k sf_io \<Rightarrow> 'k sf_result" where
  "call_if b f s = (if b then call f s else (s, None))"

text \<open>An open file is closed on every way out.\<close>

definition with_file ::
  "'k sf_ops \<Rightarrow> ('k \<Rightarrow> 'k \<times> (io_error + nat)) \<Rightarrow> (nat \<Rightarrow> 'k sf_io \<Rightarrow> 'k sf_result) \<Rightarrow> 'k sf_io \<Rightarrow> 'k sf_result" where
  "with_file F op body s =
     (case op (io_kern s) of
        (k, Inl e) \<Rightarrow> (s\<lparr>io_kern := k\<rparr>, Some e)
      | (k, Inr fd) \<Rightarrow>
          (let (s, e) = body fd (s\<lparr>io_kern := k\<rparr>) in (s\<lparr>io_kern := f_close F (io_kern s) fd\<rparr>, e)))"

section \<open>The loop over the files\<close>

definition end_test :: "'k sf_ops \<Rightarrow> sf_params \<Rightarrow> pace \<times> 'k sf_io \<Rightarrow> pace \<times> 'k sf_io" where
  "end_test F p gs =
     (case gs of (g, s) \<Rightarrow>
        if pace_ended g then (g, s)
        else (g\<lparr>rq_final := Some (io_rq s), filenum_final := Some (filenum g), pace_ended := True\<rparr>,
              if s_iterations p \<le> filenum g then s\<lparr>io_kern := f_raise F (io_kern s)\<rparr> else s))"

text \<open>The interval of the checks is \<open>None\<close> when its computation panics.\<close>

definition saw_stonewall :: "'k sf_ops \<Rightarrow> sf_params \<Rightarrow> nat \<Rightarrow> pace \<times> 'k sf_io \<Rightarrow> bool" where
  "saw_stonewall F p interval gs \<longleftrightarrow>
     s_stonewall p \<and> (filenum (fst gs) + 1) mod interval = 0 \<and> f_flag F (io_kern (snd gs))"

definition do_another_file :: "'k sf_ops \<Rightarrow> sf_params \<Rightarrow> nat \<Rightarrow> pace \<times> 'k sf_io \<Rightarrow> bool \<times> pace \<times> 'k sf_io" where
  "do_another_file F p interval gs =
     (let (g, s) = (if saw_stonewall F p interval gs then end_test F p gs else gs)
      in if \<not> s_finish p \<and> pace_ended g then (False, g, s)
         else if status g \<noteq> 0 then (False, end_test F p (g, s))
         else if s_iterations p \<le> filenum g then (False, end_test F p (g, s))
         else (True, g\<lparr>filenum := filenum g + 1\<rparr>, s))"

lemma do_another_file_next:
  "do_another_file F p i (g, s) = (True, g', s') \<Longrightarrow> filenum g < s_iterations p \<and> filenum g' = Suc (filenum g)"
  by (auto simp: do_another_file_def end_test_def Let_def split: if_splits prod.splits)

text \<open>An operation runs its body for file after file; \<open>'l\<close> are the variables it keeps between them.\<close>

function while_files ::
  "'k sf_ops \<Rightarrow> sf_params \<Rightarrow> nat \<Rightarrow> (nat \<Rightarrow> 'k sf_io \<times> 'l \<Rightarrow> ('k sf_io \<times> 'l) \<times> io_error option) \<Rightarrow> pace \<Rightarrow> 'k sf_io \<times> 'l \<Rightarrow>
     (pace \<times> 'k sf_io) \<times> io_error option" where
  "while_files F p interval body g sl =
     (case do_another_file F p interval (g, fst sl) of
        (False, g, s) \<Rightarrow> ((g, s), None)
      | (True, g', s) \<Rightarrow>
          (case body (filenum g') (s, snd sl) of
             (sl, Some e) \<Rightarrow> ((g', fst sl), Some e)
           | (sl, None) \<Rightarrow> while_files F p interval body g' sl))"
  by pat_completeness auto
termination
  by (relation "measure (\<lambda>(F, p, i, body, g, sl). s_iterations p - filenum g)")
    (auto dest!: do_another_file_next[OF sym])

declare while_files.simps [simp del]

text \<open>An operation without such variables.\<close>

definition each_file ::
  "'k sf_ops \<Rightarrow> sf_params \<Rightarrow> nat \<Rightarrow> (nat \<Rightarrow> 'k sf_io \<Rightarrow> 'k sf_result) \<Rightarrow> pace \<times> 'k sf_io \<Rightarrow> (pace \<times> 'k sf_io) \<times> io_error option" where
  "each_file F p interval body gs =
     while_files F p interval (\<lambda>n sl. let (s, e) = body n (fst sl) in ((s, ()), e)) (fst gs) (snd gs, ())"

section \<open>Operations on contents\<close>

text \<open>The records of a file: a record size of 0 goes with a size of 0, so the guard does not end the loop early.\<close>

function write_records :: "'k sf_ops \<Rightarrow> nat \<Rightarrow> nat \<Rightarrow> bool \<Rightarrow> nat \<Rightarrow> nat \<Rightarrow> 'k sf_io \<Rightarrow> 'k sf_result" where
  "write_records F fd rsz counted uo remaining s =
     (if 0 < remaining \<and> 0 < rsz then
        also_then (call (\<lambda>k. f_write_all F k fd (buf_slice uo (min rsz remaining * 1024))) s)
          (\<lambda>s. write_records F fd rsz counted uo (remaining - min rsz remaining)
                 (if counted then s\<lparr>io_rq := io_rq s + 1\<rparr> else s))
      else (s, None))"
  by pat_completeness auto
termination
  by (relation "measure (\<lambda>(F, fd, rsz, c, uo, remaining, s). remaining)") auto

declare write_records.simps [simp del]

text \<open>Reading counts a record before it compares it; the second flag is the order of swift-get, which
  compares first.\<close>

function read_records :: "'k sf_ops \<Rightarrow> nat \<Rightarrow> nat \<Rightarrow> bool \<Rightarrow> bool \<Rightarrow> nat \<Rightarrow> nat \<Rightarrow> 'k sf_io \<Rightarrow> 'k sf_result" where
  "read_records F fd rsz verify early uo remaining s =
     (if 0 < remaining \<and> 0 < rsz then
        (let n = min rsz remaining * 1024 in
         case f_read_exact F (io_kern s) fd n of
           (k, Inl e) \<Rightarrow> (s\<lparr>io_kern := k\<rparr>, Some e)
         | (k, Inr data) \<Rightarrow>
             (let s1 = s\<lparr>io_kern := k\<rparr>; s2 = s1\<lparr>io_rq := io_rq s1 + 1\<rparr>
              in if verify \<and> data \<noteq> buf_slice uo n then (if early then s2 else s1, Some OtherError)
                 else read_records F fd rsz verify early uo (remaining - min rsz remaining) s2))
      else (s, None))"
  by pat_completeness auto
termination
  by (relation "measure (\<lambda>(F, fd, rsz, v, c, uo, remaining, s). remaining)") auto

declare read_records.simps [simp del]

definition sf_draw_size :: "'k sf_ops \<Rightarrow> sf_params \<Rightarrow> 'k sf_io \<Rightarrow> nat \<times> 'k sf_io" where
  "sf_draw_size F p s = (let (st, n) = next_file_size (f_expo F) p (io_rng s) in (n, s\<lparr>io_rng := st\<rparr>))"

definition fill_file :: "'k sf_ops \<Rightarrow> sf_params \<Rightarrow> sf_thread \<Rightarrow> path \<Rightarrow> nat \<Rightarrow> nat \<Rightarrow> 'k sf_io \<Rightarrow> 'k sf_result" where
  "fill_file F p t q n fd s =
     (let (kb, s) = sf_draw_size F p s
      in also_then (write_records F fd (record_size_to_use p) True (unique_offset t n) kb s) (\<lambda>s.
         also_then (call_if (s_record_ctime p) (\<lambda>k. f_stamp F k q fd) s) (\<lambda>s.
         call_if (s_fsync p) (\<lambda>k. f_fsync F k fd) s)))"

definition create_one :: "'k sf_ops \<Rightarrow> sf_params \<Rightarrow> sf_thread \<Rightarrow> nat \<Rightarrow> 'k sf_io \<Rightarrow> 'k sf_result" where
  "create_one F p t n s =
     (let q = mk_file_nm p t (th_src t) n
      in with_file F (\<lambda>k. f_create_new F k q) (fill_file F p t q n) s)"

definition write_one :: "'k sf_ops \<Rightarrow> sf_params \<Rightarrow> sf_thread \<Rightarrow> bool \<Rightarrow> bool \<Rightarrow> nat \<Rightarrow> 'k sf_io \<Rightarrow> 'k sf_result" where
  "write_one F p t at_end trunc n s =
     (let q = mk_file_nm p t (th_src t) n
      in with_file F (\<lambda>k. f_open_write F k q trunc)
           (\<lambda>fd s. also_then (call_if at_end (\<lambda>k. f_seek_end F k fd) s) (fill_file F p t q n fd)) s)"

definition read_one :: "'k sf_ops \<Rightarrow> sf_params \<Rightarrow> sf_thread \<Rightarrow> nat \<Rightarrow> 'k sf_io \<Rightarrow> 'k sf_result" where
  "read_one F p t n s =
     (let (kb, s) = sf_draw_size F p s
      in with_file F (\<lambda>k. f_open_read F k (mk_file_nm p t (th_src t) n))
           (\<lambda>fd. read_records F fd (record_size_to_use p) (s_verify p) True (unique_offset t n) kb) s)"

section \<open>Operations on names\<close>

definition RENAME_SUFFIX :: string where "RENAME_SUFFIX = ''.rnm''"

definition renamed_to :: "sf_params \<Rightarrow> sf_thread \<Rightarrow> nat \<Rightarrow> path" where
  "renamed_to p t n =
     (let q = mk_file_nm p t (th_dest t) n in if th_src t = th_dest t then suffix_path q RENAME_SUFFIX else q)"

definition rename_one :: "'k sf_ops \<Rightarrow> sf_params \<Rightarrow> sf_thread \<Rightarrow> nat \<Rightarrow> 'k sf_io \<Rightarrow> 'k sf_result" where
  "rename_one F p t n s = call (\<lambda>k. f_rename F k (mk_file_nm p t (th_src t) n) (renamed_to p t n)) s"

definition simple_one :: "'k sf_ops \<Rightarrow> sf_params \<Rightarrow> sf_thread \<Rightarrow> string \<Rightarrow> nat \<Rightarrow> 'k sf_io \<Rightarrow> 'k sf_result" where
  "simple_one F p t op n s =
     (let q = mk_file_nm p t (th_src t) n
      in if op = ''delete'' then call (\<lambda>k. f_remove F k q) s
         else if op = ''stat'' then call (\<lambda>k. f_stat F k q) s
         else if op = ''chmod'' then call (\<lambda>k. f_chmod F k q) s
         else if op = ''mkdir'' then call (\<lambda>k. f_mkdir F k (suffix_path q ''.d'')) s
         else call (\<lambda>k. f_rmdir F k (suffix_path q ''.d'')) s)"

definition delete_renamed_one :: "'k sf_ops \<Rightarrow> sf_params \<Rightarrow> sf_thread \<Rightarrow> nat \<Rightarrow> 'k sf_io \<Rightarrow> 'k sf_result" where
  "delete_renamed_one F p t n s = call (\<lambda>k. f_remove F k (renamed_to p t n)) s"

definition symlink_one :: "'k sf_ops \<Rightarrow> sf_params \<Rightarrow> sf_thread \<Rightarrow> nat \<Rightarrow> 'k sf_io \<Rightarrow> 'k sf_result" where
  "symlink_one F p t n s =
     call (\<lambda>k. f_symlink F k (mk_file_nm p t (th_src t) n) (suffix_path (mk_file_nm p t (th_dest t) n) ''.s'')) s"

text \<open>The wait for a file that is made elsewhere is one call: its polling is not modelled.\<close>

definition await_one :: "'k sf_ops \<Rightarrow> sf_params \<Rightarrow> sf_thread \<Rightarrow> nat \<Rightarrow> 'k sf_io \<Rightarrow> 'k sf_result" where
  "await_one F p t n s = call (\<lambda>k. f_await F k (mk_file_nm p t (th_src t) n)) s"

text \<open>Reading directories: the directory that was read last, the names found there and the files met since.\<close>

record dir_scan =
  prev_dir :: path
  dir_map :: "string list"
  file_count :: nat

definition no_scan :: dir_scan where
  "no_scan = \<lparr>prev_dir = [], dir_map = [], file_count = 0\<rparr>"

definition scan_dir :: "'k sf_ops \<Rightarrow> path \<Rightarrow> 'k sf_io \<times> dir_scan \<Rightarrow> ('k sf_io \<times> dir_scan) \<times> io_error option" where
  "scan_dir F dir sl =
     (case sl of (s, c) \<Rightarrow>
        if dir = prev_dir c then (sl, None)
        else if file_count c \<noteq> length (dir_map c) then (sl, Some OtherError)
        else case f_read_dir F (io_kern s) dir of
               (k, Inl e) \<Rightarrow> ((s\<lparr>io_kern := k\<rparr>, c), Some e)
             | (k, Inr names) \<Rightarrow>
                 ((s\<lparr>io_kern := k\<rparr>,
                   \<lparr>prev_dir = dir, dir_map = filter (\<lambda>n. \<not> starts_with ''d'' n) (remdups names), file_count = 0\<rparr>), None))"

definition readdir_one ::
  "'k sf_ops \<Rightarrow> sf_params \<Rightarrow> sf_thread \<Rightarrow> bool \<Rightarrow> nat \<Rightarrow> 'k sf_io \<times> dir_scan \<Rightarrow> ('k sf_io \<times> dir_scan) \<times> io_error option" where
  "readdir_one F p t stat_each n sl =
     (let q = mk_file_nm p t (th_src t) n
      in case scan_dir F (butlast q) sl of
           (sl, Some e) \<Rightarrow> (sl, Some e)
         | ((s, c), None) \<Rightarrow>
             (case call_if stat_each (\<lambda>k. f_stat F k q) s of
                (s, Some e) \<Rightarrow> ((s, c), Some e)
              | (s, None) \<Rightarrow>
                  ((s, c\<lparr>file_count := file_count c + 1\<rparr>),
                   if last q \<in> set (dir_map c) then None else Some OtherError)))"

section \<open>Extended attributes\<close>

definition XATTR_SUFFIX :: string where "XATTR_SUFFIX = ''user.smallfile-''"
definition SWIFT_XATTR_PREFIX :: string where "SWIFT_XATTR_PREFIX = ''user.smallfile-all-''"

text \<open>Calls for a list of numbers, up to the first error.\<close>

fun calls :: "(nat \<Rightarrow> 'k sf_io \<Rightarrow> 'k sf_result) \<Rightarrow> nat list \<Rightarrow> 'k sf_io \<Rightarrow> 'k sf_result" where
  "calls f [] s = (s, None)"
| "calls f (j # js) s = also_then (f j s) (calls f js)"

definition set_values :: "'k sf_ops \<Rightarrow> sf_params \<Rightarrow> string \<Rightarrow> path \<Rightarrow> nat \<Rightarrow> 'k sf_io \<Rightarrow> 'k sf_result" where
  "set_values F p pre q uo =
     calls (\<lambda>j. call (\<lambda>k. f_setxattr F k q (pre @ dec_str j) (xattr_value p uo j))) [0..<s_xattr_count p]"

definition setxattr_one :: "'k sf_ops \<Rightarrow> sf_params \<Rightarrow> sf_thread \<Rightarrow> nat \<Rightarrow> 'k sf_io \<Rightarrow> 'k sf_result" where
  "setxattr_one F p t n s =
     (let q = mk_file_nm p t (th_src t) n
      in with_file F (\<lambda>k. f_open_write F k q False)
           (\<lambda>fd s. also_then (set_values F p XATTR_SUFFIX q (unique_offset t n) s)
              (call_if (s_fsync p) (\<lambda>k. f_fsync F k fd))) s)"

definition get_value :: "'k sf_ops \<Rightarrow> path \<Rightarrow> string \<Rightarrow> (u8 list option \<Rightarrow> bool) \<Rightarrow> 'k sf_io \<Rightarrow> 'k sf_result" where
  "get_value F q name good s =
     (case f_getxattr F (io_kern s) q name of
        (k, Inl e) \<Rightarrow> (s\<lparr>io_kern := k\<rparr>, Some e)
      | (k, Inr v) \<Rightarrow> (s\<lparr>io_kern := k\<rparr>, if good v then None else Some OtherError))"

definition getxattr_one :: "'k sf_ops \<Rightarrow> sf_params \<Rightarrow> sf_thread \<Rightarrow> nat \<Rightarrow> 'k sf_io \<Rightarrow> 'k sf_result" where
  "getxattr_one F p t n =
     calls (\<lambda>j. get_value F (mk_file_nm p t (th_src t) n) (XATTR_SUFFIX @ dec_str j)
         (\<lambda>v. v = Some (xattr_value p (unique_offset t n) j))) [0..<s_xattr_count p]"

section \<open>Swift\<close>

text \<open>The put closes the file and then advises the kernel about its descriptor; a failure removes the
  temporary file.\<close>

definition swift_fill :: "'k sf_ops \<Rightarrow> sf_params \<Rightarrow> sf_thread \<Rightarrow> path \<Rightarrow> nat \<Rightarrow> nat \<Rightarrow> nat \<Rightarrow> 'k sf_io \<Rightarrow> 'k sf_result" where
  "swift_fill F p t tmp n kb fd s =
     also_then (call (\<lambda>k. f_fchmod F k fd) s) (\<lambda>s.
     also_then (call (\<lambda>k. f_preallocate F k fd (kb * 1024)) s) (\<lambda>s.
     also_then (write_records F fd (record_size_to_use p) False (unique_offset t n) kb s) (\<lambda>s.
     also_then (calls (\<lambda>j. get_value F tmp (SWIFT_XATTR_PREFIX @ dec_str j) (\<lambda>v. True)) [0..<s_xattr_count p] s) (\<lambda>s.
     also_then (set_values F p SWIFT_XATTR_PREFIX tmp (unique_offset t n) s) (\<lambda>s.
     call_if (s_fsync p) (\<lambda>k. f_fsync F k fd) s)))))"

definition swift_try :: "'k sf_ops \<Rightarrow> sf_params \<Rightarrow> sf_thread \<Rightarrow> nat \<Rightarrow> nat \<Rightarrow> 'k sf_io \<Rightarrow> 'k sf_result" where
  "swift_try F p t n kb s =
     (let q = mk_file_nm p t (th_src t) n; tmp = suffix_path q ''.tmp''
      in case f_open_create F (io_kern s) tmp of
           (k, Inl e) \<Rightarrow> (s\<lparr>io_kern := k\<rparr>, Some e)
         | (k, Inr fd) \<Rightarrow>
             (let (s, e) = swift_fill F p t tmp n kb fd (s\<lparr>io_kern := k\<rparr>);
                  s = s\<lparr>io_kern := f_close F (io_kern s) fd\<rparr>
              in case e of
                   Some e \<Rightarrow> (s, Some e)
                 | None \<Rightarrow>
                     also_then (call (\<lambda>k. f_fadvise F k fd (kb * 1024)) s) (\<lambda>s.
                     also_then (call (\<lambda>k. f_rename F k tmp q) s) (\<lambda>s. (s\<lparr>io_rq := io_rq s + 1\<rparr>, None)))))"

definition ensure_deleted :: "'k sf_ops \<Rightarrow> path \<Rightarrow> 'k sf_io \<Rightarrow> 'k sf_result" where
  "ensure_deleted F q s =
     (case call (\<lambda>k. f_remove F k q) s of (s, e) \<Rightarrow> (s, if e = Some (Os ENOENT) then None else e))"

definition swift_put_one :: "'k sf_ops \<Rightarrow> sf_params \<Rightarrow> sf_thread \<Rightarrow> nat \<Rightarrow> 'k sf_io \<Rightarrow> 'k sf_result" where
  "swift_put_one F p t n s =
     (let (kb, s) = sf_draw_size F p s
      in case swift_try F p t n kb s of
           (s, None) \<Rightarrow> (s, None)
         | (s, Some e) \<Rightarrow>
             also_then (ensure_deleted F (suffix_path (mk_file_nm p t (th_src t) n) ''.tmp'') s) (\<lambda>s. (s, Some e)))"

definition swift_get_one :: "'k sf_ops \<Rightarrow> sf_params \<Rightarrow> sf_thread \<Rightarrow> nat \<Rightarrow> 'k sf_io \<Rightarrow> 'k sf_result" where
  "swift_get_one F p t n s =
     (let (kb, s) = sf_draw_size F p s; q = mk_file_nm p t (th_src t) n
      in with_file F (\<lambda>k. f_open_read F k q)
           (\<lambda>fd s. also_then (read_records F fd (record_size_to_use p) (s_verify p) False (unique_offset t n) kb s)
              (calls (\<lambda>j. get_value F q (SWIFT_XATTR_PREFIX @ dec_str j) (\<lambda>v. True)) [0..<s_xattr_count p])) s)"

section \<open>Directories and clean-up\<close>

text \<open>The directories of the files under some trees, as a sorted set; paths are compared component by component.\<close>

definition file_parents :: "sf_params \<Rightarrow> sf_thread \<Rightarrow> path list list \<Rightarrow> path list" where
  "file_parents p t trees =
     sort (remdups (concat (map (\<lambda>tree. map (\<lambda>j. butlast (mk_file_nm p t tree j)) (subdir_file_nums p)) trees)))"

fun call_paths :: "('k \<Rightarrow> path \<Rightarrow> 'k \<times> io_error option) \<Rightarrow> path list \<Rightarrow> 'k sf_io \<Rightarrow> 'k sf_result" where
  "call_paths f [] s = (s, None)"
| "call_paths f (d # ds) s = also_then (call (\<lambda>k. f k d) s) (call_paths f ds)"

definition make_all_subdirs :: "'k sf_ops \<Rightarrow> sf_params \<Rightarrow> sf_thread \<Rightarrow> 'k sf_io \<Rightarrow> 'k sf_result" where
  "make_all_subdirs F p t s =
     (if s_shared p \<and> th_tid t \<noteq> 0 then (s, None)
      else call_paths (f_mkdir_all F) (file_parents p t [th_src t, th_dest t]) s)"

text \<open>Removal goes up to the root; a directory that is not empty or busy ends the walk.\<close>

lemma below_root_nonempty: "take (length root) cur = root \<Longrightarrow> cur \<noteq> root \<Longrightarrow> 0 < length cur"
  by (cases cur) auto

function clean_up_from :: "'k sf_ops \<Rightarrow> path \<Rightarrow> path \<Rightarrow> 'k sf_io \<Rightarrow> 'k sf_result" where
  "clean_up_from F root cur s =
     (if take (length root) cur = root \<and> cur \<noteq> root then
        (case call (\<lambda>k. f_rmdir F k cur) s of
           (s, None) \<Rightarrow> clean_up_from F root (butlast cur) s
         | (s, Some (Os e)) \<Rightarrow>
             if e = ENOENT then clean_up_from F root (butlast cur) s
             else if e \<in> {13, 16, 39, 66} then (s, None) else (s, Some (Os e))
         | (s, Some OtherError) \<Rightarrow> (s, Some OtherError))
      else (s, None))"
  by pat_completeness auto
termination
  by (relation "measure (\<lambda>(F, root, cur, s). length cur)") (auto dest: below_root_nonempty)

declare clean_up_from.simps [simp del]

fun clean_dirs :: "'k sf_ops \<Rightarrow> path \<Rightarrow> path list \<Rightarrow> 'k sf_io \<Rightarrow> 'k sf_result" where
  "clean_dirs F root [] s = (s, None)"
| "clean_dirs F root (d # ds) s = also_then (clean_up_from F root d s) (clean_dirs F root ds)"

definition clean_all_subdirs :: "'k sf_ops \<Rightarrow> sf_params \<Rightarrow> sf_thread \<Rightarrow> 'k sf_io \<Rightarrow> 'k sf_result" where
  "clean_all_subdirs F p t s =
     (if s_shared p \<and> th_tid t \<noteq> 0 then (s, None)
      else also_then (clean_dirs F (hd (th_src t)) (file_parents p t [th_src t]) s)
             (clean_dirs F (hd (th_dest t)) (file_parents p t [th_dest t])))"

definition cleanup_one :: "'k sf_ops \<Rightarrow> sf_params \<Rightarrow> sf_thread \<Rightarrow> nat \<Rightarrow> 'k sf_io \<Rightarrow> 'k sf_result" where
  "cleanup_one F p t n s =
     (let b = mk_file_nm p t (th_src t) n; dst = mk_file_nm p t (th_dest t) n
      in also_then (ensure_deleted F (suffix_path dst ''.s'') s) (\<lambda>s.
         also_then (ensure_deleted F b s) (\<lambda>s.
         also_then (ensure_deleted F (suffix_path b RENAME_SUFFIX) s) (\<lambda>s.
         also_then (ensure_deleted F dst s) (\<lambda>s.
         also_then (ensure_deleted F (suffix_path dst RENAME_SUFFIX) s) (\<lambda>s.
         call_if (f_exists F (io_kern s) (suffix_path b ''.d'')) (\<lambda>k. f_rmdir F k (suffix_path b ''.d'')) s))))))"

text \<open>Clean-up runs to completion, without the stonewall.\<close>

definition do_cleanup :: "'k sf_ops \<Rightarrow> sf_params \<Rightarrow> sf_thread \<Rightarrow> nat \<Rightarrow> pace \<times> 'k sf_io \<Rightarrow> (pace \<times> 'k sf_io) \<times> io_error option" where
  "do_cleanup F p t interval gs =
     (let q = p\<lparr>s_stonewall := False, s_finish := True\<rparr>
      in case each_file F q interval (cleanup_one F q t) gs of
           (gs, Some e) \<Rightarrow> (gs, Some e)
         | ((g, s), None) \<Rightarrow> (let (s, e) = clean_all_subdirs F q t s in ((g, s), e)))"

section \<open>A thread and a run\<close>

definition run_sf_op :: "'k sf_ops \<Rightarrow> sf_params \<Rightarrow> sf_thread \<Rightarrow> nat \<Rightarrow> pace \<times> 'k sf_io \<Rightarrow> (pace \<times> 'k sf_io) \<times> io_error option" where
  "run_sf_op F p t interval gs =
     (let op = s_opname p; each = (\<lambda>body. each_file F p interval (body F p t) gs);
          dirs = (\<lambda>stat_each. if s_hash p then (gs, Some OtherError)
             else while_files F p interval (readdir_one F p t stat_each) (fst gs) (snd gs, no_scan))
      in if op = ''create'' then each create_one
         else if op = ''read'' then each read_one
         else if op = ''append'' then each (\<lambda>F p t. write_one F p t True False)
         else if op = ''overwrite'' then each (\<lambda>F p t. write_one F p t False False)
         else if op = ''truncate-overwrite'' then each (\<lambda>F p t. write_one F p t False True)
         else if op = ''rename'' then each rename_one
         else if op = ''delete-renamed'' then each delete_renamed_one
         else if op = ''symlink'' then each symlink_one
         else if op = ''readdir'' then dirs False
         else if op = ''ls-l'' then dirs True
         else if op = ''cleanup'' then do_cleanup F p t interval gs
         else if op = ''setxattr'' then each setxattr_one
         else if op = ''getxattr'' then each getxattr_one
         else if op = ''swift-put'' then each swift_put_one
         else if op = ''swift-get'' then each swift_get_one
         else if op = ''await-create'' then each await_one
         else each (\<lambda>F p t. simple_one F p t op))"

record outcome =
  out_status :: nat
  out_files :: nat
  out_records :: nat
  out_ended :: bool

definition fresh_pace :: pace where
  "fresh_pace = \<lparr>filenum = 0, pace_ended = False, filenum_final = None, rq_final = None, status = 0\<rparr>"

definition into_outcome :: "pace \<Rightarrow> outcome" where
  "into_outcome g =
     \<lparr>out_status = status g, out_files = (case filenum_final g of None \<Rightarrow> 0 | Some n \<Rightarrow> n),
      out_records = (case rq_final g of None \<Rightarrow> 0 | Some n \<Rightarrow> n), out_ended = pace_ended g\<rparr>"

text \<open>A thread: a failure to make its directories ends it before the others are waited for. The seed of the sizes is
  that of its host, top directory and number.\<close>

definition run_thread :: "'k sf_ops \<Rightarrow> sf_params \<Rightarrow> sf_thread \<Rightarrow> nat \<Rightarrow> u64 \<Rightarrow> 'k \<Rightarrow> outcome \<times> 'k" where
  "run_thread F p t interval seed k =
     (let s = \<lparr>io_kern = k, io_rq = 0, io_rng = seed\<rparr>;
          (s, pre) = (if s_opname p \<in> {''create'', ''mkdir'', ''swift-put''} then make_all_subdirs F p t s else (s, None))
      in case pre of
           Some e \<Rightarrow> (into_outcome (fresh_pace\<lparr>status := errno_of e\<rparr>), io_kern s)
         | None \<Rightarrow>
             (let ((g, s), e) = run_sf_op F p t interval (fresh_pace, s);
                  g = (case e of None \<Rightarrow> g | Some e \<Rightarrow> g\<lparr>status := errno_of e\<rparr>);
                  (g, s) = end_test F p (g, s)
              in (into_outcome g, io_kern s)))"

text \<open>A thread with its set-up. \<open>None\<close>: it does not end, or the interval of the checks, which only the
  stonewall needs, panics.\<close>

definition thread_main :: "'k sf_ops \<Rightarrow> sf_params \<Rightarrow> nat \<Rightarrow> u64 \<Rightarrow> 'k \<Rightarrow> (outcome \<times> 'k) option" where
  "thread_main F p tid seed k = do {
     t \<leftarrow> new_thread p tid;
     interval \<leftarrow> (if s_stonewall p then files_between_checks p else Some 1);
     Some (run_thread F p t interval seed k)
   }"

text \<open>The counts of a phase: the status is that of the first thread that failed.\<close>

definition phase_status :: "outcome list \<Rightarrow> nat" where
  "phase_status os = fold (\<lambda>o1 st. if st = 0 then out_status o1 else st) os 0"

definition phase_files :: "outcome list \<Rightarrow> nat" where
  "phase_files os = sum_list (map out_files os)"

definition phase_records :: "outcome list \<Rightarrow> nat" where
  "phase_records os = sum_list (map out_records os)"

definition phase_ops :: "string option \<Rightarrow> string list" where
  "phase_ops operation = (case operation of Some op \<Rightarrow> [op] | None \<Rightarrow> DEFAULT_PHASES)"

text \<open>The stonewall of a run: off for few files, and for the suite of all phases.\<close>

definition stonewall_of :: "string option \<Rightarrow> nat \<Rightarrow> bool \<Rightarrow> bool" where
  "stonewall_of operation files stonewall = (stonewall \<and> 10 \<le> files \<and> operation \<noteq> None)"

definition size_error :: "nat \<Rightarrow> nat \<Rightarrow> bool" where
  "size_error record_size file_size \<longleftrightarrow> file_size < record_size \<and> file_size \<noteq> 0"

end
