(* ===== verification/Smallfile_Content.thy ===== *)
theory Smallfile_Content
  imports Smallfile_Run
begin

text \<open>
  The contents of smallfile's files: the pattern buffer repeats every 1024 bytes, so a file of \<open>n\<close> KiB holds
  \<open>n\<close> times the same 1024 bytes, whatever the record size it was written with, and a read with verification
  and any other record size accepts it. The laws of the file system are those of POSIX for a file that nobody
  else changes.
\<close>

section \<open>The pattern buffer\<close>

text \<open>The list \<open>xs\<close> repeated \<open>n\<close> times.\<close>

definition repeated :: "nat \<Rightarrow> 'a list \<Rightarrow> 'a list" where
  "repeated n xs = concat (replicate n xs)"

lemma repeated_0 [simp]: "repeated 0 xs = []"
  by (simp add: repeated_def)

lemma repeated_Suc: "repeated (Suc n) xs = xs @ repeated n xs"
  by (simp add: repeated_def)

lemma repeated_add: "repeated (m + n) xs = repeated m xs @ repeated n xs"
  by (simp add: repeated_def replicate_add)

lemma repeated_one [simp]: "repeated (Suc 0) xs = xs"
  by (simp add: repeated_Suc)

lemma length_repeated [simp]: "length (repeated n xs) = n * length xs"
  by (induction n) (simp_all add: repeated_Suc)

lemma nth_repeated: "i < n * length xs \<Longrightarrow> repeated n xs ! i = xs ! (i mod length xs)"
proof (induction n arbitrary: i)
  case (Suc n)
  show ?case
  proof (cases "i < length xs")
    case False
    then have "i - length xs < n * length xs" using Suc.prems by simp
    then show ?thesis using False Suc.IH [of "i - length xs"] by (simp add: repeated_Suc nth_append le_mod_geq)
  qed (simp add: repeated_Suc nth_append)
qed simp

lemma doubled_repeated: "doubled n xs = repeated (2 ^ n) xs"
proof (induction n arbitrary: xs)
  case (Suc n)
  have "repeated m (xs @ xs) = repeated (2 * m) xs" for m
    by (induction m) (simp_all add: repeated_Suc)
  then show ?case using Suc [of "xs @ xs"] by simp
qed simp

definition pattern_bytes :: "u8 list" where
  "pattern_bytes = map pattern_byte [0..<BUF_OFFSET_RANGE]"

lemma length_pattern_bytes [simp]: "length pattern_bytes = 1024"
  by (simp add: pattern_bytes_def BUF_OFFSET_RANGE_def)

lemma build_biggest_buf_repeated: "build_biggest_buf = repeated 1025 pattern_bytes"
proof -
  have "build_biggest_buf = repeated 1024 pattern_bytes @ repeated 1 pattern_bytes"
    by (simp add: build_biggest_buf_def Let_def doubled_repeated pattern_bytes_def)
  then show ?thesis using repeated_add [of 1024 1 pattern_bytes] by simp
qed

lemma length_build_biggest_buf: "length build_biggest_buf = BIGGEST_BUF_SIZE + BUF_OFFSET_RANGE"
  by (simp add: build_biggest_buf_repeated BIGGEST_BUF_SIZE_def BUF_OFFSET_RANGE_def)

text \<open>Every record is a repetition of the KiB at the offset of its file.\<close>

lemma buf_slice_repeated:
  assumes "uo < BUF_OFFSET_RANGE" "n \<le> 1024"
  shows "buf_slice uo (n * 1024) = repeated n (buf_slice uo 1024)"
proof (rule nth_equalityI)
  have len: "length (buf_slice uo (m * 1024)) = m * 1024" if "m \<le> 1024" for m
    using assms(1) that by (simp add: buf_slice_def length_build_biggest_buf BIGGEST_BUF_SIZE_def BUF_OFFSET_RANGE_def)
  have one: "length (buf_slice uo 1024) = 1024" using len [of 1] by simp
  show "length (buf_slice uo (n * 1024)) = length (repeated n (buf_slice uo 1024))"
    using len [of n] one assms(2) by simp
  fix i
  assume "i < length (buf_slice uo (n * 1024))"
  then have i: "i < n * 1024" using len [of n] assms(2) by simp
  have at: "buf_slice uo (m * 1024) ! j = pattern_bytes ! ((uo + j) mod 1024)" if "j < m * 1024" "m \<le> 1024" for m j
    using that assms(1) by (simp add: buf_slice_def build_biggest_buf_repeated nth_repeated BUF_OFFSET_RANGE_def)
  have "repeated n (buf_slice uo 1024) ! i = buf_slice uo 1024 ! (i mod 1024)"
    using i one by (simp add: nth_repeated)
  also have "\<dots> = pattern_bytes ! ((uo + i mod 1024) mod 1024)" using at [of "i mod 1024" 1] by simp
  finally show "buf_slice uo (n * 1024) ! i = repeated n (buf_slice uo 1024) ! i"
    using at [of i n] i assms(2) by (simp add: mod_simps)
qed

lemma unique_offset_less: "unique_offset t n < BUF_OFFSET_RANGE"
  by (simp add: unique_offset_def BUF_OFFSET_RANGE_def)

lemma length_kib: "uo < BUF_OFFSET_RANGE \<Longrightarrow> length (buf_slice uo 1024) = 1024"
  by (simp add: buf_slice_def length_build_biggest_buf BIGGEST_BUF_SIZE_def BUF_OFFSET_RANGE_def)

lemma record_size_le: "record_size_to_use p \<le> 1024"
  by (simp add: record_size_to_use_def BIGGEST_BUF_SIZE_def)

section \<open>Files and open files\<close>

text \<open>What a state holds: the contents of a path, and the path and the position of an open file.\<close>

definition file_laws :: "'k sf_ops \<Rightarrow> ('k \<Rightarrow> path \<Rightarrow> u8 list option) \<Rightarrow> ('k \<Rightarrow> nat \<Rightarrow> (path \<times> nat) option) \<Rightarrow> bool" where
  "file_laws F content cursor \<longleftrightarrow>
     (\<forall>k q k' fd. f_create_new F k q = (k', Inr fd) \<longrightarrow> content k' q = Some [] \<and> cursor k' fd = Some (q, 0)) \<and>
     (\<forall>k q d. content k q = Some d \<longrightarrow>
        (\<exists>k' fd. f_open_read F k q = (k', Inr fd) \<and> content k' q = Some d \<and> cursor k' fd = Some (q, 0))) \<and>
     (\<forall>k fd q d b k'. cursor k fd = Some (q, length d) \<longrightarrow> content k q = Some d \<longrightarrow>
        f_write_all F k fd b = (k', None) \<longrightarrow> content k' q = Some (d @ b) \<and> cursor k' fd = Some (q, length d + length b)) \<and>
     (\<forall>k fd q pos d n. cursor k fd = Some (q, pos) \<longrightarrow> content k q = Some d \<longrightarrow> pos + n \<le> length d \<longrightarrow>
        (\<exists>k'. f_read_exact F k fd n = (k', Inr (take n (drop pos d))) \<and> content k' q = Some d \<and>
          cursor k' fd = Some (q, pos + n))) \<and>
     (\<forall>k q fd r. content (fst (f_stamp F k q fd)) r = content k r) \<and>
     (\<forall>k fd r. content (fst (f_fsync F k fd)) r = content k r) \<and>
     (\<forall>k fd r. content (f_close F k fd) r = content k r)"

lemma file_lawsD:
  assumes "file_laws F content cursor"
  shows "f_create_new F k q = (k', Inr fd) \<Longrightarrow> content k' q = Some [] \<and> cursor k' fd = Some (q, 0)"
    "content k q = Some d \<Longrightarrow> \<exists>k' fd. f_open_read F k q = (k', Inr fd) \<and> content k' q = Some d \<and> cursor k' fd = Some (q, 0)"
    "cursor k fd = Some (q, length d) \<Longrightarrow> content k q = Some d \<Longrightarrow> f_write_all F k fd b = (k', None) \<Longrightarrow>
       content k' q = Some (d @ b) \<and> cursor k' fd = Some (q, length d + length b)"
    "cursor k fd = Some (q, pos) \<Longrightarrow> content k q = Some d \<Longrightarrow> pos + n \<le> length d \<Longrightarrow>
       \<exists>k'. f_read_exact F k fd n = (k', Inr (take n (drop pos d))) \<and> content k' q = Some d \<and> cursor k' fd = Some (q, pos + n)"
    "content (fst (f_stamp F k q fd)) r = content k r"
    "content (fst (f_fsync F k fd)) r = content k r"
    "content (f_close F k fd) r = content k r"
  using assms unfolding file_laws_def by meson+

section \<open>Operations that end without an error\<close>

lemma also_then_fine: "also_then r f = (s', None) \<longleftrightarrow> (\<exists>s. r = (s, None) \<and> f s = (s', None))"
  by (auto simp: also_then_def split: prod.splits option.splits)

lemma call_fine: "call f s = (s', None) \<longleftrightarrow> (\<exists>k. f (io_kern s) = (k, None) \<and> s' = s\<lparr>io_kern := k\<rparr>)"
  by (auto simp: call_def split: prod.splits)

lemma call_if_fine:
  "call_if b f s = (s', None) \<longleftrightarrow> (if b then \<exists>k. f (io_kern s) = (k, None) \<and> s' = s\<lparr>io_kern := k\<rparr> else s' = s)"
  by (auto simp: call_if_def call_fine)

lemma with_file_fine:
  "with_file F op body s = (s', None) \<longleftrightarrow>
     (\<exists>k fd s1. op (io_kern s) = (k, Inr fd) \<and> body fd (s\<lparr>io_kern := k\<rparr>) = (s1, None) \<and>
        s' = s1\<lparr>io_kern := f_close F (io_kern s1) fd\<rparr>)"
  by (auto simp: with_file_def split: prod.splits sum.splits)

lemmas sf_fine = also_then_fine call_fine call_if_fine with_file_fine

section \<open>Writing and reading\<close>

lemma write_records_content:
  assumes laws: "file_laws F content cursor" and uo: "uo < BUF_OFFSET_RANGE" and rsz: "rsz \<le> 1024" "0 < remaining \<longrightarrow> 0 < rsz"
  shows "cursor (io_kern s) fd = Some (q, length d) \<Longrightarrow> content (io_kern s) q = Some d \<Longrightarrow>
    write_records F fd rsz counted uo remaining s = (s', None) \<Longrightarrow>
    content (io_kern s') q = Some (d @ repeated remaining (buf_slice uo 1024))"
  using rsz(2)
proof (induction remaining arbitrary: s d rule: less_induct)
  case (less remaining)
  show ?case
  proof (cases "remaining = 0")
    case True
    then show ?thesis using less.prems by (simp add: write_records.simps)
  next
    case False
    define m where "m = min rsz remaining"
    have m: "0 < m" "m \<le> remaining" "m \<le> 1024" using False less.prems(4) rsz by (auto simp: m_def)
    define next_io where "next_io = (\<lambda>k. if counted then s\<lparr>io_kern := k, io_rq := io_rq s + 1\<rparr> else s\<lparr>io_kern := k\<rparr>)"
    have step: "also_then (call (\<lambda>k. f_write_all F k fd (buf_slice uo (m * 1024))) s)
        (\<lambda>s. write_records F fd rsz counted uo (remaining - m) (if counted then s\<lparr>io_rq := io_rq s + 1\<rparr> else s)) = (s', None)"
      using less.prems(3,4) False unfolding write_records.simps [of F fd rsz counted uo remaining s] m_def by simp
    then obtain k where k: "f_write_all F (io_kern s) fd (buf_slice uo (m * 1024)) = (k, None)"
      and rest: "write_records F fd rsz counted uo (remaining - m) (next_io k) = (s', None)"
      by (cases counted) (auto simp: also_then_fine call_fine next_io_def)
    have kern: "io_kern (next_io k) = k" by (simp add: next_io_def)
    let ?d = "d @ repeated m (buf_slice uo 1024)"
    have "content k q = Some ?d" "cursor k fd = Some (q, length ?d)"
      using file_lawsD(3) [OF laws less.prems(1,2) k] buf_slice_repeated [OF uo m(3)] by simp_all
    moreover have "remaining - m < remaining" "0 < remaining - m \<longrightarrow> 0 < rsz" using m(1,2) less.prems(4) by auto
    ultimately have "content (io_kern s') q = Some (?d @ repeated (remaining - m) (buf_slice uo 1024))"
      using less.IH [of "remaining - m" "next_io k" ?d] rest kern by simp
    then show ?thesis using repeated_add [of m "remaining - m" "buf_slice uo 1024"] m(2) by simp
  qed
qed

lemma read_records_fine:
  assumes laws: "file_laws F content cursor" and uo: "uo < BUF_OFFSET_RANGE" and rsz: "rsz \<le> 1024"
  shows "cursor (io_kern s) fd = Some (q, length d) \<Longrightarrow>
    content (io_kern s) q = Some (d @ repeated remaining (buf_slice uo 1024) @ rest) \<Longrightarrow>
    \<exists>s'. read_records F fd rsz verify early uo remaining s = (s', None)"
proof (induction remaining arbitrary: s d rule: less_induct)
  case (less remaining)
  show ?case
  proof (cases "remaining = 0 \<or> rsz = 0")
    case True
    then show ?thesis by (auto simp: read_records.simps)
  next
    case False
    let ?kib = "buf_slice uo 1024"
    define m where "m = min rsz remaining"
    have m: "0 < m" "m \<le> remaining" "m \<le> 1024" using False rsz by (auto simp: m_def)
    have split: "repeated remaining ?kib = repeated m ?kib @ repeated (remaining - m) ?kib"
      using repeated_add [of m "remaining - m" ?kib] m(2) by simp
    have len: "length (repeated m ?kib) = m * 1024" using length_kib [OF uo] by simp
    have whole: "length d + m * 1024 \<le> length (d @ repeated remaining ?kib @ rest)"
      "take (m * 1024) (drop (length d) (d @ repeated remaining ?kib @ rest)) = repeated m ?kib"
      unfolding split by (simp_all add: len del: length_repeated)
    obtain k where k: "f_read_exact F (io_kern s) fd (m * 1024) = (k, Inr (repeated m ?kib))"
      and k2: "content k q = Some (d @ repeated remaining ?kib @ rest)" "cursor k fd = Some (q, length d + m * 1024)"
      using file_lawsD(4) [OF laws less.prems(1,2) whole(1)] unfolding whole(2) by blast
    let ?s = "s\<lparr>io_kern := k, io_rq := io_rq s + 1\<rparr>"
    have "\<exists>s'. read_records F fd rsz verify early uo (remaining - m) ?s = (s', None)"
    proof (rule less.IH)
      show "remaining - m < remaining" using m by simp
      show "cursor (io_kern ?s) fd = Some (q, length (d @ repeated m ?kib))" using k2(2) len by simp
      show "content (io_kern ?s) q = Some ((d @ repeated m ?kib) @ repeated (remaining - m) ?kib @ rest)"
        using k2(1) unfolding split by simp
    qed
    then show ?thesis
      using False k buf_slice_repeated [OF uo m(3)]
      unfolding read_records.simps [of F fd rsz verify early uo remaining s] m_def by (simp add: Let_def)
  qed
qed

section \<open>A file that was created is read back\<close>

lemma next_file_size_record:
  assumes "next_file_size expo p st = (st', kb)" "0 < kb"
  shows "0 < record_size_to_use p"
proof -
  have "s_total_kb p \<noteq> 0"
  proof
    assume "s_total_kb p = 0"
    then have "kb = 0" using assms(1) by (cases "s_distr p") (auto simp: next_file_size_def Let_def split: prod.splits)
    then show False using assms(2) by simp
  qed
  then show ?thesis by (simp add: record_size_to_use_def BIGGEST_BUF_SIZE_def)
qed

lemma fill_file_content:
  assumes laws: "file_laws F content cursor" and fine: "fill_file F p t q n fd s = (s', None)"
    and s: "cursor (io_kern s) fd = Some (r, length d)" "content (io_kern s) r = Some d"
  shows "content (io_kern s') r =
    Some (d @ repeated (snd (next_file_size (f_expo F) p (io_rng s))) (buf_slice (unique_offset t n) 1024))"
proof -
  obtain st kb where size: "next_file_size (f_expo F) p (io_rng s) = (st, kb)" by (cases "next_file_size (f_expo F) p (io_rng s)")
  obtain s1 s2 where w: "write_records F fd (record_size_to_use p) True (unique_offset t n) kb (s\<lparr>io_rng := st\<rparr>) = (s1, None)"
    and s2: "call_if (s_record_ctime p) (\<lambda>k. f_stamp F k q fd) s1 = (s2, None)"
    and s': "call_if (s_fsync p) (\<lambda>k. f_fsync F k fd) s2 = (s', None)"
    using fine by (auto simp: fill_file_def sf_draw_size_def size also_then_fine)
  have "content (io_kern s1) r = Some (d @ repeated kb (buf_slice (unique_offset t n) 1024))"
    using write_records_content [OF laws unique_offset_less record_size_le _ _ _ w] s
      next_file_size_record [OF size] by simp
  moreover have "content (io_kern s2) r = content (io_kern s1) r"
    using s2 file_lawsD(5) [OF laws, of "io_kern s1" q fd r] by (auto simp: call_if_fine split: if_splits)
  moreover have "content (io_kern s') r = content (io_kern s2) r"
    using s' file_lawsD(6) [OF laws, of "io_kern s2" fd r] by (auto simp: call_if_fine split: if_splits)
  ultimately show ?thesis by (simp add: size)
qed

lemma create_one_content:
  assumes laws: "file_laws F content cursor" and fine: "create_one F p t n s = (s', None)"
  shows "content (io_kern s') (mk_file_nm p t (th_src t) n) =
    Some (repeated (snd (next_file_size (f_expo F) p (io_rng s))) (buf_slice (unique_offset t n) 1024))"
proof -
  let ?q = "mk_file_nm p t (th_src t) n"
  obtain k fd s1 where new: "f_create_new F (io_kern s) ?q = (k, Inr fd)"
    and fill: "fill_file F p t ?q n fd (s\<lparr>io_kern := k\<rparr>) = (s1, None)"
    and s': "s' = s1\<lparr>io_kern := f_close F (io_kern s1) fd\<rparr>"
    using fine by (auto simp: create_one_def Let_def with_file_fine)
  have "content k ?q = Some []" "cursor k fd = Some (?q, 0)" using file_lawsD(1) [OF laws new] by simp_all
  then show ?thesis using fill_file_content [OF laws fill, of ?q "[]"] file_lawsD(7) [OF laws] s' by simp
qed

lemma read_one_fine:
  assumes laws: "file_laws F content cursor"
    and content: "content (io_kern s) (mk_file_nm p t (th_src t) n) =
      Some (repeated (snd (next_file_size (f_expo F) p (io_rng s))) (buf_slice (unique_offset t n) 1024) @ rest)"
  shows "\<exists>s'. read_one F p t n s = (s', None)"
proof -
  obtain st kb where size: "next_file_size (f_expo F) p (io_rng s) = (st, kb)" by (cases "next_file_size (f_expo F) p (io_rng s)")
  obtain k fd where k: "f_open_read F (io_kern s) (mk_file_nm p t (th_src t) n) = (k, Inr fd)"
    and "content k (mk_file_nm p t (th_src t) n) = content (io_kern s) (mk_file_nm p t (th_src t) n)"
    and "cursor k fd = Some (mk_file_nm p t (th_src t) n, 0)"
    using file_lawsD(2) [OF laws content] content by auto
  then obtain s' where "read_records F fd (record_size_to_use p) (s_verify p) True (unique_offset t n) kb
      (s\<lparr>io_rng := st, io_kern := k\<rparr>) = (s', None)"
    using read_records_fine [OF laws unique_offset_less record_size_le, of "s\<lparr>io_rng := st, io_kern := k\<rparr>" fd
        "mk_file_nm p t (th_src t) n" "[]" kb t n rest p "s_verify p" True] content size by auto
  then show ?thesis using k by (simp add: read_one_def sf_draw_size_def size with_file_fine)
qed

lemma mk_file_nm_record_kb [simp]: "mk_file_nm (p\<lparr>s_record_kb := r\<rparr>) t base n = mk_file_nm p t base n"
  by (simp add: mk_file_nm_def file_name_def)

lemma next_file_size_record_kb [simp]: "next_file_size expo (p\<lparr>s_record_kb := r\<rparr>) st = next_file_size expo p st"
  by (cases "s_distr p") (simp_all add: next_file_size_def)

end
