(* ===== verification/Smallfile_Names.thy ===== *)
theory Smallfile_Names
  imports Smallfile
begin

text \<open>
  The directory names of smallfile: with two or more directories per directory both loops that compute a name
  end, and the numbered names are different for different groups of files.
\<close>

section \<open>Padded numbers\<close>

text \<open>A padded number still determines the number.\<close>

lemma pad0_digit: "c \<in> set (pad0 w n) \<Longrightarrow> is_digit c"
  by (auto simp: pad0_def Let_def is_digit_def ord_def dest!: dec_str_digit split: if_splits)

lemma parse_pad0: "parse_digits 10 0 (pad0 w n) = Some n"
proof -
  have "parse_digits 10 0 (replicate m (CHR ''0'') @ s) = parse_digits 10 0 s" for m s
    by (induction m) (simp_all add: digit_val_def ord_def)
  then show ?thesis by (simp add: pad0_def Let_def parse_dec_str)
qed

lemma pad0_inj: "pad0 w m = pad0 w n \<Longrightarrow> m = n"
  by (metis parse_pad0 option.inject)

lemma digits_split:
  assumes "xs @ c # r = ys @ c # r'" "\<And>d. d \<in> set xs \<union> set ys \<Longrightarrow> is_digit d" "\<not> is_digit c"
  shows "xs = ys \<and> r = r'"
proof -
  have "takeWhile is_digit (xs @ c # r) = xs" "takeWhile is_digit (ys @ c # r') = ys"
    using assms(2,3) by (subst takeWhile_append2; auto)+
  then show ?thesis using assms(1) by (metis append_same_eq same_append_eq list.inject)
qed

section \<open>Numbered names\<close>

lemma level_sizes_returns:
  assumes "2 \<le> per" "0 < cur"
  shows "\<exists>ls. level_sizes per dir_in cur acc = Some ls"
  using assms(2)
proof (induction "Suc dir_in - cur" arbitrary: cur acc rule: less_induct)
  case less
  show ?case
  proof (cases "cur \<le> dir_in")
    case True
    have "cur < cur * per" using assms(1) less.prems by simp
    then have "Suc dir_in - cur * per < Suc dir_in - cur" using True by linarith
    then show ?thesis
      using less.hyps [of "cur * per" "acc @ [cur]"] less.prems assms(1) True by (simp add: level_sizes.simps [of per dir_in cur])
  qed (simp add: level_sizes.simps [of per dir_in cur])
qed

text \<open>The levels are the powers of the number of directories.\<close>

lemma level_sizes_powers:
  assumes "level_sizes per dir_in cur acc = Some ls"
  shows "\<exists>k. ls = acc @ map (\<lambda>j. cur * per ^ j) [0..<k]"
proof -
  define P where "P = (\<lambda>(per::nat) (dir_in::nat) cur acc ls. \<exists>k. ls = acc @ map (\<lambda>j. cur * per ^ j) [0..<(k::nat)])"
  have "P per dir_in cur acc ls"
  proof (rule level_sizes.raw_induct [where P = P, OF _ assms])
    fix rec per and dir_in cur :: nat and acc ls
    assume IH: "\<And>per dir_in cur acc ls. rec per dir_in cur acc = Some ls \<Longrightarrow> P per dir_in cur acc ls"
      and body: "(if cur \<le> dir_in then rec per dir_in (cur * per) (acc @ [cur]) else Some acc) = Some ls"
    show "P per dir_in cur acc ls"
    proof (cases "cur \<le> dir_in")
      case True
      then obtain k where "ls = (acc @ [cur]) @ map (\<lambda>j. cur * per * per ^ j) [0..<k]"
        using IH [of per dir_in "cur * per" "acc @ [cur]" ls] body by (auto simp: P_def)
      moreover have "[0..<Suc k] = 0 # map Suc [0..<k]" by (simp add: map_Suc_upt upt_conv_Cons del: upt_Suc)
      ultimately have "ls = acc @ map (\<lambda>j. cur * per ^ j) [0..<Suc k]" by (simp add: o_def mult.assoc del: upt_Suc)
      then show ?thesis unfolding P_def by blast
    next
      case False
      then have "ls = acc @ map (\<lambda>j. cur * per ^ j) [0..<0]" using body by simp
      then show ?thesis unfolding P_def by blast
    qed
  qed
  then show ?thesis by (simp add: P_def)
qed

lemma length_seq_parts [simp]: "length (seq_parts ls d) = Suc (length ls)"
  by (induction ls arbitrary: d) auto

lemma seq_parts_inj: "seq_parts ls a = seq_parts ls b \<Longrightarrow> a = b"
proof (induction ls arbitrary: a b)
  case (Cons lvl ls)
  then have q: "a div lvl = b div lvl" and "a - a div lvl * lvl = b - b div lvl * lvl" by (auto dest: pad0_inj)
  moreover have "a div lvl * lvl \<le> a" "b div lvl * lvl \<le> b" by (simp_all add: div_times_less_eq_dividend)
  ultimately show ?case by (metis le_add_diff_inverse)
qed (auto dest: pad0_inj)

text \<open>A numbered name has one more level than there are powers, so its length determines the levels.\<close>

lemma mk_seq_dir_name_levels:
  assumes "mk_seq_dir_name p n = Some ds"
  shows "ds = seq_parts (rev (map (\<lambda>j. s_dirs_per_dir p * s_dirs_per_dir p ^ j) [0..<length ds - 1])) (n div s_files_per_dir p)"
proof -
  obtain ls where ls: "level_sizes (s_dirs_per_dir p) (n div s_files_per_dir p) (s_dirs_per_dir p) [] = Some ls"
    "ds = seq_parts (rev ls) (n div s_files_per_dir p)"
    using assms by (auto simp: mk_seq_dir_name_def split: bind_splits)
  then obtain k where "ls = map (\<lambda>j. s_dirs_per_dir p * s_dirs_per_dir p ^ j) [0..<k]"
    using level_sizes_powers [OF ls(1)] by auto
  then show ?thesis using ls(2) by simp
qed

lemma mk_seq_dir_name_inj:
  assumes "mk_seq_dir_name p m = Some ds" "mk_seq_dir_name p n = Some ds"
  shows "m div s_files_per_dir p = n div s_files_per_dir p"
  using mk_seq_dir_name_levels [OF assms(1)] mk_seq_dir_name_levels [OF assms(2)] seq_parts_inj by metis

lemma mk_seq_dir_name_returns:
  assumes "2 \<le> s_dirs_per_dir p"
  shows "\<exists>ds. mk_seq_dir_name p n = Some ds"
  using level_sizes_returns [of "s_dirs_per_dir p" "s_dirs_per_dir p" "n div s_files_per_dir p" "[]"] assms
  by (auto simp: mk_seq_dir_name_def)

text \<open>With one directory per directory the list of levels has no end.\<close>

lemma one_dir_per_dir_hangs:
  assumes "1 \<le> dir_in"
  shows "level_sizes 1 dir_in 1 [] = None"
proof -
  have "per = 1 \<longrightarrow> cur \<le> d \<longrightarrow> False" if "level_sizes per d cur acc = Some y" for per d cur acc y
    by (rule level_sizes.raw_induct [where P = "\<lambda>per d cur acc y. per = 1 \<longrightarrow> cur \<le> d \<longrightarrow> False", OF _ that])
      (auto split: if_splits)
  then show ?thesis using assms by (cases "level_sizes 1 dir_in 1 []") auto
qed

section \<open>Hashed names\<close>

lemma hash_loop_returns:
  assumes "2 \<le> per"
  shows "\<exists>ds. hash_loop per d acc = Some ds"
proof (induction d arbitrary: acc rule: less_induct)
  case (less d)
  show ?case
  proof (cases "1 < d")
    case True
    then have "d div per < d" using assms by simp
    then show ?thesis using less True by (simp add: hash_loop.simps [of per d])
  qed (simp add: hash_loop.simps [of per d])
qed

lemma mk_dir_name_returns: "2 \<le> s_dirs_per_dir p \<Longrightarrow> \<exists>ds. mk_dir_name p n = Some ds"
  by (simp add: mk_dir_name_def mk_hashed_dir_name_def hash_loop_returns mk_seq_dir_name_returns)

lemma all_names_return: "(\<And>n. \<exists>d. f n = Some d) \<Longrightarrow> \<exists>ds. all_names f ns = Some ds"
proof (induction ns)
  case (Cons n ns)
  then obtain d ds where "f n = Some d" "all_names f ns = Some ds" by blast
  then show ?case by simp
qed simp

end
