(* ===== verification/Smallfile_Loop.thy ===== *)
theory Smallfile_Loop
  imports Smallfile_Content Smallfile_Names
begin

text \<open>
  The loop over the files of a smallfile thread: without a stonewall it is the sequence of the files, an
  operation that ends without an error and is not cut short has worked on every file, and the directories of
  all files are made up front.
\<close>

section \<open>The test for another file\<close>

lemma end_testD:
  "end_test F p (g, s) = (g1, s1) \<Longrightarrow> filenum g1 = filenum g \<and> status g1 = status g \<and> pace_ended g1"
  by (auto simp: end_test_def split: if_splits)

lemma end_test_again: "pace_ended g \<Longrightarrow> end_test F p (g, s) = (g, s)"
  by (simp add: end_test_def)

text \<open>The progress of a loop: the number of the last file, and the counts kept when the measurement ended.\<close>

definition pace_ok :: "sf_params \<Rightarrow> pace \<Rightarrow> bool" where
  "pace_ok p g \<longleftrightarrow> filenum g \<le> s_iterations p \<and>
     (if pace_ended g then \<exists>m. filenum_final g = Some m \<and> m \<le> filenum g else filenum_final g = None)"

lemma end_test_ok: "end_test F p (g, s) = (g1, s1) \<Longrightarrow> pace_ok p g \<Longrightarrow> pace_ok p g1"
  by (auto simp: end_test_def pace_ok_def split: if_splits)

lemma do_another_file_ok:
  assumes "do_another_file F p i (g, s) = (go, g', s')" "pace_ok p g"
  shows "pace_ok p g' \<and> status g' = status g \<and>
    (if go then filenum g' = Suc (filenum g) \<and> filenum g' \<le> s_iterations p
     else filenum g' = filenum g \<and> pace_ended g')"
proof -
  obtain g1 s1 where g1: "(if saw_stonewall F p i (g, s) then end_test F p (g, s) else (g, s)) = (g1, s1)"
    by (cases "if saw_stonewall F p i (g, s) then end_test F p (g, s) else (g, s)")
  have ok: "pace_ok p g1" "filenum g1 = filenum g" "status g1 = status g"
    using g1 assms(2) by (auto split: if_splits dest: end_testD end_test_ok)
  obtain g2 s2 where g2: "end_test F p (g1, s1) = (g2, s2)" by (cases "end_test F p (g1, s1)")
  have ok2: "pace_ok p g2" "filenum g2 = filenum g" "status g2 = status g" "pace_ended g2"
    using end_test_ok [OF g2 ok(1)] end_testD [OF g2] ok by auto
  show ?thesis
    using assms(1) ok ok2 unfolding do_another_file_def g1 Let_def
    by (auto simp: g2 pace_ok_def split: if_splits)
qed

lemma do_another_file_covers:
  assumes "do_another_file F p i (g, s) = (False, g', s')" "\<not> s_stonewall p \<or> s_finish p" "status g = 0"
    "\<not> pace_ended g \<or> s_finish p"
  shows "s_iterations p \<le> filenum g"
  using assms
  by (auto simp: do_another_file_def saw_stonewall_def Let_def split: if_splits prod.splits dest!: end_testD)

lemma do_another_file_open:
  assumes "\<not> s_stonewall p" "\<not> pace_ended g" "status g = 0"
  shows "do_another_file F p i (g, s) =
    (if s_iterations p \<le> filenum g then (False, end_test F p (g, s)) else (True, g\<lparr>filenum := filenum g + 1\<rparr>, s))"
  using assms by (simp add: do_another_file_def saw_stonewall_def)

section \<open>The loop\<close>

text \<open>The files one after the other, up to the first error.\<close>

fun files_in_order ::
  "(nat \<Rightarrow> 'k sf_io \<times> 'l \<Rightarrow> ('k sf_io \<times> 'l) \<times> io_error option) \<Rightarrow> nat list \<Rightarrow> 'k sf_io \<times> 'l \<Rightarrow>
     ('k sf_io \<times> 'l) \<times> (nat \<times> io_error) option" where
  "files_in_order body [] sl = (sl, None)"
| "files_in_order body (n # ns) sl =
     (case body n sl of (sl, Some e) \<Rightarrow> (sl, Some (n, e)) | (sl, None) \<Rightarrow> files_in_order body ns sl)"

lemma while_files_in_order:
  assumes "\<not> s_stonewall p" "\<not> pace_ended g" "status g = 0" "filenum g \<le> s_iterations p"
  shows "while_files F p i body g sl =
    (case files_in_order body [Suc (filenum g)..<Suc (s_iterations p)] sl of
       (sl, Some (n, e)) \<Rightarrow> ((g\<lparr>filenum := n\<rparr>, fst sl), Some e)
     | (sl, None) \<Rightarrow> (end_test F p (g\<lparr>filenum := s_iterations p\<rparr>, fst sl), None))"
  using assms
proof (induction "s_iterations p - filenum g" arbitrary: g sl)
  case 0
  then have "filenum g = s_iterations p" by simp
  then have "g\<lparr>filenum := s_iterations p\<rparr> = g" by (metis pace.surjective pace.update_convs(1))
  then show ?case
    using 0 by (simp add: while_files.simps [of F p i body g sl] do_another_file_open split: prod.splits)
next
  case (Suc k)
  then have less: "filenum g < s_iterations p" by simp
  have list: "[Suc (filenum g)..<Suc (s_iterations p)] =
      Suc (filenum g) # [Suc (Suc (filenum g))..<Suc (s_iterations p)]"
    using less by (simp add: upt_conv_Cons del: upt_Suc)
  obtain sl1 r where body: "body (Suc (filenum g)) sl = (sl1, r)" by (cases "body (Suc (filenum g)) sl")
  show ?case
  proof (cases r)
    case None
    have "while_files F p i body g sl = while_files F p i body (g\<lparr>filenum := Suc (filenum g)\<rparr>) sl1"
      using less Suc.prems body None
      by (simp add: while_files.simps [of F p i body g sl] do_another_file_open split: prod.splits)
    also have "\<dots> = (case files_in_order body [Suc (Suc (filenum g))..<Suc (s_iterations p)] sl1 of
         (sl, Some (n, e)) \<Rightarrow> ((g\<lparr>filenum := n\<rparr>, fst sl), Some e)
       | (sl, None) \<Rightarrow> (end_test F p (g\<lparr>filenum := s_iterations p\<rparr>, fst sl), None))"
      using Suc.hyps(1) [of "g\<lparr>filenum := Suc (filenum g)\<rparr>" sl1] Suc.hyps(2) Suc.prems less by simp
    finally show ?thesis unfolding list using body None by simp
  next
    case (Some e)
    then show ?thesis
      unfolding list using less Suc.prems body
      by (simp add: while_files.simps [of F p i body g sl] do_another_file_open split: prod.splits)
  qed
qed

lemma while_files_covers:
  assumes "while_files F p i body g sl = ((g', s'), None)" "pace_ok p g" "status g = 0"
    "\<not> s_stonewall p \<or> s_finish p" "\<not> pace_ended g \<or> s_finish p"
  shows "pace_ok p g' \<and> pace_ended g' \<and> filenum g' = s_iterations p \<and> status g' = 0 \<and>
    (\<not> s_stonewall p \<and> \<not> pace_ended g \<longrightarrow> filenum_final g' = Some (s_iterations p))"
  using assms
proof (induction F p i body g sl rule: while_files.induct)
  case (1 F p i body g sl)
  obtain go g1 s1 where d: "do_another_file F p i (g, fst sl) = (go, g1, s1)"
    by (cases "do_another_file F p i (g, fst sl)")
  have ok: "pace_ok p g1" "status g1 = 0" using do_another_file_ok [OF d "1.prems"(2)] "1.prems"(3) by simp_all
  show ?case
  proof (cases go)
    case False
    have "g' = g1" using "1.prems"(1) d False by (simp add: while_files.simps [of F p i body g sl])
    moreover have "s_iterations p \<le> filenum g"
      using do_another_file_covers [of F p i g "fst sl" g1 s1] d False "1.prems"(3-5) by simp
    moreover have "filenum_final g1 = Some (filenum g)" if "\<not> s_stonewall p" "\<not> pace_ended g"
      using do_another_file_open [OF that "1.prems"(3), of F i "fst sl"] d False that by (auto simp: end_test_def split: if_splits)
    ultimately show ?thesis
      using do_another_file_ok [OF d "1.prems"(2)] False ok "1.prems"(2) by (auto simp: pace_ok_def)
  next
    case True
    obtain sl1 r where body: "body (filenum g1) (s1, snd sl) = (sl1, r)" by (cases "body (filenum g1) (s1, snd sl)")
    have go: "go = True" using True by simp
    have r: "r = None" "while_files F p i body g1 sl1 = ((g', s'), None)"
      using "1.prems"(1) d True body
      by (auto simp: while_files.simps [of F p i body g sl] split: option.splits)
    have open1: "\<not> pace_ended g1 \<or> s_finish p" "\<not> s_stonewall p \<Longrightarrow> pace_ended g1 = pace_ended g"
      using "1.prems"(4,5) d True
      by (auto simp: do_another_file_def saw_stonewall_def split: if_splits prod.splits)
    show ?thesis
      using "1.IH" [OF d [symmetric] go refl body [symmetric] r(1) r(2) ok "1.prems"(4) open1(1)] open1(2) by auto
  qed
qed

lemma each_file_covers:
  assumes "each_file F p i body (g, s) = ((g', s'), None)" "pace_ok p g" "status g = 0" "\<not> pace_ended g"
    "\<not> s_stonewall p \<or> s_finish p"
  shows "pace_ok p g' \<and> pace_ended g' \<and> filenum g' = s_iterations p \<and>
    (\<not> s_stonewall p \<longrightarrow> filenum_final g' = Some (s_iterations p))"
  using while_files_covers [of F p i _ g "(s, ())" g' s'] assms by (auto simp: each_file_def)

section \<open>Operations\<close>

lemma fresh_pace_ok: "pace_ok p fresh_pace" "status fresh_pace = 0" "\<not> pace_ended fresh_pace"
  by (simp_all add: pace_ok_def fresh_pace_def)

text \<open>Every operation is one loop over the files, with a different body.\<close>

lemma run_sf_op_loop:
  assumes "run_sf_op F p t i (g, s) = ((g', s'), None)"
  obtains (each) body where "s_opname p \<noteq> ''cleanup''" "each_file F p i body (g, s) = ((g', s'), None)"
  | (dirs) body where "s_opname p \<noteq> ''cleanup''" "while_files F p i body g (s, no_scan) = ((g', s'), None)"
  | (cleanup) s1 where "s_opname p = ''cleanup''"
      "each_file F (p\<lparr>s_stonewall := False, s_finish := True\<rparr>) i
         (cleanup_one F (p\<lparr>s_stonewall := False, s_finish := True\<rparr>) t) (g, s) = ((g', s1), None)"
proof (cases "s_opname p = ''cleanup''")
  case True
  then have "do_cleanup F p t i (g, s) = ((g', s'), None)" using assms by (simp add: run_sf_op_def Let_def)
  then show thesis
    using cleanup [OF True] by (auto simp: do_cleanup_def Let_def split: prod.splits option.splits)
next
  case False
  then show thesis
    using assms each [OF False] dirs [OF False] unfolding run_sf_op_def Let_def
    by (simp split: if_splits)
qed

lemma run_sf_op_covers:
  assumes "run_sf_op F p t i (fresh_pace, s) = ((g, s'), None)" "\<not> s_stonewall p \<or> s_finish p \<or> s_opname p = ''cleanup''"
  shows "filenum g = s_iterations p \<and>
    (\<not> s_stonewall p \<or> s_opname p = ''cleanup'' \<longrightarrow> filenum_final g = Some (s_iterations p))"
  using assms(1)
proof (cases rule: run_sf_op_loop)
  case (each body)
  then show ?thesis using each_file_covers [OF each(2) fresh_pace_ok] assms(2) by auto
next
  case (dirs body)
  then show ?thesis using while_files_covers [OF dirs(2) fresh_pace_ok(1,2)] fresh_pace_ok(3) assms(2) by auto
next
  case (cleanup s1)
  then show ?thesis
    using each_file_covers [OF cleanup(2)] fresh_pace_ok by simp
qed

section \<open>Directories\<close>

lemma new_thread_dirs:
  assumes "new_thread p tid = Some t" "n < s_iterations p + s_files_per_dir p"
  shows "mk_dir_name p n = Some (th_dirs t ! n)"
proof -
  have names: "all_names f ns = Some ds \<Longrightarrow> j < length ns \<Longrightarrow> f (ns ! j) = Some (ds ! j)" for f ns ds j
    by (induction ns arbitrary: ds j) (auto split: bind_splits simp: nth_Cons' less_Suc_eq_0_disj)
  show ?thesis
    using names [of "mk_dir_name p" "[0..<s_iterations p + s_files_per_dir p]" _ n] assms
    by (auto simp: new_thread_def split: bind_splits)
qed

lemma new_thread_trees:
  assumes "new_thread p tid = Some t"
  shows "length (th_src t) = 1" "length (th_dest t) = 1" "th_tid t = tid" "th_label t = pad0 2 tid"
  using assms by (auto simp: new_thread_def src_dirs_def dest_dirs_def split: bind_splits)

lemma in_step_by: "0 < k \<Longrightarrow> m * k < n \<Longrightarrow> m * k \<in> set (step_by n k)"
proof -
  assume k: "0 < k" and "m * k < n"
  then have "(m + 1) * k \<le> n + k - 1" by simp
  then have "m + 1 \<le> (n + k - 1) div k" using k by (simp add: less_eq_div_iff_mult_less_eq)
  then show ?thesis by (auto simp: step_by_def mult.commute)
qed

text \<open>The file in whose directory a file lies is among those whose directories are made.\<close>

lemma file_parent_listed:
  assumes new: "new_thread p tid = Some t" and n: "n \<le> s_iterations p" and per: "0 < s_files_per_dir p"
    and tree: "tree \<in> set trees" "length tree = 1"
  shows "butlast (mk_file_nm p t tree n) \<in> set (file_parents p t trees)"
proof -
  define j where "j = (if s_hash p then n else n div s_files_per_dir p * s_files_per_dir p)"
  have le: "j \<le> n" using div_mult_mod_eq [of n "s_files_per_dir p"] by (simp add: j_def) 
  have less: "j < s_iterations p + s_files_per_dir p" using le n per by linarith
  have listed: "j \<in> set (subdir_file_nums p)"
    using n less in_step_by [OF per, of "n div s_files_per_dir p"] by (auto simp: subdir_file_nums_def j_def)
  have same: "mk_dir_name p j = mk_dir_name p n"
    using per by (auto simp: j_def mk_dir_name_def mk_seq_dir_name_def)
  have "th_dirs t ! j = th_dirs t ! n"
    using new_thread_dirs [OF new less] new_thread_dirs [OF new, of n] same n per by simp
  then have "butlast (mk_file_nm p t tree j) = butlast (mk_file_nm p t tree n)"
    using tree(2) by (simp add: mk_file_nm_def butlast_append)
  then have "butlast (mk_file_nm p t tree n) \<in> (\<lambda>j. butlast (mk_file_nm p t tree j)) ` set (subdir_file_nums p)"
    using listed by (metis imageI)
  then show ?thesis using tree(1) by (auto simp: file_parents_def)
qed

text \<open>What making a list of directories leaves.\<close>

lemma call_paths_made:
  assumes made: "\<And>k q. snd (f k q) = None \<Longrightarrow> is_dir (fst (f k q)) q"
    and kept: "\<And>k q r. is_dir k r \<Longrightarrow> is_dir (fst (f k q)) r"
  shows "call_paths f ds s = (s', None) \<Longrightarrow> d \<in> set ds \<or> is_dir (io_kern s) d \<Longrightarrow> is_dir (io_kern s') d"
proof (induction ds arbitrary: s)
  case (Cons a ds)
  then obtain k where k: "f (io_kern s) a = (k, None)" "call_paths f ds (s\<lparr>io_kern := k\<rparr>) = (s', None)"
    by (auto simp: also_then_fine call_fine)
  have "is_dir k a" using made [of "io_kern s" a] k(1) by simp
  moreover have "is_dir (io_kern s) d \<Longrightarrow> is_dir k d" using kept [of "io_kern s" d a] k(1) by simp
  ultimately show ?case using Cons.IH [OF k(2)] Cons.prems(2) by auto
qed simp

section \<open>Names\<close>

lemma file_name_inj:
  assumes "file_name p t n = file_name p t' n'" "th_label t = pad0 w i" "th_label t' = pad0 w i'"
  shows "i = i' \<and> n = n'"
proof -
  have u: "\<not> is_digit (CHR ''_'')" by (simp add: is_digit_def ord_def)
  have "pad0 w i @ CHR ''_'' # dec_str n @ CHR ''_'' # s_suffix p = pad0 w i' @ CHR ''_'' # dec_str n' @ CHR ''_'' # s_suffix p"
    using assms by (simp add: file_name_def)
  then have "pad0 w i = pad0 w i' \<and> dec_str n @ CHR ''_'' # s_suffix p = dec_str n' @ CHR ''_'' # s_suffix p"
    by (rule digits_split) (use u pad0_digit in auto)
  then show ?thesis using pad0_inj dec_str_split [OF _ u] by blast
qed

lemma last_mk_file_nm: "last (mk_file_nm p t tree n) = file_name p t n"
  by (simp add: mk_file_nm_def)

section \<open>Swift\<close>

lemma swift_try_error:
  assumes closed: "\<And>k fd len. snd (f_fadvise F (f_close F k fd) fd len) \<noteq> None"
  shows "swift_try F p t n kb s \<noteq> (s', None)"
proof
  assume "swift_try F p t n kb s = (s', None)"
  then obtain k fd k1 where "f_fadvise F (f_close F k fd) fd (kb * 1024) = (k1, None)"
    by (auto simp: swift_try_def Let_def also_then_fine call_fine split: prod.splits sum.splits option.splits)
  then show False using closed [of k fd "kb * 1024"] by simp
qed

lemma swift_put_one_error:
  assumes closed: "\<And>k fd len. snd (f_fadvise F (f_close F k fd) fd len) \<noteq> None"
  shows "\<exists>s' e. swift_put_one F p t n s = (s', Some e)"
proof -
  obtain kb s1 where size: "sf_draw_size F p s = (kb, s1)" by (cases "sf_draw_size F p s")
  obtain s2 r where att: "swift_try F p t n kb s1 = (s2, r)" by (cases "swift_try F p t n kb s1")
  then obtain e where "r = Some e" using swift_try_error [OF closed, of p t n kb s1 s2] by (cases r) auto
  then show ?thesis
    using att by (auto simp: swift_put_one_def size also_then_def split: prod.splits option.splits)
qed

section \<open>Large files\<close>

text \<open>Files of 10100 KiB or more make the interval of the stonewall checks negative.\<close>

lemma large_files_have_no_interval: "10100 \<le> s_total_kb p \<Longrightarrow> files_between_checks p = None"
  by (auto simp: files_between_checks_def rsub_def)

end
