(* ===== verification/Smallfile_Calendar.thy ===== *)
theory Smallfile_Calendar
  imports Smallfile
begin

text \<open>
  The dates of reports (civil\_from\_days in src/src/smallfile.rs): the calendar as the rule that leads from a
  day to the next one, and the two formulas of the code, for the year of an era and for the day of a year that
  begins in March, against it. An era is 400 years: a day of it is a number of centuries, of groups of four years, of years and
  of days, and the formula for the year is exact on each such sum.
\<close>

section \<open>The calendar\<close>

definition leap_year :: "int \<Rightarrow> bool" where
  "leap_year y \<longleftrightarrow> y mod 4 = 0 \<and> (y mod 100 \<noteq> 0 \<or> y mod 400 = 0)"

definition month_days :: "int \<Rightarrow> int \<Rightarrow> int" where
  "month_days y m = (if m = 2 then (if leap_year y then 29 else 28) else if m \<in> {4, 6, 9, 11} then 30 else 31)"

definition next_day :: "int \<times> int \<times> int \<Rightarrow> int \<times> int \<times> int" where
  "next_day = (\<lambda>(y, m, d).
     if d < month_days y m then (y, m, d + 1) else if m < 12 then (y, m + 1, 1) else (y + 1, 1, 1))"

lemma leap_year_era: "leap_year (y + era * 400) = leap_year y"
proof -
  have "(y + era * 400) mod 4 = y mod 4" using mod_mult_self2 [of y 4 "era * 100"] by (simp add: mult.commute)
  moreover have "(y + era * 400) mod 100 = y mod 100" using mod_mult_self2 [of y 100 "era * 4"] by (simp add: mult.commute)
  ultimately show ?thesis by (simp add: leap_year_def)
qed

section \<open>The year of an era\<close>

definition year_of_era :: "int \<Rightarrow> int" where
  "year_of_era doe = (doe - doe div 1460 + doe div 36524 - doe div 146096) div 365"

definition year_start :: "int \<Rightarrow> int" where
  "year_start y = 365 * y + y div 4 - y div 100"

definition year_end :: "int \<Rightarrow> int" where
  "year_end y = year_start y + (if leap_year (y + 1) then 366 else 365)"

lemma quot_eq: "0 < (b::int) \<Longrightarrow> b * q \<le> a \<Longrightarrow> a < b * q + b \<Longrightarrow> a div b = q"
  by (rule int_div_pos_eq [of _ _ _ "a - b * q"]) auto

text \<open>The last day of a leap year of this count, which begins in March, is its day 365.\<close>

definition day_sum :: "int \<Rightarrow> int \<Rightarrow> int \<Rightarrow> int \<Rightarrow> int \<Rightarrow> bool" where
  "day_sum x c q r k \<longleftrightarrow>
     x = 36524 * c + 1461 * q + 365 * r + k \<and> 0 \<le> c \<and> c \<le> 3 \<and> 0 \<le> q \<and> q \<le> 24 \<and> 0 \<le> r \<and> r \<le> 3 \<and>
     0 \<le> k \<and> k \<le> 365 \<and> (k = 365 \<longrightarrow> r = 3 \<and> (q < 24 \<or> c = 3))"

lemma day_sum_ex:
  assumes "0 \<le> x" "x < 146097"
  obtains c q r k where "day_sum x c q r k"
proof -
  define c where "c = min 3 (x div 36524)"
  define x1 where "x1 = x - 36524 * c"
  define q where "q = x1 div 1461"
  define x2 where "x2 = x1 - 1461 * q"
  define r where "r = min 3 (x2 div 365)"
  have c: "0 \<le> c" "c \<le> 3" using assms by (auto simp: c_def pos_imp_zdiv_nonneg_iff)
  have x1: "0 \<le> x1" "x1 \<le> 36524" "x1 = 36524 \<longrightarrow> c = 3"
    using assms div_mult_mod_eq [of x 36524] pos_mod_bound [of 36524 x] pos_mod_sign [of 36524 x]
    by (auto simp: x1_def c_def min_def split: if_splits)
  have q: "0 \<le> q" "q \<le> 24" "0 \<le> x2" "x2 < 1461"
    using x1 div_mult_mod_eq [of x1 1461] pos_mod_bound [of 1461 x1] pos_mod_sign [of 1461 x1]
    unfolding x2_def q_def by linarith+
  have r: "0 \<le> r" "r \<le> 3" "0 \<le> x2 - 365 * r" "x2 - 365 * r \<le> 365" "x2 - 365 * r = 365 \<longrightarrow> r = 3"
    using q div_mult_mod_eq [of x2 365] pos_mod_bound [of 365 x2] pos_mod_sign [of 365 x2]
    by (auto simp: r_def min_def split: if_splits)
  have "day_sum x c q r (x2 - 365 * r)"
    unfolding day_sum_def using c x1 q r by (auto simp: x1_def x2_def)
  then show thesis by (rule that)
qed

lemma year_of_day_sum:
  assumes "day_sum x c q r k"
  shows "year_of_era x = 100 * c + 4 * q + r"
proof -
  define carry :: int where "carry = (if 1460 \<le> 24 * c + q + 365 * r + k then 1 else 0)"
  have "x div 1460 = 25 * c + q + carry"
    using assms by (intro quot_eq) (auto simp: day_sum_def carry_def)
  moreover have "x div 36524 - x div 146096 = c"
  proof (cases "x = 146096")
    case False
    then have "x div 36524 = c" using assms by (intro quot_eq) (auto simp: day_sum_def)
    moreover have "x div 146096 = 0" using assms False by (intro quot_eq) (auto simp: day_sum_def)
    ultimately show ?thesis by simp
  qed (use assms in \<open>auto simp: day_sum_def\<close>)
  ultimately have "x - x div 1460 + x div 36524 - x div 146096 = 365 * (100 * c + 4 * q + r) + (k - carry)"
    using assms by (simp add: day_sum_def)
  moreover have "0 \<le> k - carry" "k - carry < 365" using assms by (auto simp: day_sum_def carry_def)
  ultimately show ?thesis unfolding year_of_era_def by (intro quot_eq) auto
qed

lemma day_sum_year:
  assumes "day_sum x c q r k"
  shows "x - year_start (100 * c + 4 * q + r) = k"
    "leap_year (100 * c + 4 * q + r + 1) = (r = 3 \<and> (q < 24 \<or> c = 3))"
proof -
  let ?y = "100 * c + 4 * q + r"
  have "?y div 4 = 25 * c + q" "?y div 100 = c" using assms by (intro quot_eq; auto simp: day_sum_def)+
  then show "x - year_start ?y = k" using assms by (simp add: year_start_def day_sum_def)
  have "(?y + 1) div 4 = 25 * c + q + (if r = 3 then 1 else 0)"
    "(?y + 1) div 100 = c + (if r = 3 \<and> q = 24 then 1 else 0)"
    "(?y + 1) div 400 = (if r = 3 \<and> q = 24 \<and> c = 3 then 1 else 0)"
    using assms by (intro quot_eq; auto simp: day_sum_def)+
  then have "(?y + 1) mod 4 = 0 \<longleftrightarrow> r = 3" "(?y + 1) mod 100 = 0 \<longleftrightarrow> r = 3 \<and> q = 24"
    "(?y + 1) mod 400 = 0 \<longleftrightarrow> r = 3 \<and> q = 24 \<and> c = 3"
    using assms by (auto simp: day_sum_def minus_mult_div_eq_mod [symmetric] split: if_splits)
  then show "leap_year (?y + 1) = (r = 3 \<and> (q < 24 \<or> c = 3))"
    using assms by (auto simp: leap_year_def day_sum_def)
qed

lemma year_of_era_bounds:
  assumes "0 \<le> x" "x < 146097"
  shows "0 \<le> year_of_era x \<and> year_of_era x < 400 \<and> 0 \<le> x - year_start (year_of_era x) \<and>
    x - year_start (year_of_era x) < (if leap_year (year_of_era x + 1) then 366 else 365)"
proof -
  obtain c q r k where d: "day_sum x c q r k" using day_sum_ex [OF assms] .
  then show ?thesis using day_sum_year [OF d] year_of_day_sum [OF d] by (auto simp: day_sum_def)
qed

text \<open>The next day is in the same year or is the first one of the next year.\<close>

lemma year_of_era_next:
  assumes "0 \<le> x" "x < 146096"
  shows "(if x - year_start (year_of_era x) + 1 < (if leap_year (year_of_era x + 1) then 366 else 365)
      then year_of_era (x + 1) = year_of_era x
      else year_of_era (x + 1) = year_of_era x + 1 \<and> year_start (year_of_era x + 1) = x + 1)"
proof -
  have "x < 146097" using assms by simp
  then obtain c q r k where d: "day_sum x c q r k" using day_sum_ex [of x] assms(1) by metis
  let ?y = "100 * c + 4 * q + r"
  have y: "year_of_era x = ?y" "x - year_start ?y = k" "leap_year (?y + 1) = (r = 3 \<and> (q < 24 \<or> c = 3))"
    using year_of_day_sum [OF d] day_sum_year [OF d] by simp_all
  show ?thesis
  proof (cases "k + 1 < (if leap_year (?y + 1) then 366 else 365)")
    case True
    then have "day_sum (x + 1) c q r (k + 1)" using d y(3) by (auto simp: day_sum_def split: if_splits)
    then have "year_of_era (x + 1) = ?y" by (rule year_of_day_sum)
    then show ?thesis using y True by simp
  next
    case False
    then have last: "k = (if r = 3 \<and> (q < 24 \<or> c = 3) then 365 else 364)"
      using d y(3) by (auto simp: day_sum_def split: if_splits)
    have "\<exists>c' q' r'. day_sum (x + 1) c' q' r' 0 \<and> 100 * c' + 4 * q' + r' = ?y + 1"
    proof -
      consider "r < 3" | "r = 3" "q < 24" | "r = 3" "q = 24" "c < 3" | "r = 3" "q = 24" "c = 3"
        using d unfolding day_sum_def by linarith
      then show ?thesis
      proof cases
        case 1
        then show ?thesis using d last by (intro exI [of _ c] exI [of _ q] exI [of _ "r + 1"]) (auto simp: day_sum_def)
      next
        case 2
        then show ?thesis using d last by (intro exI [of _ c] exI [of _ "q + 1"] exI [of _ 0]) (auto simp: day_sum_def)
      next
        case 3
        then show ?thesis using d last by (intro exI [of _ "c + 1"] exI [of _ 0] exI [of _ 0]) (auto simp: day_sum_def)
      next
        case 4
        then show ?thesis using d last assms by (auto simp: day_sum_def)
      qed
    qed
    then obtain c' q' r' where e: "day_sum (x + 1) c' q' r' 0" "100 * c' + 4 * q' + r' = ?y + 1" by blast
    then have "year_of_era (x + 1) = ?y + 1" "x + 1 = year_start (?y + 1)"
      using year_of_day_sum [OF e(1)] day_sum_year(1) [OF e(1)] by simp_all
    then show ?thesis using y False by simp
  qed
qed

section \<open>The month and the day\<close>

definition date_in_year :: "int \<Rightarrow> int \<Rightarrow> int \<times> int \<times> int" where
  "date_in_year y doy =
     (let mp = (5 * doy + 2) div 153; d = doy - (153 * mp + 2) div 5 + 1; m = (if mp < 10 then mp + 3 else mp - 9)
      in (if m \<le> 2 then y + 1 else y, m, d))"

text \<open>Only the end of February depends on the year, and it is the last day.\<close>

definition days_ok :: "int \<Rightarrow> bool" where
  "days_ok doy =
     (case (date_in_year 0 doy, date_in_year 0 (doy + 1)) of
        ((y, m, d), (y', m', d')) \<Rightarrow>
          if m = 2 then d < 28 \<and> y' = y \<and> m' = m \<and> d' = d + 1
          else (y', m', d') = (if d < (if m \<in> {4, 6, 9, 11} then 30 else 31) then (y, m, d + 1)
                 else if m < 12 then (y, m + 1, 1) else (y + 1, 1, 1)))"

lemma days_ok_computed: "list_all days_ok [0..363]"
  by code_simp

lemma date_in_year_shift:
  "date_in_year y doy = (case date_in_year 0 doy of (y0, m, d) \<Rightarrow> (y0 + y, m, d))"
  by (simp add: date_in_year_def Let_def)

lemma date_in_year_next:
  assumes "0 \<le> doy" "doy < 364"
  shows "date_in_year y (doy + 1) = next_day (date_in_year y doy)"
proof -
  have "days_ok doy" using days_ok_computed assms by (simp add: list_all_iff)
  then show ?thesis
    unfolding days_ok_def date_in_year_shift [of y] next_day_def
    by (auto split: prod.splits if_splits simp: month_days_def)
qed

text \<open>The last days of a year and the first one.\<close>

lemma date_in_year_ends:
  "date_in_year y 364 = (y + 1, 2, 28)" "date_in_year y 365 = (y + 1, 2, 29)" "date_in_year y 0 = (y, 3, 1)"
  by (simp_all add: date_in_year_def)

lemma date_in_year_last:
  assumes "0 \<le> doy" "doy < (if leap_year (y + 1) then 366 else 365)"
  shows "next_day (date_in_year y doy) =
    (if doy + 1 < (if leap_year (y + 1) then 366 else 365) then date_in_year y (doy + 1) else date_in_year (y + 1) 0)"
proof -
  consider "doy < 364" | "doy = 364" | "doy = 365" using assms by (cases "leap_year (y + 1)") (simp_all, linarith+)
  then show ?thesis
    using assms by cases (auto simp: date_in_year_next date_in_year_ends next_day_def month_days_def)
qed

section \<open>The whole calendar\<close>

lemma era_eq: "(if 0 \<le> z then z div 146097 else - (- (z - 146096) div 146097)) = z div (146097::int)"
proof -
  have "- (z - 146096) div 146097 = - (z div 146097)"
    using div_mult_mod_eq [of z 146097] pos_mod_bound [of 146097 z] pos_mod_sign [of 146097 z]
    by (intro quot_eq) auto
  then show ?thesis by simp
qed

lemma civil_from_days_eq:
  "civil_from_days z =
     (let era = (z + 719468) div 146097; x = (z + 719468) mod 146097
      in date_in_year (year_of_era x + era * 400) (x - year_start (year_of_era x)))"
  unfolding civil_from_days_def era_eq Let_def date_in_year_def year_of_era_def year_start_def minus_div_mult_eq_mod
  by (rule refl)

lemma civil_from_days_next: "civil_from_days (z + 1) = next_day (civil_from_days z)"
proof -
  define x where "x = (z + 719468) mod 146097"
  define era where "era = (z + 719468) div 146097"
  define y where "y = year_of_era x + era * 400"
  have x: "0 \<le> x" "x < 146097" by (simp_all add: x_def)
  have leap: "leap_year (y + 1) = leap_year (year_of_era x + 1)"
    using leap_year_era [of "year_of_era x + 1" era] by (simp add: y_def algebra_simps)
  have "next_day (civil_from_days z) =
    (if x - year_start (year_of_era x) + 1 < (if leap_year (y + 1) then 366 else 365)
     then date_in_year y (x - year_start (year_of_era x) + 1) else date_in_year (y + 1) 0)"
    using year_of_era_bounds [OF x] leap
    unfolding civil_from_days_eq Let_def x_def [symmetric] era_def [symmetric] y_def [symmetric]
    by (intro date_in_year_last) auto
  moreover have "civil_from_days (z + 1) = \<dots>"
  proof (cases "x = 146096")
    case True
    have "z + 719468 = era * 146097 + x" by (simp add: x_def era_def)
    then have "z + 1 + 719468 = (era + 1) * 146097" using True by simp
    then have "(z + 1 + 719468) div 146097 = era + 1" "(z + 1 + 719468) mod 146097 = 0"
      by (simp_all only: nonzero_mult_div_cancel_right mod_mult_self2_is_0)
    then show ?thesis
      using True leap by (simp add: civil_from_days_eq y_def year_of_era_def year_start_def leap_year_def algebra_simps)
  next
    case False
    have "z + 719468 = era * 146097 + x" by (simp add: x_def era_def)
    then have next_z: "z + 1 + 719468 = (x + 1) + era * 146097" by simp
    have "(z + 1 + 719468) div 146097 = era" using next_z False x by (intro quot_eq) auto
    moreover have "(z + 1 + 719468) mod 146097 = x + 1"
      unfolding next_z mod_mult_self1 using False x by (intro mod_pos_pos_trivial) auto
    ultimately have "(z + 1 + 719468) div 146097 = era" "(z + 1 + 719468) mod 146097 = x + 1" by blast+
    then show ?thesis
      using year_of_era_next [of x] x False leap
      by (auto simp: civil_from_days_eq y_def algebra_simps split: if_splits)
  qed
  ultimately show ?thesis by simp
qed

lemma civil_from_epoch: "civil_from_days 0 = (1970, 1, 1)"
  by code_simp

text \<open>The days before and after the first of January of 1970, by the rule alone.\<close>

fun date_after :: "nat \<Rightarrow> int \<times> int \<times> int" where
  "date_after 0 = (1970, 1, 1)"
| "date_after (Suc n) = next_day (date_after n)"

lemma civil_from_days_date_after: "civil_from_days (int n) = date_after n"
proof (induction n)
  case (Suc n)
  then show ?case using civil_from_days_next [of "int n"] by (simp add: add.commute)
qed (simp add: civil_from_epoch)

definition valid_date :: "int \<times> int \<times> int \<Rightarrow> bool" where
  "valid_date = (\<lambda>(y, m, d). 1 \<le> m \<and> m \<le> 12 \<and> 1 \<le> d \<and> d \<le> month_days y m)"

lemma next_day_valid: "valid_date c \<Longrightarrow> valid_date (next_day c)"
  by (auto simp: valid_date_def next_day_def month_days_def split: prod.splits)

lemma date_after_valid: "valid_date (date_after n)"
  by (induction n) (simp add: valid_date_def month_days_def, simp add: next_day_valid)

end
