(* ===== verification/Smallfile_Properties.thy ===== *)
theory Smallfile_Properties
  imports Smallfile_Loop Smallfile_Calendar
begin

text \<open>
  The properties of smallfile, each with a concrete instance where it has hypotheses. The instance is a file
  system of maps with one open file.
\<close>

section \<open>A small file system\<close>

record demo_kern =
  d_files :: "path \<Rightarrow> u8 list option"
  d_open :: "(path \<times> nat) option"
  d_dirs :: "path list"
  d_flag :: bool

definition demo_create :: "demo_kern \<Rightarrow> path \<Rightarrow> demo_kern \<times> (io_error + nat)" where
  "demo_create k q =
     (case d_files k q of
        None \<Rightarrow> (k\<lparr>d_files := (d_files k)(q := Some []), d_open := Some (q, 0)\<rparr>, Inr 3)
      | Some d \<Rightarrow> (k, Inl (Os 17)))"

definition demo_open :: "demo_kern \<Rightarrow> path \<Rightarrow> demo_kern \<times> (io_error + nat)" where
  "demo_open k q = (case d_files k q of None \<Rightarrow> (k, Inl (Os 2)) | Some d \<Rightarrow> (k\<lparr>d_open := Some (q, 0)\<rparr>, Inr 3))"

definition demo_write :: "demo_kern \<Rightarrow> nat \<Rightarrow> u8 list \<Rightarrow> demo_kern \<times> io_error option" where
  "demo_write k fd b =
     (case d_open k of
        None \<Rightarrow> (k, Some (Os 9))
      | Some (q, pos) \<Rightarrow>
          (case d_files k q of
             None \<Rightarrow> (k, Some (Os 9))
           | Some d \<Rightarrow>
               if fd = 3 \<and> pos = length d
               then (k\<lparr>d_files := (d_files k)(q := Some (d @ b)), d_open := Some (q, pos + length b)\<rparr>, None)
               else (k, Some (Os 22))))"

definition demo_read :: "demo_kern \<Rightarrow> nat \<Rightarrow> nat \<Rightarrow> demo_kern \<times> (io_error + u8 list)" where
  "demo_read k fd n =
     (case d_open k of
        None \<Rightarrow> (k, Inl (Os 9))
      | Some (q, pos) \<Rightarrow>
          (case d_files k q of
             None \<Rightarrow> (k, Inl (Os 9))
           | Some d \<Rightarrow>
               if fd = 3 \<and> pos + n \<le> length d then (k\<lparr>d_open := Some (q, pos + n)\<rparr>, Inr (take n (drop pos d)))
               else (k, Inl OtherError)))"

definition demo_ok :: "demo_kern \<Rightarrow> demo_kern \<times> io_error option" where
  "demo_ok k = (k, None)"

definition demo_fs :: "demo_kern sf_ops" where
  "demo_fs =
     \<lparr>f_create_new = demo_create, f_open_write = (\<lambda>k q b. demo_open k q), f_open_create = demo_create,
      f_open_read = demo_open, f_seek_end = (\<lambda>k fd. demo_ok k), f_write_all = demo_write, f_read_exact = demo_read,
      f_stamp = (\<lambda>k q fd. demo_ok k), f_fsync = (\<lambda>k fd. demo_ok k), f_fchmod = (\<lambda>k fd. demo_ok k),
      f_preallocate = (\<lambda>k fd n. demo_ok k), f_fadvise = (\<lambda>k fd n. (k, if d_open k = None then Some (Os 9) else None)),
      f_close = (\<lambda>k fd. k\<lparr>d_open := None\<rparr>), f_rename = (\<lambda>k a b. demo_ok k), f_remove = (\<lambda>k q. demo_ok k),
      f_stat = (\<lambda>k q. demo_ok k), f_chmod = (\<lambda>k q. demo_ok k), f_mkdir = (\<lambda>k q. demo_ok k), f_rmdir = (\<lambda>k q. demo_ok k),
      f_mkdir_all = (\<lambda>k q. (k\<lparr>d_dirs := q # d_dirs k\<rparr>, None)), f_symlink = (\<lambda>k a b. demo_ok k),
      f_exists = (\<lambda>k q. False), f_read_dir = (\<lambda>k q. (k, Inr [])), f_setxattr = (\<lambda>k q n v. demo_ok k),
      f_getxattr = (\<lambda>k q n. (k, Inr None)), f_await = (\<lambda>k q. demo_ok k), f_flag = d_flag,
      f_raise = (\<lambda>k. k\<lparr>d_flag := True\<rparr>), f_expo = (\<lambda>mean z. mean)\<rparr>"

definition demo_cursor :: "demo_kern \<Rightarrow> nat \<Rightarrow> (path \<times> nat) option" where
  "demo_cursor k fd = (if fd = 3 then d_open k else None)"

lemma demo_laws: "file_laws demo_fs d_files demo_cursor"
  unfolding file_laws_def
  by (auto simp: demo_fs_def demo_create_def demo_open_def demo_write_def demo_read_def demo_ok_def demo_cursor_def
      split: option.splits if_splits)

definition demo_params :: sf_params where
  "demo_params =
     \<lparr>s_opname = ''create'', s_iterations = 2, s_threads = 1, s_record_kb = 0, s_total_kb = 2, s_distr = Fixed,
      s_files_per_dir = 2, s_dirs_per_dir = 10, s_prefix = ''p'', s_suffix = ''s'', s_stonewall = False, s_finish = False,
      s_verify = True, s_fsync = False, s_hash = False, s_shared = False, s_xattr_size = 0, s_xattr_count = 0,
      s_record_ctime = False, s_host = ''h''\<rparr>"

definition demo_thread :: sf_thread where
  "demo_thread =
     \<lparr>th_tid = 0, th_label = ''00'', th_src = [[''file_srcdir'', ''h'', ''thrd_00'']],
      th_dest = [[''file_dstdir'', ''h'', ''thrd_00'']], th_dirs = [[''d_000''], [''d_000''], [''d_001''], [''d_001'']]\<rparr>"

definition demo_io :: "demo_kern sf_io" where
  "demo_io = \<lparr>io_kern = \<lparr>d_files = (\<lambda>q. None), d_open = None, d_dirs = [], d_flag = False\<rparr>, io_rq = 0, io_rng = 7\<rparr>"

lemma demo_new_thread: "new_thread demo_params 0 = Some demo_thread"
  by code_simp

section \<open>Dates\<close>

text \<open>C25: the date of a report is that of the Gregorian calendar: the day a number of days after the first of
  January of 1970 is the one that the rule for the next day gives, on every day and with all leap years, and it
  is a date that exists.\<close>

theorem dates_follow_the_calendar:
  "civil_from_days (int n) = date_after n \<and> valid_date (civil_from_days (int n))"
  by (simp add: civil_from_days_date_after date_after_valid)

section \<open>Contents\<close>

text \<open>C22: a file that the create operation made is accepted by the read operation with verification, also by
  a run with another record size and after data was appended to the file: what is compared does not depend on
  how the file was cut into records.\<close>

theorem created_file_reads_back:
  assumes "file_laws F content cursor" and "create_one F p t n s = (s', None)"
    and "content (io_kern s') (mk_file_nm p t (th_src t) n) = Some d"
    and "content (io_kern s2) (mk_file_nm p t (th_src t) n) = Some (d @ appended)" and "io_rng s2 = io_rng s"
  shows "\<exists>s3. read_one F (p\<lparr>s_record_kb := r\<rparr>) t n s2 = (s3, None)"
proof -
  have "d = repeated (snd (next_file_size (f_expo F) p (io_rng s))) (buf_slice (unique_offset t n) 1024)"
    using create_one_content [OF assms(1,2)] assms(3) by simp
  then show ?thesis
    using read_one_fine [OF assms(1), of s2 "p\<lparr>s_record_kb := r\<rparr>" t n appended] assms(4,5) by simp
qed

lemma demo_created:
  "\<exists>s'. create_one demo_fs demo_params demo_thread 1 demo_io = (s', None)"
  by (simp add: create_one_def with_file_def fill_file_def sf_draw_size_def next_file_size_def also_then_def
      call_def call_if_def write_records.simps record_size_to_use_def BIGGEST_BUF_SIZE_def demo_fs_def demo_create_def
      demo_write_def demo_params_def demo_io_def Let_def)

theorem created_file_reads_back_witness:
  "\<exists>s' d s3. create_one demo_fs demo_params demo_thread 1 demo_io = (s', None) \<and>
     d_files (io_kern s') (mk_file_nm demo_params demo_thread (th_src demo_thread) 1) = Some d \<and>
     read_one demo_fs (demo_params\<lparr>s_record_kb := 1\<rparr>) demo_thread 1 (s'\<lparr>io_rng := 7\<rparr>) = (s3, None)"
proof -
  obtain s' where s': "create_one demo_fs demo_params demo_thread 1 demo_io = (s', None)" using demo_created by blast
  obtain d where d: "d_files (io_kern s') (mk_file_nm demo_params demo_thread (th_src demo_thread) 1) = Some d"
    using create_one_content [OF demo_laws s'] by blast
  then show ?thesis
    using created_file_reads_back [OF demo_laws s' d, of "s'\<lparr>io_rng := 7\<rparr>" "[]" 1] s' by (auto simp: demo_io_def)
qed

section \<open>Directories and names\<close>

text \<open>C23: after a thread has made its directories, the directory of every file that it creates, reads or
  renames exists, in the source tree and in the destination tree, with numbered and with hashed names; in a shared tree this is
  the work of the first thread.\<close>

theorem every_file_has_a_directory:
  assumes "new_thread p tid = Some t" and "0 < s_files_per_dir p" and "make_all_subdirs F p t s = (s', None)"
    and "\<not> (s_shared p \<and> tid \<noteq> 0)"
    and "\<And>k q. snd (f_mkdir_all F k q) = None \<Longrightarrow> is_dir (fst (f_mkdir_all F k q)) q"
    and "\<And>k q r. is_dir k r \<Longrightarrow> is_dir (fst (f_mkdir_all F k q)) r"
    and "n \<le> s_iterations p" and "tree = th_src t \<or> tree = th_dest t"
  shows "is_dir (io_kern s') (butlast (mk_file_nm p t tree n))"
proof -
  have calls: "call_paths (f_mkdir_all F) (file_parents p t [th_src t, th_dest t]) s = (s', None)"
    using assms(3,4) new_thread_trees [OF assms(1)] by (simp add: make_all_subdirs_def split: if_splits)
  have "tree \<in> set [th_src t, th_dest t]" "length tree = 1" using assms(8) new_thread_trees [OF assms(1)] by auto
  then have "butlast (mk_file_nm p t tree n) \<in> set (file_parents p t [th_src t, th_dest t])"
    by (rule file_parent_listed [OF assms(1,7,2)])
  then show ?thesis using call_paths_made [where is_dir = is_dir, OF assms(5,6) calls] by blast
qed

theorem every_file_has_a_directory_witness:
  "butlast (mk_file_nm demo_params demo_thread (th_dest demo_thread) 2) \<in>
     set (d_dirs (io_kern (fst (make_all_subdirs demo_fs demo_params demo_thread demo_io))))"
proof -
  have made: "make_all_subdirs demo_fs demo_params demo_thread demo_io =
      (fst (make_all_subdirs demo_fs demo_params demo_thread demo_io), None)"
  proof -
    have "snd (call_paths (f_mkdir_all demo_fs) ds s) = None" for ds s
      by (induction ds arbitrary: s) (simp_all add: also_then_def call_def demo_fs_def)
    then show ?thesis by (simp add: make_all_subdirs_def demo_params_def prod_eq_iff)
  qed
  show ?thesis
    by (rule every_file_has_a_directory [where is_dir = "\<lambda>k q. q \<in> set (d_dirs k)", OF demo_new_thread _ made])
      (simp_all add: demo_params_def demo_fs_def)
qed

text \<open>with two or more directories per directory, the set-up of every thread ends: the loops that name the
  directory of a file return, for numbered and for hashed names.\<close>

theorem thread_setup_ends:
  assumes "2 \<le> s_dirs_per_dir p"
  shows "\<exists>t. new_thread p tid = Some t"
  using all_names_return [of "mk_dir_name p" "[0..<s_iterations p + s_files_per_dir p]"] mk_dir_name_returns [OF assms]
  by (auto simp: new_thread_def)

theorem thread_setup_ends_witness: "\<exists>t. new_thread demo_params 12 = Some t"
  by (rule thread_setup_ends) (simp add: demo_params_def)

text \<open>without hashing, two files of a thread are in the same directory exactly when they belong to the same
  group of as many files as a directory is to hold, so no directory gets more.\<close>

theorem directories_hold_one_group:
  assumes "2 \<le> s_dirs_per_dir p" and "\<not> s_hash p"
  shows "mk_dir_name p m = mk_dir_name p n \<longleftrightarrow> m div s_files_per_dir p = n div s_files_per_dir p"
proof
  assume same: "mk_dir_name p m = mk_dir_name p n"
  have seq: "mk_dir_name p k = mk_seq_dir_name p k" for k using assms(2) by (simp add: mk_dir_name_def)
  obtain ds where ds: "mk_seq_dir_name p m = Some ds" using mk_seq_dir_name_returns [OF assms(1)] by blast
  then have "mk_seq_dir_name p n = Some ds" using same unfolding seq by (rule trans [OF sym, rotated])
  with ds show "m div s_files_per_dir p = n div s_files_per_dir p" by (rule mk_seq_dir_name_inj)
qed (use assms(2) in \<open>simp add: mk_dir_name_def mk_seq_dir_name_def\<close>)

theorem directories_hold_one_group_witness:
  "mk_dir_name demo_params 1 \<noteq> mk_dir_name demo_params 20 \<and> mk_dir_name demo_params 20 = mk_dir_name demo_params 21"
proof -
  have d: "2 \<le> s_dirs_per_dir demo_params" "\<not> s_hash demo_params" "s_files_per_dir demo_params = 2"
    by (simp_all add: demo_params_def)
  show ?thesis unfolding directories_hold_one_group [OF d(1,2)] d(3) by simp
qed

text \<open>C26: two threads of a host, or one thread at two file numbers, never work on the same file, even when all
  threads share one directory tree.\<close>

theorem files_are_distinct:
  assumes "new_thread p i = Some t" and "new_thread p j = Some u"
    and "mk_file_nm p t (th_src t) m = mk_file_nm p u (th_src u) n"
  shows "i = j \<and> m = n"
proof -
  have "file_name p t m = file_name p u n" using assms(3) last_mk_file_nm by metis
  then show ?thesis
    using file_name_inj new_thread_trees(4) [OF assms(1)] new_thread_trees(4) [OF assms(2)] by blast
qed

theorem files_are_distinct_witness:
  "mk_file_nm demo_params demo_thread (th_src demo_thread) 1 \<noteq> mk_file_nm demo_params demo_thread (th_src demo_thread) 2"
  using files_are_distinct [OF demo_new_thread demo_new_thread, of 1 2] by auto

section \<open>Completion\<close>

text \<open>C24: an operation that ends without an error has worked on every file of its thread when there is no
  stonewall or when the remaining files are to be finished, and clean-up does so always; without a stonewall, and in
  a clean-up, all files are counted in the result.\<close>

theorem operations_cover_all_files:
  assumes "run_sf_op F p t i (fresh_pace, s) = ((g, s'), None)"
    and "\<not> s_stonewall p \<or> s_finish p \<or> s_opname p = ''cleanup''"
  shows "filenum g = s_iterations p \<and>
    (\<not> s_stonewall p \<or> s_opname p = ''cleanup'' \<longrightarrow> out_files (into_outcome g) = s_iterations p)"
  using run_sf_op_covers [OF assms] by (simp add: into_outcome_def)

theorem operations_cover_all_files_witness:
  "\<exists>g s'. run_sf_op demo_fs (demo_params\<lparr>s_opname := ''stat''\<rparr>) demo_thread 98 (fresh_pace, demo_io) = ((g, s'), None) \<and>
     out_files (into_outcome g) = 2"
proof -
  obtain g s' where run: "run_sf_op demo_fs (demo_params\<lparr>s_opname := ''stat''\<rparr>) demo_thread 98 (fresh_pace, demo_io) = ((g, s'), None)"
    by (simp add: run_sf_op_def each_file_def while_files.simps do_another_file_def saw_stonewall_def end_test_def simple_one_def
        call_def demo_fs_def demo_ok_def demo_params_def demo_io_def fresh_pace_def Let_def)
  then show ?thesis using operations_cover_all_files [OF run] by (auto simp: demo_params_def)
qed

section \<open>Swift\<close>

text \<open>the swift-put operation cannot succeed where advice about a closed descriptor is refused: it closes the
  file before it gives the advice, so the first file ends the operation with an error, and no file gets its name.\<close>

theorem swift_put_fails_on_the_first_file:
  assumes "run_sf_op F p t i (fresh_pace, s) = ((g, s'), r)" and "s_opname p = ''swift-put''"
    and "0 < s_iterations p" and "1 < i" and "\<And>k fd len. snd (f_fadvise F (f_close F k fd) fd len) \<noteq> None"
  shows "r \<noteq> None \<and> filenum g = 1"
proof -
  obtain s1 e where put: "swift_put_one F p t 1 s = (s1, Some e)" using swift_put_one_error [OF assms(5)] by blast
  have "do_another_file F p i (fresh_pace, s) = (True, fresh_pace\<lparr>filenum := 1\<rparr>, s)"
    using assms(3,4) by (simp add: do_another_file_def saw_stonewall_def fresh_pace_def)
  then have "run_sf_op F p t i (fresh_pace, s) = ((fresh_pace\<lparr>filenum := 1\<rparr>, s1), Some e)"
    using put by (simp add: run_sf_op_def Let_def assms(2) each_file_def while_files.simps)
  then show ?thesis using assms(1) by auto
qed

theorem swift_put_fails_on_the_first_file_witness:
  "filenum (fst (fst (run_sf_op demo_fs (demo_params\<lparr>s_opname := ''swift-put''\<rparr>) demo_thread 98 (fresh_pace, demo_io)))) = 1"
proof -
  obtain g s' r where run: "run_sf_op demo_fs (demo_params\<lparr>s_opname := ''swift-put''\<rparr>) demo_thread 98 (fresh_pace, demo_io) = ((g, s'), r)"
    by (metis prod.collapse)
  have "r \<noteq> None \<and> filenum g = 1"
    by (rule swift_put_fails_on_the_first_file [OF run]) (simp_all add: demo_params_def demo_fs_def)
  then show ?thesis by (simp add: run)
qed

end
