(* ===== verification/Fsmark.thy ===== *)
theory Fsmark
  imports Mdtest
begin

unbundle bit_operations_syntax

text \<open>
  The file-creation workload fsmark (src/src/fsmark.rs): the options and their resolution, the statistics of
  system-call times, the names of files, one thread, and the loop over the iterations. The file system and the
  clock are a parameter: every timed call returns its duration in microseconds. A panic, and a loop that does
  not return, are the value None. Rates are floating-point numbers, which the model leaves to a parameter.
\<close>

section \<open>Options\<close>

definition MAX_FILES :: nat where "MAX_FILES = 1000000"
definition MAX_THREADS :: nat where "MAX_THREADS = 64"
definition MAX_IO_BUFFER_SIZE :: nat where "MAX_IO_BUFFER_SIZE = 1024 * 1024"
definition MAX_NAME_PATH :: nat where "MAX_NAME_PATH = 1000"
definition MAX_FILENAME_SIZE :: nat where "MAX_FILENAME_SIZE = 128"
definition DEFAULT_SECS_PER_DIR :: nat where "DEFAULT_SECS_PER_DIR = 180"

definition FSYNC_BEFORE_CLOSE :: u32 where "FSYNC_BEFORE_CLOSE = 0x1"
definition FSYNC_SYNC_SYSCALL :: u32 where "FSYNC_SYNC_SYSCALL = 0x2"
definition FSYNC_FIRST_FILE :: u32 where "FSYNC_FIRST_FILE = 0x4"
definition FSYNC_POST_REVERSE :: u32 where "FSYNC_POST_REVERSE = 0x8"
definition FSYNC_POST_IN_ORDER :: u32 where "FSYNC_POST_IN_ORDER = 0x10"

definition sync_method_bits :: "nat \<Rightarrow> u32 option" where
  "sync_method_bits t =
     (if t = 0 then Some 0
      else if t = 1 then Some FSYNC_BEFORE_CLOSE
      else if t = 2 then Some (FSYNC_SYNC_SYSCALL OR FSYNC_FIRST_FILE)
      else if t = 3 then Some FSYNC_POST_REVERSE
      else if t = 4 then Some (FSYNC_POST_REVERSE OR FSYNC_SYNC_SYSCALL)
      else if t = 5 then Some FSYNC_POST_IN_ORDER
      else if t = 6 then Some (FSYNC_POST_IN_ORDER OR FSYNC_SYNC_SYSCALL)
      else None)"

definition sync_method_parser :: "string \<Rightarrow> nat option" where
  "sync_method_parser s = do { v \<leftarrow> parse_uint (2 ^ 32) 10 s; if 6 < v then None else Some v }"

datatype dir_policy = NoSubdirs | RoundRobin | TimeHash

record fm_args =
  fa_dir :: "string list"
  fa_files :: nat
  fa_file_size :: nat
  fa_write_size :: nat
  fa_iterations :: nat
  fa_sync_method :: nat
  fa_subdirs :: "nat option"
  fa_files_per_subdir :: "nat option"
  fa_name_len :: nat
  fa_rand_len :: nat
  fa_threads :: nat
  fa_keep_files :: bool
  fa_fill_fs :: bool

record fm_params =
  fm_dirs :: "string list"
  fm_threads :: nat
  fm_num_files :: nat
  fm_file_size :: nat
  fm_io_size :: nat
  fm_loop_count :: nat
  fm_sync_bits :: u32
  fm_policy :: dir_policy
  fm_num_subdirs :: nat
  fm_num_per_subdir :: nat
  fm_secs_per_dir :: nat
  fm_name_len :: nat
  fm_rand_len :: nat
  fm_keep_files :: bool
  fm_fill_fs :: bool

datatype fm_error =
  TooManyDirs
| PathTooLong string
| MaxFiles
| MaxBuffer
| MaxFilename
| RandomTooLong
| FewSubdirs
| NeedsSubdirs
| MaxThreads
| UnevenThreads nat nat

text \<open>The sync method is one that its parser accepts, so it has bits.\<close>

definition method_bits :: "nat \<Rightarrow> u32" where
  "method_bits t = (case sync_method_bits t of Some b \<Rightarrow> b | None \<Rightarrow> 0)"

definition fm_subdirs :: "fm_args \<Rightarrow> fm_error + (dir_policy \<times> nat \<times> nat)" where
  "fm_subdirs a =
     (case fa_subdirs a of
        Some n \<Rightarrow>
          (if n < 2 then Inl FewSubdirs
           else case fa_files_per_subdir a of Some m \<Rightarrow> Inr (RoundRobin, n, m) | None \<Rightarrow> Inr (TimeHash, n, 0))
      | None \<Rightarrow> (case fa_files_per_subdir a of Some m \<Rightarrow> Inl NeedsSubdirs | None \<Rightarrow> Inr (NoSubdirs, 0, 0)))"

definition fm_thread_count :: "nat \<Rightarrow> nat \<Rightarrow> fm_error + nat" where
  "fm_thread_count threads num_dirs =
     (if threads = 0 \<or> MAX_THREADS < threads then Inl MaxThreads
      else if threads < num_dirs then Inr num_dirs
      else if threads mod num_dirs \<noteq> 0 then Inl (UnevenThreads threads num_dirs)
      else Inr threads)"

definition fm_resolve :: "fm_args \<Rightarrow> string \<Rightarrow> fm_error + fm_params" where
  "fm_resolve a mountpoint =
     (let dirs = mountpoint # fa_dir a
      in if MAX_THREADS < length dirs then Inl TooManyDirs
         else case find (\<lambda>d. MAX_NAME_PATH \<le> length d) dirs of
           Some d \<Rightarrow> Inl (PathTooLong d)
         | None \<Rightarrow>
         if fa_files a = 0 \<or> MAX_FILES < fa_files a then Inl MaxFiles
         else if fa_write_size a = 0 \<or> MAX_IO_BUFFER_SIZE < fa_write_size a then Inl MaxBuffer
         else if MAX_FILENAME_SIZE < fa_name_len a then Inl MaxFilename
         else if fa_name_len a \<le> fa_rand_len a then Inl RandomTooLong
         else case fm_subdirs a of
           Inl e \<Rightarrow> Inl e
         | Inr (policy, subdirs, per) \<Rightarrow>
         (case fm_thread_count (fa_threads a) (length dirs) of
            Inl e \<Rightarrow> Inl e
          | Inr threads \<Rightarrow>
              Inr \<lparr>fm_dirs = dirs, fm_threads = threads, fm_num_files = fa_files a, fm_file_size = fa_file_size a,
                fm_io_size = fa_write_size a, fm_loop_count = fa_iterations a, fm_sync_bits = method_bits (fa_sync_method a), fm_policy = policy,
                fm_num_subdirs = subdirs, fm_num_per_subdir = per, fm_secs_per_dir = DEFAULT_SECS_PER_DIR,
                fm_name_len = fa_name_len a, fm_rand_len = fa_rand_len a,
                fm_keep_files = (fa_keep_files a \<or> 0 < fa_iterations a \<or> fa_fill_fs a), fm_fill_fs = fa_fill_fs a\<rparr>))"

section \<open>Statistics\<close>

text \<open>A minimum of 0 means that there is none.\<close>

record fm_stat =
  st_min :: nat
  st_max :: nat
  st_total :: nat

definition zero_stat :: fm_stat where
  "zero_stat = \<lparr>st_min = 0, st_max = 0, st_total = 0\<rparr>"

definition stat_add :: "nat \<Rightarrow> fm_stat \<Rightarrow> fm_stat" where
  "stat_add v s =
     \<lparr>st_min = (if st_min s = 0 \<or> v < st_min s then v else st_min s),
      st_max = (if st_max s < v then v else st_max s), st_total = st_total s + v\<rparr>"

definition stat_merge :: "fm_stat \<Rightarrow> fm_stat \<Rightarrow> fm_stat" where
  "stat_merge s o2 =
     \<lparr>st_min = (if st_min s = 0 \<or> (0 < st_min o2 \<and> st_min o2 < st_min s) then st_min o2 else st_min s),
      st_max = (if st_max s < st_max o2 then st_max o2 else st_max s), st_total = st_total s + st_total o2\<rparr>"

record fm_row =
  r_file_count :: nat
  r_overhead :: int
  r_creat :: fm_stat
  r_write :: fm_stat
  r_write_avg :: nat
  r_fsync :: fm_stat
  r_sync :: nat
  r_close :: fm_stat
  r_unlink :: fm_stat

definition zero_row :: fm_row where
  "zero_row =
     \<lparr>r_file_count = 0, r_overhead = 0, r_creat = zero_stat, r_write = zero_stat, r_write_avg = 0, r_fsync = zero_stat,
      r_sync = 0, r_close = zero_stat, r_unlink = zero_stat\<rparr>"

end
