(* ===== verification/Fsmark_Run.thy ===== *)
theory Fsmark_Run
  imports Fsmark
begin

text \<open>
  One thread of fsmark (src/src/fsmark.rs) and the loop over the iterations. A call of the file system gives
  a new state; the clock is one of the calls. The threads of an iteration run one after the other here, over
  a state that also stands for what the others do meanwhile.
\<close>

section \<open>The file system and the clock\<close>

datatype fm_io = AlreadyExists | IoError nat

datatype run_err = SpaceFull string | Io fm_io

record 'k fm_ops =
  fo_secs :: "'k \<Rightarrow> 'k \<times> nat"
  fo_nanos :: "'k \<Rightarrow> 'k \<times> nat"
  fo_now :: "'k \<Rightarrow> 'k \<times> nat"
  fo_mkdir :: "'k \<Rightarrow> string \<Rightarrow> 'k \<times> fm_io option"
  fo_statfs :: "'k \<Rightarrow> string \<Rightarrow> 'k \<times> (fm_io + nat \<times> nat \<times> nat)"
  fo_create :: "'k \<Rightarrow> string \<Rightarrow> 'k \<times> (fm_io + nat)"
  fo_write :: "'k \<Rightarrow> nat \<Rightarrow> nat \<Rightarrow> 'k \<times> fm_io option"
  fo_fsync :: "'k \<Rightarrow> nat \<Rightarrow> 'k \<times> fm_io option"
  fo_close :: "'k \<Rightarrow> nat \<Rightarrow> 'k"
  fo_sync :: "'k \<Rightarrow> 'k"
  fo_open :: "'k \<Rightarrow> string \<Rightarrow> 'k \<times> (fm_io + nat)"
  fo_unlink :: "'k \<Rightarrow> string \<Rightarrow> 'k \<times> fm_io option"

type_synonym ('k, 'a) fm_result = "'k \<times> (run_err + 'a)"

definition fm_bind :: "('k, 'a) fm_result \<Rightarrow> ('k \<Rightarrow> 'a \<Rightarrow> ('k, 'b) fm_result) \<Rightarrow> ('k, 'b) fm_result" where
  "fm_bind r f = (case r of (k, Inl e) \<Rightarrow> (k, Inl e) | (k, Inr a) \<Rightarrow> f k a)"

definition fm_call :: "'k \<times> fm_io option \<Rightarrow> ('k, unit) fm_result" where
  "fm_call r = (case r of (k, None) \<Rightarrow> (k, Inr ()) | (k, Some e) \<Rightarrow> (k, Inl (Io e)))"

definition fm_value :: "'k \<times> (fm_io + 'a) \<Rightarrow> ('k, 'a) fm_result" where
  "fm_value r = (case r of (k, Inr a) \<Rightarrow> (k, Inr a) | (k, Inl e) \<Rightarrow> (k, Inl (Io e)))"

text \<open>A computation with its duration in whole microseconds; the clock counts nanoseconds and does not go back.\<close>

definition timed :: "'k fm_ops \<Rightarrow> ('k \<Rightarrow> ('k, 'a) fm_result) \<Rightarrow> 'k \<Rightarrow> ('k, 'a \<times> nat) fm_result" where
  "timed F f k =
     (let (k, t0) = fo_now F k
      in fm_bind (f k) (\<lambda>k a. let (k, t1) = fo_now F k in (k, Inr (a, (t1 - t0) div 1000))))"

definition mkdir_eexist :: "'k fm_ops \<Rightarrow> string \<Rightarrow> 'k \<Rightarrow> ('k, unit) fm_result" where
  "mkdir_eexist F d k =
     (case fo_mkdir F k d of (k, Some AlreadyExists) \<Rightarrow> (k, Inr ()) | r \<Rightarrow> fm_call r)"

text \<open>Products of u64 panic when they overflow, like divisions by zero.\<close>

definition rmul :: "nat \<Rightarrow> nat \<Rightarrow> nat option" where
  "rmul a b = (if a * b < 2 ^ 64 then Some (a * b) else None)"

definition fs_use_pct :: "nat \<times> nat \<times> nat \<Rightarrow> nat option" where
  "fs_use_pct v = (case v of (blocks, bavail, bsize) \<Rightarrow> do {
     used \<leftarrow> rsub blocks bavail;
     n \<leftarrow> rmul 100 used;
     if blocks = 0 then None else Some (n div blocks)
   })"

section \<open>Names\<close>

record fm_state =
  t_dir :: string
  t_rng :: u64
  t_subdir :: nat
  t_start_sec :: nat
  t_in_subdir :: nat

definition fm_next_rand :: "u64 \<Rightarrow> u64 \<times> u64" where
  "fm_next_rand st = (st + GOLDEN, splitmix (st + GOLDEN))"

text \<open>A character is drawn until it is a capital letter or a digit.\<close>

definition name_char :: "u64 \<Rightarrow> nat" where
  "name_char v = 48 + unat (v AND 0x7F)"

definition name_char_ok :: "nat \<Rightarrow> bool" where
  "name_char_ok c \<longleftrightarrow> (65 \<le> c \<and> c \<le> 90) \<or> (48 \<le> c \<and> c \<le> 57)"

partial_function (option) rand_char :: "u64 \<Rightarrow> (u64 \<times> char) option" where
  "rand_char st =
     (case fm_next_rand st of
        (st, v) \<Rightarrow> if name_char_ok (name_char v) then Some (st, char_of (name_char v)) else rand_char st)"

declare rand_char.simps [code]

fun rand_chars :: "nat \<Rightarrow> u64 \<Rightarrow> (u64 \<times> string) option" where
  "rand_chars 0 st = Some (st, [])"
| "rand_chars (Suc n) st = do { (st, c) \<leftarrow> rand_char st; (st, cs) \<leftarrow> rand_chars n st; Some (st, c # cs) }"

definition hex02 :: "nat \<Rightarrow> string" where
  "hex02 n = (let s = hex_str n in replicate (2 - length s) (CHR ''0'') @ s)"

text \<open>The last digits of the time, or all of them filled up.\<close>

definition seq_part :: "nat \<Rightarrow> nat \<Rightarrow> string" where
  "seq_part n sec =
     (let s = hex_str sec in if n < length s then drop (length s - n) s else s @ replicate (n - length s) (CHR ''~''))"

definition choose_subdir :: "fm_params \<Rightarrow> nat \<Rightarrow> fm_state \<Rightarrow> (fm_state \<times> string) option" where
  "choose_subdir p sec st =
     (let st = (if t_start_sec st = 0 then st\<lparr>t_start_sec := sec\<rparr> else st)
      in case fm_policy p of
           NoSubdirs \<Rightarrow> Some (st, [])
         | RoundRobin \<Rightarrow> do {
             let st = (if fm_num_per_subdir p \<le> t_in_subdir st then st\<lparr>t_subdir := t_subdir st + 1, t_in_subdir := 0\<rparr> else st);
             d \<leftarrow> rmod (t_subdir st) (fm_num_subdirs p);
             Some (st\<lparr>t_subdir := d, t_in_subdir := t_in_subdir st + 1\<rparr>, hex02 d)
           }
         | TimeHash \<Rightarrow> do {
             past \<leftarrow> rsub sec (t_start_sec st);
             d \<leftarrow> (if fm_secs_per_dir p < past then rmod (t_subdir st + 1) (fm_num_subdirs p) else Some (t_subdir st));
             Some (if fm_secs_per_dir p < past then st\<lparr>t_subdir := d, t_start_sec := sec\<rparr> else st, hex02 d)
           })"

text \<open>The target directory is made before the name is put together.\<close>

definition setup_file_name :: "'k fm_ops \<Rightarrow> fm_params \<Rightarrow> fm_state \<Rightarrow> 'k \<Rightarrow> ('k, fm_state \<times> string) fm_result option" where
  "setup_file_name F p st k =
     (let (k, sec) = fo_secs F k
      in do {
        (st, sub) \<leftarrow> choose_subdir p sec st;
        let target = t_dir st @ ''/'' @ sub;
        case mkdir_eexist F target k of
          (k, Inl e) \<Rightarrow> Some (k, Inl e)
        | (k, Inr u) \<Rightarrow> do {
            (rng, cs) \<leftarrow> rand_chars (fm_rand_len p) (t_rng st);
            Some (k, Inr (st\<lparr>t_rng := rng\<rparr>,
              target @ (if sub = [] then [] else ''/'') @ seq_part (fm_name_len p - fm_rand_len p) sec @ cs))
          }
      })"

section \<open>A file\<close>

text \<open>The writes of a file: the times of the calls, their number and their sum.\<close>

function fm_write_loop :: "'k fm_ops \<Rightarrow> nat \<Rightarrow> nat \<Rightarrow> nat \<Rightarrow> nat \<Rightarrow> nat \<Rightarrow> fm_stat \<Rightarrow> 'k \<Rightarrow> ('k, fm_stat \<times> nat \<times> nat) fm_result" where
  "fm_write_loop F io fd left calls spent w k =
     (if 0 < left \<and> 0 < io then
        fm_bind (timed F (\<lambda>k. fm_call (fo_write F k fd (min io left))) k) (\<lambda>k (u, d).
          fm_write_loop F io fd (left - min io left) (calls + 1) (spent + d) (stat_add d w) k)
      else (k, Inr (w, calls, spent)))"
  by pat_completeness auto
termination
  by (relation "measure (\<lambda>(F, io, fd, left, calls, spent, w, k). left)") auto

declare fm_write_loop.simps [simp del]

definition fm_write_file :: "'k fm_ops \<Rightarrow> fm_params \<Rightarrow> nat \<Rightarrow> fm_row \<Rightarrow> 'k \<Rightarrow> ('k, fm_row) fm_result" where
  "fm_write_file F p fd row k =
     fm_bind (fm_write_loop F (fm_io_size p) fd (fm_file_size p) 0 0 (r_write row) k) (\<lambda>k (w, calls, spent).
       (k, Inr (row\<lparr>r_write := w, r_write_avg := r_write_avg row + spent div max calls 1\<rparr>)))"

definition bit_set :: "u32 \<Rightarrow> u32 \<Rightarrow> bool" where
  "bit_set bits b \<longleftrightarrow> bits AND b \<noteq> 0"

text \<open>A file whose write or flush fails is closed as well, without being timed.\<close>

definition fill_and_flush :: "'k fm_ops \<Rightarrow> fm_params \<Rightarrow> nat \<Rightarrow> fm_row \<Rightarrow> 'k \<Rightarrow> ('k, fm_row) fm_result" where
  "fill_and_flush F p fd row k =
     fm_bind (fm_write_file F p fd row k) (\<lambda>k row.
       if bit_set (fm_sync_bits p) FSYNC_BEFORE_CLOSE
       then fm_bind (timed F (\<lambda>k. fm_call (fo_fsync F k fd)) k) (\<lambda>k (u, d).
              (k, Inr (row\<lparr>r_fsync := stat_add d (r_fsync row)\<rparr>)))
       else (k, Inr row))"

definition create_and_write :: "'k fm_ops \<Rightarrow> fm_params \<Rightarrow> string \<Rightarrow> fm_row \<Rightarrow> 'k \<Rightarrow> ('k, fm_row) fm_result" where
  "create_and_write F p q row k =
     fm_bind (timed F (\<lambda>k. fm_value (fo_create F k q)) k) (\<lambda>k (fd, d).
       case fill_and_flush F p fd (row\<lparr>r_creat := stat_add d (r_creat row)\<rparr>) k of
         (k, Inl e) \<Rightarrow> (fo_close F k fd, Inl e)
       | (k, Inr row) \<Rightarrow>
           fm_bind (timed F (\<lambda>k. (fo_close F k fd, Inr ())) k) (\<lambda>k (u, d).
             (k, Inr (row\<lparr>r_close := stat_add d (r_close row)\<rparr>))))"

fun create_files ::
  "'k fm_ops \<Rightarrow> fm_params \<Rightarrow> nat \<Rightarrow> fm_state \<Rightarrow> fm_row \<Rightarrow> string list \<Rightarrow> 'k \<Rightarrow> ('k, fm_row \<times> string list) fm_result option" where
  "create_files F p 0 st row names k = Some (k, Inr (row, names))"
| "create_files F p (Suc n) st row names k =
     (case setup_file_name F p st k of
        None \<Rightarrow> None
      | Some (k, Inl e) \<Rightarrow> Some (k, Inl e)
      | Some (k, Inr (st, q)) \<Rightarrow>
          (case create_and_write F p q row k of
             (k, Inl e) \<Rightarrow> Some (k, Inl e)
           | (k, Inr row) \<Rightarrow> create_files F p n st row (names @ [q]) k))"

section \<open>After the files\<close>

text \<open>A file is opened again, flushed and closed; it is closed when the flush fails.\<close>

definition reopen_fsync :: "'k fm_ops \<Rightarrow> string \<Rightarrow> 'k \<Rightarrow> ('k, unit) fm_result" where
  "reopen_fsync F q k =
     fm_bind (fm_value (fo_open F k q)) (\<lambda>k fd.
       case fm_call (fo_fsync F k fd) of (k, r) \<Rightarrow> (fo_close F k fd, r))"

fun post_fsyncs :: "'k fm_ops \<Rightarrow> string list \<Rightarrow> fm_row \<Rightarrow> 'k \<Rightarrow> ('k, fm_row) fm_result" where
  "post_fsyncs F [] row k = (k, Inr row)"
| "post_fsyncs F (q # qs) row k =
     fm_bind (timed F (reopen_fsync F q) k) (\<lambda>k (u, d).
       post_fsyncs F qs (row\<lparr>r_fsync := stat_add d (r_fsync row)\<rparr>) k)"

definition sync_all :: "'k fm_ops \<Rightarrow> fm_params \<Rightarrow> fm_row \<Rightarrow> 'k \<Rightarrow> ('k, fm_row) fm_result" where
  "sync_all F p row k =
     (if bit_set (fm_sync_bits p) FSYNC_SYNC_SYSCALL
      then fm_bind (timed F (\<lambda>k. (fo_sync F k, Inr ())) k) (\<lambda>k (u, d). (k, Inr (row\<lparr>r_sync := d\<rparr>)))
      else (k, Inr row))"

text \<open>The flush of the first file counts only in the total.\<close>

definition sync_after :: "'k fm_ops \<Rightarrow> fm_params \<Rightarrow> string list \<Rightarrow> fm_row \<Rightarrow> 'k \<Rightarrow> ('k, fm_row) fm_result" where
  "sync_after F p names row k =
     fm_bind (sync_all F p row k) (\<lambda>k row.
     fm_bind (if bit_set (fm_sync_bits p) FSYNC_POST_IN_ORDER then post_fsyncs F names row k else (k, Inr row)) (\<lambda>k row.
     fm_bind (if bit_set (fm_sync_bits p) FSYNC_POST_REVERSE then post_fsyncs F (rev names) row k else (k, Inr row)) (\<lambda>k row.
     if bit_set (fm_sync_bits p) FSYNC_FIRST_FILE
     then fm_bind (timed F (reopen_fsync F (hd names)) k) (\<lambda>k (u, d).
            (k, Inr (row\<lparr>r_fsync := (r_fsync row)\<lparr>st_total := st_total (r_fsync row) + d\<rparr>\<rparr>)))
     else (k, Inr row))))"

fun unlink_all :: "'k fm_ops \<Rightarrow> string list \<Rightarrow> fm_row \<Rightarrow> 'k \<Rightarrow> ('k, fm_row) fm_result" where
  "unlink_all F [] row k = (k, Inr row)"
| "unlink_all F (q # qs) row k =
     fm_bind (timed F (\<lambda>k. fm_call (fo_unlink F k q)) k) (\<lambda>k (u, d).
       unlink_all F qs (row\<lparr>r_unlink := stat_add d (r_unlink row)\<rparr>) k)"

section \<open>A thread\<close>

definition total_ops :: "fm_row \<Rightarrow> nat" where
  "total_ops row = st_total (r_creat row) + st_total (r_write row) + st_total (r_fsync row) + r_sync row + st_total (r_close row)"

definition new_state :: "'k fm_ops \<Rightarrow> fm_params \<Rightarrow> nat \<Rightarrow> string \<Rightarrow> 'k \<Rightarrow> fm_state \<times> 'k" where
  "new_state F p index dir k =
     (let (k, nanos) = fo_nanos F k; (k, sec) = fo_secs F k
      in (\<lparr>t_dir = dir, t_rng = of_nat nanos XOR (of_nat index * GOLDEN), t_subdir = sec mod max (fm_num_subdirs p) 1,
           t_start_sec = 0, t_in_subdir = 0\<rparr>, k))"

text \<open>The measured part, and the removal of the files behind it.\<close>

definition fm_measure ::
  "'k fm_ops \<Rightarrow> fm_params \<Rightarrow> fm_state \<Rightarrow> 'k \<Rightarrow> ('k, fm_row \<times> string list) fm_result option" where
  "fm_measure F p st k =
     (let (k, t0) = fo_now F k
      in case create_files F p (fm_num_files p) st zero_row [] k of
           None \<Rightarrow> None
         | Some r \<Rightarrow> Some (fm_bind r (\<lambda>k (row, names).
             fm_bind (sync_after F p names row k) (\<lambda>k row.
               let (k, t1) = fo_now F k
               in (k, Inr (row\<lparr>r_overhead := int ((t1 - t0) div 1000) - int (total_ops row)\<rparr>, names))))))"

definition fm_run_thread :: "'k fm_ops \<Rightarrow> fm_params \<Rightarrow> nat \<Rightarrow> 'k \<Rightarrow> ('k, fm_row) fm_result option" where
  "fm_run_thread F p index k = do {
     let dir = fm_dirs p ! (index mod length (fm_dirs p));
     case mkdir_eexist F dir k of
       (k, Inl e) \<Rightarrow> Some (k, Inl e)
     | (k, Inr u) \<Rightarrow> do {
         need \<leftarrow> rmul (fm_file_size p) (fm_num_files p);
         case fm_value (fo_statfs F k dir) of
           (k, Inl e) \<Rightarrow> Some (k, Inl e)
         | (k, Inr (blocks, bavail, bsize)) \<Rightarrow> do {
             free \<leftarrow> rmul bavail bsize;
             if free < need then Some (k, Inl (SpaceFull dir))
             else (let (st, k) = new_state F p index dir k
               in case fm_measure F p st k of
                    None \<Rightarrow> None
                  | Some r \<Rightarrow> Some (fm_bind r (\<lambda>k (row, names).
                      fm_bind (if fm_keep_files p then (k, Inr row) else unlink_all F names row k) (\<lambda>k row.
                        (k, Inr (row\<lparr>r_file_count := fm_num_files p\<rparr>))))))
           }
       }
   }"

section \<open>The iterations\<close>

record fm_agg =
  a_count :: nat
  a_overhead :: int
  a_creat :: fm_stat
  a_write :: fm_stat
  a_write_avg :: nat
  a_fsync :: fm_stat
  a_sync :: nat
  a_close :: fm_stat
  a_unlink :: fm_stat

definition zero_agg :: fm_agg where
  "zero_agg =
     \<lparr>a_count = 0, a_overhead = 0, a_creat = zero_stat, a_write = zero_stat, a_write_avg = 0, a_fsync = zero_stat,
      a_sync = 0, a_close = zero_stat, a_unlink = zero_stat\<rparr>"

definition agg_row :: "fm_row \<Rightarrow> fm_agg \<Rightarrow> fm_agg" where
  "agg_row r a =
     \<lparr>a_count = a_count a + r_file_count r, a_overhead = a_overhead a + r_overhead r,
      a_creat = stat_merge (a_creat a) (r_creat r), a_write = stat_merge (a_write a) (r_write r),
      a_write_avg = a_write_avg a + r_write_avg r, a_fsync = stat_merge (a_fsync a) (r_fsync r),
      a_sync = a_sync a + r_sync r, a_close = stat_merge (a_close a) (r_close r),
      a_unlink = stat_merge (a_unlink a) (r_unlink r)\<rparr>"

definition aggregate :: "fm_row list \<Rightarrow> nat \<Rightarrow> fm_agg" where
  "aggregate rows threads =
     (let a = fold agg_row rows zero_agg
      in if 1 < threads then a\<lparr>a_write_avg := a_write_avg a div threads\<rparr> else a)"

record fm_report =
  files_written :: nat
  rates :: "nat list"
  iteration_aggs :: "fm_agg list"
  failed :: bool
  fs_full :: bool
  loops_done :: nat

definition no_report :: fm_report where
  "no_report = \<lparr>files_written = 0, rates = [], iteration_aggs = [], failed = False, fs_full = False, loops_done = 0\<rparr>"

fun run_threads :: "'k fm_ops \<Rightarrow> fm_params \<Rightarrow> nat list \<Rightarrow> 'k \<Rightarrow> ('k \<times> (run_err + fm_row) list) option" where
  "run_threads F p [] k = Some (k, [])"
| "run_threads F p (i # is') k = do {
     (k, r) \<leftarrow> fm_run_thread F p i k;
     (k, rs) \<leftarrow> run_threads F p is' k;
     Some (k, r # rs)
   }"

definition rows_of :: "(run_err + fm_row) list \<Rightarrow> fm_row list" where
  "rows_of rs = concat (map (\<lambda>r. case r of Inr row \<Rightarrow> [row] | Inl e \<Rightarrow> []) rs)"

definition note_errors :: "(run_err + fm_row) list \<Rightarrow> fm_report \<Rightarrow> fm_report" where
  "note_errors rs rep =
     rep\<lparr>fs_full := fs_full rep \<or> (\<exists>r\<in>set rs. case r of Inl (SpaceFull d) \<Rightarrow> True | _ \<Rightarrow> False),
         failed := failed rep \<or> (\<exists>r\<in>set rs. case r of Inl (Io e) \<Rightarrow> True | _ \<Rightarrow> False)\<rparr>"

text \<open>The use of the file system is 0 when it cannot be asked for; its computation may panic.\<close>

definition use_pct :: "'k fm_ops \<Rightarrow> fm_params \<Rightarrow> 'k \<Rightarrow> ('k \<times> nat) option" where
  "use_pct F p k =
     (case fo_statfs F k (hd (fm_dirs p)) of
        (k, Inl e) \<Rightarrow> Some (k, 0)
      | (k, Inr v) \<Rightarrow> map_option (Pair k) (fs_use_pct v))"

definition count_iteration :: "(fm_row list \<Rightarrow> nat) \<Rightarrow> fm_params \<Rightarrow> fm_row list \<Rightarrow> fm_report \<Rightarrow> fm_report" where
  "count_iteration rate p rows rep =
     (let a = aggregate rows (fm_threads p)
      in rep\<lparr>files_written := files_written rep + a_count a, rates := rates rep @ [rate rows],
             iteration_aggs := iteration_aggs rep @ [a], loops_done := loops_done rep + 1\<rparr>)"

definition fm_stop :: "fm_params \<Rightarrow> fm_report \<Rightarrow> bool" where
  "fm_stop p rep \<longleftrightarrow> fs_full rep \<or> failed rep \<or> \<not> (fm_fill_fs p \<or> loops_done rep < fm_loop_count p)"

partial_function (option) fm_loop ::
  "'k fm_ops \<Rightarrow> (fm_row list \<Rightarrow> nat) \<Rightarrow> fm_params \<Rightarrow> fm_report \<Rightarrow> 'k \<Rightarrow> ('k \<times> fm_report) option" where
  "fm_loop F rate p rep k = do {
     (k, rs) \<leftarrow> run_threads F p [0..<fm_threads p] k;
     let rep = note_errors rs rep;
     if rows_of rs = [] then Some (k, rep)
     else do {
       (k, pct) \<leftarrow> use_pct F p k;
       let rep = count_iteration rate p (rows_of rs) rep;
       if fm_stop p rep then Some (k, rep) else fm_loop F rate p rep k
     }
   }"

definition fm_run :: "'k fm_ops \<Rightarrow> (fm_row list \<Rightarrow> nat) \<Rightarrow> fm_params \<Rightarrow> 'k \<Rightarrow> ('k \<times> fm_report) option" where
  "fm_run F rate p k = fm_loop F rate p no_report k"

text \<open>The percentiles of the rates: the list in descending order, and its element at an index or the last one.\<close>

definition pick_rate :: "nat list \<Rightarrow> nat \<Rightarrow> nat" where
  "pick_rate rs f = rev (sort rs) ! min f (length rs - 1)"

definition percentiles :: "nat list \<Rightarrow> nat \<times> nat \<times> nat" where
  "percentiles rs =
     (if rs = [] then (0, 0, 0)
      else (let n = length rs in (pick_rate rs (n div 2), pick_rate rs (n * 9 div 10), pick_rate rs (n * 99 div 100))))"

end
