(* ===== verification/Fsmark_Names.thy ===== *)
theory Fsmark_Names
  imports Fsmark_Run
begin

text \<open>
  The file names of fsmark: the generator of random characters visits every 64-bit value, because its
  increment is odd, so the loop that draws until a character is acceptable ends from every state; the
  name has the length asked for; and the round-robin policy gives every subdirectory the same number of files
  in turn.
\<close>

section \<open>Random characters\<close>

lemma GOLDEN_inverse: "0xF1DE83E19937733D * GOLDEN = 1"
  by (simp add: GOLDEN_def)

lemma rand_char_zero: "fm_next_rand st = (0, v) \<Longrightarrow> name_char_ok (name_char v)"
  by (auto simp: fm_next_rand_def splitmix_def name_char_def name_char_ok_def Let_def)

lemma rand_char_steps: "st + of_nat (Suc n) * GOLDEN = 0 \<Longrightarrow> \<exists>r. rand_char st = Some r"
proof (induction n arbitrary: st)
  case 0
  obtain v where v: "fm_next_rand st = (0, v)" using 0 by (simp add: fm_next_rand_def)
  then show ?case using rand_char_zero [OF v] by (simp add: rand_char.simps [of st])
next
  case (Suc n)
  obtain v where v: "fm_next_rand st = (st + GOLDEN, v)" by (simp add: fm_next_rand_def)
  have "st + GOLDEN + of_nat (Suc n) * GOLDEN = 0" using Suc.prems by (simp add: algebra_simps)
  then show ?case using Suc.IH [of "st + GOLDEN"] v by (simp add: rand_char.simps [of st])
qed

lemma rand_char_returns: "\<exists>r. rand_char st = Some r"
proof -
  define x where "x = - st * 0xF1DE83E19937733D"
  have "x * GOLDEN = - st * (0xF1DE83E19937733D * GOLDEN)" by (simp only: x_def mult.assoc)
  then have x: "x * GOLDEN = - st" unfolding GOLDEN_inverse by simp
  have "of_nat (Suc (unat (x - 1))) = x" by simp
  then have "st + of_nat (Suc (unat (x - 1))) * GOLDEN = 0" by (simp only: x) simp
  then show ?thesis by (rule rand_char_steps)
qed

lemma name_char_less: "name_char v < 256"
proof -
  have "v AND 0x7F \<le> 0x7F" by (rule word_and_le1)
  then have "unat (v AND 0x7F) \<le> 127" by (simp add: word_le_nat_alt)
  then show ?thesis by (simp add: name_char_def)
qed

lemma rand_char_ok: "rand_char st = Some r \<Longrightarrow> name_char_ok (ord (snd r))"
proof (rule rand_char.raw_induct [where P = "\<lambda>st r. name_char_ok (ord (snd r))"])
  fix rec :: "u64 \<Rightarrow> (u64 \<times> char) option" and st r
  assume IH: "\<And>st r. rec st = Some r \<Longrightarrow> name_char_ok (ord (snd r))"
    and body: "(case fm_next_rand st of (st, v) \<Rightarrow>
      if name_char_ok (name_char v) then Some (st, char_of (name_char v)) else rec st) = Some r"
  obtain st' v where v: "fm_next_rand st = (st', v)" by (cases "fm_next_rand st")
  show "name_char_ok (ord (snd r))"
  proof (cases "name_char_ok (name_char v)")
    case True
    then have "r = (st', char_of (name_char v))" using body v by simp
    then show ?thesis using True name_char_less [of v] by (simp add: ord_def)
  next
    case False
    then show ?thesis using IH [of st' r] body v by simp
  qed
qed

lemma rand_chars_returns: "\<exists>st' cs. rand_chars n st = Some (st', cs) \<and> length cs = n \<and> (\<forall>c\<in>set cs. name_char_ok (ord c))"
proof (induction n arbitrary: st)
  case (Suc n)
  obtain st1 c where c: "rand_char st = Some (st1, c)" using rand_char_returns [of st] by auto
  obtain st2 cs where "rand_chars n st1 = Some (st2, cs)" "length cs = n" "\<forall>c\<in>set cs. name_char_ok (ord c)"
    using Suc [of st1] by blast
  then show ?case using c rand_char_ok [OF c] by simp
qed simp

section \<open>The name of a file\<close>

lemma length_seq_part [simp]: "length (seq_part n sec) = n"
  by (simp add: seq_part_def Let_def)

lemma setup_file_name_cases:
  assumes "choose_subdir p (snd (fo_secs F k)) st = Some (st1, sub)"
  shows "\<exists>k' r. setup_file_name F p st k = Some (k', r) \<and>
    (\<forall>st2 q. r = Inr (st2, q) \<longrightarrow>
       (\<exists>seq cs. q = t_dir st1 @ ''/'' @ sub @ (if sub = [] then [] else ''/'') @ seq @ cs \<and>
          length seq = fm_name_len p - fm_rand_len p \<and> length cs = fm_rand_len p \<and> (\<forall>c\<in>set cs. name_char_ok (ord c))))"
proof -
  obtain k1 sec where sec: "fo_secs F k = (k1, sec)" by (cases "fo_secs F k")
  obtain k2 r where mk: "mkdir_eexist F (t_dir st1 @ ''/'' @ sub) k1 = (k2, r)"
    by (cases "mkdir_eexist F (t_dir st1 @ ''/'' @ sub) k1")
  obtain rng cs where cs: "rand_chars (fm_rand_len p) (t_rng st1) = Some (rng, cs)" "length cs = fm_rand_len p"
    "\<forall>c\<in>set cs. name_char_ok (ord c)"
    using rand_chars_returns [of "fm_rand_len p" "t_rng st1"] by blast
  show ?thesis
  proof (cases r)
    case (Inl e)
    then show ?thesis using assms sec mk by (simp add: setup_file_name_def)
  next
    case (Inr u)
    let ?seq = "seq_part (fm_name_len p - fm_rand_len p) sec"
    have "setup_file_name F p st k = Some (k2, Inr (st1\<lparr>t_rng := rng\<rparr>,
        t_dir st1 @ ''/'' @ sub @ (if sub = [] then [] else ''/'') @ ?seq @ cs))"
      using assms sec mk Inr cs(1) by (simp add: setup_file_name_def)
    then show ?thesis using cs(2,3) length_seq_part by blast
  qed
qed

section \<open>Subdirectories\<close>

text \<open>The subdirectories chosen at the times of a list of files.\<close>

fun choose_many :: "fm_params \<Rightarrow> nat list \<Rightarrow> fm_state \<Rightarrow> string list option" where
  "choose_many p [] st = Some []"
| "choose_many p (sec # secs) st = do {
     (st, d) \<leftarrow> choose_subdir p sec st;
     ds \<leftarrow> choose_many p secs st;
     Some (d # ds)
   }"

lemma div_period: "0 < per \<Longrightarrow> ((m mod (n * per)) div per) mod n = (m div per) mod (n::nat)"
  by (simp add: mod_mult2_eq mult.commute [of n per])

lemma round_robin_many:
  assumes "fm_policy p = RoundRobin" "0 < fm_num_subdirs p" "0 < fm_num_per_subdir p" "t_in_subdir st \<le> fm_num_per_subdir p"
  shows "choose_many p secs st = Some (map (\<lambda>i. hex02
    (((t_subdir st * fm_num_per_subdir p + t_in_subdir st + i) div fm_num_per_subdir p) mod fm_num_subdirs p)) [0..<length secs])"
  using assms(4)
proof (induction secs arbitrary: st)
  case (Cons sec secs)
  let ?per = "fm_num_per_subdir p" and ?n = "fm_num_subdirs p"
  define m where "m = t_subdir st * ?per + t_in_subdir st"
  define st1 where "st1 = (if t_start_sec st = 0 then st\<lparr>t_start_sec := sec\<rparr> else st)"
  define st2 where "st2 = st1\<lparr>t_subdir := (m div ?per) mod ?n, t_in_subdir := m mod ?per + 1\<rparr>"
  have m: "(if ?per \<le> t_in_subdir st then t_subdir st + 1 else t_subdir st) = m div ?per"
    "(if ?per \<le> t_in_subdir st then 0 else t_in_subdir st) = m mod ?per"
    using Cons.prems assms(3) by (auto simp: m_def)
  have "choose_subdir p sec st = Some (st2, hex02 ((m div ?per) mod ?n))"
    using assms(1,2) m [symmetric]
    by (auto simp: choose_subdir_def st2_def st1_def rmod_def split: if_splits)
  moreover have "choose_many p secs st2 = Some (map (\<lambda>i. hex02 (((m + Suc i) div ?per) mod ?n)) [0..<length secs])"
  proof -
    have "t_in_subdir st2 \<le> ?per" using assms(3) by (simp add: st2_def Suc_le_eq)
    then have "choose_many p secs st2 =
      Some (map (\<lambda>i. hex02 (((t_subdir st2 * ?per + t_in_subdir st2 + i) div ?per) mod ?n)) [0..<length secs])"
      by (rule Cons.IH)
    moreover have "((t_subdir st2 * ?per + t_in_subdir st2 + i) div ?per) mod ?n = ((m + Suc i) div ?per) mod ?n" for i
    proof -
      have "(m div ?per) mod ?n * ?per = m div ?per * ?per mod (?n * ?per)" by (simp add: mult_mod_left)
      then have "t_subdir st2 * ?per + t_in_subdir st2 + i = m div ?per * ?per mod (?n * ?per) + (m mod ?per + Suc i)"
        by (simp add: st2_def)
      then have "(t_subdir st2 * ?per + t_in_subdir st2 + i) mod (?n * ?per) =
          (m div ?per * ?per + (m mod ?per + Suc i)) mod (?n * ?per)"
        by (simp only: mod_add_left_eq)
      also have "m div ?per * ?per + (m mod ?per + Suc i) = m + Suc i"
        by (simp only: add.assoc [symmetric] div_mult_mod_eq)
      finally have "(t_subdir st2 * ?per + t_in_subdir st2 + i) mod (?n * ?per) = (m + Suc i) mod (?n * ?per)" .
      then show ?thesis using div_period [OF assms(3)] by metis
    qed
    ultimately show ?thesis by simp
  qed
  ultimately show ?case
    by (simp add: m_def [symmetric] map_upt_Suc add.assoc del: upt_Suc)
qed simp

end
