(* ===== verification/Fsmark_Files.thy ===== *)
theory Fsmark_Files
  imports Fsmark_Names
begin

text \<open>
  What fsmark leaves: on a file system that writes and flushes as POSIX documents, every file of a measured
  thread has the size asked for, and with a sync method that flushes every file all of them are on stable
  storage when the measurement ends.
\<close>

section \<open>The laws\<close>

text \<open>A state gives the size of a path, whether its contents are on stable storage, and the path of an open
  descriptor. Only the paths in \<open>S\<close> may change between two states, or become stable.\<close>

record 'k fm_view =
  v_size :: "'k \<Rightarrow> string \<Rightarrow> nat option"
  v_stable :: "'k \<Rightarrow> string \<Rightarrow> bool"
  v_holds :: "'k \<Rightarrow> nat \<Rightarrow> string option"

definition keeps :: "'k fm_view \<Rightarrow> string set \<Rightarrow> 'k \<Rightarrow> 'k \<Rightarrow> bool" where
  "keeps V S k k' \<longleftrightarrow> (\<forall>r. r \<notin> S \<longrightarrow> v_size V k' r = v_size V k r \<and> (v_stable V k r \<longrightarrow> v_stable V k' r))"

definition fm_laws :: "'k fm_view \<Rightarrow> 'k fm_ops \<Rightarrow> bool" where
  "fm_laws V F \<longleftrightarrow>
     (\<forall>k fd. keeps V {} k (fst (fo_secs F k)) \<and> keeps V {} k (fst (fo_now F k)) \<and> v_holds V (fst (fo_now F k)) fd = v_holds V k fd) \<and>
     (\<forall>k d. keeps V {} k (fst (fo_mkdir F k d))) \<and>
     (\<forall>k q k' fd. fo_create F k q = (k', Inr fd) \<longrightarrow> v_size V k' q = Some 0 \<and> v_holds V k' fd = Some q \<and> keeps V {q} k k') \<and>
     (\<forall>k fd q n m k'. v_holds V k fd = Some q \<longrightarrow> v_size V k q = Some n \<longrightarrow> fo_write F k fd m = (k', None) \<longrightarrow>
        v_size V k' q = Some (n + m) \<and> v_holds V k' fd = Some q \<and> keeps V {q} k k') \<and>
     (\<forall>k fd q k'. v_holds V k fd = Some q \<longrightarrow> fo_fsync F k fd = (k', None) \<longrightarrow>
        v_stable V k' q \<and> v_holds V k' fd = Some q \<and> keeps V {} k k') \<and>
     (\<forall>k fd. keeps V {} k (fo_close F k fd)) \<and> (\<forall>k. keeps V {} k (fo_sync F k)) \<and>
     (\<forall>k q k' fd. fo_open F k q = (k', Inr fd) \<longrightarrow> v_holds V k' fd = Some q \<and> keeps V {} k k')"

lemma fm_lawsD:
  assumes "fm_laws V F"
  shows "keeps V {} k (fst (fo_secs F k))" "keeps V {} k (fst (fo_now F k))"
    "v_holds V (fst (fo_now F k)) fd = v_holds V k fd" "keeps V {} k (fst (fo_mkdir F k d))"
    "fo_create F k q = (k', Inr fd) \<Longrightarrow> v_size V k' q = Some 0 \<and> v_holds V k' fd = Some q \<and> keeps V {q} k k'"
    "v_holds V k fd = Some q \<Longrightarrow> v_size V k q = Some n \<Longrightarrow> fo_write F k fd m = (k', None) \<Longrightarrow>
        v_size V k' q = Some (n + m) \<and> v_holds V k' fd = Some q \<and> keeps V {q} k k'"
    "v_holds V k fd = Some q \<Longrightarrow> fo_fsync F k fd = (k', None) \<Longrightarrow>
        v_stable V k' q \<and> v_holds V k' fd = Some q \<and> keeps V {} k k'"
    "keeps V {} k (fo_close F k fd)" "keeps V {} k (fo_sync F k)"
    "fo_open F k q = (k', Inr fd) \<Longrightarrow> v_holds V k' fd = Some q \<and> keeps V {} k k'"
  using assms unfolding fm_laws_def by meson+

lemma keeps_refl [simp]: "keeps V S k k"
  by (simp add: keeps_def)

lemma keeps_trans: "keeps V S a b \<Longrightarrow> keeps V T b c \<Longrightarrow> S \<union> T \<subseteq> U \<Longrightarrow> keeps V U a c"
  unfolding keeps_def by (metis UnI1 UnI2 subsetD)

lemma keeps_size: "keeps V S k k' \<Longrightarrow> q \<notin> S \<Longrightarrow> v_size V k' q = v_size V k q"
  and keeps_stable: "keeps V S k k' \<Longrightarrow> q \<notin> S \<Longrightarrow> v_stable V k q \<Longrightarrow> v_stable V k' q"
  by (simp_all add: keeps_def)

section \<open>Results without an error\<close>

lemma fm_bind_ok: "fm_bind r f = (k', Inr b) \<longleftrightarrow> (\<exists>k a. r = (k, Inr a) \<and> f k a = (k', Inr b))"
  by (auto simp: fm_bind_def split: prod.splits sum.splits)

lemma fm_call_ok: "fm_call r = (k', Inr u) \<longleftrightarrow> r = (k', None)"
  by (auto simp: fm_call_def split: prod.splits option.splits)

lemma fm_value_ok: "fm_value r = (k', Inr a) \<longleftrightarrow> r = (k', Inr a)"
  by (auto simp: fm_value_def split: prod.splits sum.splits)

lemma timed_ok:
  "timed F f k = (k', Inr (a, d)) \<longleftrightarrow>
     (\<exists>k1. f (fst (fo_now F k)) = (k1, Inr a) \<and> k' = fst (fo_now F k1) \<and>
        d = (snd (fo_now F k1) - snd (fo_now F k)) div 1000)"
  unfolding timed_def Let_def case_prod_unfold fm_bind_ok by auto

text \<open>A timed call and what follows it, for the elimination of a whole chain.\<close>

lemma timed_bindE:
  assumes "fm_bind (timed F f k) (\<lambda>k (a, d). g k a d) = (k', Inr b)"
  obtains k1 a d where "f (fst (fo_now F k)) = (k1, Inr a)" "g (fst (fo_now F k1)) a d = (k', Inr b)"
proof -
  obtain k2 x where x: "timed F f k = (k2, Inr x)" "(case x of (a, d) \<Rightarrow> g k2 a d) = (k', Inr b)"
    using assms unfolding fm_bind_ok by blast
  obtain a d where "x = (a, d)" by (cases x)
  then show thesis using x that by (auto simp: timed_ok)
qed

lemmas fm_ok = fm_bind_ok fm_call_ok fm_value_ok timed_ok

section \<open>One file\<close>

lemma fm_write_loop_size:
  assumes laws: "fm_laws V F" and io: "0 < io"
  shows "v_holds V k fd = Some q \<Longrightarrow> v_size V k q = Some n \<Longrightarrow>
    fm_write_loop F io fd left calls spent w k = (k', Inr res) \<Longrightarrow>
    v_size V k' q = Some (n + left) \<and> v_holds V k' fd = Some q \<and> keeps V {q} k k'"
proof (induction left arbitrary: k n calls spent w rule: less_induct)
  case (less left)
  show ?case
  proof (cases "left = 0")
    case True
    then show ?thesis using less.prems by (simp add: fm_write_loop.simps)
  next
    case False
    define m where "m = min io left"
    have m: "0 < m" "m \<le> left" using False io by (auto simp: m_def)
    have step: "fm_bind (timed F (\<lambda>k. fm_call (fo_write F k fd m)) k) (\<lambda>k (u, d).
        fm_write_loop F io fd (left - m) (calls + 1) (spent + d) (stat_add d w) k) = (k', Inr res)"
      using less.prems(3) False io unfolding fm_write_loop.simps [of F io fd left calls spent w k] m_def by simp
    then obtain k1 u d where "fm_call (fo_write F (fst (fo_now F k)) fd m) = (k1, Inr u)"
      and rest: "fm_write_loop F io fd (left - m) (calls + 1) (spent + d) (stat_add d w) (fst (fo_now F k1)) = (k', Inr res)"
      by (rule timed_bindE)
    then have k1: "fo_write F (fst (fo_now F k)) fd m = (k1, None)" by (simp add: fm_call_ok)
    have now: "keeps V {} j (fst (fo_now F j))" "v_holds V (fst (fo_now F j)) fd = v_holds V j fd" for j
      by (rule fm_lawsD(2) [OF laws], rule fm_lawsD(3) [OF laws])
    have w: "v_size V k1 q = Some (n + m) \<and> v_holds V k1 fd = Some q \<and> keeps V {q} (fst (fo_now F k)) k1"
    proof (rule fm_lawsD(6) [OF laws])
      show "v_holds V (fst (fo_now F k)) fd = Some q" using less.prems(1) now(2) by simp
      show "v_size V (fst (fo_now F k)) q = Some n" using less.prems(2) keeps_size [OF now(1), of q k] by simp
    qed (rule k1)
    have "v_size V k' q = Some (n + m + (left - m)) \<and> v_holds V k' fd = Some q \<and> keeps V {q} (fst (fo_now F k1)) k'"
    proof (rule less.IH [OF _ _ _ rest])
      show "left - m < left" using m False by simp
      show "v_holds V (fst (fo_now F k1)) fd = Some q" using w now(2) by simp
      show "v_size V (fst (fo_now F k1)) q = Some (n + m)" using w keeps_size [OF now(1), of q k1] by simp
    qed
    moreover have "keeps V {q} k (fst (fo_now F k1))"
      using keeps_trans [OF keeps_trans [OF now(1) conjunct2 [OF conjunct2 [OF w]], of "{q}"] now(1), of "{q}"] by simp
    ultimately show ?thesis using m(2) keeps_trans [of V "{q}" k _ "{q}" k' "{q}"] by auto
  qed
qed

text \<open>A file that is as it should be: it has the size asked for, and it is stable when each file is flushed
  before it is closed.\<close>

definition file_ok :: "'k fm_view \<Rightarrow> fm_params \<Rightarrow> 'k \<Rightarrow> string \<Rightarrow> bool" where
  "file_ok V p k q \<longleftrightarrow>
     v_size V k q = Some (fm_file_size p) \<and> (bit_set (fm_sync_bits p) FSYNC_BEFORE_CLOSE \<longrightarrow> v_stable V k q)"

lemma file_ok_kept: "keeps V S k k' \<Longrightarrow> q \<notin> S \<Longrightarrow> file_ok V p k q \<Longrightarrow> file_ok V p k' q"
  by (simp add: file_ok_def keeps_def)

lemma now_kept: "fm_laws V F \<Longrightarrow> keeps V S k (fst (fo_now F k))"
  using fm_lawsD(2) [of V F k] by (simp add: keeps_def)

lemma keeps_mono: "keeps V S k k' \<Longrightarrow> S \<subseteq> T \<Longrightarrow> keeps V T k k'"
  by (auto simp: keeps_def)

lemma fill_and_flush_ok:
  assumes laws: "fm_laws V F" and io: "0 < fm_io_size p"
    and k: "v_holds V k fd = Some q" "v_size V k q = Some 0"
    and run: "fill_and_flush F p fd row k = (k', Inr row')"
  shows "file_ok V p k' q \<and> keeps V {q} k k'"
proof -
  obtain k1 row1 where w: "fm_write_file F p fd row k = (k1, Inr row1)"
    and rest: "(if bit_set (fm_sync_bits p) FSYNC_BEFORE_CLOSE
       then fm_bind (timed F (\<lambda>k. fm_call (fo_fsync F k fd)) k1) (\<lambda>k (u, d).
              (k, Inr (row1\<lparr>r_fsync := stat_add d (r_fsync row1)\<rparr>)))
       else (k1, Inr row1)) = (k', Inr row')"
    using run unfolding fill_and_flush_def fm_bind_ok by blast
  obtain res where "fm_write_loop F (fm_io_size p) fd (fm_file_size p) 0 0 (r_write row) k = (k1, Inr res)"
    using w unfolding fm_write_file_def fm_bind_ok by auto
  then have k1: "v_size V k1 q = Some (fm_file_size p)" "v_holds V k1 fd = Some q" "keeps V {q} k k1"
    using fm_write_loop_size [OF laws io k] by auto
  show ?thesis
  proof (cases "bit_set (fm_sync_bits p) FSYNC_BEFORE_CLOSE")
    case True
    then have "fm_bind (timed F (\<lambda>k. fm_call (fo_fsync F k fd)) k1) (\<lambda>k (u, d).
        (k, Inr (row1\<lparr>r_fsync := stat_add d (r_fsync row1)\<rparr>))) = (k', Inr row')"
      using rest by simp
    then obtain k2 where sync: "fo_fsync F (fst (fo_now F k1)) fd = (k2, None)" and k': "k' = fst (fo_now F k2)"
      by (rule timed_bindE) (auto simp: fm_call_ok)
    have "v_holds V (fst (fo_now F k1)) fd = Some q" using k1(2) fm_lawsD(3) [OF laws] by simp
    then have s: "v_stable V k2 q" "keeps V {} (fst (fo_now F k1)) k2" using fm_lawsD(7) [OF laws _ sync] by auto
    have "keeps V {} k1 k2" using keeps_trans [OF now_kept [OF laws, of "{}"] s(2)] by simp
    then have all: "keeps V {} k1 k'" using keeps_trans [OF _ now_kept [OF laws, of "{}" k2]] k' by simp
    have "v_stable V k' q" using s(1) k' keeps_stable [OF now_kept [OF laws, of "{}" k2]] by simp
    then show ?thesis using k1 keeps_size [OF all] keeps_trans [OF k1(3) all] by (simp add: file_ok_def)
  next
    case False
    then show ?thesis using rest k1 by (simp add: file_ok_def)
  qed
qed

lemma create_and_write_ok:
  assumes laws: "fm_laws V F" and io: "0 < fm_io_size p" and run: "create_and_write F p q row k = (k', Inr row')"
  shows "file_ok V p k' q \<and> keeps V {q} k k'"
proof -
  obtain k1 fd d where c: "fm_value (fo_create F (fst (fo_now F k)) q) = (k1, Inr fd)"
    and rest: "(case fill_and_flush F p fd (row\<lparr>r_creat := stat_add d (r_creat row)\<rparr>) (fst (fo_now F k1)) of
         (k, Inl e) \<Rightarrow> (fo_close F k fd, Inl e)
       | (k, Inr row) \<Rightarrow>
           fm_bind (timed F (\<lambda>k. (fo_close F k fd, Inr ())) k) (\<lambda>k (u, d).
             (k, Inr (row\<lparr>r_close := stat_add d (r_close row)\<rparr>)))) = (k', Inr row')"
    using run unfolding create_and_write_def by (rule timed_bindE)
  obtain k2 r where f: "fill_and_flush F p fd (row\<lparr>r_creat := stat_add d (r_creat row)\<rparr>) (fst (fo_now F k1)) = (k2, r)"
    by (cases "fill_and_flush F p fd (row\<lparr>r_creat := stat_add d (r_creat row)\<rparr>) (fst (fo_now F k1))")
  obtain row2 where r: "r = Inr row2" using rest unfolding f by (cases r) auto
  then have "fm_bind (timed F (\<lambda>k. (fo_close F k fd, Inr ())) k2) (\<lambda>k (u, d).
      (k, Inr (row2\<lparr>r_close := stat_add d (r_close row2)\<rparr>))) = (k', Inr row')"
    using rest unfolding f by simp
  then have k': "k' = fst (fo_now F (fo_close F (fst (fo_now F k2)) fd))" by (rule timed_bindE) auto
  have c1: "v_size V k1 q = Some 0 \<and> v_holds V k1 fd = Some q \<and> keeps V {q} (fst (fo_now F k)) k1"
    using fm_lawsD(5) [OF laws] c by (simp add: fm_value_ok)
  have "file_ok V p k2 q \<and> keeps V {q} (fst (fo_now F k1)) k2"
  proof (rule fill_and_flush_ok [OF laws io])
    show "v_holds V (fst (fo_now F k1)) fd = Some q" using c1 fm_lawsD(3) [OF laws] by simp
    show "v_size V (fst (fo_now F k1)) q = Some 0" using c1 keeps_size [OF now_kept [OF laws, of "{}"]] by simp
    show "fill_and_flush F p fd (row\<lparr>r_creat := stat_add d (r_creat row)\<rparr>) (fst (fo_now F k1)) = (k2, Inr row2)"
      using f r by simp
  qed
  then have ok: "file_ok V p k2 q" and k12: "keeps V {q} (fst (fo_now F k1)) k2" by simp_all
  have tail: "keeps V {} k2 k'"
    unfolding k' using keeps_trans [OF keeps_trans [OF now_kept [OF laws, of "{}"] fm_lawsD(8) [OF laws]] now_kept [OF laws, of "{}"]]
    by auto
  have "keeps V {q} k k1" using keeps_trans [OF now_kept [OF laws, of "{}" k] conjunct2 [OF conjunct2 [OF c1]]] by simp
  then have "keeps V {q} k (fst (fo_now F k1))" using keeps_trans [OF _ now_kept [OF laws, of "{}" k1]] by simp
  then have "keeps V {q} k k2" using keeps_trans [OF _ k12] by simp
  then show ?thesis using keeps_trans [OF _ tail] file_ok_kept [OF tail _ ok] by simp
qed

section \<open>All files\<close>

lemma setup_file_name_kept:
  assumes laws: "fm_laws V F" and run: "setup_file_name F p st k = Some (k', Inr x)"
  shows "keeps V {} k k'"
proof -
  obtain k1 sec where sec: "fo_secs F k = (k1, sec)" by (cases "fo_secs F k")
  have k1: "keeps V {} k k1" using fm_lawsD(1) [OF laws, of k] sec by simp
  have mk: "keeps V {} k1 k2" if "mkdir_eexist F d k1 = (k2, r)" for d k2 r
    using fm_lawsD(4) [OF laws, of k1 d] that
    by (auto simp: mkdir_eexist_def fm_call_def split: prod.splits option.splits fm_io.splits)
  obtain d u where "mkdir_eexist F d k1 = (k', Inr u)"
    using run sec by (auto simp: setup_file_name_def Let_def split: bind_splits prod.splits sum.splits)
  then show ?thesis using keeps_trans [OF k1 mk] by simp
qed

lemma create_files_ok:
  assumes laws: "fm_laws V F" and io: "0 < fm_io_size p"
  shows "create_files F p n st row names k = Some (k', Inr (row', names')) \<Longrightarrow> \<forall>q\<in>set names. file_ok V p k q \<Longrightarrow>
    (\<forall>q\<in>set names'. file_ok V p k' q) \<and> length names' = length names + n"
proof (induction n arbitrary: st row names k)
  case (Suc n)
  obtain k1 st1 q where name: "setup_file_name F p st k = Some (k1, Inr (st1, q))"
    and rest: "(case create_and_write F p q row k1 of
             (k, Inl e) \<Rightarrow> Some (k, Inl e)
           | (k, Inr row) \<Rightarrow> create_files F p n st1 row (names @ [q]) k) = Some (k', Inr (row', names'))"
    using Suc.prems(1) by (auto split: option.splits prod.splits sum.splits)
  obtain k2 r where cw: "create_and_write F p q row k1 = (k2, r)" by (cases "create_and_write F p q row k1")
  obtain row2 where r: "r = Inr row2" using rest unfolding cw by (cases r) auto
  have k1: "keeps V {} k k1" by (rule setup_file_name_kept [OF laws name])
  have k2: "file_ok V p k2 q" "keeps V {q} k1 k2" using create_and_write_ok [OF laws io] cw r by auto
  have "\<forall>x\<in>set (names @ [q]). file_ok V p k2 x"
    using Suc.prems(2) k2 file_ok_kept [OF k1] file_ok_kept [OF k2(2)] by (metis Un_iff empty_iff insert_iff list.set(1) list.set(2) set_append)
  then show ?case using Suc.IH [of st1 row2 "names @ [q]" k2] rest cw r by simp
qed simp

section \<open>Flushing afterwards\<close>

lemma reopen_fsync_ok:
  assumes laws: "fm_laws V F" and run: "reopen_fsync F q k = (k', Inr u)"
  shows "v_stable V k' q \<and> keeps V {} k k'"
proof -
  obtain k1 fd where o1: "fo_open F k q = (k1, Inr fd)"
    and rest: "(case fm_call (fo_fsync F k1 fd) of (k, r) \<Rightarrow> (fo_close F k fd, r)) = (k', Inr u)"
    using run unfolding reopen_fsync_def fm_bind_ok fm_value_ok by blast
  obtain k2 r where s: "fm_call (fo_fsync F k1 fd) = (k2, r)" by (cases "fm_call (fo_fsync F k1 fd)")
  then have c: "fm_call (fo_fsync F k1 fd) = (k2, Inr u)" "k' = fo_close F k2 fd" using rest by simp_all
  then have r: "fo_fsync F k1 fd = (k2, None)" "k' = fo_close F k2 fd" unfolding fm_call_ok by simp_all
  have k1: "v_holds V k1 fd = Some q" "keeps V {} k k1" using fm_lawsD(10) [OF laws o1] by simp_all
  have k2: "v_stable V k2 q" "keeps V {} k1 k2" using fm_lawsD(7) [OF laws k1(1) r(1)] by simp_all
  have k3: "keeps V {} k2 k'" unfolding r(2) by (rule fm_lawsD(8) [OF laws])
  show ?thesis
    using keeps_stable [OF k3 _ k2(1)] keeps_trans [OF keeps_trans [OF k1(2) k2(2), of "{}"] k3] by simp
qed

lemma post_fsyncs_ok:
  assumes laws: "fm_laws V F"
  shows "post_fsyncs F qs row k = (k', Inr row') \<Longrightarrow> (\<forall>q\<in>set qs. v_stable V k' q) \<and> keeps V {} k k'"
proof (induction qs arbitrary: row k)
  case (Cons q qs)
  have "fm_bind (timed F (reopen_fsync F q) k) (\<lambda>k (u, d).
       post_fsyncs F qs (row\<lparr>r_fsync := stat_add d (r_fsync row)\<rparr>) k) = (k', Inr row')"
    using Cons.prems by simp
  then obtain k1 u d where f: "reopen_fsync F q (fst (fo_now F k)) = (k1, Inr u)"
    and rest: "post_fsyncs F qs (row\<lparr>r_fsync := stat_add d (r_fsync row)\<rparr>) (fst (fo_now F k1)) = (k', Inr row')"
    by (rule timed_bindE)
  have k1: "v_stable V k1 q" "keeps V {} (fst (fo_now F k)) k1" using reopen_fsync_ok [OF laws f] by simp_all
  have IH: "\<forall>q\<in>set qs. v_stable V k' q" "keeps V {} (fst (fo_now F k1)) k'" using Cons.IH [OF rest] by simp_all
  have k1k': "keeps V {} k1 k'" using keeps_trans [OF now_kept [OF laws, of "{}"] IH(2)] by simp
  have "keeps V {} k k1" using keeps_trans [OF now_kept [OF laws, of "{}"] k1(2)] by simp
  then show ?case using IH(1) keeps_stable [OF k1k' _ k1(1)] keeps_trans [OF _ k1k'] by simp
qed simp

text \<open>The methods that flush every file.\<close>

definition flushes_each :: "u32 \<Rightarrow> bool" where
  "flushes_each bits \<longleftrightarrow>
     bit_set bits FSYNC_BEFORE_CLOSE \<or> bit_set bits FSYNC_POST_IN_ORDER \<or> bit_set bits FSYNC_POST_REVERSE"

lemma sync_after_ok:
  assumes laws: "fm_laws V F" and run: "sync_after F p names row k = (k', Inr row')"
    and ok: "\<forall>q\<in>set names. file_ok V p k q"
  shows "\<forall>q\<in>set names. v_size V k' q = Some (fm_file_size p) \<and> (flushes_each (fm_sync_bits p) \<longrightarrow> v_stable V k' q)"
proof -
  let ?b = "fm_sync_bits p"
  obtain k1 row1 k2 row2 k3 row3 where s1: "sync_all F p row k = (k1, Inr row1)"
    and s2: "(if bit_set ?b FSYNC_POST_IN_ORDER then post_fsyncs F names row1 k1 else (k1, Inr row1)) = (k2, Inr row2)"
    and s3: "(if bit_set ?b FSYNC_POST_REVERSE then post_fsyncs F (rev names) row2 k2 else (k2, Inr row2)) = (k3, Inr row3)"
    and s4: "(if bit_set ?b FSYNC_FIRST_FILE
     then fm_bind (timed F (reopen_fsync F (hd names)) k3) (\<lambda>k (u, d).
            (k, Inr (row3\<lparr>r_fsync := (r_fsync row3)\<lparr>st_total := st_total (r_fsync row3) + d\<rparr>\<rparr>)))
     else (k3, Inr row3)) = (k', Inr row')"
    using run unfolding sync_after_def fm_bind_ok by blast
  have k1: "keeps V {} k k1"
  proof (cases "bit_set ?b FSYNC_SYNC_SYSCALL")
    case True
    then have "fm_bind (timed F (\<lambda>k. (fo_sync F k, Inr ())) k) (\<lambda>k (u, d). (k, Inr (row\<lparr>r_sync := d\<rparr>))) = (k1, Inr row1)"
      using s1 by (simp add: sync_all_def)
    then have "k1 = fst (fo_now F (fo_sync F (fst (fo_now F k))))" by (rule timed_bindE) auto
    then show ?thesis
      using keeps_trans [OF keeps_trans [OF now_kept [OF laws, of "{}"] fm_lawsD(9) [OF laws]] now_kept [OF laws, of "{}"]]
      by auto
  qed (use s1 in \<open>simp add: sync_all_def\<close>)
  have k2: "keeps V {} k1 k2" "bit_set ?b FSYNC_POST_IN_ORDER \<Longrightarrow> \<forall>q\<in>set names. v_stable V k2 q"
    using s2 post_fsyncs_ok [OF laws, of names row1 k1] by (auto split: if_splits)
  have k3: "keeps V {} k2 k3" "bit_set ?b FSYNC_POST_REVERSE \<Longrightarrow> \<forall>q\<in>set names. v_stable V k3 q"
    using s3 post_fsyncs_ok [OF laws, of "rev names" row2 k2] by (auto split: if_splits)
  have k4: "keeps V {} k3 k'"
  proof (cases "bit_set ?b FSYNC_FIRST_FILE")
    case True
    then have "fm_bind (timed F (reopen_fsync F (hd names)) k3) (\<lambda>k (u, d).
        (k, Inr (row3\<lparr>r_fsync := (r_fsync row3)\<lparr>st_total := st_total (r_fsync row3) + d\<rparr>\<rparr>))) = (k', Inr row')"
      using s4 by simp
    then obtain j u where j: "reopen_fsync F (hd names) (fst (fo_now F k3)) = (j, Inr u)" "k' = fst (fo_now F j)"
      by (rule timed_bindE) auto
    show ?thesis
      unfolding j(2) using keeps_trans [OF keeps_trans [OF now_kept [OF laws, of "{}"] conjunct2 [OF reopen_fsync_ok [OF laws j(1)]]]
        now_kept [OF laws, of "{}"]] by auto
  qed (use s4 in simp)
  have "keeps V {} k k3" using keeps_trans [OF keeps_trans [OF k1 k2(1), of "{}"] k3(1)] by simp
  then have all: "keeps V {} k k'" using keeps_trans [OF _ k4] by simp
  have k24: "keeps V {} k2 k'" using keeps_trans [OF k3(1) k4] by simp
  show ?thesis
    using ok keeps_size [OF all] keeps_stable [OF all] keeps_stable [OF k24] k2(2) keeps_stable [OF k4] k3(2)
    unfolding file_ok_def flushes_each_def by auto
qed

end
