(* ===== verification/Fsmark_Loop.thy ===== *)
theory Fsmark_Loop
  imports Fsmark_Names "HOL-Library.Multiset"
begin

text \<open>
  The iterations of fsmark: a run that is not to fill the file system ends after the iterations asked for, the
  aggregated statistics are those of all threads together, and the percentiles of the rates.
\<close>

section \<open>Resolved options\<close>

lemma fm_resolve_ok:
  assumes "fm_resolve a mountpoint = Inr p"
  shows "fm_dirs p = mountpoint # fa_dir a" "0 < fm_num_files p" "0 < fm_io_size p" "fm_rand_len p < fm_name_len p"
    "fm_name_len p \<le> 128" "0 < fm_threads p" "fm_threads p \<le> 64" "fm_threads p mod length (fm_dirs p) = 0"
    "fm_loop_count p = fa_iterations a" "fm_file_size p = fa_file_size a" "fm_num_files p = fa_files a"
    "fm_fill_fs p = fa_fill_fs a" "fm_sync_bits p = method_bits (fa_sync_method a)"
    "fm_policy p = (case fa_subdirs a of None \<Rightarrow> NoSubdirs
       | Some n \<Rightarrow> (case fa_files_per_subdir a of None \<Rightarrow> TimeHash | Some m \<Rightarrow> RoundRobin))"
    "fm_policy p \<noteq> NoSubdirs \<Longrightarrow> 2 \<le> fm_num_subdirs p"
    "fm_keep_files p = (fa_keep_files a \<or> 0 < fa_iterations a \<or> fa_fill_fs a)"
proof -
  let ?dirs = "mountpoint # fa_dir a"
  obtain policy subdirs per where s: "fm_subdirs a = Inr (policy, subdirs, per)"
    and sok: "policy = (case fa_subdirs a of None \<Rightarrow> NoSubdirs
       | Some n \<Rightarrow> (case fa_files_per_subdir a of None \<Rightarrow> TimeHash | Some m \<Rightarrow> RoundRobin))"
      "policy \<noteq> NoSubdirs \<Longrightarrow> 2 \<le> subdirs"
    using assms unfolding fm_resolve_def Let_def
    by (auto simp: fm_subdirs_def split: if_splits option.splits sum.splits)
  obtain threads where t: "fm_thread_count (fa_threads a) (length ?dirs) = Inr threads"
    using assms s unfolding fm_resolve_def Let_def by (auto split: if_splits option.splits sum.splits)
  have len: "length ?dirs \<le> 64" using assms unfolding fm_resolve_def Let_def MAX_THREADS_def by (auto split: if_splits)
  have tok: "0 < threads" "threads \<le> 64" "threads mod length ?dirs = 0"
    using t len by (auto simp: fm_thread_count_def MAX_THREADS_def split: if_splits)
  have p: "p = \<lparr>fm_dirs = ?dirs, fm_threads = threads, fm_num_files = fa_files a, fm_file_size = fa_file_size a,
                fm_io_size = fa_write_size a, fm_loop_count = fa_iterations a, fm_sync_bits = method_bits (fa_sync_method a), fm_policy = policy,
                fm_num_subdirs = subdirs, fm_num_per_subdir = per, fm_secs_per_dir = DEFAULT_SECS_PER_DIR,
                fm_name_len = fa_name_len a, fm_rand_len = fa_rand_len a,
                fm_keep_files = (fa_keep_files a \<or> 0 < fa_iterations a \<or> fa_fill_fs a), fm_fill_fs = fa_fill_fs a\<rparr>"
    and g: "fa_files a \<noteq> 0" "fa_write_size a \<noteq> 0" "fa_name_len a \<le> 128" "fa_rand_len a < fa_name_len a"
    using assms s t unfolding fm_resolve_def Let_def MAX_FILENAME_SIZE_def by (auto split: if_splits option.splits)
  show "fm_dirs p = mountpoint # fa_dir a" "0 < fm_num_files p" "0 < fm_io_size p" "fm_rand_len p < fm_name_len p"
    "fm_name_len p \<le> 128" "0 < fm_threads p" "fm_threads p \<le> 64" "fm_threads p mod length (fm_dirs p) = 0"
    "fm_loop_count p = fa_iterations a" "fm_file_size p = fa_file_size a" "fm_num_files p = fa_files a"
    "fm_fill_fs p = fa_fill_fs a" "fm_sync_bits p = method_bits (fa_sync_method a)"
    "fm_policy p = (case fa_subdirs a of None \<Rightarrow> NoSubdirs
       | Some n \<Rightarrow> (case fa_files_per_subdir a of None \<Rightarrow> TimeHash | Some m \<Rightarrow> RoundRobin))"
    "fm_policy p \<noteq> NoSubdirs \<Longrightarrow> 2 \<le> fm_num_subdirs p"
    "fm_keep_files p = (fa_keep_files a \<or> 0 < fa_iterations a \<or> fa_fill_fs a)"
    using g tok sok by (simp_all add: p)
qed

section \<open>A thread returns\<close>

definition sound_statfs :: "'k fm_ops \<Rightarrow> bool" where
  "sound_statfs F \<longleftrightarrow> (\<forall>k d k' blocks bavail bsize. fo_statfs F k d = (k', Inr (blocks, bavail, bsize)) \<longrightarrow>
     0 < blocks \<and> bavail \<le> blocks \<and> 100 * blocks < 2 ^ 64 \<and> bavail * bsize < 2 ^ 64)"

lemma choose_subdir_returns:
  assumes "fm_policy p \<noteq> TimeHash" "fm_policy p \<noteq> NoSubdirs \<Longrightarrow> 0 < fm_num_subdirs p"
  shows "\<exists>x. choose_subdir p sec st = Some x"
  using assms by (cases "fm_policy p") (auto simp: choose_subdir_def rmod_def Let_def)

lemma create_files_returns:
  assumes "fm_policy p \<noteq> TimeHash" "fm_policy p \<noteq> NoSubdirs \<Longrightarrow> 0 < fm_num_subdirs p"
  shows "\<exists>r. create_files F p n st row names k = Some r"
proof (induction n arbitrary: st row names k)
  case (Suc n)
  obtain st1 sub where "choose_subdir p (snd (fo_secs F k)) st = Some (st1, sub)"
    using choose_subdir_returns [of p "snd (fo_secs F k)" st] assms by auto
  then obtain k1 r where name: "setup_file_name F p st k = Some (k1, r)"
    using setup_file_name_cases [of p F k st st1 sub] by blast
  show ?case
  proof (cases r)
    case (Inr x)
    then obtain st2 q where x: "r = Inr (st2, q)" by (cases x) auto
    obtain k2 r2 where "create_and_write F p q row k1 = (k2, r2)" by (cases "create_and_write F p q row k1")
    then show ?thesis using name x Suc.IH by (cases r2) auto
  qed (use name in simp)
qed simp

lemma fm_run_thread_returns:
  assumes "fm_policy p \<noteq> TimeHash" "fm_policy p \<noteq> NoSubdirs \<Longrightarrow> 0 < fm_num_subdirs p"
    and "fm_file_size p * fm_num_files p < 2 ^ 64" "sound_statfs F"
  shows "\<exists>r. fm_run_thread F p i k = Some r"
proof -
  let ?dir = "fm_dirs p ! (i mod length (fm_dirs p))"
  obtain k1 r1 where mk: "mkdir_eexist F ?dir k = (k1, r1)" by (cases "mkdir_eexist F ?dir k")
  show ?thesis
  proof (cases r1)
    case (Inl e)
    then show ?thesis using mk by (simp add: fm_run_thread_def)
  next
    case (Inr u)
    obtain k2 r2 where st: "fo_statfs F k1 ?dir = (k2, r2)" by (cases "fo_statfs F k1 ?dir")
    show ?thesis
    proof (cases r2)
      case (Inl e)
      then show ?thesis using mk Inr st assms(3) by (simp add: fm_run_thread_def rmul_def fm_value_def)
    next
      case r2: (Inr v)
      obtain blocks bavail bsize where v: "v = (blocks, bavail, bsize)" by (cases v)
      have free: "bavail * bsize < 2 ^ 64" using assms(4) st r2 v unfolding sound_statfs_def by blast
      obtain st0 k3 where new: "new_state F p i ?dir k2 = (st0, k3)" by (cases "new_state F p i ?dir k2")
      obtain k4 t0 where now: "fo_now F k3 = (k4, t0)" by (cases "fo_now F k3")
      obtain r where "create_files F p (fm_num_files p) st0 zero_row [] k4 = Some r"
        using create_files_returns [of p F "fm_num_files p" st0 zero_row "[]" k4] assms(1,2) by blast
      then have "\<exists>m. fm_measure F p st0 k3 = Some m" using now by (simp add: fm_measure_def)
      then show ?thesis
        using mk Inr st r2 v free assms(3) new
        by (auto simp: fm_run_thread_def rmul_def fm_value_def Let_def intro!: surj_pair)
    qed
  qed
qed

lemma run_threads_returns:
  "(\<And>i k. \<exists>r. fm_run_thread F p i k = Some r) \<Longrightarrow> \<exists>r. run_threads F p ids k = Some r"
proof (induction ids arbitrary: k)
  case (Cons i ids)
  obtain k1 r where "fm_run_thread F p i k = Some (k1, r)" using Cons.prems [of i k] by auto
  moreover obtain k2 rs where "run_threads F p ids k1 = Some (k2, rs)" using Cons.IH [of k1] Cons.prems by auto
  ultimately show ?case by simp
qed simp

section \<open>The loop returns\<close>

lemma use_pct_returns: "sound_statfs F \<Longrightarrow> \<exists>r. use_pct F p k = Some r"
proof -
  assume s: "sound_statfs F"
  obtain k1 r where st: "fo_statfs F k (hd (fm_dirs p)) = (k1, r)" by (cases "fo_statfs F k (hd (fm_dirs p))")
  show ?thesis
  proof (cases r)
    case (Inr v)
    obtain blocks bavail bsize where v: "v = (blocks, bavail, bsize)" by (cases v)
    then have "0 < blocks" "bavail \<le> blocks" "100 * blocks < 2 ^ 64" using s st Inr unfolding sound_statfs_def by blast+
    then have "fs_use_pct v = Some (100 * (blocks - bavail) div blocks)" by (simp add: fs_use_pct_def v rmul_def)
    then show ?thesis using st Inr by (simp add: use_pct_def)
  qed (use st in \<open>simp add: use_pct_def\<close>)
qed

lemma note_errors_loops [simp]: "loops_done (note_errors rs rep) = loops_done rep"
  by (simp add: note_errors_def)

lemma count_iteration_loops [simp]: "loops_done (count_iteration rate p rows rep) = Suc (loops_done rep)"
  by (simp add: count_iteration_def Let_def)

lemma fm_loop_returns:
  assumes threads: "\<And>k. \<exists>r. run_threads F p [0..<fm_threads p] k = Some r" and pct: "\<And>k. \<exists>r. use_pct F p k = Some r"
    and "\<not> fm_fill_fs p"
  shows "loops_done rep < max 1 (fm_loop_count p) \<Longrightarrow>
    \<exists>k' rep'. fm_loop F rate p rep k = Some (k', rep') \<and> loops_done rep' \<le> max 1 (fm_loop_count p)"
proof (induction "max 1 (fm_loop_count p) - loops_done rep" arbitrary: rep k rule: less_induct)
  case less
  obtain k1 rs where rs: "run_threads F p [0..<fm_threads p] k = Some (k1, rs)" using threads [of k] by auto
  obtain k2 n where n: "use_pct F p k1 = Some (k2, n)" using pct [of k1] by auto
  define rep1 where "rep1 = count_iteration rate p (rows_of rs) (note_errors rs rep)"
  have d: "loops_done rep1 = Suc (loops_done rep)" by (simp add: rep1_def)
  show ?case
  proof (cases "rows_of rs = [] \<or> fm_stop p rep1")
    case True
    then show ?thesis
      using rs n d less.prems by (auto simp: fm_loop.simps [of F rate p rep k] rep1_def Let_def)
  next
    case False
    then have more: "Suc (loops_done rep) < fm_loop_count p" using assms(3) d by (simp add: fm_stop_def)
    have "fm_loop F rate p rep k = fm_loop F rate p rep1 k2"
      using rs n False by (simp add: fm_loop.simps [of F rate p rep k] rep1_def Let_def)
    moreover have "\<exists>k' rep'. fm_loop F rate p rep1 k2 = Some (k', rep') \<and> loops_done rep' \<le> max 1 (fm_loop_count p)"
      by (rule less.hyps) (use more d less.prems in auto)
    ultimately show ?thesis by simp
  qed
qed

section \<open>Aggregated statistics\<close>

text \<open>The least of the values that are not 0, which stands for none.\<close>

definition least_seen :: "nat \<Rightarrow> nat set \<Rightarrow> bool" where
  "least_seen m S \<longleftrightarrow> (if \<forall>x\<in>S. x = 0 then m = 0 else 0 < m \<and> m \<in> S \<and> (\<forall>x\<in>S. 0 < x \<longrightarrow> m \<le> x))"

definition merge_all :: "fm_stat list \<Rightarrow> fm_stat" where
  "merge_all ss = fold (\<lambda>s a. stat_merge a s) ss zero_stat"

lemma least_seen_step:
  assumes "least_seen m S"
  shows "least_seen (if m = 0 \<or> (0 < x \<and> x < m) then x else m) (insert x S)"
  using assms by (auto simp: least_seen_def split: if_splits)

lemma merge_all_min: "least_seen (st_min (merge_all ss)) (st_min ` set ss)"
proof (induction ss rule: rev_induct)
  case (snoc s ss)
  have "st_min (merge_all (ss @ [s])) =
      (if st_min (merge_all ss) = 0 \<or> (0 < st_min s \<and> st_min s < st_min (merge_all ss)) then st_min s else st_min (merge_all ss))"
    by (simp add: merge_all_def stat_merge_def)
  then show ?case using least_seen_step [OF snoc, of "st_min s"] by simp
qed (simp add: merge_all_def zero_stat_def least_seen_def)

lemma merge_all_max: "ss \<noteq> [] \<Longrightarrow> st_max (merge_all ss) = Max (st_max ` set ss)"
proof (induction ss rule: rev_induct)
  case (snoc s ss)
  have "st_max (merge_all (ss @ [s])) = max (st_max s) (st_max (merge_all ss))"
    by (auto simp: merge_all_def stat_merge_def max_def)
  moreover have "ss = [] \<Longrightarrow> st_max (merge_all ss) = 0" by (simp add: merge_all_def zero_stat_def)
  ultimately show ?case using snoc by (cases "ss = []") auto
qed simp

lemma merge_all_total: "st_total (merge_all ss) = sum_list (map st_total ss)"
  by (induction ss rule: rev_induct) (simp_all add: merge_all_def zero_stat_def stat_merge_def)

lemma aggregate_stats:
  "a_creat (aggregate rows n) = merge_all (map r_creat rows)" "a_write (aggregate rows n) = merge_all (map r_write rows)"
  "a_fsync (aggregate rows n) = merge_all (map r_fsync rows)" "a_close (aggregate rows n) = merge_all (map r_close rows)"
  "a_unlink (aggregate rows n) = merge_all (map r_unlink rows)"
  "a_count (aggregate rows n) = sum_list (map r_file_count rows)" "a_sync (aggregate rows n) = sum_list (map r_sync rows)"
proof -
  have "a_creat (fold agg_row rows zero_agg) = merge_all (map r_creat rows)" 
    "a_write (fold agg_row rows zero_agg) = merge_all (map r_write rows)"
    "a_fsync (fold agg_row rows zero_agg) = merge_all (map r_fsync rows)"
    "a_close (fold agg_row rows zero_agg) = merge_all (map r_close rows)"
    "a_unlink (fold agg_row rows zero_agg) = merge_all (map r_unlink rows)"
    "a_count (fold agg_row rows zero_agg) = sum_list (map r_file_count rows)"
    "a_sync (fold agg_row rows zero_agg) = sum_list (map r_sync rows)"
    by (induction rows rule: rev_induct) (simp_all add: merge_all_def agg_row_def zero_agg_def)
  then show "a_creat (aggregate rows n) = merge_all (map r_creat rows)" "a_write (aggregate rows n) = merge_all (map r_write rows)"
    "a_fsync (aggregate rows n) = merge_all (map r_fsync rows)" "a_close (aggregate rows n) = merge_all (map r_close rows)"
    "a_unlink (aggregate rows n) = merge_all (map r_unlink rows)"
    "a_count (aggregate rows n) = sum_list (map r_file_count rows)" "a_sync (aggregate rows n) = sum_list (map r_sync rows)"
    by (simp_all add: aggregate_def Let_def)
qed

section \<open>Percentiles\<close>

lemma pick_rate_anti:
  assumes "rs \<noteq> []" "f \<le> g"
  shows "pick_rate rs g \<le> pick_rate rs f"
proof -
  have "sorted (rev (rev (sort rs)))" by simp
  moreover have "min f (length rs - 1) \<le> min g (length rs - 1)" "min g (length rs - 1) < length (rev (sort rs))"
    using assms by (auto simp: min_def) (metis diff_less length_greater_0_conv zero_less_one One_nat_def le_less_trans not_le)+
  ultimately show ?thesis unfolding pick_rate_def by (rule sorted_rev_nth_mono)
qed

lemma pick_rate_count:
  assumes "rs \<noteq> []" "f < length rs"
  shows "f < length (filter (\<lambda>r. pick_rate rs f \<le> r) rs)" "pick_rate rs f \<in> set rs"
proof -
  define xs where "xs = rev (sort rs)"
  have xs: "length xs = length rs" "mset xs = mset rs" "set xs = set rs" "sorted (rev xs)" by (simp_all add: xs_def)
  have p: "pick_rate rs f = xs ! f" using assms by (simp add: pick_rate_def xs_def)
  show "pick_rate rs f \<in> set rs" using p xs assms(2) by (metis nth_mem)
  have "\<forall>r\<in>set (take (Suc f) xs). xs ! f \<le> r"
  proof
    fix r assume "r \<in> set (take (Suc f) xs)"
    then obtain i where "i \<le> f" "r = xs ! i" using xs(1) assms(2) by (auto simp: in_set_conv_nth less_Suc_eq_le)
    then show "xs ! f \<le> r" using sorted_rev_nth_mono [OF xs(4), of i f] xs(1) assms(2) by simp
  qed
  then have "filter (\<lambda>r. xs ! f \<le> r) (take (Suc f) xs) = take (Suc f) xs" by simp
  then have "Suc f \<le> length (filter (\<lambda>r. xs ! f \<le> r) (take (Suc f) xs @ drop (Suc f) xs))"
    using xs(1) assms(2) by (simp only: filter_append length_append) simp
  then have "Suc f \<le> length (filter (\<lambda>r. xs ! f \<le> r) xs)" by simp
  moreover have "length (filter (\<lambda>r. xs ! f \<le> r) xs) = length (filter (\<lambda>r. xs ! f \<le> r) rs)"
    using xs(2) by (metis mset_filter size_mset)
  ultimately show "f < length (filter (\<lambda>r. pick_rate rs f \<le> r) rs)" by (simp add: p)
qed

end
