(* ===== verification/Fsmark_Properties.thy ===== *)
theory Fsmark_Properties
  imports Fsmark_Files Fsmark_Loop
begin

text \<open>
  The properties of fsmark, with concrete instances on a small file system that is kept in functions.
\<close>

section \<open>A small file system\<close>

record toy_kern =
  y_size :: "string \<Rightarrow> nat option"
  y_stable :: "string \<Rightarrow> bool"
  y_open :: "string option"
  y_time :: nat

definition toy_view :: "toy_kern fm_view" where
  "toy_view = \<lparr>v_size = y_size, v_stable = y_stable, v_holds = (\<lambda>k fd. if fd = 5 then y_open k else None)\<rparr>"

definition toy_write :: "toy_kern \<Rightarrow> nat \<Rightarrow> nat \<Rightarrow> toy_kern \<times> fm_io option" where
  "toy_write k fd n =
     (case y_open k of
        None \<Rightarrow> (k, Some (IoError 9))
      | Some q \<Rightarrow> (k\<lparr>y_size := (y_size k)(q := map_option (\<lambda>m. m + n) (y_size k q)), y_stable := (y_stable k)(q := False)\<rparr>, None))"

definition toy_fsync :: "toy_kern \<Rightarrow> nat \<Rightarrow> toy_kern \<times> fm_io option" where
  "toy_fsync k fd =
     (case y_open k of
        None \<Rightarrow> (k, Some (IoError 9))
      | Some q \<Rightarrow> (k\<lparr>y_stable := (y_stable k)(q := True)\<rparr>, None))"

definition toy_fs :: "toy_kern fm_ops" where
  "toy_fs =
     \<lparr>fo_secs = (\<lambda>k. (k, 1700000000)), fo_nanos = (\<lambda>k. (k, 12345)), fo_now = (\<lambda>k. (k\<lparr>y_time := y_time k + 5000\<rparr>, y_time k)),
      fo_mkdir = (\<lambda>k d. (k, Some AlreadyExists)), fo_statfs = (\<lambda>k d. (k, Inr (1000, 900, 4096))),
      fo_create = (\<lambda>k q. (k\<lparr>y_size := (y_size k)(q := Some 0), y_stable := (y_stable k)(q := False), y_open := Some q\<rparr>, Inr 5)),
      fo_write = toy_write, fo_fsync = toy_fsync, fo_close = (\<lambda>k fd. k\<lparr>y_open := None\<rparr>), fo_sync = (\<lambda>k. k),
      fo_open = (\<lambda>k q. (k\<lparr>y_open := Some q\<rparr>, Inr 5)), fo_unlink = (\<lambda>k q. (k\<lparr>y_size := (y_size k)(q := None)\<rparr>, None))\<rparr>"

lemma toy_laws: "fm_laws toy_view toy_fs"
  unfolding fm_laws_def keeps_def
  by (auto simp: toy_fs_def toy_view_def toy_write_def toy_fsync_def split: option.splits if_splits)

lemma toy_statfs: "sound_statfs toy_fs"
  by (simp add: sound_statfs_def toy_fs_def)

definition toy_args :: fm_args where
  "toy_args =
     \<lparr>fa_dir = [], fa_files = 2, fa_file_size = 3, fa_write_size = 2, fa_iterations = 2, fa_sync_method = 1,
      fa_subdirs = Some 4, fa_files_per_subdir = Some 1, fa_name_len = 4, fa_rand_len = 1, fa_threads = 2,
      fa_keep_files = False, fa_fill_fs = False\<rparr>"

definition toy_params :: fm_params where
  "toy_params =
     \<lparr>fm_dirs = [''/m''], fm_threads = 2, fm_num_files = 2, fm_file_size = 3, fm_io_size = 2, fm_loop_count = 2, fm_sync_bits = 1,
      fm_policy = RoundRobin, fm_num_subdirs = 4, fm_num_per_subdir = 1, fm_secs_per_dir = 180, fm_name_len = 4, fm_rand_len = 1,
      fm_keep_files = True, fm_fill_fs = False\<rparr>"

lemma toy_resolve: "fm_resolve toy_args ''/m'' = Inr toy_params"
  by (simp add: fm_resolve_def toy_args_def toy_params_def fm_subdirs_def fm_thread_count_def MAX_THREADS_def MAX_NAME_PATH_def
      MAX_FILES_def MAX_IO_BUFFER_SIZE_def MAX_FILENAME_SIZE_def DEFAULT_SECS_PER_DIR_def
      method_bits_def sync_method_bits_def FSYNC_BEFORE_CLOSE_def)

definition toy_start :: toy_kern where
  "toy_start = \<lparr>y_size = (\<lambda>q. None), y_stable = (\<lambda>q. False), y_open = None, y_time = 0\<rparr>"

definition toy_state :: fm_state where
  "toy_state = \<lparr>t_dir = ''/m'', t_rng = 7, t_subdir = 1, t_start_sec = 0, t_in_subdir = 0\<rparr>"

section \<open>Files\<close>

lemma flushing_methods: "t \<in> {1, 3, 4, 5, 6} \<Longrightarrow> flushes_each (method_bits t)"
  by (auto simp: flushes_each_def method_bits_def sync_method_bits_def bit_set_def FSYNC_BEFORE_CLOSE_def
      FSYNC_SYNC_SYSCALL_def FSYNC_POST_REVERSE_def FSYNC_POST_IN_ORDER_def)

text \<open>C27: On a file system that behaves as POSIX documents, a measured thread that reports no error has recorded as
  many files as asked for, each of them has the size asked for, and with the methods 1 and 3 to 6, which flush every
  file before closing it or afterwards in either order, all of them are on stable storage when the
  measurement ends.\<close>

theorem measured_files_are_complete:
  assumes "fm_laws V F" and "fm_resolve a mountpoint = Inr p" and "fm_measure F p st k = Some (k', Inr (row, names))"
  shows "length names = fa_files a \<and>
    (\<forall>q\<in>set names. v_size V k' q = Some (fa_file_size a) \<and>
       (fa_sync_method a \<in> {1, 3, 4, 5, 6} \<longrightarrow> v_stable V k' q))"
proof -
  have io: "0 < fm_io_size p" and p: "fm_num_files p = fa_files a" "fm_file_size p = fa_file_size a"
    "fm_sync_bits p = method_bits (fa_sync_method a)"
    using fm_resolve_ok(3,10,11,13) [OF assms(2)] by simp_all
  obtain k0 t0 where now: "fo_now F k = (k0, t0)" by (cases "fo_now F k")
  obtain r where r: "create_files F p (fm_num_files p) st zero_row [] k0 = Some r"
    and rest: "fm_bind r (\<lambda>k (row, names).
             fm_bind (sync_after F p names row k) (\<lambda>k row.
               let (k, t1) = fo_now F k
               in (k, Inr (row\<lparr>r_overhead := int ((t1 - t0) div 1000) - int (total_ops row)\<rparr>, names)))) = (k', Inr (row, names))"
    using assms(3) now by (auto simp: fm_measure_def split: option.splits)
  obtain k1 row1 names1 where k1: "r = (k1, Inr (row1, names1))"
    and rest1: "fm_bind (sync_after F p names1 row1 k1) (\<lambda>k row.
               let (k, t1) = fo_now F k
               in (k, Inr (row\<lparr>r_overhead := int ((t1 - t0) div 1000) - int (total_ops row)\<rparr>, names1))) = (k', Inr (row, names))"
    using rest unfolding fm_bind_ok [of r] by (auto split: prod.splits)
  obtain k2 row2 where k2: "sync_after F p names1 row1 k1 = (k2, Inr row2)" "k' = fst (fo_now F k2)" "names = names1"
    using rest1 unfolding fm_bind_ok Let_def case_prod_unfold by auto
  have files: "\<forall>q\<in>set names1. file_ok V p k1 q" "length names1 = fm_num_files p"
    using create_files_ok [OF assms(1) io] r k1 by fastforce+
  have "keeps V {} k2 k'" unfolding k2(2) by (rule now_kept [OF assms(1)])
  then show ?thesis
    using sync_after_ok [OF assms(1) k2(1) files(1)] files(2) k2(3) p flushing_methods [of "fa_sync_method a"]
      keeps_size [of V "{}" k2 k'] keeps_stable [of V "{}" k2 k'] by auto
qed

theorem measured_files_are_complete_witness:
  "\<exists>k' r. fm_measure toy_fs toy_params toy_state toy_start = Some (k', r) \<and>
     (\<forall>row names. r = Inr (row, names) \<longrightarrow> length names = 2 \<and> (\<forall>q\<in>set names. y_size k' q = Some 3 \<and> y_stable k' q))"
proof -
  obtain k0 t0 where now: "fo_now toy_fs toy_start = (k0, t0)" by (cases "fo_now toy_fs toy_start")
  obtain r where "create_files toy_fs toy_params (fm_num_files toy_params) toy_state zero_row [] k0 = Some r"
    using create_files_returns [of toy_params toy_fs "fm_num_files toy_params" toy_state zero_row "[]" k0] by (auto simp: toy_params_def)
  then have "\<exists>m. fm_measure toy_fs toy_params toy_state toy_start = Some m" using now by (simp add: fm_measure_def)
  then obtain k' m where m: "fm_measure toy_fs toy_params toy_state toy_start = Some (k', m)" by auto
  moreover have "length names = 2 \<and> (\<forall>q\<in>set names. y_size k' q = Some 3 \<and> y_stable k' q)" if "m = Inr (row, names)" for row names
  proof -
    from measured_files_are_complete [OF toy_laws toy_resolve m [unfolded that]] show ?thesis
      by (simp add: toy_args_def toy_view_def)
  qed
  ultimately show ?thesis by blast
qed

section \<open>Names and subdirectories\<close>

text \<open>With accepted options and without the time-based policy, a name for the next file always comes out,
  from every state of the random generator, unless making the directory fails: it has exactly the length asked
  for, the time in its first part, and behind it as many capital letters and digits as asked for.\<close>

theorem names_come_out:
  assumes "fm_resolve a mountpoint = Inr p" and "fm_policy p \<noteq> TimeHash"
  shows "\<exists>k' r. setup_file_name F p st k = Some (k', r) \<and>
    (\<forall>st' q. r = Inr (st', q) \<longrightarrow> (\<exists>d name. q = d @ ''/'' @ name \<and> length name = fm_name_len p \<and>
       (\<forall>c\<in>set (drop (fm_name_len p - fm_rand_len p) name). name_char_ok (ord c))))"
proof -
  have n: "fm_rand_len p < fm_name_len p" "fm_policy p \<noteq> NoSubdirs \<Longrightarrow> 0 < fm_num_subdirs p"
    using fm_resolve_ok(4,15) [OF assms(1)] by auto
  obtain st1 sub where c: "choose_subdir p (snd (fo_secs F k)) st = Some (st1, sub)"
    using choose_subdir_returns [of p "snd (fo_secs F k)" st] assms(2) n(2) by auto
  obtain k' r where r: "setup_file_name F p st k = Some (k', r)"
    and form: "\<And>st2 q. r = Inr (st2, q) \<Longrightarrow> \<exists>seq cs. q = t_dir st1 @ ''/'' @ sub @ (if sub = [] then [] else ''/'') @ seq @ cs \<and>
          length seq = fm_name_len p - fm_rand_len p \<and> length cs = fm_rand_len p \<and> (\<forall>c\<in>set cs. name_char_ok (ord c))"
    using setup_file_name_cases [OF c] by blast
  have "\<exists>d name. x = d @ ''/'' @ name \<and> length name = fm_name_len p \<and>
       (\<forall>c\<in>set (drop (fm_name_len p - fm_rand_len p) name). name_char_ok (ord c))" if "r = Inr (st2, x)" for st2 x
  proof -
    from form [OF that] obtain seq cs where x: "x = t_dir st1 @ ''/'' @ sub @ (if sub = [] then [] else ''/'') @ seq @ cs"
      "length seq = fm_name_len p - fm_rand_len p" "length cs = fm_rand_len p" "\<forall>c\<in>set cs. name_char_ok (ord c)"
      by blast
    have "x = (if sub = [] then t_dir st1 else t_dir st1 @ ''/'' @ sub) @ ''/'' @ (seq @ cs)" using x(1) by simp
    moreover have "length (seq @ cs) = fm_name_len p" using x(2,3) n(1) by simp
    moreover have "drop (fm_name_len p - fm_rand_len p) (seq @ cs) = cs" using x(2) by simp
    ultimately show ?thesis using x(4) by metis
  qed
  then show ?thesis using r by blast
qed

theorem names_come_out_witness: "\<exists>k' r. setup_file_name toy_fs toy_params toy_state toy_start = Some (k', r)"
proof -
  have "fm_policy toy_params \<noteq> TimeHash" by (simp add: toy_params_def)
  from names_come_out [OF toy_resolve this, of toy_fs toy_state toy_start] show ?thesis by blast
qed

text \<open>The round-robin policy fills the subdirectories in turn: from a fresh thread, file number \<open>i\<close> goes to the
  subdirectory that is as many places behind the first one as there were full groups of files before it, and
  they come around in a circle, whatever the time is.\<close>

theorem round_robin_in_turn:
  assumes "fm_policy p = RoundRobin" and "0 < fm_num_subdirs p" and "0 < fm_num_per_subdir p" and "t_in_subdir st = 0"
  shows "choose_many p secs st =
    Some (map (\<lambda>i. hex02 ((t_subdir st + i div fm_num_per_subdir p) mod fm_num_subdirs p)) [0..<length secs])"
proof -
  have "(t_subdir st * fm_num_per_subdir p + 0 + i) div fm_num_per_subdir p = t_subdir st + i div fm_num_per_subdir p" for i
    using assms(3) by simp
  then show ?thesis using round_robin_many [OF assms(1-3), of st secs] assms(4) by simp
qed

theorem round_robin_in_turn_witness:
  "choose_many toy_params [9, 9, 8, 30, 11] toy_state = Some [''01'', ''02'', ''03'', ''00'', ''01'']"
proof -
  have "choose_many toy_params [9, 9, 8, 30, 11] toy_state = Some (map (\<lambda>i. hex02 ((t_subdir toy_state + i div
      fm_num_per_subdir toy_params) mod fm_num_subdirs toy_params)) [0..<length [9::nat, 9, 8, 30, 11]])"
    by (rule round_robin_in_turn) (simp_all add: toy_params_def toy_state_def)
  also have "\<dots> = Some [''01'', ''02'', ''03'', ''00'', ''01'']" by code_simp
  finally show ?thesis .
qed

section \<open>The run\<close>

text \<open>C28: A run with accepted options, without the time-based policy and not meant to fill the file system, on a file
  system whose figures are sound and with sizes that a 64-bit number holds, ends without a panic after at most
  as many iterations as asked for, and one when none are.\<close>

theorem runs_end:
  assumes "fm_resolve a mountpoint = Inr p" and "\<not> fa_fill_fs a" and "fm_policy p \<noteq> TimeHash"
    and "fa_file_size a * fa_files a < 2 ^ 64" and "sound_statfs F"
  shows "\<exists>k' rep. fm_run F rate p k = Some (k', rep) \<and> loops_done rep \<le> max 1 (fa_iterations a)"
proof -
  have p: "fm_policy p \<noteq> NoSubdirs \<Longrightarrow> 0 < fm_num_subdirs p" "fm_file_size p * fm_num_files p < 2 ^ 64"
    "\<not> fm_fill_fs p" "fm_loop_count p = fa_iterations a"
    using fm_resolve_ok(15) [OF assms(1)] fm_resolve_ok(9,10,11,12) [OF assms(1)] assms(2,4) by auto
  have "\<exists>r. run_threads F p [0..<fm_threads p] k = Some r" for k
    by (rule run_threads_returns, rule fm_run_thread_returns [OF assms(3) p(1) p(2) assms(5)])
  moreover have "\<exists>r. use_pct F p k = Some r" for k by (rule use_pct_returns [OF assms(5)])
  moreover have "loops_done no_report < max 1 (fm_loop_count p)" by (simp add: no_report_def)
  ultimately have "\<exists>k' rep. fm_loop F rate p no_report k = Some (k', rep) \<and> loops_done rep \<le> max 1 (fm_loop_count p)"
    using p(3) by (intro fm_loop_returns)
  then show ?thesis by (simp add: fm_run_def p(4))
qed

theorem runs_end_witness: "\<exists>k' rep. fm_run toy_fs (\<lambda>rows. 0) toy_params toy_start = Some (k', rep) \<and> loops_done rep \<le> 2"
proof -
  have "fa_file_size toy_args * fa_files toy_args < 2 ^ 64" "\<not> fa_fill_fs toy_args" "max 1 (fa_iterations toy_args) = 2"
    "fm_policy toy_params \<noteq> TimeHash"
    by (simp_all add: toy_args_def toy_params_def)
  then show ?thesis using runs_end [OF toy_resolve _ _ _ toy_statfs, of "\<lambda>rows. 0" toy_start] by simp
qed

text \<open>The report of an iteration gives for each kind of call the total, the largest and the least time of all
  threads together, where a least time of 0 stands for a thread without such calls, and the number of files of
  all threads.\<close>

theorem aggregate_is_exact:
  assumes "rows \<noteq> []"
  shows "a_count (aggregate rows n) = sum_list (map r_file_count rows) \<and>
    (\<forall>(of_agg, of_row)\<in>{(a_creat, r_creat), (a_write, r_write), (a_fsync, r_fsync), (a_close, r_close), (a_unlink, r_unlink)}.
       st_total (of_agg (aggregate rows n)) = sum_list (map (st_total \<circ> of_row) rows) \<and>
       st_max (of_agg (aggregate rows n)) = Max (st_max ` of_row ` set rows) \<and>
       least_seen (st_min (of_agg (aggregate rows n))) (st_min ` of_row ` set rows))"
proof -
  have "st_total (merge_all (map f rows)) = sum_list (map (st_total \<circ> f) rows) \<and>
       st_max (merge_all (map f rows)) = Max (st_max ` f ` set rows) \<and>
       least_seen (st_min (merge_all (map f rows))) (st_min ` f ` set rows)" for f
    using merge_all_total [of "map f rows"] merge_all_max [of "map f rows"] merge_all_min [of "map f rows"] assms by simp
  then show ?thesis by (simp add: aggregate_stats)
qed

theorem aggregate_is_exact_witness:
  "least_seen (st_min (a_creat (aggregate [zero_row\<lparr>r_creat := stat_add 7 zero_stat\<rparr>, zero_row] 2))) {7, 0}"
  using aggregate_is_exact [of "[zero_row\<lparr>r_creat := stat_add 7 zero_stat\<rparr>, zero_row]" 2]
  by (simp add: stat_add_def zero_stat_def zero_row_def)

text \<open>The percentiles of the rates are rates of the run, in descending order, and more than half, nine tenths
  and ninety-nine hundredths of the iterations were at least as fast.\<close>

theorem percentiles_of_rates:
  assumes "rs \<noteq> []" and "percentiles rs = (p50, p90, p99)"
  shows "p99 \<le> p90 \<and> p90 \<le> p50 \<and> {p50, p90, p99} \<subseteq> set rs \<and>
    length rs div 2 < length (filter (\<lambda>r. p50 \<le> r) rs) \<and> length rs * 9 div 10 < length (filter (\<lambda>r. p90 \<le> r) rs) \<and>
    length rs * 99 div 100 < length (filter (\<lambda>r. p99 \<le> r) rs)"
proof -
  have p: "p50 = pick_rate rs (length rs div 2)" "p90 = pick_rate rs (length rs * 9 div 10)"
    "p99 = pick_rate rs (length rs * 99 div 100)"
    using assms by (simp_all add: percentiles_def Let_def)
  have less: "length rs div 2 < length rs" "length rs * 9 div 10 < length rs" "length rs * 99 div 100 < length rs"
    using assms(1) by (simp_all add: div_less_iff_less_mult)
  have "length rs div 2 \<le> length rs * 9 div 10" "length rs * 9 div 10 \<le> length rs * 99 div 100" by linarith+
  then show ?thesis
    unfolding p using pick_rate_anti [OF assms(1)] pick_rate_count [OF assms(1) less(1)] pick_rate_count [OF assms(1) less(2)]
      pick_rate_count [OF assms(1) less(3)] by blast
qed

theorem percentiles_of_rates_witness: "percentiles [30, 10, 20] = (20, 10, 10) \<and> (10::nat) \<le> 20"
proof -
  have p: "percentiles [30, 10, 20] = (20, 10, 10)" by code_simp
  then show ?thesis using percentiles_of_rates [OF _ p] by simp
qed

end
