(* ===== verification/Git_Runner.thy ===== *)
theory Git_Runner
  imports Rust_Text "HOL-Library.List_Lexorder"
begin

text \<open>
  The runner of git's test suite (src/src/git.rs): the selection of scripts, the parser of the TAP that a
  script prints, the verdict on a script and on a run, and the queue from which parallel workers take the
  scripts. The output and the exit code of a script are data: running it is left out. A string is the list of its
  characters; where the code counts bytes the text is taken to be ASCII.
\<close>

section \<open>Selection\<close>

text \<open>The scripts of a tree: the names of its directory that look like one, without the ending.\<close>

definition is_script :: "string \<Rightarrow> bool" where
  "is_script name \<longleftrightarrow>
     starts_with ''t'' name \<and> 1 < length name \<and> is_digit (name ! 1) \<and> ends_with ''.sh'' name"

definition discover_scripts :: "string list \<Rightarrow> string list" where
  "discover_scripts names = sort (map (trim_end_matches ''.sh'') (filter is_script names))"

datatype entry_error = NoSuchScript string | Ambiguous string "string list"

definition resolve_entry :: "string \<Rightarrow> string list \<Rightarrow> entry_error + string" where
  "resolve_entry entry scripts =
     (if entry \<in> set scripts then Inr entry
      else case filter (starts_with entry) scripts of
             [s] \<Rightarrow> Inr s
           | [] \<Rightarrow> Inl (NoSuchScript entry)
           | ss \<Rightarrow> Inl (Ambiguous entry ss))"

record git_args =
  g_tier :: string
  g_tests :: "string list"
  g_filter :: "string list"

text \<open>The entries that a tier stands for; the lists of the tiers are constants of the program.\<close>

definition tier_entries :: "string list \<Rightarrow> string list \<Rightarrow> string list \<Rightarrow> git_args \<Rightarrow> string list option" where
  "tier_entries tier_a tier_b scripts a =
     (if g_tests a \<noteq> [] then Some (g_tests a)
      else if g_tier a = ''a'' then Some tier_a
      else if g_tier a = ''b'' then Some (tier_a @ tier_b)
      else if g_tier a = ''all'' then Some scripts
      else None)"

fun resolve_all :: "string list \<Rightarrow> string list \<Rightarrow> string list \<Rightarrow> entry_error list \<Rightarrow> string list \<times> entry_error list" where
  "resolve_all scripts [] selected unmatched = (selected, unmatched)"
| "resolve_all scripts (e # es) selected unmatched =
     (case resolve_entry e scripts of
        Inr s \<Rightarrow> resolve_all scripts es (if s \<in> set selected then selected else selected @ [s]) unmatched
      | Inl err \<Rightarrow> resolve_all scripts es selected (unmatched @ [err]))"

definition selection ::
  "string list \<Rightarrow> string list \<Rightarrow> string list \<Rightarrow> git_args \<Rightarrow> (string list \<times> entry_error list) option" where
  "selection tier_a tier_b names a =
     (let scripts = discover_scripts names
      in case tier_entries tier_a tier_b scripts a of
           None \<Rightarrow> None
         | Some entries \<Rightarrow>
             (let (selected, unmatched) =
                (if g_tier a = ''all'' \<and> g_tests a = [] then (scripts, []) else resolve_all scripts entries [] []);
                selected = (if g_filter a = [] then selected
                  else filter (\<lambda>s. \<exists>f\<in>set (g_filter a). contains s f) selected)
              in Some (sort selected, unmatched)))"

section \<open>TAP\<close>

record tap =
  tap_plan :: "nat option"
  tap_pass :: nat
  tap_fail :: nat
  tap_skip :: nat
  tap_todo :: nat
  tap_fixed :: nat
  tap_skip_all :: "string option"
  tap_reasons :: "(string \<times> nat) list"
  tap_failures :: "(string \<times> string) list"

definition no_tap :: tap where
  "no_tap =
     \<lparr>tap_plan = None, tap_pass = 0, tap_fail = 0, tap_skip = 0, tap_todo = 0, tap_fixed = 0, tap_skip_all = None,
      tap_reasons = [], tap_failures = []\<rparr>"

definition plan_line :: "string \<Rightarrow> tap \<Rightarrow> tap" where
  "plan_line line t =
     (let plan = parse_u64 (takeWhile is_digit (drop 3 line))
      in t\<lparr>tap_plan := plan,
           tap_skip_all := (if plan = Some 0
             then (case find_sub ''# SKIP'' line of Some pos \<Rightarrow> Some (trim (drop (pos + 6) line)) | None \<Rightarrow> tap_skip_all t)
             else tap_skip_all t)\<rparr>)"

text \<open>A result line: whether it is ok, and what follows.\<close>

definition result_line :: "string \<Rightarrow> (bool \<times> string) option" where
  "result_line line =
     (case strip_prefix ''not ok '' line of
        Some r \<Rightarrow> Some (False, r)
      | None \<Rightarrow> map_option (Pair True) (strip_prefix ''ok '' line))"

definition body_and_directive :: "string \<Rightarrow> string \<times> string option" where
  "body_and_directive rest =
     (let rest = trim_start (dropWhile is_digit (trim_start rest))
      in case strip_prefix ''# '' rest of
           Some d \<Rightarrow> ([], Some d)
         | None \<Rightarrow> (case split_once '' # '' rest of Some (b, d) \<Rightarrow> (b, Some d) | None \<Rightarrow> (rest, None)))"

definition test_name :: "string \<Rightarrow> string" where
  "test_name body = trim (case strip_prefix ''- '' body of Some b \<Rightarrow> b | None \<Rightarrow> body)"

text \<open>The word of a directive and what follows it.\<close>

definition directive_word :: "string \<Rightarrow> string" where
  "directive_word d = map to_lower (takeWhile (\<lambda>c. c \<noteq> CHR '' '') d)"

definition directive_rest :: "string \<Rightarrow> string" where
  "directive_rest d = trim (drop 1 (dropWhile (\<lambda>c. c \<noteq> CHR '' '') d))"

text \<open>The reason of a skip: what is in its last parentheses, or all of it.\<close>

definition skip_reason :: "string \<Rightarrow> string" where
  "skip_reason drest =
     take 100 (if CHR ''('' \<in> set drest
       then trim_end_matches '')'' (rev (takeWhile (\<lambda>c. c \<noteq> CHR ''('') (rev drest))) else drest)"

fun count_reason :: "string \<Rightarrow> (string \<times> nat) list \<Rightarrow> (string \<times> nat) list" where
  "count_reason r [] = [(r, 1)]"
| "count_reason r ((q, n) # rs) = (if q = r then (q, n + 1) # rs else (q, n) # count_reason r rs)"

definition count_skip :: "string \<Rightarrow> tap \<Rightarrow> tap" where
  "count_skip drest t =
     (let r = skip_reason drest
      in t\<lparr>tap_skip := tap_skip t + 1, tap_reasons := (if r = [] then tap_reasons t else count_reason r (tap_reasons t))\<rparr>)"

text \<open>A test without a known directive; of at most ten failures the name is kept.\<close>

definition count_plain :: "bool \<Rightarrow> string \<Rightarrow> tap \<Rightarrow> tap \<times> string" where
  "count_plain ok name t =
     (if ok then (t\<lparr>tap_pass := tap_pass t + 1\<rparr>, [])
      else (t\<lparr>tap_fail := tap_fail t + 1\<rparr>, if length (tap_failures t) < 10 then name else []))"

definition tap_result :: "bool \<Rightarrow> string \<Rightarrow> tap \<Rightarrow> tap \<times> string" where
  "tap_result ok rest t =
     (let (body, directive) = body_and_directive rest; name = test_name body
      in case directive of
           None \<Rightarrow> count_plain ok name t
         | Some d \<Rightarrow>
             if directive_word d = ''skip'' then (count_skip (directive_rest d) t, [])
             else if directive_word d = ''todo''
             then (if contains (directive_rest d) ''vanished'' \<or> ok then t\<lparr>tap_fixed := tap_fixed t + 1\<rparr>
                   else t\<lparr>tap_todo := tap_todo t + 1\<rparr>, [])
             else count_plain ok name t)"

text \<open>One line: the counts, and the name of a failure whose details follow.\<close>

definition tap_line :: "string \<Rightarrow> tap \<Rightarrow> tap \<times> string" where
  "tap_line line t =
     (if starts_with ''1..'' line then (plan_line line t, [])
      else case result_line line of
             None \<Rightarrow> (t, [])
           | Some (ok, rest) \<Rightarrow> tap_result ok rest t)"

definition summary_line :: "string \<Rightarrow> bool" where
  "summary_line t \<longleftrightarrow>
     starts_with ''failed '' t \<or> starts_with ''passed '' t \<or> starts_with ''still have '' t \<or> contains t ''known breakage(s)''"

definition tail_of :: "string \<Rightarrow> nat \<Rightarrow> string" where
  "tail_of s cap = (if length s \<le> cap then s else ''...'' @ drop (length s - cap) s)"

text \<open>The comment lines behind a failure, up to a line of the summary.\<close>

fun take_detail :: "string list \<Rightarrow> string \<Rightarrow> string \<times> string list" where
  "take_detail [] det = (det, [])"
| "take_detail (l # ls) det =
     (if starts_with ''#'' l then
        (let t = trim (dropWhile (\<lambda>c. c = CHR ''#'') l)
         in if summary_line t then (det, l # ls)
            else take_detail ls (if length det < 800 then det @ t @ [LF] else det))
      else (det, l # ls))"

lemma take_detail_shorter: "length (snd (take_detail ls det)) \<le> length ls"
  by (induction ls arbitrary: det) (auto simp: Let_def le_SucI)

function tap_lines :: "string list \<Rightarrow> tap \<Rightarrow> tap" where
  "tap_lines [] t = t"
| "tap_lines (l # ls) t =
     (let (t, detail) = tap_line l t
      in if detail = [] then tap_lines ls t
         else (let (det, ls') = take_detail ls (detail @ [LF])
               in tap_lines ls' (t\<lparr>tap_failures := tap_failures t @ [(detail, tail_of det 800)]\<rparr>)))"
  by pat_completeness auto
termination
  by (relation "measure (\<lambda>(ls, t). length ls)") (auto dest: arg_cong [of _ _ snd] simp: less_Suc_eq_le, metis snd_conv take_detail_shorter)

definition parse_tap :: "string \<Rightarrow> tap" where
  "parse_tap out = tap_lines (lines out) no_tap"

section \<open>Verdicts\<close>

datatype git_status = GOk | GFail | GBroken | GTimedout | GSkip

record git_exec =
  e_code :: "int option"
  e_timed_out :: bool
  e_stdout :: string
  e_spawn_err :: bool

definition tap_seen :: "tap \<Rightarrow> nat" where
  "tap_seen t = tap_pass t + tap_fail t + tap_skip t + tap_todo t + tap_fixed t"

definition script_status :: "git_exec \<Rightarrow> git_status" where
  "script_status ex =
     (let t = parse_tap (e_stdout ex)
      in if e_spawn_err ex then GBroken
         else if e_timed_out ex then GTimedout
         else if tap_plan t = None \<or> Some (tap_seen t) \<noteq> tap_plan t then GBroken
         else if tap_plan t = Some 0 then GSkip
         else if 0 < tap_fail t then GFail
         else if e_code ex \<noteq> Some 0 \<and> tap_fixed t = 0 then GBroken
         else GOk)"

definition count_status :: "git_status \<Rightarrow> git_status list \<Rightarrow> nat" where
  "count_status st items = length (filter (\<lambda>s. s = st) items)"

definition run_ok :: "git_status list \<Rightarrow> bool" where
  "run_ok items \<longleftrightarrow> count_status GFail items = 0 \<and> count_status GBroken items = 0 \<and> count_status GTimedout items = 0"

section \<open>Every line is counted once\<close>

text \<open>What a line is, read on its own.\<close>

datatype tap_kind = KPass | KFail | KSkip | KTodo | KFixed

definition line_kind :: "string \<Rightarrow> tap_kind option" where
  "line_kind l =
     (case result_line l of
        None \<Rightarrow> None
      | Some (ok, rest) \<Rightarrow>
          Some (case snd (body_and_directive rest) of
                  None \<Rightarrow> if ok then KPass else KFail
                | Some d \<Rightarrow>
                    if directive_word d = ''skip'' then KSkip
                    else if directive_word d = ''todo''
                    then (if ok \<or> contains (directive_rest d) ''vanished'' then KFixed else KTodo)
                    else if ok then KPass else KFail))"

definition kinds :: "tap_kind \<Rightarrow> string list \<Rightarrow> nat" where
  "kinds k ls = length (filter (\<lambda>l. line_kind l = Some k) ls)"

fun tap_count :: "tap_kind \<Rightarrow> tap \<Rightarrow> nat" where
  "tap_count KPass t = tap_pass t"
| "tap_count KFail t = tap_fail t"
| "tap_count KSkip t = tap_skip t"
| "tap_count KTodo t = tap_todo t"
| "tap_count KFixed t = tap_fixed t"

text \<open>The plan of the last line that announces one.\<close>

definition announced :: "nat option \<Rightarrow> string list \<Rightarrow> nat option" where
  "announced p ls =
     (let ps = filter (starts_with ''1..'') ls in if ps = [] then p else parse_u64 (takeWhile is_digit (drop 3 (last ps))))"

lemma result_line_head: "result_line l = Some x \<Longrightarrow> l \<noteq> [] \<and> (hd l = CHR ''n'' \<or> hd l = CHR ''o'')"
  by (auto simp: result_line_def strip_prefix_Some_iff split: option.splits)

lemma line_kind_None: "l = [] \<or> hd l \<noteq> CHR ''n'' \<and> hd l \<noteq> CHR ''o'' \<Longrightarrow> line_kind l = None"
  using result_line_head [of l] by (auto simp: line_kind_def split: option.splits)

lemma plan_line_no_kind: "starts_with ''1..'' l \<Longrightarrow> line_kind l = None"
  by (rule line_kind_None) (auto simp: starts_with_iff)

lemma comment_no_kind: "starts_with ''#'' l \<Longrightarrow> line_kind l = None"
  by (rule line_kind_None) (auto simp: starts_with_iff)

lemma count_plain_count:
  "count_plain ok name t = (t', d) \<Longrightarrow>
     tap_count k t' = tap_count k t + (if k = (if ok then KPass else KFail) then 1 else 0) \<and>
     tap_plan t' = tap_plan t \<and> tap_failures t' = tap_failures t \<and> (d \<noteq> [] \<longrightarrow> length (tap_failures t) < 10)"
  by (cases k) (auto simp: count_plain_def split: if_splits)

lemma count_skip_count:
  "tap_count k (count_skip d t) = tap_count k t + (if k = KSkip then 1 else 0) \<and>
   tap_plan (count_skip d t) = tap_plan t \<and> tap_failures (count_skip d t) = tap_failures t"
  by (cases k) (auto simp: count_skip_def Let_def)

lemma todo_count:
  "tap_count k (t\<lparr>tap_fixed := Suc (tap_fixed t)\<rparr>) = tap_count k t + (if k = KFixed then 1 else 0)"
  "tap_count k (t\<lparr>tap_todo := Suc (tap_todo t)\<rparr>) = tap_count k t + (if k = KTodo then 1 else 0)"
  by (cases k; simp)+

lemma tap_line_count:
  assumes "tap_line l t = (t', d)"
  shows "tap_count k t' = tap_count k t + (if line_kind l = Some k then 1 else 0)"
    and "tap_plan t' = (if starts_with ''1..'' l then parse_u64 (takeWhile is_digit (drop 3 l)) else tap_plan t)"
    and "tap_failures t' = tap_failures t" and "d \<noteq> [] \<Longrightarrow> length (tap_failures t) < 10"
proof -
  have "tap_count k t' = tap_count k t + (if line_kind l = Some k then 1 else 0) \<and>
      tap_plan t' = (if starts_with ''1..'' l then parse_u64 (takeWhile is_digit (drop 3 l)) else tap_plan t) \<and>
      tap_failures t' = tap_failures t \<and> (d \<noteq> [] \<longrightarrow> length (tap_failures t) < 10)"
  proof (cases "starts_with ''1..'' l")
    case True
    moreover have "tap_count k (plan_line l t) = tap_count k t" by (cases k) (simp_all add: plan_line_def Let_def)
    ultimately show ?thesis using assms plan_line_no_kind [OF True] by (auto simp: tap_line_def plan_line_def Let_def)
  next
    case plain: False
    show ?thesis
    proof (cases "result_line l")
      case None
      then show ?thesis using assms plain by (auto simp: tap_line_def line_kind_def)
    next
      case (Some r)
      obtain ok rest where r: "r = (ok, rest)" by (cases r)
      obtain body dir where b: "body_and_directive rest = (body, dir)" by (cases "body_and_directive rest")
      have "tap_result ok rest t = (t', d)" using assms plain Some r by (simp add: tap_line_def)
      then show ?thesis
        using plain Some r b count_plain_count [of ok "test_name body" t t' d k]
        by (auto simp: tap_result_def line_kind_def Let_def count_skip_count todo_count
            simp del: tap_count.simps split: option.splits if_splits)
    qed
  qed
  then show "tap_count k t' = tap_count k t + (if line_kind l = Some k then 1 else 0)"
    "tap_plan t' = (if starts_with ''1..'' l then parse_u64 (takeWhile is_digit (drop 3 l)) else tap_plan t)"
    "tap_failures t' = tap_failures t" "d \<noteq> [] \<Longrightarrow> length (tap_failures t) < 10" by blast+
qed

text \<open>The details of a failure hold no result and no plan.\<close>

lemma take_detail_rest:
  assumes "\<And>l. starts_with ''#'' l \<Longrightarrow> \<not> P l"
  shows "filter P (snd (take_detail ls det)) = filter P ls"
  using assms by (induction ls arbitrary: det) (auto simp: Let_def)

lemma comment_no_plan: "starts_with ''#'' l \<Longrightarrow> \<not> starts_with ''1..'' l"
  by (auto simp: starts_with_iff)

lemma tap_lines_count:
  "tap_count k (tap_lines ls t) = tap_count k t + kinds k ls \<and>
   tap_plan (tap_lines ls t) = announced (tap_plan t) ls \<and>
   (length (tap_failures t) \<le> 10 \<longrightarrow> length (tap_failures (tap_lines ls t)) \<le> 10)"
proof (induction ls t rule: tap_lines.induct)
  case (2 l ls t)
  obtain t' d where td: "tap_line l t = (t', d)" by (cases "tap_line l t")
  note c = tap_line_count [OF td]
  have ann: "announced (tap_plan t') ls = announced (tap_plan t) (l # ls)" unfolding c by (simp add: announced_def)
  show ?case
  proof (cases "d = []")
    case True
    then show ?thesis using "2.IH"(1) [OF td [symmetric] refl True] td c(1) [of k] c(3) ann by (auto simp: kinds_def)
  next
    case False
    obtain det ls' where tk: "take_detail ls (d @ [LF]) = (det, ls')" by (cases "take_detail ls (d @ [LF])")
    let ?t = "t'\<lparr>tap_failures := tap_failures t' @ [(d, tail_of det 800)]\<rparr>"
    have same: "tap_count k ?t = tap_count k t'" by (cases k) simp_all
    have "filter (\<lambda>l. line_kind l = Some k) ls' = filter (\<lambda>l. line_kind l = Some k) ls"
      using take_detail_rest [of "\<lambda>l. line_kind l = Some k" ls "d @ [LF]"] comment_no_kind tk by auto
    moreover have "filter (starts_with ''1..'') ls' = filter (starts_with ''1..'') ls"
      using take_detail_rest [of "starts_with ''1..''" ls "d @ [LF]"] comment_no_plan tk by auto
    ultimately have rest: "kinds k ls' = kinds k ls" "announced p ls' = announced p ls" for p
      by (simp_all add: kinds_def announced_def)
    show ?thesis
      using "2.IH"(2) [OF td [symmetric] refl False tk [symmetric] refl] td tk False c(1) [of k] c(3,4) ann same rest
      by (auto simp: kinds_def)
  qed
qed (simp add: kinds_def announced_def)

lemma parse_tap_counts:
  "tap_count k (parse_tap out) = kinds k (lines out)" "tap_plan (parse_tap out) = announced None (lines out)"
  "length (tap_failures (parse_tap out)) \<le> 10"
proof -
  have zero: "tap_count k no_tap = 0" by (cases k) (simp_all add: no_tap_def)
  show "tap_count k (parse_tap out) = kinds k (lines out)"
    using tap_lines_count [of k "lines out" no_tap] zero by (simp add: parse_tap_def)
  show "tap_plan (parse_tap out) = announced None (lines out)"
    using tap_lines_count [of k "lines out" no_tap] by (simp add: parse_tap_def no_tap_def)
  show "length (tap_failures (parse_tap out)) \<le> 10"
    using tap_lines_count [of k "lines out" no_tap] by (simp add: parse_tap_def no_tap_def)
qed

lemma all_kinds:
  "kinds KPass ls + kinds KFail ls + kinds KSkip ls + kinds KTodo ls + kinds KFixed ls =
   length (filter (\<lambda>l. result_line l \<noteq> None) ls)"
proof (induction ls)
  case (Cons l ls)
  have "line_kind l = None \<longleftrightarrow> result_line l = None" by (auto simp: line_kind_def split: option.splits)
  then show ?case using Cons by (cases "line_kind l"; cases "the (line_kind l)") (auto simp: kinds_def)
qed (simp add: kinds_def)

lemma tap_seen_lines: "tap_seen (parse_tap out) = length (filter (\<lambda>l. result_line l \<noteq> None) (lines out))"
  using parse_tap_counts(1) [of KPass out] parse_tap_counts(1) [of KFail out] parse_tap_counts(1) [of KSkip out]
    parse_tap_counts(1) [of KTodo out] parse_tap_counts(1) [of KFixed out] all_kinds [of "lines out"]
  by (simp add: tap_seen_def)

end
