(* ===== verification/Work_Queue.thy ===== *)
theory Work_Queue
  imports Main
begin

text \<open>
  The queue of the runners (run\_parallel in src/src/git.rs): workers take the next number of a shared
  counter, run the item of that number, store its result under the lock and go on until the numbers are used
  up. A step is one access to the shared state; any worker may take the next step. A result is a function of
  the item's number, which stands for whatever the run of the item gave.
\<close>

section \<open>The machine\<close>

datatype worker = AtTop | Running nat | Finished

record 'r queue =
  q_next :: nat
  q_out :: "'r option list"
  q_workers :: "worker list"

definition start_queue :: "nat \<Rightarrow> nat \<Rightarrow> 'r queue" where
  "start_queue n jobs = \<lparr>q_next = 0, q_out = replicate n None, q_workers = replicate (max jobs 1) AtTop\<rparr>"

inductive queue_step :: "nat \<Rightarrow> (nat \<Rightarrow> 'r) \<Rightarrow> 'r queue \<Rightarrow> 'r queue \<Rightarrow> bool" for n f where
  take_item: "\<lbrakk>w < length (q_workers q); q_workers q ! w = AtTop; q_next q < n\<rbrakk> \<Longrightarrow>
     queue_step n f q (q\<lparr>q_next := q_next q + 1, q_workers := (q_workers q)[w := Running (q_next q)]\<rparr>)"
| leave: "\<lbrakk>w < length (q_workers q); q_workers q ! w = AtTop; n \<le> q_next q\<rbrakk> \<Longrightarrow>
     queue_step n f q (q\<lparr>q_next := q_next q + 1, q_workers := (q_workers q)[w := Finished]\<rparr>)"
| store: "\<lbrakk>w < length (q_workers q); q_workers q ! w = Running i\<rbrakk> \<Longrightarrow>
     queue_step n f q (q\<lparr>q_out := (q_out q)[i := Some (f i)], q_workers := (q_workers q)[w := AtTop]\<rparr>)"

inductive queue_steps :: "nat \<Rightarrow> (nat \<Rightarrow> 'r) \<Rightarrow> 'r queue \<Rightarrow> nat \<Rightarrow> 'r queue \<Rightarrow> bool" for n f where
  no_steps: "queue_steps n f q 0 q"
| more_steps: "queue_steps n f q m q1 \<Longrightarrow> queue_step n f q1 q2 \<Longrightarrow> queue_steps n f q (Suc m) q2"

text \<open>The results of all items; a missing one is a panic.\<close>

fun all_results :: "'r option list \<Rightarrow> 'r list option" where
  "all_results [] = Some []"
| "all_results (None # rs) = None"
| "all_results (Some r # rs) = map_option ((#) r) (all_results rs)"

section \<open>The invariant\<close>

text \<open>Each number below the counter is stored or with exactly one worker; the others are untouched, and a worker
  leaves only when the numbers are used up.\<close>

definition running :: "'r queue \<Rightarrow> nat list" where
  "running q = concat (map (\<lambda>w. case w of Running i \<Rightarrow> [i] | _ \<Rightarrow> []) (q_workers q))"

definition queue_ok :: "nat \<Rightarrow> (nat \<Rightarrow> 'r) \<Rightarrow> 'r queue \<Rightarrow> bool" where
  "queue_ok n f q \<longleftrightarrow>
     length (q_out q) = n \<and> distinct (running q) \<and> (\<forall>i\<in>set (running q). i < n \<and> i < q_next q \<and> q_out q ! i = None) \<and>
     (\<forall>i<n. q_out q ! i = (if i < q_next q \<and> i \<notin> set (running q) then Some (f i) else None)) \<and>
     (Finished \<in> set (q_workers q) \<longrightarrow> n \<le> q_next q)"

lemma running_upd:
  assumes "w < length (q_workers q)"
  obtains us vs where "q_workers q = us @ q_workers q ! w # vs"
    "\<And>x. (q_workers q)[w := x] = us @ x # vs"
  using assms id_take_nth_drop [OF assms] upd_conv_take_nth_drop [OF assms] by metis

lemma running_append:
  "q_workers q = us @ x # vs \<Longrightarrow> running q =
     concat (map (\<lambda>w. case w of Running i \<Rightarrow> [i] | _ \<Rightarrow> []) us) @ (case x of Running i \<Rightarrow> [i] | _ \<Rightarrow> []) @
     concat (map (\<lambda>w. case w of Running i \<Rightarrow> [i] | _ \<Rightarrow> []) vs)"
  by (simp add: running_def)

lemma start_ok: "queue_ok n f (start_queue n jobs)"
proof -
  have r: "running (start_queue n jobs) = []" by (simp add: running_def start_queue_def)
  have "Finished \<notin> set (q_workers (start_queue n jobs))" by (auto simp: start_queue_def)
  then show ?thesis unfolding queue_ok_def r by (simp add: start_queue_def)
qed

lemma step_ok: "queue_step n f q q' \<Longrightarrow> queue_ok n f q \<Longrightarrow> queue_ok n f q'"
proof (induction rule: queue_step.induct)
  case (take_item w q)
  obtain us vs where u: "q_workers q = us @ AtTop # vs" "\<And>x. (q_workers q)[w := x] = us @ x # vs"
    using running_upd [OF take_item.hyps(1)] take_item.hyps(2) by metis
  let ?q = "q\<lparr>q_next := q_next q + 1, q_workers := (q_workers q)[w := Running (q_next q)]\<rparr>"
  have mem: "set (running ?q) = insert (q_next q) (set (running q))"
    using running_append [OF u(1)] running_append [of ?q us "Running (q_next q)" vs] u(2) by auto
  have new: "q_next q \<notin> set (running q)" using take_item.prems by (auto simp: queue_ok_def)
  then have dist: "distinct (running ?q)"
    using take_item.prems running_append [OF u(1)] running_append [of ?q us "Running (q_next q)" vs] u(2)
    by (auto simp: queue_ok_def)
  have fin: "Finished \<notin> set (q_workers q)" using take_item by (auto simp: queue_ok_def)
  then have fin2: "Finished \<notin> set (q_workers ?q)" using u by auto
  show ?case
    unfolding queue_ok_def mem using take_item dist fin2 new by (auto simp: queue_ok_def less_Suc_eq)
next
  case (leave w q)
  obtain us vs where u: "q_workers q = us @ AtTop # vs" "\<And>x. (q_workers q)[w := x] = us @ x # vs"
    using running_upd [OF leave.hyps(1)] leave.hyps(2) by metis
  let ?q = "q\<lparr>q_next := q_next q + 1, q_workers := (q_workers q)[w := Finished]\<rparr>"
  have same: "running ?q = running q"
    using running_append [OF u(1)] running_append [of ?q us Finished vs] u(2) by simp
  show ?case unfolding queue_ok_def same using leave by (auto simp: queue_ok_def less_Suc_eq)
next
  case (store w q i)
  obtain us vs where u: "q_workers q = us @ Running i # vs" "\<And>x. (q_workers q)[w := x] = us @ x # vs"
    using running_upd [OF store.hyps(1)] store.hyps(2) by metis
  let ?q = "q\<lparr>q_out := (q_out q)[i := Some (f i)], q_workers := (q_workers q)[w := AtTop]\<rparr>"
  have dist: "distinct (running ?q)" and mem: "set (running ?q) = set (running q) - {i}" and i: "i \<in> set (running q)"
    using store.prems running_append [OF u(1)] running_append [of ?q us AtTop vs] u(2) by (auto simp: queue_ok_def)
  have fin: "Finished \<in> set (q_workers ?q) \<Longrightarrow> Finished \<in> set (q_workers q)" using u by auto
  show ?case
    unfolding queue_ok_def mem using store.prems dist i fin by (auto simp: queue_ok_def nth_list_update)
qed

lemma steps_ok: "queue_steps n f q m q' \<Longrightarrow> queue_ok n f q \<Longrightarrow> queue_ok n f q'"
  by (induction rule: queue_steps.induct) (auto intro: step_ok)

section \<open>The end\<close>

lemma all_results_map: "(\<forall>i<length rs. rs ! i = Some (f i)) \<Longrightarrow> all_results rs = Some (map f [0..<length rs])"
proof (induction rs arbitrary: f)
  case (Cons r rs)
  have "r = Some (f 0)" using Cons.prems by auto
  moreover have "all_results rs = Some (map (f \<circ> Suc) [0..<length rs])" 
  proof (rule Cons.IH, intro allI impI)
    fix i assume "i < length rs"
    then show "rs ! i = Some ((f \<circ> Suc) i)" using Cons.prems [rule_format, of "Suc i"] by simp
  qed
  ultimately show ?case by (simp add: map_upt_Suc del: upt_Suc)
qed simp

lemma ended_results:
  assumes "queue_ok n f q" "q_workers q \<noteq> []" "\<forall>w\<in>set (q_workers q). w = Finished"
  shows "all_results (q_out q) = Some (map f [0..<n])"
proof -
  have "running q = []" using assms(3) by (auto simp: running_def)
  moreover have "n \<le> q_next q" using assms by (auto simp: queue_ok_def) (metis assms(3) list.set_sel(1))
  ultimately show ?thesis using all_results_map [of "q_out q" f] assms(1) by (auto simp: queue_ok_def)
qed

text \<open>A measure that every step makes smaller.\<close>

definition work_left :: "nat \<Rightarrow> 'r queue \<Rightarrow> nat" where
  "work_left n q = 2 * (n - q_next q) + sum_list (map (\<lambda>w. case w of AtTop \<Rightarrow> 1 | Running i \<Rightarrow> 2 | Finished \<Rightarrow> 0) (q_workers q))"

lemma step_works: "queue_step n f q q' \<Longrightarrow> work_left n q' < work_left n q"
proof (induction rule: queue_step.induct)
  case (take_item w q)
  obtain us vs where "q_workers q = us @ AtTop # vs" "\<And>x. (q_workers q)[w := x] = us @ x # vs"
    using running_upd [OF take_item.hyps(1)] take_item.hyps(2) by metis
  then show ?case using take_item.hyps(3) by (simp add: work_left_def)
next
  case (leave w q)
  obtain us vs where "q_workers q = us @ AtTop # vs" "\<And>x. (q_workers q)[w := x] = us @ x # vs"
    using running_upd [OF leave.hyps(1)] leave.hyps(2) by metis
  then show ?case by (simp add: work_left_def)
next
  case (store w q i)
  obtain us vs where "q_workers q = us @ Running i # vs" "\<And>x. (q_workers q)[w := x] = us @ x # vs"
    using running_upd [OF store.hyps(1)] store.hyps(2) by metis
  then show ?case by (simp add: work_left_def)
qed

lemma steps_work: "queue_steps n f q m q' \<Longrightarrow> work_left n q' + m \<le> work_left n q"
proof (induction rule: queue_steps.induct)
  case (more_steps q m q1 q2)
  then show ?case using step_works [OF more_steps.hyps(2)] by simp
qed simp

lemma start_work: "work_left n (start_queue n jobs) = 2 * n + max jobs 1"
  by (simp add: work_left_def start_queue_def sum_list_replicate)

lemma workers_stay: "queue_steps n f q m q' \<Longrightarrow> length (q_workers q') = length (q_workers q)"
  by (induction rule: queue_steps.induct) (auto elim: queue_step.cases)

text \<open>A worker that has not finished can always take a step.\<close>

lemma can_step:
  assumes "w \<in> set (q_workers q)" "w \<noteq> Finished"
  shows "\<exists>q'. queue_step n f q q'"
proof -
  obtain v where v: "v < length (q_workers q)" "q_workers q ! v = w" using assms(1) by (auto simp: in_set_conv_nth)
  show ?thesis
  proof (cases w)
    case AtTop
    then show ?thesis using v take_item [of v q n f] leave [of v q n f] by (metis not_le)
  next
    case (Running i)
    then show ?thesis using v store [of v q i n f] by blast
  qed (use assms(2) in simp)
qed

end
