(* ===== verification/Ltp_Runner.thy ===== *)
theory Ltp_Runner
  imports Rust_Text
begin

text \<open>
  The runner of the Linux Test Project (src/src/ltp.rs): the removal list, the parser of its run files, the
  choice of tests, the meaning of exit codes and the counts of a run. What a test program did is data.
\<close>

section \<open>The choice of tests\<close>

record ltp_args =
  l_no_remove :: bool
  l_filter :: "string list"
  l_max_tests :: "nat option"

text \<open>The removal list that was read, or the built-in one, and always the tests that no mount can back.\<close>

definition removal_set :: "ltp_args \<Rightarrow> string option \<Rightarrow> string \<Rightarrow> string \<Rightarrow> string set" where
  "removal_set a list_text builtin unsupported =
     (if l_no_remove a then {}
      else set (split_ws (case list_text of Some t \<Rightarrow> t | None \<Rightarrow> builtin)) \<union> set (split_ws unsupported))"

fun join_words :: "string list \<Rightarrow> string" where
  "join_words [] = []"
| "join_words [w] = w"
| "join_words (w # ws) = w @ CHR '' '' # join_words ws"

definition runfile_line :: "string set \<Rightarrow> string \<Rightarrow> (string \<times> string) option" where
  "runfile_line remove line =
     (let l = trim line
      in if l = [] \<or> starts_with ''#'' l then None
         else case split_ws l of
                [] \<Rightarrow> None
              | name # words \<Rightarrow>
                  if name \<in> remove \<or> words = [] then None else Some (name, join_words words))"

definition parse_runfile :: "string \<Rightarrow> string set \<Rightarrow> (string \<times> string) list" where
  "parse_runfile text remove = List.map_filter (runfile_line remove) (lines text)"

text \<open>The tests of the run files in the order of the suites, filtered and cut off. A run file that cannot be
  read is an error, and so is an empty choice.\<close>

datatype ltp_error = CannotReadRunfile | NoTestsSelected

fun read_suites :: "string set \<Rightarrow> string option list \<Rightarrow> (string \<times> string) list option" where
  "read_suites remove [] = Some []"
| "read_suites remove (None # files) = None"
| "read_suites remove (Some text # files) = map_option ((@) (parse_runfile text remove)) (read_suites remove files)"

definition select_tests ::
  "ltp_args \<Rightarrow> string set \<Rightarrow> string option list \<Rightarrow> ltp_error + (string \<times> string) list" where
  "select_tests a remove files =
     (case read_suites remove files of
        None \<Rightarrow> Inl CannotReadRunfile
      | Some tests \<Rightarrow>
          (let tests = (if l_filter a = [] then tests else filter (\<lambda>t. \<exists>f\<in>set (l_filter a). contains (fst t) f) tests);
               tests = (case l_max_tests a of None \<Rightarrow> tests | Some n \<Rightarrow> take n tests)
           in if tests = [] then Inl NoTestsSelected else Inr tests))"

section \<open>Results\<close>

definition TPASS :: int where "TPASS = 0"
definition TFAIL :: int where "TFAIL = 1"
definition TBROK :: int where "TBROK = 2"
definition TCONF :: int where "TCONF = 32"

datatype ltp_result = LPass | LFail | LBroken | LSkip | LWarn | LTimedout

definition result_of :: "int option \<Rightarrow> bool \<Rightarrow> ltp_result" where
  "result_of code timed_out =
     (if timed_out then LTimedout
      else case code of
             None \<Rightarrow> LBroken
           | Some c \<Rightarrow> if c = TPASS then LPass else if c = TFAIL then LFail else if c = TBROK then LBroken
               else if c = TCONF then LSkip else LWarn)"

text \<open>A test program that could not be started in three attempts, or one that ended or was killed.\<close>

datatype ltp_event = NotStarted | Done "int option" bool

record ltp_counts =
  c_total :: nat
  c_pass :: nat
  c_fail :: nat
  c_broken :: nat
  c_skip :: nat
  c_warn :: nat
  c_tout :: nat

definition no_counts :: ltp_counts where
  "no_counts = \<lparr>c_total = 0, c_pass = 0, c_fail = 0, c_broken = 0, c_skip = 0, c_warn = 0, c_tout = 0\<rparr>"

definition ltp_count :: "ltp_result \<Rightarrow> ltp_counts \<Rightarrow> ltp_counts" where
  "ltp_count r c =
     (let c = (case r of
          LPass \<Rightarrow> c\<lparr>c_pass := c_pass c + 1\<rparr> | LWarn \<Rightarrow> c\<lparr>c_pass := c_pass c + 1\<rparr> | LFail \<Rightarrow> c\<lparr>c_fail := c_fail c + 1\<rparr>
        | LBroken \<Rightarrow> c\<lparr>c_broken := c_broken c + 1\<rparr> | LSkip \<Rightarrow> c\<lparr>c_skip := c_skip c + 1\<rparr>
        | LTimedout \<Rightarrow> c\<lparr>c_tout := c_tout c + 1\<rparr>)
      in if r = LWarn then c\<lparr>c_warn := c_warn c + 1\<rparr> else c)"

definition count_event :: "ltp_event \<Rightarrow> ltp_counts \<Rightarrow> ltp_counts" where
  "count_event e c =
     (let c = c\<lparr>c_total := c_total c + 1\<rparr>
      in case e of NotStarted \<Rightarrow> c\<lparr>c_broken := c_broken c + 1\<rparr> | Done code tout \<Rightarrow> ltp_count (result_of code tout) c)"

definition run_direct :: "ltp_event list \<Rightarrow> ltp_counts" where
  "run_direct events = fold count_event events no_counts"

definition ltp_ok :: "ltp_counts \<Rightarrow> bool" where
  "ltp_ok c \<longleftrightarrow> c_fail c = 0 \<and> c_broken c = 0 \<and> c_tout c = 0"

section \<open>Run files\<close>

lemma split_ws_join: "\<forall>w\<in>set ws. token w \<Longrightarrow> split_ws (join_words ws) = ws"
proof (induction ws rule: join_words.induct)
  case (3 w v ws)
  then have "split_ws (w @ CHR '' '' # join_words (v # ws)) = w # split_ws (join_words (v # ws))"
    by (intro split_ws_cons) simp
  then show ?case using 3 by simp
qed (simp_all add: split_ws_single)

lemma join_words_chars: "c \<in> set (join_words ws) \<Longrightarrow> c = CHR '' '' \<or> (\<exists>w\<in>set ws. c \<in> set w)"
  by (induction ws rule: join_words.induct) auto

lemma join_words_ends:
  "\<forall>w\<in>set ws. token w \<Longrightarrow> ws \<noteq> [] \<Longrightarrow>
     join_words ws \<noteq> [] \<and> hd (join_words ws) = hd (hd ws) \<and> last (join_words ws) = last (last ws)"
proof (induction ws rule: join_words.induct)
  case (3 w v ws)
  then have "join_words (v # ws) \<noteq> [] \<and> last (join_words (v # ws)) = last (last (v # ws))" by auto
  then show ?case using 3 by auto
qed simp_all

lemma token_ends: "token t \<Longrightarrow> \<not> is_ws (hd t) \<and> \<not> is_ws (last t)"
  by simp

text \<open>A line of words, the first the name of the test.\<close>

lemma runfile_line_words:
  assumes "\<And>w. w \<in> set (n # ws) \<Longrightarrow> token w" "ws \<noteq> []" "hd n \<noteq> CHR ''#''"
  shows "runfile_line remove (join_words (n # ws)) = (if n \<in> remove then None else Some (n, join_words ws))"
proof -
  let ?l = "join_words (n # ws)"
  have "\<forall>w\<in>set (n # ws). token w" using assms(1) by blast
  then have e: "?l \<noteq> []" "hd ?l = hd n" "last ?l = last (last (n # ws))" using join_words_ends [of "n # ws"] by simp_all
  have l: "\<not> is_ws (hd ?l)" "\<not> is_ws (last ?l)"
    using e(2,3) token_ends [of n] token_ends [of "last (n # ws)"] assms(1) [of n] assms(1) [of "last (n # ws)"] by auto
  have "\<not> starts_with ''#'' ?l" using e(1,2) assms(3) by (cases ?l) (auto simp: starts_with_def)
  moreover have "split_ws ?l = n # ws" by (rule split_ws_join) (use assms(1) in blast)
  ultimately show ?thesis using e(1) assms(2) by (simp add: runfile_line_def trim_id [OF e(1) l])
qed

section \<open>Counts\<close>

definition event_result :: "ltp_event \<Rightarrow> ltp_result" where
  "event_result e = (case e of NotStarted \<Rightarrow> LBroken | Done code tout \<Rightarrow> result_of code tout)"

definition results :: "ltp_result \<Rightarrow> ltp_event list \<Rightarrow> nat" where
  "results r es = length (filter (\<lambda>e. event_result e = r) es)"

lemma fold_counts:
  "fold count_event es c =
     \<lparr>c_total = c_total c + length es, c_pass = c_pass c + results LPass es + results LWarn es,
      c_fail = c_fail c + results LFail es, c_broken = c_broken c + results LBroken es,
      c_skip = c_skip c + results LSkip es, c_warn = c_warn c + results LWarn es,
      c_tout = c_tout c + results LTimedout es\<rparr>"
proof (induction es arbitrary: c)
  case (Cons e es)
  have "count_event e c = ltp_count (event_result e) (c\<lparr>c_total := c_total c + 1\<rparr>)"
    by (cases e) (simp_all add: count_event_def event_result_def ltp_count_def Let_def)
  then show ?case using Cons by (cases "event_result e") (simp_all add: ltp_count_def results_def)
qed (simp add: results_def)

lemma all_results_counted:
  "results LPass es + results LWarn es + results LFail es + results LBroken es + results LSkip es + results LTimedout es = length es"
proof (induction es)
  case (Cons e es)
  then show ?case by (cases "event_result e") (simp_all add: results_def)
qed (simp add: results_def)

lemma results_none: "results r es = 0 \<longleftrightarrow> (\<forall>e\<in>set es. event_result e \<noteq> r)"
  by (auto simp: results_def filter_empty_conv)

lemma event_fine:
  "event_result e \<noteq> LFail \<and> event_result e \<noteq> LBroken \<and> event_result e \<noteq> LTimedout \<longleftrightarrow>
   (\<exists>c. e = Done (Some c) False \<and> c \<noteq> TFAIL \<and> c \<noteq> TBROK)"
  by (cases e) (auto simp: event_result_def result_of_def TPASS_def TFAIL_def TBROK_def TCONF_def split: option.splits)

lemma event_warn:
  "event_result e = LWarn \<longleftrightarrow> (\<exists>c. e = Done (Some c) False \<and> c \<notin> {TPASS, TFAIL, TBROK, TCONF})"
  by (cases e) (auto simp: event_result_def result_of_def TPASS_def TFAIL_def TBROK_def TCONF_def split: option.splits)

end
