(* ===== verification/Pjd_Runner.thy ===== *)
theory Pjd_Runner
  imports FsPrelude Rust_Text
begin

text \<open>
  The runner of pjdfstest (src/src/pjdfstest.rs): the choice of files, the parser of what a script prints and
  the report of a run. What a script printed, and how it ended, is data.
\<close>

section \<open>Scripts\<close>

definition select_files :: "string list \<Rightarrow> string list \<Rightarrow> string list" where
  "select_files filters names =
     filter (\<lambda>n. filters = [] \<or> (\<exists>f\<in>set filters. contains n f)) (filter (ends_with ''.t'') names)"

text \<open>The lines that source the library of the suite are taken out, as the library is put in front.\<close>

definition strip_sourcing :: "string list \<Rightarrow> string list" where
  "strip_sourcing ls = filter (\<lambda>l. trim l \<noteq> ''dir=`dirname $0`'' \<and> trim l \<noteq> ''. ${dir}/../misc.sh'') ls"

section \<open>One file\<close>

record file_result =
  f_tests :: nat
  f_passed :: nat
  f_failed :: nat
  f_todo :: nat
  f_failures :: "string list"
  f_bail :: bool
  f_timed_out :: bool

definition no_result :: file_result where
  "no_result = \<lparr>f_tests = 0, f_passed = 0, f_failed = 0, f_todo = 0, f_failures = [], f_bail = False, f_timed_out = False\<rparr>"

text \<open>A file that could not be started: one failed test.\<close>

definition not_started :: "string \<Rightarrow> file_result" where
  "not_started why = no_result\<lparr>f_tests := 1, f_failed := 1, f_failures := [why]\<rparr>"

definition test_line :: "string \<Rightarrow> (bool \<times> string) option" where
  "test_line line =
     (case strip_prefix ''ok '' line of
        Some rest \<Rightarrow> Some (True, rest)
      | None \<Rightarrow> (case strip_prefix ''not ok '' line of
          Some rest \<Rightarrow> Some (False, rest)
        | None \<Rightarrow> if line = ''ok'' then Some (True, []) else if line = ''not ok'' then Some (False, []) else None))"

definition is_todo :: "string \<Rightarrow> bool" where
  "is_todo rest \<longleftrightarrow> contains rest ''# TODO'' \<or> contains rest ''# SKIP''"

definition count_test :: "string \<Rightarrow> bool \<Rightarrow> string \<Rightarrow> file_result \<Rightarrow> file_result" where
  "count_test line ok rest r =
     (let r = r\<lparr>f_tests := f_tests r + 1\<rparr>
      in if ok then r\<lparr>f_passed := f_passed r + 1, f_todo := (if is_todo rest then f_todo r + 1 else f_todo r)\<rparr>
         else if is_todo rest then r\<lparr>f_passed := f_passed r + 1\<rparr>
         else r\<lparr>f_failed := f_failed r + 1, f_failures := f_failures r @ [line]\<rparr>)"

text \<open>A line of the output, with the plan announced so far.\<close>

definition out_line :: "string \<Rightarrow> nat option \<times> file_result \<Rightarrow> nat option \<times> file_result" where
  "out_line l pr =
     (case pr of (plan, r) \<Rightarrow>
        (let line = trim_end l
         in if starts_with ''1..'' line
            then (case parse_u64 (trim (drop 3 line)) of Some n \<Rightarrow> (Some n, r) | None \<Rightarrow> (plan, r))
            else if starts_with ''Bail out!'' line then (plan, r\<lparr>f_bail := True, f_failures := f_failures r @ [line]\<rparr>)
            else case test_line line of
                   None \<Rightarrow> (plan, r)
                 | Some (ok, rest) \<Rightarrow> (plan, count_test line ok rest r)))"

text \<open>A plan that was not met is a failure of all the tests that are missing, unless the file was stopped.\<close>

definition early_stop :: "nat option \<Rightarrow> file_result \<Rightarrow> file_result" where
  "early_stop plan r =
     (case plan of
        None \<Rightarrow> r
      | Some n \<Rightarrow>
          if f_tests r < n \<and> f_failed r = 0 \<and> \<not> f_timed_out r
          then r\<lparr>f_failed := f_failed r + (n - f_tests r),
                 f_failures := f_failures r @ [''script stopped early: declared '' @ dec_str n @ '' tests, ran '' @ dec_str (f_tests r)]\<rparr>
          else r)"

definition timed_out_note :: "nat \<Rightarrow> file_result \<Rightarrow> file_result" where
  "timed_out_note secs r =
     (if f_timed_out r then r\<lparr>f_failures := f_failures r @ [''timed out after '' @ dec_str secs @ ''s'']\<rparr> else r)"

definition run_one :: "nat \<Rightarrow> string \<Rightarrow> bool \<Rightarrow> file_result" where
  "run_one secs out timed_out =
     (let (plan, r) = fold out_line (lines out) (None, no_result\<lparr>f_timed_out := timed_out\<rparr>)
      in timed_out_note secs (early_stop plan r))"

section \<open>A run\<close>

record pjd_report =
  p_ok :: bool
  p_tests :: nat
  p_passed :: nat
  p_failed :: nat
  p_todo :: nat

text \<open>The tests passed are the tests less the failures; a negative number is a panic.\<close>

definition pjd_run :: "file_result list \<Rightarrow> pjd_report option" where
  "pjd_run rs =
     (let tests = sum_list (map f_tests rs); failed = sum_list (map f_failed rs)
      in map_option (\<lambda>passed. \<lparr>p_ok = (failed = 0 \<and> \<not> (\<exists>r\<in>set rs. f_bail r)), p_tests = tests, p_passed = passed,
             p_failed = failed, p_todo = sum_list (map f_todo rs)\<rparr>) (rsub tests failed))"

section \<open>What is counted\<close>

text \<open>A line of a test, read on its own: it is neither a plan nor the end of the run.\<close>

definition test_outcome :: "string \<Rightarrow> (bool \<times> string) option" where
  "test_outcome l = test_line (trim_end l)"

definition fails :: "string \<Rightarrow> bool" where
  "fails l \<longleftrightarrow> (\<exists>rest. test_outcome l = Some (False, rest) \<and> \<not> is_todo rest)"

definition bails :: "string \<Rightarrow> bool" where
  "bails l \<longleftrightarrow> starts_with ''Bail out!'' (trim_end l)"

fun planned :: "string list \<Rightarrow> nat option \<Rightarrow> nat option" where
  "planned [] p = p"
| "planned (l # ls) p =
     planned ls (if starts_with ''1..'' (trim_end l)
       then (case parse_u64 (trim (drop 3 (trim_end l))) of Some n \<Rightarrow> Some n | None \<Rightarrow> p) else p)"

lemma test_line_head: "test_line l = Some x \<Longrightarrow> l \<noteq> [] \<and> (hd l = CHR ''n'' \<or> hd l = CHR ''o'')"
  by (auto simp: test_line_def strip_prefix_Some_iff split: option.splits if_splits)

lemma plan_no_test: "starts_with ''1..'' l \<Longrightarrow> test_line l = None"
  using test_line_head [of l] by (cases "test_line l") (auto simp: starts_with_iff)

lemma bail_no_test: "starts_with ''Bail out!'' l \<Longrightarrow> test_line l = None"
  using test_line_head [of l] by (cases "test_line l") (auto simp: starts_with_iff)

lemma plan_no_bail: "starts_with ''1..'' l \<Longrightarrow> \<not> starts_with ''Bail out!'' l"
  by (auto simp: starts_with_iff)

lemma count_test_counts:
  "f_tests (count_test l ok rest r) = f_tests r + 1"
  "f_failed (count_test l ok rest r) = f_failed r + (if \<not> ok \<and> \<not> is_todo rest then 1 else 0)"
  "f_passed (count_test l ok rest r) = f_passed r + (if ok \<or> is_todo rest then 1 else 0)"
  "f_bail (count_test l ok rest r) = f_bail r" "f_timed_out (count_test l ok rest r) = f_timed_out r"
  by (simp_all add: count_test_def Let_def)

lemma out_line_counts:
  assumes "out_line l (p, r) = (p', r')"
  shows "p' = planned [l] p \<and> f_tests r' = f_tests r + (if test_outcome l \<noteq> None then 1 else 0) \<and>
    f_failed r' = f_failed r + (if fails l then 1 else 0) \<and>
    f_passed r' = f_passed r + (if test_outcome l \<noteq> None \<and> \<not> fails l then 1 else 0) \<and>
    f_bail r' = (f_bail r \<or> bails l) \<and> f_timed_out r' = f_timed_out r"
proof -
  let ?l = "trim_end l"
  consider (plan) "starts_with ''1..'' ?l" | (bail) "\<not> starts_with ''1..'' ?l" "starts_with ''Bail out!'' ?l"
    | (test) "\<not> starts_with ''1..'' ?l" "\<not> starts_with ''Bail out!'' ?l" by blast
  then show ?thesis
  proof cases
    case plan
    then have n: "test_outcome l = None" "\<not> bails l"
      by (simp_all add: test_outcome_def bails_def plan_no_test plan_no_bail)
    have "p' = planned [l] p \<and> r' = r"
      using assms plan by (cases "parse_u64 (trim (drop 3 ?l))") (auto simp: out_line_def Let_def split: option.splits)
    then show ?thesis using n by (simp add: fails_def)
  next
    case bail
    then have n: "test_outcome l = None" "bails l" by (simp_all add: test_outcome_def bails_def bail_no_test)
    have "p' = p \<and> r' = r\<lparr>f_bail := True, f_failures := f_failures r @ [?l]\<rparr>"
      using assms bail by (simp add: out_line_def)
    then show ?thesis using n bail by (simp add: fails_def)
  next
    case test
    then have n: "\<not> bails l" by (simp add: bails_def)
    show ?thesis
    proof (cases "test_line ?l")
      case None
      then have "p' = p \<and> r' = r" using assms test by (simp add: out_line_def)
      then show ?thesis using None n test by (simp add: test_outcome_def fails_def)
    next
      case (Some x)
      obtain ok rest where x: "x = (ok, rest)" by (cases x)
      then have "p' = p \<and> r' = count_test ?l ok rest r" using assms test Some by (simp add: out_line_def)
      moreover have "fails l = (\<not> ok \<and> \<not> is_todo rest)" using Some x by (simp add: fails_def test_outcome_def)
      ultimately show ?thesis using Some x n test by (simp add: test_outcome_def count_test_counts)
    qed
  qed
qed

lemma fold_out:
  assumes "fold out_line ls (p, r) = (p', r')"
  shows "p' = planned ls p \<and> f_tests r' = f_tests r + length (filter (\<lambda>l. test_outcome l \<noteq> None) ls) \<and>
    f_failed r' = f_failed r + length (filter fails ls) \<and>
    f_passed r' + f_failed r' + f_tests r = f_passed r + f_failed r + f_tests r' \<and>
    f_bail r' = (f_bail r \<or> (\<exists>l\<in>set ls. bails l)) \<and> f_timed_out r' = f_timed_out r"
  using assms
proof (induction ls arbitrary: p r)
  case (Cons l ls)
  obtain p1 r1 where 1: "out_line l (p, r) = (p1, r1)" by (cases "out_line l (p, r)")
  have "fails l \<Longrightarrow> test_outcome l \<noteq> None" by (auto simp: fails_def)
  moreover have "fold out_line ls (p1, r1) = (p', r')" using Cons.prems 1 by simp
  ultimately show ?case using Cons.IH [of p1 r1] out_line_counts [OF 1] by auto
qed simp

text \<open>The result of a file whose script was started.\<close>

lemma run_one_counts:
  assumes ls: "ls = lines out"
  shows "f_tests (run_one secs out tout) = length (filter (\<lambda>l. test_outcome l \<noteq> None) ls)"
    and "f_failed (run_one secs out tout) =
      (let bad = length (filter fails ls); n = length (filter (\<lambda>l. test_outcome l \<noteq> None) ls)
       in if bad = 0 \<and> \<not> tout then (case planned ls None of Some p \<Rightarrow> p - n | None \<Rightarrow> 0) else bad)"
    and "f_bail (run_one secs out tout) = (\<exists>l\<in>set ls. bails l)"
    and "f_passed (run_one secs out tout) = length (filter (\<lambda>l. test_outcome l \<noteq> None) ls) - length (filter fails ls)"
    and "f_timed_out (run_one secs out tout) = tout"
proof -
  obtain p r where f: "fold out_line ls (None, no_result\<lparr>f_timed_out := tout\<rparr>) = (p, r)"
    by (cases "fold out_line ls (None, no_result\<lparr>f_timed_out := tout\<rparr>)")
  note c = fold_out [OF f]
  have r: "run_one secs out tout = timed_out_note secs (early_stop p r)" using f by (simp add: run_one_def ls)
  have n: "f_tests r = length (filter (\<lambda>l. test_outcome l \<noteq> None) ls)" "f_failed r = length (filter fails ls)" "p = planned ls None"
    "f_bail r = (\<exists>l\<in>set ls. bails l)" "f_timed_out r = tout" "f_passed r + f_failed r = f_tests r"
    using c by (simp_all add: no_result_def)
  show "f_tests (run_one secs out tout) = length (filter (\<lambda>l. test_outcome l \<noteq> None) ls)"
    "f_bail (run_one secs out tout) = (\<exists>l\<in>set ls. bails l)"
    "f_passed (run_one secs out tout) = length (filter (\<lambda>l. test_outcome l \<noteq> None) ls) - length (filter fails ls)"
    "f_timed_out (run_one secs out tout) = tout"
    using n by (auto simp: r timed_out_note_def early_stop_def split: option.splits)
  show "f_failed (run_one secs out tout) =
      (let bad = length (filter fails ls); n = length (filter (\<lambda>l. test_outcome l \<noteq> None) ls)
       in if bad = 0 \<and> \<not> tout then (case planned ls None of Some p \<Rightarrow> p - n | None \<Rightarrow> 0) else bad)"
    using n by (auto simp: r timed_out_note_def early_stop_def Let_def split: option.splits)
qed

end
