(* ===== verification/Runner_Properties.thy ===== *)
theory Runner_Properties
  imports Git_Runner Work_Queue Ltp_Runner Pjd_Runner
begin

text \<open>
  What the verdicts of the suite runners mean: when a run of git's tests, of the Linux Test Project and of
  pjdfstest is reported as ok, in terms of the lines the scripts printed and the way they ended, and what the
  queue of the parallel workers delivers. The witnesses evaluate the parsers on short outputs.
\<close>

section \<open>The git runner\<close>

text \<open>The verdict on one script, in terms of its lines.\<close>

definition sound_output :: "git_exec \<Rightarrow> bool" where
  "sound_output ex \<longleftrightarrow>
     (let ls = lines (e_stdout ex); n = length (filter (\<lambda>l. result_line l \<noteq> None) ls)
      in announced None ls = Some n \<and> kinds KFail ls = 0 \<and> (n = 0 \<or> e_code ex = Some 0 \<or> 0 < kinds KFixed ls))"

lemma script_status_fine:
  "script_status ex = GOk \<or> script_status ex = GSkip \<longleftrightarrow> \<not> e_spawn_err ex \<and> \<not> e_timed_out ex \<and> sound_output ex"
proof -
  let ?t = "parse_tap (e_stdout ex)" and ?ls = "lines (e_stdout ex)"
  have seen: "tap_seen ?t = length (filter (\<lambda>l. result_line l \<noteq> None) ?ls)" by (rule tap_seen_lines)
  have c: "tap_fail ?t = kinds KFail ?ls" "tap_fixed ?t = kinds KFixed ?ls" "tap_plan ?t = announced None ?ls"
    using parse_tap_counts(1) [of KFail "e_stdout ex"] parse_tap_counts(1) [of KFixed "e_stdout ex"]
      parse_tap_counts(2) [of "e_stdout ex"] by simp_all
  have "kinds KFail ?ls \<le> tap_seen ?t" using c(1) by (simp add: tap_seen_def)
  then show ?thesis
    unfolding script_status_def sound_output_def Let_def c seen [symmetric]
    by (cases "announced None ?ls") auto
qed

lemma run_ok_iff: "run_ok sts \<longleftrightarrow> (\<forall>s\<in>set sts. s = GOk \<or> s = GSkip)"
proof -
  have "s = GOk \<or> s = GSkip \<longleftrightarrow> s \<noteq> GFail \<and> s \<noteq> GBroken \<and> s \<noteq> GTimedout" for s by (cases s) auto
  then show ?thesis by (auto simp: run_ok_def count_status_def filter_empty_conv)
qed

text \<open>
  C29: A run of git's tests is reported as ok exactly when every script was started, ended in time, announced in
  its last plan line as many tests as it printed result lines, and none of these is a failure; a script that ran
  tests must also have exited with 0, unless a known breakage vanished. In particular no output that was cut off
  before the plan counts as a success.
\<close>

theorem git_verdict:
  "run_ok (map script_status exs) \<longleftrightarrow>
     (\<forall>ex\<in>set exs. \<not> e_spawn_err ex \<and> \<not> e_timed_out ex \<and> sound_output ex)"
  by (simp add: run_ok_iff script_status_fine)

definition tap_example :: git_exec where
  "tap_example =
     \<lparr>e_code = Some 0, e_timed_out = False,
      e_stdout = text_of [''ok 1 - a'', ''not ok 2 - b # TODO k'', ''# failed 0'', ''1..2''],
      e_spawn_err = False\<rparr>"

lemmas text_eval = starts_with_def strip_prefix_def strip_suffix_def split_once_def contains_def trim_def trim_start_def
  trim_end_def is_ws_def is_digit_def parse_u64_def parse_uint_def digit_val_def ord_def Let_def

lemma tap_example_sound: "sound_output tap_example"
proof -
  have ls: "lines (e_stdout tap_example) = [''ok 1 - a'', ''not ok 2 - b # TODO k'', ''# failed 0'', ''1..2'']"
    unfolding tap_example_def git_exec.simps by (rule lines_text_of) auto
  have r: "result_line ''ok 1 - a'' = Some (True, ''1 - a'')"
    "result_line ''not ok 2 - b # TODO k'' = Some (False, ''2 - b # TODO k'')"
    "result_line ''# failed 0'' = None" "result_line ''1..2'' = None"
    by (simp_all add: result_line_def text_eval)
  have b: "body_and_directive ''1 - a'' = (''- a'', None)"
    "body_and_directive ''2 - b # TODO k'' = (''- b'', Some ''TODO k'')"
    by (simp_all add: body_and_directive_def text_eval)
  have d: "directive_word ''TODO k'' = ''todo''" "directive_rest ''TODO k'' = ''k''"
    by (auto simp: directive_word_def directive_rest_def to_lower_def text_eval intro!: char_of_lit)
  have v: "\<not> contains ''k'' ''vanished''" by (simp add: text_eval)
  have "kinds KFail (lines (e_stdout tap_example)) = 0" unfolding ls by (simp add: kinds_def line_kind_def r b d v)
  moreover have "announced None (lines (e_stdout tap_example)) = Some 2"
    unfolding ls by (simp add: announced_def text_eval)
  moreover have "length (filter (\<lambda>l. result_line l \<noteq> None) (lines (e_stdout tap_example))) = 2" unfolding ls by (simp add: r del: not_None_eq)
  moreover have "e_code tap_example = Some 0" by (simp add: tap_example_def)
  ultimately show ?thesis unfolding sound_output_def Let_def by metis
qed

lemma git_verdict_witness:
  "run_ok (map script_status [tap_example]) \<and>
   \<not> run_ok (map script_status [tap_example, tap_example\<lparr>e_timed_out := True\<rparr>])"
proof -
  have e: "\<not> e_spawn_err tap_example \<and> \<not> e_timed_out tap_example" by (simp add: tap_example_def)
  have "run_ok (map script_status [tap_example])"
    unfolding git_verdict using tap_example_sound e by (simp only: set_simps ball_simps simp_thms)
  moreover have "\<not> run_ok (map script_status [tap_example, tap_example\<lparr>e_timed_out := True\<rparr>])"
    unfolding git_verdict by simp
  ultimately show ?thesis by blast
qed

text \<open>
  The counts of a script are those of its lines: every result line is counted once, under the class that the line
  itself has, wherever the details of failures are; the plan is that of the last plan line, and the names of at
  most ten failures are kept.
\<close>

theorem git_counts_every_line:
  "tap_pass (parse_tap out) = kinds KPass (lines out) \<and> tap_fail (parse_tap out) = kinds KFail (lines out) \<and>
   tap_skip (parse_tap out) = kinds KSkip (lines out) \<and> tap_todo (parse_tap out) = kinds KTodo (lines out) \<and>
   tap_fixed (parse_tap out) = kinds KFixed (lines out) \<and> tap_plan (parse_tap out) = announced None (lines out) \<and>
   tap_seen (parse_tap out) = length (filter (\<lambda>l. result_line l \<noteq> None) (lines out)) \<and>
   length (tap_failures (parse_tap out)) \<le> 10"
  using parse_tap_counts(1) [of KPass out] parse_tap_counts(1) [of KFail out] parse_tap_counts(1) [of KSkip out]
    parse_tap_counts(1) [of KTodo out] parse_tap_counts(1) [of KFixed out] parse_tap_counts(2,3) [of out]
    tap_seen_lines [of out] by simp

text \<open>Selection of named entries: each entry gives the script it resolves to, or an error in its place.\<close>

lemma resolve_all_spec:
  "resolve_all scripts es sel un = (sel', un') \<Longrightarrow>
     un' = un @ List.map_filter (\<lambda>e. case resolve_entry e scripts of Inl x \<Rightarrow> Some x | Inr _ \<Rightarrow> None) es \<and>
     set sel' = set sel \<union> {s. \<exists>e\<in>set es. resolve_entry e scripts = Inr s} \<and> (distinct sel \<longrightarrow> distinct sel')"
proof (induction es arbitrary: sel un)
  case (Cons e es)
  then show ?case
    by (cases "resolve_entry e scripts") (fastforce simp: List.map_filter_simps split: if_splits)+
qed (auto simp: List.map_filter_simps)

lemma resolve_entry_known: "resolve_entry e scripts = Inr s \<Longrightarrow> s \<in> set scripts"
proof -
  have "filter (starts_with e) scripts = [x] \<Longrightarrow> x \<in> set scripts" for x
    by (metis filter_is_subset list.set_intros(1) subset_iff)
  then show "resolve_entry e scripts = Inr s \<Longrightarrow> s \<in> set scripts"
    by (auto simp: resolve_entry_def split: if_splits list.splits)
qed

theorem git_selection_resolves:
  assumes "selection tier_a tier_b names a = Some (sel, un)" "g_tests a \<noteq> []"
  shows "sorted sel \<and> distinct sel \<and> set sel \<subseteq> set (discover_scripts names) \<and>
    set sel = {s. (\<exists>e\<in>set (g_tests a). resolve_entry e (discover_scripts names) = Inr s) \<and>
                  (g_filter a = [] \<or> (\<exists>f\<in>set (g_filter a). contains s f))} \<and>
    un = List.map_filter (\<lambda>e. case resolve_entry e (discover_scripts names) of Inl x \<Rightarrow> Some x | Inr _ \<Rightarrow> None) (g_tests a)"
proof -
  let ?sc = "discover_scripts names"
  obtain s0 u0 where r: "resolve_all ?sc (g_tests a) [] [] = (s0, u0)" by (cases "resolve_all ?sc (g_tests a) [] []")
  note spec = resolve_all_spec [OF r]
  have sel: "sel = sort (if g_filter a = [] then s0 else filter (\<lambda>s. \<exists>f\<in>set (g_filter a). contains s f) s0)" "un = u0"
    using assms r by (simp_all add: selection_def tier_entries_def Let_def)
  have "set s0 \<subseteq> set ?sc" using spec resolve_entry_known by auto
  then show ?thesis using spec sel by auto
qed

section \<open>The queue\<close>

text \<open>
  C30: Whatever the order in which the workers of a parallel run take their steps, no item is with two workers at
  a time, a run of n items takes at most 2 * n steps and one more per worker, it never gets stuck before all
  workers have left, and then the results of all items are there, in the order of the items.
\<close>

theorem queue_delivers:
  assumes "queue_steps n f (start_queue n jobs) m q"
  shows "m \<le> 2 * n + max jobs 1 \<and> distinct (running q) \<and>
    (if \<forall>w\<in>set (q_workers q). w = Finished then all_results (q_out q) = Some (map f [0..<n])
     else \<exists>q'. queue_step n f q q')"
proof -
  have ok: "queue_ok n f q" using steps_ok [OF assms start_ok] .
  have "q_workers q \<noteq> []" using workers_stay [OF assms] by (auto simp: start_queue_def)
  moreover have "m \<le> 2 * n + max jobs 1" using steps_work [OF assms] by (simp add: start_work)
  moreover have "distinct (running q)" using ok by (simp add: queue_ok_def)
  ultimately show ?thesis using ended_results [OF ok] can_step [of _ q n f] by auto
qed

text \<open>Two items and one worker: two rounds and the farewell.\<close>

lemma queue_example:
  "queue_steps 1 Suc (start_queue 1 0) 3 \<lparr>q_next = 2, q_out = [Some 1], q_workers = [Finished]\<rparr>"
proof -
  let ?q0 = "start_queue 1 0 :: nat queue"
  let ?q1 = "\<lparr>q_next = 1, q_out = [None], q_workers = [Running 0]\<rparr> :: nat queue"
  let ?q2 = "\<lparr>q_next = 1, q_out = [Some 1], q_workers = [AtTop]\<rparr> :: nat queue"
  let ?q3 = "\<lparr>q_next = 2, q_out = [Some 1], q_workers = [Finished]\<rparr> :: nat queue"
  have "queue_step 1 Suc ?q0 ?q1" using take_item [of 0 ?q0 1 Suc] by (simp add: start_queue_def)
  moreover have "queue_step 1 Suc ?q1 ?q2" using store [of 0 ?q1 0 1 Suc] by simp
  moreover have "queue_step 1 Suc ?q2 ?q3" using leave [of 0 ?q2 1 Suc] by (simp add: numeral_2_eq_2)
  ultimately have "queue_steps 1 Suc ?q0 (Suc (Suc (Suc 0))) ?q3" by (blast intro: no_steps more_steps)
  then show ?thesis by (simp add: numeral_3_eq_3)
qed

lemma queue_delivers_witness:
  "\<exists>q :: nat queue. queue_steps 1 Suc (start_queue 1 0) 3 q \<and> all_results (q_out q) = Some [1]"
  using queue_example queue_delivers [OF queue_example] by (intro exI conjI) (rule queue_example, simp)

section \<open>The LTP runner\<close>

text \<open>
  C31: The counts of a run of the Linux Test Project add up to the number of tests, with the tests that ended with
  an unknown code counted as passed, and the run is reported as ok exactly when every test was started, was not
  killed and exited with a code that is neither that of a failure nor that of a broken test.
\<close>

theorem ltp_verdict:
  "c_total (run_direct es) = length es \<and>
   c_pass (run_direct es) + c_fail (run_direct es) + c_broken (run_direct es) + c_skip (run_direct es) +
     c_tout (run_direct es) = length es \<and>
   c_warn (run_direct es) \<le> c_pass (run_direct es) \<and>
   c_warn (run_direct es) =
     length (filter (\<lambda>e. \<exists>c. e = Done (Some c) False \<and> c \<notin> {TPASS, TFAIL, TBROK, TCONF}) es) \<and>
   (ltp_ok (run_direct es) \<longleftrightarrow> (\<forall>e\<in>set es. \<exists>c. e = Done (Some c) False \<and> c \<noteq> TFAIL \<and> c \<noteq> TBROK))"
proof -
  have r: "run_direct es =
     \<lparr>c_total = length es, c_pass = results LPass es + results LWarn es, c_fail = results LFail es,
      c_broken = results LBroken es, c_skip = results LSkip es, c_warn = results LWarn es, c_tout = results LTimedout es\<rparr>"
    by (simp add: run_direct_def fold_counts no_counts_def)
  have ok: "ltp_ok (run_direct es) \<longleftrightarrow>
      (\<forall>e\<in>set es. event_result e \<noteq> LFail \<and> event_result e \<noteq> LBroken \<and> event_result e \<noteq> LTimedout)"
    by (auto simp: r ltp_ok_def results_none)
  have warn: "results LWarn es = length (filter (\<lambda>e. \<exists>c. e = Done (Some c) False \<and> c \<notin> {TPASS, TFAIL, TBROK, TCONF}) es)"
    unfolding results_def event_warn ..
  show ?thesis using all_results_counted [of es] unfolding ok event_fine warn [symmetric] by (simp add: r)
qed

lemma ltp_verdict_witness:
  "ltp_ok (run_direct [Done (Some 0) False, Done (Some 32) False, Done (Some 3) False]) \<and>
   \<not> ltp_ok (run_direct [Done (Some 0) False, NotStarted])"
  using ltp_verdict [of "[Done (Some 0) False, Done (Some 32) False, Done (Some 3) False]"]
    ltp_verdict [of "[Done (Some 0) False, NotStarted]"]
  by (simp add: TFAIL_def TBROK_def)

text \<open>
  A run file of names and words, one test a line, reads back as the list of its tests without those of the
  removal list.
\<close>

theorem ltp_runfile_reads_back:
  assumes "\<And>n ws. (n, ws) \<in> set ts \<Longrightarrow> ws \<noteq> [] \<and> hd n \<noteq> CHR ''#'' \<and> (\<forall>w\<in>set (n # ws). token w)"
  shows "parse_runfile (text_of (map (\<lambda>(n, ws). join_words (n # ws)) ts)) remove =
    map (\<lambda>(n, ws). (n, join_words ws)) (filter (\<lambda>(n, ws). n \<notin> remove) ts)"
proof -
  let ?ls = "map (\<lambda>(n, ws). join_words (n # ws)) ts"
  have "lines (text_of ?ls) = ?ls"
  proof (rule lines_text_of)
    fix l assume "l \<in> set ?ls"
    then obtain n ws where l: "l = join_words (n # ws)" "(n, ws) \<in> set ts" by auto
    have w: "\<forall>w\<in>set (n # ws). token w" using assms [OF l(2)] by blast
    have c: "c \<notin> set l" if "is_ws c" "c \<noteq> CHR '' ''" for c using join_words_chars [of c "n # ws"] w l(1) that by blast
    have "LF \<notin> set l" "CR \<notin> set l" by (rule c; simp add: is_ws_def)+
    then show "LF \<notin> set l \<and> (l \<noteq> [] \<longrightarrow> last l \<noteq> CR)" using last_in_set by metis
  qed
  moreover have "List.map_filter (runfile_line remove) ?ls = map (\<lambda>(n, ws). (n, join_words ws)) (filter (\<lambda>(n, ws). n \<notin> remove) ts)"
    using assms
  proof (induction ts)
    case (Cons t ts)
    obtain n ws where t: "t = (n, ws)" by (cases t)
    have "runfile_line remove (join_words (n # ws)) = (if n \<in> remove then None else Some (n, join_words ws))"
      using Cons.prems [of n ws] t by (intro runfile_line_words) auto
    moreover have "List.map_filter (runfile_line remove) (map (\<lambda>(n, ws). join_words (n # ws)) ts) =
        map (\<lambda>(n, ws). (n, join_words ws)) (filter (\<lambda>(n, ws). n \<notin> remove) ts)"
      by (rule Cons.IH) (rule Cons.prems, simp)
    ultimately show ?case using t by (simp add: List.map_filter_simps)
  qed (simp add: List.map_filter_simps)
  ultimately show ?thesis by (simp add: parse_runfile_def)
qed

section \<open>The pjdfstest runner\<close>

text \<open>How a script ended: what it printed, and whether it was killed.\<close>

type_synonym script_end = "string \<times> bool"

definition file_results :: "nat \<Rightarrow> script_end list \<Rightarrow> file_result list" where
  "file_results secs ends = map (\<lambda>(out, tout). run_one secs out tout) ends"

definition tests_of :: "string \<Rightarrow> nat" where
  "tests_of out = length (filter (\<lambda>l. test_outcome l \<noteq> None) (lines out))"

text \<open>A file counts no failure and does not stop the run.\<close>

definition passes :: "script_end \<Rightarrow> bool" where
  "passes e \<longleftrightarrow>
     (\<forall>l\<in>set (lines (fst e)). \<not> fails l \<and> \<not> bails l) \<and>
     (snd e \<or> (case planned (lines (fst e)) None of Some p \<Rightarrow> p \<le> tests_of (fst e) | None \<Rightarrow> True))"

lemma run_one_passes:
  "f_failed (run_one secs out tout) = 0 \<and> \<not> f_bail (run_one secs out tout) \<longleftrightarrow> passes (out, tout)"
  using run_one_counts(2,3) [OF refl, of secs out tout]
  by (auto simp: passes_def tests_of_def Let_def filter_empty_conv split: option.splits)

text \<open>
  C32: A run of pjdfstest that returns a report is reported as ok exactly when no script printed a failing line or
  gave up, and every script that was not killed met its plan: a script that was killed at its time limit counts
  against the run only when it had already printed a failing line. The report counts the printed test lines.
\<close>

theorem pjd_verdict:
  assumes "pjd_run (file_results secs ends) = Some rep"
  shows "(p_ok rep \<longleftrightarrow> (\<forall>e\<in>set ends. passes e)) \<and> p_tests rep = sum_list (map (tests_of \<circ> fst) ends) \<and>
    p_passed rep + p_failed rep = p_tests rep"
proof -
  have t: "sum_list (map f_tests (file_results secs ends)) = sum_list (map (tests_of \<circ> fst) ends)"
    unfolding file_results_def map_map
    by (intro arg_cong [of _ _ sum_list] map_cong refl) (auto simp: run_one_counts(1) [OF refl] tests_of_def)
  have "(\<forall>r\<in>set (file_results secs ends). f_failed r = 0 \<and> \<not> f_bail r) \<longleftrightarrow> (\<forall>e\<in>set ends. passes e)"
    unfolding file_results_def using run_one_passes by fastforce
  then have ok: "(sum_list (map f_failed (file_results secs ends)) = 0 \<and> \<not> (\<exists>r\<in>set (file_results secs ends). f_bail r)) \<longleftrightarrow>
      (\<forall>e\<in>set ends. passes e)" by auto
  show ?thesis
    using assms ok t by (auto simp: pjd_run_def Let_def rsub_def split: if_splits)
qed

definition pjd_example :: "script_end list" where
  "pjd_example =
     [(text_of [''1..2'', ''ok 1'', ''not ok 2 # TODO later''], False),
      (text_of [''1..30'', ''ok 1''], True)]"

lemma pjd_lines:
  "lines (text_of [''1..2'', ''ok 1'', ''not ok 2 # TODO later'']) = [''1..2'', ''ok 1'', ''not ok 2 # TODO later'']"
  "lines (text_of [''1..30'', ''ok 1'']) = [''1..30'', ''ok 1'']"
  "lines (text_of [''1..3'', ''ok 1'']) = [''1..3'', ''ok 1'']"
  by (rule lines_text_of, auto)+

lemma pjd_example_run:
  "pjd_run (file_results 60 pjd_example) = Some \<lparr>p_ok = True, p_tests = 3, p_passed = 3, p_failed = 0, p_todo = 0\<rparr>"
proof -
  have 1: "run_one 60 (text_of [''1..2'', ''ok 1'', ''not ok 2 # TODO later'']) False =
      no_result\<lparr>f_tests := 2, f_passed := 2\<rparr>"
    unfolding run_one_def pjd_lines
    by (simp add: out_line_def test_line_def count_test_def is_todo_def early_stop_def timed_out_note_def no_result_def text_eval)
  have "f_failures (run_one 60 (text_of [''1..30'', ''ok 1'']) True) = fs \<Longrightarrow>
      run_one 60 (text_of [''1..30'', ''ok 1'']) True =
      no_result\<lparr>f_tests := 1, f_passed := 1, f_timed_out := True, f_failures := fs\<rparr>" for fs
    unfolding run_one_def pjd_lines
    by (simp add: out_line_def test_line_def count_test_def is_todo_def early_stop_def timed_out_note_def no_result_def text_eval)
  note 2 = this [OF refl]
  have "file_results 60 pjd_example =
      [run_one 60 (text_of [''1..2'', ''ok 1'', ''not ok 2 # TODO later'']) False,
       run_one 60 (text_of [''1..30'', ''ok 1'']) True]"
    by (simp add: file_results_def pjd_example_def)
  then have 3: "file_results 60 pjd_example =
      [no_result\<lparr>f_tests := 2, f_passed := 2\<rparr>,
       no_result\<lparr>f_tests := 1, f_passed := 1, f_timed_out := True,
         f_failures := f_failures (run_one 60 (text_of [''1..30'', ''ok 1'']) True)\<rparr>]"
    unfolding 1 by (subst 2 [symmetric])
  show ?thesis unfolding 3 by (simp add: pjd_run_def no_result_def)
qed

lemma pjd_verdict_witness: "list_all passes pjd_example"
  using pjd_verdict [OF pjd_example_run] by (simp add: list_all_iff)

text \<open>
  A single script that stops after less than half of the tests it announced, without a failing line, makes the
  report panic: all missing tests count as failures, and the failures are taken from the tests that ran.
\<close>

theorem early_stop_panics:
  assumes "planned (lines out) None = Some p" "\<And>l. l \<in> set (lines out) \<Longrightarrow> \<not> fails l" "2 * tests_of out < p"
  shows "pjd_run [run_one secs out False] = None"
proof -
  have "filter fails (lines out) = []" using assms(2) by (auto simp: filter_empty_conv)
  then have "f_failed (run_one secs out False) = p - tests_of out" "f_tests (run_one secs out False) = tests_of out"
    using run_one_counts(1,2) [OF refl, of secs out False] assms(1) by (simp_all add: tests_of_def Let_def)
  then show ?thesis using assms(3) by (auto simp: pjd_run_def rsub_def Let_def)
qed

lemma early_stop_panics_witness:
  "pjd_run [run_one 60 (text_of [''1..3'', ''ok 1'']) False] = None"
proof (rule early_stop_panics)
  have o: "test_outcome ''1..3'' = None" "test_outcome ''ok 1'' = Some (True, ''1'')"
    by (simp_all add: test_outcome_def test_line_def text_eval)
  show "planned (lines (text_of [''1..3'', ''ok 1''])) None = Some 3"
    unfolding pjd_lines by (simp add: text_eval)
  show "2 * tests_of (text_of [''1..3'', ''ok 1'']) < 3"
    unfolding tests_of_def pjd_lines by (simp add: o)
  fix l assume "l \<in> set (lines (text_of [''1..3'', ''ok 1'']))"
  then show "\<not> fails l" unfolding pjd_lines using o by (auto simp: fails_def)
qed

end
