(* ===== verification/Rust_Utf8.thy ===== *)
theory Rust_Utf8
  imports FsPrelude Rust_Text
begin

text \<open>
  The texts that are made from the output of a program. Rust's standard library reads bytes as UTF-8: strictly in
  \<open>read_to_string\<close>, and with a replacement character for what is none in \<open>from_utf8_lossy\<close>. A text is sliced at
  the boundaries of its characters only, so the functions of the program that keep the end of a long output,
  \<open>tail\<close> of src/src/git.rs, src/src/sqlite.rs and src/src/stdfs.rs, \<open>truncate\<close> of src/src/fio.rs and
  src/src/pjdfstest.rs and the expression in src/src/ltp.rs, either find a boundary or panic. Here a string is the
  list of its bytes.
\<close>

section \<open>Characters in bytes\<close>

definition is_cont :: "nat \<Rightarrow> bool" where
  "is_cont b \<longleftrightarrow> 128 \<le> b \<and> b < 192"

text \<open>The second byte that a first byte of three or four bytes allows: no character is written with more bytes
  than it needs, none is a surrogate or above the last one.\<close>

definition second_ok :: "nat \<Rightarrow> nat \<Rightarrow> bool" where
  "second_ok b c \<longleftrightarrow>
     is_cont c \<and> (b = 0xE0 \<longrightarrow> 0xA0 \<le> c) \<and> (b = 0xED \<longrightarrow> c < 0xA0) \<and> (b = 0xF0 \<longrightarrow> 0x90 \<le> c) \<and>
     (b = 0xF4 \<longrightarrow> c < 0x90)"

definition byte_at :: "string \<Rightarrow> nat \<Rightarrow> nat" where
  "byte_at s i = (if i < length s then ord (s ! i) else 0)"

text \<open>Whether a text begins with a character, and how many bytes belong to it or to what was begun of one.\<close>

definition scan_char :: "string \<Rightarrow> bool \<times> nat" where
  "scan_char s =
     (let b = byte_at s 0
      in if b < 0x80 then (True, 1)
         else if 0xC2 \<le> b \<and> b < 0xE0 then (if is_cont (byte_at s 1) then (True, 2) else (False, 1))
         else if 0xE0 \<le> b \<and> b < 0xF0 then
           (if \<not> second_ok b (byte_at s 1) then (False, 1)
            else if is_cont (byte_at s 2) then (True, 3) else (False, 2))
         else if 0xF0 \<le> b \<and> b < 0xF5 then
           (if \<not> second_ok b (byte_at s 1) then (False, 1)
            else if \<not> is_cont (byte_at s 2) then (False, 2)
            else if is_cont (byte_at s 3) then (True, 4) else (False, 3))
         else (False, 1))"

lemma scan_char_pos: "0 < snd (scan_char s)"
  by (simp add: scan_char_def Let_def)

function valid_utf8 :: "string \<Rightarrow> bool" where
  "valid_utf8 s =
     (if s = [] then True
      else if fst (scan_char s) then valid_utf8 (drop (snd (scan_char s)) s) else False)"
  by pat_completeness auto
termination
proof (relation "measure length")
  show "wf (measure (length :: string \<Rightarrow> nat))" by simp
next
  fix s :: string assume "s \<noteq> []" "fst (scan_char s)"
  then show "(drop (snd (scan_char s)) s, s) \<in> measure length" using scan_char_pos [of s] by simp
qed

declare valid_utf8.simps [simp del]

lemma valid_Nil [simp]: "valid_utf8 []"
  by (subst valid_utf8.simps) simp

definition REPLACEMENT :: string where
  "REPLACEMENT = [char_of (0xEF :: nat), char_of (0xBF :: nat), char_of (0xBD :: nat)]"

function lossy :: "string \<Rightarrow> string" where
  "lossy s =
     (if s = [] then []
      else (if fst (scan_char s) then take (snd (scan_char s)) s else REPLACEMENT) @ lossy (drop (snd (scan_char s)) s))"
  by pat_completeness auto
termination
proof (relation "measure length")
  show "wf (measure (length :: string \<Rightarrow> nat))" by simp
next
  fix s :: string assume "s \<noteq> []"
  then show "(drop (snd (scan_char s)) s, s) \<in> measure length" using scan_char_pos [of s] by simp
qed

declare lossy.simps [simp del]

lemma lossy_Nil [simp]: "lossy [] = []"
  by (subst lossy.simps) simp

text \<open>\<open>read_to_string\<close> into an empty text leaves it empty when the bytes are not UTF-8.\<close>

definition strict_text :: "string \<Rightarrow> string" where
  "strict_text s = (if valid_utf8 s then s else [])"

section \<open>Slices\<close>

definition is_char_boundary :: "string \<Rightarrow> nat \<Rightarrow> bool" where
  "is_char_boundary s i \<longleftrightarrow> i = 0 \<or> i = length s \<or> i < length s \<and> \<not> is_cont (ord (s ! i))"

definition slice_from :: "string \<Rightarrow> nat \<Rightarrow> string option" where
  "slice_from s i = (if is_char_boundary s i then Some (drop i s) else None)"

text \<open>The loops that look for a boundary from a position on; the end of the text is one.\<close>

function next_boundary :: "string \<Rightarrow> nat \<Rightarrow> nat" where
  "next_boundary s i = (if length s \<le> i \<or> is_char_boundary s i then i else next_boundary s (i + 1))"
  by pat_completeness auto
termination by (relation "measure (\<lambda>(s, i). length s - i)") auto

declare next_boundary.simps [simp del]

definition dots :: "string option \<Rightarrow> string option" where
  "dots t = map_option ((@) ''...'') t"

text \<open>The functions of the source: the three equal ones named tail, and the three others. A panic is None.\<close>

definition char_tail :: "string \<Rightarrow> nat \<Rightarrow> string option" where
  "char_tail s cap =
     (if length s \<le> cap then Some s else dots (slice_from s (next_boundary s (length s - cap))))"

definition fio_truncate :: "string \<Rightarrow> nat \<Rightarrow> string option" where
  "fio_truncate s cap =
     (if length s \<le> cap then Some s
      else case slice_from s (length s - cap) of
             None \<Rightarrow> None
           | Some t \<Rightarrow> dots (slice_from t (next_boundary t 0)))"

definition pjd_truncate :: "string \<Rightarrow> nat \<Rightarrow> string option" where
  "pjd_truncate s cap =
     (if length s \<le> cap then Some s
      else dots (slice_from s (length s - cap + next_boundary s 0)))"

definition ltp_tail :: "string \<Rightarrow> string option" where
  "ltp_tail s = (if 2000 < length s then dots (slice_from s (length s - 2000)) else Some s)"

section \<open>What a character is made of\<close>

lemma scan_char_bytes:
  assumes "scan_char s = (True, n)" "s \<noteq> []"
  shows "0 < n" "n \<le> 4" "n \<le> length s" "\<not> is_cont (ord (s ! 0))"
    "\<And>i. 0 < i \<Longrightarrow> i < n \<Longrightarrow> is_cont (ord (s ! i))"
proof -
  have at: "is_cont (byte_at s i) \<Longrightarrow> i < length s \<and> is_cont (ord (s ! i))" for i
    by (auto simp: byte_at_def is_cont_def split: if_splits)
  have two: "second_ok b (byte_at s i) \<Longrightarrow> i < length s \<and> is_cont (ord (s ! i))" for b i
    using at by (simp add: second_ok_def)
  have z: "byte_at s 0 = ord (s ! 0)" using assms(2) by (simp add: byte_at_def)
  show "0 < n" using scan_char_pos [of s] assms(1) by simp
  show "n \<le> 4" using assms(1) by (auto simp: scan_char_def Let_def split: if_splits)
  show "n \<le> length s"
    using assms(1) at [of 1] at [of 2] at [of 3] assms(2)
    by (auto simp: scan_char_def Let_def Suc_le_eq split: if_splits)
  show "\<not> is_cont (ord (s ! 0))"
    using assms(1) z by (auto simp: scan_char_def Let_def is_cont_def split: if_splits)
  fix i assume "0 < i" "i < n"
  then have "i = 1 \<or> i = 2 \<or> i = 3" "i < n" using \<open>n \<le> 4\<close> by auto
  then show "is_cont (ord (s ! i))"
    using assms(1) at two by (auto simp: scan_char_def Let_def split: if_splits)
qed

lemma scan_char_prefix:
  assumes "scan_char s = (True, n)" "s \<noteq> []"
  shows "scan_char (take n s @ t) = (True, n)"
proof -
  have n: "0 < n" "n \<le> length s" using scan_char_bytes [OF assms] by auto
  have "byte_at (take n s @ t) i = byte_at s i" if "i < n" for i
    using that n by (simp add: byte_at_def nth_append)
  then show ?thesis using assms(1) n(1) by (auto simp: scan_char_def Let_def split: if_splits)
qed

text \<open>Induction over the characters of a text.\<close>

lemma utf8_induct [consumes 1, case_names Nil Char]:
  assumes "valid_utf8 s" "P []"
    and "\<And>s n. s \<noteq> [] \<Longrightarrow> scan_char s = (True, n) \<Longrightarrow> valid_utf8 (drop n s) \<Longrightarrow> P (drop n s) \<Longrightarrow> P s"
  shows "P s"
  using assms(1)
proof (induction s rule: valid_utf8.induct)
  case (1 s)
  show ?case
  proof (cases "s = []")
    case False
    then have v: "fst (scan_char s)" "valid_utf8 (drop (snd (scan_char s)) s)"
      using 1(2) by (simp_all add: valid_utf8.simps [of s] split: if_splits)
    have e: "scan_char s = (True, snd (scan_char s))" using v(1) by (simp add: prod_eq_iff)
    show ?thesis by (rule assms(3) [OF False e v(2)]) (rule 1(1) [OF False v])
  qed (use assms(2) in simp)
qed

lemma valid_cons: "s \<noteq> [] \<Longrightarrow> scan_char s = (True, n) \<Longrightarrow> valid_utf8 (take n s @ t) \<longleftrightarrow> valid_utf8 t"
  using scan_char_prefix [of s n t] scan_char_bytes(1,3) [of s n] by (subst valid_utf8.simps) (simp add: min_def)

section \<open>Reading bytes\<close>

lemma lossy_valid: "valid_utf8 s \<Longrightarrow> lossy s = s"
proof (induction rule: utf8_induct)
  case (Char s n)
  then show ?case by (subst lossy.simps) simp
qed simp

lemma scan_replacement: "scan_char (REPLACEMENT @ t) = (True, 3)"
  by (simp add: scan_char_def byte_at_def REPLACEMENT_def ord_def is_cont_def second_ok_def)

lemma valid_replacement: "valid_utf8 (REPLACEMENT @ t) \<longleftrightarrow> valid_utf8 t"
  by (subst valid_utf8.simps) (simp add: scan_replacement, simp add: REPLACEMENT_def)

lemma valid_lossy [simp]: "valid_utf8 (lossy s)"
proof (induction s rule: lossy.induct)
  case (1 s)
  show ?case
  proof (cases "s = []")
    case False
    have ih: "valid_utf8 (lossy (drop (snd (scan_char s)) s))" using 1 False by simp
    show ?thesis
    proof (cases "scan_char s")
      case (Pair ok n)
      then show ?thesis
        using ih False valid_cons [OF False, of n "lossy (drop n s)"]
        by (subst lossy.simps) (cases ok; simp add: valid_replacement)
    qed
  qed simp
qed

lemma valid_strict [simp]: "valid_utf8 (strict_text s)"
  by (simp add: strict_text_def)

text \<open>A text of plain bytes is what it was.\<close>

lemma valid_ascii: "(\<And>c. c \<in> set s \<Longrightarrow> ord c < 128) \<Longrightarrow> valid_utf8 s"
proof (induction s)
  case (Cons c s)
  then have "ord c < 128" "valid_utf8 s" by auto
  then show ?case by (subst valid_utf8.simps) (simp add: scan_char_def byte_at_def Let_def)
qed simp

section \<open>Boundaries\<close>

lemma boundary_drop:
  "n \<le> i \<Longrightarrow> i \<le> length s \<Longrightarrow> is_char_boundary s i \<Longrightarrow> is_char_boundary (drop n s) (i - n)"
  by (auto simp: is_char_boundary_def)

lemma boundary_back:
  assumes "scan_char s = (True, n)" "s \<noteq> []" "valid_utf8 (drop n s)" "n \<le> i" "is_char_boundary (drop n s) (i - n)"
  shows "is_char_boundary s i"
proof -
  have n: "0 < n" "n \<le> length s" using scan_char_bytes [OF assms(1,2)] by auto
  have first: "n = length s \<or> \<not> is_cont (ord (s ! n))"
  proof (cases "drop n s = []")
    case False
    then obtain m where "scan_char (drop n s) = (True, m)"
      using assms(3) by (cases "scan_char (drop n s)") (simp add: valid_utf8.simps [of "drop n s"] split: if_splits)
    from scan_char_bytes(4) [OF this False] show ?thesis using False by simp
  qed (use n in simp)
  show ?thesis using assms(4,5) n first by (auto simp: is_char_boundary_def)
qed

text \<open>From any position of a text a boundary is at most three bytes away, and what is behind it is a text.\<close>

lemma boundary_near: "valid_utf8 s \<Longrightarrow> i \<le> length s \<Longrightarrow> \<exists>j\<ge>i. j \<le> i + 3 \<and> is_char_boundary s j"
proof (induction arbitrary: i rule: utf8_induct)
  case (Char s n)
  note b = scan_char_bytes [OF Char(2,1)]
  show ?case
  proof (cases "i = 0 \<or> n \<le> i")
    case True
    show ?thesis
    proof (cases "i = 0")
      case False
      then have "n \<le> i" using True by simp
      have "i - n \<le> length (drop n s)" using Char(5) by simp
      then obtain j where "i - n \<le> j" "j \<le> i - n + 3" "is_char_boundary (drop n s) j"
        using Char(4) [of "i - n"] by blast
      then have "is_char_boundary s (n + j)" using boundary_back [OF Char(2,1,3), of "n + j"] by simp
      then show ?thesis using \<open>i - n \<le> j\<close> \<open>j \<le> i - n + 3\<close> \<open>n \<le> i\<close> by (intro exI [of _ "n + j"]) auto
    qed (auto simp: is_char_boundary_def)
  next
    case False
    then have "is_char_boundary s n"
      using boundary_back [OF Char(2,1,3), of n] by (simp add: is_char_boundary_def)
    then show ?thesis using False b(2) by (intro exI [of _ n]) auto
  qed
qed (auto simp: is_char_boundary_def)

lemma valid_behind: "valid_utf8 s \<Longrightarrow> is_char_boundary s i \<Longrightarrow> valid_utf8 (drop i s)"
proof (induction arbitrary: i rule: utf8_induct)
  case (Char s n)
  note b = scan_char_bytes [OF Char(2,1)]
  have "i \<le> length s" using Char(5) by (auto simp: is_char_boundary_def)
  consider "i = 0" | "0 < i" "i < n" | "n \<le> i" by linarith
  then show ?case
  proof cases
    case 1
    then show ?thesis using Char(1-3) by (simp, subst valid_utf8.simps) simp
  next
    case 2
    then have "is_cont (ord (s ! i))" "i < length s" using b(3,5) by auto
    then show ?thesis using Char(5) 2 by (auto simp: is_char_boundary_def)
  next
    case 3
    then have "valid_utf8 (drop (i - n) (drop n s))"
      using Char(4) [OF boundary_drop [OF 3 \<open>i \<le> length s\<close> Char(5)]] by simp
    then show ?thesis using 3 by (simp add: add.commute)
  qed
qed simp

lemma next_boundary_least: "i \<le> j \<Longrightarrow> is_char_boundary s j \<Longrightarrow> next_boundary s i \<le> j"
proof (induction s i rule: next_boundary.induct)
  case (1 s i)
  show ?case
  proof (cases "length s \<le> i \<or> is_char_boundary s i")
    case True
    then show ?thesis using 1 by (simp add: next_boundary.simps [of s i])
  next
    case False
    then have "i \<noteq> j" using 1(3) by auto
    then show ?thesis using 1 False by (simp add: next_boundary.simps [of s i])
  qed
qed

lemma next_boundary_ge: "i \<le> next_boundary s i"
proof (induction s i rule: next_boundary.induct)
  case (1 s i)
  then show ?case by (cases "length s \<le> i \<or> is_char_boundary s i") (auto simp: next_boundary.simps [of s i])
qed

lemma next_boundary_is: "i \<le> length s \<Longrightarrow> is_char_boundary s (next_boundary s i)"
proof (induction s i rule: next_boundary.induct)
  case (1 s i)
  show ?case
  proof (cases "length s \<le> i \<or> is_char_boundary s i")
    case True
    then have "is_char_boundary s i" using 1(2) by (auto simp: is_char_boundary_def)
    then show ?thesis by (subst next_boundary.simps) simp
  next
    case False
    then show ?thesis using 1 by (subst next_boundary.simps) simp
  qed
qed

lemma next_boundary_here: "is_char_boundary s i \<Longrightarrow> next_boundary s i = i"
  by (simp add: next_boundary.simps)

lemma boundary_zero [simp]: "is_char_boundary s 0"
  by (simp add: is_char_boundary_def)

lemma boundary_inside: "0 < cap \<Longrightarrow> cap < length s \<Longrightarrow>
  is_char_boundary s (length s - cap) \<longleftrightarrow> \<not> is_cont (ord (s ! (length s - cap)))"
  by (auto simp: is_char_boundary_def)

text \<open>The function that looks for a boundary keeps whole characters, and loses at most three bytes by it.\<close>

lemma char_tail_text:
  assumes "valid_utf8 s" "cap < length s"
  obtains u where "char_tail s cap = Some (''...'' @ u)" "valid_utf8 u" "\<exists>p. s = p @ u"
    "length u \<le> cap" "cap \<le> length u + 3"
proof -
  define j where "j = next_boundary s (length s - cap)"
  have b: "is_char_boundary s j" unfolding j_def by (rule next_boundary_is) simp
  obtain k where "length s - cap \<le> k" "k \<le> length s - cap + 3" "is_char_boundary s k"
    using boundary_near [OF assms(1), of "length s - cap"] by auto
  then have "length s - cap \<le> j" "j \<le> length s - cap + 3"
    unfolding j_def using next_boundary_ge next_boundary_least by (blast, meson le_trans)
  moreover have "char_tail s cap = Some (''...'' @ drop j s)"
    using assms(2) b by (simp add: char_tail_def dots_def slice_from_def j_def)
  moreover have "valid_utf8 (drop j s)" by (rule valid_behind [OF assms(1) b])
  moreover have "\<exists>p. s = p @ drop j s" by (rule exI [of _ "take j s"]) simp
  ultimately show thesis using that [of "drop j s"] assms(2) by simp
qed

text \<open>The others agree with it unless the cut is inside a character.\<close>

lemma cut_agrees:
  assumes "cap < length s"
  shows "dots (slice_from s (length s - cap)) =
    (if 0 < cap \<and> is_cont (ord (s ! (length s - cap))) then None else char_tail s cap)"
proof (cases "is_char_boundary s (length s - cap)")
  case True
  then show ?thesis
    using assms boundary_inside [of cap s] by (auto simp: char_tail_def next_boundary_here slice_from_def)
next
  case False
  then have "0 < cap" using assms by (cases cap) (auto simp: is_char_boundary_def)
  then show ?thesis using False assms boundary_inside [of cap s] by (simp add: slice_from_def dots_def)
qed

end
