(* ===== verification/Stdfs.thy ===== *)
theory Stdfs
  imports Git_Runner
begin

text \<open>
  The runner of the standard libraries' own tests (src/src/stdfs.rs): the parsers of what go, python, node and the
  generated Rust runner print, the verdict on an item, on a language and on a run, and the choice of
  modules and files. What a program printed and how it ended is data; finding and running programs is left out.
  Its function \<open>tail\<close> and its queue are those of the git runner, whose models are used.
\<close>

section \<open>Programs\<close>

record std_exec =
  x_code :: "int option"
  x_timed_out :: bool
  x_out :: string
  x_spawn_err :: bool

definition before_sub :: "string \<Rightarrow> string \<Rightarrow> string" where
  "before_sub p s = (case find_sub p s of Some i \<Rightarrow> take i s | None \<Rightarrow> s)"

section \<open>Go\<close>

record go_parsed =
  gp_pass :: nat
  gp_fail :: nat
  gp_skip :: nat
  gp_failures :: "(string \<times> string) list"

definition no_go :: go_parsed where
  "no_go = \<lparr>gp_pass = 0, gp_fail = 0, gp_skip = 0, gp_failures = []\<rparr>"

text \<open>A result line, with what was printed before it.\<close>

definition go_result :: "string \<Rightarrow> string \<Rightarrow> string \<Rightarrow> go_parsed \<Rightarrow> go_parsed" where
  "go_result verb name pending p =
     (if verb = ''PASS:'' then p\<lparr>gp_pass := gp_pass p + 1\<rparr>
      else if verb = ''SKIP:'' then p\<lparr>gp_skip := gp_skip p + 1\<rparr>
      else if verb = ''FAIL:'' then
        p\<lparr>gp_fail := gp_fail p + 1,
          gp_failures := (if length (gp_failures p) < 10 then gp_failures p @ [(name, tail_of pending 800)] else gp_failures p)\<rparr>
      else p)"

definition go_line :: "string \<Rightarrow> go_parsed \<times> string \<Rightarrow> go_parsed \<times> string" where
  "go_line line s =
     (case s of (p, pending) \<Rightarrow>
        if starts_with ''=== '' line then (p, [])
        else if starts_with ''--- '' line then
          (case split_once '' '' (drop 4 line) of
             None \<Rightarrow> (p, pending)
           | Some (verb, rest) \<Rightarrow> (go_result verb (trim (before_sub '' ('' rest)) pending p, []))
        else if line \<noteq> [] \<and> is_ws (hd line) \<and> trim line \<noteq> [] then
          (p, if length pending < 800 then pending @ trim_start line @ [LF] else pending)
        else (p, []))"

definition parse_go_v :: "string \<Rightarrow> go_parsed" where
  "parse_go_v out = fst (fold go_line (lines out) (no_go, []))"

section \<open>Python\<close>

record py_parsed =
  pp_pass :: nat
  pp_fail :: nat
  pp_skip :: nat
  pp_failures :: "string list"

definition no_py :: py_parsed where
  "no_py = \<lparr>pp_pass = 0, pp_fail = 0, pp_skip = 0, pp_failures = []\<rparr>"

definition py_line :: "string \<Rightarrow> py_parsed \<Rightarrow> py_parsed" where
  "py_line line p =
     (case find_sub '' ... '' line of
        None \<Rightarrow> p
      | Some pos \<Rightarrow>
          (let name = trim (take pos line); st = trim (drop (pos + 5) line)
           in if starts_with ''ok'' st then p\<lparr>pp_pass := pp_pass p + 1\<rparr>
              else if st = ''FAIL'' \<or> st = ''ERROR'' then
                p\<lparr>pp_fail := pp_fail p + 1,
                  pp_failures := (if length (pp_failures p) < 100 then pp_failures p @ [name] else pp_failures p)\<rparr>
              else if starts_with ''skipped'' st then p\<lparr>pp_skip := pp_skip p + 1\<rparr>
              else p))"

definition parse_python_v :: "string \<Rightarrow> py_parsed" where
  "parse_python_v out = fold py_line (lines out) no_py"

definition python_modules :: "string list \<Rightarrow> string list" where
  "python_modules ms = map (\<lambda>m. if starts_with ''test_'' m then m else ''test_'' @ m) ms"

definition ignore_flag :: "string \<Rightarrow> string" where
  "ignore_flag help =
     (if contains help ''--ignore-list'' then ''--ignore-list''
      else if contains help ''--ignorefile'' then ''--ignorefile'' else [])"

section \<open>Node\<close>

record node_parsed =
  np_pass :: nat
  np_fail :: nat
  np_failures :: "(string \<times> string) list"

definition no_node :: node_parsed where
  "no_node = \<lparr>np_pass = 0, np_fail = 0, np_failures = []\<rparr>"

text \<open>The indented lines behind a failure.\<close>

fun indented :: "string list \<Rightarrow> string \<Rightarrow> string" where
  "indented [] det = det"
| "indented (l # ls) det =
     (if starts_with '' '' l \<or> starts_with [TAB] l
      then (let det = det @ l @ [LF] in if 800 < length det then det else indented ls det) else det)"

definition node_name :: "string \<Rightarrow> string" where
  "node_name line =
     (let s = trim_start_matches ''not ok '' line in case split_once '' - '' s of Some (a, b) \<Rightarrow> b | None \<Rightarrow> s)"

fun node_lines :: "string list \<Rightarrow> node_parsed \<Rightarrow> node_parsed" where
  "node_lines [] p = p"
| "node_lines (line # ls) p =
     node_lines ls
       (if starts_with ''ok '' line then p\<lparr>np_pass := np_pass p + 1\<rparr>
        else if starts_with ''not ok '' line then
          p\<lparr>np_fail := np_fail p + 1,
            np_failures := np_failures p @
              [(node_name line, if length (np_failures p) < 10 then tail_of (indented ls []) 800 else [])]\<rparr>
        else p)"

definition node_tap :: "string \<Rightarrow> node_parsed" where
  "node_tap out = node_lines (lines out) no_node"

definition NODE_EXCLUDE_DEFAULT :: "string list" where
  "NODE_EXCLUDE_DEFAULT = [''test-fs-realpath-native.js'']"

definition node_files :: "string option \<Rightarrow> string list \<Rightarrow> string list" where
  "node_files flt names =
     (let files = sort (filter (\<lambda>n. starts_with ''test-fs-'' n \<and> ends_with ''.js'' n \<and> \<not> contains n ''watch'' \<and>
            \<not> (\<exists>x\<in>set NODE_EXCLUDE_DEFAULT. contains n x)) names)
      in case flt of None \<Rightarrow> files | Some f \<Rightarrow> filter (\<lambda>n. contains n f) files)"

text \<open>The major number of a version; one that cannot be read is 0.\<close>

definition node_major :: "string \<Rightarrow> nat" where
  "node_major v = (case parse_u64 (hd (split_on CHR ''.'' (trim_start_matches ''v'' v))) of Some n \<Rightarrow> n | None \<Rightarrow> 0)"

section \<open>The Rust runner's lines\<close>

fun splitn :: "nat \<Rightarrow> char \<Rightarrow> string \<Rightarrow> string list" where
  "splitn 0 c s = []"
| "splitn (Suc 0) c s = [s]"
| "splitn (Suc (Suc n)) c s =
     (if c \<in> set s then takeWhile (\<lambda>x. x \<noteq> c) s # splitn (Suc n) c (drop 1 (dropWhile (\<lambda>x. x \<noteq> c) s)) else [s])"

record rust_parsed =
  rp_pass :: nat
  rp_fail :: nat
  rp_tout :: nat
  rp_seen :: nat
  rp_failures :: "(string \<times> string) list"

definition no_rust :: rust_parsed where
  "no_rust = \<lparr>rp_pass = 0, rp_fail = 0, rp_tout = 0, rp_seen = 0, rp_failures = []\<rparr>"

definition keep_failure :: "string \<times> string \<Rightarrow> rust_parsed \<Rightarrow> rust_parsed" where
  "keep_failure f p = (if length (rp_failures p) < 20 then p\<lparr>rp_failures := rp_failures p @ [f]\<rparr> else p)"

definition res_line :: "string \<Rightarrow> rust_parsed \<Rightarrow> rust_parsed" where
  "res_line line p =
     (case splitn 4 TAB line of
        res # name # st # rest \<Rightarrow>
          if res \<noteq> ''RES'' then p
          else (let p = p\<lparr>rp_seen := rp_seen p + 1\<rparr>; msg = (case rest of [] \<Rightarrow> [] | m # ms \<Rightarrow> m)
            in if st = ''ok'' \<or> st = ''skipped'' then p\<lparr>rp_pass := rp_pass p + 1\<rparr>
               else if st = ''timedout''
               then keep_failure (name, ''[timedout] '' @ tail_of msg 400) (p\<lparr>rp_tout := rp_tout p + 1, rp_fail := rp_fail p + 1\<rparr>)
               else keep_failure (name, tail_of msg 500) (p\<lparr>rp_fail := rp_fail p + 1\<rparr>))
      | _ \<Rightarrow> p)"

definition parse_res :: "string \<Rightarrow> rust_parsed" where
  "parse_res out = fold res_line (lines out) no_rust"

section \<open>Verdicts\<close>

datatype item_status = ItemOk | ItemFail | ItemTimedout | CompileError | Missing

text \<open>An item is fine when the program ended in time with 0 and no test failed.\<close>

definition item_status_of :: "std_exec \<Rightarrow> nat \<Rightarrow> item_status" where
  "item_status_of ex fails =
     (if x_timed_out ex then ItemTimedout else if x_code ex = Some 0 \<and> fails = 0 then ItemOk else ItemFail)"

text \<open>A package: what compiling its tests gave, and running them.\<close>

definition go_item :: "std_exec \<times> std_exec \<Rightarrow> item_status" where
  "go_item c =
     (if x_spawn_err (fst c) \<or> x_code (fst c) \<noteq> Some 0 then CompileError
      else item_status_of (snd c) (gp_fail (parse_go_v (x_out (snd c)))))"

text \<open>A module that is not there is reported, and fine.\<close>

definition py_item :: "std_exec option \<Rightarrow> item_status" where
  "py_item m = (case m of None \<Rightarrow> Missing | Some ex \<Rightarrow> item_status_of ex (pp_fail (parse_python_v (x_out ex))))"

definition node_item :: "std_exec \<Rightarrow> item_status" where
  "node_item ex = item_status_of ex (np_fail (node_tap (x_out ex)))"

text \<open>The status of a language, or that its programs are not there.\<close>

datatype lang_report = Unavailable | LangStatus string

definition items_report :: "item_status list \<Rightarrow> item_status list \<Rightarrow> lang_report" where
  "items_report fine items = LangStatus (if \<forall>i\<in>set items. i \<in> set fine then ''ok'' else ''failed'')"

definition go_report :: "(std_exec \<times> std_exec) list \<Rightarrow> lang_report" where
  "go_report cs = items_report [ItemOk] (map go_item cs)"

definition python_report :: "std_exec option list \<Rightarrow> lang_report" where
  "python_report ms = items_report [ItemOk, Missing] (map py_item ms)"

definition node_report :: "std_exec list \<Rightarrow> lang_report" where
  "node_report xs = items_report [ItemOk] (map node_item xs)"

text \<open>The generated runner: what compiling it gave, and running it.\<close>

definition rust_report :: "std_exec \<Rightarrow> std_exec \<Rightarrow> lang_report" where
  "rust_report build ex =
     (if x_code build \<noteq> Some 0 then LangStatus ''failed''
      else LangStatus
        (if x_timed_out ex then ''timedout''
         else if x_code ex = Some 0 \<and> \<not> x_timed_out ex \<and> rp_fail (parse_res (x_out ex)) = 0 then ''ok'' else ''fail''))"

text \<open>The reports by language: of a language that was asked for twice the last one counts.\<close>

fun put_report :: "string \<Rightarrow> lang_report \<Rightarrow> (string \<times> lang_report) list \<Rightarrow> (string \<times> lang_report) list" where
  "put_report l v [] = [(l, v)]"
| "put_report l v ((m, w) # rs) = (if m = l then (l, v) # rs else (m, w) # put_report l v rs)"

definition language_reports :: "(string \<times> lang_report) list \<Rightarrow> (string \<times> lang_report) list" where
  "language_reports runs = fold (\<lambda>(l, v) rs. put_report l v rs) runs []"

definition any_failed :: "(string \<times> lang_report) list \<Rightarrow> bool" where
  "any_failed rs \<longleftrightarrow> (\<exists>(l, v)\<in>set rs. v = LangStatus ''failed'')"

definition known_langs :: "string list \<Rightarrow> string option" where
  "known_langs ls = find (\<lambda>l. l \<notin> {''go'', ''python'', ''node'', ''rust''}) ls"

text \<open>A run: an unknown language is an error, else the status.\<close>

definition stdfs_run :: "(string \<times> lang_report) list \<Rightarrow> string + bool" where
  "stdfs_run runs =
     (case known_langs (map fst runs) of
        Some l \<Rightarrow> Inl l
      | None \<Rightarrow> Inr (\<not> any_failed (language_reports runs)))"

end
