(* ===== verification/Mptest_Main.thy ===== *)
theory Mptest_Main
  imports Mptest_Claims
begin

text \<open>
  The entry point of an mptest process (src/src/sqlite.rs, \<open>mptest_main\<close>): its options, the database that a
  master unlinks before it starts, the loop of a client over its tasks, and the run of a master with its shutdown
  and summary. What the process needs beside the engine is the record \<open>machine\<close>. Tracing of every
  statement, the registration of functions and the loading of extensions are left out.
\<close>

section \<open>Options\<close>

text \<open>\<open>find_option\<close>: the value, and the arguments without the option; a lone \<open>--\<close> ends the search.\<close>

fun find_option :: "bool \<Rightarrow> string \<Rightarrow> string list \<Rightarrow> (string \<times> string list) option" where
  "find_option has_arg opt [] = None"
| "find_option has_arg opt (a # as') =
     (if has_arg \<and> as' = [] then None
      else if \<not> starts_with ''-'' a then map_option (\<lambda>(v, r). (v, a # r)) (find_option has_arg opt as')
      else if a = ''--'' then None
      else if (if starts_with ''--'' a then drop 2 a else drop 1 a) = opt
           then Some (if has_arg then (hd as', tl as') else (a, as'))
      else map_option (\<lambda>(v, r). (v, a # r)) (find_option has_arg opt as'))"

definition take_option :: "bool \<Rightarrow> string \<Rightarrow> string list \<Rightarrow> string option \<times> string list" where
  "take_option has_arg opt args =
     (case find_option has_arg opt args of None \<Rightarrow> (None, args) | Some (v, r) \<Rightarrow> (Some v, r))"

record main_opts =
  mo_jmode :: "string option"
  mo_rep :: nat
  mo_vfs :: "string option"
  mo_client :: "string option"
  mo_errlog :: "string option"
  mo_log :: "string option"
  mo_trace :: int
  mo_timeout :: "string option"
  mo_sqltrace :: bool
  mo_sync :: bool
  mo_rest :: "string list"

text \<open>The number of cycles is cast to 32 bits; \<open>--quiet\<close> takes effect whatever the trace level.\<close>

definition rep_count :: "string option \<Rightarrow> nat" where
  "rep_count v = (case v of None \<Rightarrow> 1 | Some v \<Rightarrow> nat (max (atoi v) 1) mod 2 ^ 32)"

definition trace_level :: "string option \<Rightarrow> string option \<Rightarrow> int" where
  "trace_level t quiet = (if quiet \<noteq> None then 0 else case t of None \<Rightarrow> 1 | Some t \<Rightarrow> to_i32 (atoi t))"

definition main_options :: "string list \<Rightarrow> main_opts" where
  "main_options args =
     (let (jmode, r) = take_option True ''journalmode'' args;
          (rep, r) = take_option True ''repeat'' r;
          (v, r) = take_option True ''vfs'' r;
          (client, r) = take_option True ''client'' r;
          (errlog, r) = take_option True ''errlog'' r;
          (log, r) = take_option True ''log'' r;
          (trace, r) = take_option True ''trace'' r;
          (quiet, r) = take_option False ''quiet'' r;
          (tmout, r) = take_option True ''timeout'' r;
          (sqltrace, r) = take_option False ''sqltrace'' r;
          (sync, r) = take_option False ''sync'' r
      in \<lparr>mo_jmode = jmode, mo_rep = rep_count rep, mo_vfs = v, mo_client = client, mo_errlog = errlog, mo_log = log,
          mo_trace = trace_level trace quiet, mo_timeout = tmout, mo_sqltrace = sqltrace \<noteq> None, mo_sync = sync \<noteq> None,
          mo_rest = r\<rparr>)"

section \<open>The machine around the engine\<close>

text \<open>Removing a file (whether it is gone), what the busy handling of the library answers before the handler of
  the process is set, and the columns of the row at hand.\<close>

record 'e machine =
  mc_remove :: "'e \<Rightarrow> string \<Rightarrow> 'e \<times> bool"
  mc_exists :: "'e \<Rightarrow> string \<Rightarrow> bool"
  mc_open :: "'e \<Rightarrow> string \<Rightarrow> string option \<Rightarrow> bool \<Rightarrow> 'e \<times> string option"
  mc_log_opens :: "string \<Rightarrow> bool"
  mc_builtin :: "nat option \<Rightarrow> int \<Rightarrow> bool"
  mc_counts :: "'e \<Rightarrow> int \<times> int"
  mc_about :: "string list"
  mc_argv0 :: string
  mc_pid :: nat

text \<open>The engine before the busy handler is set: no callback reaches the process.\<close>

definition is_log :: "event \<Rightarrow> bool" where
  "is_log ev = (case ev of BusyCalled n \<Rightarrow> False | SqlLog c m \<Rightarrow> True)"

definition early_engine :: "'e engine \<Rightarrow> 'e machine \<Rightarrow> nat option \<Rightarrow> 'e engine" where
  "early_engine E M tmout = E\<lparr>e_exec := \<lambda>r e q.
     (case e_exec E (mc_builtin M tmout) e q of (e, x) \<Rightarrow> (e, x\<lparr>x_events := filter is_log (x_events x)\<rparr>))\<rparr>"

definition start_state :: "main_opts \<Rightarrow> string \<Rightarrow> 'e \<Rightarrow> 'e mpt" where
  "start_state opts db e = \<lparr>eng = e, n_error = 0, n_test = 0, i_trace = mo_trace opts, i_timeout = 0, ignore_sql_errors = False,
     sql_trace = mo_sqltrace opts, b_sync = mo_sync opts, vfs = mo_vfs opts, db_file = db, msgs = []\<rparr>"

definition traced :: "string \<Rightarrow> 'e mpt \<Rightarrow> 'e mpt" where
  "traced m s = (if i_trace s \<noteq> 0 then log_message m s else s)"

definition unlink_notes :: "nat \<Rightarrow> 'e mpt \<Rightarrow> string list" where
  "unlink_notes n_try s =
     (if n_try mod 5 = 4 \<and> 0 < i_trace s
      then [''... '' @ (if 5 < n_try then ''still '' else []) @ ''trying to unlink '' @ [TICK] @ db_file s @ [TICK]] else [])"

text \<open>A master tries up to sixty times to unlink a leftover database: the state, the tries and the lines.\<close>

function unlink_loop :: "'e engine \<Rightarrow> 'e machine \<Rightarrow> nat \<Rightarrow> string list \<Rightarrow> 'e mpt \<Rightarrow> 'e mpt \<times> nat \<times> string list" where
  "unlink_loop E M n_try out s =
     (let out = out @ unlink_notes n_try s
      in case mc_remove M (eng s) (db_file s) of
           (e, gone) \<Rightarrow>
             (let s = s\<lparr>eng := e\<rparr>
              in if gone then (s, n_try, out)
                 else if 60 \<le> n_try + 1 then (s, n_try + 1, out)
                 else unlink_loop E M (n_try + 1) out (sqlite_sleep E 1000 s)))"
  by pat_completeness auto
termination
  by (relation "measure (\<lambda>(E, M, n_try, out, s). 60 - n_try)") auto

declare unlink_loop.simps [simp del]

definition open_connection :: "'e machine \<Rightarrow> 'e engine \<Rightarrow> bool \<Rightarrow> 'e mpt \<Rightarrow> 'e res" where
  "open_connection M E create s =
     (case mc_open M (eng s) (db_file s) (vfs s) create of
        (e, None) \<Rightarrow> Ok (s\<lparr>eng := e\<rparr>)
      | (e, Some m) \<Rightarrow> fatal_error E False (''cannot open ['' @ db_file s @ '']: '' @ m) (s\<lparr>eng := e\<rparr>))"

definition builtin_timeout :: "string option \<Rightarrow> nat option" where
  "builtin_timeout t = (case t of None \<Rightarrow> None | Some t \<Rightarrow> if 0 < atoi t then Some (nat (atoi t)) else None)"

text \<open>The connection: journal mode and synchronous writing are set before the busy handler is.\<close>

definition set_up :: "'e engine \<Rightarrow> 'e machine \<Rightarrow> main_opts \<Rightarrow> bool \<Rightarrow> 'e mpt \<Rightarrow> 'e res" where
  "set_up E M opts create s =
     (let B = early_engine E M (builtin_timeout (mo_timeout opts))
      in and_then (open_connection M E create s)
           (\<lambda>s. and_then
              (case mo_jmode opts of None \<Rightarrow> Ok s
               | Some jm \<Rightarrow> run_sql B (''PRAGMA journal_mode='' @ [TICK] @ jm @ [TICK] @ '';'') s)
              (\<lambda>s. Ok ((if b_sync s then s else fst (try_sql B ''PRAGMA synchronous=OFF'' s))\<lparr>i_timeout := DEFAULT_TIMEOUT\<rparr>))))"

section \<open>A client\<close>

partial_function (option) client_loop :: "'e engine \<Rightarrow> nat \<Rightarrow> int \<Rightarrow> 'e mpt \<Rightarrow> 'e res option" where
  "client_loop E depth i_client s =
     (case start_script E i_client s of
        None \<Rightarrow> None
      | Some (ClaimDone s) \<Rightarrow> Some (Ok s)
      | Some (ClaimExit c s) \<Rightarrow> Some (Exited c s)
      | Some ClaimPanicked \<Rightarrow> Some Panicked
      | Some (ClaimTask script id1 name s) \<Rightarrow>
          (case and_then
                  (run_script E depth i_client id1 script name (traced (''begin '' @ name @ '' ('' @ int_str id1 @ '')'') s))
                  (\<lambda>s. finish_script E i_client id1 False (traced (''end '' @ name @ '' ('' @ int_str id1 @ '')'') s)) of
             Ok s \<Rightarrow> client_loop E depth i_client (sqlite_sleep E 10 s)
           | Exited c s \<Rightarrow> Some (Exited c s)
           | Panicked \<Rightarrow> Some Panicked))"

definition run_client :: "'e engine \<Rightarrow> nat \<Rightarrow> int \<Rightarrow> string list \<Rightarrow> 'e mpt \<Rightarrow> 'e res option" where
  "run_client E depth i_client rest s =
     (if rest \<noteq> [] then Some (Exited 1 s)
      else map_option (\<lambda>r. and_then r (\<lambda>s. Ok (traced ''end-client'' s))) (client_loop E depth i_client (traced ''start-client'' s)))"

section \<open>The master\<close>

definition SCRIPTS :: "string list" where
  "SCRIPTS = [''config01.test'', ''config02.test'', ''crash01.test'', ''crash02.subtest'', ''multiwrite01.test'']"

definition unwords :: "string list \<Rightarrow> string" where
  "unwords ws = concat (map (\<lambda>(i, w). if i = 0 then w else '' '' @ w) (zip [0..<length ws] ws))"

text \<open>\<open>load_script_reference\<close>: an embedded script by the tail of its name, or a file. The message does not quote the
  error of the operating system.\<close>

definition load_script_reference :: "'e engine \<Rightarrow> string \<Rightarrow> string + (string \<times> string)" where
  "load_script_reference E r =
     (case e_script E (filename_tail r) of
        Some content \<Rightarrow> Inr (filename_tail r, content)
      | None \<Rightarrow>
          (case (if e_is_file E r then e_read E r else None) of
             Some b \<Rightarrow> Inr (r, b)
           | None \<Rightarrow> Inl (''cannot open '' @ [DQUOTE] @ r @ [DQUOTE] @ '' for reading'' @
               (if e_is_file E r then [] else '' (not one of the embedded scripts: '' @ unwords SCRIPTS @ '')''))))"

definition tables_sql :: string where
  "tables_sql =
     ''DROP TABLE IF EXISTS task;'' @ [LF] @ ''DROP TABLE IF EXISTS counters;'' @ [LF] @ ''DROP TABLE IF EXISTS client;'' @ [LF] @
     ''CREATE TABLE task('' @ [LF] @ ''  id INTEGER PRIMARY KEY,'' @ [LF] @ ''  name TEXT,'' @ [LF] @ ''  client INTEGER,'' @ [LF] @
     ''  starttime DATE,'' @ [LF] @ ''  endtime DATE,'' @ [LF] @ ''  script TEXT'' @ [LF] @ '');'' @
     ''CREATE INDEX task_i1 ON task(client, starttime);'' @ [LF] @ ''CREATE INDEX task_i2 ON task(client, endtime);'' @ [LF] @
     ''CREATE TABLE counters(nError,nTest);'' @ [LF] @ ''INSERT INTO counters VALUES(0,0);'' @ [LF] @
     ''CREATE TABLE client(id INTEGER PRIMARY KEY, wantHalt);'' @ [LF]"

fun cycles :: "'e engine \<Rightarrow> nat \<Rightarrow> string \<Rightarrow> string \<Rightarrow> nat list \<Rightarrow> 'e mpt \<Rightarrow> 'e res" where
  "cycles E depth name body [] s = Ok s"
| "cycles E depth name body (i # is') s =
     and_then (run_script E depth 0 0 body name (traced (''begin script ['' @ name @ ''] cycle '' @ dec_str i) s))
       (\<lambda>s. cycles E depth name body is' (traced (''end script ['' @ name @ ''] cycle '' @ dec_str i) s))"

text \<open>Waits at most a second for the clients to be gone.\<close>

function drain_loop :: "'e engine \<Rightarrow> int \<Rightarrow> 'e mpt \<Rightarrow> 'e mpt" where
  "drain_loop E timeout s =
     (case try_sql E ''SELECT 1 FROM client'' s of
        (s, rc) \<Rightarrow>
          if rc = SQLITE_BUSY \<or> rc = SQLITE_ROW then
            (let s = sqlite_sleep E 10 s
             in if 0 < timeout - 10 then drain_loop E (timeout - 10) s else s)
          else s)"
  by pat_completeness auto
termination
  by (relation "measure (\<lambda>(E, timeout, s). nat timeout)") auto

declare drain_loop.simps [simp del]

definition shut_down :: "'e engine \<Rightarrow> 'e mpt \<Rightarrow> 'e res" where
  "shut_down E s =
     and_then (wait_for_client E 0 2000 (''during shutdown...'' @ [LF]) s)
       (\<lambda>s. let s = fst (try_sql E ''UPDATE client SET wantHalt=1'' s);
                s = (sqlite_sleep E 10 s)\<lparr>i_timeout := 0\<rparr>
            in Ok (sqlite_sleep E 100 (drain_loop E 1000 s)))"

definition counters_sql :: string where
  "counters_sql = ''SELECT nError, nTest FROM counters''"

function count_loop :: "'e engine \<Rightarrow> int \<Rightarrow> int \<Rightarrow> 'e mpt \<Rightarrow> 'e mpt \<times> int" where
  "count_loop E rc timeout s =
     (if rc = SQLITE_BUSY \<and> 0 < timeout then
        (let s = sqlite_sleep E 10 s;
             (e, rc, evs) = e_step E (retry s) (eng s) counters_sql
         in count_loop E rc (timeout - 10) (on_events evs (s\<lparr>eng := e\<rparr>)))
      else (s, rc))"
  by pat_completeness auto
termination
  by (relation "measure (\<lambda>(E, rc, timeout, s). nat timeout)") auto

declare count_loop.simps [simp del]

text \<open>The counters of the clients: whether the row could be read.\<close>

definition fetch_counters :: "'e engine \<Rightarrow> 'e mpt \<Rightarrow> 'e mpt \<times> bool" where
  "fetch_counters E s =
     (if e_prepare E (eng s) counters_sql
      then (let (e, rc, evs) = e_step E (retry s) (eng s) counters_sql;
                (s, rc) = count_loop E rc 1000 (on_events evs (s\<lparr>eng := e\<rparr>))
            in (s, rc = SQLITE_ROW))
      else (s, False))"

definition add_counters :: "'e machine \<Rightarrow> 'e mpt \<times> bool \<Rightarrow> 'e mpt" where
  "add_counters M r =
     (case r of (s, found) \<Rightarrow>
        if found
        then s\<lparr>n_error := (n_error s + nat (fst (mc_counts M (eng s)) mod 2 ^ 64)) mod 2 ^ 64,
               n_test := (n_test s + nat (snd (mc_counts M (eng s)) mod 2 ^ 64)) mod 2 ^ 64\<rparr>
        else s)"

text \<open>All that a master does before it reads the counters.\<close>

definition master_scripts :: "'e engine \<Rightarrow> nat \<Rightarrow> nat \<Rightarrow> string list \<Rightarrow> 'e mpt \<Rightarrow> 'e res" where
  "master_scripts E depth n_rep rest s =
     (case rest of
        [] \<Rightarrow> fatal_error E True ''missing script filename'' s
      | r # more_args \<Rightarrow>
          if more_args \<noteq> [] then Exited 1 s
          else and_then (run_sql E tables_sql s)
            (\<lambda>s. case load_script_reference E r of
                   Inl m \<Rightarrow> fatal_error E False m s
                 | Inr (name, body) \<Rightarrow> and_then (cycles E depth name body [1..<Suc n_rep] s) (shut_down E)))"

definition run_master :: "'e engine \<Rightarrow> 'e machine \<Rightarrow> nat \<Rightarrow> nat \<Rightarrow> string list \<Rightarrow> 'e mpt \<Rightarrow> 'e res" where
  "run_master E M depth n_rep rest s =
     and_then (master_scripts E depth n_rep rest s) (\<lambda>s. Ok (add_counters M (fetch_counters E s)))"

section \<open>The process\<close>

text \<open>An exit code, the lines printed before and after the messages, and the last state.\<close>

datatype 'e run_end = Ended int "string list" "'e mpt" "string list" | Crashed

definition with_args :: "string \<Rightarrow> 'e machine \<Rightarrow> string list \<Rightarrow> string" where
  "with_args word M args = word @ mc_argv0 M @ concat (map (\<lambda>a. '' '' @ a) args)"

definition summary_line :: "nat \<Rightarrow> nat \<Rightarrow> string" where
  "summary_line ne nt = ''Summary: '' @ dec_str ne @ '' errors out of '' @ dec_str nt @ '' tests''"

definition exit_code :: "'e mpt \<Rightarrow> int" where
  "exit_code s = (if 0 < n_error s then 1 else 0)"

definition end_of :: "string list \<Rightarrow> ('e mpt \<Rightarrow> string list) \<Rightarrow> 'e res \<Rightarrow> 'e run_end" where
  "end_of head tail_lines r =
     (case r of Ok s \<Rightarrow> Ended (exit_code s) head s (tail_lines s) | Exited c s \<Rightarrow> Ended c head s [] | Panicked \<Rightarrow> Crashed)"

definition master_main :: "'e engine \<Rightarrow> 'e machine \<Rightarrow> nat \<Rightarrow> string list \<Rightarrow> main_opts \<Rightarrow> 'e mpt \<Rightarrow> 'e run_end" where
  "master_main E M depth args opts s =
     (let head = (if 0 < i_trace s then with_args ''BEGIN: '' M args # mc_about M else []);
          (s, n_try, out) = unlink_loop E M 0 head s;
          r = (if mc_exists M (eng s) (db_file s)
               then fatal_error E False (''unable to unlink '' @ [TICK] @ db_file s @ [TICK] @ '' after '' @ dec_str n_try
                      @ '' attempts'' @ [LF]) s
               else and_then (set_up E M opts True s) (run_master E M depth (mo_rep opts) (mo_rest opts)))
      in end_of out (\<lambda>s. [summary_line (n_error s) (n_test s), with_args ''END: '' M args]) r)"

definition client_main :: "'e engine \<Rightarrow> 'e machine \<Rightarrow> nat \<Rightarrow> string \<Rightarrow> main_opts \<Rightarrow> 'e mpt \<Rightarrow> 'e run_end option" where
  "client_main E M depth c opts s =
     (if atoi c < 1
      then Some (end_of [] (\<lambda>s. []) (fatal_error E False (''illegal client number: '' @ int_str (atoi c) @ [LF]) s))
      else map_option (end_of [] (\<lambda>s. []))
        (case set_up E M opts False s of
           Ok s \<Rightarrow> run_client E depth (atoi c) (mo_rest opts) s
         | r \<Rightarrow> Some r))"

definition log_opens :: "'e machine \<Rightarrow> string option \<Rightarrow> bool" where
  "log_opens M f = (case f of None \<Rightarrow> True | Some f \<Rightarrow> mc_log_opens M f)"

definition mptest_main :: "'e engine \<Rightarrow> 'e machine \<Rightarrow> nat \<Rightarrow> string list \<Rightarrow> 'e \<Rightarrow> 'e run_end option" where
  "mptest_main E M depth args e =
     (case args of
        [] \<Rightarrow> Some (Ended 1 [] (start_state (main_options []) [] e) [])
      | db # rest \<Rightarrow>
          (let opts = main_options rest; s = start_state opts db e
           in if strglob ''*.test'' db then Some (Ended 1 [] s [])
              else if \<not> (log_opens M (mo_errlog opts) \<and> log_opens M (mo_log opts)) then Some (Ended 1 [] s [])
              else case mo_client opts of
                     None \<Rightarrow> Some (master_main E M depth args opts s)
                   | Some c \<Rightarrow> client_main E M depth c opts s))"

section \<open>What is printed\<close>

definition pad_zero :: "nat \<Rightarrow> string \<Rightarrow> string" where
  "pad_zero w s = replicate (w - length s) CHR ''0'' @ s"

text \<open>A master has no name of its own.\<close>

definition process_name :: "'e machine \<Rightarrow> main_opts \<Rightarrow> string" where
  "process_name M opts =
     (case mo_client opts of
        None \<Rightarrow> ''mptest''
      | Some c \<Rightarrow> pad_zero 5 (dec_str (mc_pid M)) @ ''.client'' @ pad_zero 2 (int_str (atoi c)))"

definition print_with_prefix :: "string \<Rightarrow> string \<Rightarrow> string list" where
  "print_with_prefix prefix m = map (\<lambda>l. prefix @ l) (split_on LF m)"

fun message_lines :: "string \<Rightarrow> msg \<Rightarrow> string list" where
  "message_lines nm (Log m) = print_with_prefix (nm @ '': '') m"
| "message_lines nm (Err m) = print_with_prefix (nm @ '':ERROR: '') m"
| "message_lines nm (FatalMsg m) = print_with_prefix (nm @ '':FATAL: '') m"

text \<open>The standard output: a log file takes the messages away from it.\<close>

definition stdout_lines :: "'e machine \<Rightarrow> main_opts \<Rightarrow> string list \<Rightarrow> 'e mpt \<Rightarrow> string list \<Rightarrow> string list" where
  "stdout_lines M opts head s tail_lines =
     head @ (if mo_log opts = None then concat (map (message_lines (process_name M opts)) (msgs s)) else []) @ tail_lines"

end
