(* ===== verification/Mptest_Suite.thy ===== *)
theory Mptest_Suite
  imports Mptest_Main
begin

text \<open>
  The subcommand sqlite around mptest (src/src/sqlite.rs, \<open>list\<close>, \<open>resolve_selection\<close>, \<open>run\<close>): the scripts it
  selects, the command line of the process it starts for each, what it reads from the output, and the verdicts.
  The text of the embedded scripts is an argument; creating directories, starting processes and their time limit
  are left out.
\<close>

section \<open>Selecting scripts\<close>

record suite_args =
  sa_script :: "string list"
  sa_filter :: "string list"
  sa_repeat :: "nat option"
  sa_jmode :: "string option"
  sa_vfs :: "string option"
  sa_sync :: bool
  sa_sqltrace :: bool
  sa_quiet :: bool
  sa_trace :: "int option"

definition candidate :: "string \<Rightarrow> string" where
  "candidate s = (if ends_with ''.test'' s \<or> ends_with ''.subtest'' s then s else s @ ''.test'')"

definition push_new :: "string \<Rightarrow> string list \<Rightarrow> string list" where
  "push_new s out = (if s \<in> set out then out else out @ [s])"

text \<open>The name that is neither a script nor a file, or the names.\<close>

fun resolve_scripts :: "(string \<Rightarrow> bool) \<Rightarrow> string list \<Rightarrow> string list \<Rightarrow> string + string list" where
  "resolve_scripts is_file [] out = Inr out"
| "resolve_scripts is_file (s # ss) out =
     (if candidate s \<in> set SCRIPTS then resolve_scripts is_file ss (push_new (candidate s) out)
      else if CHR ''/'' \<in> set s \<and> is_file s then resolve_scripts is_file ss (push_new s out)
      else Inl (s @ '': not an embedded mptest script (config01, config02, crash01, multiwrite01) and not a file''))"

definition resolve_selection :: "(string \<Rightarrow> bool) \<Rightarrow> suite_args \<Rightarrow> string + string list" where
  "resolve_selection is_file a =
     (case resolve_scripts is_file (sa_script a) [] of
        Inl e \<Rightarrow> Inl e
      | Inr out \<Rightarrow>
          (let out = (if sa_filter a \<noteq> [] then filter (\<lambda>s. \<exists>f\<in>set (sa_filter a). contains s f) out else out)
           in if out = [] then Inl ''no scripts selected (check --script/--filter)'' else Inr out))"

section \<open>Listing scripts\<close>

text \<open>The words of the leading comment block.\<close>

fun comment_words :: "string list \<Rightarrow> string list \<Rightarrow> string list" where
  "comment_words [] ws = ws"
| "comment_words (l # ls) ws =
     (let l = trim l
      in if starts_with ''/*'' l \<or> starts_with ''**'' l
         then comment_words ls (ws @ split_ws (trim (trim_start_matches ''*'' (trim_start_matches ''/'' l))))
         else if ws \<noteq> [] then ws else comment_words ls ws)"

text \<open>The place of the last blank.\<close>

fun rfind :: "char \<Rightarrow> string \<Rightarrow> nat option" where
  "rfind c [] = None"
| "rfind c (x # s) = (case rfind c s of Some i \<Rightarrow> Some (Suc i) | None \<Rightarrow> if x = c then Some 0 else None)"

definition describe :: "string \<Rightarrow> string" where
  "describe content =
     (let joined = unwords (comment_words (lines content) [])
      in if length joined \<le> 72 then joined
         else (let cut = (case rfind CHR '' '' (take 73 joined) of Some i \<Rightarrow> i | None \<Rightarrow> 72) in take cut joined @ '' ...''))"

definition list_line :: "string \<times> string \<Rightarrow> string" where
  "list_line s = (case s of (name, content) \<Rightarrow> name @ replicate (20 - length name) CHR '' '' @ '' '' @ describe content)"

definition list_scripts :: "string list \<Rightarrow> (string \<times> string) list \<Rightarrow> string list" where
  "list_scripts filt scripts =
     map list_line (filter (\<lambda>(name, content). filt = [] \<or> (\<exists>f\<in>set filt. contains name f)) scripts)"

section \<open>The process of a script\<close>

definition script_stem :: "string \<Rightarrow> string" where
  "script_stem script = trim_end_matches ''.subtest'' (trim_end_matches ''.test'' (filename_tail script))"

definition opt_arg :: "string \<Rightarrow> string option \<Rightarrow> string list" where
  "opt_arg opt v = (case v of None \<Rightarrow> [] | Some x \<Rightarrow> [''--'' @ opt, x])"

definition opt_flag :: "string \<Rightarrow> bool \<Rightarrow> string list" where
  "opt_flag opt b = (if b then [''--'' @ opt] else [])"

text \<open>What follows the name of the helper mode.\<close>

definition command_line :: "suite_args \<Rightarrow> string \<Rightarrow> string \<Rightarrow> string list" where
  "command_line a db script =
     [db, script] @ opt_arg ''journalmode'' (sa_jmode a) @ opt_arg ''vfs'' (sa_vfs a)
     @ opt_arg ''repeat'' (map_option dec_str (sa_repeat a)) @ opt_arg ''trace'' (map_option int_str (sa_trace a))
     @ opt_flag ''sync'' (sa_sync a) @ opt_flag ''sqltrace'' (sa_sqltrace a) @ opt_flag ''quiet'' (sa_quiet a)"

section \<open>Reading the output\<close>

record sq_parsed =
  sq_errors :: nat
  sq_tests :: nat
  sq_summary :: bool
  sq_failures :: "(string \<times> string) list"

definition no_sq :: sq_parsed where
  "no_sq = \<lparr>sq_errors = 0, sq_tests = 0, sq_summary = False, sq_failures = []\<rparr>"

definition number_at :: "string list \<Rightarrow> nat \<Rightarrow> nat" where
  "number_at ws i = (if i < length ws then (case parse_u64 (ws ! i) of Some n \<Rightarrow> n | None \<Rightarrow> 0) else 0)"

definition note_failure :: "string \<Rightarrow> string \<Rightarrow> sq_parsed \<Rightarrow> sq_parsed" where
  "note_failure place m p =
     (if length (sq_failures p) < 20 then p\<lparr>sq_failures := sq_failures p @ [(last (split_on CHR ''.'' place), m)]\<rparr> else p)"

definition sq_line :: "string \<Rightarrow> sq_parsed \<Rightarrow> sq_parsed" where
  "sq_line line p =
     (case strip_prefix ''Summary: '' line of
        Some rest \<Rightarrow>
          (let ws = split_ws rest
           in p\<lparr>sq_errors := number_at ws 0, sq_tests := number_at ws 4, sq_summary := True\<rparr>)
      | None \<Rightarrow>
          (case find_sub '':ERROR: '' line of
             Some i \<Rightarrow> note_failure (take i line) (drop (i + 8) line) p
           | None \<Rightarrow>
               (case find_sub '':FATAL: '' line of
                  Some i \<Rightarrow> note_failure (take i line) (''[fatal] '' @ drop (i + 8) line) p
                | None \<Rightarrow> p)))"

definition parse_run :: "string \<Rightarrow> sq_parsed" where
  "parse_run combined = fold sq_line (lines combined) no_sq"

section \<open>Verdicts\<close>

datatype sq_status = SqOk | SqFail | SqBroken | SqTimedout

record sq_exec =
  sx_timed_out :: bool
  sx_stdout :: string
  sx_stderr :: string
  sx_spawn_err :: bool

text \<open>A directory that cannot be made breaks the item; else the process decides.\<close>

definition sq_item :: "sq_exec option \<Rightarrow> sq_status \<times> nat \<times> nat" where
  "sq_item ex =
     (case ex of
        None \<Rightarrow> (SqBroken, 0, 0)
      | Some ex \<Rightarrow>
          (let p = parse_run (sx_stdout ex @ [LF] @ sx_stderr ex)
           in (if sx_spawn_err ex then SqBroken else if sx_timed_out ex then SqTimedout
               else if \<not> sq_summary p then SqBroken else if 0 < sq_errors p then SqFail else SqOk,
               sq_errors p, sq_tests p)))"

record sq_report =
  sr_ok :: nat
  sr_fail :: nat
  sr_broken :: nat
  sr_timedout :: nat
  sr_errors :: nat
  sr_tests :: nat

definition count_item :: "sq_status \<times> nat \<times> nat \<Rightarrow> sq_report \<Rightarrow> sq_report" where
  "count_item it r =
     (case it of (st, e, t) \<Rightarrow>
        (let r = (case st of SqOk \<Rightarrow> r\<lparr>sr_ok := sr_ok r + 1\<rparr> | SqFail \<Rightarrow> r\<lparr>sr_fail := sr_fail r + 1\<rparr>
                  | SqBroken \<Rightarrow> r\<lparr>sr_broken := sr_broken r + 1\<rparr> | SqTimedout \<Rightarrow> r\<lparr>sr_timedout := sr_timedout r + 1\<rparr>)
         in r\<lparr>sr_errors := sr_errors r + e, sr_tests := sr_tests r + t\<rparr>))"

definition suite_report :: "(sq_status \<times> nat \<times> nat) list \<Rightarrow> sq_report" where
  "suite_report items =
     fold count_item items \<lparr>sr_ok = 0, sr_fail = 0, sr_broken = 0, sr_timedout = 0, sr_errors = 0, sr_tests = 0\<rparr>"

definition suite_ok :: "sq_report \<Rightarrow> bool" where
  "suite_ok r \<longleftrightarrow> sr_fail r = 0 \<and> sr_broken r = 0 \<and> sr_timedout r = 0"

text \<open>The items of a run: the error of the selection, or what running each script gave.\<close>

definition suite_run :: "(string \<Rightarrow> bool) \<Rightarrow> suite_args \<Rightarrow> (string \<Rightarrow> sq_exec option) \<Rightarrow> string + sq_report" where
  "suite_run is_file a exec =
     (case resolve_selection is_file a of
        Inl e \<Rightarrow> Inl e
      | Inr scripts \<Rightarrow> Inr (suite_report (map (\<lambda>s. sq_item (exec s)) scripts)))"

end
