(* ===== verification/Proc_Exec.thy ===== *)
theory Proc_Exec
  imports Rust_Utf8 Git_Runner Ltp_Runner Pjd_Runner Stdfs Mptest_Suite
begin

text \<open>
  How the runners start a program, watch it and read what it printed: \<open>exec_with_timeout\<close> of src/src/git.rs,
  src/src/sqlite.rs and src/src/stdfs.rs, the loop over the tests of src/src/ltp.rs and \<open>run_one\<close> of
  src/src/pjdfstest.rs. What the operating system does is the record \<open>proc_ops\<close> over an abstract world: starting
  a program, asking whether it ended, the clock and the sleep, the two ways to kill, waiting for the end and reading
  a pipe to its end. The last two may not return, which is None. Times are in nanoseconds.
\<close>

section \<open>The operating system\<close>

datatype poll_result = Ended "int option" | Running | PollFailed

text \<open>Starting takes the program and its arguments; the answer is the error, if there was one. A pipe is read to
  its end, which it has when no process holds it any more. \<open>op_output\<close> is \<open>wait_with_output\<close>, which reads both
  pipes or fails.\<close>

record 'w proc_ops =
  op_spawn :: "string list \<Rightarrow> 'w \<Rightarrow> string option \<times> 'w"
  op_poll :: "'w \<Rightarrow> poll_result \<times> 'w"
  op_clock :: "'w \<Rightarrow> nat \<times> 'w"
  op_sleep :: "nat \<Rightarrow> 'w \<Rightarrow> 'w"
  op_kill_group :: "'w \<Rightarrow> 'w"
  op_kill :: "'w \<Rightarrow> 'w"
  op_reap :: "'w \<Rightarrow> 'w option"
  op_stdout :: "'w \<Rightarrow> (string \<times> 'w) option"
  op_stderr :: "'w \<Rightarrow> (string \<times> 'w) option"
  op_output :: "'w \<Rightarrow> ((string \<times> string) option \<times> 'w) option"

definition millis :: "nat \<Rightarrow> nat" where "millis n = n * 1000000"
definition seconds :: "nat \<Rightarrow> nat" where "seconds n = n * 1000000000"

section \<open>Watching a program\<close>

text \<open>The loop that all runners share: ask, and when the program is still running either sleep or, behind the limit,
  kill it and wait for its end. The result is the exit code and whether it was killed.\<close>

partial_function (option) wait_loop ::
  "'w proc_ops \<Rightarrow> ('w \<Rightarrow> 'w) \<Rightarrow> nat \<Rightarrow> nat \<Rightarrow> 'w \<Rightarrow> (int option \<times> bool \<times> 'w) option" where
  "wait_loop P kill nap due w =
     (case op_poll P w of (r, w) \<Rightarrow>
        (case r of
           Ended c \<Rightarrow> Some (c, False, w)
         | PollFailed \<Rightarrow> Some (None, False, w)
         | Running \<Rightarrow>
             (case op_clock P w of (t, w) \<Rightarrow>
                if due < t then map_option (\<lambda>w. (None, True, w)) (op_reap P (kill w))
                else wait_loop P kill nap due (op_sleep P nap w))))"

text \<open>Killing the whole group of the program, and then the program itself.\<close>

definition kill_all :: "'w proc_ops \<Rightarrow> 'w \<Rightarrow> 'w" where
  "kill_all P w = op_kill P (op_kill_group P w)"

record ran =
  r_code :: "int option"
  r_timed_out :: bool
  r_out :: string
  r_err :: string
  r_spawn_err :: "string option"

definition run_limited :: "'w proc_ops \<Rightarrow> string list \<Rightarrow> nat \<Rightarrow> 'w \<Rightarrow> (ran \<times> 'w) option" where
  "run_limited P argv limit w =
     (case op_spawn P argv w of
        (Some e, w) \<Rightarrow>
          Some (\<lparr>r_code = None, r_timed_out = False, r_out = [], r_err = [], r_spawn_err = Some e\<rparr>, w)
      | (None, w) \<Rightarrow>
          (case op_clock P w of (t, w) \<Rightarrow>
             do {
               (code, tout, w) \<leftarrow> wait_loop P (kill_all P) (millis 20) (t + limit) w;
               (out, w) \<leftarrow> op_stdout P w;
               (err, w) \<leftarrow> op_stderr P w;
               Some (\<lparr>r_code = code, r_timed_out = tout, r_out = lossy out, r_err = lossy err, r_spawn_err = None\<rparr>, w)
             }))"

text \<open>What the three runners make of it.\<close>

definition git_exec_limited :: "'w proc_ops \<Rightarrow> string list \<Rightarrow> nat \<Rightarrow> 'w \<Rightarrow> (git_exec \<times> 'w) option" where
  "git_exec_limited P argv limit w =
     map_option (\<lambda>(x, w). (\<lparr>e_code = r_code x, e_timed_out = r_timed_out x, e_stdout = r_out x,
         e_spawn_err = (r_spawn_err x \<noteq> None)\<rparr>, w)) (run_limited P argv limit w)"

definition sqlite_exec_limited :: "'w proc_ops \<Rightarrow> string list \<Rightarrow> nat \<Rightarrow> 'w \<Rightarrow> (sq_exec \<times> 'w) option" where
  "sqlite_exec_limited P argv limit w =
     map_option (\<lambda>(x, w). (\<lparr>sx_timed_out = r_timed_out x, sx_stdout = r_out x, sx_stderr = r_err x,
         sx_spawn_err = (r_spawn_err x \<noteq> None)\<rparr>, w)) (run_limited P argv limit w)"

definition std_exec_limited :: "'w proc_ops \<Rightarrow> string list \<Rightarrow> nat \<Rightarrow> 'w \<Rightarrow> (std_exec \<times> 'w) option" where
  "std_exec_limited P argv limit w =
     map_option (\<lambda>(x, w). (\<lparr>x_code = r_code x, x_timed_out = r_timed_out x,
         x_out = r_out x @ (if r_err x = [] then [] else LF # r_err x),
         x_spawn_err = (r_spawn_err x \<noteq> None)\<rparr>, w)) (run_limited P argv limit w)"

section \<open>The tests of the Linux Test Project\<close>

text \<open>Three attempts, with a pause between them; the answer is the last error.\<close>

function spawn_tries :: "'w proc_ops \<Rightarrow> string list \<Rightarrow> nat \<Rightarrow> string option \<Rightarrow> 'w \<Rightarrow> string option \<times> 'w" where
  "spawn_tries P argv attempt err w =
     (if 3 \<le> attempt then (err, w)
      else case op_spawn P argv w of
             (None, w) \<Rightarrow> (None, w)
           | (Some e, w) \<Rightarrow>
               spawn_tries P argv (attempt + 1) (Some e) (if attempt < 2 then op_sleep P (millis 250) w else w))"
  by pat_completeness auto
termination by (relation "measure (\<lambda>(P, argv, attempt, err, w). 3 - attempt)") auto

declare spawn_tries.simps [simp del]

definition path_join :: "string \<Rightarrow> string \<Rightarrow> string" where
  "path_join dir name =
     (if starts_with ''/'' name then name
      else if dir = [] \<or> ends_with ''/'' dir then dir @ name else dir @ CHR ''/'' # name)"

definition ltp_argv :: "string \<Rightarrow> string \<Rightarrow> string list" where
  "ltp_argv bin_dir cmd =
     (case split_ws cmd of [] \<Rightarrow> [path_join bin_dir []] | b # args \<Rightarrow> path_join bin_dir b # args)"

text \<open>One test. The pipes are read only after the program has ended. The inner None is the panic of the slice that
  keeps the end of the output.\<close>

definition ltp_exec ::
  "'w proc_ops \<Rightarrow> string \<Rightarrow> nat \<Rightarrow> string \<Rightarrow> 'w \<Rightarrow> ((ltp_event \<times> string) option \<times> 'w) option" where
  "ltp_exec P bin_dir secs cmd w =
     (case op_clock P w of (t0, w) \<Rightarrow>
        (case spawn_tries P (ltp_argv bin_dir cmd) 0 None w of
           (Some e, w) \<Rightarrow> Some (Some (NotStarted, e), w)
         | (None, w) \<Rightarrow>
             do {
               (code, tout, w) \<leftarrow> wait_loop P (kill_all P) (millis 10) (t0 + seconds (max secs 1)) w;
               (out, w) \<leftarrow> op_output P w;
               Some (map_option (Pair (Done code tout))
                 (ltp_tail (case out of None \<Rightarrow> [] | Some (so, se) \<Rightarrow> lossy so @ lossy se)), w)
             }))"

fun ltp_tests ::
  "'w proc_ops \<Rightarrow> string \<Rightarrow> nat \<Rightarrow> (string \<times> string) list \<Rightarrow> 'w \<Rightarrow>
   ((string \<times> ltp_event \<times> string) list option \<times> 'w) option" where
  "ltp_tests P bin_dir secs [] w = Some (Some [], w)"
| "ltp_tests P bin_dir secs ((name, cmd) # tests) w =
     (case ltp_exec P bin_dir secs cmd w of
        None \<Rightarrow> None
      | Some (None, w) \<Rightarrow> Some (None, w)
      | Some (Some r, w) \<Rightarrow>
          map_option (\<lambda>(rs, w). (map_option ((#) (name, r)) rs, w)) (ltp_tests P bin_dir secs tests w))"

section \<open>The scripts of pjdfstest\<close>

text \<open>\<open>str::replace\<close> of a quote by the four characters that stand for it inside quotes.\<close>

fun escape_quotes :: "string \<Rightarrow> string" where
  "escape_quotes [] = []"
| "escape_quotes (c # s) = (if c = CHR 0x27 then [c, CHR 0x5C, c, c] else [c]) @ escape_quotes s"

fun join_script :: "string list \<Rightarrow> string" where
  "join_script [] = []"
| "join_script [l] = l"
| "join_script (l # ls) = l @ LF # join_script ls"

definition sh_quoted :: "string \<Rightarrow> string" where
  "sh_quoted s = CHR 0x27 # s @ [CHR 0x27]"

text \<open>The script that is run: the helper as a function of the shell, the configuration, the library and the body.\<close>

definition pjd_script ::
  "string \<Rightarrow> string \<Rightarrow> string option \<Rightarrow> string option \<Rightarrow> string \<Rightarrow> string \<Rightarrow> string" where
  "pjd_script exe conf fs os misc_body body =
     ''fstest() { '' @ sh_quoted (escape_quotes exe) @ '' __pjdfstest '' @ [CHR 0x22] @ ''$@'' @ [CHR 0x22] @ ''; }''
       @ LF # ''fstest=fstest'' @ LF # conf
       @ (case fs of None \<Rightarrow> [] | Some n \<Rightarrow> LF # ''fs='' @ sh_quoted n @ [LF])
       @ (case os of None \<Rightarrow> [] | Some n \<Rightarrow> LF # ''os='' @ sh_quoted n @ [LF])
       @ LF # ''test -n '' @ [CHR 0x22] @ ''${fstest}'' @ [CHR 0x22] @ '' || { echo '' @ sh_quoted ''not ok - fstest helper not set''
       @ ''; exit 1; }'' @ LF # LF # ''requires_root()'' @ misc_body @ LF # join_script (strip_sourcing (lines body)) @ [LF]"

text \<open>One file: the result of making its directory is an argument. Only the shell is killed at the limit. The inner
  None is the panic of the function that keeps the end of the error output.\<close>

definition pjd_exec ::
  "'w proc_ops \<Rightarrow> string option \<Rightarrow> string \<Rightarrow> nat \<Rightarrow> 'w \<Rightarrow> (file_result option \<times> 'w) option" where
  "pjd_exec P scratch_err script secs w =
     (case scratch_err of
        Some e \<Rightarrow> Some (Some (not_started (''cannot create scratch dir: '' @ e)), w)
      | None \<Rightarrow>
          (case op_spawn P [''sh'', ''-c'', script] w of
             (Some e, w) \<Rightarrow> Some (Some (not_started (''cannot spawn sh: '' @ e)), w)
           | (None, w) \<Rightarrow>
               (case op_clock P w of (t, w) \<Rightarrow>
                  do {
                    (code, tout, w) \<leftarrow> wait_loop P (op_kill P) (millis 20) (t + seconds (max secs 1)) w;
                    w \<leftarrow> op_reap P w;
                    (out, w) \<leftarrow> op_stdout P w;
                    (err, w) \<leftarrow> op_stderr P w;
                    Some (map_option (\<lambda>tail. run_one secs (strict_text out) tout) (pjd_truncate (strict_text err) 2000), w)
                  })))"

section \<open>What is relied on\<close>

text \<open>Nothing is assumed of the programs, of what they leave behind and of the pipes.\<close>

text \<open>The clock never goes back, and a sleep lasts at least as long as asked for.\<close>

definition clock_laws :: "'w proc_ops \<Rightarrow> ('w \<Rightarrow> nat) \<Rightarrow> bool" where
  "clock_laws P clk \<longleftrightarrow>
     (\<forall>w. fst (op_clock P w) = clk w \<and> clk w \<le> clk (snd (op_clock P w))) \<and>
     (\<forall>w n. clk w + n \<le> clk (op_sleep P n w)) \<and>
     (\<forall>w. clk w \<le> clk (snd (op_poll P w)) \<and> clk w \<le> clk (op_kill P w) \<and> clk w \<le> clk (op_kill_group P w)) \<and>
     (\<forall>w argv. clk w \<le> clk (snd (op_spawn P argv w))) \<and>
     (\<forall>w w'. op_reap P w = Some w' \<longrightarrow> clk w \<le> clk w') \<and>
     (\<forall>w b w'. op_stdout P w = Some (b, w') \<longrightarrow> clk w \<le> clk w') \<and>
     (\<forall>w b w'. op_stderr P w = Some (b, w') \<longrightarrow> clk w \<le> clk w')"

text \<open>A set of states in which the program does not end while it is only watched.\<close>

definition stays_running :: "'w proc_ops \<Rightarrow> ('w \<Rightarrow> bool) \<Rightarrow> bool" where
  "stays_running P S \<longleftrightarrow>
     (\<forall>w. S w \<longrightarrow> fst (op_poll P w) = Running \<and> S (snd (op_poll P w))) \<and>
     (\<forall>w. S w \<longrightarrow> S (snd (op_clock P w)) \<and> (\<forall>n. S (op_sleep P n w)))"

text \<open>The state behind one round of watching a program that is still running.\<close>

definition watch_round :: "'w proc_ops \<Rightarrow> nat \<Rightarrow> 'w \<Rightarrow> 'w" where
  "watch_round P nap w = op_sleep P nap (snd (op_clock P (snd (op_poll P w))))"

text \<open>The exit code that an answer stands for.\<close>

definition exit_of :: "poll_result \<Rightarrow> int option" where
  "exit_of r = (case r of Ended c \<Rightarrow> c | Running \<Rightarrow> None | PollFailed \<Rightarrow> None)"

text \<open>Starting a program with these arguments always succeeds and gives one that does not end while it is watched.\<close>

definition hangs :: "'w proc_ops \<Rightarrow> ('w \<Rightarrow> bool) \<Rightarrow> string list \<Rightarrow> bool" where
  "hangs P S argv \<longleftrightarrow> (\<forall>w. \<exists>w'. op_spawn P argv w = (None, w') \<and> S w')"

end
