(* ===== verification/Proc_Exec_Properties.thy ===== *)
theory Proc_Exec_Properties
  imports Proc_Exec
begin

text \<open>
  Watching a program comes to an end, and what the runners make of its output: the properties of Proc\_Exec.
\<close>

section \<open>The loop\<close>

lemma millis_pos [simp]: "0 < millis n \<longleftrightarrow> 0 < n"
  by (simp add: millis_def)

text \<open>
  The loop asks a bounded number of times and is then left: with the answer, when the program ended or could not be asked
  for, or with the wait for the killed program, when the limit had passed.
\<close>

lemma wait_loop_unrolled:
  assumes clk: "clock_laws P clk" and "0 < nap"
  obtains n r u where "op_poll P ((watch_round P nap ^^ n) w) = (r, u)"
    "0 < n \<Longrightarrow> clk w + (n - 1) * nap \<le> due" "clk w \<le> clk u" "r = Running \<Longrightarrow> due < clk u"
    "wait_loop P kill nap due w =
       (if r = Running then map_option (\<lambda>w. (None, True, w)) (op_reap P (kill (snd (op_clock P u))))
        else Some (exit_of r, False, u))"
proof -
  have "\<exists>n r u. op_poll P ((watch_round P nap ^^ n) w) = (r, u) \<and>
      (0 < n \<longrightarrow> clk w + (n - 1) * nap \<le> due) \<and> clk w \<le> clk u \<and> (r = Running \<longrightarrow> due < clk u) \<and>
      wait_loop P kill nap due w =
        (if r = Running then map_option (\<lambda>w. (None, True, w)) (op_reap P (kill (snd (op_clock P u))))
         else Some (exit_of r, False, u))"
  proof (induction "Suc due - clk w" arbitrary: w rule: less_induct)
    case less
    obtain r w1 where p: "op_poll P w = (r, w1)" by (cases "op_poll P w")
    obtain w2 where t: "op_clock P w1 = (clk w1, w2)" and c2: "clk w1 \<le> clk w2"
      using clk unfolding clock_laws_def by (metis prod.collapse)
    have c1: "clk w \<le> clk w1" using clk p unfolding clock_laws_def by (metis snd_conv)
    show ?case
    proof (cases "r = Running \<and> clk w1 \<le> due")
      case False
      then show ?thesis
        using p t c1 by (intro exI [of _ 0] exI [of _ r] exI [of _ w1])
          (auto simp: wait_loop.simps [of P kill nap due w] exit_of_def split: poll_result.split)
    next
      case True
      let ?w = "watch_round P nap w"
      have w: "?w = op_sleep P nap w2" using p t by (simp add: watch_round_def)
      have c3: "clk w2 + nap \<le> clk ?w" using clk unfolding clock_laws_def w by blast
      then have "Suc due - clk ?w < Suc due - clk w" using True c1 c2 assms(2) by linarith
      from less [OF this] obtain n r' u where IH: "op_poll P ((watch_round P nap ^^ n) ?w) = (r', u)"
        "0 < n \<longrightarrow> clk ?w + (n - 1) * nap \<le> due" "clk ?w \<le> clk u" "r' = Running \<longrightarrow> due < clk u"
        "wait_loop P kill nap due ?w =
           (if r' = Running then map_option (\<lambda>w. (None, True, w)) (op_reap P (kill (snd (op_clock P u))))
            else Some (exit_of r', False, u))" by blast
      have "wait_loop P kill nap due w = wait_loop P kill nap due ?w"
        using p t True w by (simp add: wait_loop.simps [of P kill nap due w])
      moreover have "clk w + n * nap \<le> due"
        using IH(2) True c1 c2 c3 by (cases n) auto
      ultimately show ?thesis
        using IH c1 c2 c3 by (intro exI [of _ "Suc n"] exI [of _ r'] exI [of _ u]) (simp add: funpow_swap1)
    qed
  qed
  then show thesis using that by blast
qed

text \<open>A program that does not end while it is watched is still running at every round.\<close>

lemma watched_stays:
  assumes "stays_running P S" "S w"
  shows "S ((watch_round P nap ^^ n) w)" "fst (op_poll P ((watch_round P nap ^^ n) w)) = Running"
    "S (snd (op_clock P (snd (op_poll P ((watch_round P nap ^^ n) w)))))"
proof -
  show s: "S ((watch_round P nap ^^ n) w)"
    using assms by (induction n) (auto simp: stays_running_def watch_round_def)
  then show "fst (op_poll P ((watch_round P nap ^^ n) w)) = Running"
    "S (snd (op_clock P (snd (op_poll P ((watch_round P nap ^^ n) w)))))"
    using assms(1) by (auto simp: stays_running_def)
qed

text \<open>So it is killed, whatever is killed.\<close>

lemma wait_loop_kills:
  assumes clk: "clock_laws P clk" and run: "stays_running P S" and "0 < nap" "S w"
  obtains w0 where "S w0" "due < clk w0" "wait_loop P kill nap due w = map_option (\<lambda>w. (None, True, w)) (op_reap P (kill w0))"
proof -
  obtain n r u where u: "op_poll P ((watch_round P nap ^^ n) w) = (r, u)" "r = Running \<Longrightarrow> due < clk u"
    "wait_loop P kill nap due w =
       (if r = Running then map_option (\<lambda>w. (None, True, w)) (op_reap P (kill (snd (op_clock P u))))
        else Some (exit_of r, False, u))"
    using wait_loop_unrolled [OF clk assms(3), of w due kill] by metis
  have "r = Running" "S (snd (op_clock P u))"
    using watched_stays [OF run assms(4), where nap = nap and n = n] u(1) by simp_all
  moreover have "clk u \<le> clk (snd (op_clock P u))" using clk by (simp add: clock_laws_def)
  ultimately show thesis using that u by fastforce
qed

section \<open>A run with a limit\<close>

lemma char_tail_lossy: "char_tail (lossy bytes) cap \<noteq> None"
proof (cases "cap < length (lossy bytes)")
  case True
  have "valid_utf8 (lossy bytes)" by simp
  from char_tail_text [OF this True] show ?thesis by auto
qed (simp add: char_tail_def)

text \<open>A world to show that the laws can hold: a program that ends after a time or never, and a clock.\<close>

record sim =
  s_now :: nat
  s_end :: "nat option"
  s_text :: string

definition gone :: "sim \<Rightarrow> bool" where
  "gone w \<longleftrightarrow> (case s_end w of None \<Rightarrow> False | Some t \<Rightarrow> t \<le> s_now w)"

definition sim_ops :: "(string list \<Rightarrow> nat option) \<Rightarrow> sim proc_ops" where
  "sim_ops lasts =
     \<lparr>op_spawn = (\<lambda>argv w. (None, w\<lparr>s_end := map_option ((+) (s_now w)) (lasts argv)\<rparr>)),
      op_poll = (\<lambda>w. (if gone w then Ended (Some 0) else Running, w)),
      op_clock = (\<lambda>w. (s_now w, w)),
      op_sleep = (\<lambda>n w. w\<lparr>s_now := s_now w + n\<rparr>),
      op_kill_group = (\<lambda>w. w\<lparr>s_end := Some 0\<rparr>),
      op_kill = (\<lambda>w. w\<lparr>s_end := Some 0\<rparr>),
      op_reap = (\<lambda>w. if gone w then Some w else None),
      op_stdout = (\<lambda>w. if gone w then Some (s_text w, w) else None),
      op_stderr = (\<lambda>w. if gone w then Some ([], w) else None),
      op_output = (\<lambda>w. if gone w then Some (Some (s_text w, []), w) else None)\<rparr>"

lemma sim_laws: "clock_laws (sim_ops lasts) s_now" "stays_running (sim_ops lasts) (\<lambda>w. s_end w = None)"
  by (simp_all add: clock_laws_def stays_running_def sim_ops_def gone_def)

section \<open>Limits are kept\<close>

text \<open>
  C37: Watching a script of git's suite always comes to an end, whatever the script does: after it was started, it is
  asked for its end at most 50 times a second of its limit and once or twice more, and then either the answer was that
  it has ended or cannot be asked for, or more time than the limit has passed and its group is killed. What is left is one wait for the
  killed script and the reading of its two pipes, which return when the operating system lets them, and only there
  can the run block. A script that keeps running while it is watched is killed, and it is reported as timed out; and the
  end of what was printed can always be kept without a panic.
\<close>

theorem limited_run_returns:
  assumes "clock_laws P clk" "stays_running P S" "op_spawn P argv w = (None, w1)"
  shows "\<exists>n r u. n \<le> 50 * secs + 1 \<and>
    op_poll P ((watch_round P (millis 20) ^^ n) (snd (op_clock P w1))) = (r, u) \<and>
    (r = Running \<longrightarrow> clk w + seconds secs < clk u) \<and> (S w1 \<longrightarrow> r = Running) \<and>
    git_exec_limited P argv (seconds secs) w =
      do {
        w' \<leftarrow> (if r = Running then op_reap P (kill_all P (snd (op_clock P u))) else Some u);
        (out, w') \<leftarrow> op_stdout P w';
        (err, w') \<leftarrow> op_stderr P w';
        Some (\<lparr>e_code = exit_of r, e_timed_out = (r = Running), e_stdout = lossy out, e_spawn_err = False\<rparr>, w')
      } \<and>
    (\<forall>ex w'. git_exec_limited P argv (seconds secs) w = Some (ex, w') \<longrightarrow>
       (script_status ex = GTimedout \<longleftrightarrow> r = Running) \<and> (\<forall>cap. char_tail (e_stdout ex) cap \<noteq> None))"
proof -
  obtain w2 where t: "op_clock P w1 = (clk w1, w2)" and c2: "clk w1 \<le> clk w2"
    using assms(1) unfolding clock_laws_def by (metis prod.collapse)
  have c1: "clk w \<le> clk w1" using assms(1,3) unfolding clock_laws_def by (metis snd_conv)
  obtain n r u where u: "op_poll P ((watch_round P (millis 20) ^^ n) w2) = (r, u)"
    "0 < n \<Longrightarrow> clk w2 + (n - 1) * millis 20 \<le> clk w1 + seconds secs" "r = Running \<Longrightarrow> clk w1 + seconds secs < clk u"
    "wait_loop P (kill_all P) (millis 20) (clk w1 + seconds secs) w2 =
       (if r = Running then map_option (\<lambda>w. (None, True, w)) (op_reap P (kill_all P (snd (op_clock P u))))
        else Some (exit_of r, False, u))"
    using wait_loop_unrolled [OF assms(1), of "millis 20" w2 "clk w1 + seconds secs" "kill_all P"] by (metis millis_pos zero_less_numeral)
  have n: "n \<le> 50 * secs + 1" using u(2) c2 by (cases n) (auto simp: millis_def seconds_def)
  have run: "git_exec_limited P argv (seconds secs) w =
      do {
        w' \<leftarrow> (if r = Running then op_reap P (kill_all P (snd (op_clock P u))) else Some u);
        (out, w') \<leftarrow> op_stdout P w';
        (err, w') \<leftarrow> op_stderr P w';
        Some (\<lparr>e_code = exit_of r, e_timed_out = (r = Running), e_stdout = lossy out, e_spawn_err = False\<rparr>, w')
      }"
    using assms(3) t u(4)
    by (auto simp: git_exec_limited_def run_limited_def exit_of_def map_option_case split: option.split bind_split)
  have "S w1 \<Longrightarrow> r = Running"
    using watched_stays(2) [OF assms(2), of w2, where nap = "millis 20" and n = n] assms(2) t u(1) unfolding stays_running_def
    by (metis fst_conv snd_conv)
  moreover have "(script_status ex = GTimedout \<longleftrightarrow> r = Running) \<and> (\<forall>cap. char_tail (e_stdout ex) cap \<noteq> None)"
    if "git_exec_limited P argv (seconds secs) w = Some (ex, w')" for ex w'
  proof -
    have "\<exists>out. ex = \<lparr>e_code = exit_of r, e_timed_out = (r = Running), e_stdout = lossy out, e_spawn_err = False\<rparr>"
      using that unfolding run by (auto split: bind_splits if_splits)
    then show ?thesis using char_tail_lossy by (auto simp: script_status_def Let_def split: if_splits)
  qed
  ultimately show ?thesis using n u(1,3) c1 run t by (intro exI [of _ n] exI [of _ r] exI [of _ u]) auto
qed

lemma limited_run_returns_witness:
  "\<exists>ex w'. git_exec_limited (sim_ops (\<lambda>argv. None)) [''sh'', ''t0000-basic.sh''] (seconds 10) \<lparr>s_now = 5, s_end = Some 1, s_text = []\<rparr> =
     Some (ex, w') \<and> script_status ex = GTimedout"
proof -
  let ?P = "sim_ops (\<lambda>argv. None)" and ?w = "\<lparr>s_now = 5, s_end = Some 1, s_text = []\<rparr>"
  have "op_spawn ?P [''sh'', ''t0000-basic.sh''] ?w = (None, ?w\<lparr>s_end := None\<rparr>)" by (simp add: sim_ops_def)
  from limited_run_returns [OF sim_laws this, of 10] obtain r u where
    "r = Running" and run: "git_exec_limited ?P [''sh'', ''t0000-basic.sh''] (seconds 10) ?w =
      do {
        w' \<leftarrow> (if r = Running then op_reap ?P (kill_all ?P (snd (op_clock ?P u))) else Some u);
        (out, w') \<leftarrow> op_stdout ?P w';
        (err, w') \<leftarrow> op_stderr ?P w';
        Some (\<lparr>e_code = exit_of r, e_timed_out = (r = Running), e_stdout = lossy out, e_spawn_err = False\<rparr>, w')
      }" by auto
  then show ?thesis by (simp add: sim_ops_def kill_all_def gone_def script_status_def)
qed

section \<open>The Linux Test Project\<close>

lemma spawn_tries_None:
  "spawn_tries P argv a err w = (None, w') \<Longrightarrow> clock_laws P clk \<Longrightarrow> clk w \<le> clk w'"
proof (induction P argv a err w rule: spawn_tries.induct)
  case (1 P argv a err w)
  obtain r w1 where p: "op_spawn P argv w = (r, w1)" by (cases "op_spawn P argv w")
  have c: "clk w \<le> clk w1" using 1(3) p unfolding clock_laws_def by (metis snd_conv)
  have s: "clk w1 \<le> clk (op_sleep P n w1)" for n
    using 1(3) unfolding clock_laws_def by (meson le_add1 le_trans)
  show ?case
  proof (cases r)
    case None
    then show ?thesis using 1(2) p c by (simp add: spawn_tries.simps [of P argv a err w] split: if_splits)
  next
    case (Some e)
    then show ?thesis
      using 1 p c s [of "millis 250"] by (fastforce simp: spawn_tries.simps [of P argv a err w] split: if_splits)
  qed
qed

text \<open>
  One test: it does not return only where it waits for its killed program or reads the output, it panics only over the
  end of its output, and a program that does not end while it is watched, such as one that waits for its output to be
  read, is killed.
\<close>

lemma ltp_exec_cases:
  assumes clk: "clock_laws P clk" and run: "stays_running P S"
  shows "case ltp_exec P bin_dir secs cmd w of
      None \<Rightarrow> (\<exists>u. clk w + seconds (max secs 1) < clk u \<and> op_reap P (kill_all P u) = None) \<or> (\<exists>u. op_output P u = None)
    | Some (None, w') \<Rightarrow> \<exists>u so se. op_output P u = Some (Some (so, se), w') \<and> ltp_tail (lossy so @ lossy se) = None
    | Some (Some (ev, tail), w') \<Rightarrow> hangs P S (ltp_argv bin_dir cmd) \<longrightarrow> ev = Done None True"
proof -
  let ?limit = "seconds (max secs 1)"
  obtain w1 where t: "op_clock P w = (clk w, w1)"
    using clk unfolding clock_laws_def by (metis prod.collapse)
  obtain err w2 where s: "spawn_tries P (ltp_argv bin_dir cmd) 0 None w1 = (err, w2)"
    by (cases "spawn_tries P (ltp_argv bin_dir cmd) 0 None w1")
  have h: "err = None \<and> S w2" if hang: "hangs P S (ltp_argv bin_dir cmd)"
  proof -
    obtain w' where "op_spawn P (ltp_argv bin_dir cmd) w1 = (None, w')" "S w'"
      using hang unfolding hangs_def by blast
    then show ?thesis using s by (simp add: spawn_tries.simps [of P _ 0])
  qed
  show ?thesis
  proof (cases err)
    case (Some e)
    then show ?thesis using t s h by (auto simp: ltp_exec_def)
  next
    case None
    obtain n r u where u: "op_poll P ((watch_round P (millis 10) ^^ n) w2) = (r, u)"
      "r = Running \<Longrightarrow> clk w + ?limit < clk u"
      "wait_loop P (kill_all P) (millis 10) (clk w + ?limit) w2 =
         (if r = Running then map_option (\<lambda>w. (None, True, w)) (op_reap P (kill_all P (snd (op_clock P u))))
          else Some (exit_of r, False, u))"
      using wait_loop_unrolled [OF clk, of "millis 10" w2 "clk w + ?limit" "kill_all P"] by (metis millis_pos zero_less_numeral)
    have c: "clk u \<le> clk (snd (op_clock P u))" using clk by (simp add: clock_laws_def)
    have hr: "r = Running" if "hangs P S (ltp_argv bin_dir cmd)"
      using watched_stays(2) [OF run, of w2, where nap = "millis 10" and n = n] h [OF that] u(1) by simp
    define stop where "stop = (if r = Running then op_reap P (kill_all P (snd (op_clock P u))) else Some u)"
    have ex: "ltp_exec P bin_dir secs cmd w =
        do {
          w \<leftarrow> stop;
          (out, w) \<leftarrow> op_output P w;
          Some (map_option (Pair (Done (exit_of r) (r = Running)))
            (ltp_tail (case out of None \<Rightarrow> [] | Some (so, se) \<Rightarrow> lossy so @ lossy se)), w)
        }"
      using t s None u(3) unfolding ltp_exec_def stop_def
      by (auto simp: exit_of_def map_option_case split: option.split bind_split)
    show ?thesis
    proof (cases stop)
      case None
      then have "clk w + ?limit < clk (snd (op_clock P u)) \<and> op_reap P (kill_all P (snd (op_clock P u))) = None"
        using u(2) c by (simp add: stop_def split: if_splits)
      then show ?thesis using None unfolding ex by auto
    next
      case (Some v)
      have tail: "ltp_tail [] \<noteq> None" by (simp add: ltp_tail_def)
      show ?thesis
      proof (cases "op_output P v")
        case None
        then show ?thesis using Some unfolding ex by auto
      next
        case out: (Some x)
        obtain o1 v' where x: "x = (o1, v')" by (cases x)
        show ?thesis
          using Some out x tail hr unfolding ex
          by (cases "ltp_tail (case o1 of None \<Rightarrow> [] | Some (so, se) \<Rightarrow> lossy so @ lossy se)"; cases o1)
            (auto simp: exit_of_def)
      qed
    qed
  qed
qed

lemma run_direct_counts:
  "c_total (run_direct evs) = length evs" "c_tout (run_direct evs) = length (filter (\<lambda>e. \<exists>c. e = Done c True) evs)"
proof -
  have one: "c_total (count_event e c) = c_total c + 1"
    "c_tout (count_event e c) = c_tout c + (if \<exists>c. e = Done c True then 1 else 0)" for e c
    by (auto simp: count_event_def ltp_count_def Let_def result_of_def split: ltp_event.split ltp_result.split option.split)
  have "c_total (fold count_event evs c) = c_total c + length evs"
    "c_tout (fold count_event evs c) = c_tout c + length (filter (\<lambda>e. \<exists>c. e = Done c True) evs)" for c
    by (induction evs arbitrary: c) (simp_all add: one)
  then show "c_total (run_direct evs) = length evs"
    "c_tout (run_direct evs) = length (filter (\<lambda>e. \<exists>c. e = Done c True) evs)"
    by (simp_all add: run_direct_def no_counts_def)
qed

text \<open>A run gets to a test of its list when the tests before that one have returned.\<close>

definition gets_to ::
  "'w proc_ops \<Rightarrow> string \<Rightarrow> nat \<Rightarrow> (string \<times> string) list \<Rightarrow> 'w \<Rightarrow> string \<Rightarrow> 'w \<Rightarrow> bool" where
  "gets_to P bin_dir secs tests w cmd w' \<longleftrightarrow>
     (\<exists>before name behind rs. tests = before @ (name, cmd) # behind \<and>
        ltp_tests P bin_dir secs before w = Some (Some rs, w'))"

lemma gets_to_first: "gets_to P bin_dir secs ((name, cmd) # tests) w cmd w"
  unfolding gets_to_def by (intro exI [of _ "[]"] exI [of _ name] exI [of _ tests]) simp

lemma gets_to_later:
  assumes "ltp_exec P bin_dir secs cmd w = Some (Some r, w1)" "gets_to P bin_dir secs tests w1 cmd' w'"
  shows "gets_to P bin_dir secs ((name, cmd) # tests) w cmd' w'"
proof -
  obtain before name' behind rs where "tests = before @ (name', cmd') # behind"
    "ltp_tests P bin_dir secs before w1 = Some (Some rs, w')" using assms(2) unfolding gets_to_def by blast
  then show ?thesis unfolding gets_to_def using assms(1)
    by (intro exI [of _ "(name, cmd) # before"] exI [of _ name'] exI [of _ behind]) simp
qed

definition ltp_ends ::
  "'w proc_ops \<Rightarrow> ('w \<Rightarrow> bool) \<Rightarrow> string \<Rightarrow> (string \<times> string) \<Rightarrow> (string \<times> ltp_event \<times> string) \<Rightarrow> bool" where
  "ltp_ends P S bin_dir test r \<longleftrightarrow>
     fst r = fst test \<and> (hangs P S (ltp_argv bin_dir (snd test)) \<longrightarrow> fst (snd r) = Done None True)"

lemma ltp_ends_counted:
  "list_all2 (ltp_ends P S bin_dir) tests rs \<Longrightarrow>
     length (filter (\<lambda>t. hangs P S (ltp_argv bin_dir (snd t))) tests) \<le> c_tout (run_direct (map (\<lambda>r. fst (snd r)) rs))"
  unfolding run_direct_counts
  by (induction rule: list_all2_induct) (auto simp: ltp_ends_def)

text \<open>
  C38: A run of the Linux Test Project, when it returns, has one result for every chosen test, in their order, and counts them
  all; every test whose program does not end while it is watched is killed and counted as timed out, which includes those
  that wait for their full output pipe to be read, whatever the other tests do. It does not return only when, at one of
  its tests, the wait for the killed program, behind the limit, or the reading of the output does not return; and it panics only
  when the end of an output is cut inside a character.
\<close>

theorem ltp_tests_all_run:
  assumes "clock_laws P clk" "stays_running P S"
  shows "case ltp_tests P bin_dir secs tests w of
      None \<Rightarrow> \<exists>cmd w0 u. gets_to P bin_dir secs tests w cmd w0 \<and>
        (clk w0 + seconds (max secs 1) < clk u \<and> op_reap P (kill_all P u) = None \<or> op_output P u = None)
    | Some (None, w') \<Rightarrow> \<exists>cmd w0 u so se. gets_to P bin_dir secs tests w cmd w0 \<and>
        op_output P u = Some (Some (so, se), w') \<and> ltp_tail (lossy so @ lossy se) = None
    | Some (Some rs, w') \<Rightarrow> list_all2 (ltp_ends P S bin_dir) tests rs \<and>
        c_total (run_direct (map (\<lambda>r. fst (snd r)) rs)) = length tests \<and>
        length (filter (\<lambda>t. hangs P S (ltp_argv bin_dir (snd t))) tests) \<le> c_tout (run_direct (map (\<lambda>r. fst (snd r)) rs))"
proof (induction tests arbitrary: w)
  case (Cons test tests)
  obtain name cmd where test: "test = (name, cmd)" by (cases test)
  have one: "case ltp_exec P bin_dir secs cmd w of
      None \<Rightarrow> (\<exists>u. clk w + seconds (max secs 1) < clk u \<and> op_reap P (kill_all P u) = None) \<or> (\<exists>u. op_output P u = None)
    | Some (None, w') \<Rightarrow> \<exists>u so se. op_output P u = Some (Some (so, se), w') \<and> ltp_tail (lossy so @ lossy se) = None
    | Some (Some (ev, tail), w') \<Rightarrow> hangs P S (ltp_argv bin_dir cmd) \<longrightarrow> ev = Done None True"
    by (rule ltp_exec_cases [OF assms])
  show ?case
  proof (cases "ltp_exec P bin_dir secs cmd w")
    case None
    then show ?thesis using one gets_to_first [of P bin_dir secs name cmd tests w] unfolding test by simp metis
  next
    case (Some x)
    obtain r w1 where x: "x = (r, w1)" by (cases x)
    show ?thesis
    proof (cases r)
      case None
      then show ?thesis using one Some x gets_to_first [of P bin_dir secs name cmd tests w] unfolding test by simp metis
    next
      case r: (Some y)
      obtain ev tail where y: "y = (ev, tail)" by (cases y)
      have later: "gets_to P bin_dir secs tests w1 cmd' w' \<Longrightarrow> gets_to P bin_dir secs (test # tests) w cmd' w'" for cmd' w'
        using gets_to_later Some x r unfolding test by metis
      show ?thesis
      proof (cases "ltp_tests P bin_dir secs tests w1")
        case None
        then obtain cmd' w0 u where "gets_to P bin_dir secs tests w1 cmd' w0"
          "clk w0 + seconds (max secs 1) < clk u \<and> op_reap P (kill_all P u) = None \<or> op_output P u = None"
          using Cons [of w1] by auto
        then show ?thesis using later None Some x r unfolding test by simp blast
      next
        case rest: (Some z)
        obtain rs w2 where z: "z = (rs, w2)" by (cases z)
        show ?thesis
        proof (cases rs)
          case None
          then obtain cmd' w0 u so se where "gets_to P bin_dir secs tests w1 cmd' w0"
            "op_output P u = Some (Some (so, se), w2)" "ltp_tail (lossy so @ lossy se) = None"
            using Cons [of w1] rest z by auto
          then show ?thesis using later None Some x r rest z unfolding test by simp blast
        next
          case rs: (Some l)
          have ends: "list_all2 (ltp_ends P S bin_dir) (test # tests) ((name, ev, tail) # l)"
            using Cons [of w1] one Some x r y rest z rs by (simp add: test ltp_ends_def)
          then show ?thesis
            using ltp_ends_counted [OF ends] list_all2_lengthD [OF ends] Some x r y rest z rs
            by (simp add: test run_direct_counts)
        qed
      qed
    qed
  qed
qed (simp add: run_direct_counts)

text \<open>Two tests, of which the second does not end.\<close>

lemma ltp_tests_all_run_witness:
  "\<exists>rs w'. ltp_tests (sim_ops (\<lambda>argv. if argv = [''/opt/mmap1''] then None else Some 7)
        \<lparr>op_output := \<lambda>w. Some (Some (''TPASS'', []), w)\<rparr>) ''/opt'' 120
      [(''open01'', ''open01 -x''), (''mmap1'', ''mmap1'')] \<lparr>s_now = 0, s_end = None, s_text = []\<rparr> = Some (Some rs, w') \<and>
     map fst rs = [''open01'', ''mmap1''] \<and> fst (snd (rs ! 1)) = Done None True \<and>
     \<not> ltp_ok (run_direct (map (\<lambda>r. fst (snd r)) rs))"
proof -
  let ?P = "sim_ops (\<lambda>argv. if argv = [''/opt/mmap1''] then None else Some 7)\<lparr>op_output := \<lambda>w. Some (Some (''TPASS'', []), w)\<rparr>"
  let ?w = "\<lparr>s_now = 0, s_end = None, s_text = []\<rparr>" and ?tests = "[(''open01'', ''open01 -x''), (''mmap1'', ''mmap1'')]"
  let ?S = "\<lambda>w. s_end w = None"
  have laws: "clock_laws ?P s_now" "stays_running ?P ?S"
    by (simp_all add: clock_laws_def stays_running_def sim_ops_def gone_def)
  have "ltp_argv ''/opt'' ''mmap1'' = [''/opt/mmap1'']" by code_simp
  then have h: "hangs ?P ?S (ltp_argv ''/opt'' ''mmap1'')" by (simp add: hangs_def sim_ops_def)
  have "lossy ''TPASS'' = ''TPASS''" by (rule lossy_valid, rule valid_ascii) (auto simp: ord_def)
  then have cut: "ltp_tail (lossy ''TPASS'' @ lossy []) \<noteq> None" by (simp add: ltp_tail_def)
  have reap: "op_reap ?P (kill_all ?P u) \<noteq> None" for u by (simp add: sim_ops_def kill_all_def gone_def)
  have out: "op_output ?P u = Some (Some (''TPASS'', []), u)" for u by simp
  note run = ltp_tests_all_run [OF laws, of "''/opt''" 120 ?tests ?w]
  obtain rs w' where rs: "ltp_tests ?P ''/opt'' 120 ?tests ?w = Some (Some rs, w')"
  proof (cases "ltp_tests ?P ''/opt'' 120 ?tests ?w")
    case None
    from run [unfolded None] obtain u where "op_reap ?P (kill_all ?P u) = None \<or> op_output ?P u = None"
      by (simp only: option.case) blast
    then show ?thesis using reap [of u] out [of u] by auto
  next
    case (Some x)
    obtain r w' where x: "x = (r, w')" by (cases x)
    show ?thesis
    proof (cases r)
      case None
      from run [unfolded Some x None] obtain u so se where
        "op_output ?P u = Some (Some (so, se), w')" "ltp_tail (lossy so @ lossy se) = None"
        by (simp only: option.case prod.case) blast
      then show ?thesis using out [of u] cut by auto
    qed (use that Some x in simp)
  qed
  from run rs
  have "list_all2 (ltp_ends ?P ?S ''/opt'') ?tests rs"
    "length (filter (\<lambda>t. hangs ?P ?S (ltp_argv ''/opt'' (snd t))) ?tests) \<le> c_tout (run_direct (map (\<lambda>r. fst (snd r)) rs))"
    by simp_all
  then show ?thesis using rs h by (auto simp: list_all2_Cons1 ltp_ends_def ltp_ok_def split: if_splits)
qed

section \<open>Long outputs\<close>

text \<open>
  C39: Keeping the end of a long output: what any bytes are read as is a text, and the function that looks for a
  character boundary keeps whole characters of it, at most as many bytes as asked for and at most three less. The
  functions of fio, pjdfstest and the Linux Test Project give the same where the cut is between two characters, and
  panic exactly where it is inside one.
\<close>

theorem tails_of_outputs:
  "(let s = lossy bytes in
    (\<exists>t. char_tail s cap = Some t \<and>
      (t = s \<and> length s \<le> cap \<or>
       (\<exists>p u. t = ''...'' @ u \<and> s = p @ u \<and> valid_utf8 u \<and> length u \<le> cap \<and> cap \<le> length u + 3))) \<and>
    fio_truncate s cap =
      (if 0 < cap \<and> cap < length s \<and> is_cont (ord (s ! (length s - cap))) then None else char_tail s cap) \<and>
    pjd_truncate s cap = fio_truncate s cap \<and> ltp_tail s = fio_truncate s 2000)"
proof -
  define s where "s = lossy bytes"
  have fio: "fio_truncate s n = (if length s \<le> n then Some s else dots (slice_from s (length s - n)))" for n
    by (simp add: fio_truncate_def next_boundary_here slice_from_def dots_def)
  have "\<exists>t. char_tail s cap = Some t \<and>
      (t = s \<and> length s \<le> cap \<or>
       (\<exists>p u. t = ''...'' @ u \<and> s = p @ u \<and> valid_utf8 u \<and> length u \<le> cap \<and> cap \<le> length u + 3))"
  proof (cases "cap < length s")
    case True
    have "valid_utf8 s" by (simp add: s_def)
    from char_tail_text [OF this True] show ?thesis by metis
  qed (simp add: char_tail_def)
  moreover have "fio_truncate s cap =
      (if 0 < cap \<and> cap < length s \<and> is_cont (ord (s ! (length s - cap))) then None else char_tail s cap)"
    unfolding fio using cut_agrees [of cap s] by (auto simp: char_tail_def)
  moreover have "pjd_truncate s cap = fio_truncate s cap"
    unfolding fio by (simp add: pjd_truncate_def next_boundary_here)
  moreover have "ltp_tail s = fio_truncate s 2000" unfolding fio by (simp add: ltp_tail_def)
  ultimately show ?thesis by (simp only: Let_def s_def [symmetric])
qed

section \<open>Scripts of pjdfstest\<close>

text \<open>A word of the shell, as POSIX describes the quotes: within single quotes every character stands for itself,
  outside a backslash takes the next one as it is, and a blank ends the word.\<close>

fun sh_word :: "bool \<Rightarrow> string \<Rightarrow> string \<times> string" where
  "sh_word q [] = ([], [])"
| "sh_word True (c # s) = (if c = CHR 0x27 then sh_word False s else (case sh_word True s of (w, r) \<Rightarrow> (c # w, r)))"
| "sh_word False (c # s) =
     (if c = CHR 0x27 then sh_word True s
      else if c = CHR 0x5C then (case s of [] \<Rightarrow> ([], []) | d # t \<Rightarrow> (case sh_word False t of (w, r) \<Rightarrow> (d # w, r)))
      else if is_ws c then ([], c # s) else (case sh_word False s of (w, r) \<Rightarrow> (c # w, r)))"

text \<open>The path of the program is quoted so that the shell reads it back, whatever characters it has.\<close>

theorem helper_path_read_back:
  "sh_word False (sh_quoted (escape_quotes exe) @ CHR '' '' # rest) = (exe, CHR '' '' # rest)"
proof -
  have "sh_word True (escape_quotes exe @ CHR 0x27 # CHR '' '' # rest) = (exe, CHR '' '' # rest)"
    by (induction exe) (simp_all add: is_ws_def)
  then show ?thesis by (simp add: sh_quoted_def)
qed

text \<open>Only the shell is killed at the limit. When a process that it started holds the pipes, reading them does not
  return, and neither does the run of the file, whatever its limit.\<close>

theorem pjd_limit_not_kept:
  assumes clk: "clock_laws P clk" and run: "stays_running P S"
    and start: "op_spawn P [''sh'', ''-c'', script] w = (None, w1)" "S w1"
    and holds: "\<And>w w' w''. S w \<Longrightarrow> op_reap P (op_kill P w) = Some w' \<Longrightarrow> op_reap P w' = Some w'' \<Longrightarrow> op_stdout P w'' = None"
  shows "pjd_exec P None script secs w = None"
proof -
  obtain t w2 where t: "op_clock P w1 = (t, w2)" by (cases "op_clock P w1")
  have "S w2" using run t start(2) unfolding stays_running_def by (metis snd_conv)
  then obtain w0 where "S w0" "wait_loop P (op_kill P) (millis 20) (t + seconds (max secs 1)) w2 =
      map_option (\<lambda>w. (None, True, w)) (op_reap P (op_kill P w0))"
    using wait_loop_kills [OF clk run, of "millis 20" w2 "t + seconds (max secs 1)" "op_kill P"] by (auto simp: millis_def)
  then show ?thesis
    using start(1) t holds [of w0]
    by (cases "op_reap P (op_kill P w0)") (auto simp: pjd_exec_def split: bind_splits)
qed

text \<open>Output that is not UTF-8 is lost as a whole: the file counts without a test and without a failure.\<close>

theorem pjd_undecodable_output:
  "\<not> valid_utf8 out \<Longrightarrow>
     (run_one secs (strict_text out) False = no_result) \<and> (map_option p_ok (pjd_run [run_one secs (strict_text out) False]) = Some True)"
  by (simp add: strict_text_def run_one_def lines_def early_stop_def timed_out_note_def no_result_def pjd_run_def rsub_def)

end
