(* ===== verification/Fio.thy ===== *)
theory Fio
  imports Rust_Utf8
begin

text \<open>
  The driver of fio (src/src/fio.rs): the command line it builds from its options, the run with its checks, and the
  report it makes of fio's JSON output. The values of the JSON library are an arbitrary type with the record \<open>json_ops\<close>
  of what the driver uses of it; \<open>json_laws\<close> states what is documented of objects, arrays and texts. The host (the file
  system, the fio program, the clock) is the record \<open>fio_host\<close>.
\<close>

section \<open>JSON values\<close>

record 'v json_ops =
  j_null :: 'v
  j_bool :: "bool \<Rightarrow> 'v"
  j_int :: "int \<Rightarrow> 'v"
  j_text :: "string \<Rightarrow> 'v"
  j_list :: "'v list \<Rightarrow> 'v"
  j_obj :: "(string \<times> 'v) list \<Rightarrow> 'v"
  j_get :: "string \<Rightarrow> 'v \<Rightarrow> 'v option"
  j_pointer :: "string \<Rightarrow> 'v \<Rightarrow> 'v option"
  j_array :: "'v \<Rightarrow> 'v list option"
  j_parse :: "string \<Rightarrow> string + 'v"

text \<open>What was put into an object is found by its key, nothing is found in null, and different texts are different
  values.\<close>

definition json_laws :: "'v json_ops \<Rightarrow> bool" where
  "json_laws J \<longleftrightarrow>
     (\<forall>k fields. distinct (map fst fields) \<longrightarrow> j_get J k (j_obj J fields) = map_of fields k) \<and>
     (\<forall>k. j_get J k (j_null J) = None) \<and> inj (j_text J)"

definition or_null :: "'v json_ops \<Rightarrow> 'v option \<Rightarrow> 'v" where
  "or_null J v = (case v of None \<Rightarrow> j_null J | Some v \<Rightarrow> v)"

definition opt_text :: "'v json_ops \<Rightarrow> string option \<Rightarrow> 'v" where
  "opt_text J t = (case t of None \<Rightarrow> j_null J | Some t \<Rightarrow> j_text J t)"

section \<open>The report of a job\<close>

definition or_else :: "'a option \<Rightarrow> 'a option \<Rightarrow> 'a option" where
  "or_else a b = (case a of None \<Rightarrow> b | Some x \<Rightarrow> Some x)"

text \<open>Completion latencies are in one place in newer versions of fio and in another in older ones.\<close>

definition percentile :: "'v json_ops \<Rightarrow> 'v \<Rightarrow> string \<Rightarrow> (string \<times> 'v) option" where
  "percentile J side n =
     map_option (Pair (CHR ''p'' # n))
       (or_else (j_pointer J (''/clat_ns/percentile/'' @ n @ ''.000000'') side)
                (j_pointer J (''/clat/percentile/'' @ n @ ''.000000'') side))"

definition clat_percentiles :: "'v json_ops \<Rightarrow> 'v \<Rightarrow> string list \<Rightarrow> 'v" where
  "clat_percentiles J side names =
     j_obj J (List.map_filter (percentile J side) names @
       (case or_else (j_pointer J ''/clat_ns/mean'' side) (j_pointer J ''/clat/mean'' side) of
          None \<Rightarrow> [] | Some m \<Rightarrow> [(''mean'', m)]))"

definition side_json :: "'v json_ops \<Rightarrow> 'v \<Rightarrow> 'v" where
  "side_json J side =
     j_obj J [(''iops'', or_null J (j_get J ''iops'' side)),
              (''bwBytes'', or_null J (j_get J ''bw_bytes'' side)),
              (''ioBytes'', or_null J (j_get J ''io_bytes'' side)),
              (''clatNs'', clat_percentiles J side [''50'', ''95'', ''99''])]"

definition job_json :: "'v json_ops \<Rightarrow> 'v \<Rightarrow> 'v" where
  "job_json J j =
     j_obj J [(''jobname'', or_null J (j_get J ''jobname'' j)),
              (''runtimeMs'', or_null J (j_get J ''job_runtime'' j)),
              (''read'', or_null J (map_option (side_json J) (j_get J ''read'' j))),
              (''write'', or_null J (map_option (side_json J) (j_get J ''write'' j)))]"

definition normalized_jobs :: "'v json_ops \<Rightarrow> 'v \<Rightarrow> 'v list" where
  "normalized_jobs J raw =
     (case Option.bind (j_get J ''jobs'' raw) (j_array J) of None \<Rightarrow> [] | Some jobs \<Rightarrow> map (job_json J) jobs)"

section \<open>The command line\<close>

record fio_args =
  fa_rw :: string
  fa_bs :: string
  fa_size :: string
  fa_numjobs :: nat
  fa_iodepth :: nat
  fa_ioengine :: "string option"
  fa_direct :: bool
  fa_rwmixread :: nat
  fa_runtime :: nat
  fa_group_reporting :: bool
  fa_verify :: "string option"
  fa_job :: "string option"
  fa_fio_arg :: "string list"
  fa_keep_files :: bool
  fa_fio :: string

text \<open>The engine that is the default depends on the system the program is built for.\<close>

definition default_ioengine :: "string \<Rightarrow> string option" where
  "default_ioengine target =
     (if target = ''linux'' then Some ''libaio'' else if target = ''macos'' then Some ''posixaio'' else None)"

definition flag_bit :: "bool \<Rightarrow> string" where
  "flag_bit b = (if b then ''1'' else ''0'')"

definition engine_args :: "string \<Rightarrow> string option \<Rightarrow> string list" where
  "engine_args target engine =
     (case engine of
        Some e \<Rightarrow> if e \<noteq> ''auto'' then [''--ioengine='' @ e] else []
      | None \<Rightarrow> (case default_ioengine target of Some e \<Rightarrow> [''--ioengine='' @ e] | None \<Rightarrow> []))"

definition knob_args :: "string \<Rightarrow> fio_args \<Rightarrow> string list" where
  "knob_args target a =
     [''--name=fstest'', ''--rw='' @ fa_rw a, ''--bs='' @ fa_bs a, ''--size='' @ fa_size a,
      ''--numjobs='' @ dec_str (fa_numjobs a), ''--iodepth='' @ dec_str (fa_iodepth a),
      ''--direct='' @ flag_bit (fa_direct a), ''--group_reporting='' @ flag_bit (fa_group_reporting a)]
     @ (if fa_keep_files a then [] else [''--unlink=1''])
     @ (case fa_verify a of Some m \<Rightarrow> [''--verify='' @ m] | None \<Rightarrow> [])
     @ (if ends_with ''rw'' (fa_rw a) then [''--rwmixread='' @ dec_str (fa_rwmixread a)] else [])
     @ engine_args target (fa_ioengine a)
     @ (if 0 < fa_runtime a then [''--runtime='' @ dec_str (fa_runtime a), ''--time_based''] else [])"

definition fio_cmd :: "string \<Rightarrow> fio_args \<Rightarrow> string \<Rightarrow> string \<Rightarrow> string list" where
  "fio_cmd target a mount out_path =
     [''--directory'', mount]
     @ (case fa_job a of Some job \<Rightarrow> [job] | None \<Rightarrow> knob_args target a)
     @ fa_fio_arg a
     @ [''--output-format=json'', ''--output='' @ out_path]"

section \<open>A run\<close>

text \<open>What a program gave: its exit code, unless a signal ended it, and the bytes of its two outputs.\<close>

record fio_output =
  o_code :: "int option"
  o_out :: string
  o_err :: string

text \<open>The host: the kind of a path or an error, whether a path exists, running a program, reading a file, the name of
  the system built for and of the host, the date, and the number that makes the name of the output file.\<close>

record fio_host =
  h_is_dir :: "string \<Rightarrow> string + bool"
  h_exists :: "string \<Rightarrow> bool"
  h_exec :: "string \<Rightarrow> string list \<Rightarrow> string + fio_output"
  h_read :: "string \<Rightarrow> string + string"
  h_target :: string
  h_temp_dir :: string
  h_nanos :: nat
  h_host :: string
  h_date :: string

definition fio_version :: "fio_host \<Rightarrow> string \<Rightarrow> string + string" where
  "fio_version H fio =
     (case h_exec H fio [''--version''] of
        Inl e \<Rightarrow> Inl (''fio binary '' @ [CHR 0x27] @ fio @ [CHR 0x27] @ '' not usable: '' @ e)
      | Inr out \<Rightarrow> Inr (trim (lossy (o_out out))))"

definition params_json :: "'v json_ops \<Rightarrow> fio_args \<Rightarrow> string list \<Rightarrow> 'v" where
  "params_json J a cmd =
     j_obj J [(''rw'', j_text J (fa_rw a)), (''bs'', j_text J (fa_bs a)), (''size'', j_text J (fa_size a)),
       (''numjobs'', j_int J (int (fa_numjobs a))), (''iodepth'', j_int J (int (fa_iodepth a))),
       (''direct'', j_bool J (fa_direct a)), (''rwmixread'', j_int J (int (fa_rwmixread a))),
       (''runtime_sec'', j_int J (int (fa_runtime a))), (''group_reporting'', j_bool J (fa_group_reporting a)),
       (''verify'', opt_text J (fa_verify a)), (''keep_files'', j_bool J (fa_keep_files a)),
       (''fio'', j_text J (fa_fio a)), (''job_file'', opt_text J (fa_job a)),
       (''extra_fio_args'', j_list J (map (j_text J) (fa_fio_arg a))),
       (''fioArgs'', j_list J (map (j_text J) cmd))]"

text \<open>The output file, read and parsed; anything else than a JSON value is only logged.\<close>

definition raw_output :: "'v json_ops \<Rightarrow> fio_host \<Rightarrow> string \<Rightarrow> 'v option" where
  "raw_output J H path =
     (case h_read H path of
        Inl e \<Rightarrow> None
      | Inr text \<Rightarrow> (case j_parse J text of Inl e \<Rightarrow> None | Inr v \<Rightarrow> Some v))"

definition fio_report ::
  "'v json_ops \<Rightarrow> fio_host \<Rightarrow> fio_args \<Rightarrow> string \<Rightarrow> string \<Rightarrow> string list \<Rightarrow> fio_output \<Rightarrow> 'v option \<Rightarrow> string \<Rightarrow> string \<Rightarrow> 'v" where
  "fio_report J H a mount version cmd out raw err_tail out_tail =
     (let jobs = normalized_jobs J (or_null J raw)
      in j_obj J [(''suite'', j_text J ''fio''), (''host'', j_text J (h_host H)), (''date'', j_text J (h_date H)),
           (''top'', j_text J mount), (''fioVersion'', j_text J version), (''params'', params_json J a cmd),
           (''status'', j_text J (if o_code out = Some 0 \<and> raw \<noteq> None then ''ok'' else ''failed'')),
           (''exitCode'', case o_code out of Some c \<Rightarrow> j_int J c | None \<Rightarrow> j_null J),
           (''summary'', case jobs of [] \<Rightarrow> j_null J | j # js \<Rightarrow> j),
           (''jobs'', j_list J jobs), (''raw'', or_null J raw),
           (''stderrTail'', j_text J err_tail), (''stdoutTail'', j_text J out_tail)])"

text \<open>The outer None is the panic of the function that keeps the end of an output.\<close>

definition fio_run :: "'v json_ops \<Rightarrow> fio_host \<Rightarrow> string \<Rightarrow> fio_args \<Rightarrow> (string + 'v) option" where
  "fio_run J H mount a =
     (case h_is_dir H mount of
        Inl e \<Rightarrow> Some (Inl (mount @ '': '' @ e))
      | Inr False \<Rightarrow> Some (Inl (mount @ '' is not a directory''))
      | Inr True \<Rightarrow>
     (case fio_version H (fa_fio a) of
        Inl e \<Rightarrow> Some (Inl e)
      | Inr version \<Rightarrow>
     (if fa_job a \<noteq> None \<and> \<not> h_exists H (the (fa_job a))
      then Some (Inl (''job file '' @ the (fa_job a) @ '' does not exist''))
      else
     (let out_path = h_temp_dir H @ ''/fstest-fio-'' @ dec_str (h_nanos H) @ ''.json'';
          cmd = fio_cmd (h_target H) a mount out_path
      in case h_exec H (fa_fio a) cmd of
           Inl e \<Rightarrow> Some (Inl (''failed to spawn '' @ fa_fio a @ '': '' @ e))
         | Inr out \<Rightarrow>
             do {
               err_tail \<leftarrow> fio_truncate (trim (lossy (o_err out))) 4000;
               out_tail \<leftarrow> fio_truncate (trim (lossy (o_out out))) 4000;
               Some (Inr (fio_report J H a mount version cmd out (raw_output J H out_path) err_tail out_tail))
             }))))"

end
