(* ===== verification/Cli.thy ===== *)
theory Cli
  imports Fio
begin

text \<open>
  The entry point of the program (src/src/main.rs): the two hidden helper modes, the dispatch of the subcommands, the
  report that is written to a file and printed, and the exit code. The parser of the command line is a library and
  its result a parameter, as are the suites, which may also panic (None); a panic ends the process with exit code 101
  before anything is reported. What the process does is a list of effects; printing is taken to succeed.
\<close>

section \<open>Commands\<close>

datatype suite =
  SmallfileS | FsmarkS | FioS | MdtestS | MdworkbenchS | LtpS | FsstressS | FsxS | PjdfstestS | StdfsS | GitS | SqliteS

text \<open>What the parser of the command line gives. Three subcommands can do without a mount point: with the options
  that print a script to prepare the tests, or that list what can be run.\<close>

record cli_args =
  ca_json :: "string option"
  ca_verbose :: bool
  ca_prepare_script :: bool
  ca_list :: bool

datatype command =
  MountCmd suite string
| LtpCmd "string option"
| GitCmd "string option"
| SqliteCmd "string option"

datatype effect = InitLog bool | Printed string | LogError string | Wrote string string | ListScripts

datatype exit_code = SUCCESS | FAILURE | Code int

text \<open>The parts of the program that main calls, and the calls that write a file and print a value.\<close>

record 'v main_env =
  m_json :: "'v json_ops"
  m_pretty :: "'v \<Rightarrow> string"
  m_write :: "string \<Rightarrow> string \<Rightarrow> string option"
  m_parse :: "string list \<Rightarrow> int + command \<times> cli_args"
  m_pjd_helper :: "string list \<Rightarrow> int"
  m_mptest :: "string list \<Rightarrow> int"
  m_run :: "suite \<Rightarrow> string \<Rightarrow> cli_args \<Rightarrow> (string + 'v) option"
  m_git_list :: "cli_args \<Rightarrow> string option"
  m_ltp_script :: string
  m_git_script :: string

section \<open>Reports\<close>

definition write_json :: "'v main_env \<Rightarrow> cli_args \<Rightarrow> string + 'v \<Rightarrow> effect list" where
  "write_json E a report =
     (case report of
        Inl e \<Rightarrow> []
      | Inr r \<Rightarrow>
          (case ca_json a of
             None \<Rightarrow> []
           | Some path \<Rightarrow>
               (case m_write E path (m_pretty E r) of
                  None \<Rightarrow> [Wrote path (m_pretty E r)]
                | Some e \<Rightarrow> [LogError (''failed to write '' @ path @ '': '' @ e)])))"

definition emit :: "'v main_env \<Rightarrow> string + 'v \<Rightarrow> effect list \<times> exit_code" where
  "emit E report =
     (case report of
        Inr r \<Rightarrow>
          ([Printed (m_pretty E r @ [LF])],
           if j_get (m_json E) ''status'' r = Some (j_text (m_json E) ''ok'') then SUCCESS else FAILURE)
      | Inl e \<Rightarrow> ([LogError e], FAILURE))"

definition run_suite :: "'v main_env \<Rightarrow> suite \<Rightarrow> string \<Rightarrow> cli_args \<Rightarrow> effect list \<times> exit_code" where
  "run_suite E s mount a =
     (case m_run E s mount a of
        None \<Rightarrow> ([], Code 101)
      | Some report \<Rightarrow> (let (out, code) = emit E report in (write_json E a report @ out, code)))"

section \<open>Dispatch\<close>

definition need_mount :: "string \<Rightarrow> effect list \<times> exit_code" where
  "need_mount hint = ([LogError (''mount point required (or pass '' @ hint @ '')'')], FAILURE)"

definition after :: "effect list \<Rightarrow> effect list \<times> exit_code \<Rightarrow> effect list \<times> exit_code" where
  "after es r = (es @ fst r, snd r)"

definition dispatch :: "'v main_env \<Rightarrow> command \<Rightarrow> cli_args \<Rightarrow> effect list \<times> exit_code" where
  "dispatch E cmd a =
     (case cmd of
        MountCmd s mount \<Rightarrow> after [InitLog (s = SmallfileS \<and> ca_verbose a)] (run_suite E s mount a)
      | LtpCmd mount \<Rightarrow>
          if ca_prepare_script a then ([Printed (m_ltp_script E)], SUCCESS)
          else after [InitLog False]
            (case mount of
               None \<Rightarrow> need_mount ''--prepare-script to print the LTP setup script''
             | Some m \<Rightarrow> run_suite E LtpS m a)
      | GitCmd mount \<Rightarrow>
          if ca_prepare_script a then ([Printed (m_git_script E)], SUCCESS)
          else after [InitLog False]
            (if ca_list a then
               (case m_git_list E a of None \<Rightarrow> ([ListScripts], SUCCESS) | Some e \<Rightarrow> ([LogError e], FAILURE))
             else case mount of
               None \<Rightarrow> need_mount ''--prepare-script to print the git setup script''
             | Some m \<Rightarrow> run_suite E GitS m a)
      | SqliteCmd mount \<Rightarrow>
          after [InitLog False]
            (if ca_list a then ([ListScripts], SUCCESS)
             else case mount of
               None \<Rightarrow> need_mount ''--list to show the embedded scripts''
             | Some m \<Rightarrow> run_suite E SqliteS m a))"

definition main :: "'v main_env \<Rightarrow> string list \<Rightarrow> effect list \<times> exit_code" where
  "main E argv =
     (if argv \<noteq> [] \<and> hd argv = ''__pjdfstest'' then ([], Code (m_pjd_helper E (tl argv)))
      else if argv \<noteq> [] \<and> hd argv = ''__sqlite-mptest'' then ([], Code (m_mptest E (tl argv)))
      else case m_parse E argv of
             Inl c \<Rightarrow> ([], Code c)
           | Inr (cmd, a) \<Rightarrow> dispatch E cmd a)"

text \<open>The suite that a command runs, if it runs one, and the mount point.\<close>

definition suite_of :: "command \<Rightarrow> cli_args \<Rightarrow> (suite \<times> string) option" where
  "suite_of cmd a =
     (case cmd of
        MountCmd s m \<Rightarrow> Some (s, m)
      | LtpCmd m \<Rightarrow> if ca_prepare_script a then None else map_option (Pair LtpS) m
      | GitCmd m \<Rightarrow> if ca_prepare_script a \<or> ca_list a then None else map_option (Pair GitS) m
      | SqliteCmd m \<Rightarrow> if ca_list a then None else map_option (Pair SqliteS) m)"

lemma dispatch_suite:
  "suite_of cmd a = Some (s, m) \<Longrightarrow> \<exists>b. dispatch E cmd a = after [InitLog b] (run_suite E s m a)"
  by (cases cmd) (auto simp: suite_of_def dispatch_def split: if_splits)

lemma run_suite_code:
  "snd (run_suite E s m a) =
     (case m_run E s m a of None \<Rightarrow> Code 101 | Some (Inl e) \<Rightarrow> FAILURE
      | Some (Inr r) \<Rightarrow> if j_get (m_json E) ''status'' r = Some (j_text (m_json E) ''ok'') then SUCCESS else FAILURE)"
  by (simp add: run_suite_def emit_def split: sum.split option.split)

end
