(* ===== verification/Cli_Properties.thy ===== *)
theory Cli_Properties
  imports Cli
begin

text \<open>The exit code of the program and the report of fio: the properties of Cli and Fio.\<close>

text \<open>A small type of JSON values, to show that the laws can hold.\<close>

datatype jval = JNull | JBool bool | JInt int | JText string | JList "jval list" | JObj "(string \<times> jval) list"

definition jv_get :: "string \<Rightarrow> jval \<Rightarrow> jval option" where
  "jv_get k v = (case v of JObj fs \<Rightarrow> map_of fs k | _ \<Rightarrow> None)"

definition jv_ops :: "jval json_ops" where
  "jv_ops =
     \<lparr>j_null = JNull, j_bool = JBool, j_int = JInt, j_text = JText, j_list = JList, j_obj = JObj, j_get = jv_get,
      j_pointer = (\<lambda>p v. fold (\<lambda>k w. Option.bind w (jv_get k)) (split_on CHR ''/'' (drop 1 p)) (Some v)),
      j_array = (\<lambda>v. case v of JList vs \<Rightarrow> Some vs | _ \<Rightarrow> None),
      j_parse = (\<lambda>s. if s = [] then Inl ''EOF'' else Inr (JObj [(''jobs'', JList [JObj [(''jobname'', JText s)]])]))\<rparr>"

lemma jv_laws: "json_laws jv_ops"
  by (simp add: json_laws_def jv_ops_def jv_get_def inj_def)

section \<open>The report of fio\<close>

lemma fio_report_get:
  assumes "json_laws J"
  shows "j_get J ''status'' (fio_report J H a mount version cmd out raw e t) =
      Some (j_text J (if o_code out = Some 0 \<and> raw \<noteq> None then ''ok'' else ''failed''))"
    "j_get J ''jobs'' (fio_report J H a mount version cmd out raw e t) =
      Some (j_list J (case raw of None \<Rightarrow> [] | Some v \<Rightarrow> normalized_jobs J v))"
  using assms by (simp_all add: json_laws_def fio_report_def Let_def or_null_def normalized_jobs_def split: option.split)

text \<open>What a run of fio gives, condition by condition.\<close>

lemma fio_run_Inr:
  assumes "fio_run J H mount a = Some (Inr r)"
  obtains version out e t where "h_is_dir H mount = Inr True"
    "h_exec H (fa_fio a) (fio_cmd (h_target H) a mount (h_temp_dir H @ ''/fstest-fio-'' @ dec_str (h_nanos H) @ ''.json'')) = Inr out"
    "r = fio_report J H a mount version
      (fio_cmd (h_target H) a mount (h_temp_dir H @ ''/fstest-fio-'' @ dec_str (h_nanos H) @ ''.json'')) out
      (raw_output J H (h_temp_dir H @ ''/fstest-fio-'' @ dec_str (h_nanos H) @ ''.json'')) e t"
  using assms by (auto simp: fio_run_def Let_def split: sum.splits bool.splits if_splits bind_splits)

text \<open>The tails of both outputs can be kept: neither is cut inside a character.\<close>

definition tails_kept :: "fio_output \<Rightarrow> bool" where
  "tails_kept out \<longleftrightarrow>
     fio_truncate (trim (lossy (o_err out))) 4000 \<noteq> None \<and> fio_truncate (trim (lossy (o_out out))) 4000 \<noteq> None"

text \<open>What is needed to get as far as calling fio for the test.\<close>

definition fio_ready :: "fio_host \<Rightarrow> string \<Rightarrow> fio_args \<Rightarrow> bool" where
  "fio_ready H mount a \<longleftrightarrow>
     h_is_dir H mount = Inr True \<and> (\<exists>out. h_exec H (fa_fio a) [''--version''] = Inr out) \<and>
     (case fa_job a of None \<Rightarrow> True | Some job \<Rightarrow> h_exists H job)"

definition fio_out_path :: "fio_host \<Rightarrow> string" where
  "fio_out_path H = h_temp_dir H @ ''/fstest-fio-'' @ dec_str (h_nanos H) @ ''.json''"

lemma fio_run_ok:
  fixes H mount a
  assumes J: "json_laws J"
  defines "path \<equiv> fio_out_path H"
  shows "(\<exists>r. fio_run J H mount a = Some (Inr r) \<and> j_get J ''status'' r = Some (j_text J ''ok'')) \<longleftrightarrow>
    fio_ready H mount a \<and>
    (\<exists>out text v. h_exec H (fa_fio a) (fio_cmd (h_target H) a mount path) = Inr out \<and> tails_kept out \<and> o_code out = Some 0 \<and>
       h_read H path = Inr text \<and> j_parse J text = Inr v)"
    and "fio_run J H mount a = None \<longleftrightarrow>
    fio_ready H mount a \<and> (\<exists>out. h_exec H (fa_fio a) (fio_cmd (h_target H) a mount path) = Inr out \<and> \<not> tails_kept out)"
proof -
  have tx: "j_text J x = j_text J y \<longleftrightarrow> x = y" for x y
    using J unfolding json_laws_def by (meson injD)
  have ok: "j_get J ''status'' (fio_report J H a mount v cmd out ro e t) = Some (j_text J ''ok'') \<longleftrightarrow>
      o_code out = Some 0 \<and> ro \<noteq> None" for v cmd out ro e t
    by (simp add: fio_report_get(1) [OF J] tx)
  show "(\<exists>r. fio_run J H mount a = Some (Inr r) \<and> j_get J ''status'' r = Some (j_text J ''ok'')) \<longleftrightarrow>
    fio_ready H mount a \<and>
    (\<exists>out text v. h_exec H (fa_fio a) (fio_cmd (h_target H) a mount path) = Inr out \<and> tails_kept out \<and> o_code out = Some 0 \<and>
       h_read H path = Inr text \<and> j_parse J text = Inr v)"
    unfolding fio_run_def Let_def fio_version_def fio_out_path_def [symmetric] path_def [symmetric] fio_ready_def
    by (cases "h_is_dir H mount"; cases "h_exec H (fa_fio a) [''--version'']";
        cases "h_exec H (fa_fio a) (fio_cmd (h_target H) a mount path)"; cases "fa_job a")
      (auto simp: ok raw_output_def tails_kept_def split: bool.splits if_splits bind_splits sum.splits)
  show "fio_run J H mount a = None \<longleftrightarrow>
    fio_ready H mount a \<and> (\<exists>out. h_exec H (fa_fio a) (fio_cmd (h_target H) a mount path) = Inr out \<and> \<not> tails_kept out)"
    unfolding fio_run_def Let_def fio_version_def fio_out_path_def [symmetric] path_def [symmetric] fio_ready_def
    by (cases "h_is_dir H mount"; cases "h_exec H (fa_fio a) [''--version'']";
        cases "h_exec H (fa_fio a) (fio_cmd (h_target H) a mount path)"; cases "fa_job a")
      (auto simp: tails_kept_def split: bool.splits if_splits bind_splits sum.splits)
qed

text \<open>
  C40: The program called for fio exits with success exactly when the mount point is a directory, fio can be run and a job
  file that was given exists, and fio, called with the command line of the options, exits with 0 and leaves a readable
  file with a JSON value, and the ends of its two outputs can be kept; whether the report could be written to the
  file that was asked for has no part in it. When fio was called and the end of one of its outputs is cut inside a character, and
  only then, the program panics and exits with 101.
\<close>

theorem fio_exit_code:
  assumes "json_laws (m_json E)" "argv \<noteq> []" "hd argv \<noteq> ''__pjdfstest''" "hd argv \<noteq> ''__sqlite-mptest''"
    and "m_parse E argv = Inr (MountCmd FioS mount, ca)" "m_run E FioS mount ca = fio_run (m_json E) H mount a"
  shows "(snd (main E argv) = SUCCESS \<longleftrightarrow>
      fio_ready H mount a \<and>
      (\<exists>out text v. h_exec H (fa_fio a) (fio_cmd (h_target H) a mount (fio_out_path H)) = Inr out \<and> tails_kept out \<and>
         o_code out = Some 0 \<and> h_read H (fio_out_path H) = Inr text \<and> j_parse (m_json E) text = Inr v)) \<and>
    (snd (main E argv) = Code 101 \<longleftrightarrow>
      fio_ready H mount a \<and>
      (\<exists>out. h_exec H (fa_fio a) (fio_cmd (h_target H) a mount (fio_out_path H)) = Inr out \<and> \<not> tails_kept out))"
proof -
  have "snd (main E argv) = snd (run_suite E FioS mount ca)"
    using assms(2-5) by (simp add: main_def dispatch_def after_def)
  then have "snd (main E argv) = SUCCESS \<longleftrightarrow>
      (\<exists>r. fio_run (m_json E) H mount a = Some (Inr r) \<and> j_get (m_json E) ''status'' r = Some (j_text (m_json E) ''ok''))"
    "snd (main E argv) = Code 101 \<longleftrightarrow> fio_run (m_json E) H mount a = None"
    by (simp_all add: run_suite_code assms(6) split: sum.split option.split)
  then show ?thesis using fio_run_ok [OF assms(1)] by simp
qed

definition fio_example :: fio_args where
  "fio_example =
     \<lparr>fa_rw = ''randrw'', fa_bs = ''4k'', fa_size = ''256m'', fa_numjobs = 4, fa_iodepth = 32, fa_ioengine = None,
      fa_direct = True, fa_rwmixread = 75, fa_runtime = 0, fa_group_reporting = True, fa_verify = None, fa_job = None,
      fa_fio_arg = [], fa_keep_files = False, fa_fio = ''fio''\<rparr>"

definition host_example :: fio_host where
  "host_example =
     \<lparr>h_is_dir = (\<lambda>p. Inr (p = ''/mnt'')), h_exists = (\<lambda>p. False),
      h_exec = (\<lambda>p args. Inr \<lparr>o_code = Some 0, o_out = ''fio-3.36'', o_err = []\<rparr>), h_read = (\<lambda>p. Inr ''{}''),
      h_target = ''linux'', h_temp_dir = ''/tmp'', h_nanos = 7, h_host = ''h'', h_date = ''d''\<rparr>"

definition env_example :: "jval main_env" where
  "env_example =
     \<lparr>m_json = jv_ops, m_pretty = (\<lambda>v. ''{}''), m_write = (\<lambda>p c. Some ''read-only''),
      m_parse = (\<lambda>argv. Inr (MountCmd FioS ''/mnt'',
        \<lparr>ca_json = Some ''/out.json'', ca_verbose = False, ca_prepare_script = False, ca_list = False\<rparr>)),
      m_pjd_helper = (\<lambda>args. 0), m_mptest = (\<lambda>args. 0),
      m_run = (\<lambda>s m a. fio_run jv_ops host_example m fio_example), m_git_list = (\<lambda>a. None),
      m_ltp_script = [], m_git_script = []\<rparr>"

lemma example_tails: "tails_kept \<lparr>o_code = Some 0, o_out = ''fio-3.36'', o_err = []\<rparr>"
proof -
  have short: "fio_truncate (trim (lossy s)) 4000 = Some (trim (lossy s))" if "s = [] \<or> s = ''fio-3.36''" for s
  proof -
    have "valid_utf8 s" by (rule valid_ascii) (use that in \<open>auto simp: ord_def\<close>)
    then have "lossy s = s" by (rule lossy_valid)
    then show ?thesis using that by (auto simp: fio_truncate_def trim_def trim_start_def trim_end_def is_ws_def)
  qed
  from short [of "[]"] short [of "''fio-3.36''"] show ?thesis by (simp add: tails_kept_def)
qed

lemma fio_exit_code_witness:
  "snd (main env_example [''fio'', ''/mnt'', ''--json'', ''/out.json'']) = SUCCESS"
proof -
  let ?argv = "[''fio'', ''/mnt'', ''--json'', ''/out.json'']"
  let ?ca = "\<lparr>ca_json = Some ''/out.json'', ca_verbose = False, ca_prepare_script = False, ca_list = False\<rparr>"
  have E: "json_laws (m_json env_example)" "m_parse env_example ?argv = Inr (MountCmd FioS ''/mnt'', ?ca)"
    "m_run env_example FioS ''/mnt'' ?ca = fio_run (m_json env_example) host_example ''/mnt'' fio_example"
    using jv_laws by (simp_all add: env_example_def)
  show ?thesis
    using fio_exit_code [OF E(1) _ _ _ E(2,3)] example_tails
    by (simp add: fio_ready_def host_example_def fio_example_def env_example_def jv_ops_def)
qed

section \<open>Reports of all suites\<close>

text \<open>A suite that a command runs decides on the exit code, and its report is printed; what was written to a file is
  what was printed.\<close>

theorem exit_code_is_verdict:
  assumes "argv = [] \<or> hd argv \<noteq> ''__pjdfstest'' \<and> hd argv \<noteq> ''__sqlite-mptest''"
    and "m_parse E argv = Inr (cmd, a)" "suite_of cmd a = Some (s, m)"
  shows "snd (main E argv) = SUCCESS \<longleftrightarrow>
      (\<exists>r. m_run E s m a = Some (Inr r) \<and> j_get (m_json E) ''status'' r = Some (j_text (m_json E) ''ok''))"
    and "m_run E s m a = Some (Inr r) \<Longrightarrow> Printed (m_pretty E r @ [LF]) \<in> set (fst (main E argv))"
    and "Wrote path text \<in> set (fst (main E argv)) \<Longrightarrow> Printed (text @ [LF]) \<in> set (fst (main E argv))"
proof -
  obtain b where "dispatch E cmd a = after [InitLog b] (run_suite E s m a)" using dispatch_suite [OF assms(3)] by blast
  then have m: "main E argv = after [InitLog b] (run_suite E s m a)" using assms(1,2) by (auto simp: main_def)
  show "snd (main E argv) = SUCCESS \<longleftrightarrow>
      (\<exists>r. m_run E s m a = Some (Inr r) \<and> j_get (m_json E) ''status'' r = Some (j_text (m_json E) ''ok''))"
    by (simp add: m after_def run_suite_code split: sum.split option.split)
  show "m_run E s m a = Some (Inr r) \<Longrightarrow> Printed (m_pretty E r @ [LF]) \<in> set (fst (main E argv))"
    by (simp add: m after_def run_suite_def emit_def)
  show "Wrote path text \<in> set (fst (main E argv)) \<Longrightarrow> Printed (text @ [LF]) \<in> set (fst (main E argv))"
    by (auto simp: m after_def run_suite_def emit_def write_json_def Let_def split: sum.splits option.splits)
qed

end
