(* ===== verification/Pjd_Helper.thy ===== *)
theory Pjd_Helper
  imports FsPrelude Rust_Text
begin

unbundle bit_operations_syntax

text \<open>
  The helper program of pjdfstest (helper\_main in src/src/pjdfstest.rs): its options, the chain of system calls
  it makes, and what it prints. The kernel is a function on an arbitrary state; the constants of the C library are
  a parameter by their names, and so are its functions on device numbers. The code for Linux is followed. What is
  written to standard error is left out, and text is taken to be ASCII. A panic is the value None.
\<close>

section \<open>The C library\<close>

record libc_env =
  lc_const :: "string \<Rightarrow> int"
  lc_makedev :: "nat \<Rightarrow> nat \<Rightarrow> nat"
  lc_major :: "nat \<Rightarrow> nat"
  lc_minor :: "nat \<Rightarrow> nat"

text \<open>A path argument as the C library sees it.\<close>

datatype cpath = NullPtr | WildPtr | CPath string

datatype (plugins only: code size) sys_call =
  SetGroups "nat list" | SetEgid nat | SetUid nat | Umask nat
| OpenAt int cpath int "nat option" | OpenPath cpath int nat | CloseFd int
| Unlink cpath | UnlinkAt int cpath int | Mkdir cpath nat | MkdirAt int cpath nat | Rmdir cpath
| LinkPath cpath cpath | LinkAt int cpath int cpath int | Symlink cpath cpath | SymlinkAt cpath int cpath
| Rename cpath cpath | RenameAt int cpath int cpath | Mkfifo cpath nat | MkfifoAt int cpath nat
| Mknod cpath nat nat | MknodAt int cpath nat nat
| Socket | Bind int string | Connect int string
| Chmod cpath nat | Fchmod int nat | FchmodAt int cpath nat int
| Chown cpath nat nat | Lchown cpath nat nat | Fchown int nat nat | FchownAt int cpath nat nat int
| TruncPath cpath int | TruncFd int int | Fallocate int int int
| StatPath cpath | LstatPath cpath | Fstat int | FstatAt int cpath int
| Pathconf cpath int | Fpathconf int int | UtimensAt int cpath "int \<times> int" "int \<times> int" int
| WriteFd int string | PwriteFd int string int | PreadFd int nat int

record stat_buf =
  sb_mode :: nat
  sb_ino :: nat
  sb_nlink :: nat
  sb_uid :: nat
  sb_gid :: nat
  sb_size :: int
  sb_blocks :: int
  sb_atime :: "int \<times> int"
  sb_mtime :: "int \<times> int"
  sb_ctime :: "int \<times> int"
  sb_rdev :: nat

text \<open>What a successful call returns: its value, and what it has put into a buffer. A failed call returns an errno.\<close>

record reply =
  rp_num :: int
  rp_stat :: stat_buf
  rp_data :: string

type_synonym 'k kernel = "'k \<Rightarrow> sys_call \<Rightarrow> 'k \<times> (int + reply)"

section \<open>Numbers\<close>

definition as_u32 :: "int \<Rightarrow> nat" where "as_u32 z = nat (z mod 2 ^ 32)"
definition as_i32 :: "int \<Rightarrow> int" where "as_i32 z = (z + 2 ^ 31) mod 2 ^ 32 - 2 ^ 31"
definition as_usize :: "int \<Rightarrow> nat" where "as_usize z = nat (z mod 2 ^ 64)"

text \<open>\<open>i64::from_str_radix\<close>: one sign, at least one digit, no overflow.\<close>

definition i64_radix :: "nat \<Rightarrow> string \<Rightarrow> int option" where
  "i64_radix b s =
     (case s of
        [] \<Rightarrow> None
      | c # t \<Rightarrow>
          if c = CHR ''-'' then
            (if t = [] then None
             else case parse_digits b 0 t of None \<Rightarrow> None | Some n \<Rightarrow> if n \<le> 2 ^ 63 then Some (- int n) else None)
          else map_option int (parse_uint (2 ^ 63) b s))"

definition or_zero :: "int option \<Rightarrow> int" where
  "or_zero r = (case r of Some z \<Rightarrow> z | None \<Rightarrow> 0)"

definition parse_num :: "string \<Rightarrow> int" where
  "parse_num s0 =
     (let s = trim s0
      in case strip_prefix ''0x'' s of
           Some h \<Rightarrow> or_zero (i64_radix 16 h)
         | None \<Rightarrow>
             (case strip_prefix ''0X'' s of
                Some h \<Rightarrow> or_zero (i64_radix 16 h)
              | None \<Rightarrow>
                  if 1 < length s \<and> starts_with ''0'' s then or_zero (i64_radix 8 (drop 1 s)) else or_zero (i64_radix 10 s)))"

section \<open>Names of errors\<close>

definition errno_names :: "string list" where
  "errno_names =
     [''EPERM'', ''ENOENT'', ''ESRCH'', ''EINTR'', ''EIO'', ''ENXIO'', ''E2BIG'', ''ENOEXEC'', ''EBADF'', ''ECHILD'',
      ''EAGAIN'', ''ENOMEM'', ''EACCES'', ''EFAULT'', ''EBUSY'', ''EEXIST'', ''EXDEV'', ''ENODEV'', ''ENOTDIR'',
      ''EISDIR'', ''EINVAL'', ''ENFILE'', ''EMFILE'', ''ENOTTY'', ''ETXTBSY'', ''EFBIG'', ''ENOSPC'', ''ESPIPE'',
      ''EROFS'', ''EMLINK'', ''EPIPE'', ''EDOM'', ''ERANGE'', ''EDEADLK'', ''ENAMETOOLONG'', ''ENOLCK'', ''ENOSYS'',
      ''ENOTEMPTY'', ''ELOOP'', ''EWOULDBLOCK'', ''EOPNOTSUPP'', ''ENOTSUP'', ''EDQUOT'', ''EMULTIHOP'', ''ENOLINK'',
      ''ESTALE'', ''ENOTSOCK'', ''EADDRINUSE'', ''ECONNREFUSED'', ''ENOMSG'', ''EIDRM'', ''EOVERFLOW'', ''EILSEQ'']"

definition errno_name :: "libc_env \<Rightarrow> int \<Rightarrow> string" where
  "errno_name L e = (case find (\<lambda>n. lc_const L n = e) errno_names of Some n \<Rightarrow> n | None \<Rightarrow> int_str e)"

section \<open>Arguments\<close>

definition cstr :: "string \<Rightarrow> string" where
  "cstr p = (if CHR 0x00 \<in> set p then [] else p)"

definition cptr :: "string \<Rightarrow> cpath" where
  "cptr p = (if p = ''NULL'' then NullPtr else if p = ''DEADCODE'' then WildPtr else CPath (cstr p))"

definition arg_of :: "string list \<Rightarrow> nat \<Rightarrow> string" where
  "arg_of a i = (if i < length a then a ! i else [])"

definition num_of :: "string list \<Rightarrow> nat \<Rightarrow> int" where
  "num_of a i = parse_num (arg_of a i)"

definition fd_get :: "libc_env \<Rightarrow> int list \<Rightarrow> int \<Rightarrow> int + int" where
  "fd_get L fds pos =
     (if as_usize pos < length fds then Inr (fds ! as_usize pos) else Inl (lc_const L ''EBADF''))"

definition with_fd :: "libc_env \<Rightarrow> int list \<Rightarrow> int \<Rightarrow> (int \<Rightarrow> int + 'a) \<Rightarrow> int + 'a" where
  "with_fd L fds pos f = (case fd_get L fds pos of Inl e \<Rightarrow> Inl e | Inr d \<Rightarrow> f d)"

text \<open>A flag by its name, or as a number.\<close>

definition flag_arg :: "libc_env \<Rightarrow> string \<Rightarrow> string \<Rightarrow> int" where
  "flag_arg L name s = (if s = name then lc_const L name else as_i32 (parse_num s))"

definition owner_flag :: "libc_env \<Rightarrow> string \<Rightarrow> int" where
  "owner_flag L s =
     (if s = ''AT_SYMLINK_NOFOLLOW'' then lc_const L ''AT_SYMLINK_NOFOLLOW''
      else if s = ''AT_EMPTY_PATH'' then 0x1000 else as_i32 (parse_num s))"

definition timespec_arg :: "libc_env \<Rightarrow> int \<Rightarrow> string \<Rightarrow> int \<times> int" where
  "timespec_arg L sec nsec =
     (sec, if nsec = ''UTIME_NOW'' then lc_const L ''UTIME_NOW''
           else if nsec = ''UTIME_OMIT'' then lc_const L ''UTIME_OMIT'' else parse_num nsec)"

definition open_flag_names :: "string list" where
  "open_flag_names =
     [''O_RDONLY'', ''O_WRONLY'', ''O_RDWR'', ''O_NONBLOCK'', ''O_APPEND'', ''O_CREAT'', ''O_TRUNC'', ''O_EXCL'',
      ''O_NOFOLLOW'', ''O_SYNC'']"

fun open_flags :: "libc_env \<Rightarrow> string list \<Rightarrow> int \<Rightarrow> int + int" where
  "open_flags L [] flags = Inr flags"
| "open_flags L (f # fs) flags =
     (if f = [] then open_flags L fs flags
      else if f \<in> set open_flag_names then open_flags L fs (flags OR lc_const L f)
      else if f \<in> {''O_SHLOCK'', ''O_EXLOCK'', ''O_EVTONLY'', ''O_SYMLINK''} then open_flags L fs flags
      else Inl (lc_const L ''EINVAL''))"

definition parse_open_flags :: "libc_env \<Rightarrow> string \<Rightarrow> int + int" where
  "parse_open_flags L s = open_flags L (split_on CHR '','' s) 0"

definition pathconf_id :: "libc_env \<Rightarrow> string \<Rightarrow> int" where
  "pathconf_id L name =
     (if name \<in> {''_PC_LINK_MAX'', ''_PC_NAME_MAX'', ''_PC_PATH_MAX'', ''_PC_SYMLINK_MAX'', ''_PC_NO_TRUNC''}
      then lc_const L name else lc_const L ''_PC_NAME_MAX'')"

text \<open>The type of a node is read from the second argument, for both calls.\<close>

definition node_mode :: "libc_env \<Rightarrow> string list \<Rightarrow> nat" where
  "node_mode L a =
     (let t = arg_of a 1
      in as_u32 (num_of a 2) OR nat (lc_const L
           (if t = ''b'' then ''S_IFBLK'' else if t = ''c'' \<or> t = ''u'' then ''S_IFCHR''
            else if t = ''f'' then ''S_IFIFO'' else ''S_IFREG'')))"

definition node_dev :: "libc_env \<Rightarrow> string list \<Rightarrow> nat" where
  "node_dev L a = lc_makedev L (as_u32 (num_of a 3)) (as_u32 (num_of a 4))"

section \<open>Printing a file's attributes\<close>

definition octal :: "nat \<Rightarrow> string" where
  "octal n = CHR ''0'' # digits_of 8 n"

definition file_type :: "libc_env \<Rightarrow> nat \<Rightarrow> string" where
  "file_type L mode =
     (let t = int mode AND lc_const L ''S_IFMT''
      in if t = lc_const L ''S_IFIFO'' then ''fifo''
         else if t = lc_const L ''S_IFCHR'' then ''char''
         else if t = lc_const L ''S_IFDIR'' then ''dir''
         else if t = lc_const L ''S_IFBLK'' then ''block''
         else if t = lc_const L ''S_IFREG'' then ''regular''
         else if t = lc_const L ''S_IFLNK'' then ''symlink''
         else if t = lc_const L ''S_IFSOCK'' then ''socket''
         else ''unknown'')"

definition stat_fields :: "libc_env \<Rightarrow> (string \<times> (stat_buf \<Rightarrow> string)) list" where
  "stat_fields L =
     [(''mode'', \<lambda>sb. octal (sb_mode sb AND 0xFFF)),
      (''inode'', \<lambda>sb. dec_str (sb_ino sb)),
      (''nlink'', \<lambda>sb. dec_str (sb_nlink sb)),
      (''uid'', \<lambda>sb. dec_str (sb_uid sb)),
      (''gid'', \<lambda>sb. dec_str (sb_gid sb)),
      (''size'', \<lambda>sb. int_str (sb_size sb)),
      (''blocks'', \<lambda>sb. int_str (sb_blocks sb)),
      (''atime'', \<lambda>sb. int_str (fst (sb_atime sb))),
      (''atime_ns'', \<lambda>sb. int_str (snd (sb_atime sb))),
      (''mtime'', \<lambda>sb. int_str (fst (sb_mtime sb))),
      (''mtime_ns'', \<lambda>sb. int_str (snd (sb_mtime sb))),
      (''ctime'', \<lambda>sb. int_str (fst (sb_ctime sb))),
      (''ctime_ns'', \<lambda>sb. int_str (snd (sb_ctime sb))),
      (''major'', \<lambda>sb. dec_str (lc_major L (sb_rdev sb))),
      (''minor'', \<lambda>sb. dec_str (lc_minor L (sb_rdev sb))),
      (''type'', \<lambda>sb. file_type L (sb_mode sb))]"

fun join_commas :: "string list \<Rightarrow> string" where
  "join_commas [] = []"
| "join_commas [w] = w"
| "join_commas (w # ws) = w @ CHR '','' # join_commas ws"

definition show_stats :: "libc_env \<Rightarrow> stat_buf \<Rightarrow> string \<Rightarrow> string" where
  "show_stats L sb what =
     join_commas (map (\<lambda>w. case map_of (stat_fields L) w of Some show \<Rightarrow> show sb | None \<Rightarrow> ''unknown'') (split_on CHR '','' what))"

section \<open>The system calls\<close>

text \<open>What a call of the helper returns: the descriptors it holds, and the lines printed or an errno.\<close>

type_synonym 'k exec_result = "'k \<times> int list \<times> (int + string list)"

text \<open>The calls that print 0 when they succeed: those that need no descriptor, and those that do.\<close>

definition path_calls :: "libc_env \<Rightarrow> (string \<times> (string list \<Rightarrow> sys_call)) list" where
  "path_calls L =
     [(''unlink'', \<lambda>a. Unlink (cptr (arg_of a 0))),
      (''mkdir'', \<lambda>a. Mkdir (cptr (arg_of a 0)) (as_u32 (num_of a 1))),
      (''rmdir'', \<lambda>a. Rmdir (cptr (arg_of a 0))),
      (''link'', \<lambda>a. LinkPath (cptr (arg_of a 0)) (cptr (arg_of a 1))),
      (''symlink'', \<lambda>a. Symlink (cptr (arg_of a 0)) (cptr (arg_of a 1))),
      (''rename'', \<lambda>a. Rename (cptr (arg_of a 0)) (cptr (arg_of a 1))),
      (''mkfifo'', \<lambda>a. Mkfifo (cptr (arg_of a 0)) (as_u32 (num_of a 1))),
      (''mknod'', \<lambda>a. Mknod (cptr (arg_of a 0)) (node_mode L a) (node_dev L a)),
      (''chmod'', \<lambda>a. Chmod (cptr (arg_of a 0)) (as_u32 (num_of a 1))),
      (''chown'', \<lambda>a. Chown (cptr (arg_of a 0)) (as_u32 (num_of a 1)) (as_u32 (num_of a 2))),
      (''lchown'', \<lambda>a. Lchown (cptr (arg_of a 0)) (as_u32 (num_of a 1)) (as_u32 (num_of a 2))),
      (''truncate'', \<lambda>a. TruncPath (cptr (arg_of a 0)) (num_of a 1))]"

definition fd_calls :: "libc_env \<Rightarrow> int list \<Rightarrow> (string \<times> (string list \<Rightarrow> int + sys_call)) list" where
  "fd_calls L fds =
     [(''unlinkat'', \<lambda>a. with_fd L fds (num_of a 0) (\<lambda>d.
         Inr (UnlinkAt d (cptr (arg_of a 1)) (flag_arg L ''AT_REMOVEDIR'' (arg_of a 2))))),
      (''mkdirat'', \<lambda>a. with_fd L fds (num_of a 0) (\<lambda>d. Inr (MkdirAt d (cptr (arg_of a 1)) (as_u32 (num_of a 2))))),
      (''linkat'', \<lambda>a. with_fd L fds (num_of a 0) (\<lambda>d. with_fd L fds (num_of a 2) (\<lambda>e.
         Inr (LinkAt d (cptr (arg_of a 1)) e (cptr (arg_of a 3)) (flag_arg L ''AT_SYMLINK_FOLLOW'' (arg_of a 4)))))),
      (''symlinkat'', \<lambda>a. with_fd L fds (num_of a 1) (\<lambda>d. Inr (SymlinkAt (cptr (arg_of a 0)) d (cptr (arg_of a 2))))),
      (''renameat'', \<lambda>a. with_fd L fds (num_of a 0) (\<lambda>d. with_fd L fds (num_of a 2) (\<lambda>e.
         Inr (RenameAt d (cptr (arg_of a 1)) e (cptr (arg_of a 3)))))),
      (''mkfifoat'', \<lambda>a. with_fd L fds (num_of a 0) (\<lambda>d. Inr (MkfifoAt d (cptr (arg_of a 1)) (as_u32 (num_of a 2))))),
      (''mknodat'', \<lambda>a. with_fd L fds (num_of a 0) (\<lambda>d. Inr (MknodAt d (cptr (arg_of a 1)) (node_mode L a) (node_dev L a)))),
      (''fchmod'', \<lambda>a. with_fd L fds (num_of a 0) (\<lambda>d. Inr (Fchmod d (as_u32 (num_of a 1))))),
      (''fchmodat'', \<lambda>a. with_fd L fds (num_of a 0) (\<lambda>d.
         Inr (FchmodAt d (cptr (arg_of a 1)) (as_u32 (num_of a 2)) (flag_arg L ''AT_SYMLINK_NOFOLLOW'' (arg_of a 3))))),
      (''fchown'', \<lambda>a. with_fd L fds (num_of a 0) (\<lambda>d. Inr (Fchown d (as_u32 (num_of a 1)) (as_u32 (num_of a 2))))),
      (''fchownat'', \<lambda>a. with_fd L fds (num_of a 0) (\<lambda>d.
         Inr (FchownAt d (cptr (arg_of a 1)) (as_u32 (num_of a 2)) (as_u32 (num_of a 3)) (owner_flag L (arg_of a 4))))),
      (''ftruncate'', \<lambda>a. with_fd L fds (num_of a 0) (\<lambda>d. Inr (TruncFd d (num_of a 1)))),
      (''posix_fallocate'', \<lambda>a. with_fd L fds (num_of a 0) (\<lambda>d. Inr (Fallocate d 0 (num_of a 2)))),
      (''utimensat'', \<lambda>a. with_fd L fds (num_of a 0) (\<lambda>d.
         Inr (UtimensAt d (cptr (arg_of a 1)) (timespec_arg L (num_of a 2) (arg_of a 3))
           (timespec_arg L (num_of a 4) (arg_of a 5)) (flag_arg L ''AT_SYMLINK_NOFOLLOW'' (arg_of a 6))))),
      (''write'', \<lambda>a. with_fd L fds (num_of a 0) (\<lambda>d. Inr (WriteFd d (arg_of a 1)))),
      (''pwrite'', \<lambda>a. with_fd L fds (num_of a 0) (\<lambda>d. Inr (PwriteFd d (arg_of a 1) (num_of a 2))))]"

text \<open>A call that could be put together is made; what it returns determines the table and the lines.\<close>

definition perform :: "'k kernel \<Rightarrow> int + sys_call \<Rightarrow> int list \<Rightarrow> (reply \<Rightarrow> int list \<times> string list) \<Rightarrow> 'k \<Rightarrow> 'k exec_result" where
  "perform K call fds f k =
     (case call of
        Inl e \<Rightarrow> (k, fds, Inl e)
      | Inr c \<Rightarrow> (case K k c of (k, Inl e) \<Rightarrow> (k, fds, Inl e) | (k, Inr r) \<Rightarrow> (k, fst (f r), Inr (snd (f r)))))"

definition cvt :: "int list \<Rightarrow> reply \<Rightarrow> int list \<times> string list" where
  "cvt fds r = (fds, [''0''])"

definition open_call :: "libc_env \<Rightarrow> bool \<Rightarrow> string list \<Rightarrow> int list \<Rightarrow> int + sys_call" where
  "open_call L rel a fds =
     (let n = (if rel then 1 else 0 :: nat)
      in case (if rel then fd_get L fds (num_of a 0) else Inr (lc_const L ''AT_FDCWD'')) of
           Inl e \<Rightarrow> Inl e
         | Inr d \<Rightarrow>
             (case parse_open_flags L (arg_of a (n + 1)) of
                Inl e \<Rightarrow> Inl e
              | Inr flags0 \<Rightarrow>
                  (let flags = flags0 OR lc_const L ''O_CLOEXEC''
                   in Inr (OpenAt d (cptr (arg_of a n)) flags
                        (if flags AND lc_const L ''O_CREAT'' \<noteq> 0 then Some (as_u32 (num_of a (n + 2))) else None)))))"

text \<open>An opened file stays open, and its descriptor is appended to the table.\<close>

definition exec_open :: "libc_env \<Rightarrow> 'k kernel \<Rightarrow> bool \<Rightarrow> string list \<Rightarrow> int list \<Rightarrow> 'k \<Rightarrow> 'k exec_result" where
  "exec_open L K rel a fds k = perform K (open_call L rel a fds) fds (\<lambda>r. (fds @ [rp_num r], [''0''])) k"

definition exec_create :: "libc_env \<Rightarrow> 'k kernel \<Rightarrow> string list \<Rightarrow> int list \<Rightarrow> 'k \<Rightarrow> 'k exec_result" where
  "exec_create L K a fds k =
     (case K k (OpenPath (cptr (arg_of a 0)) (lc_const L ''O_CREAT'' OR lc_const L ''O_EXCL'' OR lc_const L ''O_WRONLY'')
          (as_u32 (num_of a 1))) of
        (k, Inl e) \<Rightarrow> (k, fds, Inl e)
      | (k, Inr r) \<Rightarrow> (fst (K k (CloseFd (rp_num r))), fds, Inr [''0'']))"

text \<open>A socket that was bound or connected stays open, outside the table.\<close>

definition exec_socket :: "libc_env \<Rightarrow> 'k kernel \<Rightarrow> bool \<Rightarrow> string list \<Rightarrow> int list \<Rightarrow> 'k \<Rightarrow> 'k exec_result" where
  "exec_socket L K binds a fds k =
     (case K k Socket of
        (k, Inl e) \<Rightarrow> (k, fds, Inl e)
      | (k, Inr r) \<Rightarrow>
          (let s = rp_num r; path = arg_of a 0
           in if lc_const L ''sizeof sun_path'' \<le> int (length path)
              then (fst (K k (CloseFd s)), fds, Inl (lc_const L ''ENAMETOOLONG''))
              else case K k (if binds then Bind s path else Connect s path) of
                     (k, Inl e) \<Rightarrow> (fst (K k (CloseFd s)), fds, Inl e)
                   | (k, Inr r2) \<Rightarrow> (k, fds, Inr [''0''])))"

definition stat_call :: "libc_env \<Rightarrow> string \<Rightarrow> string list \<Rightarrow> int list \<Rightarrow> int + sys_call" where
  "stat_call L name a fds =
     (if name = ''stat'' then Inr (StatPath (cptr (arg_of a 0)))
      else if name = ''lstat'' then Inr (LstatPath (cptr (arg_of a 0)))
      else if name = ''fstat'' then with_fd L fds (num_of a 0) (\<lambda>d. Inr (Fstat d))
      else with_fd L fds (num_of a 0) (\<lambda>d.
             Inr (FstatAt d (cptr (arg_of a 1)) (flag_arg L ''AT_SYMLINK_NOFOLLOW'' (arg_of a 3)))))"

definition exec_stat :: "libc_env \<Rightarrow> 'k kernel \<Rightarrow> string \<Rightarrow> string list \<Rightarrow> int list \<Rightarrow> 'k \<Rightarrow> 'k exec_result" where
  "exec_stat L K name a fds k =
     perform K (stat_call L name a fds) fds (\<lambda>r. (fds, [show_stats L (rp_stat r) (arg_of a 1)])) k"

definition pathconf_call :: "libc_env \<Rightarrow> string \<Rightarrow> string list \<Rightarrow> int list \<Rightarrow> int + sys_call" where
  "pathconf_call L name a fds =
     (let pc = pathconf_id L (arg_of a 1)
      in if name = ''fpathconf'' then with_fd L fds (num_of a 0) (\<lambda>d. Inr (Fpathconf d pc))
         else Inr (Pathconf (cptr (arg_of a 0)) pc))"

definition exec_pathconf :: "libc_env \<Rightarrow> 'k kernel \<Rightarrow> string \<Rightarrow> string list \<Rightarrow> int list \<Rightarrow> 'k \<Rightarrow> 'k exec_result" where
  "exec_pathconf L K name a fds k =
     perform K (pathconf_call L name a fds) fds (\<lambda>r. (fds, [int_str (rp_num r)])) k"

text \<open>Reads until nothing comes or a read fails. More bytes than asked for are a slice out of range.\<close>

function pread_loop :: "'k kernel \<Rightarrow> int \<Rightarrow> nat \<Rightarrow> int \<Rightarrow> nat \<Rightarrow> string \<Rightarrow> 'k \<Rightarrow> ('k \<times> string) option" where
  "pread_loop K d count off got buf k =
     (if got \<le> count then
        (case K k (PreadFd d (count - got) (off + int got)) of
           (k, Inl e) \<Rightarrow> Some (k, buf)
         | (k, Inr r) \<Rightarrow>
             if rp_num r \<le> 0 then Some (k, buf)
             else pread_loop K d count off (got + nat (rp_num r)) (buf @ take (nat (rp_num r)) (rp_data r)) k)
      else None)"
  by pat_completeness auto
termination
  by (relation "measure (\<lambda>(K, d, count, off, got, buf, k). Suc count - got)") auto

declare pread_loop.simps [simp del]

definition exec_pread :: "libc_env \<Rightarrow> 'k kernel \<Rightarrow> string list \<Rightarrow> int list \<Rightarrow> 'k \<Rightarrow> 'k exec_result option" where
  "exec_pread L K a fds k =
     (case fd_get L fds (num_of a 0) of
        Inl e \<Rightarrow> Some (k, fds, Inl e)
      | Inr d \<Rightarrow>
          map_option (\<lambda>(k, buf). (k, fds, Inr [buf])) (pread_loop K d (min (as_usize (num_of a 1)) 1024) (num_of a 2) 0 [] k))"

definition exec_syscall ::
  "libc_env \<Rightarrow> 'k kernel \<Rightarrow> string \<Rightarrow> string list \<Rightarrow> int list \<Rightarrow> 'k \<Rightarrow> 'k exec_result option" where
  "exec_syscall L K name a fds k =
     (if name = ''open'' \<or> name = ''openat'' then Some (exec_open L K (name = ''openat'') a fds k)
      else if name = ''create'' then Some (exec_create L K a fds k)
      else if name = ''bind'' \<or> name = ''connect'' then Some (exec_socket L K (name = ''bind'') a fds k)
      else if name \<in> {''stat'', ''lstat'', ''fstat'', ''fstatat''} then Some (exec_stat L K name a fds k)
      else if name \<in> {''pathconf'', ''lpathconf'', ''fpathconf''} then Some (exec_pathconf L K name a fds k)
      else if name = ''pread'' then exec_pread L K a fds k
      else if name = ''mksyscalls'' then Some (k, fds, Inr [''# syscall list not required by the fstest runner'', []])
      else case map_of (path_calls L) name of
             Some call \<Rightarrow> Some (perform K (Inr (call a)) fds (cvt fds) k)
           | None \<Rightarrow>
               (case map_of (fd_calls L fds) name of
                  Some call \<Rightarrow> Some (perform K (call a) fds (cvt fds) k)
                | None \<Rightarrow> Some (k, fds, Inl (lc_const L ''ENOSYS''))))"

section \<open>Options and credentials\<close>

record helper_opts =
  ho_umask :: "nat option"
  ho_uid :: "nat option"
  ho_gids :: "string option"

definition no_opts :: helper_opts where
  "no_opts = \<lparr>ho_umask = None, ho_uid = None, ho_gids = None\<rparr>"

text \<open>An option without its value and an unknown option end the helper.\<close>

fun parse_opts :: "string list \<Rightarrow> helper_opts \<Rightarrow> (helper_opts \<times> string list) option" where
  "parse_opts [] opts = Some (opts, [])"
| "parse_opts (a # as') opts =
     (if starts_with ''-'' a \<and> length a = 2 then
        if a = ''--'' then Some (opts, as')
        else if a \<in> {''-U'', ''-u'', ''-g''} then
          (case as' of
             [] \<Rightarrow> None
           | v # rest \<Rightarrow> parse_opts rest
               (if a = ''-U'' then opts\<lparr>ho_umask := Some (as_u32 (parse_num v))\<rparr>
                else if a = ''-u'' then opts\<lparr>ho_uid := Some (as_u32 (parse_num v))\<rparr>
                else opts\<lparr>ho_gids := Some v\<rparr>))
        else None
      else Some (opts, a # as'))"

definition set_gids :: "'k kernel \<Rightarrow> string \<Rightarrow> 'k \<Rightarrow> 'k \<times> bool" where
  "set_gids K spec k =
     (let gids = map (as_u32 \<circ> parse_num) (split_on CHR '','' spec)
      in case K k (SetGroups gids) of
           (k, Inl e) \<Rightarrow> (k, False)
         | (k, Inr r) \<Rightarrow> (case K k (SetEgid (hd gids)) of (k, Inl e) \<Rightarrow> (k, False) | (k, Inr r) \<Rightarrow> (k, True)))"

text \<open>The groups first, then the user, then the mask; whether the credentials could be set.\<close>

definition set_ids :: "'k kernel \<Rightarrow> helper_opts \<Rightarrow> 'k \<Rightarrow> 'k \<times> bool" where
  "set_ids K opts k =
     (case (case ho_gids opts of None \<Rightarrow> (k, True) | Some spec \<Rightarrow> set_gids K spec k) of
        (k, False) \<Rightarrow> (k, False)
      | (k, True) \<Rightarrow>
          (case ho_uid opts of
             None \<Rightarrow> (k, True)
           | Some uid \<Rightarrow> (case K k (SetUid uid) of (k, Inl e) \<Rightarrow> (k, False) | (k, Inr r) \<Rightarrow> (k, True))))"

section \<open>The chain\<close>

text \<open>Calls are separated by a colon; the first failing one ends the helper with its errno. The result is the state,
  the lines printed and the exit code.\<close>

function run_chain ::
  "libc_env \<Rightarrow> 'k kernel \<Rightarrow> string list \<Rightarrow> int list \<Rightarrow> 'k \<Rightarrow> ('k \<times> string list \<times> int) option" where
  "run_chain L K [] fds k = Some (k, [], 0)"
| "run_chain L K (name # rest) fds k =
     (case exec_syscall L K name (takeWhile (\<lambda>a. a \<noteq> '':'') rest) fds k of
        None \<Rightarrow> None
      | Some (k, fds, Inl e) \<Rightarrow> Some (k, [errno_name L e], 1)
      | Some (k, fds, Inr out) \<Rightarrow>
          map_option (\<lambda>(k, outs, code). (k, out @ outs, code))
            (run_chain L K (drop 1 (dropWhile (\<lambda>a. a \<noteq> '':'') rest)) fds k))"
  by pat_completeness auto
termination
  by (relation "measure (\<lambda>(L, K, argv, fds, k). length argv)")
    (auto intro: le_imp_less_Suc le_trans [OF diff_le_self length_dropWhile_le])

definition helper_main :: "libc_env \<Rightarrow> 'k kernel \<Rightarrow> string list \<Rightarrow> 'k \<Rightarrow> ('k \<times> string list \<times> int) option" where
  "helper_main L K argv k =
     (case parse_opts argv no_opts of
        None \<Rightarrow> Some (k, [], 1)
      | Some (opts, argv) \<Rightarrow>
          (case set_ids K opts k of
             (k, False) \<Rightarrow> Some (k, [], 1)
           | (k, True) \<Rightarrow>
               (case K k (Umask (case ho_umask opts of Some m \<Rightarrow> m | None \<Rightarrow> 0)) of (k, r) \<Rightarrow> run_chain L K argv [] k)))"

end
