(* ===== verification/Pjd_Helper_Correct.thy ===== *)
theory Pjd_Helper_Correct
  imports Pjd_Helper
begin

text \<open>
  What the calls of the pjdfstest helper have in common, on a kernel that keeps a log of them: the descriptors they
  are given were opened in the same run, and none of them changes the credentials. Then the options in any order,
  the chain as a sequence of commands, and numbers that are read back.
\<close>

section \<open>A log of the calls\<close>

type_synonym entry = "sys_call \<times> (int + reply)"

definition logged :: "'k kernel \<Rightarrow> ('k \<times> entry list) kernel" where
  "logged K = (\<lambda>(k, log) c. case K k c of (k, r) \<Rightarrow> ((k, log @ [(c, r)]), r))"

fun credential :: "sys_call \<Rightarrow> bool" where
  "credential (SetGroups gs) = True"
| "credential (SetEgid g) = True"
| "credential (SetUid u) = True"
| "credential c = False"

text \<open>The descriptors that a call is given, and those that it returns.\<close>

fun fd_args :: "sys_call \<Rightarrow> int set" where
  "fd_args (OpenAt d p fl m) = {d}"
| "fd_args (CloseFd d) = {d}"
| "fd_args (UnlinkAt d p fl) = {d}"
| "fd_args (MkdirAt d p m) = {d}"
| "fd_args (LinkAt d p e q fl) = {d, e}"
| "fd_args (SymlinkAt p d q) = {d}"
| "fd_args (RenameAt d p e q) = {d, e}"
| "fd_args (MkfifoAt d p m) = {d}"
| "fd_args (MknodAt d p m v) = {d}"
| "fd_args (Bind d p) = {d}"
| "fd_args (Connect d p) = {d}"
| "fd_args (Fchmod d m) = {d}"
| "fd_args (FchmodAt d p m fl) = {d}"
| "fd_args (Fchown d u g) = {d}"
| "fd_args (FchownAt d p u g fl) = {d}"
| "fd_args (TruncFd d n) = {d}"
| "fd_args (Fallocate d off n) = {d}"
| "fd_args (Fstat d) = {d}"
| "fd_args (FstatAt d p fl) = {d}"
| "fd_args (Fpathconf d c) = {d}"
| "fd_args (UtimensAt d p t u fl) = {d}"
| "fd_args (WriteFd d s) = {d}"
| "fd_args (PwriteFd d s off) = {d}"
| "fd_args (PreadFd d n off) = {d}"
| "fd_args c = {}"

fun opened :: "entry \<Rightarrow> int set" where
  "opened (OpenAt d p fl m, Inr r) = {rp_num r}"
| "opened (OpenPath p fl m, Inr r) = {rp_num r}"
| "opened (Socket, Inr r) = {rp_num r}"
| "opened e = {}"

text \<open>Every call of a log is given only descriptors of a set, and those that calls before it returned.\<close>

fun fds_known :: "int set \<Rightarrow> entry list \<Rightarrow> bool" where
  "fds_known D [] \<longleftrightarrow> True"
| "fds_known D (e # es) \<longleftrightarrow> fd_args (fst e) \<subseteq> D \<and> fds_known (D \<union> opened e) es"

definition all_opened :: "entry list \<Rightarrow> int set" where
  "all_opened log = (\<Union>e\<in>set log. opened e)"

lemma fds_known_append: "fds_known D (xs @ ys) \<longleftrightarrow> fds_known D xs \<and> fds_known (D \<union> all_opened xs) ys"
  by (induction xs arbitrary: D) (auto simp: all_opened_def Un_assoc)

section \<open>Steps that keep to their descriptors\<close>

definition kept :: "int set \<Rightarrow> entry list \<Rightarrow> int set \<Rightarrow> entry list \<Rightarrow> int set \<Rightarrow> bool" where
  "kept D log A log' B \<longleftrightarrow>
     (\<exists>new. log' = log @ new \<and> (\<forall>e\<in>set new. \<not> credential (fst e)) \<and>
       (fds_known D log \<and> A \<subseteq> all_opened log \<longrightarrow> fds_known D log' \<and> B \<subseteq> all_opened log'))"

lemma kept_refl [intro]: "kept D log A log A"
  by (auto simp: kept_def)

lemma kept_trans: "kept D l1 A l2 B \<Longrightarrow> kept D l2 B l3 C \<Longrightarrow> kept D l1 A l3 C"
  unfolding kept_def by (metis append_assoc set_append UnE)

lemma kept_less: "kept D l1 A l2 B \<Longrightarrow> C \<subseteq> B \<Longrightarrow> kept D l1 A l2 C"
  unfolding kept_def by blast

lemma kept_call:
  assumes "logged K (k, log) c = ((k', log'), r)" "fd_args c \<subseteq> D \<union> A" "\<not> credential c"
  shows "kept D log A log' (A \<union> opened (c, r))"
proof -
  have l: "log' = log @ [(c, r)]" using assms(1) by (auto simp: logged_def split: prod.splits)
  have "all_opened log' = all_opened log \<union> opened (c, r)" by (auto simp: l all_opened_def)
  then show ?thesis using assms(2,3) l by (auto simp: kept_def fds_known_append)
qed

lemma kept_plain:
  assumes "logged K (k, log) c = ((k', log'), r)" "fd_args c \<subseteq> D \<union> A" "\<not> credential c"
  shows "kept D log A log' A"
  using kept_less [OF kept_call [OF assms]] by blast

lemma fd_get_known: "fd_get L fds n = Inr d \<Longrightarrow> d \<in> set fds"
  by (auto simp: fd_get_def split: if_splits)

lemma with_fd_Inr: "with_fd L fds n f = Inr c \<Longrightarrow> \<exists>d\<in>set fds. f d = Inr c"
  by (auto simp: with_fd_def dest: fd_get_known split: sum.splits)

lemma path_calls_plain: "(name, call) \<in> set (path_calls L) \<Longrightarrow> fd_args (call a) = {} \<and> \<not> credential (call a)"
  unfolding path_calls_def by auto

lemma fd_calls_known:
  "(name, call) \<in> set (fd_calls L fds) \<Longrightarrow> call a = Inr c \<Longrightarrow> fd_args c \<subseteq> set fds \<and> \<not> credential c"
  unfolding fd_calls_def by (auto dest!: with_fd_Inr)

lemma perform_kept:
  assumes "perform (logged K) call fds f (k, log) = ((k', log'), fds', r)"
    and "\<And>c. call = Inr c \<Longrightarrow> fd_args c \<subseteq> D \<union> set fds \<and> \<not> credential c"
    and "\<And>c rp. call = Inr c \<Longrightarrow> set (fst (f rp)) \<subseteq> set fds \<union> opened (c, Inr rp)"
  shows "kept D log (set fds) log' (set fds')"
proof (cases call)
  case (Inr c)
  obtain s where s: "logged K (k, log) c = ((k', log'), s)"
    and fs: "(case s of Inl e \<Rightarrow> fds' = fds | Inr rp \<Rightarrow> fds' = fst (f rp))"
    using assms(1) Inr by (auto simp: perform_def split: prod.splits sum.splits)
  have "kept D log (set fds) log' (set fds \<union> opened (c, s))" by (rule kept_call [OF s]) (use assms(2) [OF Inr] in auto)
  then show ?thesis by (rule kept_less) (use fs assms(3) [OF Inr] in \<open>auto split: sum.splits\<close>)
qed (use assms(1) in \<open>auto simp: perform_def\<close>)

lemma cvt_kept:
  assumes "perform (logged K) call fds (cvt fds) (k, log) = ((k', log'), fds', r)"
    and "\<And>c. call = Inr c \<Longrightarrow> fd_args c \<subseteq> D \<union> set fds \<and> \<not> credential c"
  shows "kept D log (set fds) log' (set fds')"
  by (rule perform_kept [OF assms]) (auto simp: cvt_def)

lemma open_call_known:
  assumes "open_call L rel a fds = Inr c"
  shows "\<exists>d p fl m. c = OpenAt d p fl m \<and> (d = lc_const L ''AT_FDCWD'' \<or> d \<in> set fds)"
  using assms fd_get_known [of L fds "num_of a 0"]
  by (cases rel) (auto simp: open_call_def Let_def split: sum.splits)

lemma exec_open_kept:
  assumes "exec_open L (logged K) rel a fds (k, log) = ((k', log'), fds', r)" "lc_const L ''AT_FDCWD'' \<in> D"
  shows "kept D log (set fds) log' (set fds')"
proof (rule perform_kept [OF assms(1) [unfolded exec_open_def]])
  fix c rp assume "open_call L rel a fds = Inr c"
  then show "fd_args c \<subseteq> D \<union> set fds \<and> \<not> credential c"
    "set (fst (fds @ [rp_num rp], [''0''])) \<subseteq> set fds \<union> opened (c, Inr rp)"
    using open_call_known [of L rel a fds c] assms(2) by auto
qed

lemma exec_create_kept:
  assumes "exec_create L (logged K) a fds (k, log) = ((k', log'), fds', r)"
  shows "kept D log (set fds) log' (set fds')"
proof -
  define c where "c = OpenPath (cptr (arg_of a 0)) (lc_const L ''O_CREAT'' OR lc_const L ''O_EXCL'' OR lc_const L ''O_WRONLY'')
      (as_u32 (num_of a 1))"
  obtain k1 log1 s where s: "logged K (k, log) c = ((k1, log1), s)" by (metis prod.exhaust)
  have 1: "kept D log (set fds) log1 (set fds \<union> opened (c, s))" by (intro kept_call [OF s]) (simp_all add: c_def)
  show ?thesis
  proof (cases s)
    case (Inl e)
    then have "log' = log1" "fds' = fds" using assms s unfolding exec_create_def c_def [symmetric] by simp_all
    then show ?thesis using kept_less [OF 1] by simp
  next
    case (Inr rp)
    obtain q where q: "logged K (k1, log1) (CloseFd (rp_num rp)) = ((k', log'), q)" and f: "fds' = fds"
      using assms s Inr unfolding exec_create_def c_def [symmetric]
      by (cases "logged K (k1, log1) (CloseFd (rp_num rp))") auto
    have "kept D log1 (set fds \<union> opened (c, s)) log' (set fds \<union> opened (c, s))"
      by (rule kept_plain [OF q]) (simp_all add: Inr c_def)
    from kept_trans [OF 1 this] show ?thesis using kept_less f by blast
  qed
qed

lemma exec_socket_kept:
  assumes "exec_socket L (logged K) b a fds (k, log) = ((k', log'), fds', r)"
  shows "kept D log (set fds) log' (set fds')"
proof -
  obtain k1 log1 s where s: "logged K (k, log) Socket = ((k1, log1), s)" by (metis prod.exhaust)
  have 1: "kept D log (set fds) log1 (set fds \<union> opened (Socket, s))" by (rule kept_call [OF s]) simp_all
  show ?thesis
  proof (cases s)
    case (Inl e)
    then have "log' = log1" "fds' = fds" using assms s by (simp_all add: exec_socket_def)
    then show ?thesis using kept_less [OF 1] by simp
  next
    case (Inr rp)
    let ?A = "set fds \<union> {rp_num rp}" and ?c = "if b then Bind (rp_num rp) (arg_of a 0) else Connect (rp_num rp) (arg_of a 0)"
    have A: "kept D log (set fds) log1 ?A" using 1 Inr by simp
    obtain k2 log2 s2 where s2: "logged K (k1, log1) ?c = ((k2, log2), s2)" by (metis prod.exhaust)
    have 2: "kept D log1 ?A log2 ?A" by (rule kept_plain [OF s2]) auto
    have close: "kept D l ?A (snd (fst (logged K (k, l) (CloseFd (rp_num rp))))) ?A" for k l
    proof -
      obtain k3 log3 s3 where "logged K (k, l) (CloseFd (rp_num rp)) = ((k3, log3), s3)" by (metis prod.exhaust)
      then show ?thesis using kept_plain [of K k l "CloseFd (rp_num rp)" k3 log3 s3 D ?A] by simp
    qed
    have "log' = snd (fst (logged K (k1, log1) (CloseFd (rp_num rp)))) \<or>
          log' = snd (fst (logged K (k2, log2) (CloseFd (rp_num rp)))) \<or> log' = log2" and f: "fds' = fds"
      using assms s s2 Inr by (auto simp: exec_socket_def Let_def split: if_splits sum.splits)
    then have "kept D log1 ?A log' ?A" using close [of log1 k1] kept_trans [OF 2 close [of log2 k2]] 2 by metis
    from kept_trans [OF A this] show ?thesis using kept_less f by blast
  qed
qed

lemma stat_call_known: "stat_call L name a fds = Inr c \<Longrightarrow> fd_args c \<subseteq> set fds \<and> \<not> credential c"
  by (auto simp: stat_call_def dest!: with_fd_Inr split: if_splits)

lemma exec_stat_kept:
  assumes "exec_stat L (logged K) name a fds (k, log) = ((k', log'), fds', r)"
  shows "kept D log (set fds) log' (set fds')"
  by (rule perform_kept [OF assms [unfolded exec_stat_def]]) (auto dest: stat_call_known)

lemma pathconf_call_known: "pathconf_call L name a fds = Inr c \<Longrightarrow> fd_args c \<subseteq> set fds \<and> \<not> credential c"
  by (auto simp: pathconf_call_def Let_def dest!: with_fd_Inr split: if_splits)

lemma exec_pathconf_kept:
  assumes "exec_pathconf L (logged K) name a fds (k, log) = ((k', log'), fds', r)"
  shows "kept D log (set fds) log' (set fds')"
  by (rule perform_kept [OF assms [unfolded exec_pathconf_def]]) (auto dest: pathconf_call_known)

lemma pread_loop_kept:
  "pread_loop (logged K) d count off got buf (k, log) = Some ((k', log'), s) \<Longrightarrow> d \<in> A \<Longrightarrow> kept D log A log' A"
proof (induction "logged K" d count off got buf "(k, log)" arbitrary: k log rule: pread_loop.induct)
  case (1 d count off got buf k log)
  show ?case
  proof (cases "got \<le> count")
    case True
    obtain k1 log1 q where q: "logged K (k, log) (PreadFd d (count - got) (off + int got)) = ((k1, log1), q)" by (metis prod.exhaust)
    have first: "kept D log A log1 A" by (rule kept_plain [OF q]) (use "1.prems"(2) in auto)
    show ?thesis
    proof (cases "\<exists>rp. q = Inr rp \<and> 0 < rp_num rp")
      case more: True
      then obtain rp where rp: "q = Inr rp" "0 < rp_num rp" by blast
      then have "pread_loop (logged K) d count off (got + nat (rp_num rp)) (buf @ take (nat (rp_num rp)) (rp_data rp)) (k1, log1) =
          Some ((k', log'), s)"
        using "1.prems"(1) True q by (subst (asm) pread_loop.simps) simp
      from "1.hyps" [OF True q [symmetric] rp(1) _ this "1.prems"(2)] rp(2) have "kept D log1 A log' A" by simp
      then show ?thesis by (rule kept_trans [OF first])
    next
      case False
      then have "log' = log1"
        using "1.prems"(1) True q by (subst (asm) pread_loop.simps) (auto split: sum.splits if_splits)
      then show ?thesis using first by simp
    qed
  qed (use "1.prems"(1) in \<open>subst (asm) pread_loop.simps, simp\<close>)
qed

text \<open>The calls with a case of their own; the others are in the two tables.\<close>

lemma exec_syscall_cases:
  "exec_syscall L K ''open'' a fds k = Some (exec_open L K False a fds k)"
  "exec_syscall L K ''openat'' a fds k = Some (exec_open L K True a fds k)"
  "exec_syscall L K ''create'' a fds k = Some (exec_create L K a fds k)"
  "exec_syscall L K ''bind'' a fds k = Some (exec_socket L K True a fds k)"
  "exec_syscall L K ''connect'' a fds k = Some (exec_socket L K False a fds k)"
  "name \<in> {''stat'', ''lstat'', ''fstat'', ''fstatat''} \<Longrightarrow> exec_syscall L K name a fds k = Some (exec_stat L K name a fds k)"
  "name \<in> {''pathconf'', ''lpathconf'', ''fpathconf''} \<Longrightarrow> exec_syscall L K name a fds k = Some (exec_pathconf L K name a fds k)"
  "exec_syscall L K ''pread'' a fds k = exec_pread L K a fds k"
  "exec_syscall L K ''mksyscalls'' a fds k = Some (k, fds, Inr [''# syscall list not required by the fstest runner'', []])"
  by (auto simp: exec_syscall_def)

definition own_cases :: "string set" where
  "own_cases =
     {''open'', ''openat'', ''create'', ''bind'', ''connect'', ''pread'', ''mksyscalls''} \<union>
     {''stat'', ''lstat'', ''fstat'', ''fstatat''} \<union> {''pathconf'', ''lpathconf'', ''fpathconf''}"

lemma exec_syscall_tables:
  "name \<notin> own_cases \<Longrightarrow> exec_syscall L K name a fds k = Some
     (case map_of (path_calls L) name of
        Some call \<Rightarrow> perform K (Inr (call a)) fds (cvt fds) k
      | None \<Rightarrow> (case map_of (fd_calls L fds) name of
            Some call \<Rightarrow> perform K (call a) fds (cvt fds) k | None \<Rightarrow> (k, fds, Inl (lc_const L ''ENOSYS''))))"
  by (simp add: exec_syscall_def own_cases_def split: option.split)

lemma table_kept:
  assumes "(case map_of (path_calls L) name of
        Some call \<Rightarrow> perform (logged K) (Inr (call a)) fds (cvt fds) (k, log)
      | None \<Rightarrow> (case map_of (fd_calls L fds) name of
            Some call \<Rightarrow> perform (logged K) (call a) fds (cvt fds) (k, log) | None \<Rightarrow> ((k, log), fds, Inl e))) = ((k', log'), fds', r)"
  shows "kept D log (set fds) log' (set fds')"
proof (cases "map_of (path_calls L) name")
  case (Some call)
  then show ?thesis using assms path_calls_plain [OF map_of_SomeD [OF Some], of a] by (auto intro: cvt_kept)
next
  case path: None
  show ?thesis
  proof (cases "map_of (fd_calls L fds) name")
    case (Some call)
    have "fd_args c \<subseteq> D \<union> set fds \<and> \<not> credential c" if "call a = Inr c" for c
      using fd_calls_known [OF map_of_SomeD [OF Some] that] by blast
    then show ?thesis using assms path Some by (auto intro: cvt_kept)
  qed (use assms path in auto)
qed

lemma exec_syscall_kept:
  assumes "exec_syscall L (logged K) name a fds (k, log) = Some ((k', log'), fds', r)" "lc_const L ''AT_FDCWD'' \<in> D"
  shows "kept D log (set fds) log' (set fds')"
proof (cases "name \<in> own_cases")
  case False
  then show ?thesis using assms(1) unfolding exec_syscall_tables [OF False] option.inject by (intro table_kept)
next
  case True
  then show ?thesis
    unfolding own_cases_def Un_iff
  proof (elim disjE)
    assume "name \<in> {''open'', ''openat'', ''create'', ''bind'', ''connect'', ''pread'', ''mksyscalls''}"
    then show ?thesis
    proof (elim insertE emptyE)
      assume "name = ''open''"
      then show ?thesis using assms(1) exec_open_kept [OF _ assms(2)] by (simp add: exec_syscall_cases)
    next
      assume "name = ''openat''"
      then show ?thesis using assms(1) exec_open_kept [OF _ assms(2)] by (simp add: exec_syscall_cases)
    next
      assume "name = ''create''"
      then show ?thesis using assms(1) exec_create_kept by (simp add: exec_syscall_cases)
    next
      assume "name = ''bind''"
      then show ?thesis using assms(1) exec_socket_kept by (simp add: exec_syscall_cases)
    next
      assume "name = ''connect''"
      then show ?thesis using assms(1) exec_socket_kept by (simp add: exec_syscall_cases)
    next
      assume "name = ''pread''"
      then have "exec_pread L (logged K) a fds (k, log) = Some ((k', log'), fds', r)" using assms(1) by (simp add: exec_syscall_cases)
      then show ?thesis by (auto simp: exec_pread_def dest: fd_get_known intro: pread_loop_kept split: sum.splits)
    next
      assume "name = ''mksyscalls''"
      then show ?thesis using assms(1) by (simp add: exec_syscall_cases kept_refl)
    qed
  next
    assume n: "name \<in> {''stat'', ''lstat'', ''fstat'', ''fstatat''}"
    then show ?thesis using assms(1) unfolding exec_syscall_cases(6) [OF n] option.inject by (intro exec_stat_kept)
  next
    assume n: "name \<in> {''pathconf'', ''lpathconf'', ''fpathconf''}"
    then show ?thesis using assms(1) unfolding exec_syscall_cases(7) [OF n] option.inject by (intro exec_pathconf_kept)
  qed
qed

lemma run_chain_kept:
  "run_chain L (logged K) argv fds (k, log) = Some ((k', log'), outs, code) \<Longrightarrow> lc_const L ''AT_FDCWD'' \<in> D \<Longrightarrow>
     \<exists>B. kept D log (set fds) log' B"
proof (induction L "logged K" argv fds "(k, log)" arbitrary: k log outs code rule: run_chain.induct)
  case (2 L name rest fds k log)
  let ?a = "takeWhile (\<lambda>a. a \<noteq> '':'') rest"
  obtain k1 log1 fds1 r where e: "exec_syscall L (logged K) name ?a fds (k, log) = Some ((k1, log1), fds1, r)"
    using "2.prems"(1) by (cases "exec_syscall L (logged K) name ?a fds (k, log)") auto
  have first: "kept D log (set fds) log1 (set fds1)" by (rule exec_syscall_kept [OF e "2.prems"(2)])
  show ?case
  proof (cases r)
    case (Inl x)
    then show ?thesis using "2.prems"(1) e first by auto
  next
    case (Inr out)
    then obtain outs2 where rec: "run_chain L (logged K) (drop 1 (dropWhile (\<lambda>a. a \<noteq> '':'') rest)) fds1 (k1, log1) =
        Some ((k', log'), outs2, code)"
      using "2.prems"(1) e by auto
    from "2.hyps" [OF e _ _ Inr rec "2.prems"(2)] obtain B where "kept D log1 (set fds1) log' B" by auto
    then show ?thesis using kept_trans [OF first] by blast
  qed
qed auto

end
