(* ===== verification/Pjd_Helper_Properties.thy ===== *)
theory Pjd_Helper_Properties
  imports Pjd_Helper_Correct "HOL-Library.Multiset"
begin

text \<open>
  The properties of the pjdfstest helper, with a kernel that succeeds in every call as an example.
\<close>

section \<open>A kernel that agrees to everything\<close>

definition easy_stat :: stat_buf where
  "easy_stat =
     \<lparr>sb_mode = 33188, sb_ino = 7, sb_nlink = 1, sb_uid = 0, sb_gid = 0, sb_size = 0, sb_blocks = 0, sb_atime = (0, 0),
      sb_mtime = (0, 0), sb_ctime = (0, 0), sb_rdev = 0\<rparr>"

definition easy_kernel :: "nat kernel" where
  "easy_kernel k c = (k + 1, Inr \<lparr>rp_num = int k, rp_stat = easy_stat, rp_data = []\<rparr>)"

definition easy_libc :: libc_env where
  "easy_libc =
     \<lparr>lc_const = (\<lambda>n. if n = ''AT_FDCWD'' then - 100 else if n = ''S_IFREG'' then 32768 else 0),
      lc_makedev = (\<lambda>a b. 256 * a + b), lc_major = (\<lambda>d. d div 256), lc_minor = (\<lambda>d. d mod 256)\<rparr>"

section \<open>Credentials and descriptors\<close>

fun sets_user :: "sys_call \<Rightarrow> bool" where
  "sets_user (SetUid u) = True"
| "sets_user c = False"

lemma set_gids_log:
  assumes "set_gids (logged K) spec (k, log) = ((k', log'), ok)"
  shows "\<exists>gs. log' = log @ gs \<and> (\<forall>e\<in>set gs. credential (fst e) \<and> \<not> sets_user (fst e) \<and> (ok \<longrightarrow> \<not> isl (snd e)))"
  using assms by (auto simp: set_gids_def logged_def Let_def split: prod.splits sum.splits)

lemma set_ids_log:
  assumes "set_ids (logged K) opts (k, []) = ((k', log), ok)"
  shows "\<exists>gs us. log = gs @ us \<and> (\<forall>e\<in>set gs. credential (fst e) \<and> \<not> sets_user (fst e)) \<and>
    (\<forall>e\<in>set us. sets_user (fst e)) \<and> (ok \<longrightarrow> (\<forall>e\<in>set (gs @ us). \<not> isl (snd e)) \<and>
      (\<forall>u. ho_uid opts = Some u \<longrightarrow> (\<exists>r. (SetUid u, Inr r) \<in> set us)))"
proof -
  obtain k1 gs b where g: "(case ho_gids opts of None \<Rightarrow> ((k, []), True) | Some spec \<Rightarrow> set_gids (logged K) spec (k, [])) = ((k1, gs), b)"
    by (metis prod.exhaust)
  have gs: "\<forall>e\<in>set gs. credential (fst e) \<and> \<not> sets_user (fst e) \<and> (b \<longrightarrow> \<not> isl (snd e))"
    using g set_gids_log [of K _ k "[]" k1 gs b] by (cases "ho_gids opts") auto
  show ?thesis
  proof (cases "b \<and> ho_uid opts \<noteq> None")
    case True
    then obtain u where u: "ho_uid opts = Some u" by blast
    obtain s where s: "logged K (k1, gs) (SetUid u) = ((k', log), s)" "ok = (\<not> isl s)"
      using assms True u unfolding set_ids_def g by (auto split: prod.splits sum.splits)
    then have "log = gs @ [(SetUid u, s)]" by (auto simp: logged_def split: prod.splits)
    then show ?thesis using gs True s(2) u by (intro exI [of _ gs] exI [of _ "[(SetUid u, s)]"]) (cases s; auto)
  next
    case False
    then have "log = gs" "ok \<longrightarrow> b" "ok \<longrightarrow> ho_uid opts = None"
      using assms unfolding set_ids_def g by (auto split: bool.splits option.splits)
    then show ?thesis using gs by (intro exI [of _ gs] exI [of _ "[]"]) auto
  qed
qed

lemma credential_fds: "credential c \<Longrightarrow> fd_args c = {} \<and> opened (c, r) = {}"
  by (cases c) auto

lemma fds_known_credentials: "\<forall>e\<in>set es. credential (fst e) \<Longrightarrow> fds_known D es"
  by (induction es arbitrary: D) (auto dest: credential_fds)

lemma sets_user_credential: "sets_user c \<Longrightarrow> credential c"
  by (cases c) auto

text \<open>
  C33: The helper makes its calls in an order that is safe: first it sets the groups, then the user, and never
  changes either again; a call that is tested is made only when all these changes succeeded, as the user that was
  asked for. Every descriptor that a call is given was returned by a call before it in the same run.
\<close>

theorem helper_calls_are_safe:
  assumes "helper_main L (logged K) argv (k, []) = Some ((k', log), outs, code)"
  shows "\<exists>gs us calls. log = gs @ us @ calls \<and>
    (\<forall>e\<in>set gs. credential (fst e) \<and> \<not> sets_user (fst e)) \<and> (\<forall>e\<in>set us. sets_user (fst e)) \<and>
    (\<forall>e\<in>set calls. \<not> credential (fst e)) \<and> fds_known {lc_const L ''AT_FDCWD''} log \<and>
    (calls \<noteq> [] \<longrightarrow> (\<forall>e\<in>set (gs @ us). \<not> isl (snd e)) \<and>
      (\<exists>opts rest. parse_opts argv no_opts = Some (opts, rest) \<and>
         (\<forall>u. ho_uid opts = Some u \<longrightarrow> (\<exists>r. (SetUid u, Inr r) \<in> set us))))"
proof (cases "parse_opts argv no_opts")
  case None
  then have "log = []" using assms by (simp add: helper_main_def)
  then show ?thesis by (intro exI [of _ "[]"] conjI) simp_all
next
  case (Some p)
  obtain opts rest where p: "p = (opts, rest)" by (cases p)
  obtain k1 log1 ok where ids: "set_ids (logged K) opts (k, []) = ((k1, log1), ok)" by (metis prod.exhaust)
  obtain gs us where l1: "log1 = gs @ us" "\<forall>e\<in>set gs. credential (fst e) \<and> \<not> sets_user (fst e)" "\<forall>e\<in>set us. sets_user (fst e)"
    and ok: "ok \<longrightarrow> (\<forall>e\<in>set (gs @ us). \<not> isl (snd e)) \<and> (\<forall>u. ho_uid opts = Some u \<longrightarrow> (\<exists>r. (SetUid u, Inr r) \<in> set us))"
    using set_ids_log [OF ids] by blast
  have known: "fds_known D log1" for D using l1 sets_user_credential by (intro fds_known_credentials) auto
  show ?thesis
  proof (cases ok)
    case False
    then have "log = log1" using assms Some p ids by (simp add: helper_main_def)
    then show ?thesis using l1 known by (intro exI [of _ gs] exI [of _ us] exI [of _ "[]"]) simp
  next
    case True
    let ?D = "{lc_const L ''AT_FDCWD''}" and ?c = "Umask (case ho_umask opts of Some m \<Rightarrow> m | None \<Rightarrow> 0)"
    obtain k2 log2 r where u: "logged K (k1, log1) ?c = ((k2, log2), r)" by (metis prod.exhaust)
    have "run_chain L (logged K) rest [] (k2, log2) = Some ((k', log), outs, code)"
      using assms Some p ids True u by (simp add: helper_main_def)
    then obtain B where "kept ?D log2 (set []) log B" using run_chain_kept [of L K rest "[]" k2 log2 k' log outs code ?D] by auto
    moreover have "kept ?D log1 {} log2 {}" by (rule kept_plain [OF u]) simp_all
    ultimately have "kept ?D log1 {} log B" using kept_trans by simp
    then obtain calls where "log = log1 @ calls" "\<forall>e\<in>set calls. \<not> credential (fst e)" "fds_known ?D log"
      using known unfolding kept_def by blast
    then show ?thesis using l1 ok True Some p by (intro exI [of _ gs] exI [of _ us] exI [of _ calls]) simp
  qed
qed

lemma parse_num_one: "parse_num ''5'' = 5"
  by (simp add: parse_num_def trim_def trim_start_def trim_end_def is_ws_def strip_prefix_def starts_with_def
      i64_radix_def parse_uint_def digit_val_def ord_def or_zero_def Let_def)

lemma helper_example:
  "helper_main easy_libc (logged easy_kernel) [''-u'', ''5'', ''unlink'', ''a''] (0, []) =
     Some ((3, [(SetUid 5, snd (easy_kernel 0 (SetUid 5))), (Umask 0, snd (easy_kernel 1 (Umask 0))),
       (Unlink (CPath ''a''), snd (easy_kernel 2 (Unlink (CPath ''a''))))]), [''0''], 0)"
  by (simp add: helper_main_def parse_num_one as_u32_def no_opts_def starts_with_def set_ids_def logged_def easy_kernel_def
      exec_syscall_def path_calls_def perform_def cvt_def cptr_def cstr_def arg_of_def)

lemma helper_calls_are_safe_witness:
  "\<exists>log. helper_main easy_libc (logged easy_kernel) [''-u'', ''5'', ''unlink'', ''a''] (0, []) = Some ((3, log), [''0''], 0) \<and>
     fds_known {lc_const easy_libc ''AT_FDCWD''} log"
  using helper_example helper_calls_are_safe [OF helper_example] by blast

section \<open>Options\<close>

definition as_options :: "(string \<times> string) list \<Rightarrow> string list" where
  "as_options os = concat (map (\<lambda>(f, v). [f, v]) os)"

definition set_option :: "string \<times> string \<Rightarrow> helper_opts \<Rightarrow> helper_opts" where
  "set_option fv opts =
     (if fst fv = ''-U'' then opts\<lparr>ho_umask := Some (as_u32 (parse_num (snd fv)))\<rparr>
      else if fst fv = ''-u'' then opts\<lparr>ho_uid := Some (as_u32 (parse_num (snd fv)))\<rparr>
      else opts\<lparr>ho_gids := Some (snd fv)\<rparr>)"

lemma parse_options:
  "set (map fst os) \<subseteq> {''-U'', ''-u'', ''-g''} \<Longrightarrow>
     parse_opts (as_options os @ cmd) opts = parse_opts cmd (fold set_option os opts)"
proof (induction os arbitrary: opts)
  case (Cons fv os)
  obtain f v where fv: "fv = (f, v)" by (cases fv)
  have "f = ''-U'' \<or> f = ''-u'' \<or> f = ''-g''" using Cons.prems fv by simp
  then have "parse_opts (f # v # as_options os @ cmd) opts = parse_opts (as_options os @ cmd) (set_option (f, v) opts)"
    by (elim disjE) (simp_all add: set_option_def starts_with_def)
  then show ?case using Cons fv by (simp add: as_options_def)
qed (simp add: as_options_def)

lemma set_option_commutes:
  "fst x \<noteq> fst y \<Longrightarrow> fst x \<in> {''-U'', ''-u'', ''-g''} \<Longrightarrow> fst y \<in> {''-U'', ''-u'', ''-g''} \<Longrightarrow>
     set_option x \<circ> set_option y = set_option y \<circ> set_option x"
  by (auto simp: set_option_def fun_eq_iff)

text \<open>
  The order of the options has no effect: with each option given at most once, the helper makes the same calls,
  prints the same lines and exits with the same code however they are arranged.
\<close>

theorem options_in_any_order:
  assumes "set (map fst os) \<subseteq> {''-U'', ''-u'', ''-g''}" "distinct (map fst os)" "mset os = mset os'"
  shows "helper_main L K (as_options os @ cmd) k = helper_main L K (as_options os' @ cmd) k"
proof -
  have set: "set os = set os'" using assms(3) by (rule mset_eq_setD)
  have flag: "fst x \<in> {''-U'', ''-u'', ''-g''}" if "x \<in> set os" for x using assms(1) that by auto
  have "fold set_option os = fold set_option os'"
  proof (rule fold_multiset_equiv [OF _ assms(3)])
    fix x y assume xy: "x \<in> set os" "y \<in> set os"
    show "set_option x \<circ> set_option y = set_option y \<circ> set_option x"
    proof (cases "fst x = fst y")
      case True
      then have "x = y" using assms(2) xy by (meson distinct_map inj_on_contraD)
      then show ?thesis by simp
    qed (rule set_option_commutes [OF _ flag [OF xy(1)] flag [OF xy(2)]])
  qed
  moreover have "set (map fst os') \<subseteq> {''-U'', ''-u'', ''-g''}" using assms(1) set by simp
  ultimately show ?thesis using parse_options [OF assms(1)] parse_options [of os'] by (simp add: helper_main_def)
qed

lemma options_in_any_order_witness:
  "helper_main easy_libc easy_kernel [''-u'', ''5'', ''-g'', ''7,8'', ''unlink'', ''a''] 0 =
   helper_main easy_libc easy_kernel [''-g'', ''7,8'', ''-u'', ''5'', ''unlink'', ''a''] 0"
  using options_in_any_order [of "[(''-u'', ''5''), (''-g'', ''7,8'')]" "[(''-g'', ''7,8''), (''-u'', ''5'')]" easy_libc easy_kernel
      "[''unlink'', ''a'']" 0]
  by (simp add: as_options_def)

section \<open>The chain\<close>

text \<open>One command after the other, with the descriptors of those before.\<close>

fun run_commands ::
  "libc_env \<Rightarrow> 'k kernel \<Rightarrow> (string \<times> string list) list \<Rightarrow> int list \<Rightarrow> 'k \<Rightarrow> ('k \<times> string list \<times> int) option" where
  "run_commands L K [] fds k = Some (k, [], 0)"
| "run_commands L K ((name, a) # cs) fds k =
     (case exec_syscall L K name a fds k of
        None \<Rightarrow> None
      | Some (k, fds, Inl e) \<Rightarrow> Some (k, [errno_name L e], 1)
      | Some (k, fds, Inr out) \<Rightarrow> map_option (\<lambda>(k, outs, code). (k, out @ outs, code)) (run_commands L K cs fds k))"

fun as_chain :: "(string \<times> string list) list \<Rightarrow> string list" where
  "as_chain [] = []"
| "as_chain [(name, a)] = name # a"
| "as_chain ((name, a) # cs) = name # a @ '':'' # as_chain cs"

lemma takeWhile_sep: "x \<notin> set a \<Longrightarrow> takeWhile (\<lambda>y. y \<noteq> x) (a @ x # r) = a \<and> dropWhile (\<lambda>y. y \<noteq> x) (a @ x # r) = x # r"
  by (induction a) auto

lemma takeWhile_all: "x \<notin> set a \<Longrightarrow> takeWhile (\<lambda>y. y \<noteq> x) a = a \<and> dropWhile (\<lambda>y. y \<noteq> x) a = []"
  by (induction a) auto

text \<open>
  C34: Calls joined by colons run one after the other, each with the descriptors opened by those before, up to the
  first that fails: its errno is the last line printed and the exit code is 1.
\<close>

theorem chain_is_sequence:
  assumes "\<And>name a. (name, a) \<in> set cs \<Longrightarrow> '':'' \<notin> set a"
  shows "run_chain L K (as_chain cs) fds k = run_commands L K cs fds k"
  using assms
proof (induction cs arbitrary: fds k rule: as_chain.induct)
  case (2 name a)
  have "'':'' \<notin> set a" by (rule "2.prems" [of name]) simp
  then show ?case by (simp add: takeWhile_all split: option.splits sum.splits)
next
  case (3 name a c cs)
  have a: "'':'' \<notin> set a" by (rule "3.prems" [of name]) simp
  have "run_chain L K (as_chain (c # cs)) fds k = run_commands L K (c # cs) fds k" for fds k
    by (rule "3.IH") (use "3.prems" in auto)
  then show ?case using takeWhile_sep [OF a] by (simp del: as_chain.simps(2,3) add: as_chain.simps(3) split: option.splits sum.splits)
qed simp

lemma chain_is_sequence_witness:
  "run_chain easy_libc easy_kernel (as_chain [(''mkdir'', [''d'', ''5'']), (''rmdir'', [''d''])]) [] 0 =
   run_commands easy_libc easy_kernel [(''mkdir'', [''d'', ''5'']), (''rmdir'', [''d''])] [] 0"
  by (rule chain_is_sequence) auto

section \<open>Numbers\<close>

lemma trim_plain: "\<forall>c\<in>set s. \<not> is_ws c \<Longrightarrow> s \<noteq> [] \<Longrightarrow> trim s = s"
  by (intro trim_id) simp_all

lemma i64_radix_digits:
  assumes "2 \<le> b" "b \<le> 16" "n < 2 ^ 63"
  shows "i64_radix b (digits_of b n) = Some (int n)"
proof -
  have "hd (digits_of b n) \<noteq> CHR ''-''"
    using digits_plain [OF assms(1,2), of "hd (digits_of b n)" n] digits_of_nonempty [OF assms(1)] by auto
  then show ?thesis
    using parse_uint_digits_of [OF assms(1,2,3)] digits_of_nonempty [OF assms(1), of n]
    by (cases "digits_of b n") (auto simp: i64_radix_def)
qed

lemma no_x: "2 \<le> b \<Longrightarrow> b \<le> 16 \<Longrightarrow> strip_prefix ''0x'' (CHR ''0'' # digits_of b n) = None \<and> strip_prefix ''0X'' (CHR ''0'' # digits_of b n) = None"
  using digits_plain [of b "hd (digits_of b n)" n] digits_of_nonempty [of b n]
  by (cases "digits_of b n") (auto simp: strip_prefix_def starts_with_def)

lemma parse_num_octal: "n < 2 ^ 63 \<Longrightarrow> parse_num (octal n) = int n"
proof -
  assume n: "n < 2 ^ 63"
  have ws: "trim (octal n) = octal n"
    using digits_plain [of 8 _ n] by (intro trim_plain) (auto simp: octal_def is_ws_def)
  have "1 < length (octal n)" "starts_with ''0'' (octal n)" using digits_of_nonempty [of 8 n] by (auto simp: octal_def starts_with_def)
  then show ?thesis
    using no_x [of 8 n] i64_radix_digits [of 8 n] n unfolding parse_num_def Let_def ws by (simp add: octal_def or_zero_def)
qed

lemma dec_no_leading_zero: "n \<noteq> 0 \<Longrightarrow> \<exists>c cs. dec_str n = c # cs \<and> c \<noteq> CHR ''0''"
proof (induction n rule: less_induct)
  case (less n)
  show ?case
  proof (cases "n < 10")
    case True
    have "ord (digit_char n) \<noteq> 48" using True less.prems by (simp add: ord_digit_char)
    moreover have "ord (CHR ''0'') = 48" by (simp add: ord_def)
    ultimately have "digit_char n \<noteq> CHR ''0''" by metis
    then show ?thesis using True by (simp add: dec_str_def digits_of.simps [of 10 n])
  next
    case False
    then have "n div 10 \<noteq> 0" "n div 10 < n" by simp_all
    then obtain c cs where "dec_str (n div 10) = c # cs" "c \<noteq> CHR ''0''" using less.IH [of "n div 10"] by blast
    then show ?thesis using False by (simp add: dec_str_def digits_of.simps [of 10 n])
  qed
qed

lemma parse_num_dec: "n < 2 ^ 63 \<Longrightarrow> parse_num (dec_str n) = int n"
proof -
  assume n: "n < 2 ^ 63"
  have ne: "dec_str n \<noteq> []" using digits_of_nonempty [of 10 n] by (simp add: dec_str_def)
  have ws: "trim (dec_str n) = dec_str n" using digits_plain [of 10 _ n] ne by (intro trim_plain) (auto simp: dec_str_def)
  have lead: "\<not> (1 < length (dec_str n) \<and> starts_with ''0'' (dec_str n)) \<and> strip_prefix ''0x'' (dec_str n) = None \<and>
      strip_prefix ''0X'' (dec_str n) = None"
  proof (cases "n = 0")
    case True
    then show ?thesis by (simp add: dec_str_def digits_of.simps strip_prefix_def starts_with_def)
  next
    case False
    then show ?thesis using dec_no_leading_zero [OF False] by (auto simp: strip_prefix_def starts_with_def)
  qed
  have "i64_radix 10 (dec_str n) = Some (int n)" using i64_radix_digits [of 10 n] n by (simp add: dec_str_def)
  then show ?thesis using lead unfolding parse_num_def Let_def ws by (simp only: option.case if_False or_zero_def)
qed

text \<open>
  The numbers that the helper prints can be given back to it: the printed mode is read as the permission bits
  of the file, and sizes, users and groups as they are, so that a script can restore what it has read.
\<close>

theorem printed_numbers_read_back:
  assumes "0 \<le> sb_size sb" "sb_size sb < 2 ^ 63" "sb_uid sb < 2 ^ 32" "sb_gid sb < 2 ^ 32"
  shows "as_u32 (parse_num (show_stats L sb ''mode'')) = sb_mode sb mod 4096 \<and>
    parse_num (show_stats L sb ''size'') = sb_size sb \<and>
    as_u32 (parse_num (show_stats L sb ''uid'')) = sb_uid sb \<and> as_u32 (parse_num (show_stats L sb ''gid'')) = sb_gid sb"
proof -
  have mask: "sb_mode sb AND 0xFFF = sb_mode sb mod 4096"
    using take_bit_eq_mask [of 12 "sb_mode sb"] by (simp add: take_bit_eq_mod mask_eq_exp_minus_1)
  have shown: "show_stats L sb ''mode'' = octal (sb_mode sb AND 0xFFF)" "show_stats L sb ''size'' = dec_str (nat (sb_size sb))"
    "show_stats L sb ''uid'' = dec_str (sb_uid sb)" "show_stats L sb ''gid'' = dec_str (sb_gid sb)"
    using assms(1) by (simp_all add: show_stats_def stat_fields_def int_str_def)
  have m: "sb_mode sb mod 4096 < 4096" by simp
  show ?thesis
    unfolding shown mask
    using assms parse_num_octal [of "sb_mode sb mod 4096"] parse_num_dec [of "nat (sb_size sb)"] parse_num_dec [of "sb_uid sb"]
      parse_num_dec [of "sb_gid sb"] m
    by (auto simp: as_u32_def nat_less_iff)
qed

lemma printed_numbers_read_back_witness: "as_u32 (parse_num (show_stats easy_libc easy_stat ''mode'')) = 420"
  using printed_numbers_read_back [of easy_stat easy_libc] by (simp add: easy_stat_def)

section \<open>Arguments that have no effect\<close>

text \<open>
  Allocating space ignores the offset it is asked for and always begins at the start of the file; making a node
  relative to a directory ignores its minor number and takes no notice of whether a block or a character
  device is asked for, as the arguments are read from the places they have without a directory.
\<close>

theorem helper_ignores_arguments:
  "exec_syscall L K ''posix_fallocate'' [d, off, n] fds k = exec_syscall L K ''posix_fallocate'' [d, off', n] fds k \<and>
   exec_syscall L K ''mknodat'' [d, p, t, m, maj, mino] fds k = exec_syscall L K ''mknodat'' [d, p, t, m, maj, mino'] fds k \<and>
   exec_syscall L K ''mknodat'' [d, p, ''b'', m, maj, mino] fds k = exec_syscall L K ''mknodat'' [d, p, ''c'', m, maj, mino] fds k"
proof -
  have zero: "parse_num ''b'' = 0" "parse_num ''c'' = 0"
    by (simp_all add: parse_num_def trim_def trim_start_def trim_end_def is_ws_def strip_prefix_def starts_with_def
        i64_radix_def parse_uint_def digit_val_def ord_def or_zero_def Let_def)
  have fa: "map_of (path_calls L) ''posix_fallocate'' = None" "map_of (path_calls L) ''mknodat'' = None"
    by (simp_all add: path_calls_def)
  obtain f1 f2 where f: "map_of (fd_calls L fds) ''posix_fallocate'' = Some f1" "map_of (fd_calls L fds) ''mknodat'' = Some f2"
    "\<And>a. f1 a = with_fd L fds (num_of a 0) (\<lambda>d. Inr (Fallocate d 0 (num_of a 2)))"
    "\<And>a. f2 a = with_fd L fds (num_of a 0) (\<lambda>d. Inr (MknodAt d (cptr (arg_of a 1)) (node_mode L a) (node_dev L a)))"
    by (simp add: fd_calls_def)
  have n: "''posix_fallocate'' \<notin> own_cases" "''mknodat'' \<notin> own_cases" by (simp_all add: own_cases_def)
  show ?thesis
    unfolding exec_syscall_tables [OF n(1)] exec_syscall_tables [OF n(2)] fa option.case f
    by (simp add: num_of_def arg_of_def node_mode_def node_dev_def zero)
qed

end
