(* ===== verification/Stdfs_Rust.thy ===== *)
theory Stdfs_Rust
  imports Stdfs
begin

text \<open>
  The rewriting of the tests of Rust's file-system library (transform\_rust\_tests in src/src/stdfs.rs): a scan over the
  lines finds the tests with their attributes, names and bodies, and drops those that use the inside of the library;
  a second pass writes the lines that remain, with the test functions made public and paths rewritten.
\<close>

section \<open>Lines\<close>

text \<open>The change of depth in a line, for one kind of brackets.\<close>

definition net_depth :: "char \<Rightarrow> char \<Rightarrow> string \<Rightarrow> int" where
  "net_depth op cl l = int (length (filter (\<lambda>c. c = op) l)) - int (length (filter (\<lambda>c. c = cl) l))"

text \<open>An attribute may span lines: its text on one line, and the line behind it.\<close>

function read_attr :: "string list \<Rightarrow> nat \<Rightarrow> int \<Rightarrow> string \<Rightarrow> string \<times> nat" where
  "read_attr ls j depth acc =
     (if j < length ls then
        (let depth = depth + net_depth CHR ''['' CHR '']'' (ls ! j);
             acc = (if acc = [] then [] else acc @ '' '') @ trim (ls ! j)
         in if depth \<le> 0 then (acc, j + 1) else read_attr ls (j + 1) depth acc)
      else (acc, j))"
  by pat_completeness auto
termination
  by (relation "measure (\<lambda>(ls, j, depth, acc). length ls - j)") auto

declare read_attr.simps [simp del]

definition attr_line :: "string \<Rightarrow> bool" where
  "attr_line l \<longleftrightarrow> (let t = trim l in t = [] \<or> starts_with ''#['' t \<or> starts_with ''//'' t)"

text \<open>The first of the attributes, comments and empty lines directly above a line.\<close>

fun back_start :: "string list \<Rightarrow> nat \<Rightarrow> nat" where
  "back_start ls 0 = 0"
| "back_start ls (Suc b) = (if attr_line (ls ! b) then back_start ls b else Suc b)"

definition slice_lines :: "string list \<Rightarrow> nat \<Rightarrow> nat \<Rightarrow> string list" where
  "slice_lines ls a b = take (b - a) (drop a ls)"

definition back_attrs :: "string list \<Rightarrow> nat \<Rightarrow> nat \<Rightarrow> string list" where
  "back_attrs ls back i = filter (starts_with ''#['') (map trim (slice_lines ls back i))"

section \<open>Functions\<close>

definition fn_line :: "string \<Rightarrow> bool" where
  "fn_line t \<longleftrightarrow> starts_with ''fn '' t \<or> starts_with ''pub fn '' t \<or> starts_with ''async fn '' t"

text \<open>The name: what is between the first two \<open>fn\<close>, up to a parenthesis, an angle bracket or a colon.\<close>

definition fn_name :: "string \<Rightarrow> string" where
  "fn_name t =
     (case split_once ''fn '' t of
        None \<Rightarrow> []
      | Some (a, r) \<Rightarrow> trim (takeWhile (\<lambda>c. c \<notin> {CHR ''('', CHR ''<'', CHR '':''}) (before_sub ''fn '' r)))"

lemma read_attr_later: "j < length ls \<Longrightarrow> j < snd (read_attr ls j depth acc)"
proof (induction ls j depth acc rule: read_attr.induct)
  case (1 ls j depth acc)
  then show ?case
    by (subst read_attr.simps) (cases "Suc j < length ls"; fastforce simp: Let_def read_attr.simps [of ls "Suc j"])
qed

text \<open>The line of the function behind a test attribute: the attributes in between, the line, and the name,
  which is empty when something else stands there.\<close>

function find_fn :: "string list \<Rightarrow> nat \<Rightarrow> string list \<Rightarrow> string list \<times> nat \<times> string" where
  "find_fn ls j attrs =
     (if j < length ls then
        (let t = trim (ls ! j)
         in if starts_with ''#['' t
            then find_fn ls (snd (read_attr ls j 0 [])) (attrs @ [fst (read_attr ls j 0 [])])
            else if starts_with ''//'' t \<or> starts_with ''/*'' t \<or> t = [] then find_fn ls (j + 1) attrs
            else (attrs, j, if fn_line t then fn_name t else []))
      else (attrs, j, []))"
  by pat_completeness auto
termination
proof (relation "measure (\<lambda>(ls, j, attrs). length ls - j)")
  fix ls :: "string list" and j attrs t
  assume "j < length ls"
  then show "((ls, snd (read_attr ls j 0 []), attrs @ [fst (read_attr ls j 0 [])]), ls, j, attrs)
      \<in> measure (\<lambda>(ls, j, attrs). length ls - j)"
    using read_attr_later [of j ls 0 "[]"] by simp
qed auto

declare find_fn.simps [simp del]

text \<open>The line behind the body, by counting braces.\<close>

function block_end :: "string list \<Rightarrow> nat \<Rightarrow> int \<Rightarrow> bool \<Rightarrow> nat" where
  "block_end ls k depth seen =
     (if k < length ls then
        (let depth = depth + net_depth CHR ''{'' CHR ''}'' (ls ! k); seen = (seen \<or> CHR ''{'' \<in> set (ls ! k))
         in if seen \<and> depth \<le> 0 then k + 1 else block_end ls (k + 1) depth seen)
      else k)"
  by pat_completeness auto
termination
  by (relation "measure (\<lambda>(ls, k, depth, seen). length ls - k)") auto

declare block_end.simps [simp del]

lemma block_end_bounds: "k \<le> length ls \<Longrightarrow> k \<le> block_end ls k depth seen \<and> block_end ls k depth seen \<le> length ls"
proof (induction ls k depth seen rule: block_end.induct)
  case (1 ls k depth seen)
  then show ?case by (subst (1 2) block_end.simps) (fastforce simp: Let_def)
qed

lemma block_end_later: "k < length ls \<Longrightarrow> k < block_end ls k depth seen"
  using block_end_bounds [of "Suc k" ls] by (subst block_end.simps) (auto simp: Let_def Suc_le_eq)

lemma find_fn_later:
  "find_fn ls j attrs = (attrs', j', name) \<Longrightarrow> name \<noteq> [] \<Longrightarrow>
     j \<le> j' \<and> j' < length ls \<and> fn_line (trim (ls ! j')) \<and> name = fn_name (trim (ls ! j')) \<and> \<not> attr_line (ls ! j')"
proof (induction ls j attrs rule: find_fn.induct)
  case (1 ls j attrs)
  let ?t = "trim (ls ! j)"
  have j: "j < length ls" using "1.prems" by (subst (asm) find_fn.simps) (auto split: if_splits)
  consider (attr) "starts_with ''#['' ?t" | (blank) "\<not> starts_with ''#['' ?t" "starts_with ''//'' ?t \<or> starts_with ''/*'' ?t \<or> ?t = []"
    | (func) "\<not> starts_with ''#['' ?t" "\<not> (starts_with ''//'' ?t \<or> starts_with ''/*'' ?t \<or> ?t = [])" by blast
  then show ?case
  proof cases
    case attr
    then show ?thesis
      using "1.IH"(1) [OF j refl attr] "1.prems" j read_attr_later [OF j, of 0 "[]"]
      by (subst (asm) find_fn.simps [of ls j attrs]) (auto simp: Let_def)
  next
    case blank
    then show ?thesis
      using "1.IH"(2) [OF j refl blank] "1.prems" j by (subst (asm) find_fn.simps [of ls j attrs]) (auto simp: Let_def)
  next
    case func
    then show ?thesis
      using "1.prems" j by (subst (asm) find_fn.simps [of ls j attrs]) (auto simp: Let_def attr_line_def split: if_splits)
  qed
qed

section \<open>The scan\<close>

definition RUST_EXCLUDE :: "string list" where
  "RUST_EXCLUDE =
     [''test_dir_smoke_test'', ''test_dir_read_file'', ''file_test_io_smoke_test'', ''file_test_io_non_positional_read'',
      ''test_read_buf_at'', ''test_read_buf_exact_at'', ''test_seek_read_buf'', ''file_test_read_buf'', ''test_fs_set_times'',
      ''test_fs_set_times_nofollow'', ''test_fs_set_times_follows_symlink'', ''test_fs_set_times_on_dir'',
      ''metadata_access_times'', ''dir_entry_debug'']"

record xform =
  xf_skip :: "(nat \<times> nat) list"
  xf_drops :: "nat list"
  xf_pubs :: "nat list"
  xf_tests :: "(string list \<times> string) list"
  xf_excluded :: "string list"

definition no_xform :: xform where
  "no_xform = \<lparr>xf_skip = [], xf_drops = [], xf_pubs = [], xf_tests = [], xf_excluded = []\<rparr>"

definition excluded_test :: "string list \<Rightarrow> nat \<Rightarrow> nat \<Rightarrow> string \<Rightarrow> bool" where
  "excluded_test ls j k name \<longleftrightarrow>
     name \<in> set RUST_EXCLUDE \<or> (\<exists>l\<in>set (slice_lines ls j k). contains l ''Dir::'')"

text \<open>A test at line \<open>i\<close> with its function at \<open>j\<close>, and \<open>k\<close> behind its body.\<close>

definition note_test :: "string list \<Rightarrow> nat \<Rightarrow> string list \<times> nat \<times> string \<Rightarrow> nat \<Rightarrow> xform \<Rightarrow> xform" where
  "note_test ls i fn k x =
     (case fn of (attrs, j, name) \<Rightarrow>
        (let back = back_start ls i
         in if excluded_test ls j k name
            then x\<lparr>xf_excluded := xf_excluded x @ [name], xf_skip := xf_skip x @ [(back, k - 1)]\<rparr>
            else x\<lparr>xf_drops := xf_drops x @ [i], xf_pubs := xf_pubs x @ [j],
                   xf_tests := xf_tests x @ [(back_attrs ls back i @ attrs, name)]\<rparr>))"

definition test_mark :: "string \<Rightarrow> bool" where
  "test_mark l \<longleftrightarrow> trim l = ''#[test]''"

function scan_tests :: "string list \<Rightarrow> nat \<Rightarrow> xform \<Rightarrow> xform" where
  "scan_tests ls i x =
     (if i < length ls then
        if \<not> test_mark (ls ! i) then scan_tests ls (i + 1) x
        else (let fn = find_fn ls (i + 1) []
          in if snd (snd fn) = [] then scan_tests ls (i + 1) x
             else (let k = block_end ls (fst (snd fn)) 0 False in scan_tests ls k (note_test ls i fn k x)))
      else x)"
  by pat_completeness auto
termination
proof (relation "measure (\<lambda>(ls, i, x). length ls - i)")
  fix ls i and x :: xform and fn k
  assume i: "i < length ls" and f: "fn = find_fn ls (i + 1) []" "snd (snd fn) \<noteq> []" and k: "k = block_end ls (fst (snd fn)) 0 False"
  obtain attrs j name where fn: "find_fn ls (i + 1) [] = (attrs, j, name)" by (metis prod.exhaust)
  then have "i < j" "j < length ls" using find_fn_later [OF fn] f by auto
  then show "((ls, k, note_test ls i fn k x), ls, i, x) \<in> measure (\<lambda>(ls, i, x). length ls - i)"
    using block_end_later [of j ls 0 False] k f(1) fn i by simp
qed auto

declare scan_tests.simps [simp del]

section \<open>The rewritten lines\<close>

text \<open>\<open>str::replace\<close>: every occurrence from the left, without overlaps.\<close>

function replace_all :: "string \<Rightarrow> string \<Rightarrow> string \<Rightarrow> string" where
  "replace_all p q s =
     (if p = [] \<or> s = [] then s
      else if starts_with p s then q @ replace_all p q (drop (length p) s)
      else hd s # replace_all p q (tl s))"
  by pat_completeness auto
termination
  by (relation "measure (\<lambda>(p, q, s). length s)") (auto simp: neq_Nil_conv)

declare replace_all.simps [simp del]

definition make_public :: "string \<Rightarrow> string" where
  "make_public l =
     (if starts_with ''fn '' (trim_start l)
      then (case find_sub ''fn '' l of Some p \<Rightarrow> take p l @ ''pub '' @ drop p l | None \<Rightarrow> l) else l)"

definition rewrite_line :: "string \<Rightarrow> string list" where
  "rewrite_line l0 =
     (if trim l0 = ''use super::Dir;'' then []
      else (let l = replace_all ''crate::'' ''std::'' l0;
                l = replace_all ''std::test_helpers'' ''crate::shim::test_helpers'' l;
                l = replace_all ''use std::io::{BorrowedBuf, '' ''use std::io::{'' l;
                l = (if trim l = ''use rand::RngCore;'' then ''use crate::shim::rand::RngCore;'' else l);
                l = (if trim l = ''use std::{assert_matches, env, io, str, thread};''
                     then ''use crate::shim::assert_matches;'' @ [LF] @ ''use std::{env, io, str, thread};'' else l)
            in [l]))"

definition dropped_line :: "xform \<Rightarrow> nat \<Rightarrow> bool" where
  "dropped_line x idx \<longleftrightarrow> (\<exists>(a, b)\<in>set (xf_skip x). a \<le> idx \<and> idx \<le> b) \<or> idx \<in> set (xf_drops x)"

definition emit_line :: "string list \<Rightarrow> xform \<Rightarrow> nat \<Rightarrow> string list" where
  "emit_line ls x idx =
     (if dropped_line x idx then []
      else rewrite_line (if idx \<in> set (xf_pubs x) then make_public (ls ! idx) else ls ! idx))"

definition transform_rust_tests :: "string \<Rightarrow> string list \<times> (string list \<times> string) list \<times> string list" where
  "transform_rust_tests src =
     (let ls = lines src; x = scan_tests ls 0 no_xform
      in (concat (map (emit_line ls x) [0..<length ls]), xf_tests x, xf_excluded x))"

text \<open>The tests that the options skip are left out and reported as excluded.\<close>

definition skip_tests :: "string list \<Rightarrow> (string list \<times> string) list \<Rightarrow> string list \<Rightarrow> (string list \<times> string) list \<times> string list" where
  "skip_tests pats0 tests excluded =
     (let pats = filter (\<lambda>p. p \<noteq> []) pats0; hit = (\<lambda>t. \<exists>p\<in>set pats. contains (snd t) p)
      in (filter (\<lambda>t. \<not> hit t) tests, excluded @ map snd (filter hit tests)))"

end
