(* ===== verification/Stdfs_Properties.thy ===== *)
theory Stdfs_Properties
  imports Stdfs_Rust
begin

text \<open>
  The properties of the standard-library runner: what its counts and its verdict mean, and that the rewritten Rust
  tests hold every test that the generated table names.
\<close>

section \<open>Counting markers\<close>

lemma find_space: "CHR '' '' \<notin> set v \<Longrightarrow> find_sub '' '' (v @ CHR '' '' # r) = Some (length v)"
  by (induction v) (auto simp: starts_with_def)

lemma split_verb: "CHR '' '' \<notin> set v \<Longrightarrow> (\<exists>r. split_once '' '' s = Some (v, r)) \<longleftrightarrow> starts_with (v @ '' '') s"
proof
  assume v: "CHR '' '' \<notin> set v" "starts_with (v @ '' '') s"
  then obtain r where "s = v @ CHR '' '' # r" by (auto simp: starts_with_iff)
  then show "\<exists>r. split_once '' '' s = Some (v, r)" using find_space [OF v(1)] by (simp add: split_once_def)
next
  assume "\<exists>r. split_once '' '' s = Some (v, r)"
  then obtain i where i: "find_sub '' '' s = Some i" "take i s = v" by (auto simp: split_once_def)
  have "s = v @ '' '' @ drop (i + 1) s" using find_sub_sound [OF i(1)] i(2) by simp
  then show "starts_with (v @ '' '') s" by (metis append_assoc starts_with_append)
qed

lemma marker_verb:
  assumes "starts_with ''--- '' l" "CHR '' '' \<notin> set v"
  shows "(\<exists>r. split_once '' '' (drop 4 l) = Some (v, r)) \<longleftrightarrow> starts_with (''--- '' @ v @ '' '') l"
proof -
  obtain r where l: "l = ''--- '' @ r" using assms(1) by (auto simp: starts_with_iff)
  show ?thesis using split_verb [OF assms(2), of r] by (simp add: l starts_with_iff)
qed

lemma go_line_counts:
  assumes "go_line l (p, pending) = (p', pending')"
  shows "gp_pass p' = gp_pass p + (if starts_with ''--- PASS: '' l then 1 else 0) \<and>
    gp_fail p' = gp_fail p + (if starts_with ''--- FAIL: '' l then 1 else 0) \<and>
    gp_skip p' = gp_skip p + (if starts_with ''--- SKIP: '' l then 1 else 0) \<and>
    length (gp_failures p') \<le> max 10 (length (gp_failures p))"
proof (cases "starts_with ''--- '' l")
  case False
  then have "\<not> starts_with ''--- PASS: '' l" "\<not> starts_with ''--- FAIL: '' l" "\<not> starts_with ''--- SKIP: '' l"
    by (auto simp: starts_with_iff)
  moreover have "p' = p" using assms False by (auto simp: go_line_def split: if_splits)
  ultimately show ?thesis by simp
next
  case True
  then have neq: "\<not> starts_with ''=== '' l" by (auto simp: starts_with_iff)
  have m: "(\<exists>r. split_once '' '' (drop 4 l) = Some (''PASS:'', r)) \<longleftrightarrow> starts_with ''--- PASS: '' l"
    "(\<exists>r. split_once '' '' (drop 4 l) = Some (''FAIL:'', r)) \<longleftrightarrow> starts_with ''--- FAIL: '' l"
    "(\<exists>r. split_once '' '' (drop 4 l) = Some (''SKIP:'', r)) \<longleftrightarrow> starts_with ''--- SKIP: '' l"
    using marker_verb [OF True, of "''PASS:''"] marker_verb [OF True, of "''FAIL:''"] marker_verb [OF True, of "''SKIP:''"] by simp_all
  show ?thesis
  proof (cases "split_once '' '' (drop 4 l)")
    case None
    then show ?thesis using assms True neq m by (simp add: go_line_def)
  next
    case (Some vr)
    obtain v r where vr: "vr = (v, r)" by (cases vr)
    have "p' = go_result v (trim (before_sub '' ('' r)) pending p" using assms True neq Some vr by (simp add: go_line_def)
    moreover have "(v = ''PASS:'') = starts_with ''--- PASS: '' l" "(v = ''FAIL:'') = starts_with ''--- FAIL: '' l"
      "(v = ''SKIP:'') = starts_with ''--- SKIP: '' l" using m Some vr by auto
    ultimately show ?thesis by (auto simp: go_result_def)
  qed
qed

lemma fold_go:
  "gp_pass (fst (fold go_line ls s)) = gp_pass (fst s) + length (filter (starts_with ''--- PASS: '') ls) \<and>
   gp_fail (fst (fold go_line ls s)) = gp_fail (fst s) + length (filter (starts_with ''--- FAIL: '') ls) \<and>
   gp_skip (fst (fold go_line ls s)) = gp_skip (fst s) + length (filter (starts_with ''--- SKIP: '') ls) \<and>
   length (gp_failures (fst (fold go_line ls s))) \<le> max 10 (length (gp_failures (fst s)))"
proof (induction ls arbitrary: s)
  case (Cons l ls)
  obtain p q p' q' where s: "s = (p, q)" "go_line l (p, q) = (p', q')" by (metis prod.exhaust)
  then show ?case using go_line_counts [OF s(2)] Cons [of "(p', q')"] by auto
qed simp

text \<open>
  Whatever a Go test binary prints between the markers, the counts are the numbers of lines that begin with the
  marker of a passed, failed or skipped test at the start of the line, so subtests, whose markers are indented, do
  not count; at most ten failures are kept.
\<close>

theorem go_counts_markers:
  "gp_pass (parse_go_v out) = length (filter (starts_with ''--- PASS: '') (lines out)) \<and>
   gp_fail (parse_go_v out) = length (filter (starts_with ''--- FAIL: '') (lines out)) \<and>
   gp_skip (parse_go_v out) = length (filter (starts_with ''--- SKIP: '') (lines out)) \<and>
   length (gp_failures (parse_go_v out)) \<le> 10"
  using fold_go [of "lines out" "(no_go, [])"] by (simp add: parse_go_v_def no_go_def)

lemma res_line_counts:
  "rp_seen p = rp_pass p + rp_fail p \<and> rp_tout p \<le> rp_fail p \<Longrightarrow>
     rp_seen (res_line l p) = rp_pass (res_line l p) + rp_fail (res_line l p) \<and> rp_tout (res_line l p) \<le> rp_fail (res_line l p)"
  by (auto simp: res_line_def keep_failure_def Let_def split: list.splits)

lemma parse_res_counts:
  "rp_seen (parse_res out) = rp_pass (parse_res out) + rp_fail (parse_res out) \<and> rp_tout (parse_res out) \<le> rp_fail (parse_res out)"
proof -
  have "rp_seen p = rp_pass p + rp_fail p \<and> rp_tout p \<le> rp_fail p \<Longrightarrow>
      rp_seen (fold res_line ls p) = rp_pass (fold res_line ls p) + rp_fail (fold res_line ls p) \<and>
      rp_tout (fold res_line ls p) \<le> rp_fail (fold res_line ls p)" for ls p
  proof (induction ls arbitrary: p)
    case (Cons l ls)
    show ?case using Cons.IH [OF res_line_counts [OF Cons.prems]] by simp
  qed simp
  from this [of no_rust "lines out"] show ?thesis by (simp add: parse_res_def no_rust_def)
qed

section \<open>The verdict\<close>

lemma item_fine: "item_status_of ex n = ItemOk \<longleftrightarrow> x_code ex = Some 0 \<and> \<not> x_timed_out ex \<and> n = 0"
  by (simp add: item_status_of_def)

lemma rust_failed: "rust_report build ex = LangStatus ''failed'' \<longleftrightarrow> x_code build \<noteq> Some 0"
  by (simp add: rust_report_def)

lemma put_report_new: "l \<notin> fst ` set rs \<Longrightarrow> put_report l v rs = rs @ [(l, v)]"
  by (induction rs) auto

lemma language_reports_distinct:
  assumes "distinct (map fst runs)"
  shows "language_reports runs = runs"
proof -
  have "distinct (map fst (rs @ runs)) \<Longrightarrow> fold (\<lambda>(l, v) rs. put_report l v rs) runs rs = rs @ runs" for rs
  proof (induction runs arbitrary: rs)
    case (Cons x runs)
    then show ?case using put_report_new [of "fst x" rs "snd x"] Cons.IH [of "rs @ [x]"] by (auto simp: case_prod_beta)
  qed simp
  from this [of "[]"] show ?thesis using assms by (simp add: language_reports_def)
qed

text \<open>What the tests of a language gave; None when its toolchain or its sources are not there.\<close>

datatype lang_run =
    GoRun "(std_exec \<times> std_exec) list option"
  | PythonRun "std_exec option list option"
  | NodeRun "std_exec list option"
  | RustRun "(std_exec \<times> std_exec) option"

fun run_report :: "lang_run \<Rightarrow> string \<times> lang_report" where
  "run_report (GoRun x) = (''go'', case x of None \<Rightarrow> Unavailable | Some cs \<Rightarrow> go_report cs)"
| "run_report (PythonRun x) = (''python'', case x of None \<Rightarrow> Unavailable | Some ms \<Rightarrow> python_report ms)"
| "run_report (NodeRun x) = (''node'', case x of None \<Rightarrow> Unavailable | Some ns \<Rightarrow> node_report ns)"
| "run_report (RustRun x) = (''rust'', case x of None \<Rightarrow> Unavailable | Some (build, ex) \<Rightarrow> rust_report build ex)"

text \<open>A program that ended in time with 0, and in whose output no test failed.\<close>

definition clean :: "std_exec \<Rightarrow> nat \<Rightarrow> bool" where
  "clean ex fails \<longleftrightarrow> x_code ex = Some 0 \<and> \<not> x_timed_out ex \<and> fails = 0"

text \<open>What the documentation asks of a language that is there: its tests compiled, ended in time and did not fail.\<close>

fun passes :: "lang_run \<Rightarrow> bool" where
  "passes (GoRun (Some cs)) \<longleftrightarrow>
     (\<forall>(b, r)\<in>set cs. \<not> x_spawn_err b \<and> x_code b = Some 0 \<and> clean r (gp_fail (parse_go_v (x_out r))))"
| "passes (PythonRun (Some ms)) \<longleftrightarrow> (\<forall>x. Some x \<in> set ms \<longrightarrow> clean x (pp_fail (parse_python_v (x_out x))))"
| "passes (NodeRun (Some ns)) \<longleftrightarrow> (\<forall>x\<in>set ns. clean x (np_fail (node_tap (x_out x))))"
| "passes (RustRun (Some (build, ex))) \<longleftrightarrow> x_code build = Some 0 \<and> clean ex (rp_fail (parse_res (x_out ex)))"
| "passes r \<longleftrightarrow> True"

text \<open>Rust tests that were compiled and did not pass.\<close>

fun rust_tests_failed :: "lang_run \<Rightarrow> bool" where
  "rust_tests_failed (RustRun (Some (build, ex))) \<longleftrightarrow> x_code build = Some 0 \<and> \<not> clean ex (rp_fail (parse_res (x_out ex)))"
| "rust_tests_failed r \<longleftrightarrow> False"

lemma run_report_failed: "snd (run_report r) = LangStatus ''failed'' \<longleftrightarrow> \<not> passes r \<and> \<not> rust_tests_failed r"
proof (cases r rule: passes.cases)
  case (1 cs)
  have "go_item c = ItemOk \<longleftrightarrow> (case c of (b, r) \<Rightarrow> \<not> x_spawn_err b \<and> x_code b = Some 0 \<and> clean r (gp_fail (parse_go_v (x_out r))))" for c
    by (cases c) (simp add: go_item_def item_fine clean_def)
  then show ?thesis using 1 by (simp add: go_report_def items_report_def)
next
  case (2 ms)
  have "py_item m \<in> set [ItemOk, Missing] \<longleftrightarrow> (\<forall>x. m = Some x \<longrightarrow> clean x (pp_fail (parse_python_v (x_out x))))" for m
    by (cases m) (auto simp: py_item_def item_status_of_def clean_def)
  then show ?thesis using 2 by (auto simp: python_report_def items_report_def)
next
  case (3 ns)
  then show ?thesis by (auto simp: node_report_def items_report_def node_item_def item_fine clean_def)
qed (auto simp: rust_failed)

lemma any_failed_reports: "any_failed (map run_report runs) \<longleftrightarrow> (\<exists>r\<in>set runs. \<not> passes r \<and> \<not> rust_tests_failed r)"
  unfolding any_failed_def run_report_failed [symmetric] by (force simp: case_prod_beta)

lemma stdfs_run_reports:
  assumes "distinct (map (\<lambda>r. fst (run_report r)) runs)"
  shows "stdfs_run (map run_report runs) = Inr (\<forall>r\<in>set runs. passes r \<or> rust_tests_failed r)"
proof -
  have "fst (run_report r) \<in> {''go'', ''python'', ''node'', ''rust''}" for r by (cases r) auto
  then have "known_langs (map fst (map run_report runs)) = None"
    unfolding known_langs_def find_None_iff by auto
  moreover have "language_reports (map run_report runs) = map run_report runs"
    using assms by (intro language_reports_distinct) (simp add: comp_def)
  ultimately show ?thesis by (auto simp: stdfs_run_def any_failed_reports)
qed

text \<open>
  C36: A run over any choice of the languages, each at most once, is ok exactly when every language that is there passed as
  documented: every Go package compiled and, like every Node file and every Python module that exists, ended in time
  with exit code 0 and no failed test, and the Rust runner compiled and did so too. A language whose toolchain or
  sources are not there does not fail the run. The code keeps this promise for the runs in which the compiled
  Rust tests do not fail or hang; what it does with the others is the theorem \<open>rust_failures_are_lost\<close> and contradicts
  the documentation.
\<close>

theorem stdfs_verdict:
  assumes "distinct (map (\<lambda>r. fst (run_report r)) runs)" "\<not> list_ex rust_tests_failed runs"
  shows "stdfs_run (map run_report runs) = Inr (\<forall>r\<in>set runs. passes r)"
  using assms by (auto simp: stdfs_run_reports list_ex_iff)

definition good_exec :: std_exec where
  "good_exec = \<lparr>x_code = Some 0, x_timed_out = False, x_out = [], x_spawn_err = False\<rparr>"

text \<open>A Go package whose tests fail makes a run fail whose Rust tests pass and which has no Node.\<close>

lemma stdfs_verdict_witness:
  "stdfs_run (map run_report [GoRun (Some [(good_exec, good_exec\<lparr>x_code := Some 1\<rparr>)]), NodeRun None, RustRun (Some (good_exec, good_exec))]) =
     Inr False"
  using stdfs_verdict [of "[GoRun (Some [(good_exec, good_exec\<lparr>x_code := Some 1\<rparr>)]), NodeRun None, RustRun (Some (good_exec, good_exec))]"]
  by (simp add: good_exec_def clean_def parse_res_def lines_def no_rust_def)

text \<open>Rust tests that fail or hang have no effect: the verdict asks for the status \<open>failed\<close>, and theirs is another.\<close>

theorem rust_failures_are_lost:
  "x_code build = Some 0 \<Longrightarrow> stdfs_run (map run_report [RustRun (Some (build, ex))]) = Inr True"
  using stdfs_run_reports [of "[RustRun (Some (build, ex))]"] by auto

section \<open>The rewritten tests\<close>

lemma back_start_above: "p < i \<Longrightarrow> \<not> attr_line (ls ! p) \<Longrightarrow> p < back_start ls i"
  by (induction i) (auto simp: less_Suc_eq)

lemma test_mark_attr: "test_mark l \<Longrightarrow> attr_line l"
  by (simp add: test_mark_def attr_line_def starts_with_def)

text \<open>What holds of the tests found before line \<open>i\<close>.\<close>

definition test_ok :: "string list \<Rightarrow> nat \<Rightarrow> nat \<Rightarrow> string \<Rightarrow> bool" where
  "test_ok ls d p name \<longleftrightarrow>
     d < p \<and> p < length ls \<and> test_mark (ls ! d) \<and> \<not> attr_line (ls ! p) \<and> fn_line (trim (ls ! p)) \<and>
     name = fn_name (trim (ls ! p)) \<and> name \<noteq> [] \<and> name \<notin> set RUST_EXCLUDE"

definition scan_ok :: "string list \<Rightarrow> nat \<Rightarrow> xform \<Rightarrow> bool" where
  "scan_ok ls i x \<longleftrightarrow>
     length (xf_pubs x) = length (xf_drops x) \<and> length (xf_tests x) = length (xf_drops x) \<and>
     (\<forall>m<length (xf_drops x). test_ok ls (xf_drops x ! m) (xf_pubs x ! m) (snd (xf_tests x ! m)) \<and> xf_pubs x ! m < i \<and>
        (\<forall>(a, b)\<in>set (xf_skip x). b < xf_drops x ! m \<or> xf_pubs x ! m < a)) \<and>
     (\<forall>(a, b)\<in>set (xf_skip x). b < i)"

lemma scan_ok_later: "scan_ok ls i x \<Longrightarrow> i \<le> i' \<Longrightarrow> scan_ok ls i' x"
  unfolding scan_ok_def by (fastforce dest: less_le_trans)

lemma note_test_ok:
  assumes ok: "scan_ok ls i x" and mark: "test_mark (ls ! i)"
    and fn: "find_fn ls (i + 1) [] = (attrs, j, name)" "name \<noteq> []" and k: "k = block_end ls j 0 False"
  shows "scan_ok ls k (note_test ls i (attrs, j, name) k x)"
proof -
  have j: "i < j" "j < length ls" "fn_line (trim (ls ! j))" "name = fn_name (trim (ls ! j))" "\<not> attr_line (ls ! j)"
    using find_fn_later [OF fn] by auto
  have jk: "j < k" using block_end_later [OF j(2)] k by simp
  have later: "scan_ok ls k x" using scan_ok_later [OF ok] j(1) jk by simp
  show ?thesis
  proof (cases "excluded_test ls j k name")
    case True
    have "xf_pubs x ! m < back_start ls i" if "m < length (xf_drops x)" for m
      using ok that by (intro back_start_above) (auto simp: scan_ok_def test_ok_def)
    then show ?thesis using True later jk by (auto simp: note_test_def scan_ok_def)
  next
    case False
    let ?x = "note_test ls i (attrs, j, name) k x"
    have x: "xf_drops ?x = xf_drops x @ [i]" "xf_pubs ?x = xf_pubs x @ [j]" "map snd (xf_tests ?x) = map snd (xf_tests x) @ [name]"
      "length (xf_tests ?x) = length (xf_tests x) + 1" "xf_skip ?x = xf_skip x"
      using False by (simp_all add: note_test_def)
    have new: "test_ok ls i j name" using j mark fn(2) False by (auto simp: test_ok_def excluded_test_def)
    have len: "length (xf_pubs x) = length (xf_drops x)" "length (xf_tests x) = length (xf_drops x)" using ok by (simp_all add: scan_ok_def)
    have old: "snd (xf_tests ?x ! m) = (if m < length (xf_tests x) then snd (xf_tests x ! m) else name)" if "m < length (xf_tests x) + 1" for m
      using arg_cong [OF x(3), of "\<lambda>l. l ! m"] that x(4) by (auto simp: nth_append)
    have skips: "\<forall>(a, b)\<in>set (xf_skip x). b < i" using ok by (simp add: scan_ok_def)
    have "test_ok ls (xf_drops ?x ! m) (xf_pubs ?x ! m) (snd (xf_tests ?x ! m)) \<and> xf_pubs ?x ! m < k \<and>
        (\<forall>(a, b)\<in>set (xf_skip ?x). b < xf_drops ?x ! m \<or> xf_pubs ?x ! m < a)" if "m < length (xf_drops ?x)" for m
    proof (cases "m < length (xf_drops x)")
      case True
      then show ?thesis using later old [of m] len x by (simp add: scan_ok_def nth_append)
    next
      case False
      then have "m = length (xf_drops x)" using that x(1) by simp
      then show ?thesis using old [of m] len x new jk skips by (auto simp: nth_append)
    qed
    then show ?thesis using later len x by (simp add: scan_ok_def)
  qed
qed

lemma scan_tests_ok: "scan_ok ls i x \<Longrightarrow> i \<le> length ls \<Longrightarrow> scan_ok ls (length ls) (scan_tests ls i x)"
proof (induction ls i x rule: scan_tests.induct)
  case (1 ls i x)
  show ?case
  proof (cases "i < length ls")
    case i: True
    have next_line: "scan_ok ls (i + 1) x" by (rule scan_ok_later [OF "1.prems"(1)]) simp
    obtain attrs j name where fn: "find_fn ls (i + 1) [] = (attrs, j, name)" by (metis prod.exhaust)
    consider "\<not> test_mark (ls ! i)" | "test_mark (ls ! i)" "name = []" | (test) "test_mark (ls ! i)" "name \<noteq> []" by blast
    then show ?thesis
    proof cases
      case 1
      then show ?thesis using "1.IH"(1) [OF i] i next_line by (subst scan_tests.simps) simp
    next
      case 2
      then show ?thesis using "1.IH"(2) [OF i _ fn [symmetric]] i next_line fn by (subst scan_tests.simps) simp
    next
      case test
      let ?k = "block_end ls j 0 False"
      have k: "?k \<le> length ls" using find_fn_later [OF fn test(2)] block_end_bounds [of j ls 0 False] by simp
      have "scan_ok ls ?k (note_test ls i (attrs, j, name) ?k x)"
        by (rule note_test_ok [OF "1.prems"(1) test(1) fn test(2) refl])
      then show ?thesis using "1.IH"(3) [OF i _ fn [symmetric] _ refl] i k fn test by (subst scan_tests.simps) (simp add: Let_def)
    qed
  qed (use "1.prems" in \<open>subst scan_tests.simps, simp\<close>)
qed

lemma find_sub_blanks:
  assumes "\<forall>c\<in>set b. is_ws c" "starts_with ''fn '' s"
  shows "find_sub ''fn '' (b @ s) = Some (length b)"
  using assms(1)
proof (induction b)
  case Nil
  then show ?case using assms(2) by (cases s) (auto simp: starts_with_def)
next
  case (Cons c b)
  have "c \<noteq> CHR ''f''" using Cons.prems by (auto simp: is_ws_def)
  then show ?case using Cons by (simp add: starts_with_def)
qed

lemma make_public_pub: "starts_with ''fn '' (trim_start l) \<Longrightarrow> starts_with ''pub fn '' (trim_start (make_public l))"
proof -
  assume f: "starts_with ''fn '' (trim_start l)"
  let ?b = "takeWhile is_ws l"
  have l: "l = ?b @ trim_start l" by (simp add: trim_start_def)
  have b: "\<forall>c\<in>set ?b. is_ws c" by (auto dest: set_takeWhileD)
  have "find_sub ''fn '' l = Some (length ?b)" using find_sub_blanks [OF b f] l by simp
  moreover have "take (length ?b) l = ?b" "drop (length ?b) l = trim_start l" by (metis append_eq_conv_conj l)+
  ultimately have m: "make_public l = ?b @ ''pub '' @ trim_start l" using f by (simp add: make_public_def)
  have "\<not> is_ws (CHR ''p'')" by (simp add: is_ws_def)
  then have "trim_start (make_public l) = ''pub '' @ trim_start l"
    unfolding m trim_start_def using b by (simp add: dropWhile_append2)
  then show ?thesis using f by (auto simp: starts_with_iff)
qed

text \<open>
  C35: Every test of the table that the rewriting returns has its function in the output, outside all blocks that are
  dropped, under the name in the table and, when it was a plain function, made public; its mark is not in the
  output, and its name is not one of the excluded ones.
\<close>

theorem table_names_emitted_tests:
  assumes "ls = lines src" "x = scan_tests ls 0 no_xform" "m < length (xf_tests x)"
  shows "\<exists>d p. d < p \<and> p < length ls \<and> test_mark (ls ! d) \<and> emit_line ls x d = [] \<and>
    emit_line ls x p = rewrite_line (make_public (ls ! p)) \<and>
    snd (xf_tests x ! m) = fn_name (trim (ls ! p)) \<and> snd (xf_tests x ! m) \<notin> set RUST_EXCLUDE \<and>
    (starts_with ''fn '' (trim_start (ls ! p)) \<longrightarrow> starts_with ''pub fn '' (trim_start (make_public (ls ! p))))"
proof -
  have "scan_ok ls 0 no_xform" by (simp add: scan_ok_def no_xform_def)
  then have ok: "scan_ok ls (length ls) x" unfolding assms(2) by (rule scan_tests_ok) simp
  let ?d = "xf_drops x ! m" and ?p = "xf_pubs x ! m"
  have len: "m < length (xf_drops x)" "m < length (xf_pubs x)" using ok assms(3) by (simp_all add: scan_ok_def)
  have t: "test_ok ls ?d ?p (snd (xf_tests x ! m))" and far: "\<forall>(a, b)\<in>set (xf_skip x). b < ?d \<or> ?p < a"
    using ok len(1) by (simp_all add: scan_ok_def)
  have "?p \<notin> set (xf_drops x)"
  proof
    assume "?p \<in> set (xf_drops x)"
    then obtain q where "q < length (xf_drops x)" "xf_drops x ! q = ?p" by (auto simp: in_set_conv_nth)
    then have "test_mark (ls ! ?p)" using ok by (auto simp: scan_ok_def test_ok_def)
    then show False using test_mark_attr t by (simp add: test_ok_def)
  qed
  moreover have "\<not> (\<exists>(a, b)\<in>set (xf_skip x). a \<le> ?p \<and> ?p \<le> b)" using far t by (fastforce simp: test_ok_def)
  ultimately have p: "emit_line ls x ?p = rewrite_line (make_public (ls ! ?p))"
    using len(2) by (auto simp: emit_line_def dropped_line_def)
  have d: "emit_line ls x ?d = []" using len(1) by (simp add: emit_line_def dropped_line_def)
  show ?thesis
  proof (rule exI [of _ ?d], rule exI [of _ ?p])
    show "?d < ?p \<and> ?p < length ls \<and> test_mark (ls ! ?d) \<and> emit_line ls x ?d = [] \<and>
      emit_line ls x ?p = rewrite_line (make_public (ls ! ?p)) \<and>
      snd (xf_tests x ! m) = fn_name (trim (ls ! ?p)) \<and> snd (xf_tests x ! m) \<notin> set RUST_EXCLUDE \<and>
      (starts_with ''fn '' (trim_start (ls ! ?p)) \<longrightarrow> starts_with ''pub fn '' (trim_start (make_public (ls ! ?p))))"
      using p d make_public_pub t [unfolded test_ok_def] by blast
  qed
qed

definition sample_source :: "string list" where
  "sample_source = [''#[test]'', ''fn a() {'', ''}'']"

lemma sample_scan:
  "xf_tests (scan_tests sample_source 0 no_xform) = [([], ''a'')]"
proof -
  have t: "trim ''#[test]'' = ''#[test]''" "trim ''fn a() {'' = ''fn a() {''"
    by (simp_all add: trim_def trim_start_def trim_end_def is_ws_def)
  have name: "fn_name ''fn a() {'' = ''a''"
    by (simp add: fn_name_def split_once_def starts_with_def before_sub_def trim_def trim_start_def trim_end_def is_ws_def)
  have fn: "find_fn sample_source 1 [] = ([], 1, ''a'')"
    by (subst find_fn.simps) (simp add: sample_source_def t name fn_line_def starts_with_def)
  have be: "block_end sample_source 1 0 False = 3"
    by (subst block_end.simps, subst block_end.simps) (simp add: sample_source_def net_depth_def)
  have ex: "\<not> excluded_test sample_source 1 3 ''a''"
    by (simp add: excluded_test_def RUST_EXCLUDE_def slice_lines_def sample_source_def contains_def starts_with_def)
  have bk: "back_attrs sample_source 0 0 = []" by (simp add: back_attrs_def slice_lines_def)
  have "scan_tests sample_source 0 no_xform = scan_tests sample_source 3 (note_test sample_source 0 ([], 1, ''a'') 3 no_xform)"
    using fn be by (subst scan_tests.simps) (simp add: sample_source_def test_mark_def t)
  also have "\<dots> = note_test sample_source 0 ([], 1, ''a'') 3 no_xform"
    by (subst scan_tests.simps) (simp add: sample_source_def)
  finally show ?thesis using ex bk by (simp add: note_test_def no_xform_def)
qed

lemma table_names_emitted_tests_witness:
  "\<exists>p. emit_line sample_source (scan_tests sample_source 0 no_xform) p = rewrite_line (make_public (sample_source ! p)) \<and>
     fn_name (trim (sample_source ! p)) = ''a''"
proof -
  have "sample_source = lines (text_of sample_source)"
    by (subst lines_text_of) (auto simp: sample_source_def)
  from table_names_emitted_tests [OF this refl, of 0] show ?thesis unfolding sample_scan by auto
qed

end
