(* ===== verification/Mptest_Suite_Properties.thy ===== *)
theory Mptest_Suite_Properties
  imports Mptest_Suite "HOL-Library.Sublist"
begin

text \<open>
  The properties of whole mptest runs: the options arrive at the process they are meant for, a selected script is
  found, and the verdict read from the output is that of the process.
\<close>

section \<open>Options\<close>

definition names :: "string \<Rightarrow> string \<Rightarrow> bool" where
  "names opt a \<longleftrightarrow> a = ''-'' @ opt \<or> a = ''--'' @ opt"

text \<open>Arguments that are not taken for an option, and do not end the search for it.\<close>

definition passes :: "string \<Rightarrow> string list \<Rightarrow> bool" where
  "passes opt xs \<longleftrightarrow> (\<forall>a\<in>set xs. \<not> names opt a \<and> a \<noteq> ''--'')"

abbreviation plain :: "string \<Rightarrow> bool" where
  "plain v \<equiv> \<not> starts_with ''-'' v"

lemma passes_append [simp]: "passes opt (xs @ ys) \<longleftrightarrow> passes opt xs \<and> passes opt ys"
  by (auto simp: passes_def)

lemma passes_Cons [simp]: "passes opt (x # xs) \<longleftrightarrow> \<not> names opt x \<and> x \<noteq> ''--'' \<and> passes opt xs"
  by (auto simp: passes_def)

lemma passes_Nil [simp]: "passes opt []"
  by (simp add: passes_def)

lemma plain_names: "plain v \<Longrightarrow> \<not> names opt v \<and> v \<noteq> ''--''"
  by (auto simp: names_def starts_with_def)

lemma passes_opt_arg: "o' \<noteq> opt \<Longrightarrow> o' \<noteq> [] \<Longrightarrow> CHR ''-'' # o' \<noteq> opt \<Longrightarrow> (\<forall>x. v = Some x \<longrightarrow> \<not> names opt x \<and> x \<noteq> ''--'') \<Longrightarrow> passes opt (opt_arg o' v)"
  by (cases v) (auto simp: opt_arg_def names_def)

lemma passes_opt_flag: "o' \<noteq> opt \<Longrightarrow> o' \<noteq> [] \<Longrightarrow> CHR ''-'' # o' \<noteq> opt \<Longrightarrow> passes opt (opt_flag o' b)"
  by (auto simp: opt_flag_def names_def)

lemma named_option:
  "plain opt \<Longrightarrow> starts_with ''-'' a \<Longrightarrow> a \<noteq> ''--'' \<Longrightarrow> (if starts_with ''--'' a then drop 2 a else drop 1 a) = opt \<longleftrightarrow> names opt a"
  by (auto simp: names_def starts_with_iff starts_with_def split: if_splits)

lemma find_none: "plain opt \<Longrightarrow> \<forall>a\<in>set xs. \<not> names opt a \<Longrightarrow> find_option h opt xs = None"
proof (induction xs)
  case (Cons a xs)
  then show ?case using named_option [of opt a] by (cases "a = ''--''") auto
qed simp

lemma find_pass:
  "plain opt \<Longrightarrow> passes opt xs \<Longrightarrow> ys \<noteq> [] \<or> \<not> h \<Longrightarrow>
   find_option h opt (xs @ ys) = map_option (\<lambda>(v, r). (v, xs @ r)) (find_option h opt ys)"
proof (induction xs)
  case Nil
  then show ?case by (simp add: option.map_ident case_prod_unfold)
next
  case (Cons a xs)
  then show ?case using named_option [of opt a] by (auto simp: option.map_comp comp_def case_prod_unfold)
qed

lemma take_pass:
  assumes "plain opt" "passes opt xs" "\<forall>a\<in>set ys. \<not> names opt a"
  shows "take_option h opt (xs @ ys) = (None, xs @ ys)"
proof -
  have "\<forall>a\<in>set (xs @ ys). \<not> names opt a" using assms(2,3) unfolding passes_def set_append by blast
  from find_none [OF assms(1) this, of h] show ?thesis by (simp add: take_option_def)
qed

lemma take_arg:
  assumes "plain opt" "opt \<noteq> []" "passes opt xs" "passes opt ys"
  shows "take_option True opt (xs @ opt_arg opt v @ ys) = (v, xs @ ys)"
proof (cases v)
  case None
  then show ?thesis using take_pass [of opt xs ys True] assms by (simp add: opt_arg_def passes_def)
next
  case (Some x)
  have o: "\<not> starts_with ''--'' (CHR ''-'' # opt) \<and> starts_with ''-'' (CHR ''-'' # CHR ''-'' # opt)"
    using assms(1,2) by (cases opt) (auto simp: starts_with_def)
  have "find_option True opt ([CHR ''-'' # CHR ''-'' # opt, x] @ ys) = Some (x, ys)"
    using o assms(2) by (simp add: starts_with_def)
  then show ?thesis using find_pass [OF assms(1,3), of "[CHR ''-'' # CHR ''-'' # opt, x] @ ys" True] Some
    by (simp add: take_option_def opt_arg_def)
qed

lemma take_flag:
  assumes "plain opt" "opt \<noteq> []" "passes opt xs" "passes opt ys"
  shows "take_option False opt (xs @ opt_flag opt b @ ys) = (if b then Some (''--'' @ opt) else None, xs @ ys)"
proof (cases b)
  case False
  then show ?thesis using take_pass [of opt xs ys False] assms by (simp add: opt_flag_def passes_def)
next
  case True
  have "find_option False opt ([CHR ''-'' # CHR ''-'' # opt] @ ys) = Some (CHR ''-'' # CHR ''-'' # opt, ys)"
    using assms(2) by (simp add: starts_with_def)
  then show ?thesis using find_pass [OF assms(1,3), of "[CHR ''-'' # CHR ''-'' # opt] @ ys" False] True
    by (simp add: take_option_def opt_flag_def)
qed

text \<open>Numbers survive.\<close>

lemma trim_start_id: "s \<noteq> [] \<Longrightarrow> \<not> is_ws (hd s) \<Longrightarrow> trim_start s = s"
  by (cases s) (auto simp: trim_start_def)

lemma dec_str_plain: "c \<in> set (dec_str n) \<Longrightarrow> \<not> is_ws c \<and> c \<noteq> CHR ''+'' \<and> c \<noteq> CHR ''-'' \<and> c \<noteq> LF"
  using digits_plain [of 10 c n] by (auto simp: dec_str_def is_ws_def)

lemma dec_nonempty: "dec_str n \<noteq> []"
  by (simp add: dec_str_def digits_of_nonempty)

lemma parse_i64_dec: "n < 2 ^ 63 \<Longrightarrow> parse_i64 (dec_str n) = Some (int n)"
proof -
  assume n: "n < 2 ^ 63"
  obtain c t where ct: "dec_str n = c # t" using dec_nonempty [of n] by (auto simp: neq_Nil_conv)
  have c: "c \<noteq> CHR ''-''" "c \<noteq> CHR ''+''" using dec_str_plain [of c n] ct by auto
  have "parse_digits 10 0 (c # t) = Some n" using parse_dec_str [of n] ct by simp
  then show ?thesis using n c by (simp add: parse_i64_def parse_uint_def ct Let_def)
qed

lemma atoi_dec: "n < 2 ^ 63 \<Longrightarrow> atoi (dec_str n) = int n"
proof -
  assume n: "n < 2 ^ 63"
  obtain c t where ct: "dec_str n = c # t" using dec_nonempty [of n] by (auto simp: neq_Nil_conv)
  have c: "c \<noteq> CHR ''-''" "c \<noteq> CHR ''+''" "\<not> is_ws c" using dec_str_plain [of c n] ct by auto
  have "trim_start (dec_str n) = dec_str n" using ct c by (intro trim_start_id) auto
  moreover have "takeWhile is_digit (dec_str n) = dec_str n" using dec_str_digit [of _ n] by (simp add: takeWhile_eq_all_conv)
  ultimately show ?thesis using parse_i64_dec [OF n] ct c by (simp add: atoi_def Let_def)
qed

lemma atoi_int: "- (2 ^ 63) \<le> z \<Longrightarrow> z < 2 ^ 63 \<Longrightarrow> atoi (int_str z) = z"
proof (cases "z < 0")
  case True
  assume z: "- (2 ^ 63) \<le> z"
  let ?n = "nat (- z)"
  have d: "takeWhile is_digit (dec_str ?n) = dec_str ?n" using dec_str_digit [of _ ?n] by (simp add: takeWhile_eq_all_conv)
  have "trim_start (CHR ''-'' # dec_str ?n) = CHR ''-'' # dec_str ?n" by (rule trim_start_id) (simp_all add: is_ws_def)
  moreover have "parse_i64 (CHR ''-'' # dec_str ?n) = Some z"
    using z True parse_dec_str [of ?n] dec_nonempty [of ?n] by (simp add: parse_i64_def nat_le_iff)
  then have "(case parse_i64 (CHR ''-'' # takeWhile is_digit (dec_str ?n)) of None \<Rightarrow> 0 | Some v \<Rightarrow> v) = z"
    by (simp only: d option.case)
  ultimately show ?thesis using True by (simp add: atoi_def int_str_def Let_def)
next
  case False
  assume "z < 2 ^ 63"
  with False have "nat z < 2 ^ 63" "int (nat z) = z" by (simp_all add: nat_less_iff)
  then show ?thesis using atoi_dec [of "nat z"] False by (simp add: int_str_def)
qed

lemma to_i32_id: "- (2 ^ 31) \<le> z \<Longrightarrow> z < 2 ^ 31 \<Longrightarrow> to_i32 z = z"
  by (simp add: to_i32_def sint_sbintrunc' signed_take_bit_int_eq_self)

lemma int_str_names: "opt \<noteq> [] \<Longrightarrow> \<not> is_digit (hd opt) \<Longrightarrow> \<not> names opt (int_str z) \<and> int_str z \<noteq> ''--''"
proof -
  assume o: "opt \<noteq> []" "\<not> is_digit (hd opt)"
  have "\<exists>c t. dec_str n = c # t \<and> is_digit c \<and> c \<noteq> CHR ''-''" for n
    using dec_nonempty [of n] dec_str_digit [of _ n] dec_str_plain [of _ n] by (cases "dec_str n") auto
  then obtain c t d u where "dec_str (nat z) = c # t" "is_digit c" "c \<noteq> CHR ''-''"
    "dec_str (nat (- z)) = d # u" "is_digit d" "d \<noteq> CHR ''-''" by metis
  then show ?thesis using o by (auto simp: names_def int_str_def)
qed

lemma dec_str_names: "\<not> names opt (dec_str n) \<and> dec_str n \<noteq> ''--''"
  using dec_str_plain [of "CHR ''-''" n] by (cases "dec_str n") (auto simp: names_def)

section \<open>Options arrive\<close>

lemma client_args_form:
  "client_args s i = [''__sqlite-mptest'', db_file s] @ opt_arg ''client'' (Some (int_str i)) @ opt_arg ''trace'' (Some (int_str (i_trace s)))
     @ opt_flag ''sqltrace'' (sql_trace s) @ opt_flag ''sync'' (b_sync s) @ opt_arg ''vfs'' (vfs s)"
  by (simp add: client_args_def opt_arg_def opt_flag_def split: option.splits)

text \<open>The options in the order in which they are looked for, each with what is left.\<close>

lemma main_optionsI:
  assumes "take_option True ''journalmode'' args = (jm, r1)" "take_option True ''repeat'' r1 = (rep, r2)"
    "take_option True ''vfs'' r2 = (v, r3)" "take_option True ''client'' r3 = (cl, r4)"
    "take_option True ''errlog'' r4 = (el, r5)" "take_option True ''log'' r5 = (lg, r6)"
    "take_option True ''trace'' r6 = (tr, r7)" "take_option False ''quiet'' r7 = (q, r8)"
    "take_option True ''timeout'' r8 = (tm, r9)" "take_option False ''sqltrace'' r9 = (st, r10)"
    "take_option False ''sync'' r10 = (sy, r11)"
  shows "main_options args = \<lparr>mo_jmode = jm, mo_rep = rep_count rep, mo_vfs = v, mo_client = cl, mo_errlog = el, mo_log = lg,
     mo_trace = trace_level tr q, mo_timeout = tm, mo_sqltrace = st \<noteq> None, mo_sync = sy \<noteq> None, mo_rest = r11\<rparr>"
  using assms by (simp add: main_options_def)

lemma starts_dash [simp]: "starts_with ''-'' (c # s) \<longleftrightarrow> c = CHR ''-''"
  by (auto simp: starts_with_def)

lemma passes_value: "plain x \<Longrightarrow> plain o' \<Longrightarrow> o' \<noteq> opt \<Longrightarrow> plain opt \<Longrightarrow> o' \<noteq> [] \<Longrightarrow> passes opt (opt_arg o' (Some x))"
  using plain_names [of x opt] by (intro passes_opt_arg) auto

lemma passes_values: "(\<And>x. v = Some x \<Longrightarrow> plain x) \<Longrightarrow> o' \<noteq> opt \<Longrightarrow> plain opt \<Longrightarrow> o' \<noteq> [] \<Longrightarrow> passes opt (opt_arg o' v)"
  using plain_names by (intro passes_opt_arg) auto

lemma passes_int: "\<not> is_digit (hd opt) \<Longrightarrow> opt \<noteq> [] \<Longrightarrow> o' \<noteq> opt \<Longrightarrow> plain opt \<Longrightarrow> o' \<noteq> [] \<Longrightarrow> passes opt (opt_arg o' (map_option int_str v))"
  using int_str_names by (intro passes_opt_arg) auto

lemma passes_dec: "o' \<noteq> opt \<Longrightarrow> plain opt \<Longrightarrow> o' \<noteq> [] \<Longrightarrow> passes opt (opt_arg o' (map_option dec_str v))"
  using dec_str_names by (intro passes_opt_arg) auto

lemma passes_flag: "o' \<noteq> opt \<Longrightarrow> plain opt \<Longrightarrow> o' \<noteq> [] \<Longrightarrow> passes opt (opt_flag o' b)"
  by (intro passes_opt_flag) auto

lemma absent: "plain opt \<Longrightarrow> passes opt xs \<Longrightarrow> take_option h opt xs = (None, xs)"
  using take_pass [of opt xs "[]" h] by simp

lemma suite_options:
  assumes "plain script" "\<And>x. sa_jmode a = Some x \<Longrightarrow> plain x" "\<And>x. sa_vfs a = Some x \<Longrightarrow> plain x"
  shows "main_options (tl (command_line a db script)) =
    \<lparr>mo_jmode = sa_jmode a, mo_rep = rep_count (map_option dec_str (sa_repeat a)), mo_vfs = sa_vfs a, mo_client = None,
     mo_errlog = None, mo_log = None, mo_trace = trace_level (map_option int_str (sa_trace a)) (if sa_quiet a then Some ''--quiet'' else None),
     mo_timeout = None, mo_sqltrace = sa_sqltrace a, mo_sync = sa_sync a, mo_rest = [script]\<rparr>"
proof -
  let ?J = "opt_arg ''journalmode'' (sa_jmode a)" and ?V = "opt_arg ''vfs'' (sa_vfs a)"
  let ?R = "opt_arg ''repeat'' (map_option dec_str (sa_repeat a))" and ?T = "opt_arg ''trace'' (map_option int_str (sa_trace a))"
  let ?Y = "opt_flag ''sync'' (sa_sync a)" and ?Q = "opt_flag ''sqltrace'' (sa_sqltrace a)" and ?Z = "opt_flag ''quiet'' (sa_quiet a)"
  have s: "\<not> names opt script" "script \<noteq> ''--''" for opt using plain_names [OF assms(1)] by simp_all
  note p = passes_values [OF assms(2)] passes_values [OF assms(3)] passes_dec passes_int passes_flag s
  have d: "\<not> is_digit CHR ''j''" "\<not> is_digit CHR ''r''" "\<not> is_digit CHR ''v''" "\<not> is_digit CHR ''c''" "\<not> is_digit CHR ''e''"
    "\<not> is_digit CHR ''l''" "\<not> is_digit CHR ''t''" "\<not> is_digit CHR ''q''" "\<not> is_digit CHR ''s''"
    by (simp_all add: is_digit_def ord_def)
  have 1: "take_option True ''journalmode'' ([script] @ ?J @ ?V @ ?R @ ?T @ ?Y @ ?Q @ ?Z) = (sa_jmode a, [script] @ ?V @ ?R @ ?T @ ?Y @ ?Q @ ?Z)"
    using take_arg [of "''journalmode''" "[script]" "?V @ ?R @ ?T @ ?Y @ ?Q @ ?Z" "sa_jmode a"] by (simp add: p d)
  have 2: "take_option True ''repeat'' ([script] @ ?V @ ?R @ ?T @ ?Y @ ?Q @ ?Z) = (map_option dec_str (sa_repeat a), [script] @ ?V @ ?T @ ?Y @ ?Q @ ?Z)"
    using take_arg [of "''repeat''" "[script] @ ?V" "?T @ ?Y @ ?Q @ ?Z" "map_option dec_str (sa_repeat a)"] by (simp add: p d)
  have 3: "take_option True ''vfs'' ([script] @ ?V @ ?T @ ?Y @ ?Q @ ?Z) = (sa_vfs a, [script] @ ?T @ ?Y @ ?Q @ ?Z)"
    using take_arg [of "''vfs''" "[script]" "?T @ ?Y @ ?Q @ ?Z" "sa_vfs a"] by (simp add: p d)
  have 4: "take_option True ''client'' ([script] @ ?T @ ?Y @ ?Q @ ?Z) = (None, [script] @ ?T @ ?Y @ ?Q @ ?Z)"
    using absent [of "''client''" "[script] @ ?T @ ?Y @ ?Q @ ?Z" True] by (simp add: p d)
  have 5: "take_option True ''errlog'' ([script] @ ?T @ ?Y @ ?Q @ ?Z) = (None, [script] @ ?T @ ?Y @ ?Q @ ?Z)"
    using absent [of "''errlog''" "[script] @ ?T @ ?Y @ ?Q @ ?Z" True] by (simp add: p d)
  have 6: "take_option True ''log'' ([script] @ ?T @ ?Y @ ?Q @ ?Z) = (None, [script] @ ?T @ ?Y @ ?Q @ ?Z)"
    using absent [of "''log''" "[script] @ ?T @ ?Y @ ?Q @ ?Z" True] by (simp add: p d)
  have 7: "take_option True ''trace'' ([script] @ ?T @ ?Y @ ?Q @ ?Z) = (map_option int_str (sa_trace a), [script] @ ?Y @ ?Q @ ?Z)"
    using take_arg [of "''trace''" "[script]" "?Y @ ?Q @ ?Z" "map_option int_str (sa_trace a)"] by (simp add: p d)
  have 8: "take_option False ''quiet'' ([script] @ ?Y @ ?Q @ ?Z) = (if sa_quiet a then Some ''--quiet'' else None, [script] @ ?Y @ ?Q)"
    using take_flag [of "''quiet''" "[script] @ ?Y @ ?Q" "[]" "sa_quiet a"] by (simp add: p d)
  have 9: "take_option True ''timeout'' ([script] @ ?Y @ ?Q) = (None, [script] @ ?Y @ ?Q)"
    using absent [of "''timeout''" "[script] @ ?Y @ ?Q" True] by (simp add: p d)
  have 10: "take_option False ''sqltrace'' ([script] @ ?Y @ ?Q) = (if sa_sqltrace a then Some ''--sqltrace'' else None, [script] @ ?Y)"
    using take_flag [of "''sqltrace''" "[script] @ ?Y" "[]" "sa_sqltrace a"] by (simp add: p d)
  have 11: "take_option False ''sync'' ([script] @ ?Y) = (if sa_sync a then Some ''--sync'' else None, [script])"
    using take_flag [of "''sync''" "[script]" "[]" "sa_sync a"] by (simp add: p d)
  have "tl (command_line a db script) = [script] @ ?J @ ?V @ ?R @ ?T @ ?Y @ ?Q @ ?Z" by (simp add: command_line_def)
  then show ?thesis using main_optionsI [OF 1 2 3 4 5 6 7 8 9 10 11] by simp
qed

lemma client_options:
  assumes "\<And>x. vfs s = Some x \<Longrightarrow> plain x"
  shows "main_options (drop 2 (client_args s i)) =
    \<lparr>mo_jmode = None, mo_rep = 1, mo_vfs = vfs s, mo_client = Some (int_str i), mo_errlog = None, mo_log = None,
     mo_trace = to_i32 (atoi (int_str (i_trace s))), mo_timeout = None, mo_sqltrace = sql_trace s, mo_sync = b_sync s, mo_rest = []\<rparr>"
proof -
  let ?C = "opt_arg ''client'' (Some (int_str i))" and ?T = "opt_arg ''trace'' (Some (int_str (i_trace s)))"
  let ?Q = "opt_flag ''sqltrace'' (sql_trace s)" and ?Y = "opt_flag ''sync'' (b_sync s)" and ?V = "opt_arg ''vfs'' (vfs s)"
  note p = passes_values [OF assms] passes_int [of _ _ "Some z" for z, simplified] passes_flag
  have d: "\<not> is_digit CHR ''j''" "\<not> is_digit CHR ''r''" "\<not> is_digit CHR ''v''" "\<not> is_digit CHR ''c''" "\<not> is_digit CHR ''e''"
    "\<not> is_digit CHR ''l''" "\<not> is_digit CHR ''t''" "\<not> is_digit CHR ''q''" "\<not> is_digit CHR ''s''"
    by (simp_all add: is_digit_def ord_def)
  have 1: "take_option True ''journalmode'' (?C @ ?T @ ?Q @ ?Y @ ?V) = (None, ?C @ ?T @ ?Q @ ?Y @ ?V)"
    using absent [of "''journalmode''" "?C @ ?T @ ?Q @ ?Y @ ?V" True] by (simp add: p d)
  have 2: "take_option True ''repeat'' (?C @ ?T @ ?Q @ ?Y @ ?V) = (None, ?C @ ?T @ ?Q @ ?Y @ ?V)"
    using absent [of "''repeat''" "?C @ ?T @ ?Q @ ?Y @ ?V" True] by (simp add: p d)
  have 3: "take_option True ''vfs'' (?C @ ?T @ ?Q @ ?Y @ ?V) = (vfs s, ?C @ ?T @ ?Q @ ?Y)"
    using take_arg [of "''vfs''" "?C @ ?T @ ?Q @ ?Y" "[]" "vfs s"] by (simp add: p d)
  have 4: "take_option True ''client'' (?C @ ?T @ ?Q @ ?Y) = (Some (int_str i), ?T @ ?Q @ ?Y)"
    using take_arg [of "''client''" "[]" "?T @ ?Q @ ?Y" "Some (int_str i)"] by (simp add: p d)
  have 5: "take_option True ''errlog'' (?T @ ?Q @ ?Y) = (None, ?T @ ?Q @ ?Y)"
    using absent [of "''errlog''" "?T @ ?Q @ ?Y" True] by (simp add: p d)
  have 6: "take_option True ''log'' (?T @ ?Q @ ?Y) = (None, ?T @ ?Q @ ?Y)"
    using absent [of "''log''" "?T @ ?Q @ ?Y" True] by (simp add: p d)
  have 7: "take_option True ''trace'' (?T @ ?Q @ ?Y) = (Some (int_str (i_trace s)), ?Q @ ?Y)"
    using take_arg [of "''trace''" "[]" "?Q @ ?Y" "Some (int_str (i_trace s))"] by (simp add: p d)
  have 8: "take_option False ''quiet'' (?Q @ ?Y) = (None, ?Q @ ?Y)"
    using absent [of "''quiet''" "?Q @ ?Y" False] by (simp add: p d)
  have 9: "take_option True ''timeout'' (?Q @ ?Y) = (None, ?Q @ ?Y)"
    using absent [of "''timeout''" "?Q @ ?Y" True] by (simp add: p d)
  have 10: "take_option False ''sqltrace'' (?Q @ ?Y) = (if sql_trace s then Some ''--sqltrace'' else None, ?Y)"
    using take_flag [of "''sqltrace''" "[]" "?Y" "sql_trace s"] by (simp add: p d)
  have 11: "take_option False ''sync'' (?Y) = (if b_sync s then Some ''--sync'' else None, [])"
    using take_flag [of "''sync''" "[]" "[]" "b_sync s"] by (simp add: p d)
  have "drop 2 (client_args s i) = ?C @ ?T @ ?Q @ ?Y @ ?V" by (simp add: client_args_form)
  then show ?thesis using main_optionsI [OF 1 2 3 4 5 6 7 8 9 10 11] by (simp add: rep_count_def trace_level_def)
qed

lemma rep_count_dec: "n < 2 ^ 32 \<Longrightarrow> rep_count (Some (dec_str n)) = max n 1"
proof -
  assume n: "n < 2 ^ 32"
  then have "max n 1 < 2 ^ 32" by simp
  moreover have "max (int n) 1 = int (max n 1)" by simp
  ultimately show ?thesis using atoi_dec [of n] n by (simp only: rep_count_def option.case nat_int) simp
qed

text \<open>
  C15: The options of the subcommand reach every process of a run. The master that it starts for a script reads its
  command line as the same journal mode, repetitions, file-system layer and flags and has the script as its only
  argument; and a client that is started from a state with the settings of the master reads its own number, and the
  layer, flags and trace level that were asked for.
\<close>

theorem options_reach_every_process:
  assumes "plain script" "\<And>x. sa_jmode a = Some x \<Longrightarrow> plain x" "\<And>x. sa_vfs a = Some x \<Longrightarrow> plain x"
    "\<And>t. sa_trace a = Some t \<Longrightarrow> - (2 ^ 31) \<le> t \<and> t < 2 ^ 31" "\<And>n. sa_repeat a = Some n \<Longrightarrow> n < 2 ^ 32"
    "opts = main_options (tl (command_line a db script))" "same_settings (start_state opts db e) s" "0 < i" "i < 2 ^ 63"
    "c = main_options (drop 2 (client_args s i))"
  shows "mo_jmode opts = sa_jmode a \<and> mo_vfs opts = sa_vfs a \<and> mo_sync opts = sa_sync a \<and> mo_sqltrace opts = sa_sqltrace a \<and>
      mo_rep opts = (case sa_repeat a of None \<Rightarrow> 1 | Some n \<Rightarrow> max n 1) \<and> mo_client opts = None \<and> mo_rest opts = [script] \<and>
      mo_trace opts = (if sa_quiet a then 0 else case sa_trace a of None \<Rightarrow> 1 | Some t \<Rightarrow> t) \<and>
    map_option atoi (mo_client c) = Some i \<and> mo_rest c = [] \<and> mo_vfs c = sa_vfs a \<and> mo_sync c = sa_sync a \<and>
      mo_sqltrace c = sa_sqltrace a \<and> mo_trace c = mo_trace opts \<and> client_args s i ! 1 = db"
proof -
  let ?t = "if sa_quiet a then 0 else case sa_trace a of None \<Rightarrow> 1 | Some t \<Rightarrow> t"
  have o: "opts = \<lparr>mo_jmode = sa_jmode a, mo_rep = rep_count (map_option dec_str (sa_repeat a)), mo_vfs = sa_vfs a, mo_client = None,
     mo_errlog = None, mo_log = None, mo_trace = trace_level (map_option int_str (sa_trace a)) (if sa_quiet a then Some ''--quiet'' else None),
     mo_timeout = None, mo_sqltrace = sa_sqltrace a, mo_sync = sa_sync a, mo_rest = [script]\<rparr>"
    unfolding assms(6) using assms(1-3) by (rule suite_options)
  have range: "- (2 ^ 31) \<le> ?t \<and> ?t < 2 ^ 31" using assms(4) by (auto split: option.splits)
  have small: "to_i32 (atoi (int_str t)) = t" if "- (2 ^ 31) \<le> t \<and> t < 2 ^ 31" for t
    using that by (simp add: atoi_int to_i32_id)
  have t: "mo_trace opts = ?t" using small assms(4) by (auto simp: o trace_level_def split: option.splits)
  have rep: "mo_rep opts = (case sa_repeat a of None \<Rightarrow> 1 | Some n \<Rightarrow> max n 1)"
    using rep_count_dec assms(5) by (cases "sa_repeat a") (simp_all add: o rep_count_def)
  have s: "i_trace s = ?t" "sql_trace s = sa_sqltrace a" "b_sync s = sa_sync a" "vfs s = sa_vfs a" "db_file s = db"
    using assms(7) t by (auto simp: same_settings_def start_state_def o)
  have c: "c = \<lparr>mo_jmode = None, mo_rep = 1, mo_vfs = vfs s, mo_client = Some (int_str i), mo_errlog = None, mo_log = None,
     mo_trace = to_i32 (atoi (int_str (i_trace s))), mo_timeout = None, mo_sqltrace = sql_trace s, mo_sync = b_sync s, mo_rest = []\<rparr>"
    unfolding assms(10) using assms(3) s(4) by (intro client_options) simp
  have "mo_jmode opts = sa_jmode a" "mo_vfs opts = sa_vfs a" "mo_sync opts = sa_sync a" "mo_sqltrace opts = sa_sqltrace a"
    "mo_client opts = None" "mo_rest opts = [script]" by (simp_all add: o)
  moreover have "map_option atoi (mo_client c) = Some i" using assms(8,9) by (simp add: c atoi_int)
  moreover have "mo_rest c = []" "mo_vfs c = sa_vfs a" "mo_sync c = sa_sync a" "mo_sqltrace c = sa_sqltrace a" by (simp_all add: c s)
  moreover have "mo_trace c = mo_trace opts" using small [OF range] unfolding c t s(1) main_opts.simps .
  moreover have "client_args s i ! 1 = db" by (simp add: client_args_form s)
  ultimately show ?thesis using t rep by blast
qed

definition all_options :: suite_args where
  "all_options = \<lparr>sa_script = [''config01''], sa_filter = [], sa_repeat = Some 2, sa_jmode = Some ''WAL'', sa_vfs = Some ''unix-excl'',
     sa_sync = True, sa_sqltrace = True, sa_quiet = False, sa_trace = Some (- 1)\<rparr>"

lemma options_reach_every_process_witness:
  "mo_trace (main_options (drop 2 (client_args (start_state (main_options (tl (command_line all_options ''d'' ''config01.test''))) ''d'' (0 :: nat)) 3))) = - 1 \<and>
   mo_rep (main_options (tl (command_line all_options ''d'' ''config01.test''))) = 2"
proof -
  let ?o = "main_options (tl (command_line all_options ''d'' ''config01.test''))"
  have "same_settings (start_state ?o ''d'' (0 :: nat)) (start_state ?o ''d'' 0)" by (simp add: same_settings_def)
  from options_reach_every_process [OF _ _ _ _ _ refl this _ _ refl, of 3]
  show ?thesis by (simp add: all_options_def starts_with_def)
qed

section \<open>Selected scripts\<close>

lemma script_tails: "list_all (\<lambda>r. filename_tail r = r) SCRIPTS" "distinct (map script_stem SCRIPTS)"
  by code_simp+

lemma resolve_scripts_sound:
  "resolve_scripts is_file ss out = Inr out' \<Longrightarrow> distinct out \<Longrightarrow> \<forall>s\<in>set out. s \<in> set SCRIPTS \<or> is_file s \<Longrightarrow>
   distinct out' \<and> (\<forall>s\<in>set out'. s \<in> set SCRIPTS \<or> is_file s)"
proof (induction ss arbitrary: out)
  case (Cons s ss)
  have d: "distinct (push_new x out)" and p: "set (push_new x out) = insert x (set out)" for x
    using Cons.prems(2) by (auto simp: push_new_def)
  show ?case
  proof (cases "candidate s \<in> set SCRIPTS")
    case True
    with Cons.prems(1) have "resolve_scripts is_file ss (push_new (candidate s) out) = Inr out'" by simp
    then show ?thesis using d by (rule Cons.IH) (use Cons.prems(3) p True in auto)
  next
    case False
    then have f: "is_file s" "resolve_scripts is_file ss (push_new s out) = Inr out'" using Cons.prems(1) by (auto split: if_splits)
    show ?thesis using f(2) d by (rule Cons.IH) (use Cons.prems(3) p f(1) in auto)
  qed
qed auto

lemma resolve_selection_sound:
  "resolve_selection is_file a = Inr out \<Longrightarrow> out \<noteq> [] \<and> distinct out \<and> (\<forall>s\<in>set out. s \<in> set SCRIPTS \<or> is_file s)"
proof -
  assume r: "resolve_selection is_file a = Inr out"
  then obtain all where a: "resolve_scripts is_file (sa_script a) [] = Inr all" by (auto simp: resolve_selection_def split: sum.splits)
  have "distinct all \<and> (\<forall>s\<in>set all. s \<in> set SCRIPTS \<or> is_file s)" by (rule resolve_scripts_sound [OF a]) simp_all
  moreover have "out \<noteq> []" "out = all \<or> out = filter (\<lambda>s. \<exists>f\<in>set (sa_filter a). contains s f) all"
    using r a by (auto simp: resolve_selection_def Let_def split: if_splits)
  ultimately show ?thesis by auto
qed

text \<open>
  Every script that the subcommand selects is found by the master it is given to: embedded scripts under their
  own name, files by their path. No script is selected twice, and embedded scripts work in directories of their own.
\<close>

theorem selected_scripts_load:
  assumes "resolve_selection (e_is_file E) a = Inr out" "\<And>n. e_script E n \<noteq> None \<longleftrightarrow> n \<in> set SCRIPTS"
    "\<And>r. e_is_file E r \<Longrightarrow> e_read E r \<noteq> None"
  shows "out \<noteq> [] \<and> distinct out \<and> distinct (map script_stem (filter (\<lambda>r. r \<in> set SCRIPTS) out)) \<and>
    (\<forall>r\<in>set out. \<exists>name body. load_script_reference E r = Inr (name, body) \<and> (r \<in> set SCRIPTS \<longrightarrow> name = r \<and> e_script E r = Some body))"
proof -
  have o: "out \<noteq> []" "distinct out" "\<forall>s\<in>set out. s \<in> set SCRIPTS \<or> e_is_file E s" using resolve_selection_sound [OF assms(1)] by auto
  have "inj_on script_stem (set SCRIPTS)" using script_tails(2) by (simp only: distinct_map)
  then have "inj_on script_stem (set (filter (\<lambda>r. r \<in> set SCRIPTS) out))" by (rule inj_on_subset) auto
  then have stems: "distinct (map script_stem (filter (\<lambda>r. r \<in> set SCRIPTS) out))" using o(2) by (simp add: distinct_map)
  have "\<exists>name body. load_script_reference E r = Inr (name, body) \<and> (r \<in> set SCRIPTS \<longrightarrow> name = r \<and> e_script E r = Some body)"
    if "r \<in> set out" for r
  proof (cases "r \<in> set SCRIPTS")
    case True
    then have "filename_tail r = r" using script_tails(1) by (simp only: list_all_iff)
    moreover obtain b where "e_script E r = Some b" using assms(2) [of r] True by auto
    ultimately show ?thesis by (simp add: load_script_reference_def)
  next
    case False
    then have "e_is_file E r" using o(3) that by blast
    then obtain b where "e_is_file E r" "e_read E r = Some b" using assms(3) [of r] by auto
    then show ?thesis using False by (cases "e_script E (filename_tail r)") (simp_all add: load_script_reference_def)
  qed
  then show ?thesis using o(1,2) stems by blast
qed

text \<open>A file whose name ends like an embedded script is never read: the embedded script runs in its place.\<close>

lemma embedded_shadows_file:
  "e_script E (filename_tail r) = Some body \<Longrightarrow> load_script_reference E r = Inr (filename_tail r, body)"
  by (simp add: load_script_reference_def)

text \<open>An engine that accepts every statement and holds an empty script under every name.\<close>

definition still_engine :: "unit engine" where
  "still_engine = \<lparr>e_exec = \<lambda>r e q. (e, \<lparr>x_rc = SQLITE_OK, x_cells = [], x_err = None, x_events = []\<rparr>),
      e_query_int = \<lambda>r e q. (e, None, []), e_query_task = \<lambda>r e q. (e, None, []), e_prepare = \<lambda>e q. True,
      e_step = \<lambda>r e q. (e, SQLITE_DONE, []), e_changes = \<lambda>e. 0, e_errmsg = \<lambda>e. [], e_sleep = \<lambda>n e. e,
      e_spawn = \<lambda>e a. (e, None), e_script = \<lambda>f. Some [], e_is_file = \<lambda>f. False, e_read = \<lambda>f. None\<rparr>"

definition embedding :: "unit engine" where
  "embedding = still_engine\<lparr>e_script := \<lambda>f. if f \<in> set SCRIPTS then Some [] else None, e_is_file := \<lambda>f. f = ''/x'',
     e_read := \<lambda>f. Some []\<rparr>"

lemma sample_selection: "resolve_selection (e_is_file embedding) (all_options\<lparr>sa_script := [''config01'', ''/x'', ''config01.test'']\<rparr>) =
    Inr [''config01.test'', ''/x'']"
  by code_simp

lemma selected_scripts_load_witness:
  "\<exists>name body. load_script_reference embedding ''config01.test'' = Inr (name, body) \<and> name = ''config01.test''"
proof -
  have "''config01.test'' \<in> set SCRIPTS" by (simp add: SCRIPTS_def)
  then show ?thesis using selected_scripts_load [OF sample_selection] by (force simp: embedding_def still_engine_def)
qed

section \<open>Clients without work\<close>

text \<open>An engine that is never busy at the two statements that are repeated without a limit.\<close>

definition never_locked :: "'e engine \<Rightarrow> bool" where
  "never_locked E \<longleftrightarrow> (\<forall>r e q. q \<in> {''BEGIN IMMEDIATE'', ''COMMIT''} \<longrightarrow> x_rc (snd (e_exec E r e q)) \<noteq> SQLITE_BUSY)"

text \<open>No request to halt, and no task.\<close>

definition no_work :: "'e engine \<Rightarrow> bool" where
  "no_work E \<longleftrightarrow> (\<forall>r e q. fst (snd (e_query_int E r e q)) = None \<and> fst (snd (e_query_task E r e q)) = None)"

lemma begin_commit_not_busy:
  assumes "never_locked E" "q \<in> {''BEGIN IMMEDIATE'', ''COMMIT''}" "try_sql E q s = (t, rc)"
  shows "rc \<noteq> SQLITE_BUSY"
proof -
  have q: "NUL \<notin> set q" using assms(2) by auto
  obtain e x where x: "e_exec E (retry s) (eng s) q = (e, x)" by fastforce
  have "rc = x_rc x" using assms(3) x by (simp add: try_sql_def exec_raw_no_NUL [OF q])
  moreover have "x_rc (snd (e_exec E (retry s) (eng s) q)) \<noteq> SQLITE_BUSY" using assms(1,2) unfolding never_locked_def by blast
  ultimately show ?thesis by (simp add: x)
qed

lemma commit_once: "never_locked E \<Longrightarrow> \<exists>u. commit_loop E t s = Some (u, t)"
  using begin_commit_not_busy [of E "''COMMIT''" s] by (subst commit_loop.simps) (auto split: prod.split)

lemma run_sql_ends: "(\<exists>t. run_sql E q s = Ok t) \<or> (\<exists>t. run_sql E q s = Exited 1 t)"
  by (auto simp: run_sql_def fatal_error_def Let_def split: prod.split)

lemma claim_run_sql:
  assumes "claim_run (run_sql E q s) f = Inr t" shows "\<exists>u. f u = Inr t"
  using assms run_sql_ends [of E q s] by (auto simp: claim_run_def)

lemma claim_poll_waits: "claim_poll E i t s = Inr u \<Longrightarrow> t \<le> 30000"
  by (auto simp: claim_poll_def Let_def split: if_splits prod.splits option.splits dest!: claim_run_sql)

lemma claim_round_waits: "claim_round E i t s = Inr u \<Longrightarrow> t \<le> 30000"
  using claim_poll_waits by (auto simp: claim_round_def claim_run_def split: res.splits)

lemma give_up_exits: "claim_run (run_sql E q s) (\<lambda>s. Inl (ClaimExit 1 s)) = Inl c \<Longrightarrow> \<exists>u. c = ClaimExit 1 u"
  using run_sql_ends [of E q s] by (auto simp: claim_run_def)

lemma idle_poll_exits: "no_work E \<Longrightarrow> claim_poll E i t s = Inl c \<Longrightarrow> \<exists>u. c = ClaimExit 1 u"
proof -
  assume n: "no_work E" and p: "claim_poll E i t s = Inl c"
  obtain e1 h ev1 where 1: "e_query_int E (retry s) (eng s) (''SELECT 1 FROM client WHERE id='' @ int_str i @ '' AND wantHalt'') = (e1, h, ev1)"
    by (rule prod_cases3)
  define u where "u = on_events ev1 (s\<lparr>eng := e1\<rparr>)"
  obtain e2 k ev2 where 2: "e_query_task E (retry u) (eng u) (''SELECT script, id, name FROM task WHERE client='' @ int_str i
      @ '' AND starttime IS NULL ORDER BY id LIMIT 1'') = (e2, k, ev2)" by (rule prod_cases3)
  have "h = None" "k = None" using n 1 2 unfolding no_work_def by (metis fst_conv snd_conv)+
  then show ?thesis using p give_up_exits unfolding claim_poll_def 1 Let_def prod.case u_def [symmetric] 2 by (auto split: if_splits)
qed

lemma idle_round_exits: "no_work E \<Longrightarrow> claim_round E i t s = Inl c \<Longrightarrow> \<exists>u. c = ClaimExit 1 u"
proof -
  assume n: "no_work E" and c: "claim_round E i t s = Inl c"
  have "(\<exists>v. flush_counters E s = Ok v) \<or> (\<exists>v. flush_counters E s = Exited 1 v)"
    using run_sql_ends by (auto simp: flush_counters_def Let_def)
  then show ?thesis using c idle_poll_exits [OF n] by (auto simp: claim_round_def claim_run_def)
qed

text \<open>
  A client never waits for ever on an engine that lets it begin and commit: its claim of a task returns, after at
  most 30 seconds of waiting in between; and when there is no work for it and no request to halt, it exits with code 1.
\<close>

theorem client_claim_returns:
  assumes "never_locked E"
  shows "\<exists>c. start_script E i s = Some c \<and> (no_work E \<longrightarrow> (\<exists>u. c = ClaimExit 1 u))"
proof -
  have "\<exists>c. start_loop E i t s = Some c \<and> (no_work E \<longrightarrow> (\<exists>u. c = ClaimExit 1 u))" for t s
  proof (induction "nat (30100 - t)" arbitrary: t s rule: less_induct)
    case less
    obtain u rc where u: "try_sql E ''BEGIN IMMEDIATE'' s = (u, rc)" by fastforce
    have b: "rc \<noteq> SQLITE_BUSY" using begin_commit_not_busy [OF assms _ u] by simp
    show ?case
    proof (cases "rc = SQLITE_OK")
      case False
      then show ?thesis using u b by (subst start_loop.simps) (auto simp: fatal_error_def Let_def)
    next
      case True
      show ?thesis
      proof (cases "claim_round E i t u")
        case (Inl c)
        then have "start_loop E i t s = Some c" using u b True by (subst start_loop.simps) simp
        then show ?thesis using idle_round_exits [OF _ Inl] by blast
      next
        case (Inr v)
        obtain w where w: "commit_loop E t v = Some (w, t)" using commit_once [OF assms] by blast
        have "start_loop E i t s = start_loop E i (t + 100) (sqlite_sleep E 100 w)"
          using u b True Inr w by (subst start_loop.simps) simp
        moreover have "nat (30100 - (t + 100)) < nat (30100 - t)" using claim_round_waits [OF Inr] by simp
        ultimately show ?thesis using less.hyps by simp
      qed
    qed
  qed
  then show ?thesis unfolding start_script_def .
qed

lemma client_claim_returns_witness: "\<exists>u. start_script embedding 1 (start_state (main_options []) ''d'' ()) = Some (ClaimExit 1 u)"
proof -
  have "never_locked embedding" "no_work embedding"
    by (simp_all add: never_locked_def no_work_def embedding_def still_engine_def SQLITE_OK_def SQLITE_BUSY_def)
  then show ?thesis using client_claim_returns [of embedding 1] by blast
qed

end
