(* ===== verification/Mptest_Verdict.thy ===== *)
theory Mptest_Verdict
  imports Mptest_Suite_Properties
begin

text \<open>
  The verdict of the subcommand sqlite on a script is that of the master it started: what a master does before it
  reads the shared counters keeps every relation of \<open>process_relation\<close>, and the summary that it prints is read back
  whatever its clients print in between.
\<close>

section \<open>What a master keeps\<close>

context process_relation
begin

lemma keeps_traced [simp]: "keeps s t \<Longrightarrow> keeps s (traced m t)"
  by (simp add: traced_def)

lemma keeps_cycles [simp]: "keeps_res s (cycles E depth name body is' s)"
proof (induction is' arbitrary: s)
  case (Cons i is')
  let ?s = "traced (''begin script ['' @ name @ ''] cycle '' @ dec_str i) s"
  have "keeps_res ?s (and_then (run_script E depth 0 0 body name ?s)
      (\<lambda>s. cycles E depth name body is' (traced (''end script ['' @ name @ ''] cycle '' @ dec_str i) s)))"
    by (rule keeps_and_then [OF keeps_run_script]) (rule keeps_res_trans [OF _ Cons.IH], simp)
  then show ?case by (simp add: keeps_res_trans [of s ?s])
qed simp

lemma keeps_drain [simp]: "keeps s (drain_loop E n s)"
proof (induction E n s rule: drain_loop.induct)
  case (1 E n s)
  obtain t rc where t: "try_sql E ''SELECT 1 FROM client'' s = (t, rc)" by fastforce
  have k: "keeps s t" using keeps_try_sql [OF t] .
  have "keeps t (drain_loop E (n - 10) (sqlite_sleep E 10 t))" if "rc = SQLITE_BUSY \<or> rc = SQLITE_ROW" "0 < n - 10"
    by (rule keeps_trans [OF keeps_sleep "1.IH" [OF t [symmetric] that(1) refl that(2)]]) simp
  then show ?case using k keeps_trans by (subst drain_loop.simps) (auto simp: t Let_def)
qed

lemma keeps_shut_down [simp]: "keeps_res s (shut_down E s)"
  unfolding shut_down_def
proof (rule keeps_and_then [OF keeps_wait_for_client])
  fix t
  obtain u rc where u: "try_sql E ''UPDATE client SET wantHalt=1'' t = (u, rc)" by fastforce
  have "keeps t ((sqlite_sleep E 10 u)\<lparr>i_timeout := 0\<rparr>)" using keeps_try_sql [OF u] by simp
  then have "keeps t (drain_loop E 1000 ((sqlite_sleep E 10 u)\<lparr>i_timeout := 0\<rparr>))" by (rule keeps_trans) simp
  then show "keeps_res t (let s = fst (try_sql E ''UPDATE client SET wantHalt=1'' t);
      s = (sqlite_sleep E 10 s)\<lparr>i_timeout := 0\<rparr> in Ok (sqlite_sleep E 100 (drain_loop E 1000 s)))"
    by (simp add: u Let_def)
qed

lemma keeps_master_scripts [simp]: "keeps_res s (master_scripts E depth n rest s)"
proof (cases rest)
  case (Cons r more_args)
  have "keeps_res t (case load_script_reference E r of Inl m \<Rightarrow> fatal_error E False m t
      | Inr (name, body) \<Rightarrow> and_then (cycles E depth name body [1..<Suc n] t) (shut_down E))" for t
    by (auto intro: keeps_and_then split: sum.split)
  then show ?thesis by (auto simp: master_scripts_def Cons intro: keeps_and_then)
qed (simp add: master_scripts_def)

lemma keeps_count_loop: "count_loop E rc n s = (s', rc') \<Longrightarrow> keeps s s'"
proof (induction E rc n s arbitrary: s' rc' rule: count_loop.induct)
  case (1 E rc n s)
  obtain e rc1 evs where st: "e_step E (retry (sqlite_sleep E 10 s)) (eng (sqlite_sleep E 10 s)) counters_sql = (e, rc1, evs)"
    by (rule prod_cases3)
  show ?case
  proof (cases "rc = SQLITE_BUSY \<and> 0 < n")
    case True
    let ?u = "on_events evs ((sqlite_sleep E 10 s)\<lparr>eng := e\<rparr>)"
    have "count_loop E rc1 (n - 10) ?u = (s', rc')" using "1.prems" True st by (subst (asm) count_loop.simps) simp
    from "1.IH" [OF True refl refl st [symmetric] refl this] have "keeps ?u s'" .
    then show ?thesis by (rule keeps_trans [rotated]) simp
  next
    case False
    with "1.prems" show ?thesis by (subst (asm) count_loop.simps) auto
  qed
qed

lemma keeps_fetch: "fetch_counters E s = (s', found) \<Longrightarrow> keeps s s'"
proof -
  assume f: "fetch_counters E s = (s', found)"
  obtain e rc evs where st: "e_step E (retry s) (eng s) counters_sql = (e, rc, evs)" by (rule prod_cases3)
  obtain u rc1 where c: "count_loop E rc 1000 (on_events evs (s\<lparr>eng := e\<rparr>)) = (u, rc1)" by fastforce
  have "keeps s u" by (rule keeps_trans [OF _ keeps_count_loop [OF c]]) simp
  then show ?thesis using f by (auto simp: fetch_counters_def st c split: if_splits)
qed

lemma keeps_unlink: "unlink_loop E M n out s = (s', n', out') \<Longrightarrow> keeps s s'"
proof (induction E M n out s arbitrary: s' n' out' rule: unlink_loop.induct)
  case (1 E M n out s)
  obtain e gone where g: "mc_remove M (eng s) (db_file s) = (e, gone)" by fastforce
  show ?case
  proof (cases "gone \<or> 60 \<le> n + 1")
    case True
    with "1.prems" g show ?thesis by (subst (asm) unlink_loop.simps) (auto simp: Let_def split: if_splits)
  next
    case False
    let ?out = "out @ unlink_notes n s"
    let ?u = "sqlite_sleep E 1000 (s\<lparr>eng := e\<rparr>)"
    have "unlink_loop E M (n + 1) ?out ?u = (s', n', out')"
      using "1.prems" False g by (subst (asm) unlink_loop.simps) (simp add: Let_def)
    then have "keeps ?u s'" using "1.IH" [OF refl g [symmetric] refl] False by blast
    then show ?thesis by (rule keeps_trans [rotated]) simp
  qed
qed

lemma keeps_set_up [simp]: "keeps_res s (set_up E M opts b s)"
proof -
  have o: "keeps_res t (open_connection M E b t)" for t
  proof -
    obtain e m where m: "mc_open M (eng t) (db_file t) (vfs t) b = (e, m)" by fastforce
    have "keeps_res t (fatal_error E False x (t\<lparr>eng := e\<rparr>))" for x by (rule keeps_res_trans [OF _ keeps_fatal]) simp
    then show ?thesis by (simp add: open_connection_def m split: option.split)
  qed
  have y: "keeps t ((fst (try_sql B q t))\<lparr>i_timeout := n\<rparr>)" for t B q n
    using keeps_try_sql [of B q t] by (cases "try_sql B q t") simp
  show ?thesis unfolding set_up_def Let_def
    by (intro keeps_and_then o) (auto split: option.split intro: y)
qed

end

section \<open>The lines of a master\<close>

abbreviation is_summary :: "string \<Rightarrow> bool" where
  "is_summary \<equiv> starts_with ''Summary: ''"

lemma lines_of_text: "(\<And>l. l \<in> set ls \<Longrightarrow> LF \<notin> set l) \<Longrightarrow> lines (text_of ls) = map strip_cr ls"
  using split_on_ended [of ls LF] by (simp add: lines_def text_of_def)

lemma strip_cr_summary: "is_summary (strip_cr l) \<Longrightarrow> is_summary l"
  by (cases l rule: rev_cases) (auto simp: strip_cr_def starts_with_iff split: if_splits)

text \<open>A line that is not taken for the summary.\<close>

definition other_line :: "string \<Rightarrow> bool" where
  "other_line l \<longleftrightarrow> \<not> is_summary l \<and> LF \<notin> set l"

lemma unlink_lines:
  "unlink_loop E M n out s = (s', n', out') \<Longrightarrow> LF \<notin> set (db_file s) \<Longrightarrow> \<forall>l\<in>set out. other_line l \<Longrightarrow> \<forall>l\<in>set out'. other_line l"
proof (induction E M n out s arbitrary: s' n' out' rule: unlink_loop.induct)
  case (1 E M n out s)
  obtain e gone where g: "mc_remove M (eng s) (db_file s) = (e, gone)" by fastforce
  let ?out = "out @ unlink_notes n s"
  have o: "\<forall>l\<in>set ?out. other_line l" using "1.prems"(2,3) by (auto simp: unlink_notes_def other_line_def starts_with_def)
  show ?case
  proof (cases "gone \<or> 60 \<le> n + 1")
    case True
    then have "out' = ?out" using "1.prems"(1) g by (subst (asm) unlink_loop.simps) (auto simp: Let_def split: if_splits)
    then show ?thesis using o by simp
  next
    case False
    let ?u = "sqlite_sleep E 1000 (s\<lparr>eng := e\<rparr>)"
    have "unlink_loop E M (n + 1) ?out ?u = (s', n', out')"
      using "1.prems"(1) False g by (subst (asm) unlink_loop.simps) (simp add: Let_def)
    moreover have "LF \<notin> set (db_file ?u)" using "1.prems"(2) by (simp add: sqlite_sleep_def)
    ultimately show ?thesis using "1.IH" [OF refl g [symmetric] refl] False o by blast
  qed
qed

lemma message_other: "l \<in> set (message_lines ''mptest'' m) \<Longrightarrow> other_line l"
  using split_on_no_sep by (cases m) (auto simp: print_with_prefix_def other_line_def starts_with_def)

section \<open>The end of a master\<close>

lemma and_then_Ok: "and_then r f = Ok s \<longleftrightarrow> (\<exists>t. r = Ok t \<and> f t = Ok s)"
  by (cases r) (simp_all add: and_then_def)

lemma run_master_Ok:
  assumes "and_then (set_up E M opts True s0) (run_master E M depth n rest) = Ok s"
  shows "\<exists>u found. accounted s0 u \<and> s = add_counters M (u, found)"
proof -
  obtain t v where t: "set_up E M opts True s0 = Ok t" "master_scripts E depth n rest t = Ok v"
    and s: "s = add_counters M (fetch_counters E v)"
    using assms by (auto simp: and_then_Ok run_master_def)
  obtain u found where u: "fetch_counters E v = (u, found)" by fastforce
  have "accounted s0 t" "accounted t v" using accounting.keeps_set_up [of s0 E M opts True] accounting.keeps_master_scripts [of t E depth n rest] t
    by simp_all
  then have "accounted s0 u" using accounting.keeps_fetch [OF u] accounting.keeps_trans by blast
  then show ?thesis using s unfolding u by blast
qed

lemma add_counters_errs: "errs (add_counters M (u, found)) = errs u"
  by (simp add: add_counters_def errs_def)

text \<open>A master without an error in the end has written none, and its clients have counted none.\<close>

lemma no_error_clean:
  assumes "accounted s0 u" "s = add_counters M (u, found)" "n_error s = 0" "n_error s0 = 0" "errs s0 = 0" "errs s < 2 ^ 63"
    "0 \<le> fst (mc_counts M (eng u))" "fst (mc_counts M (eng u)) < 2 ^ 31"
  shows "errs s = 0"
proof -
  have e: "n_error u = errs u" "errs u = errs s" using assms(1,2,4,5) by (simp_all add: accounted_def add_counters_errs)
  show ?thesis
  proof (cases found)
    case True
    let ?c = "nat (fst (mc_counts M (eng u)) mod 2 ^ 64)"
    have "?c \<le> 2 ^ 31" using assms(7,8) by (simp add: nat_le_iff)
    then have "n_error u + ?c < 2 ^ 64" using e assms(6) by simp
    then have "n_error s = n_error u + ?c" using True assms(2) by (simp add: add_counters_def)
    then show ?thesis using e(1) assms(3) unfolding e(2) [symmetric] by simp
  next
    case False
    then have "s = u" using assms(2) by (simp add: add_counters_def)
    then show ?thesis using e(1) assms(3) by simp
  qed
qed

lemma summary_other: "LF \<notin> set (with_args word M args) \<Longrightarrow> word = ''BEGIN: '' \<or> word = ''END: '' \<Longrightarrow> other_line (with_args word M args)"
  by (auto simp: other_line_def with_args_def starts_with_def)

lemma master_end:
  assumes "master_main E M depth args opts s0 = Ended code head s tail_lines"
    "LF \<notin> set (db_file s0)" "LF \<notin> set (mc_argv0 M)" "\<forall>a\<in>set args. LF \<notin> set a" "\<forall>l\<in>set (mc_about M). other_line l"
  shows "(\<forall>l\<in>set head. other_line l) \<and> (tail_lines = [] \<or>
    (code = exit_code s \<and> (\<exists>u found. accounted s0 u \<and> s = add_counters M (u, found)) \<and>
     (\<exists>l. tail_lines = [summary_line (n_error s) (n_test s), l] \<and> other_line l)))"
proof -
  let ?h = "if 0 < i_trace s0 then with_args ''BEGIN: '' M args # mc_about M else []"
  have noLF: "LF \<notin> set (with_args word M args)" if "LF \<notin> set word" for word
    using assms(3,4) that by (auto simp: with_args_def)
  have h: "\<forall>l\<in>set ?h. other_line l" using summary_other [OF noLF] assms(5) by auto
  obtain t n out where u: "unlink_loop E M 0 ?h s0 = (t, n, out)" by (rule prod_cases3)
  have out: "\<forall>l\<in>set out. other_line l" by (rule unlink_lines [OF u assms(2) h])
  define r where "r = (if mc_exists M (eng t) (db_file t)
      then fatal_error E False (''unable to unlink '' @ [TICK] @ db_file t @ [TICK] @ '' after '' @ dec_str n @ '' attempts'' @ [LF]) t
      else and_then (set_up E M opts True t) (run_master E M depth (mo_rep opts) (mo_rest opts)))"
  have e: "end_of out (\<lambda>s. [summary_line (n_error s) (n_test s), with_args ''END: '' M args]) r = Ended code head s tail_lines"
    using assms(1) u unfolding master_main_def r_def Let_def by simp
  show ?thesis
  proof (cases r)
    case (Ok v)
    have ok: "and_then (set_up E M opts True t) (run_master E M depth (mo_rep opts) (mo_rest opts)) = Ok v"
      using Ok by (auto simp: r_def fatal_error_def Let_def split: if_splits)
    obtain u' found where a: "accounted t u'" "v = add_counters M (u', found)" using run_master_Ok [OF ok] by blast
    have "accounted s0 t" using accounting.keeps_unlink [OF u] .
    then have "accounted s0 u'" using a(1) accounting.keeps_trans by blast
    moreover have "s = v" "head = out" "code = exit_code s"
      "tail_lines = [summary_line (n_error s) (n_test s), with_args ''END: '' M args]"
      using e Ok by (auto simp: end_of_def)
    ultimately show ?thesis using a(2) out summary_other [OF noLF, of "''END: ''"] by auto
  next
    case (Exited c v)
    then show ?thesis using e out by (auto simp: end_of_def)
  next
    case Panicked
    then show ?thesis using e by (simp add: end_of_def)
  qed
qed

section \<open>Reading the summary\<close>

definition summary_of :: "string \<Rightarrow> nat \<times> nat \<times> bool" where
  "summary_of l = (number_at (split_ws (drop 9 l)) 0, number_at (split_ws (drop 9 l)) 4, True)"

abbreviation figures :: "sq_parsed \<Rightarrow> nat \<times> nat \<times> bool" where
  "figures p \<equiv> (sq_errors p, sq_tests p, sq_summary p)"

lemma note_failure_figures [simp]:
  "sq_errors (note_failure place m p) = sq_errors p" "sq_tests (note_failure place m p) = sq_tests p"
  "sq_summary (note_failure place m p) = sq_summary p"
  by (simp_all add: note_failure_def)

lemma sq_line_figures: "figures (sq_line l p) = (if is_summary l then summary_of l else figures p)"
proof (cases "strip_prefix ''Summary: '' l")
  case None
  then have "\<not> is_summary l" by (simp add: strip_prefix_def split: if_splits)
  then show ?thesis using None by (auto simp: sq_line_def split: option.split)
next
  case (Some r)
  then have "is_summary l" "drop 9 l = r" by (auto simp: strip_prefix_def numeral_eq_Suc split: if_splits)
  then show ?thesis using Some by (simp add: sq_line_def summary_of_def Let_def)
qed

lemma fold_figures: "figures (fold sq_line ls p) = fold (\<lambda>l f. summary_of l) (filter is_summary ls) (figures p)"
  by (induction ls arbitrary: p) (use sq_line_figures in \<open>auto split: if_splits\<close>)

lemma number_token: "token (dec_str n)"
  using dec_nonempty dec_str_plain by blast

lemma summary_figures:
  assumes "ne < 2 ^ 64" "nt < 2 ^ 64"
  shows "summary_of (summary_line ne nt) = (ne, nt, True)"
proof -
  have t: "token ''errors''" "token ''out''" "token ''of''" "token ''tests''" by (simp_all add: is_ws_def)
  have "drop 9 (summary_line ne nt) = dec_str ne @ CHR '' '' # ''errors'' @ CHR '' '' # ''out'' @ CHR '' '' # ''of'' @ CHR '' '' #
      dec_str nt @ CHR '' '' # ''tests''"
    by (simp add: summary_line_def)
  then have "split_ws (drop 9 (summary_line ne nt)) = [dec_str ne, ''errors'', ''out'', ''of'', dec_str nt, ''tests'']"
    by (simp only: split_ws_cons [OF number_token] split_ws_cons [OF t(1)] split_ws_cons [OF t(2)] split_ws_cons [OF t(3)] split_ws_single [OF t(4)])
  then show ?thesis using assms by (simp add: summary_of_def number_at_def parse_u64_dec_str)
qed

lemma summary_line_is: "is_summary (summary_line ne nt)" "strip_cr (summary_line ne nt) = summary_line ne nt" "LF \<notin> set (summary_line ne nt)"
  using dec_str_plain by (auto simp: summary_line_def strip_cr_def starts_with_def)

lemma stdout_summaries:
  assumes "\<forall>l\<in>set head. other_line l" "tail_lines = [] \<or> (\<exists>l. tail_lines = [summary_line ne nt, l] \<and> other_line l)"
    "mo_client opts = None" "mo_log opts = None"
  shows "filter is_summary (lines (text_of (stdout_lines M opts head s tail_lines))) = (if tail_lines = [] then [] else [summary_line ne nt])"
proof -
  let ?ms = "concat (map (message_lines ''mptest'') (msgs s))"
  have m: "\<forall>l\<in>set (head @ ?ms). other_line l" using assms(1) message_other by auto
  have out: "stdout_lines M opts head s tail_lines = (head @ ?ms) @ tail_lines"
    by (simp add: stdout_lines_def process_name_def assms(3,4))
  have "lines (text_of (stdout_lines M opts head s tail_lines)) = map strip_cr ((head @ ?ms) @ tail_lines)"
    unfolding out using m assms(2) summary_line_is(3) by (intro lines_of_text) (auto simp: other_line_def)
  moreover have none: "filter is_summary (map strip_cr xs) = []" if "\<forall>l\<in>set xs. other_line l" for xs
    using that strip_cr_summary by (auto simp: other_line_def filter_empty_conv)
  moreover have "filter is_summary (map strip_cr tail_lines) = (if tail_lines = [] then [] else [summary_line ne nt])"
    using assms(2) none [of "[l]" for l] summary_line_is(1,2) by auto
  ultimately show ?thesis using none [OF m] by (simp only: map_append filter_append append_Nil)
qed

text \<open>
  C14: The verdict on a script is that of its master, whatever the clients print in between. When the master ends with
  its summary, the numbers reported are those it counted, the item is ok exactly when there is no error, which is
  exactly when the exit code is 0, and then the master wrote no error message; when it ends before, by a fatal
  error or because the script exits, the item is broken.
\<close>

theorem suite_item_verdict:
  assumes "mptest_main E M depth (db # rest) e = Some (Ended code head s tail_lines)" "opts = main_options rest"
    "mo_client opts = None" "mo_log opts = None" "\<forall>a\<in>set (mc_argv0 M # db # rest). LF \<notin> set a" "\<forall>l\<in>set (mc_about M). other_line l"
    "n_error s < 2 ^ 63" "n_test s < 2 ^ 64" "errs s < 2 ^ 63" "\<And>e. 0 \<le> fst (mc_counts M e) \<and> fst (mc_counts M e) < 2 ^ 31"
    "lines (sx_stdout x @ [LF] @ sx_stderr x) \<in> shuffles (lines (text_of (stdout_lines M opts head s tail_lines))) noise"
    "\<forall>l\<in>set noise. \<not> is_summary l" "\<not> sx_spawn_err x" "\<not> sx_timed_out x"
  shows "sq_item (Some x) = (if tail_lines = [] then (SqBroken, 0, 0) else (if n_error s = 0 then SqOk else SqFail, n_error s, n_test s)) \<and>
    (tail_lines \<noteq> [] \<longrightarrow> (code = 0 \<longleftrightarrow> n_error s = 0)) \<and> (fst (sq_item (Some x)) = SqOk \<longrightarrow> errs s = 0)"
proof -
  let ?s0 = "start_state opts db e"
  have s0: "n_error ?s0 = 0" "errs ?s0 = 0" "db_file ?s0 = db" by (simp_all add: start_state_def errs_def)
  have "(\<forall>l\<in>set head. other_line l) \<and> (tail_lines = [] \<or>
      (code = exit_code s \<and> (\<exists>u found. accounted ?s0 u \<and> s = add_counters M (u, found)) \<and>
       (\<exists>l. tail_lines = [summary_line (n_error s) (n_test s), l] \<and> other_line l)))"
  proof (cases "strglob ''*.test'' db \<or> \<not> (log_opens M (mo_errlog opts) \<and> log_opens M (mo_log opts))")
    case True
    then show ?thesis using assms(1,2) by (auto simp: mptest_main_def Let_def split: if_splits)
  next
    case False
    then have "master_main E M depth (db # rest) opts ?s0 = Ended code head s tail_lines"
      using assms(1-3) by (auto simp: mptest_main_def Let_def)
    then show ?thesis by (rule master_end) (use assms(5,6) s0 in auto)
  qed
  then have head: "\<forall>l\<in>set head. other_line l" and tl: "tail_lines = [] \<or> (\<exists>l. tail_lines = [summary_line (n_error s) (n_test s), l] \<and> other_line l)"
    and fin: "tail_lines \<noteq> [] \<Longrightarrow> code = exit_code s \<and> (\<exists>u found. accounted ?s0 u \<and> s = add_counters M (u, found))" by auto
  let ?S = "if tail_lines = [] then [] else [summary_line (n_error s) (n_test s)]"
  have "filter is_summary (lines (sx_stdout x @ [LF] @ sx_stderr x)) \<in> shuffles ?S (filter is_summary noise)"
  proof -
    have "filter is_summary (lines (sx_stdout x @ [LF] @ sx_stderr x)) \<in>
        shuffles (filter is_summary (lines (text_of (stdout_lines M opts head s tail_lines)))) (filter is_summary noise)"
      unfolding filter_shuffles [symmetric] using assms(11) by (rule imageI)
    then show ?thesis by (simp only: stdout_summaries [OF head tl assms(3,4)])
  qed
  moreover have "filter is_summary noise = []" using assms(12) by (simp add: filter_empty_conv)
  ultimately have "filter is_summary (lines (sx_stdout x @ [LF] @ sx_stderr x)) = ?S" by simp
  then have f: "figures (parse_run (sx_stdout x @ [LF] @ sx_stderr x)) = (if tail_lines = [] then (0, 0, False) else (n_error s, n_test s, True))"
    using assms(7,8) summary_figures [of "n_error s" "n_test s"] by (simp add: parse_run_def fold_figures no_sq_def)
  then have i: "sq_item (Some x) = (if tail_lines = [] then (SqBroken, 0, 0) else (if n_error s = 0 then SqOk else SqFail, n_error s, n_test s))"
    using assms(13,14) by (auto simp: sq_item_def split: if_splits)
  moreover have "code = 0 \<longleftrightarrow> n_error s = 0" if "tail_lines \<noteq> []" using fin [OF that] by (simp add: exit_code_def)
  moreover have "errs s = 0" if "fst (sq_item (Some x)) = SqOk"
  proof -
    have t: "tail_lines \<noteq> []" "n_error s = 0" using that i by (auto split: if_splits)
    obtain u found where u: "accounted ?s0 u" "s = add_counters M (u, found)" using fin [OF t(1)] by blast
    show ?thesis using no_error_clean [OF u t(2) s0(1,2) assms(9)] assms(10) by blast
  qed
  ultimately show ?thesis by blast
qed

section \<open>A run\<close>

text \<open>A machine without files.\<close>

definition still_machine :: "unit machine" where
  "still_machine = \<lparr>mc_remove = \<lambda>e f. (e, True), mc_exists = \<lambda>e f. False, mc_open = \<lambda>e f v c. (e, None), mc_log_opens = \<lambda>f. True,
     mc_builtin = \<lambda>t n. False, mc_counts = \<lambda>e. (0, 0), mc_about = [], mc_argv0 = ''fstest'', mc_pid = 1\<rparr>"

definition done_state :: "unit mpt" where
  "done_state = \<lparr>eng = (), n_error = 0, n_test = 0, i_trace = 0, i_timeout = 0, ignore_sql_errors = False,
     sql_trace = False, b_sync = False, vfs = None, db_file = ''d'', msgs = []\<rparr>"

lemma still_run:
  "mptest_main still_engine still_machine 0 [''d'', ''a'', ''--quiet''] () =
     Some (Ended 0 [] done_state [summary_line 0 0, ''END: fstest d a --quiet''])"
  by code_simp

lemma still_options: "mo_client (main_options [''a'', ''--quiet'']) = None" "mo_log (main_options [''a'', ''--quiet'']) = None"
  by code_simp+

lemma text_of_snoc: "text_of ls @ [LF] = text_of (ls @ [[]])"
  by (simp add: text_of_def)

lemma lines_blank: "(\<And>l. l \<in> set ls \<Longrightarrow> LF \<notin> set l) \<Longrightarrow> lines (text_of ls @ [LF]) = lines (text_of ls) @ [[]]"
proof -
  assume ls: "\<And>l. l \<in> set ls \<Longrightarrow> LF \<notin> set l"
  then have "lines (text_of (ls @ [[]])) = map strip_cr (ls @ [[]])" by (intro lines_of_text) auto
  then show ?thesis using lines_of_text [OF ls] by (simp add: text_of_snoc strip_cr_def)
qed

text \<open>Printing one after the other is one of the orders.\<close>

lemma append_shuffles: "xs @ ys \<in> shuffles xs ys"
  by (induction xs) (auto intro: Cons_in_shuffles_leftI)

lemma suite_item_verdict_witness:
  "sq_item (Some \<lparr>sx_timed_out = False, sx_stdout = text_of [summary_line 0 0, ''END: fstest d a --quiet''], sx_stderr = [],
     sx_spawn_err = False\<rparr>) = (SqOk, 0, 0)"
proof -
  let ?ls = "[summary_line 0 0, ''END: fstest d a --quiet'']"
  let ?x = "\<lparr>sx_timed_out = False, sx_stdout = text_of ?ls, sx_stderr = [], sx_spawn_err = False\<rparr>"
  let ?o = "main_options [''a'', ''--quiet'']"
  have out: "stdout_lines still_machine ?o [] done_state ?ls = ?ls" by (simp add: stdout_lines_def done_state_def)
  have l: "lines (text_of ?ls @ [LF] @ []) = lines (text_of ?ls) @ [[]]"
    using lines_blank [of ?ls] summary_line_is(3) [of 0 0] by force
  have m: "lines (sx_stdout ?x @ [LF] @ sx_stderr ?x) \<in> shuffles (lines (text_of (stdout_lines still_machine ?o [] done_state ?ls))) [[]]"
    unfolding out sq_exec.simps l by (rule append_shuffles)
  show ?thesis
    using suite_item_verdict [OF still_run refl still_options _ _ _ _ _ _ m]
    by (simp add: still_machine_def done_state_def errs_def starts_with_def)
qed

end
