(* ===== verification/Spec2Isabelle.thy ===== *)
theory Spec2Isabelle
  imports Fsx_Properties Fsx_Log_Properties Fsstress_Properties Mptest_Properties Mdtest_Properties
    Mdworkbench_Properties Smallfile_Properties Fsmark_Properties Runner_Properties Proc_Exec_Properties Cli_Properties
    Pjd_Helper_Properties Stdfs_Properties Mptest_Verdict
begin

text \<open>
  A verification library for fstest, a Rust program that ports and wraps file-system test suites as
  subcommands (src/src/*.rs).

  Fsx. The suite fsx (src/src/fsx.rs) is a data-integrity fuzzer: it applies random operations to one
  file and to a shadow buffer and compares the two. Glibc\_Random models its random generator,
  Fsx\_Log the ring of logged operations, its dump and the parser of recorded operations, Fsx\_Shadow the
  state and the reads, writes and truncations, Fsx\_Ranges the range operations and the choice of offsets,
  Fsx\_Run the probing, the set-up, one iteration and the loop. The record \<open>fsx\<close> has the fields of the
  struct Fsx; the kernel is a field of its own type, and its system calls are the record \<open>sysops\<close>
  that every operation takes. A panic and a loop that does not return are the value None.

  Fsx\_Laws states what POSIX and Linux document of the system calls on a regular file
  (\<open>posix_file\<close>), and that the shadow buffer holds the file (\<open>shadow_ok\<close>). Fsx\_Correct,
  Fsx\_Range\_Correct and Fsx\_Copy\_Correct show for each operation that on such a file it returns and
  keeps the invariant or reports a failed system call; Fsx\_Run\_Correct shows it for an iteration and
  for the loop. Fsx\_Reference has a file kept in memory that satisfies the laws, and
  the set-up of a run. Fsx\_Properties and Fsx\_Log\_Properties state the properties, with witnesses.

  Fsstress. The suite fsstress (src/src/fsstress.rs) lets threads apply random operations to a tree of
  files. Fsstress models the lists of entries by type, their numbers and parents and the names built
  from them; Fsstress\_Ops every operation with its counters; Fsstress\_Run the frequency table, a
  thread's loop, threads that share one file system under any schedule, the clean-up, and the report
  that the handler of SIGBUS builds byte by byte. Fsstress\_Correct shows the invariant of the entry
  lists and the bookkeeping of every operation, Fsstress\_Properties states the properties.

  Mptest. The subcommand sqlite (src/src/sqlite.rs) ports mptest, which lets several processes run test
  scripts on one database. Mptest\_Text models the glob matcher, the terms of results and the tokenizer;
  Mptest\_Engine the state of a process, the callbacks of the engine, starting of and waiting for clients
  and the claim of a task; Mptest\_Script the interpreter of scripts. The engine is a record
  of functions over an arbitrary state, so it also stands for what other processes do. Mptest\_Glob
  relates the matcher to a declarative one. Every slice and index of the interpreter is checked in the model, and
  Mptest\_Correct shows that none goes out of range;
  Mptest\_Counters has the locale \<open>process_relation\<close> of relations that every step keeps, Mptest\_Claims its
  interpretations and the shared table of counters, with what SQLite documents of it (\<open>counter_table\<close>) and the runs without
  other failures than locks (\<open>fails_for_locks_only\<close>), Mptest\_Properties the properties. The sourcing of
  scripts by scripts is bounded by the argument \<open>depth\<close>, the stack of the process; all else in the
  interpreter ends because every token has a byte.

  Mptest\_Main models the process around the interpreter: its options, the set-up, the loop of a client and the
  run of a master with its shutdown, the counters of the clients and the summary (\<open>mptest_main\<close>); Mptest\_Suite the
  subcommand that starts a master for every script and reads its output (\<open>command_line\<close>, \<open>parse_run\<close>). What
  the process needs beside the engine is the record \<open>machine\<close>. Mptest\_Suite\_Properties shows that options arrive,
  selected scripts are found and clients do not wait for ever; Mptest\_Verdict follows a master to its summary and
  states what the verdict on a script means.

  Mdtest. The workload mdtest (src/src/mdtest.rs) creates, stats, reads, renames and removes numbered
  items in a tree of directories, with one thread per rank. Mdtest models the arguments, their checks
  and resolution, names, paths, contents and the random order; Mdtest\_Run the phases over a file
  system that is a record of functions; Mdtest\_Rank the sequence of a rank with its barriers,
  iterations and counts. Mdtest\_Tree relates the recursion over the directories to the numbers of
  items, Mdtest\_Properties states the properties. Ranks meet at barriers only, so the theory follows one
  rank, and the calls of the others are part of the file system.

  Mdworkbench. The workload mdworkbench (src/src/mdworkbench.rs) keeps a working set of objects that ranks
  read, delete and create in each other's data sets. Mdworkbench models a rank in the benchmark as a
  machine with a program counter whose steps are its calls, all ranks over one file system and the
  shared counters of the stonewall (\<open>bench_reaches\<close>, \<open>run_bench\<close>), and the phases of a run.
  Mdworkbench\_Correct gives the objects that exist at any point as a function of where the ranks are, and
  shows that every step keeps it; Mdworkbench\_Run bounds the length of an iteration, Mdworkbench\_Sets
  treats precreation and clean-up, Mdworkbench\_Wear the counters of the stonewall,
  Mdworkbench\_Properties states the properties. Offsets are below 2 ^ 63, and the timer is a bit of each step.

  Smallfile. The workload smallfile (src/src/smallfile.rs) runs one operation after the other on many small
  files, with threads that have files of their own. Smallfile models the parameters, the names of directories
  and files, sizes, the pattern buffer and dates; Smallfile\_Run the loop over the files with the stonewall,
  every operation, a thread and the counts of a phase. Smallfile\_Names treats the loops that name
  directories, Smallfile\_Calendar the dates, Smallfile\_Content what is in a file, Smallfile\_Loop
  the loop over the files and the directories made up front; Smallfile\_Properties states the properties. The
  calls of other threads are part of the file system, which also holds the flag of the stonewall.

  Fsmark. The workload fsmark (src/src/fsmark.rs) has threads create, write, flush and remove files and
  reports the rates. Fsmark models the options, their resolution and the statistics; Fsmark\_Run the names
  of files with the random generator and the subdirectory policies, writing and flushing, one thread, and
  the iterations with their counts and percentiles. The record \<open>fm_ops\<close> holds the file system and the
  clock; \<open>fm_laws\<close> states what POSIX documents of the calls on files. Fsmark\_Names treats names and
  subdirectories, Fsmark\_Files the files that the calls leave, Fsmark\_Loop the iterations and the
  statistics; Fsmark\_Properties states the properties on a small file system as well. The threads of an
  iteration run one after the other, as they share only the file system; the rate of an
  iteration, a floating-point number, is a parameter.

  Runners. Three suites start scripts or programs of others and judge what they print. Git\_Runner
  (src/src/git.rs) models the selection of scripts, the TAP parser and the verdicts, and shows that the
  parser counts every line once; Work\_Queue the queue of its parallel workers, as a step relation with an
  invariant and a measure that every step makes smaller; Ltp\_Runner (src/src/ltp.rs) the removal list, run files, exit codes and counts; Pjd\_Runner
  (src/src/pjdfstest.rs) the output of a script, its plan and the report. There what a script prints, its exit code
  and whether it was killed are data. Runner\_Properties says what an ok verdict means.

  Processes. Proc\_Exec models how these runners, and those of sqlite and stdfs, start a program, ask for its end,
  kill it at its time limit and read its pipes (\<open>run_limited\<close>, \<open>ltp_exec\<close>, \<open>pjd_exec\<close>). The operating system is the
  record \<open>proc_ops\<close> over an abstract world; \<open>clock_laws\<close> states what is relied on, which is the clock alone. Rust\_Utf8 models how
  bytes are read as text and how the end of a long text is kept. Proc\_Exec\_Properties shows that
  the watching of a program ends within its limit, at which calls of the operating system a run can still block, and
  where keeping the end of an output panics.

  Helper. The scripts of pjdfstest make their system calls through a helper of the same program (src/src/pjdfstest.rs,
  helper\_main). Pjd\_Helper models its numbers and flags, every system call with its arguments, the table of
  descriptors, the options with the change of credentials, and the chain of calls. The kernel is a function from a
  state and a call (\<open>sys_call\<close>) to a state and an errno or a reply; the constants of the C library are the record
  \<open>libc_env\<close>. Pjd\_Helper\_Correct follows the calls with a kernel that logs them, and shows which descriptors
  they use; Pjd\_Helper\_Properties states the properties.

  Stdfs. The suite stdfs (src/src/stdfs.rs) runs the file-system tests of the standard libraries of four languages.
  Stdfs models the parsers of their outputs, the choice of files and the verdicts; Stdfs\_Rust the rewriting of
  the tests of the Rust library: the search for tests, the extent of their functions by the depth of braces, the
  table of tests and the lines emitted. Stdfs\_Properties relates counts to lines and the table to the lines,
  and says what an ok verdict means when the Rust tests do not fail, and that their failures are lost otherwise.

  Fio and the command line. Fio models the driver of fio (src/src/fio.rs): the command line made from the options, the
  checks, and the report made of fio's JSON output, over a record of what is used of the JSON library (\<open>json_ops\<close>). Cli
  models src/src/main.rs: helper modes, dispatch, the report that is written and printed, the exit code. Cli\_Properties
  says when the program exits with success and when by a panic of the suite, for fio down to what fio itself did.

  Not modelled. build.rs places files at build time and has no run-time logic. The discovery of test trees, the
  environment of the programs that are started and the JSON reports of the other suites are made of calls to the
  operating system and to libraries, with little logic between them.

  FsPrelude holds Rust's slice operations with their panics, Rust\_Text the string operations of
  Rust's standard library.

  Loops that may not return are partial functions into the option type, so that returning is
  proved. The ranges are unbounded naturals: the code keeps offsets far below 2 ^ 63.
\<close>

end
